(* ===== verification/Svmx_Prelude.thy ===== *)
theory Svmx_Prelude
  imports Main "HOL-Library.Word" "HOL-Library.Monad_Syntax"
begin

text \<open>
  Shared vocabulary of the development: the fixed-width integer types of
  \<^verbatim>\<open>int-ll64.h\<close>, the bit-mask macros of \<^verbatim>\<open>pch.h\<close>, the status codes
  the driver returns, and the lemmas on words and options that more than one component uses.

  Conventions. A C function that can fault on a bad pointer, or whose loop may not end,
  returns an \<^typ>\<open>'a option\<close>: the value \<^const>\<open>None\<close> stands for a fault or for not returning,
  so a theorem that a call yields \<^const>\<open>Some\<close> states memory safety and termination as well
  as the result. A C \<^verbatim>\<open>int\<close> that carries a status is an \<^typ>\<open>int\<close>, with the
  \<^verbatim>\<open>ntstatus.h\<close> codes as their signed 32-bit values.
\<close>

unbundle bit_operations_syntax

section \<open>Fixed-width integers\<close>

type_synonym u8 = "8 word"
type_synonym u16 = "16 word"
type_synonym u32 = "32 word"
type_synonym u64 = "64 word"
type_synonym gfn_t = "64 word"
type_synonym gpa_t = "64 word"
type_synonym hpa_t = "64 word"
type_synonym kvm_pfn_t = "64 word"

named_theorems bit_masks \<open>definitions of bit masks, unfolded to evaluate them\<close>

definition BIT_ULL :: "nat \<Rightarrow> u64" where [bit_masks]:
  "BIT_ULL nr = push_bit nr 1"

definition GENMASK_ULL :: "nat \<Rightarrow> nat \<Rightarrow> u64" where [bit_masks]:
  "GENMASK_ULL h l = push_bit l (NOT 0) AND drop_bit (64 - 1 - h) (NOT 0)"

abbreviation PAGE_SHIFT :: nat where "PAGE_SHIFT \<equiv> 12"
abbreviation PAGE_SIZE :: u64 where "PAGE_SIZE \<equiv> 4096"

section \<open>Status codes\<close>

definition STATUS_SUCCESS :: int where "STATUS_SUCCESS = 0"
definition STATUS_UNSUCCESSFUL :: int where "STATUS_UNSUCCESSFUL = -1073741823"
definition STATUS_INVALID_PARAMETER :: int where "STATUS_INVALID_PARAMETER = -1073741811"
definition STATUS_NO_MEMORY :: int where "STATUS_NO_MEMORY = -1073741801"
definition STATUS_ALREADY_COMMITTED :: int where "STATUS_ALREADY_COMMITTED = -1073741791"
definition STATUS_INSUFFICIENT_RESOURCES :: int where "STATUS_INSUFFICIENT_RESOURCES = -1073741670"
definition STATUS_IO_DEVICE_ERROR :: int where "STATUS_IO_DEVICE_ERROR = -1073741435"
definition STATUS_FAIL_CHECK :: int where "STATUS_FAIL_CHECK = -1073741271"

lemmas status_defs = STATUS_SUCCESS_def STATUS_UNSUCCESSFUL_def STATUS_INVALID_PARAMETER_def
  STATUS_NO_MEMORY_def STATUS_ALREADY_COMMITTED_def STATUS_INSUFFICIENT_RESOURCES_def
  STATUS_IO_DEVICE_ERROR_def STATUS_FAIL_CHECK_def

definition NT_SUCCESS :: "int \<Rightarrow> bool" where
  "NT_SUCCESS r \<longleftrightarrow> 0 \<le> r"

section \<open>Bits of words\<close>

lemma bit_NOT_word [simp]:
  "bit (NOT w :: 'a::len word) n \<longleftrightarrow> n < LENGTH('a) \<and> \<not> bit w n"
  by (simp add: bit_not_iff)

lemma bit_3_iff: "bit (3 :: u64) n \<longleftrightarrow> n = 0 \<or> n = 1"
proof -
  have three: "(3 :: u64) = mask 2" by (simp add: mask_eq_exp_minus_1)
  show ?thesis unfolding three by (auto simp add: bit_mask_iff less_2_cases_iff)
qed

lemma bit_1_word_iff: "bit (1 :: 'a::len word) n \<longleftrightarrow> n = 0"
  by (simp add: bit_1_iff)

lemma unat_drop_bit_div: "unat (drop_bit n (w :: 'a::len word)) = unat w div 2 ^ n"
  by (subst unat_drop_bit_eq) (rule drop_bit_eq_div)

lemma unat_ucast_u64: "unat (ucast (w :: u32) :: u64) = unat w"
proof -
  have "unat w < 2 ^ 64" using unsigned_less [of w, where ?'a = nat] by simp
  then show ?thesis by (simp add: unsigned_ucast_eq take_bit_nat_eq_self)
qed

lemma bit_above_less:
  assumes "(w :: u64) < 2 ^ k" "k \<le> n" "k < 64"
  shows "\<not> bit w n"
proof -
  have "unat (2 ^ k :: u64) = 2 ^ k"
    using unat_of_nat [of "2 ^ k", where 'a = 64] power_strict_increasing [of k 64 "2 :: nat"] assms(3) by simp
  then have "unat w < 2 ^ k" using assms(1) by (simp add: word_less_nat_alt)
  also have "(2 :: nat) ^ k \<le> 2 ^ n" using assms(2) by simp
  finally have "unat (drop_bit n w) = 0" by (simp add: unat_drop_bit_div)
  then show ?thesis by (simp add: bit_iff_odd_drop_bit unat_eq_zero)
qed

text \<open>Adding disjoint words is or-ing them, so a tag bit below an aligned address stays readable.\<close>

lemma add_eq_or:
  fixes a b :: "'a::len word"
  shows "a AND b = 0 \<Longrightarrow> a + b = a OR b"
  by (rule disjunctive_add) (metis bit_0_eq bit_and_iff bot_apply bot_bool_def)

end
