(* ===== verification/Rbtree.thy ===== *)
theory Rbtree
  imports Svmx_Prelude
begin

text \<open>
  Model of the intrusive red-black tree: \<^verbatim>\<open>rbtree_types.h\<close>, \<^verbatim>\<open>rbtree.h\<close>,
  \<^verbatim>\<open>rbtree_augmented.h\<close> and \<^verbatim>\<open>rbtree.c\<close>.

  Memory is a partial map from node addresses to \<^verbatim>\<open>struct rb_node\<close> values; the root
  pointer of the \<^verbatim>\<open>struct rb_root\<close> in use travels with it. Reading or writing through
  a NULL or unmapped pointer makes the operation return \<^const>\<open>None\<close>. A node keeps its parent
  pointer and its colour in one word, as the C code does: the colour is bit 0 of
  \<open>rb_parent_color\<close>, the parent the word with its two low bits cleared. Function names drop
  the leading underscores of the source and prefix \<open>raw_\<close> instead.
\<close>

section \<open>Nodes and memory\<close>

record rb_node =
  rb_parent_color :: u64
  rb_right :: u64
  rb_left :: u64

type_synonym rb_mem = "u64 \<rightharpoonup> rb_node"

record rb_state =
  rb_mem :: rb_mem
  rb_root :: u64

definition rb_load :: "rb_state \<Rightarrow> u64 \<Rightarrow> rb_node option" where
  "rb_load s p = (if p = 0 then None else rb_mem s p)"

definition rb_store :: "rb_state \<Rightarrow> u64 \<Rightarrow> rb_node \<Rightarrow> rb_state" where
  "rb_store s p n = s\<lparr>rb_mem := (rb_mem s)(p \<mapsto> n)\<rparr>"

definition get_left :: "rb_state \<Rightarrow> u64 \<Rightarrow> u64 option" where
  "get_left s p = map_option rb_left (rb_load s p)"

definition get_right :: "rb_state \<Rightarrow> u64 \<Rightarrow> u64 option" where
  "get_right s p = map_option rb_right (rb_load s p)"

definition get_pc :: "rb_state \<Rightarrow> u64 \<Rightarrow> u64 option" where
  "get_pc s p = map_option rb_parent_color (rb_load s p)"

definition set_left :: "rb_state \<Rightarrow> u64 \<Rightarrow> u64 \<Rightarrow> rb_state option" where
  "set_left s p v = map_option (\<lambda>n. rb_store s p (n\<lparr>rb_left := v\<rparr>)) (rb_load s p)"

definition set_right :: "rb_state \<Rightarrow> u64 \<Rightarrow> u64 \<Rightarrow> rb_state option" where
  "set_right s p v = map_option (\<lambda>n. rb_store s p (n\<lparr>rb_right := v\<rparr>)) (rb_load s p)"

definition set_pc :: "rb_state \<Rightarrow> u64 \<Rightarrow> u64 \<Rightarrow> rb_state option" where
  "set_pc s p v = map_option (\<lambda>n. rb_store s p (n\<lparr>rb_parent_color := v\<rparr>)) (rb_load s p)"

section \<open>The parent and colour word\<close>

definition RB_RED :: u64 where "RB_RED = 0"
definition RB_BLACK :: u64 where "RB_BLACK = 1"

definition pc_parent :: "u64 \<Rightarrow> u64" where
  "pc_parent pc = pc AND NOT 3"

definition pc_color :: "u64 \<Rightarrow> u64" where
  "pc_color pc = pc AND 1"

definition pc_is_black :: "u64 \<Rightarrow> bool" where
  "pc_is_black pc \<longleftrightarrow> pc_color pc \<noteq> 0"

definition pc_is_red :: "u64 \<Rightarrow> bool" where
  "pc_is_red pc \<longleftrightarrow> \<not> pc_color pc \<noteq> 0"

definition rb_parent :: "rb_state \<Rightarrow> u64 \<Rightarrow> u64 option" where
  "rb_parent s r = map_option pc_parent (get_pc s r)"

definition rb_is_red :: "rb_state \<Rightarrow> u64 \<Rightarrow> bool option" where
  "rb_is_red s r = map_option pc_is_red (get_pc s r)"

definition rb_is_black :: "rb_state \<Rightarrow> u64 \<Rightarrow> bool option" where
  "rb_is_black s r = map_option pc_is_black (get_pc s r)"

definition RB_EMPTY_ROOT :: "rb_state \<Rightarrow> bool" where
  "RB_EMPTY_ROOT s \<longleftrightarrow> rb_root s = 0"

definition RB_EMPTY_NODE :: "rb_state \<Rightarrow> u64 \<Rightarrow> bool option" where
  "RB_EMPTY_NODE s node = map_option (\<lambda>pc. pc = node) (get_pc s node)"

definition rb_set_parent :: "rb_state \<Rightarrow> u64 \<Rightarrow> u64 \<Rightarrow> rb_state option" where
  "rb_set_parent s rb p = do {
     pc \<leftarrow> get_pc s rb;
     set_pc s rb (pc_color pc + p)
   }"

definition rb_set_parent_color :: "rb_state \<Rightarrow> u64 \<Rightarrow> u64 \<Rightarrow> u64 \<Rightarrow> rb_state option" where
  "rb_set_parent_color s rb p color = set_pc s rb (p + color)"

definition rb_set_black :: "rb_state \<Rightarrow> u64 \<Rightarrow> rb_state option" where
  "rb_set_black s rb = do {
     pc \<leftarrow> get_pc s rb;
     set_pc s rb (pc + RB_BLACK)
   }"

definition rb_red_parent :: "rb_state \<Rightarrow> u64 \<Rightarrow> u64 option" where
  "rb_red_parent s red = get_pc s red"

section \<open>Augmentation callbacks\<close>

text \<open>
  The tree is only ever used with the dummy callbacks, which ignore their arguments. They stay
  parameters of the internal functions, as in the source.
\<close>

type_synonym rb_callback = "u64 \<Rightarrow> u64 \<Rightarrow> rb_state \<Rightarrow> rb_state"

record rb_augment_callbacks =
  cb_propagate :: rb_callback
  cb_copy :: rb_callback
  cb_rotate :: rb_callback

definition dummy_propagate :: rb_callback where
  "dummy_propagate node stop s = s"

definition dummy_copy :: rb_callback where
  "dummy_copy old new s = s"

definition dummy_rotate :: rb_callback where
  "dummy_rotate old new s = s"

definition dummy_callbacks :: rb_augment_callbacks where
  "dummy_callbacks =
     \<lparr>cb_propagate = dummy_propagate, cb_copy = dummy_copy, cb_rotate = dummy_rotate\<rparr>"

lemmas dummy_defs = dummy_callbacks_def dummy_propagate_def dummy_copy_def dummy_rotate_def

section \<open>Linking a node\<close>

text \<open>The \<^verbatim>\<open>struct rb_node**\<close> the insertion walk hands to \<^verbatim>\<open>rb_link_node\<close>.\<close>

datatype rb_link = Link_root | Link_left u64 | Link_right u64

fun read_link :: "rb_state \<Rightarrow> rb_link \<Rightarrow> u64 option" where
  "read_link s Link_root = Some (rb_root s)"
| "read_link s (Link_left p) = get_left s p"
| "read_link s (Link_right p) = get_right s p"

fun write_link :: "rb_state \<Rightarrow> rb_link \<Rightarrow> u64 \<Rightarrow> rb_state option" where
  "write_link s Link_root v = Some (s\<lparr>rb_root := v\<rparr>)"
| "write_link s (Link_left p) v = set_left s p v"
| "write_link s (Link_right p) v = set_right s p v"

definition rb_link_node :: "rb_state \<Rightarrow> u64 \<Rightarrow> u64 \<Rightarrow> rb_link \<Rightarrow> rb_state option" where
  "rb_link_node s node parent rb_link = do {
     s \<leftarrow> set_pc s node parent;
     s \<leftarrow> set_right s node 0;
     s \<leftarrow> set_left s node 0;
     write_link s rb_link node
   }"

definition raw_rb_change_child :: "rb_state \<Rightarrow> u64 \<Rightarrow> u64 \<Rightarrow> u64 \<Rightarrow> rb_state option" where
  "raw_rb_change_child s old new parent =
     (if parent \<noteq> 0 then do {
        l \<leftarrow> get_left s parent;
        if l = old then set_left s parent new else set_right s parent new
      }
      else Some (s\<lparr>rb_root := new\<rparr>))"

definition raw_rb_rotate_set_parents :: "rb_state \<Rightarrow> u64 \<Rightarrow> u64 \<Rightarrow> u64 \<Rightarrow> rb_state option" where
  "raw_rb_rotate_set_parents s old new color = do {
     parent \<leftarrow> rb_parent s old;
     opc \<leftarrow> get_pc s old;
     s \<leftarrow> set_pc s new opc;
     s \<leftarrow> rb_set_parent_color s old new color;
     raw_rb_change_child s old new parent
   }"

section \<open>Insertion\<close>

text \<open>
  \<open>insert_rotate_left\<close> is the tail of the loop body for a parent that is a left child (cases 2
  and 3 of the source), \<open>insert_rotate_right\<close> its mirror image; \<open>insert_flip\<close> is case 1 up to
  the \<^verbatim>\<open>continue\<close>, returning the next node and parent.
\<close>

definition insert_flip :: "rb_state \<Rightarrow> u64 \<Rightarrow> u64 \<Rightarrow> u64 \<Rightarrow> (rb_state \<times> u64 \<times> u64) option" where
  "insert_flip s tmp parent gparent = do {
     s \<leftarrow> rb_set_parent_color s tmp gparent RB_BLACK;
     s \<leftarrow> rb_set_parent_color s parent gparent RB_BLACK;
     gg \<leftarrow> rb_parent s gparent;
     s \<leftarrow> rb_set_parent_color s gparent gg RB_RED;
     Some (s, gparent, gg)
   }"

definition insert_rotate_left ::
  "rb_callback \<Rightarrow> rb_state \<Rightarrow> u64 \<Rightarrow> u64 \<Rightarrow> u64 \<Rightarrow> rb_state option" where
  "insert_rotate_left augment_rotate s node parent gparent = do {
     tmp \<leftarrow> get_right s parent;
     (s, parent, tmp) \<leftarrow>
       (if node = tmp then do {
          tmp \<leftarrow> get_left s node;
          s \<leftarrow> set_right s parent tmp;
          s \<leftarrow> set_left s node parent;
          s \<leftarrow> (if tmp \<noteq> 0 then rb_set_parent_color s tmp parent RB_BLACK else Some s);
          s \<leftarrow> rb_set_parent_color s parent node RB_RED;
          let s = augment_rotate parent node s;
          tmp \<leftarrow> get_right s node;
          Some (s, node, tmp)
        }
        else Some (s, parent, tmp));
     s \<leftarrow> set_left s gparent tmp;
     s \<leftarrow> set_right s parent gparent;
     s \<leftarrow> (if tmp \<noteq> 0 then rb_set_parent_color s tmp gparent RB_BLACK else Some s);
     s \<leftarrow> raw_rb_rotate_set_parents s gparent parent RB_RED;
     Some (augment_rotate gparent parent s)
   }"

definition insert_rotate_right ::
  "rb_callback \<Rightarrow> rb_state \<Rightarrow> u64 \<Rightarrow> u64 \<Rightarrow> u64 \<Rightarrow> rb_state option" where
  "insert_rotate_right augment_rotate s node parent gparent = do {
     tmp \<leftarrow> get_left s parent;
     (s, parent, tmp) \<leftarrow>
       (if node = tmp then do {
          tmp \<leftarrow> get_right s node;
          s \<leftarrow> set_left s parent tmp;
          s \<leftarrow> set_right s node parent;
          s \<leftarrow> (if tmp \<noteq> 0 then rb_set_parent_color s tmp parent RB_BLACK else Some s);
          s \<leftarrow> rb_set_parent_color s parent node RB_RED;
          let s = augment_rotate parent node s;
          tmp \<leftarrow> get_left s node;
          Some (s, node, tmp)
        }
        else Some (s, parent, tmp));
     s \<leftarrow> set_right s gparent tmp;
     s \<leftarrow> set_left s parent gparent;
     s \<leftarrow> (if tmp \<noteq> 0 then rb_set_parent_color s tmp gparent RB_BLACK else Some s);
     s \<leftarrow> raw_rb_rotate_set_parents s gparent parent RB_RED;
     Some (augment_rotate gparent parent s)
   }"

partial_function (option) raw_rb_insert_loop ::
  "rb_callback \<Rightarrow> rb_state \<Rightarrow> u64 \<Rightarrow> u64 \<Rightarrow> rb_state option" where
  "raw_rb_insert_loop augment_rotate s node parent =
     (if parent = 0 then rb_set_parent_color s node 0 RB_BLACK
      else do {
        black \<leftarrow> rb_is_black s parent;
        if black then Some s
        else do {
          gparent \<leftarrow> rb_red_parent s parent;
          tmp \<leftarrow> get_right s gparent;
          if parent \<noteq> tmp then do {
            red \<leftarrow> (if tmp \<noteq> 0 then rb_is_red s tmp else Some False);
            if red then do {
              r \<leftarrow> insert_flip s tmp parent gparent;
              raw_rb_insert_loop augment_rotate (fst r) (fst (snd r)) (snd (snd r))
            }
            else insert_rotate_left augment_rotate s node parent gparent
          }
          else do {
            tmp \<leftarrow> get_left s gparent;
            red \<leftarrow> (if tmp \<noteq> 0 then rb_is_red s tmp else Some False);
            if red then do {
              r \<leftarrow> insert_flip s tmp parent gparent;
              raw_rb_insert_loop augment_rotate (fst r) (fst (snd r)) (snd (snd r))
            }
            else insert_rotate_right augment_rotate s node parent gparent
          }
        }
      })"

definition raw_rb_insert :: "rb_callback \<Rightarrow> rb_state \<Rightarrow> u64 \<Rightarrow> rb_state option" where
  "raw_rb_insert augment_rotate s node = do {
     parent \<leftarrow> rb_red_parent s node;
     raw_rb_insert_loop augment_rotate s node parent
   }"

definition rb_insert_color :: "rb_state \<Rightarrow> u64 \<Rightarrow> rb_state option" where
  "rb_insert_color s node = raw_rb_insert dummy_rotate s node"

section \<open>Erasure\<close>

text \<open>
  \<open>erase_successor\<close> is the \<^verbatim>\<open>do ... while\<close> that walks to the leftmost node of the
  right subtree, with its two trailing pointers.
\<close>

partial_function (option) erase_successor ::
  "rb_state \<Rightarrow> u64 \<Rightarrow> u64 \<Rightarrow> (u64 \<times> u64) option" where
  "erase_successor s successor tmp = do {
     let parent = successor;
     let successor = tmp;
     tmp \<leftarrow> get_left s tmp;
     if tmp \<noteq> 0 then erase_successor s successor tmp else Some (parent, successor)
   }"

definition erase_no_left ::
  "rb_state \<Rightarrow> u64 \<Rightarrow> u64 \<Rightarrow> (rb_state \<times> u64 \<times> u64) option" where
  "erase_no_left s node child = do {
     pc \<leftarrow> get_pc s node;
     let parent = pc_parent pc;
     s \<leftarrow> raw_rb_change_child s node child parent;
     if child \<noteq> 0 then do {
       s \<leftarrow> set_pc s child pc;
       Some (s, 0, parent)
     }
     else Some (s, if pc_is_black pc then parent else 0, parent)
   }"

definition erase_no_right ::
  "rb_state \<Rightarrow> u64 \<Rightarrow> u64 \<Rightarrow> (rb_state \<times> u64 \<times> u64) option" where
  "erase_no_right s node tmp = do {
     pc \<leftarrow> get_pc s node;
     s \<leftarrow> set_pc s tmp pc;
     let parent = pc_parent pc;
     s \<leftarrow> raw_rb_change_child s node tmp parent;
     Some (s, 0, parent)
   }"

text \<open>
  The case of two children in its two halves: taking the successor out of the right subtree,
  and splicing it in where \<open>node\<close> was.
\<close>

definition erase_take_successor ::
  "rb_augment_callbacks \<Rightarrow> rb_state \<Rightarrow> u64 \<Rightarrow> u64 \<Rightarrow> (rb_state \<times> u64 \<times> u64 \<times> u64) option" where
  "erase_take_successor augment s node child = do {
     tmp \<leftarrow> get_left s child;
     if tmp = 0 then do {
       child2 \<leftarrow> get_right s child;
       Some (cb_copy augment node child s, child, child, child2)
     }
     else do {
       (parent, successor) \<leftarrow> erase_successor s child tmp;
       child2 \<leftarrow> get_right s successor;
       s \<leftarrow> set_left s parent child2;
       s \<leftarrow> set_right s successor child;
       s \<leftarrow> rb_set_parent s child successor;
       let s = cb_propagate augment parent successor (cb_copy augment node successor s);
       Some (s, parent, successor, child2)
     }
   }"

definition erase_splice ::
  "rb_state \<Rightarrow> u64 \<Rightarrow> u64 \<Rightarrow> u64 \<Rightarrow> u64 \<Rightarrow> (rb_state \<times> u64 \<times> u64) option" where
  "erase_splice s node parent successor child2 = do {
     tmp \<leftarrow> get_left s node;
     s \<leftarrow> set_left s successor tmp;
     s \<leftarrow> rb_set_parent s tmp successor;
     pc \<leftarrow> get_pc s node;
     let tmp = pc_parent pc;
     s \<leftarrow> raw_rb_change_child s node successor tmp;
     (s, rebalance) \<leftarrow>
       (if child2 \<noteq> 0 then do {
          s \<leftarrow> rb_set_parent_color s child2 parent RB_BLACK;
          Some (s, 0)
        }
        else do {
          black \<leftarrow> rb_is_black s successor;
          Some (s, if black then parent else 0)
        });
     s \<leftarrow> set_pc s successor pc;
     Some (s, rebalance, successor)
   }"

definition erase_two_children ::
  "rb_augment_callbacks \<Rightarrow> rb_state \<Rightarrow> u64 \<Rightarrow> u64 \<Rightarrow> (rb_state \<times> u64 \<times> u64) option" where
  "erase_two_children augment s node child = do {
     (s, parent, successor, child2) \<leftarrow> erase_take_successor augment s node child;
     erase_splice s node parent successor child2
   }"

definition raw_rb_erase_augmented ::
  "rb_augment_callbacks \<Rightarrow> rb_state \<Rightarrow> u64 \<Rightarrow> (rb_state \<times> u64) option" where
  "raw_rb_erase_augmented augment s node = do {
     child \<leftarrow> get_right s node;
     tmp \<leftarrow> get_left s node;
     (s, rebalance, tmp) \<leftarrow>
       (if tmp = 0 then erase_no_left s node child
        else if child = 0 then erase_no_right s node tmp
        else erase_two_children augment s node child);
     Some (cb_propagate augment tmp 0 s, rebalance)
   }"

text \<open>
  One pass of the rebalancing loop, for a deficient left child (\<open>erase_left_*\<close>) and its
  mirror image. \<open>erase_left_red_sibling\<close> is case 1, \<open>erase_left_inner\<close> case 3 and
  \<open>erase_left_outer\<close> case 4; case 2 stays in the loop, which it may continue.
\<close>

definition erase_left_red_sibling ::
  "rb_callback \<Rightarrow> rb_state \<Rightarrow> u64 \<Rightarrow> u64 \<Rightarrow> (rb_state \<times> u64) option" where
  "erase_left_red_sibling augment_rotate s parent sibling = do {
     tmp1 \<leftarrow> get_left s sibling;
     s \<leftarrow> set_right s parent tmp1;
     s \<leftarrow> set_left s sibling parent;
     s \<leftarrow> rb_set_parent_color s tmp1 parent RB_BLACK;
     s \<leftarrow> raw_rb_rotate_set_parents s parent sibling RB_RED;
     Some (augment_rotate parent sibling s, tmp1)
   }"

definition erase_left_inner ::
  "rb_callback \<Rightarrow> rb_state \<Rightarrow> u64 \<Rightarrow> u64 \<Rightarrow> u64 \<Rightarrow> rb_state option" where
  "erase_left_inner augment_rotate s parent sibling tmp2 = do {
     tmp1 \<leftarrow> get_right s tmp2;
     s \<leftarrow> set_left s sibling tmp1;
     s \<leftarrow> set_right s tmp2 sibling;
     s \<leftarrow> set_right s parent tmp2;
     s \<leftarrow> (if tmp1 \<noteq> 0 then rb_set_parent_color s tmp1 sibling RB_BLACK else Some s);
     Some (augment_rotate sibling tmp2 s)
   }"

definition erase_left_outer ::
  "rb_callback \<Rightarrow> rb_state \<Rightarrow> u64 \<Rightarrow> u64 \<Rightarrow> u64 \<Rightarrow> rb_state option" where
  "erase_left_outer augment_rotate s parent sibling tmp1 = do {
     tmp2 \<leftarrow> get_left s sibling;
     s \<leftarrow> set_right s parent tmp2;
     s \<leftarrow> set_left s sibling parent;
     s \<leftarrow> rb_set_parent_color s tmp1 sibling RB_BLACK;
     s \<leftarrow> (if tmp2 \<noteq> 0 then rb_set_parent s tmp2 parent else Some s);
     s \<leftarrow> raw_rb_rotate_set_parents s parent sibling RB_BLACK;
     Some (augment_rotate parent sibling s)
   }"

definition erase_right_red_sibling ::
  "rb_callback \<Rightarrow> rb_state \<Rightarrow> u64 \<Rightarrow> u64 \<Rightarrow> (rb_state \<times> u64) option" where
  "erase_right_red_sibling augment_rotate s parent sibling = do {
     tmp1 \<leftarrow> get_right s sibling;
     s \<leftarrow> set_left s parent tmp1;
     s \<leftarrow> set_right s sibling parent;
     s \<leftarrow> rb_set_parent_color s tmp1 parent RB_BLACK;
     s \<leftarrow> raw_rb_rotate_set_parents s parent sibling RB_RED;
     Some (augment_rotate parent sibling s, tmp1)
   }"

definition erase_right_inner ::
  "rb_callback \<Rightarrow> rb_state \<Rightarrow> u64 \<Rightarrow> u64 \<Rightarrow> u64 \<Rightarrow> rb_state option" where
  "erase_right_inner augment_rotate s parent sibling tmp2 = do {
     tmp1 \<leftarrow> get_left s tmp2;
     s \<leftarrow> set_right s sibling tmp1;
     s \<leftarrow> set_left s tmp2 sibling;
     s \<leftarrow> set_left s parent tmp2;
     s \<leftarrow> (if tmp1 \<noteq> 0 then rb_set_parent_color s tmp1 sibling RB_BLACK else Some s);
     Some (augment_rotate sibling tmp2 s)
   }"

definition erase_right_outer ::
  "rb_callback \<Rightarrow> rb_state \<Rightarrow> u64 \<Rightarrow> u64 \<Rightarrow> u64 \<Rightarrow> rb_state option" where
  "erase_right_outer augment_rotate s parent sibling tmp1 = do {
     tmp2 \<leftarrow> get_right s sibling;
     s \<leftarrow> set_left s parent tmp2;
     s \<leftarrow> set_right s sibling parent;
     s \<leftarrow> rb_set_parent_color s tmp1 sibling RB_BLACK;
     s \<leftarrow> (if tmp2 \<noteq> 0 then rb_set_parent s tmp2 parent else Some s);
     s \<leftarrow> raw_rb_rotate_set_parents s parent sibling RB_BLACK;
     Some (augment_rotate parent sibling s)
   }"

definition null_or_black :: "rb_state \<Rightarrow> u64 \<Rightarrow> bool option" where
  "null_or_black s p = (if p = 0 then Some True else rb_is_black s p)"

text \<open>
  \<open>erase_flip\<close> is case 2: the sibling turns red and either a red parent absorbs the missing
  black (\<open>None\<close> as the continuation) or the loop goes on one level up.
\<close>

definition erase_flip ::
  "rb_state \<Rightarrow> u64 \<Rightarrow> u64 \<Rightarrow> (rb_state \<times> (u64 \<times> u64) option) option" where
  "erase_flip s parent sibling = do {
     s \<leftarrow> rb_set_parent_color s sibling parent RB_RED;
     red \<leftarrow> rb_is_red s parent;
     if red then do {
       s \<leftarrow> rb_set_black s parent;
       Some (s, None)
     }
     else do {
       gparent \<leftarrow> rb_parent s parent;
       if gparent \<noteq> 0 then Some (s, Some (parent, gparent)) else Some (s, None)
     }
   }"

definition erase_left_pass ::
  "rb_callback \<Rightarrow> rb_state \<Rightarrow> u64 \<Rightarrow> u64 \<Rightarrow> (rb_state \<times> (u64 \<times> u64) option) option" where
  "erase_left_pass augment_rotate s parent sibling = do {
     red \<leftarrow> rb_is_red s sibling;
     (s, sibling) \<leftarrow>
       (if red then erase_left_red_sibling augment_rotate s parent sibling else Some (s, sibling));
     tmp1 \<leftarrow> get_right s sibling;
     b1 \<leftarrow> null_or_black s tmp1;
     if b1 then do {
       tmp2 \<leftarrow> get_left s sibling;
       b2 \<leftarrow> null_or_black s tmp2;
       if b2 then erase_flip s parent sibling
       else do {
         s \<leftarrow> erase_left_inner augment_rotate s parent sibling tmp2;
         s \<leftarrow> erase_left_outer augment_rotate s parent tmp2 sibling;
         Some (s, None)
       }
     }
     else do {
       s \<leftarrow> erase_left_outer augment_rotate s parent sibling tmp1;
       Some (s, None)
     }
   }"

definition erase_right_pass ::
  "rb_callback \<Rightarrow> rb_state \<Rightarrow> u64 \<Rightarrow> u64 \<Rightarrow> (rb_state \<times> (u64 \<times> u64) option) option" where
  "erase_right_pass augment_rotate s parent sibling = do {
     red \<leftarrow> rb_is_red s sibling;
     (s, sibling) \<leftarrow>
       (if red then erase_right_red_sibling augment_rotate s parent sibling else Some (s, sibling));
     tmp1 \<leftarrow> get_left s sibling;
     b1 \<leftarrow> null_or_black s tmp1;
     if b1 then do {
       tmp2 \<leftarrow> get_right s sibling;
       b2 \<leftarrow> null_or_black s tmp2;
       if b2 then erase_flip s parent sibling
       else do {
         s \<leftarrow> erase_right_inner augment_rotate s parent sibling tmp2;
         s \<leftarrow> erase_right_outer augment_rotate s parent tmp2 sibling;
         Some (s, None)
       }
     }
     else do {
       s \<leftarrow> erase_right_outer augment_rotate s parent sibling tmp1;
       Some (s, None)
     }
   }"

definition erase_pass ::
  "rb_callback \<Rightarrow> rb_state \<Rightarrow> u64 \<Rightarrow> u64 \<Rightarrow> (rb_state \<times> (u64 \<times> u64) option) option" where
  "erase_pass augment_rotate s node parent = do {
     sibling \<leftarrow> get_right s parent;
     if node \<noteq> sibling then erase_left_pass augment_rotate s parent sibling
     else do {
       sibling \<leftarrow> get_left s parent;
       erase_right_pass augment_rotate s parent sibling
     }
   }"

partial_function (option) raw_rb_erase_color_loop ::
  "rb_callback \<Rightarrow> rb_state \<Rightarrow> u64 \<Rightarrow> u64 \<Rightarrow> rb_state option" where
  "raw_rb_erase_color_loop augment_rotate s node parent = do {
     r \<leftarrow> erase_pass augment_rotate s node parent;
     (case snd r of
        None \<Rightarrow> Some (fst r)
      | Some np \<Rightarrow> raw_rb_erase_color_loop augment_rotate (fst r) (fst np) (snd np))
   }"

definition raw_rb_erase_color :: "rb_callback \<Rightarrow> rb_state \<Rightarrow> u64 \<Rightarrow> rb_state option" where
  "raw_rb_erase_color augment_rotate s parent = raw_rb_erase_color_loop augment_rotate s 0 parent"

definition rb_erase :: "rb_state \<Rightarrow> u64 \<Rightarrow> rb_state option" where
  "rb_erase s node = do {
     (s, rebalance) \<leftarrow> raw_rb_erase_augmented dummy_callbacks s node;
     if rebalance \<noteq> 0 then raw_rb_erase_color dummy_rotate s rebalance else Some s
   }"

section \<open>Replacement and traversal\<close>

definition rb_replace_node :: "rb_state \<Rightarrow> u64 \<Rightarrow> u64 \<Rightarrow> rb_state option" where
  "rb_replace_node s victim new = do {
     parent \<leftarrow> rb_parent s victim;
     v \<leftarrow> rb_load s victim;
     _ \<leftarrow> rb_load s new;
     let s = rb_store s new v;
     l \<leftarrow> get_left s victim;
     s \<leftarrow> (if l \<noteq> 0 then rb_set_parent s l new else Some s);
     r \<leftarrow> get_right s victim;
     s \<leftarrow> (if r \<noteq> 0 then rb_set_parent s r new else Some s);
     raw_rb_change_child s victim new parent
   }"

partial_function (option) rightmost :: "rb_state \<Rightarrow> u64 \<Rightarrow> u64 option" where
  "rightmost s n = do {
     r \<leftarrow> get_right s n;
     if r \<noteq> 0 then rightmost s r else Some n
   }"

partial_function (option) leftmost :: "rb_state \<Rightarrow> u64 \<Rightarrow> u64 option" where
  "leftmost s n = do {
     l \<leftarrow> get_left s n;
     if l \<noteq> 0 then leftmost s l else Some n
   }"

partial_function (option) ascend_while_right :: "rb_state \<Rightarrow> u64 \<Rightarrow> u64 option" where
  "ascend_while_right s node = do {
     parent \<leftarrow> rb_parent s node;
     if parent = 0 then Some parent
     else do {
       r \<leftarrow> get_right s parent;
       if node = r then ascend_while_right s parent else Some parent
     }
   }"

partial_function (option) ascend_while_left :: "rb_state \<Rightarrow> u64 \<Rightarrow> u64 option" where
  "ascend_while_left s node = do {
     parent \<leftarrow> rb_parent s node;
     if parent = 0 then Some parent
     else do {
       l \<leftarrow> get_left s parent;
       if node = l then ascend_while_left s parent else Some parent
     }
   }"

definition rb_last :: "rb_state \<Rightarrow> u64 option" where
  "rb_last s = (if rb_root s = 0 then Some 0 else rightmost s (rb_root s))"

definition rb_next :: "rb_state \<Rightarrow> u64 \<Rightarrow> u64 option" where
  "rb_next s node = do {
     e \<leftarrow> RB_EMPTY_NODE s node;
     if e then Some 0
     else do {
       r \<leftarrow> get_right s node;
       if r \<noteq> 0 then leftmost s r else ascend_while_right s node
     }
   }"

definition rb_prev :: "rb_state \<Rightarrow> u64 \<Rightarrow> u64 option" where
  "rb_prev s node = do {
     e \<leftarrow> RB_EMPTY_NODE s node;
     if e then Some 0
     else do {
       l \<leftarrow> get_left s node;
       if l \<noteq> 0 then rightmost s l else ascend_while_left s node
     }
   }"

end
