(* ===== verification/Rbtree_Spec.thy ===== *)
theory Rbtree_Spec
  imports Rbtree
begin

text \<open>
  The abstract side of the red-black tree: coloured trees of node addresses with their
  invariants, contexts (zippers) that describe the position the bottom-up loops work at, the
  two rebalancing loops as functions on trees, and the relation \<open>tree_at\<close> / \<open>ctx_at\<close> between a
  memory and a tree. The heap theories prove that the pointer code computes these functions.
\<close>

section \<open>Coloured trees\<close>

datatype rbcol = Red | Black

datatype rtree = Lf | Nd rbcol rtree u64 rtree

fun rinorder :: "rtree \<Rightarrow> u64 list" where
  "rinorder Lf = []"
| "rinorder (Nd c l a r) = rinorder l @ a # rinorder r"

fun rcolor :: "rtree \<Rightarrow> rbcol" where
  "rcolor Lf = Black"
| "rcolor (Nd c l a r) = c"

fun rpaint :: "rbcol \<Rightarrow> rtree \<Rightarrow> rtree" where
  "rpaint c Lf = Lf"
| "rpaint c (Nd _ l a r) = Nd c l a r"

fun bh :: "rtree \<Rightarrow> nat" where
  "bh Lf = 0"
| "bh (Nd c l a r) = (if c = Black then Suc (bh l) else bh l)"

text \<open>Property 4 of the source: no red node has a red child.\<close>

fun invc :: "rtree \<Rightarrow> bool" where
  "invc Lf = True"
| "invc (Nd c l a r) =
     ((c = Red \<longrightarrow> rcolor l = Black \<and> rcolor r = Black) \<and> invc l \<and> invc r)"

text \<open>Property 5: every path to a leaf has the same number of black nodes.\<close>

fun invh :: "rtree \<Rightarrow> bool" where
  "invh Lf = True"
| "invh (Nd c l a r) = (bh l = bh r \<and> invh l \<and> invh r)"

definition rbt_ok :: "rtree \<Rightarrow> bool" where
  "rbt_ok t \<longleftrightarrow> invc t \<and> invh t \<and> rcolor t = Black"

lemma rbcol_neq [simp]: "c \<noteq> Black \<longleftrightarrow> c = Red" "c \<noteq> Red \<longleftrightarrow> c = Black"
  by (cases c; simp)+

lemma rinorder_paint [simp]: "rinorder (rpaint c t) = rinorder t"
  by (cases t) auto

lemma rpaint_same [simp]: "rcolor t = Black \<Longrightarrow> rpaint Black t = t"
  by (cases t) auto

lemma rcolor_paint_Black [simp]: "rcolor (rpaint Black t) = Black"
  by (cases t) auto

lemma invh_paint [simp]: "invh (rpaint c t) = invh t"
  by (cases t) auto

lemma invc_paint_Black [simp]: "invc t \<Longrightarrow> invc (rpaint Black t)"
  by (cases t) auto

lemma bh_paint_Black: "rcolor t = Red \<Longrightarrow> bh (rpaint Black t) = Suc (bh t)"
  by (cases t) auto

fun rheight :: "rtree \<Rightarrow> nat" where
  "rheight Lf = 0"
| "rheight (Nd c l a r) = Suc (max (rheight l) (rheight r))"

lemma rheight_bh: "invc t \<Longrightarrow> invh t \<Longrightarrow> rheight t \<le> 2 * bh t + (if rcolor t = Red then 1 else 0)"
  by (induction t) (auto split: if_splits)

lemma bh_size: "invh t \<Longrightarrow> 2 ^ bh t \<le> Suc (length (rinorder t))"
proof (induction t)
  case (Nd c l a r)
  then have "2 ^ bh l + 2 ^ bh r \<le> Suc (length (rinorder l)) + Suc (length (rinorder r))"
    by (meson add_mono invh.simps(2))
  moreover from Nd.prems have "bh l = bh r" by simp
  ultimately show ?case by (auto simp: add.commute)
qed simp

section \<open>Contexts\<close>

text \<open>
  A context is the path from a position to the root: \<open>HL c a s\<close> is a node \<open>a\<close> of colour \<open>c\<close>
  whose left child is the position and whose right subtree is \<open>s\<close>; \<open>HR c s a\<close> its mirror image.
\<close>

datatype frame = HL rbcol u64 rtree | HR rbcol rtree u64

type_synonym ctx = "frame list"

fun plug :: "ctx \<Rightarrow> rtree \<Rightarrow> rtree" where
  "plug [] t = t"
| "plug (HL c a s # k) t = plug k (Nd c t a s)"
| "plug (HR c s a # k) t = plug k (Nd c s a t)"

lemma ctx_induct [case_names Nil HL HR]:
  assumes "P []" and "\<And>c a s k. P k \<Longrightarrow> P (HL c a s # k)" and "\<And>c s a k. P k \<Longrightarrow> P (HR c s a # k)"
  shows "P k"
proof (induction k)
  case (Cons f k)
  then show ?case by (cases f) (auto intro: assms)
qed (rule assms)

fun faddr :: "frame \<Rightarrow> u64" where
  "faddr (HL c a s) = a"
| "faddr (HR c s a) = a"

fun fcolor :: "frame \<Rightarrow> rbcol" where
  "fcolor (HL c a s) = c"
| "fcolor (HR c s a) = c"

fun fsib :: "frame \<Rightarrow> rtree" where
  "fsib (HL c a s) = s"
| "fsib (HR c s a) = s"

fun parent_addr :: "ctx \<Rightarrow> u64" where
  "parent_addr [] = 0"
| "parent_addr (f # k) = faddr f"

definition ctx_color :: "ctx \<Rightarrow> rbcol" where
  "ctx_color k = (case k of [] \<Rightarrow> Black | f # _ \<Rightarrow> fcolor f)"

lemma ctx_color_simps [simp]:
  "ctx_color [] = Black" "ctx_color (f # k) = fcolor f"
  by (simp_all add: ctx_color_def)

fun before :: "ctx \<Rightarrow> u64 list" where
  "before [] = []"
| "before (HL c a s # k) = before k"
| "before (HR c s a # k) = before k @ rinorder s @ [a]"

fun after :: "ctx \<Rightarrow> u64 list" where
  "after [] = []"
| "after (HL c a s # k) = a # rinorder s @ after k"
| "after (HR c s a # k) = after k"

lemma rinorder_plug: "rinorder (plug k t) = before k @ rinorder t @ after k"
  by (induction k t rule: plug.induct) auto

definition ctx_addrs :: "ctx \<Rightarrow> u64 set" where
  "ctx_addrs k = set (before k) \<union> set (after k)"

lemma ctx_addrs_simps [simp]:
  "ctx_addrs [] = {}"
  "ctx_addrs (HL c a s # k) = insert a (set (rinorder s) \<union> ctx_addrs k)"
  "ctx_addrs (HR c s a # k) = insert a (set (rinorder s) \<union> ctx_addrs k)"
  by (auto simp: ctx_addrs_def)

text \<open>All addresses of a tree in context are distinct, in the form the heap proofs consume.\<close>

fun ctx_distinct :: "ctx \<Rightarrow> bool" where
  "ctx_distinct [] = True"
| "ctx_distinct (f # k) = (faddr f \<notin> set (rinorder (fsib f)) \<and> faddr f \<notin> ctx_addrs k \<and>
     set (rinorder (fsib f)) \<inter> ctx_addrs k = {} \<and> distinct (rinorder (fsib f)) \<and> ctx_distinct k)"

lemma ctx_addrs_frame: "ctx_addrs (f # k) = insert (faddr f) (set (rinorder (fsib f)) \<union> ctx_addrs k)"
  by (cases f) auto

lemma distinct_plug:
  "distinct (rinorder (plug k t)) \<longleftrightarrow>
     distinct (rinorder t) \<and> ctx_distinct k \<and> set (rinorder t) \<inter> ctx_addrs k = {}"
proof (induction k t rule: plug.induct)
  case (2 c a s k t)
  then show ?case by auto
next
  case (3 c s a k t)
  then show ?case by auto
qed simp

text \<open>
  What a context demands of the tree in its hole: black height \<open>n\<close>, and black colour when the
  enclosing node is red. A red node is never the root.
\<close>

fun ctx_ok :: "ctx \<Rightarrow> nat \<Rightarrow> bool" where
  "ctx_ok [] n = True"
| "ctx_ok (f # k) n =
     (invc (fsib f) \<and> invh (fsib f) \<and> bh (fsib f) = n \<and>
      (fcolor f = Red \<longrightarrow> rcolor (fsib f) = Black \<and> k \<noteq> [] \<and> ctx_color k = Black) \<and>
      ctx_ok k (if fcolor f = Black then Suc n else n))"

lemma ctx_ok_plug:
  "ctx_ok k (bh t) \<Longrightarrow> invc t \<Longrightarrow> invh t \<Longrightarrow>
   (rcolor t = Red \<longrightarrow> k \<noteq> [] \<and> ctx_color k = Black) \<Longrightarrow> rbt_ok (plug k t)"
proof (induction k arbitrary: t rule: ctx_induct)
  case Nil
  then show ?case by (auto simp: rbt_ok_def)
next
  case (HL c a s k)
  show ?case
    using HL.prems by (cases c) (auto intro!: HL.IH)
next
  case (HR c s a k)
  show ?case
    using HR.prems by (cases c) (auto intro!: HR.IH)
qed

lemma ctx_ok_of_plug:
  "rbt_ok (plug k t) \<Longrightarrow>
   ctx_ok k (bh t) \<and> invc t \<and> invh t \<and> (rcolor t = Red \<longrightarrow> k \<noteq> [] \<and> ctx_color k = Black)"
proof (induction k t rule: plug.induct)
  case (1 t)
  then show ?case by (auto simp: rbt_ok_def)
next
  case (2 c a s k t)
  then show ?case by (cases c) auto
next
  case (3 c s a k t)
  then show ?case by (cases c) auto
qed

section \<open>Trees in memory\<close>

fun color_bit :: "rbcol \<Rightarrow> u64" where
  "color_bit Red = RB_RED"
| "color_bit Black = RB_BLACK"

fun root_addr :: "rtree \<Rightarrow> u64" where
  "root_addr Lf = 0"
| "root_addr (Nd c l a r) = a"

lemma root_addr_paint [simp]: "root_addr (rpaint c t) = root_addr t"
  by (cases t) auto

text \<open>Node addresses are non-null and at least 4-byte aligned, so the colour bit does not clash.\<close>

definition node_addr :: "u64 \<Rightarrow> bool" where
  "node_addr a \<longleftrightarrow> a \<noteq> 0 \<and> a AND 3 = 0"

definition ptr_ok :: "u64 \<Rightarrow> bool" where
  "ptr_ok p \<longleftrightarrow> p AND 3 = 0"

definition mk_node :: "u64 \<Rightarrow> rbcol \<Rightarrow> u64 \<Rightarrow> u64 \<Rightarrow> rb_node" where
  "mk_node parent c l r = \<lparr>rb_parent_color = parent + color_bit c, rb_right = r, rb_left = l\<rparr>"

fun tree_at :: "rb_mem \<Rightarrow> u64 \<Rightarrow> rtree \<Rightarrow> bool" where
  "tree_at m parent Lf = True"
| "tree_at m parent (Nd c l a r) =
     (node_addr a \<and> m a = Some (mk_node parent c (root_addr l) (root_addr r)) \<and>
      tree_at m a l \<and> tree_at m a r)"

fun ctx_at :: "rb_mem \<Rightarrow> u64 \<Rightarrow> u64 \<Rightarrow> ctx \<Rightarrow> bool" where
  "ctx_at m root p [] = (root = p)"
| "ctx_at m root p (HL c a s # k) =
     (node_addr a \<and> m a = Some (mk_node (parent_addr k) c p (root_addr s)) \<and>
      tree_at m a s \<and> ctx_at m root a k)"
| "ctx_at m root p (HR c s a # k) =
     (node_addr a \<and> m a = Some (mk_node (parent_addr k) c (root_addr s) p) \<and>
      tree_at m a s \<and> ctx_at m root a k)"

text \<open>A state holds tree \<open>t\<close>: the whole tree hangs off the root pointer and no node occurs twice.\<close>

definition holds_tree :: "rb_state \<Rightarrow> rtree \<Rightarrow> bool" where
  "holds_tree s t \<longleftrightarrow>
     tree_at (rb_mem s) 0 t \<and> rb_root s = root_addr t \<and> distinct (rinorder t)"

lemma tree_at_plug:
  "tree_at m 0 (plug k t) \<and> root = root_addr (plug k t) \<longleftrightarrow>
   tree_at m (parent_addr k) t \<and> ctx_at m root (root_addr t) k"
proof (induction k t rule: plug.induct)
  case (2 c a s k t)
  then show ?case by auto
next
  case (3 c s a k t)
  then show ?case by auto
qed auto

lemma holds_tree_plug:
  "holds_tree s (plug k t) \<longleftrightarrow>
     tree_at (rb_mem s) (parent_addr k) t \<and> ctx_at (rb_mem s) (rb_root s) (root_addr t) k \<and>
     distinct (rinorder t) \<and> ctx_distinct k \<and> set (rinorder t) \<inter> ctx_addrs k = {}"
  using tree_at_plug [of "rb_mem s" k t "rb_root s"]
  by (auto simp: holds_tree_def distinct_plug)

text \<open>Frame rules: a write outside a tree or context leaves it in place.\<close>

lemma tree_at_upd [simp]: "a \<notin> set (rinorder t) \<Longrightarrow> tree_at (m(a \<mapsto> n)) p t = tree_at m p t"
  by (induction t arbitrary: p) auto

lemma ctx_at_upd [simp]: "a \<notin> ctx_addrs k \<Longrightarrow> ctx_at (m(a \<mapsto> n)) root p k = ctx_at m root p k"
  by (induction k arbitrary: p rule: ctx_induct) auto

lemma tree_at_cong: "(\<And>x. x \<in> set (rinorder t) \<Longrightarrow> m' x = m x) \<Longrightarrow> tree_at m' p t = tree_at m p t"
  by (induction t arbitrary: p) auto

lemma tree_at_node_addr: "tree_at m p t \<Longrightarrow> x \<in> set (rinorder t) \<Longrightarrow> node_addr x"
  by (induction t arbitrary: p) auto

lemma ctx_at_node_addr: "ctx_at m root p k \<Longrightarrow> x \<in> ctx_addrs k \<Longrightarrow> node_addr x"
  by (induction k arbitrary: p rule: ctx_induct) (auto dest: tree_at_node_addr)

lemma parent_addr_ok: "ctx_at m root p k \<Longrightarrow> parent_addr k AND 3 = 0"
  by (cases "(m, root, p, k)" rule: ctx_at.cases) (auto simp: node_addr_def)

lemma root_addr_in: "t \<noteq> Lf \<Longrightarrow> root_addr t \<in> set (rinorder t)"
  by (cases t) auto

lemma root_addr_eq_0: "tree_at m p t \<Longrightarrow> root_addr t = 0 \<longleftrightarrow> t = Lf"
  by (cases t) (auto simp: node_addr_def)

section \<open>Evaluating the pointer operations on a tree in memory\<close>

named_theorems rb_ops \<open>definitions of the memory accessors, for evaluating pointer code\<close>

declare get_left_def [rb_ops] get_right_def [rb_ops] get_pc_def [rb_ops]
  set_left_def [rb_ops] set_right_def [rb_ops] set_pc_def [rb_ops] rb_store_def [rb_ops]
  rb_parent_def [rb_ops] rb_is_red_def [rb_ops] rb_is_black_def [rb_ops]
  rb_set_parent_def [rb_ops] rb_set_parent_color_def [rb_ops] rb_set_black_def [rb_ops]
  rb_red_parent_def [rb_ops] raw_rb_rotate_set_parents_def [rb_ops] dummy_defs [rb_ops]

lemma rb_load_node [rb_ops]: "node_addr a \<Longrightarrow> rb_load s a = rb_mem s a"
  by (simp add: rb_load_def node_addr_def)

lemma node_addr_nz [simp]: "node_addr a \<Longrightarrow> a \<noteq> 0"
  by (simp add: node_addr_def)

lemma mk_node_sel [simp]:
  "rb_left (mk_node p c l r) = l" "rb_right (mk_node p c l r) = r"
  "rb_parent_color (mk_node p c l r) = p + color_bit c"
  by (simp_all add: mk_node_def)

lemma mk_node_upd [simp]:
  "(mk_node p c l r)\<lparr>rb_left := x\<rparr> = mk_node p c x r"
  "(mk_node p c l r)\<lparr>rb_right := x\<rparr> = mk_node p c l x"
  "(mk_node p c l r)\<lparr>rb_parent_color := q + color_bit c'\<rparr> = mk_node q c' l r"
  "(mk_node p c l r)\<lparr>rb_parent_color := q + RB_RED\<rparr> = mk_node q Red l r"
  "(mk_node p c l r)\<lparr>rb_parent_color := q + RB_BLACK\<rparr> = mk_node q Black l r"
  by (simp_all add: mk_node_def)

lemma mk_node_upd_swapped [simp]:
  "(mk_node p c l r)\<lparr>rb_parent_color := color_bit c' + q\<rparr> = mk_node q c' l r"
  "(mk_node p c l r)\<lparr>rb_parent_color := RB_RED + q\<rparr> = mk_node q Red l r"
  "(mk_node p c l r)\<lparr>rb_parent_color := RB_BLACK + q\<rparr> = mk_node q Black l r"
  by (simp_all add: mk_node_def add.commute)

lemma mk_node_red_parent [simp]: "mk_node (q + RB_RED) c l r = mk_node q c l r"
  by (simp add: RB_RED_def)

lemma mk_node_upd0 [simp]:
  "(mk_node p c l r)\<lparr>rb_parent_color := RB_BLACK\<rparr> = mk_node 0 Black l r"
  "(mk_node p c l r)\<lparr>rb_parent_color := color_bit c'\<rparr> = mk_node 0 c' l r"
  by (simp_all add: mk_node_def)

lemma aligned_add_bit:
  fixes p :: u64
  assumes "p AND 3 = 0"
  shows "p + color_bit c = p OR color_bit c"
proof (cases c)
  case Black
  have "p AND 1 = (p AND 3) AND 1" by (simp add: and.assoc)
  with assms Black show ?thesis by (simp add: RB_BLACK_def add_eq_or)
qed (simp add: RB_RED_def)

lemma bit_pc_parent: "bit (pc_parent x) n \<longleftrightarrow> bit x n \<and> n \<noteq> 0 \<and> n \<noteq> 1"
  using bit_imp_le_length [of x n]
  by (simp only: pc_parent_def bit_and_iff bit_NOT_word bit_3_iff) auto

lemma bit_color_bit: "bit (color_bit c) n \<longleftrightarrow> c = Black \<and> n = 0"
  by (cases c) (simp_all add: RB_RED_def RB_BLACK_def bit_1_iff)

lemma pc_parent_mk [simp]:
  assumes "p AND 3 = 0"
  shows "pc_parent (p + color_bit c) = p"
proof -
  have "\<not> bit p 0" "\<not> bit p 1"
    using arg_cong [OF assms, of "\<lambda>w. bit w 0"] arg_cong [OF assms, of "\<lambda>w. bit w 1"]
    by (simp_all only: bit_and_iff bit_3_iff bit_0_eq) auto
  then show ?thesis
    by (intro bit_word_eqI)
      (auto simp: bit_pc_parent aligned_add_bit [OF assms] bit_or_iff bit_color_bit intro: gr0I)
qed

lemma pc_color_mk [simp]:
  assumes "p AND 3 = 0"
  shows "pc_color (p + color_bit c) = color_bit c"
proof -
  have "p AND 1 = (p AND 3) AND 1" by (simp add: and.assoc)
  with assms have p1: "p AND 1 = 0" by simp
  show ?thesis
    unfolding pc_color_def aligned_add_bit [OF assms] bit.conj_disj_distrib2 p1
    by (cases c) (simp_all add: RB_RED_def RB_BLACK_def)
qed

lemma color_bit_inj [simp]: "color_bit c \<noteq> 0 \<longleftrightarrow> c = Black" "color_bit c = 0 \<longleftrightarrow> c = Red"
  by (cases c; simp add: RB_RED_def RB_BLACK_def)+

lemma pc_is_red_mk [simp]: "p AND 3 = 0 \<Longrightarrow> pc_is_red (p + color_bit c) \<longleftrightarrow> c = Red"
  by (simp add: pc_is_red_def)

lemma pc_is_black_mk [simp]: "p AND 3 = 0 \<Longrightarrow> pc_is_black (p + color_bit c) \<longleftrightarrow> c = Black"
  by (simp add: pc_is_black_def)

lemma pc_mk_const [simp]:
  assumes "p AND 3 = 0"
  shows "pc_parent (p + RB_RED) = p" "pc_parent (p + RB_BLACK) = p"
    "pc_is_black (p + RB_BLACK)" "\<not> pc_is_black (p + RB_RED)"
    "pc_is_red (p + RB_RED)" "\<not> pc_is_red (p + RB_BLACK)"
    "pc_color (p + RB_RED) = RB_RED" "pc_color (p + RB_BLACK) = RB_BLACK"
  using assms pc_parent_mk [of p Red] pc_parent_mk [of p Black] pc_is_black_mk [of p Black]
    pc_is_black_mk [of p Red] pc_is_red_mk [of p Red] pc_is_red_mk [of p Black]
    pc_color_mk [of p Red] pc_color_mk [of p Black]
  by simp_all

lemma pc_mk_zero [simp]:
  "pc_parent RB_RED = 0" "pc_parent RB_BLACK = 0" "pc_is_black RB_BLACK" "\<not> pc_is_black RB_RED"
  using pc_mk_const [of 0] by simp_all

lemma node_addr_aligned [simp]: "node_addr a \<Longrightarrow> a AND 3 = 0"
  by (simp only: node_addr_def)

lemma color_bit_Red: "p + color_bit Red = p" "p + RB_RED = p"
  by (simp_all add: RB_RED_def)

lemma color_pc_Red [simp]: "pc_is_red p \<longleftrightarrow> \<not> pc_is_black p"
  by (simp add: pc_is_red_def pc_is_black_def)

text \<open>
  Replacing the child pointer above a position, as \<^verbatim>\<open>__rb_change_child\<close> does: \<open>relink\<close> is its
  effect when the position is described by a context.
\<close>

fun relink :: "rb_state \<Rightarrow> ctx \<Rightarrow> u64 \<Rightarrow> rb_state" where
  "relink s [] new = s\<lparr>rb_root := new\<rparr>"
| "relink s (HL c a sb # k) new = rb_store s a (mk_node (parent_addr k) c new (root_addr sb))"
| "relink s (HR c sb a # k) new = rb_store s a (mk_node (parent_addr k) c (root_addr sb) new)"

lemma change_child_relink [rb_ops]:
  "ctx_at (rb_mem s) (rb_root s) old k \<Longrightarrow> old \<noteq> 0 \<Longrightarrow> old \<notin> ctx_addrs k \<Longrightarrow>
   raw_rb_change_child s old new (parent_addr k) = Some (relink s k new)"
proof (induction k rule: ctx_induct)
  case (HR c sb a k)
  from HR.prems have "root_addr sb \<noteq> old"
    using root_addr_in [of sb] by (cases "sb = Lf") auto
  with HR.prems show ?case
    by (simp add: raw_rb_change_child_def get_left_def set_right_def rb_load_node)
qed (simp_all add: raw_rb_change_child_def get_left_def set_left_def rb_load_node)

lemma relink_mem [simp]: "x \<notin> ctx_addrs k \<Longrightarrow> rb_mem (relink s k new) x = rb_mem s x"
  by (induction k rule: ctx_induct) (auto simp: rb_store_def)

lemma tree_at_relink [simp]:
  "set (rinorder t) \<inter> ctx_addrs k = {} \<Longrightarrow> tree_at (rb_mem (relink s k new)) p t = tree_at (rb_mem s) p t"
  by (rule tree_at_cong) (auto intro: relink_mem)

definition ctx_links :: "rb_mem \<Rightarrow> u64 \<Rightarrow> ctx \<Rightarrow> bool" where
  "ctx_links m root k \<longleftrightarrow> (\<exists>p. ctx_at m root p k)"

lemma ctx_links_upd [simp]: "a \<notin> ctx_addrs k \<Longrightarrow> ctx_links (m(a \<mapsto> n)) root k = ctx_links m root k"
  by (simp add: ctx_links_def)

lemma ctx_linksI: "ctx_at m root p k \<Longrightarrow> ctx_links m root k"
  by (auto simp: ctx_links_def)

lemma ctx_at_relink [simp]:
  "ctx_links (rb_mem s) (rb_root s) k \<Longrightarrow> ctx_distinct k \<Longrightarrow>
   ctx_at (rb_mem (relink s k new)) (rb_root (relink s k new)) new k"
  unfolding ctx_links_def
  by (induction k rule: ctx_induct) (auto simp: rb_store_def)

text \<open>
  \<open>same_outside\<close>: memory changed only at the given addresses. It is what lets two trees share
  one memory.
\<close>

definition same_outside :: "u64 set \<Rightarrow> rb_state \<Rightarrow> rb_state \<Rightarrow> bool" where
  "same_outside A s s' \<longleftrightarrow> (\<forall>x. x \<notin> A \<longrightarrow> rb_mem s' x = rb_mem s x)"

lemma same_outside_refl [simp]: "same_outside A s s"
  by (simp add: same_outside_def)

lemma same_outside_trans [trans]:
  "same_outside A s s' \<Longrightarrow> same_outside A s' s'' \<Longrightarrow> same_outside A s s''"
  by (simp add: same_outside_def)

lemma same_outside_upd [simp]:
  "a \<in> A \<Longrightarrow> same_outside A s (s'\<lparr>rb_mem := m(a \<mapsto> n)\<rparr>) = same_outside A s (s'\<lparr>rb_mem := m\<rparr>)"
  by (auto simp: same_outside_def)

lemma same_outside_self [simp]: "same_outside A s (s\<lparr>rb_mem := rb_mem s\<rparr>)"
  by (simp add: same_outside_def)

lemma same_outside_relink [simp]:
  assumes "ctx_addrs k \<subseteq> A"
  shows "same_outside A s (relink s' k p) = same_outside A s s'"
proof -
  have "rb_mem (relink s' k p) x = rb_mem s' x" if "x \<notin> A" for x
    using that assms by (intro relink_mem) auto
  then show ?thesis by (simp add: same_outside_def)
qed

lemma ctx_addrs_subset [simp]:
  "ctx_addrs k \<subseteq> A \<union> ctx_addrs k"
  "ctx_addrs k \<subseteq> B \<Longrightarrow> ctx_addrs k \<subseteq> insert a B"
  by auto

lemma set_plug [simp]: "set (rinorder (plug k t)) = set (rinorder t) \<union> ctx_addrs k"
  by (auto simp: rinorder_plug ctx_addrs_def)

text \<open>
  A step that rearranges the nodes below a position: when the new subtree has the same nodes
  in the same order, distinctness carries over and only the links need checking.
\<close>

lemma holds_tree_step:
  assumes "holds_tree s (plug k t)" and "rinorder t' = rinorder t"
    and "\<exists>s'. r = Some s' \<and> tree_at (rb_mem s') (parent_addr k) t' \<and>
      ctx_at (rb_mem s') (rb_root s') (root_addr t') k \<and>
      same_outside (set (rinorder t) \<union> ctx_addrs k) s s'"
  shows "\<exists>s'. r = Some s' \<and> holds_tree s' (plug k t') \<and> same_outside (set (rinorder (plug k t))) s s'"
  using assms by (auto simp: holds_tree_plug)

lemmas rb_split = Int_Un_distrib Int_Un_distrib2

end
