(* ===== verification/Rbtree_Insert.thy ===== *)
theory Rbtree_Insert
  imports Rbtree_Spec
begin

text \<open>
  Correctness of \<^verbatim>\<open>rb_link_node\<close> followed by \<^verbatim>\<open>rb_insert_color\<close>: the pointer code
  computes \<open>ins_fix\<close>, which restores the red-black invariants and leaves the in-order
  sequence of nodes as it was.
\<close>

section \<open>The rebalancing loop on trees\<close>

fun flip :: "frame \<Rightarrow> frame \<Rightarrow> rtree \<Rightarrow> rtree" where
  "flip f (HL gc g u) t = Nd Red (rpaint Black (plug [f] t)) g (rpaint Black u)"
| "flip f (HR gc u g) t = Nd Red (rpaint Black u) g (rpaint Black (plug [f] t))"

fun rot :: "frame \<Rightarrow> frame \<Rightarrow> rtree \<Rightarrow> rtree" where
  "rot (HL pc p sb) (HL gc g u) t = Nd gc t p (Nd Red (rpaint Black sb) g u)"
| "rot (HR pc sb p) (HR gc u g) t = Nd gc (Nd Red u g (rpaint Black sb)) p t"
| "rot (HR pc sb p) (HL gc g u) (Nd c l a r) =
     Nd gc (Nd Red sb p (rpaint Black l)) a (Nd Red (rpaint Black r) g u)"
| "rot (HL pc p sb) (HR gc u g) (Nd c l a r) =
     Nd gc (Nd Red u g (rpaint Black l)) a (Nd Red (rpaint Black r) p sb)"
| "rot f g Lf = Lf"

fun ins_fix :: "ctx \<Rightarrow> rtree \<Rightarrow> rtree" where
  "ins_fix [] t = rpaint Black t"
| "ins_fix [f] t = plug [f] t"
| "ins_fix (f # g # k) t =
     (if fcolor f = Black then plug (f # g # k) t
      else if rcolor (fsib g) = Red then ins_fix k (flip f g t)
      else plug k (rot f g t))"

lemma rinorder_flip: "rinorder (flip f g t) = rinorder (plug [f, g] t)"
  by (cases g; cases f) auto

lemma rinorder_rot: "t \<noteq> Lf \<Longrightarrow> rinorder (rot f g t) = rinorder (plug [f, g] t)"
  by (cases "(f, g, t)" rule: rot.cases) auto

lemma plug_append: "plug (k @ k') t = plug k' (plug k t)"
  by (induction k t rule: plug.induct) auto

lemma plug_two: "plug (f # g # k) t = plug k (plug [f, g] t)"
  using plug_append [of "[f, g]" k t] by simp

lemma flip_not_Lf: "flip f g t \<noteq> Lf"
  by (cases g) auto

lemma rinorder_ins_fix: "t \<noteq> Lf \<Longrightarrow> rinorder (ins_fix k t) = rinorder (plug k t)"
proof (induction k t rule: ins_fix.induct)
  case (3 f g k t)
  then show ?case
    by (auto simp: plug_two [of f g k t] rinorder_plug [of k] rinorder_flip rinorder_rot flip_not_Lf
          simp del: plug.simps)
qed auto

text \<open>The loop invariant: the position holds a red node whose subtrees are in order.\<close>

definition red_ok :: "rtree \<Rightarrow> bool" where
  "red_ok t \<longleftrightarrow> rcolor t = Red \<and> invc t \<and> invh t"

lemma red_ok_not_Lf: "red_ok t \<Longrightarrow> t \<noteq> Lf"
  by (auto simp: red_ok_def)

lemma red_ok_flip:
  assumes "red_ok t" "ctx_ok (f # g # k) (bh t)" "fcolor f = Red" "rcolor (fsib g) = Red"
  shows "red_ok (flip f g t) \<and> ctx_ok k (bh (flip f g t))"
  using assms by (cases f; cases g) (auto simp: red_ok_def bh_paint_Black)

lemma rot_ok:
  assumes "red_ok t" "ctx_ok (f # g # k) (bh t)" "fcolor f = Red" "rcolor (fsib g) = Black"
  shows "rbt_ok (plug k (rot f g t))"
proof -
  from assms have "fcolor g = Black" by (cases f; cases g) auto
  then have "invc (rot f g t) \<and> invh (rot f g t) \<and> bh (rot f g t) = Suc (bh t) \<and> rcolor (rot f g t) = Black"
    using assms by (cases "(f, g, t)" rule: rot.cases) (auto simp: red_ok_def)
  moreover have "ctx_ok k (Suc (bh t))"
    using assms \<open>fcolor g = Black\<close> by auto
  ultimately show ?thesis by (auto intro: ctx_ok_plug)
qed

lemma ins_fix_ok: "red_ok t \<Longrightarrow> ctx_ok k (bh t) \<Longrightarrow> rbt_ok (ins_fix k t)"
proof (induction k t rule: ins_fix.induct)
  case (1 t)
  then show ?case by (auto simp: red_ok_def rbt_ok_def)
next
  case (2 f t)
  then show ?case
    by (intro ctx_ok_plug [of "[f]" t, simplified ins_fix.simps(2) [symmetric]]) (auto simp: red_ok_def)
next
  case (3 f g k t)
  show ?case
  proof (cases "fcolor f = Black")
    case True
    with 3 show ?thesis
      by (auto simp: red_ok_def simp del: plug.simps intro!: ctx_ok_plug)
  next
    case False
    with 3 red_ok_flip [of t f g k] rot_ok [of t f g k] show ?thesis by (auto simp del: ctx_ok.simps)
  qed
qed

section \<open>The pointer code computes it\<close>

lemma holds_tree_step2:
  assumes "holds_tree s (plug (f # g # k) t)" and "rinorder t' = rinorder (plug [f, g] t)"
    and "\<exists>s'. r = Some s' \<and> tree_at (rb_mem s') (parent_addr k) t' \<and>
      ctx_at (rb_mem s') (rb_root s') (root_addr t') k \<and>
      same_outside (set (rinorder (plug [f, g] t)) \<union> ctx_addrs k) s s'"
  shows "\<exists>s'. r = Some s' \<and> holds_tree s' (plug k t') \<and> same_outside (set (rinorder (plug (f # g # k) t))) s s'"
  using holds_tree_step [OF assms(1) [unfolded plug_two [of f g k t]] assms(2,3)]
  unfolding plug_two [of f g k t] .

lemma insert_flip_step:
  assumes h: "holds_tree s (plug (f # g # k) t)" and red: "rcolor (fsib g) = Red"
  shows "\<exists>s'. map_option fst (insert_flip s (root_addr (fsib g)) (faddr f) (faddr g)) = Some s' \<and>
     holds_tree s' (plug k (flip f g t)) \<and> same_outside (set (rinorder (plug (f # g # k) t))) s s'"
    and "map_option snd (insert_flip s (root_addr (fsib g)) (faddr f) (faddr g)) = Some (faddr g, parent_addr k)"
proof -
  obtain uc ul ua ur where u: "fsib g = Nd uc ul ua ur" using red by (cases "fsib g") auto
  note h' = h [unfolded holds_tree_plug]
  from h' have k: "parent_addr k AND 3 = 0"
    by (cases f; cases g) (auto dest: parent_addr_ok)
  show "\<exists>s'. map_option fst (insert_flip s (root_addr (fsib g)) (faddr f) (faddr g)) = Some s' \<and>
     holds_tree s' (plug k (flip f g t)) \<and> same_outside (set (rinorder (plug (f # g # k) t))) s s'"
    by (rule holds_tree_step2 [OF h rinorder_flip])
      (use h' k u in \<open>cases f; cases g; simp add: rb_split; elim conjE; simp add: insert_flip_def rb_ops\<close>)
  show "map_option snd (insert_flip s (root_addr (fsib g)) (faddr f) (faddr g)) = Some (faddr g, parent_addr k)"
    using h' k u by (cases f; cases g; simp add: rb_split; elim conjE; simp add: insert_flip_def rb_ops)
qed

lemma rotate_facts:
  assumes "holds_tree s (plug (f # g # k) t)" and "t \<noteq> Lf"
  shows "parent_addr k AND 3 = 0 \<and> ctx_links (rb_mem s) (rb_root s) k \<and>
    root_addr t \<noteq> root_addr (fsib f)"
proof -
  note h = assms(1) [unfolded holds_tree_plug]
  from h have "parent_addr k AND 3 = 0 \<and> ctx_links (rb_mem s) (rb_root s) k"
    by (cases f; cases g) (auto dest: parent_addr_ok ctx_linksI)
  moreover have "root_addr t \<noteq> root_addr (fsib f)"
    using h assms(2) root_addr_in [of t] root_addr_in [of "fsib f"]
    by (cases "fsib f"; cases t; cases f) auto
  ultimately show ?thesis by simp
qed

lemma insert_rotate_left_step:
  assumes h: "holds_tree s (plug (f # HL gc g u # k) t)" and t: "t \<noteq> Lf" and red: "fcolor f = Red"
  shows "\<exists>s'. insert_rotate_left dummy_rotate s (root_addr t) (faddr f) g = Some s' \<and>
     holds_tree s' (plug k (rot f (HL gc g u) t)) \<and>
     same_outside (set (rinorder (plug (f # HL gc g u # k) t))) s s'"
proof (rule holds_tree_step2 [OF h rinorder_rot [OF t]], cases f)
  case (HL pc p sb)
  show "\<exists>s'. insert_rotate_left dummy_rotate s (root_addr t) (faddr f) g = Some s' \<and>
      tree_at (rb_mem s') (parent_addr k) (rot f (HL gc g u) t) \<and>
      ctx_at (rb_mem s') (rb_root s') (root_addr (rot f (HL gc g u) t)) k \<and>
      same_outside (set (rinorder (plug [f, HL gc g u] t)) \<union> ctx_addrs k) s s'"
    using h [unfolded holds_tree_plug] t red rotate_facts [OF h t] unfolding HL
    by (cases sb; simp add: rb_split; elim conjE; simp add: insert_rotate_left_def rb_ops)
next
  case (HR pc sb p)
  obtain c l a r where tn: "t = Nd c l a r" using t by (cases t) auto
  show "\<exists>s'. insert_rotate_left dummy_rotate s (root_addr t) (faddr f) g = Some s' \<and>
      tree_at (rb_mem s') (parent_addr k) (rot f (HL gc g u) t) \<and>
      ctx_at (rb_mem s') (rb_root s') (root_addr (rot f (HL gc g u) t)) k \<and>
      same_outside (set (rinorder (plug [f, HL gc g u] t)) \<union> ctx_addrs k) s s'"
    using h [unfolded holds_tree_plug] red rotate_facts [OF h t] unfolding HR tn
    by (cases l; cases r; simp add: rb_split; elim conjE; simp add: insert_rotate_left_def rb_ops)
qed

lemma insert_rotate_right_step:
  assumes h: "holds_tree s (plug (f # HR gc u g # k) t)" and t: "t \<noteq> Lf" and red: "fcolor f = Red"
  shows "\<exists>s'. insert_rotate_right dummy_rotate s (root_addr t) (faddr f) g = Some s' \<and>
     holds_tree s' (plug k (rot f (HR gc u g) t)) \<and>
     same_outside (set (rinorder (plug (f # HR gc u g # k) t))) s s'"
proof (rule holds_tree_step2 [OF h rinorder_rot [OF t]], cases f)
  case (HR pc sb p)
  show "\<exists>s'. insert_rotate_right dummy_rotate s (root_addr t) (faddr f) g = Some s' \<and>
      tree_at (rb_mem s') (parent_addr k) (rot f (HR gc u g) t) \<and>
      ctx_at (rb_mem s') (rb_root s') (root_addr (rot f (HR gc u g) t)) k \<and>
      same_outside (set (rinorder (plug [f, HR gc u g] t)) \<union> ctx_addrs k) s s'"
    using h [unfolded holds_tree_plug] t red rotate_facts [OF h t] unfolding HR
    by (cases sb; simp add: rb_split; elim conjE; simp add: insert_rotate_right_def rb_ops)
next
  case (HL pc p sb)
  obtain c l a r where tn: "t = Nd c l a r" using t by (cases t) auto
  show "\<exists>s'. insert_rotate_right dummy_rotate s (root_addr t) (faddr f) g = Some s' \<and>
      tree_at (rb_mem s') (parent_addr k) (rot f (HR gc u g) t) \<and>
      ctx_at (rb_mem s') (rb_root s') (root_addr (rot f (HR gc u g) t)) k \<and>
      same_outside (set (rinorder (plug [f, HR gc u g] t)) \<union> ctx_addrs k) s s'"
    using h [unfolded holds_tree_plug] red rotate_facts [OF h t] unfolding HL tn
    by (cases l; cases r; simp add: rb_split; elim conjE; simp add: insert_rotate_right_def rb_ops)
qed

lemma ctx_at_head:
  assumes "ctx_at (rb_mem s) root p (f # k)"
  shows "node_addr (faddr f)"
    and "rb_load s (faddr f) = Some (case f of
        HL c a sb \<Rightarrow> mk_node (parent_addr k) c p (root_addr sb)
      | HR c sb a \<Rightarrow> mk_node (parent_addr k) c (root_addr sb) p)"
    and "tree_at (rb_mem s) (faddr f) (fsib f)" and "parent_addr k AND 3 = 0"
    and "ctx_at (rb_mem s) root (faddr f) k"
  using assms by (cases f; auto simp: rb_load_node dest: parent_addr_ok)+

lemma tree_color [simp]:
  assumes "tree_at (rb_mem s) p t" "p AND 3 = 0"
  shows "(if root_addr t \<noteq> 0 then rb_is_red s (root_addr t) else Some False) = Some (rcolor t = Red)"
    and "null_or_black s (root_addr t) = Some (rcolor t = Black)"
  using assms
  by (cases t; auto simp: rb_is_red_def rb_is_black_def get_pc_def rb_load_node null_or_black_def)+

lemma parent_color:
  assumes "ctx_at (rb_mem s) root p (f # k)"
  shows "rb_is_black s (faddr f) = Some (fcolor f = Black)"
    and "fcolor f = Red \<Longrightarrow> rb_red_parent s (faddr f) = Some (parent_addr k)"
  using ctx_at_head [OF assms]
  by (cases f; simp add: rb_is_black_def rb_red_parent_def get_pc_def color_bit_Red)+

lemma insert_loop_red_parent:
  assumes h: "holds_tree s (plug (f # g # k) t)" and t: "t \<noteq> Lf" and red: "fcolor f = Red"
  shows "raw_rb_insert_loop dummy_rotate s (root_addr t) (faddr f) =
     (if rcolor (fsib g) = Red
      then do { r \<leftarrow> insert_flip s (root_addr (fsib g)) (faddr f) (faddr g);
                raw_rb_insert_loop dummy_rotate (fst r) (fst (snd r)) (snd (snd r)) }
      else (case g of
          HL gc ga u \<Rightarrow> insert_rotate_left dummy_rotate s (root_addr t) (faddr f) ga
        | HR gc u ga \<Rightarrow> insert_rotate_right dummy_rotate s (root_addr t) (faddr f) ga))"
proof -
  note h' = h [unfolded holds_tree_plug]
  from h' have c: "ctx_at (rb_mem s) (rb_root s) (root_addr t) (f # g # k)" by simp
  note pc = parent_color [OF c] and g = ctx_at_head(5) [OF c]
  note gh = ctx_at_head [OF g]
  have "faddr f \<noteq> 0" using ctx_at_head(1) [OF c] by simp
  have ne: "faddr f \<noteq> root_addr (fsib g)"
    using h' root_addr_in [of "fsib g"] \<open>faddr f \<noteq> 0\<close> by (cases "fsib g"; cases g) auto
  have "(if root_addr (fsib g) \<noteq> 0 then rb_is_red s (root_addr (fsib g)) else Some False)
      = Some (rcolor (fsib g) = Red)"
    using tree_color(1) [OF gh(3)] gh(1) by simp
  then show ?thesis
    using pc red gh ne \<open>faddr f \<noteq> 0\<close>
    by (subst raw_rb_insert_loop.simps, cases g)
      (simp_all add: get_right_def get_left_def)
qed

lemma insert_loop_correct:
  "holds_tree s (plug k t) \<Longrightarrow> red_ok t \<Longrightarrow> ctx_ok k (bh t) \<Longrightarrow>
   \<exists>s'. raw_rb_insert_loop dummy_rotate s (root_addr t) (parent_addr k) = Some s' \<and>
     holds_tree s' (ins_fix k t) \<and> same_outside (set (rinorder (plug k t))) s s'"
proof (induction k t arbitrary: s rule: ins_fix.induct)
  case (1 t)
  then obtain c l a r where "t = Nd c l a r" by (cases t) (auto simp: red_ok_def)
  with 1 show ?case
    by (simp add: raw_rb_insert_loop.simps holds_tree_def rb_ops)
next
  case (2 f t)
  then have c: "ctx_at (rb_mem s) (rb_root s) (root_addr t) [f]" by (simp add: holds_tree_plug)
  have "fcolor f = Black" using 2 by auto
  with 2 parent_color [OF c] ctx_at_head(1) [OF c] show ?case
    by (simp add: raw_rb_insert_loop.simps)
next
  case (3 f g k t)
  then have c: "ctx_at (rb_mem s) (rb_root s) (root_addr t) (f # g # k)" by (simp add: holds_tree_plug)
  show ?case
  proof (cases "fcolor f = Black")
    case True
    with 3 parent_color [OF c] ctx_at_head(1) [OF c] show ?thesis
      by (simp add: raw_rb_insert_loop.simps)
  next
    case False
    then have red: "fcolor f = Red" by simp
    have t: "t \<noteq> Lf" using 3 by (simp add: red_ok_not_Lf)
    note step = insert_loop_red_parent [OF 3(2) t red]
    show ?thesis
    proof (cases "rcolor (fsib g) = Red")
      case True
      from insert_flip_step [OF 3(2) True] obtain s1 where
        s1: "insert_flip s (root_addr (fsib g)) (faddr f) (faddr g) = Some (s1, faddr g, parent_addr k)"
          "holds_tree s1 (plug k (flip f g t))"
          "same_outside (set (rinorder (plug (f # g # k) t))) s s1"
        by (cases "insert_flip s (root_addr (fsib g)) (faddr f) (faddr g)") auto
      have "set (rinorder (plug k (flip f g t))) = set (rinorder (plug (f # g # k) t))"
        by (simp only: plug_two [of f g k t] set_plug [of k] rinorder_flip)
      moreover have "root_addr (flip f g t) = faddr g" by (cases g) auto
      ultimately show ?thesis
        using 3(1) [OF False True s1(2)] red_ok_flip [OF 3(3,4) red True] s1 step True False
        by (auto intro: same_outside_trans)
    next
      case False
      then have black: "rcolor (fsib g) = Black" by simp
      show ?thesis
        using insert_rotate_left_step [OF _ t red] insert_rotate_right_step [OF _ t red] 3(2) step black red
        by (cases g) auto
    qed
  qed
qed

section \<open>Linking and inserting a fresh node\<close>

text \<open>The link a leaf position is reached through.\<close>

fun link_of :: "ctx \<Rightarrow> rb_link" where
  "link_of [] = Link_root"
| "link_of (HL c a sb # k) = Link_left a"
| "link_of (HR c sb a # k) = Link_right a"

lemma write_link_relink:
  "ctx_at (rb_mem s) (rb_root s) p k \<Longrightarrow> write_link s (link_of k) new = Some (relink s k new)"
  by (cases k rule: link_of.cases) (simp_all add: set_left_def set_right_def rb_load_node)

lemma rb_link_node_correct:
  assumes "holds_tree s (plug k Lf)" and "node_addr a" and "rb_mem s a = Some n" and "a \<notin> ctx_addrs k"
  shows "\<exists>s'. rb_link_node s a (parent_addr k) (link_of k) = Some s' \<and>
     holds_tree s' (plug k (Nd Red Lf a Lf)) \<and> same_outside (insert a (ctx_addrs k)) s s'"
proof -
  note h = assms(1) [unfolded holds_tree_plug]
  let ?m = "mk_node (parent_addr k) Red 0 0"
  have n: "n\<lparr>rb_parent_color := parent_addr k, rb_right := 0, rb_left := 0\<rparr> = ?m"
    by (simp add: mk_node_def color_bit_Red)
  from h have c: "ctx_at ((rb_mem s)(a \<mapsto> ?m)) (rb_root s) 0 k" using assms(4) by simp
  then have l: "ctx_links (rb_mem (s\<lparr>rb_mem := (rb_mem s)(a \<mapsto> ?m)\<rparr>)) (rb_root s) k"
    by (auto dest: ctx_linksI)
  have "rb_link_node s a (parent_addr k) (link_of k) =
      Some (relink (s\<lparr>rb_mem := (rb_mem s)(a \<mapsto> ?m)\<rparr>) k a)"
    using assms(2,3) c n
    by (simp add: rb_link_node_def set_pc_def set_right_def set_left_def rb_load_node rb_store_def
        write_link_relink [where p = 0])
  then show ?thesis
    using h assms(2,4) l by (auto simp: holds_tree_plug)
qed

lemma rb_insert_color_correct:
  assumes "holds_tree s (plug k (Nd Red Lf a Lf))" and "ctx_ok k 0"
  shows "\<exists>s'. rb_insert_color s a = Some s' \<and> holds_tree s' (ins_fix k (Nd Red Lf a Lf)) \<and>
     same_outside (insert a (ctx_addrs k)) s s'"
proof -
  have "rb_red_parent s a = Some (parent_addr k)"
    using assms(1) by (simp add: holds_tree_plug rb_red_parent_def get_pc_def rb_load_node color_bit_Red)
  moreover have "red_ok (Nd Red Lf a Lf)" by (simp add: red_ok_def)
  ultimately show ?thesis
    using insert_loop_correct [OF assms(1)] assms(2)
    by (simp add: rb_insert_color_def raw_rb_insert_def)
qed

lemma rb_insert_correct:
  assumes h: "holds_tree s (plug k Lf)" and ok: "rbt_ok (plug k Lf)"
    and a: "node_addr a" "rb_mem s a = Some n" "a \<notin> set (rinorder (plug k Lf))"
  shows "\<exists>s' t'. (rb_link_node s a (parent_addr k) (link_of k) \<bind> (\<lambda>s. rb_insert_color s a)) = Some s' \<and>
     holds_tree s' t' \<and> rbt_ok t' \<and> rinorder t' = before k @ a # after k \<and>
     same_outside (insert a (set (rinorder (plug k Lf)))) s s'"
proof -
  have k: "ctx_ok k 0" using ctx_ok_of_plug [OF ok] by simp
  from rb_link_node_correct [OF h a(1,2)] a(3) obtain s1 where
    s1: "rb_link_node s a (parent_addr k) (link_of k) = Some s1"
      "holds_tree s1 (plug k (Nd Red Lf a Lf))" "same_outside (insert a (ctx_addrs k)) s s1"
    by auto
  from rb_insert_color_correct [OF s1(2) k] obtain s2 where
    s2: "rb_insert_color s1 a = Some s2" "holds_tree s2 (ins_fix k (Nd Red Lf a Lf))"
      "same_outside (insert a (ctx_addrs k)) s1 s2"
    by auto
  have "rbt_ok (ins_fix k (Nd Red Lf a Lf))"
    by (rule ins_fix_ok) (use k in \<open>auto simp: red_ok_def\<close>)
  moreover have "rinorder (ins_fix k (Nd Red Lf a Lf)) = before k @ a # after k"
    by (simp add: rinorder_ins_fix rinorder_plug)
  ultimately show ?thesis
    using s1 s2 by (auto intro: same_outside_trans)
qed

end
