(* ===== verification/Rbtree_Erase.thy ===== *)
theory Rbtree_Erase
  imports Rbtree_Insert
begin

text \<open>
  Correctness of \<^verbatim>\<open>rb_erase\<close>: the unlinking phase (\<^verbatim>\<open>__rb_erase_augmented\<close>) removes
  the node and leaves at most one position one black node short, and the rebalancing loop
  (\<^verbatim>\<open>____rb_erase_color\<close>) computes \<open>del_fix\<close>, which repairs that position.
\<close>

section \<open>The rebalancing loop on trees\<close>

text \<open>
  \<open>del_fix k t\<close>: the tree \<open>t\<close> in context \<open>k\<close> is one black node short. The auxiliary functions
  follow the cases of the source for a black sibling: they return the repaired subtree and
  whether it is still short (case 2 below a black parent).
\<close>

fun del_left :: "rbcol \<Rightarrow> u64 \<Rightarrow> rtree \<Rightarrow> rtree \<Rightarrow> rtree \<times> bool" where
  "del_left pc p t (Nd sc sl sa sr) =
     (if rcolor sr = Red then (Nd pc (Nd Black t p sl) sa (rpaint Black sr), False)
      else (case sl of
          Nd Red x y z \<Rightarrow> (Nd pc (Nd Black t p x) y (Nd Black (rpaint Black z) sa sr), False)
        | _ \<Rightarrow> (Nd Black t p (Nd Red sl sa sr), pc = Black)))"
| "del_left pc p t Lf = (Lf, False)"

fun del_right :: "rbcol \<Rightarrow> u64 \<Rightarrow> rtree \<Rightarrow> rtree \<Rightarrow> rtree \<times> bool" where
  "del_right pc p t (Nd sc sl sa sr) =
     (if rcolor sl = Red then (Nd pc (rpaint Black sl) sa (Nd Black sr p t), False)
      else (case sr of
          Nd Red x y z \<Rightarrow> (Nd pc (Nd Black sl sa (rpaint Black x)) y (Nd Black z p t), False)
        | _ \<Rightarrow> (Nd Black (Nd Red sl sa sr) p t, pc = Black)))"
| "del_right pc p t Lf = (Lf, False)"

fun del_fix :: "ctx \<Rightarrow> rtree \<Rightarrow> rtree" where
  "del_fix [] t = t"
| "del_fix (HL pc p s # k) t =
     (case s of
        Nd Red sl sa sr \<Rightarrow>
          plug (HL pc sa sr # k) (fst (del_left Red p t (rpaint Black sl)))
      | _ \<Rightarrow> (let (t', short) = del_left pc p t s in if short then del_fix k t' else plug k t'))"
| "del_fix (HR pc s p # k) t =
     (case s of
        Nd Red sl sa sr \<Rightarrow>
          plug (HR pc sl sa # k) (fst (del_right Red p t (rpaint Black sr)))
      | _ \<Rightarrow> (let (t', short) = del_right pc p t s in if short then del_fix k t' else plug k t'))"

lemma rinorder_del_left: "s \<noteq> Lf \<Longrightarrow> rinorder (fst (del_left pc p t s)) = rinorder t @ p # rinorder s"
  by (cases s) (auto split: rtree.splits rbcol.splits)

lemma rinorder_del_right: "s \<noteq> Lf \<Longrightarrow> rinorder (fst (del_right pc p t s)) = rinorder s @ p # rinorder t"
  by (cases s) (auto split: rtree.splits rbcol.splits)

lemma del_left_ok:
  assumes "invc t" "invh t" "rcolor t = Black" "invc s" "invh s" "rcolor s = Black" "bh s = Suc (bh t)"
  shows "let (t', short) = del_left pc p t s in
     invc t' \<and> invh t' \<and> (rcolor t' = Red \<longrightarrow> pc = Red) \<and>
     (if short then pc = Black \<and> rcolor t' = Black \<and> bh t' = Suc (bh t)
      else bh t' = Suc (bh t) + (if pc = Black then 1 else 0))"
  using assms by (cases s) (auto simp: bh_paint_Black Let_def split: rtree.splits rbcol.splits)

lemma del_right_ok:
  assumes "invc t" "invh t" "rcolor t = Black" "invc s" "invh s" "rcolor s = Black" "bh s = Suc (bh t)"
  shows "let (t', short) = del_right pc p t s in
     invc t' \<and> invh t' \<and> (rcolor t' = Red \<longrightarrow> pc = Red) \<and>
     (if short then pc = Black \<and> rcolor t' = Black \<and> bh t' = Suc (bh t)
      else bh t' = Suc (bh t) + (if pc = Black then 1 else 0))"
  using assms by (cases s) (auto simp: bh_paint_Black Let_def split: rtree.splits rbcol.splits)

definition short_ok :: "ctx \<Rightarrow> rtree \<Rightarrow> bool" where
  "short_ok k t \<longleftrightarrow> invc t \<and> invh t \<and> rcolor t = Black \<and> ctx_ok k (Suc (bh t))"

text \<open>One pass at a black sibling: what \<open>del_fix\<close> does next, and what then holds.\<close>

lemma del_fix_HL_black:
  assumes "short_ok (HL c a s # k) t" and "rcolor s = Black"
  defines "r \<equiv> del_left c a t s"
  shows "s \<noteq> Lf"
    and "del_fix (HL c a s # k) t = (if snd r then del_fix k (fst r) else plug k (fst r))"
    and "snd r \<Longrightarrow> short_ok k (fst r)"
    and "\<not> snd r \<Longrightarrow> rbt_ok (plug k (fst r))"
proof -
  show s: "s \<noteq> Lf" using assms by (auto simp: short_ok_def)
  show "del_fix (HL c a s # k) t = (if snd r then del_fix k (fst r) else plug k (fst r))"
    using s assms(2) unfolding r_def by (cases s) (auto simp: Let_def split_beta split: rbcol.splits)
  have ok: "let (t', short) = r in invc t' \<and> invh t' \<and> (rcolor t' = Red \<longrightarrow> c = Red) \<and>
     (if short then c = Black \<and> rcolor t' = Black \<and> bh t' = Suc (bh t)
      else bh t' = Suc (bh t) + (if c = Black then 1 else 0))"
    using assms(1,2) unfolding r_def by (intro del_left_ok) (auto simp: short_ok_def)
  then show "snd r \<Longrightarrow> short_ok k (fst r)"
    using assms(1) by (auto simp: short_ok_def Let_def split_beta)
  show "\<not> snd r \<Longrightarrow> rbt_ok (plug k (fst r))"
    using ok assms(1) by (intro ctx_ok_plug) (auto simp: short_ok_def Let_def split_beta split: if_splits)
qed

lemma del_fix_HR_black:
  assumes "short_ok (HR c s a # k) t" and "rcolor s = Black"
  defines "r \<equiv> del_right c a t s"
  shows "s \<noteq> Lf"
    and "del_fix (HR c s a # k) t = (if snd r then del_fix k (fst r) else plug k (fst r))"
    and "snd r \<Longrightarrow> short_ok k (fst r)"
    and "\<not> snd r \<Longrightarrow> rbt_ok (plug k (fst r))"
proof -
  show s: "s \<noteq> Lf" using assms by (auto simp: short_ok_def)
  show "del_fix (HR c s a # k) t = (if snd r then del_fix k (fst r) else plug k (fst r))"
    using s assms(2) unfolding r_def by (cases s) (auto simp: Let_def split_beta split: rbcol.splits)
  have ok: "let (t', short) = r in invc t' \<and> invh t' \<and> (rcolor t' = Red \<longrightarrow> c = Red) \<and>
     (if short then c = Black \<and> rcolor t' = Black \<and> bh t' = Suc (bh t)
      else bh t' = Suc (bh t) + (if c = Black then 1 else 0))"
    using assms(1,2) unfolding r_def by (intro del_right_ok) (auto simp: short_ok_def)
  then show "snd r \<Longrightarrow> short_ok k (fst r)"
    using assms(1) by (auto simp: short_ok_def Let_def split_beta)
  show "\<not> snd r \<Longrightarrow> rbt_ok (plug k (fst r))"
    using ok assms(1) by (intro ctx_ok_plug) (auto simp: short_ok_def Let_def split_beta split: if_splits)
qed

text \<open>
  A red sibling is first rotated above its parent, which leaves the same position short below
  a red parent with a black sibling; the pass then ends there.
\<close>

lemma short_red_sibling_HL:
  assumes "short_ok (HL c a (Nd Red sl sa sr) # k) t"
  shows "c = Black" "rpaint Black sl = sl" "sl \<noteq> Lf"
    and "short_ok (HL Red a sl # HL c sa sr # k) t"
    and "\<not> snd (del_left Red a t sl)"
    and "del_fix (HL c a (Nd Red sl sa sr) # k) t = del_fix (HL Red a sl # HL c sa sr # k) t"
proof -
  show c: "c = Black" and sl: "rpaint Black sl = sl" "sl \<noteq> Lf"
    and ok: "short_ok (HL Red a sl # HL c sa sr # k) t"
    using assms by (auto simp: short_ok_def)
  have b: "rcolor sl = Black" using assms by (simp add: short_ok_def)
  show n: "\<not> snd (del_left Red a t sl)" by (cases sl) (auto split: rtree.splits rbcol.splits)
  show "del_fix (HL c a (Nd Red sl sa sr) # k) t = del_fix (HL Red a sl # HL c sa sr # k) t"
    unfolding del_fix_HL_black(2) [OF ok b] using n sl by simp
qed

lemma short_red_sibling_HR:
  assumes "short_ok (HR c (Nd Red sl sa sr) a # k) t"
  shows "c = Black" "rpaint Black sr = sr" "sr \<noteq> Lf"
    and "short_ok (HR Red sr a # HR c sl sa # k) t"
    and "\<not> snd (del_right Red a t sr)"
    and "del_fix (HR c (Nd Red sl sa sr) a # k) t = del_fix (HR Red sr a # HR c sl sa # k) t"
proof -
  show c: "c = Black" and sr: "rpaint Black sr = sr" "sr \<noteq> Lf"
    and ok: "short_ok (HR Red sr a # HR c sl sa # k) t"
    using assms by (auto simp: short_ok_def)
  have b: "rcolor sr = Black" using assms by (simp add: short_ok_def)
  show n: "\<not> snd (del_right Red a t sr)" by (cases sr) (auto split: rtree.splits rbcol.splits)
  show "del_fix (HR c (Nd Red sl sa sr) a # k) t = del_fix (HR Red sr a # HR c sl sa # k) t"
    unfolding del_fix_HR_black(2) [OF ok b] using n sr by simp
qed

lemma del_fix_ok: "short_ok k t \<Longrightarrow> rbt_ok (del_fix k t) \<and> rinorder (del_fix k t) = rinorder (plug k t)"
proof (induction k arbitrary: t rule: ctx_induct)
  case Nil
  then show ?case by (simp add: short_ok_def rbt_ok_def)
next
  case (HL c a s k)
  show ?case
  proof (cases "rcolor s = Red")
    case True
    then obtain sl sa sr where s: "s = Nd Red sl sa sr" by (cases s) auto
    note r = short_red_sibling_HL [OF HL.prems [unfolded s]]
    have b: "rcolor sl = Black" using HL.prems s by (simp add: short_ok_def)
    note d = del_fix_HL_black [OF r(4) b]
    show ?thesis
      using r(5,6) d(2,4) rinorder_del_left [OF r(3), of Red a t] s by (simp add: rinorder_plug)
  next
    case False
    then have b: "rcolor s = Black" by simp
    note d = del_fix_HL_black [OF HL.prems b]
    show ?thesis
      using d HL.IH [of "fst (del_left c a t s)"] rinorder_del_left [OF d(1), of c a t]
      by (auto simp: rinorder_plug)
  qed
next
  case (HR c s a k)
  show ?case
  proof (cases "rcolor s = Red")
    case True
    then obtain sl sa sr where s: "s = Nd Red sl sa sr" by (cases s) auto
    note r = short_red_sibling_HR [OF HR.prems [unfolded s]]
    have b: "rcolor sr = Black" using HR.prems s by (simp add: short_ok_def)
    note d = del_fix_HR_black [OF r(4) b]
    show ?thesis
      using r(5,6) d(2,4) rinorder_del_right [OF r(3), of Red a t] s by (simp add: rinorder_plug)
  next
    case False
    then have b: "rcolor s = Black" by simp
    note d = del_fix_HR_black [OF HR.prems b]
    show ?thesis
      using d HR.IH [of "fst (del_right c a t s)"] rinorder_del_right [OF d(1), of c a t]
      by (auto simp: rinorder_plug)
  qed
qed

section \<open>The pointer code computes it\<close>

text \<open>
  Each case of a pass, evaluated on a tree in memory. The links of the new subtree are checked
  by \<open>holds_tree_step\<close>; the code's reads and writes are evaluated by the simplifier from the
  facts that describe the memory.
\<close>

lemma pass_facts:
  assumes "holds_tree s (plug (f # k) t)"
  shows "parent_addr k AND 3 = 0 \<and> ctx_links (rb_mem s) (rb_root s) k \<and> tree_at (rb_mem s) (faddr f) t \<and>
    node_addr (faddr f)"
  using assms unfolding holds_tree_plug
  by (cases f) (auto dest: parent_addr_ok ctx_linksI)

lemma erase_left_red_sibling_step:
  assumes h: "holds_tree s (plug (HL c a (Nd Red sl sa sr) # k) t)" and sl: "sl \<noteq> Lf"
  shows "\<exists>s'. map_option fst (erase_left_red_sibling dummy_rotate s a sa) = Some s' \<and>
      holds_tree s' (plug (HL Red a (rpaint Black sl) # HL c sa sr # k) t) \<and>
      same_outside (set (rinorder (plug (HL c a (Nd Red sl sa sr) # k) t))) s s'"
    and "map_option snd (erase_left_red_sibling dummy_rotate s a sa) = Some (root_addr sl)"
proof -
  obtain lc ll la lr where n: "sl = Nd lc ll la lr" using sl by (cases sl) auto
  note facts = h [unfolded holds_tree_plug] pass_facts [OF h]
  have "\<exists>s'. map_option fst (erase_left_red_sibling dummy_rotate s a sa) = Some s' \<and>
      holds_tree s' (plug k (Nd c (Nd Red t a (rpaint Black sl)) sa sr)) \<and>
      same_outside (set (rinorder (plug k (Nd c t a (Nd Red sl sa sr))))) s s'"
    using h facts unfolding n
    by (intro holds_tree_step; simp add: rb_split; elim conjE;
        simp add: erase_left_red_sibling_def rb_ops)
  then show "\<exists>s'. map_option fst (erase_left_red_sibling dummy_rotate s a sa) = Some s' \<and>
      holds_tree s' (plug (HL Red a (rpaint Black sl) # HL c sa sr # k) t) \<and>
      same_outside (set (rinorder (plug (HL c a (Nd Red sl sa sr) # k) t))) s s'"
    by simp
  show "map_option snd (erase_left_red_sibling dummy_rotate s a sa) = Some (root_addr sl)"
    using facts unfolding n
    by (simp add: rb_split; elim conjE; simp add: erase_left_red_sibling_def rb_ops)
qed

lemma erase_left_outer_step:
  assumes h: "holds_tree s (plug (HL c a (Nd sc sl sa sr) # k) t)" and sr: "sr \<noteq> Lf"
  shows "\<exists>s'. erase_left_outer dummy_rotate s a sa (root_addr sr) = Some s' \<and>
      holds_tree s' (plug k (Nd c (Nd Black t a sl) sa (rpaint Black sr))) \<and>
      same_outside (set (rinorder (plug (HL c a (Nd sc sl sa sr) # k) t))) s s'"
proof -
  obtain rc rl ra rr where n: "sr = Nd rc rl ra rr" using sr by (cases sr) auto
  note facts = h [unfolded holds_tree_plug] pass_facts [OF h]
  have "\<exists>s'. erase_left_outer dummy_rotate s a sa (root_addr sr) = Some s' \<and>
      holds_tree s' (plug k (Nd c (Nd Black t a sl) sa (rpaint Black sr))) \<and>
      same_outside (set (rinorder (plug k (Nd c t a (Nd sc sl sa sr))))) s s'"
    using h facts unfolding n
    by (cases sl; intro holds_tree_step; simp add: rb_split; elim conjE;
        simp add: erase_left_outer_def rb_ops)
  then show ?thesis by simp
qed

lemma erase_left_inner_step:
  assumes h: "holds_tree s (plug (HL c a (Nd sc (Nd lc x y z) sa sr) # k) t)"
  shows "\<exists>s'. (erase_left_inner dummy_rotate s a sa y \<bind> (\<lambda>s. erase_left_outer dummy_rotate s a y sa))
        = Some s' \<and>
      holds_tree s' (plug k (Nd c (Nd Black t a x) y (Nd Black (rpaint Black z) sa sr))) \<and>
      same_outside (set (rinorder (plug (HL c a (Nd sc (Nd lc x y z) sa sr) # k) t))) s s'"
proof -
  note facts = h [unfolded holds_tree_plug] pass_facts [OF h]
  have "\<exists>s'. (erase_left_inner dummy_rotate s a sa y \<bind> (\<lambda>s. erase_left_outer dummy_rotate s a y sa))
        = Some s' \<and>
      holds_tree s' (plug k (Nd c (Nd Black t a x) y (Nd Black (rpaint Black z) sa sr))) \<and>
      same_outside (set (rinorder (plug k (Nd c t a (Nd sc (Nd lc x y z) sa sr))))) s s'"
    using h facts
    by (cases x; cases z; intro holds_tree_step; simp add: rb_split; elim conjE;
        simp add: erase_left_outer_def erase_left_inner_def rb_ops)
  then show ?thesis by simp
qed

lemma erase_flip_left_step:
  assumes h: "holds_tree s (plug (HL c a (Nd Black sl sa sr) # k) t)"
  shows "\<exists>s'. map_option fst (erase_flip s a sa) = Some s' \<and>
      holds_tree s' (plug k (Nd Black t a (Nd Red sl sa sr))) \<and>
      same_outside (set (rinorder (plug (HL c a (Nd Black sl sa sr) # k) t))) s s'"
    and "map_option snd (erase_flip s a sa) =
      Some (if c = Black \<and> parent_addr k \<noteq> 0 then Some (a, parent_addr k) else None)"
proof -
  note facts = h [unfolded holds_tree_plug] pass_facts [OF h]
  have "\<exists>s'. map_option fst (erase_flip s a sa) = Some s' \<and>
      holds_tree s' (plug k (Nd Black t a (Nd Red sl sa sr))) \<and>
      same_outside (set (rinorder (plug k (Nd c t a (Nd Black sl sa sr))))) s s'"
    using h facts
    by (cases c; intro holds_tree_step; simp add: rb_split; elim conjE;
        simp add: erase_flip_def rb_ops)
  then show "\<exists>s'. map_option fst (erase_flip s a sa) = Some s' \<and>
      holds_tree s' (plug k (Nd Black t a (Nd Red sl sa sr))) \<and>
      same_outside (set (rinorder (plug (HL c a (Nd Black sl sa sr) # k) t))) s s'"
    by simp
  show "map_option snd (erase_flip s a sa) =
      Some (if c = Black \<and> parent_addr k \<noteq> 0 then Some (a, parent_addr k) else None)"
    using facts
    by (cases c; simp add: rb_split; elim conjE; simp add: erase_flip_def rb_ops)
qed

text \<open>The mirror images, for a short right child.\<close>

lemma erase_right_red_sibling_step:
  assumes h: "holds_tree s (plug (HR c (Nd Red sl sa sr) a # k) t)" and sr: "sr \<noteq> Lf"
  shows "\<exists>s'. map_option fst (erase_right_red_sibling dummy_rotate s a sa) = Some s' \<and>
      holds_tree s' (plug (HR Red (rpaint Black sr) a # HR c sl sa # k) t) \<and>
      same_outside (set (rinorder (plug (HR c (Nd Red sl sa sr) a # k) t))) s s'"
    and "map_option snd (erase_right_red_sibling dummy_rotate s a sa) = Some (root_addr sr)"
proof -
  obtain rc rl ra rr where n: "sr = Nd rc rl ra rr" using sr by (cases sr) auto
  note facts = h [unfolded holds_tree_plug] pass_facts [OF h]
  have "\<exists>s'. map_option fst (erase_right_red_sibling dummy_rotate s a sa) = Some s' \<and>
      holds_tree s' (plug k (Nd c sl sa (Nd Red (rpaint Black sr) a t))) \<and>
      same_outside (set (rinorder (plug k (Nd c (Nd Red sl sa sr) a t)))) s s'"
    using h facts unfolding n
    by (intro holds_tree_step; simp add: rb_split; elim conjE;
        simp add: erase_right_red_sibling_def rb_ops)
  then show "\<exists>s'. map_option fst (erase_right_red_sibling dummy_rotate s a sa) = Some s' \<and>
      holds_tree s' (plug (HR Red (rpaint Black sr) a # HR c sl sa # k) t) \<and>
      same_outside (set (rinorder (plug (HR c (Nd Red sl sa sr) a # k) t))) s s'"
    by simp
  show "map_option snd (erase_right_red_sibling dummy_rotate s a sa) = Some (root_addr sr)"
    using facts unfolding n
    by (simp add: rb_split; elim conjE; simp add: erase_right_red_sibling_def rb_ops)
qed

lemma erase_right_outer_step:
  assumes h: "holds_tree s (plug (HR c (Nd sc sl sa sr) a # k) t)" and sl: "sl \<noteq> Lf"
  shows "\<exists>s'. erase_right_outer dummy_rotate s a sa (root_addr sl) = Some s' \<and>
      holds_tree s' (plug k (Nd c (rpaint Black sl) sa (Nd Black sr a t))) \<and>
      same_outside (set (rinorder (plug (HR c (Nd sc sl sa sr) a # k) t))) s s'"
proof -
  obtain lc ll la lr where n: "sl = Nd lc ll la lr" using sl by (cases sl) auto
  note facts = h [unfolded holds_tree_plug] pass_facts [OF h]
  have "\<exists>s'. erase_right_outer dummy_rotate s a sa (root_addr sl) = Some s' \<and>
      holds_tree s' (plug k (Nd c (rpaint Black sl) sa (Nd Black sr a t))) \<and>
      same_outside (set (rinorder (plug k (Nd c (Nd sc sl sa sr) a t)))) s s'"
    using h facts unfolding n
    by (cases sr; intro holds_tree_step; simp add: rb_split; elim conjE;
        simp add: erase_right_outer_def rb_ops)
  then show ?thesis by simp
qed

lemma erase_right_inner_step:
  assumes h: "holds_tree s (plug (HR c (Nd sc sl sa (Nd rc x y z)) a # k) t)"
  shows "\<exists>s'. (erase_right_inner dummy_rotate s a sa y \<bind> (\<lambda>s. erase_right_outer dummy_rotate s a y sa))
        = Some s' \<and>
      holds_tree s' (plug k (Nd c (Nd Black sl sa (rpaint Black x)) y (Nd Black z a t))) \<and>
      same_outside (set (rinorder (plug (HR c (Nd sc sl sa (Nd rc x y z)) a # k) t))) s s'"
proof -
  note facts = h [unfolded holds_tree_plug] pass_facts [OF h]
  have "\<exists>s'. (erase_right_inner dummy_rotate s a sa y \<bind> (\<lambda>s. erase_right_outer dummy_rotate s a y sa))
        = Some s' \<and>
      holds_tree s' (plug k (Nd c (Nd Black sl sa (rpaint Black x)) y (Nd Black z a t))) \<and>
      same_outside (set (rinorder (plug k (Nd c (Nd sc sl sa (Nd rc x y z)) a t)))) s s'"
    using h facts
    by (cases x; cases z; intro holds_tree_step; simp add: rb_split; elim conjE;
        simp add: erase_right_outer_def erase_right_inner_def rb_ops)
  then show ?thesis by simp
qed

lemma erase_flip_right_step:
  assumes h: "holds_tree s (plug (HR c (Nd Black sl sa sr) a # k) t)"
  shows "\<exists>s'. map_option fst (erase_flip s a sa) = Some s' \<and>
      holds_tree s' (plug k (Nd Black (Nd Red sl sa sr) a t)) \<and>
      same_outside (set (rinorder (plug (HR c (Nd Black sl sa sr) a # k) t))) s s'"
    and "map_option snd (erase_flip s a sa) =
      Some (if c = Black \<and> parent_addr k \<noteq> 0 then Some (a, parent_addr k) else None)"
proof -
  note facts = h [unfolded holds_tree_plug] pass_facts [OF h]
  have "\<exists>s'. map_option fst (erase_flip s a sa) = Some s' \<and>
      holds_tree s' (plug k (Nd Black (Nd Red sl sa sr) a t)) \<and>
      same_outside (set (rinorder (plug k (Nd c (Nd Black sl sa sr) a t)))) s s'"
    using h facts
    by (cases c; intro holds_tree_step; simp add: rb_split; elim conjE;
        simp add: erase_flip_def rb_ops)
  then show "\<exists>s'. map_option fst (erase_flip s a sa) = Some s' \<and>
      holds_tree s' (plug k (Nd Black (Nd Red sl sa sr) a t)) \<and>
      same_outside (set (rinorder (plug (HR c (Nd Black sl sa sr) a # k) t))) s s'"
    by simp
  show "map_option snd (erase_flip s a sa) =
      Some (if c = Black \<and> parent_addr k \<noteq> 0 then Some (a, parent_addr k) else None)"
    using facts
    by (cases c; simp add: rb_split; elim conjE; simp add: erase_flip_def rb_ops)
qed

section \<open>A pass and the loop\<close>

lemma node_facts:
  assumes "tree_at (rb_mem s) p (Nd c l a r)" and "p AND 3 = 0"
  shows "rb_is_red s a = Some (c = Red)" "get_left s a = Some (root_addr l)"
    "get_right s a = Some (root_addr r)" "null_or_black s (root_addr l) = Some (rcolor l = Black)"
    "null_or_black s (root_addr r) = Some (rcolor r = Black)"
proof -
  have "node_addr a" "tree_at (rb_mem s) a l" "tree_at (rb_mem s) a r" using assms by auto
  then show "null_or_black s (root_addr l) = Some (rcolor l = Black)"
    "null_or_black s (root_addr r) = Some (rcolor r = Black)"
    using tree_color(2) by auto
  show "rb_is_red s a = Some (c = Red)" "get_left s a = Some (root_addr l)"
    "get_right s a = Some (root_addr r)"
    using assms by (simp_all add: rb_is_red_def get_pc_def get_left_def get_right_def rb_load_node)
qed

lemma sib_facts:
  assumes "holds_tree s (plug (f # k) t)"
  shows "tree_at (rb_mem s) (faddr f) (fsib f)" "faddr f AND 3 = 0"
  using assms unfolding holds_tree_plug by (cases f; simp)+

definition next_pass :: "bool \<Rightarrow> u64 \<Rightarrow> ctx \<Rightarrow> (u64 \<times> u64) option" where
  "next_pass short a k = (if short \<and> parent_addr k \<noteq> 0 then Some (a, parent_addr k) else None)"

lemma erase_left_pass_black:
  assumes h: "holds_tree s (plug (HL c a sb # k) t)" and sb: "sb \<noteq> Lf" "rcolor sb = Black"
  defines "r \<equiv> del_left c a t sb"
  shows "\<exists>s'. erase_left_pass dummy_rotate s a (root_addr sb) = Some (s', next_pass (snd r) a k) \<and>
     holds_tree s' (plug k (fst r)) \<and> same_outside (set (rinorder (plug (HL c a sb # k) t))) s s'"
proof -
  from sb obtain sl sa sr where n: "sb = Nd Black sl sa sr" by (cases sb) auto
  note nf = node_facts [OF sib_facts(1) [OF h, simplified, unfolded n]] and al = sib_facts(2) [OF h, simplified]
  show ?thesis
  proof (cases "rcolor sr = Red")
    case True
    then have "sr \<noteq> Lf" by auto
    from erase_left_outer_step [OF h [unfolded n] this] show ?thesis
      using True nf al unfolding r_def n by (auto simp: erase_left_pass_def next_pass_def)
  next
    case False
    show ?thesis
    proof (cases "rcolor sl = Red")
      case True
      then obtain x y z where sl: "sl = Nd Red x y z" by (cases sl) auto
      from erase_left_inner_step [OF h [unfolded n sl]] show ?thesis
        using False nf al unfolding r_def n sl
        by (auto simp: erase_left_pass_def next_pass_def bind_eq_Some_conv)
    next
      case black: False
      have r: "del_left c a t sb = (Nd Black t a (Nd Red sl sa sr), c = Black)"
        using False black by (cases sl) (auto simp: n split: rbcol.splits)
      from erase_flip_left_step [OF h [unfolded n]] obtain s' where
        "erase_flip s a sa = Some (s', next_pass (c = Black) a k)"
        "holds_tree s' (plug k (Nd Black t a (Nd Red sl sa sr)))"
        "same_outside (set (rinorder (plug (HL c a (Nd Black sl sa sr) # k) t))) s s'"
        by (cases "erase_flip s a sa") (auto simp: next_pass_def)
      then show ?thesis
        using False black nf al unfolding r_def r unfolding n by (auto simp: erase_left_pass_def)
    qed
  qed
qed

lemma erase_right_pass_black:
  assumes h: "holds_tree s (plug (HR c sb a # k) t)" and sb: "sb \<noteq> Lf" "rcolor sb = Black"
  defines "r \<equiv> del_right c a t sb"
  shows "\<exists>s'. erase_right_pass dummy_rotate s a (root_addr sb) = Some (s', next_pass (snd r) a k) \<and>
     holds_tree s' (plug k (fst r)) \<and> same_outside (set (rinorder (plug (HR c sb a # k) t))) s s'"
proof -
  from sb obtain sl sa sr where n: "sb = Nd Black sl sa sr" by (cases sb) auto
  note nf = node_facts [OF sib_facts(1) [OF h, simplified, unfolded n]] and al = sib_facts(2) [OF h, simplified]
  show ?thesis
  proof (cases "rcolor sl = Red")
    case True
    then have "sl \<noteq> Lf" by auto
    from erase_right_outer_step [OF h [unfolded n] this] show ?thesis
      using True nf al unfolding r_def n by (auto simp: erase_right_pass_def next_pass_def)
  next
    case False
    show ?thesis
    proof (cases "rcolor sr = Red")
      case True
      then obtain x y z where sr: "sr = Nd Red x y z" by (cases sr) auto
      from erase_right_inner_step [OF h [unfolded n sr]] show ?thesis
        using False nf al unfolding r_def n sr
        by (auto simp: erase_right_pass_def next_pass_def bind_eq_Some_conv)
    next
      case black: False
      have r: "del_right c a t sb = (Nd Black (Nd Red sl sa sr) a t, c = Black)"
        using False black by (cases sr) (auto simp: n split: rbcol.splits)
      from erase_flip_right_step [OF h [unfolded n]] obtain s' where
        "erase_flip s a sa = Some (s', next_pass (c = Black) a k)"
        "holds_tree s' (plug k (Nd Black (Nd Red sl sa sr) a t))"
        "same_outside (set (rinorder (plug (HR c (Nd Black sl sa sr) a # k) t))) s s'"
        by (cases "erase_flip s a sa") (auto simp: next_pass_def)
      then show ?thesis
        using False black nf al unfolding r_def r unfolding n by (auto simp: erase_right_pass_def)
    qed
  qed
qed

lemma erase_left_pass_red:
  assumes h: "holds_tree s (plug (HL c a (Nd Red sl sa sr) # k) t)" and sl: "sl \<noteq> Lf"
  shows "\<exists>s1. erase_left_pass dummy_rotate s a sa = erase_left_pass dummy_rotate s1 a (root_addr sl) \<and>
     holds_tree s1 (plug (HL Red a (rpaint Black sl) # HL c sa sr # k) t) \<and>
     same_outside (set (rinorder (plug (HL c a (Nd Red sl sa sr) # k) t))) s s1"
proof -
  from erase_left_red_sibling_step [OF h sl] obtain s1 where
    s1: "erase_left_red_sibling dummy_rotate s a sa = Some (s1, root_addr sl)"
      "holds_tree s1 (plug (HL Red a (rpaint Black sl) # HL c sa sr # k) t)"
      "same_outside (set (rinorder (plug (HL c a (Nd Red sl sa sr) # k) t))) s s1"
    by (cases "erase_left_red_sibling dummy_rotate s a sa") auto
  have "rb_is_red s1 (root_addr sl) = Some False"
    using sib_facts [OF s1(2)] sl node_facts(1) by (cases sl) fastforce+
  moreover have "rb_is_red s sa = Some True"
    using node_facts(1) [OF sib_facts(1) [OF h, unfolded fsib.simps]] sib_facts(2) [OF h] by simp
  ultimately show ?thesis using s1 by (intro exI [of _ s1]) (simp add: erase_left_pass_def)
qed

lemma erase_right_pass_red:
  assumes h: "holds_tree s (plug (HR c (Nd Red sl sa sr) a # k) t)" and sr: "sr \<noteq> Lf"
  shows "\<exists>s1. erase_right_pass dummy_rotate s a sa = erase_right_pass dummy_rotate s1 a (root_addr sr) \<and>
     holds_tree s1 (plug (HR Red (rpaint Black sr) a # HR c sl sa # k) t) \<and>
     same_outside (set (rinorder (plug (HR c (Nd Red sl sa sr) a # k) t))) s s1"
proof -
  from erase_right_red_sibling_step [OF h sr] obtain s1 where
    s1: "erase_right_red_sibling dummy_rotate s a sa = Some (s1, root_addr sr)"
      "holds_tree s1 (plug (HR Red (rpaint Black sr) a # HR c sl sa # k) t)"
      "same_outside (set (rinorder (plug (HR c (Nd Red sl sa sr) a # k) t))) s s1"
    by (cases "erase_right_red_sibling dummy_rotate s a sa") auto
  have "rb_is_red s1 (root_addr sr) = Some False"
    using sib_facts [OF s1(2)] sr node_facts(1) by (cases sr) fastforce+
  moreover have "rb_is_red s sa = Some True"
    using node_facts(1) [OF sib_facts(1) [OF h, unfolded fsib.simps]] sib_facts(2) [OF h] by simp
  ultimately show ?thesis using s1 by (intro exI [of _ s1]) (simp add: erase_right_pass_def)
qed

text \<open>
  A whole pass: the tree the loop holds afterwards, and whether it goes on. The continuation is
  a shorter context, so the loop ends.
\<close>

lemma erase_pass_HL:
  assumes h: "holds_tree s (plug (HL c a sb # k) t)" and ok: "short_ok (HL c a sb # k) t"
  shows "\<exists>s' r. erase_pass dummy_rotate s (root_addr t) a = Some (s', r) \<and>
     same_outside (set (rinorder (plug (HL c a sb # k) t))) s s' \<and>
     (case r of
        None \<Rightarrow> holds_tree s' (del_fix (HL c a sb # k) t)
      | Some np \<Rightarrow> (\<exists>t'. np = (root_addr t', parent_addr k) \<and> holds_tree s' (plug k t') \<and>
          short_ok k t' \<and> k \<noteq> [] \<and> rinorder t' = rinorder (plug [HL c a sb] t) \<and>
          del_fix (HL c a sb # k) t = del_fix k t'))"
proof -
  have sbn: "sb \<noteq> Lf" using ok by (auto simp: short_ok_def)
  note h' = h [unfolded holds_tree_plug]
  have "root_addr t \<noteq> root_addr sb"
    using h' sbn root_addr_in [of t] root_addr_in [of sb] by (cases sb; cases t) auto
  moreover have "get_right s a = Some (root_addr sb)"
    using h' by (simp add: get_right_def rb_load_node)
  ultimately have pass: "erase_pass dummy_rotate s (root_addr t) a = erase_left_pass dummy_rotate s a (root_addr sb)"
    by (simp add: erase_pass_def)
  show ?thesis
  proof (cases "rcolor sb = Red")
    case True
    then obtain sl sa sr where n: "sb = Nd Red sl sa sr" by (cases sb) auto
    note r = short_red_sibling_HL [OF ok [unfolded n]]
    have b: "rcolor sl = Black" using ok n by (simp add: short_ok_def)
    from erase_left_pass_red [OF h [unfolded n] r(3)] obtain s1 where
      s1: "erase_left_pass dummy_rotate s a sa = erase_left_pass dummy_rotate s1 a (root_addr sl)"
        "holds_tree s1 (plug (HL Red a sl # HL c sa sr # k) t)"
        "same_outside (set (rinorder (plug (HL c a sb # k) t))) s s1"
      unfolding r(2) n by auto
    from erase_left_pass_black [OF s1(2) r(3) b] obtain s2 where
      s2: "erase_left_pass dummy_rotate s1 a (root_addr sl) = Some (s2, None)"
        "holds_tree s2 (plug (HL c sa sr # k) (fst (del_left Red a t sl)))"
        "same_outside (set (rinorder (plug (HL Red a sl # HL c sa sr # k) t))) s1 s2"
      using r(5) by (auto simp: next_pass_def)
    have "set (rinorder (plug (HL Red a sl # HL c sa sr # k) t)) = set (rinorder (plug (HL c a sb # k) t))"
      unfolding n by auto
    then have "same_outside (set (rinorder (plug (HL c a sb # k) t))) s s2"
      using s1(3) s2(3) by (auto intro: same_outside_trans)
    moreover have "del_fix (HL c a sb # k) t = plug (HL c sa sr # k) (fst (del_left Red a t sl))"
      using n r(2) by simp
    ultimately show ?thesis using pass s1 s2 n by simp
  next
    case False
    then have b: "rcolor sb = Black" by simp
    note d = del_fix_HL_black [OF ok b]
    let ?r = "del_left c a t sb"
    from erase_left_pass_black [OF h sbn b] obtain s' where
      s': "erase_left_pass dummy_rotate s a (root_addr sb) = Some (s', next_pass (snd ?r) a k)"
        "holds_tree s' (plug k (fst ?r))" "same_outside (set (rinorder (plug (HL c a sb # k) t))) s s'"
      by blast
    have root: "snd ?r \<Longrightarrow> root_addr (fst ?r) = a"
      using sbn by (cases sb) (auto split: rtree.splits rbcol.splits if_splits)
    have k0: "parent_addr k = 0 \<longleftrightarrow> k = []" if "ctx_at (rb_mem s) (rb_root s) a k"
      using that ctx_at_head(1) [of s "rb_root s" a] by (cases k) auto
    have "ctx_at (rb_mem s) (rb_root s) a k" using h' by simp
    note k0 = k0 [OF this]
    show ?thesis
    proof (cases "snd ?r \<and> k \<noteq> []")
      case True
      then show ?thesis
        using pass s' d(2,3) root k0 rinorder_del_left [OF sbn, of c a t]
        by (intro exI [of _ s'] exI [of _ "Some (a, parent_addr k)"])
          (auto simp: next_pass_def intro!: exI [of _ "fst ?r"])
    next
      case False
      then have "next_pass (snd ?r) a k = None" using k0 by (auto simp: next_pass_def)
      moreover have "del_fix (HL c a sb # k) t = plug k (fst ?r)" using d(2) False by auto
      ultimately show ?thesis using pass s' by simp
    qed
  qed
qed

lemma erase_pass_HR:
  assumes h: "holds_tree s (plug (HR c sb a # k) t)" and ok: "short_ok (HR c sb a # k) t"
  shows "\<exists>s' r. erase_pass dummy_rotate s (root_addr t) a = Some (s', r) \<and>
     same_outside (set (rinorder (plug (HR c sb a # k) t))) s s' \<and>
     (case r of
        None \<Rightarrow> holds_tree s' (del_fix (HR c sb a # k) t)
      | Some np \<Rightarrow> (\<exists>t'. np = (root_addr t', parent_addr k) \<and> holds_tree s' (plug k t') \<and>
          short_ok k t' \<and> k \<noteq> [] \<and> rinorder t' = rinorder (plug [HR c sb a] t) \<and>
          del_fix (HR c sb a # k) t = del_fix k t'))"
proof -
  have sbn: "sb \<noteq> Lf" using ok by (auto simp: short_ok_def)
  note h' = h [unfolded holds_tree_plug]
  have "root_addr t \<noteq> root_addr sb"
    using h' sbn root_addr_in [of t] root_addr_in [of sb] by (cases sb; cases t) auto
  moreover have "get_right s a = Some (root_addr t)"
    using h' by (simp add: get_right_def rb_load_node)
  moreover have "get_left s a = Some (root_addr sb)"
    using h' by (simp add: get_left_def rb_load_node)
  ultimately have pass: "erase_pass dummy_rotate s (root_addr t) a = erase_right_pass dummy_rotate s a (root_addr sb)"
    by (simp add: erase_pass_def)
  show ?thesis
  proof (cases "rcolor sb = Red")
    case True
    then obtain sl sa sr where n: "sb = Nd Red sl sa sr" by (cases sb) auto
    note r = short_red_sibling_HR [OF ok [unfolded n]]
    have b: "rcolor sr = Black" using ok n by (simp add: short_ok_def)
    from erase_right_pass_red [OF h [unfolded n] r(3)] obtain s1 where
      s1: "erase_right_pass dummy_rotate s a sa = erase_right_pass dummy_rotate s1 a (root_addr sr)"
        "holds_tree s1 (plug (HR Red sr a # HR c sl sa # k) t)"
        "same_outside (set (rinorder (plug (HR c sb a # k) t))) s s1"
      unfolding r(2) n by auto
    from erase_right_pass_black [OF s1(2) r(3) b] obtain s2 where
      s2: "erase_right_pass dummy_rotate s1 a (root_addr sr) = Some (s2, None)"
        "holds_tree s2 (plug (HR c sl sa # k) (fst (del_right Red a t sr)))"
        "same_outside (set (rinorder (plug (HR Red sr a # HR c sl sa # k) t))) s1 s2"
      using r(5) by (auto simp: next_pass_def)
    have "set (rinorder (plug (HR Red sr a # HR c sl sa # k) t)) = set (rinorder (plug (HR c sb a # k) t))"
      unfolding n by auto
    then have "same_outside (set (rinorder (plug (HR c sb a # k) t))) s s2"
      using s1(3) s2(3) by (auto intro: same_outside_trans)
    moreover have "del_fix (HR c sb a # k) t = plug (HR c sl sa # k) (fst (del_right Red a t sr))"
      using n r(2) by simp
    ultimately show ?thesis using pass s1 s2 n by simp
  next
    case False
    then have b: "rcolor sb = Black" by simp
    note d = del_fix_HR_black [OF ok b]
    let ?r = "del_right c a t sb"
    from erase_right_pass_black [OF h sbn b] obtain s' where
      s': "erase_right_pass dummy_rotate s a (root_addr sb) = Some (s', next_pass (snd ?r) a k)"
        "holds_tree s' (plug k (fst ?r))" "same_outside (set (rinorder (plug (HR c sb a # k) t))) s s'"
      by blast
    have root: "snd ?r \<Longrightarrow> root_addr (fst ?r) = a"
      using sbn by (cases sb) (auto split: rtree.splits rbcol.splits if_splits)
    have k0: "parent_addr k = 0 \<longleftrightarrow> k = []" if "ctx_at (rb_mem s) (rb_root s) a k"
      using that ctx_at_head(1) [of s "rb_root s" a] by (cases k) auto
    have "ctx_at (rb_mem s) (rb_root s) a k" using h' by simp
    note k0 = k0 [OF this]
    show ?thesis
    proof (cases "snd ?r \<and> k \<noteq> []")
      case True
      then show ?thesis
        using pass s' d(2,3) root k0 rinorder_del_right [OF sbn, of c a t]
        by (intro exI [of _ s'] exI [of _ "Some (a, parent_addr k)"])
          (auto simp: next_pass_def intro!: exI [of _ "fst ?r"])
    next
      case False
      then have "next_pass (snd ?r) a k = None" using k0 by (auto simp: next_pass_def)
      moreover have "del_fix (HR c sb a # k) t = plug k (fst ?r)" using d(2) False by auto
      ultimately show ?thesis using pass s' by simp
    qed
  qed
qed


text \<open>One pass of the loop on either side, and the loop by induction on the context.\<close>

definition pass_ok :: "rb_state \<Rightarrow> frame \<Rightarrow> ctx \<Rightarrow> rtree \<Rightarrow> rb_state \<Rightarrow> (u64 \<times> u64) option \<Rightarrow> bool" where
  "pass_ok s f k t s' r \<longleftrightarrow> same_outside (set (rinorder (plug (f # k) t))) s s' \<and>
     (case r of
        None \<Rightarrow> holds_tree s' (del_fix (f # k) t)
      | Some np \<Rightarrow> (\<exists>t'. np = (root_addr t', parent_addr k) \<and> holds_tree s' (plug k t') \<and>
          short_ok k t' \<and> k \<noteq> [] \<and> rinorder t' = rinorder (plug [f] t) \<and>
          del_fix (f # k) t = del_fix k t'))"

lemma erase_pass_frame:
  assumes "holds_tree s (plug (f # k) t)" "short_ok (f # k) t"
  shows "\<exists>s' r. erase_pass dummy_rotate s (root_addr t) (faddr f) = Some (s', r) \<and> pass_ok s f k t s' r"
proof (cases f)
  case (HL c a sb)
  show ?thesis using erase_pass_HL [OF assms [unfolded HL]] unfolding pass_ok_def HL faddr.simps .
next
  case (HR c sb a)
  show ?thesis using erase_pass_HR [OF assms [unfolded HR]] unfolding pass_ok_def HR faddr.simps .
qed

lemma erase_loop_correct:
  assumes "holds_tree s (plug k t)" "short_ok k t" "k \<noteq> []"
  shows "\<exists>s'. raw_rb_erase_color_loop dummy_rotate s (root_addr t) (parent_addr k) = Some s' \<and>
     holds_tree s' (del_fix k t) \<and> same_outside (set (rinorder (plug k t))) s s'"
  using assms
proof (induction k arbitrary: s t)
  case (Cons f k)
  obtain s' r where p: "erase_pass dummy_rotate s (root_addr t) (faddr f) = Some (s', r)"
    and ok: "pass_ok s f k t s' r"
    using erase_pass_frame [OF Cons.prems(1,2)] by blast
  note step = raw_rb_erase_color_loop.simps [of dummy_rotate s "root_addr t" "faddr f", unfolded p]
  show ?case
  proof (cases r)
    case None
    then show ?thesis using ok step by (auto simp: pass_ok_def)
  next
    case (Some np)
    from ok [unfolded pass_ok_def Some] obtain t' where t':
      "np = (root_addr t', parent_addr k)" "holds_tree s' (plug k t')" "short_ok k t'" "k \<noteq> []"
      "rinorder t' = rinorder (plug [f] t)" "del_fix (f # k) t = del_fix k t'"
      and out: "same_outside (set (rinorder (plug (f # k) t))) s s'"
      by auto
    have "set (rinorder (plug k t')) = set (rinorder (plug (f # k) t))"
      using t'(5) by (cases f) (auto simp: rinorder_plug)
    then show ?thesis
      using Cons.IH [OF t'(2,3,4)] step t' out by (auto simp: Some intro: same_outside_trans)
  qed
qed simp

end
