(* ===== verification/Rbtree_Unlink.thy ===== *)
theory Rbtree_Unlink
  imports Rbtree_Erase
begin

text \<open>
  Correctness of \<^verbatim>\<open>__rb_erase_augmented\<close>, which takes a node out of the tree, and of
  \<^verbatim>\<open>rb_erase\<close>, which then rebalances: the invariant holds again, the in-order sequence loses
  exactly the erased node, and no memory outside the tree changes.
\<close>

section \<open>Unlinking a node\<close>

text \<open>
  \<open>seg_at m q p ks\<close>: the frames \<open>ks\<close> are linked in memory, with \<open>q\<close> the parent of the topmost
  one and \<open>p\<close> the pointer in the hole.
\<close>

definition seg_parent :: "u64 \<Rightarrow> ctx \<Rightarrow> u64" where
  "seg_parent q ks = (case ks of [] \<Rightarrow> q | f # _ \<Rightarrow> faddr f)"

definition seg_top :: "u64 \<Rightarrow> ctx \<Rightarrow> u64" where
  "seg_top p ks = (if ks = [] then p else faddr (last ks))"

lemma seg_simps [simp]:
  "seg_parent q [] = q" "seg_parent q (f # ks) = faddr f"
  "seg_top p [] = p" "seg_top p (f # ks) = seg_top (faddr f) ks"
  by (simp_all add: seg_parent_def seg_top_def)

fun seg_at :: "rb_mem \<Rightarrow> u64 \<Rightarrow> u64 \<Rightarrow> ctx \<Rightarrow> bool" where
  "seg_at m q p [] = True"
| "seg_at m q p (HL c a s # ks) =
     (node_addr a \<and> m a = Some (mk_node (seg_parent q ks) c p (root_addr s)) \<and>
      tree_at m a s \<and> seg_at m q a ks)"
| "seg_at m q p (HR c s a # ks) =
     (node_addr a \<and> m a = Some (mk_node (seg_parent q ks) c (root_addr s) p) \<and>
      tree_at m a s \<and> seg_at m q a ks)"

lemma parent_addr_append [simp]: "parent_addr (ks @ k) = seg_parent (parent_addr k) ks"
  by (cases ks) auto

lemma ctx_at_append:
  "ctx_at m root p (ks @ k) \<longleftrightarrow> seg_at m (parent_addr k) p ks \<and> ctx_at m root (seg_top p ks) k"
  by (induction ks arbitrary: p rule: ctx_induct) auto

lemma plug_eq_Lf [simp]: "plug k t = Lf \<longleftrightarrow> k = [] \<and> t = Lf"
  by (induction k t rule: plug.induct) auto

lemma ctx_addrs_append [simp]: "ctx_addrs (ks @ k) = ctx_addrs ks \<union> ctx_addrs k"
  by (induction ks rule: ctx_induct) auto

lemma ctx_distinct_append [simp]:
  "ctx_distinct (ks @ k) \<longleftrightarrow> ctx_distinct ks \<and> ctx_distinct k \<and> ctx_addrs ks \<inter> ctx_addrs k = {}"
  by (induction ks rule: ctx_induct) auto

lemma seg_at_cong: "(\<And>x. x \<in> ctx_addrs ks \<Longrightarrow> m' x = m x) \<Longrightarrow> seg_at m' q p ks = seg_at m q p ks"
proof (induction ks arbitrary: p rule: ctx_induct)
  case (HL c a s k)
  then show ?case using tree_at_cong [of s m' m] by auto
next
  case (HR c s a k)
  then show ?case using tree_at_cong [of s m' m] by auto
qed simp

lemma seg_at_upd [simp]: "x \<notin> ctx_addrs ks \<Longrightarrow> seg_at (m(x \<mapsto> n)) q p ks = seg_at m q p ks"
  by (rule seg_at_cong) auto

lemma seg_top_in: "ks \<noteq> [] \<Longrightarrow> seg_top p ks \<in> ctx_addrs ks"
proof (induction ks arbitrary: p)
  case (Cons f ks)
  then show ?case by (cases ks; cases f) auto
qed simp

lemma seg_top_node: "seg_at m q p ks \<Longrightarrow> ks \<noteq> [] \<Longrightarrow> node_addr (seg_top p ks)"
proof (induction ks arbitrary: p)
  case (Cons f ks)
  then show ?case by (cases ks; cases f) auto
qed simp

lemma ctx_at_cong:
  "(\<And>x. x \<in> ctx_addrs k \<Longrightarrow> m' x = m x) \<Longrightarrow> ctx_at m' root p k = ctx_at m root p k"
  using seg_at_cong [of k m' m 0 p] ctx_at_append [of _ root p k "[]"] by simp

lemma same_outside_mono: "same_outside A s s' \<Longrightarrow> A \<subseteq> B \<Longrightarrow> same_outside B s s'"
  by (auto simp: same_outside_def)

lemma outside_mem: "same_outside A s s' \<Longrightarrow> x \<notin> A \<Longrightarrow> rb_mem s' x = rb_mem s x"
  by (simp add: same_outside_def)

lemma outside_frame:
  assumes "same_outside A s s'"
  shows "set (rinorder t) \<inter> A = {} \<Longrightarrow> tree_at (rb_mem s') p t = tree_at (rb_mem s) p t"
    and "ctx_addrs ks \<inter> A = {} \<Longrightarrow> seg_at (rb_mem s') q p ks = seg_at (rb_mem s) q p ks"
    and "ctx_addrs k \<inter> A = {} \<Longrightarrow> ctx_at (rb_mem s') root p k = ctx_at (rb_mem s) root p k"
  using assms by (auto simp: same_outside_def disjoint_iff intro!: tree_at_cong seg_at_cong ctx_at_cong)

text \<open>Rewriting the hole of a segment, and the parent of its topmost node.\<close>

lemma seg_set_hole:
  assumes "seg_at (rb_mem s) q p (HL c a sb # ks)" "ctx_distinct (HL c a sb # ks)"
  shows "\<exists>s'. set_left s a p' = Some s' \<and> seg_at (rb_mem s') q p' (HL c a sb # ks) \<and>
    same_outside {a} s s' \<and> rb_root s' = rb_root s"
  using assms by (simp add: set_left_def rb_load_node rb_store_def)

lemma seg_set_parent:
  assumes "seg_at (rb_mem s) q p ks" "ctx_distinct ks" "ks \<noteq> []" "q AND 3 = 0"
  shows "\<exists>s'. rb_set_parent s (seg_top p ks) q' = Some s' \<and> seg_at (rb_mem s') q' p ks \<and>
    same_outside {seg_top p ks} s s' \<and> rb_root s' = rb_root s"
  using assms
proof (induction ks arbitrary: p)
  case (Cons f ks)
  show ?case
  proof (cases "ks = []")
    case True
    then show ?thesis
      using Cons.prems by (cases f) (simp_all add: rb_ops)
  next
    case False
    have tail: "seg_at (rb_mem s) q (faddr f) ks" "ctx_distinct ks" using Cons.prems by (cases f; simp)+
    from Cons.IH [OF tail False Cons.prems(4)] obtain s' where
      s': "rb_set_parent s (seg_top (faddr f) ks) q' = Some s'" "seg_at (rb_mem s') q' (faddr f) ks"
        "same_outside {seg_top (faddr f) ks} s s'" "rb_root s' = rb_root s"
      by blast
    have "seg_top (faddr f) ks \<in> ctx_addrs ks" by (rule seg_top_in [OF False])
    moreover have "x \<notin> ctx_addrs ks" if "x \<in> insert (faddr f) (set (rinorder (fsib f)))" for x
      using that Cons.prems(2) by auto
    ultimately have "rb_mem s' x = rb_mem s x" if "x \<in> insert (faddr f) (set (rinorder (fsib f)))" for x
      using that s'(3) unfolding same_outside_def by (metis singletonD)
    then have "rb_mem s' (faddr f) = rb_mem s (faddr f)"
      "tree_at (rb_mem s') (faddr f) (fsib f) = tree_at (rb_mem s) (faddr f) (fsib f)"
      by (simp, intro tree_at_cong) simp
    moreover have "seg_parent q ks = seg_parent q' ks" using False by (cases ks) auto
    ultimately show ?thesis
      using s' Cons.prems(1) by (cases f) auto
  qed
qed simp

text \<open>The successor: the end of the left spine of the right subtree.\<close>

fun is_HL :: "frame \<Rightarrow> bool" where
  "is_HL (HL c a s) = True"
| "is_HL (HR c s a) = False"

lemma before_HL [simp]: "list_all is_HL ks \<Longrightarrow> before (ks @ k) = before k"
  by (induction ks rule: ctx_induct) auto

lemma after_append [simp]: "after (ks @ k) = after ks @ after k"
  by (induction ks rule: ctx_induct) auto

lemma leftmost_split: "\<exists>ks sc sa sr. Nd tc l b r = plug ks (Nd sc Lf sa sr) \<and> list_all is_HL ks"
proof (induction l arbitrary: tc b r)
  case Lf
  show ?case by (intro exI [of _ "[]"]) simp
next
  case (Nd c x y z)
  then obtain ks sc sa sr where "Nd c x y z = plug ks (Nd sc Lf sa sr)" "list_all is_HL ks" by blast
  then show ?case by (intro exI [of _ "ks @ [HL tc b r]"]) (auto simp: plug_append)
qed

lemma seg_at_plug:
  "tree_at m q (plug ks t) \<longleftrightarrow> tree_at m (seg_parent q ks) t \<and> seg_at m q (root_addr t) ks"
  by (induction ks t rule: plug.induct) auto

lemma root_addr_plug [simp]: "root_addr (plug ks t) = seg_top (root_addr t) ks"
  by (induction ks t rule: plug.induct) auto

lemma seg_parent_snoc [simp]: "seg_parent p (ks @ [f]) = seg_parent (faddr f) ks"
  by (cases ks) auto

lemma seg_top_snoc [simp]: "seg_top p (ks @ [f]) = faddr f"
  by (simp add: seg_top_def)

lemma erase_successor_correct:
  assumes "tree_at (rb_mem s) p (plug ks (Nd sc Lf sa sr))" "list_all is_HL ks"
  shows "erase_successor s p (seg_top sa ks) = Some (seg_parent p ks, sa)"
  using assms
proof (induction ks arbitrary: p rule: rev_induct)
  case Nil
  then show ?case by (simp add: erase_successor.simps get_left_def rb_load_node)
next
  case (snoc f ks)
  then obtain c a sb where f: "f = HL c a sb" by (cases f) auto
  from snoc.prems have t: "tree_at (rb_mem s) a (plug ks (Nd sc Lf sa sr))" "list_all is_HL ks"
    by (simp_all add: f plug_append)
  have "seg_top sa ks \<noteq> 0"
    using root_addr_eq_0 [OF t(1)] by simp
  then show ?case
    using snoc.prems snoc.IH [OF t]
    by (subst erase_successor.simps) (simp add: f plug_append get_left_def rb_load_node)
qed

text \<open>
  Splicing the successor \<open>sa\<close> in for the node \<open>a\<close>. The successor keeps its right link; its old
  right subtree \<open>sr\<close> is handed to \<open>parent\<close>.
\<close>

lemma erase_splice_correct:
  assumes a: "rb_mem s a = Some (mk_node (parent_addr k) c (root_addr l) x)" "node_addr a"
    and l: "tree_at (rb_mem s) a l" "l \<noteq> Lf"
    and k: "ctx_at (rb_mem s) (rb_root s) a k" "ctx_distinct k"
    and sa: "rb_mem s sa = Some (mk_node q sc y z)" "node_addr sa" "q AND 3 = 0"
    and sr: "tree_at (rb_mem s) q' sr"
    and dist: "a \<noteq> sa" "{a, sa} \<inter> (set (rinorder l) \<union> set (rinorder sr) \<union> ctx_addrs k) = {}"
      "set (rinorder l) \<inter> ctx_addrs k = {}" "set (rinorder l) \<inter> set (rinorder sr) = {}"
      "set (rinorder sr) \<inter> ctx_addrs k = {}" "distinct (rinorder l)" "distinct (rinorder sr)"
  shows "\<exists>s'. erase_splice s a parent sa (root_addr sr) =
        Some (s', if sr = Lf \<and> sc = Black then parent else 0, sa) \<and>
     rb_mem s' sa = Some (mk_node (parent_addr k) c (root_addr l) z) \<and>
     tree_at (rb_mem s') sa l \<and> tree_at (rb_mem s') parent (rpaint Black sr) \<and>
     ctx_at (rb_mem s') (rb_root s') sa k \<and>
     same_outside ({sa} \<union> set (rinorder l) \<union> set (rinorder sr) \<union> ctx_addrs k) s s'"
proof -
  note pa = parent_addr_ok [OF k(1)]
  from l(2) obtain lc ll la lr where ln: "l = Nd lc ll la lr" by (cases l) auto
  have cl: "ctx_links (rb_mem s) (rb_root s) k" using k(1) by (rule ctx_linksI)
  show ?thesis
  proof (cases sr)
    case Lf
    show ?thesis
      using a l k sa dist pa cl unfolding ln Lf
      by (simp add: rb_split, elim conjE) (simp add: erase_splice_def rb_ops)
  next
    case (Nd rc rl ra rr)
    show ?thesis
      using a l k sa sr dist pa cl unfolding ln Nd
      by (simp add: rb_split, elim conjE) (simp add: erase_splice_def rb_ops)
  qed
qed

lemma erase_take_successor_correct:
  assumes t: "tree_at (rb_mem s) a (plug ks (Nd sc Lf sa sr))" and hl: "list_all is_HL ks"
    and a: "node_addr a" and d: "distinct (rinorder (plug ks (Nd sc Lf sa sr)))"
  shows "\<exists>s' q y. erase_take_successor dummy_callbacks s a (seg_top sa ks) =
        Some (s', seg_parent sa ks, sa, root_addr sr) \<and>
     rb_mem s' sa = Some (mk_node q sc y (seg_top (root_addr sr) ks)) \<and> q AND 3 = 0 \<and>
     seg_at (rb_mem s') sa (root_addr sr) ks \<and> tree_at (rb_mem s') sa sr \<and>
     same_outside (insert sa (ctx_addrs ks)) s s' \<and> rb_root s' = rb_root s"
proof (cases ks)
  case Nil
  then show ?thesis
    using t a by (intro exI [of _ s] exI [of _ a] exI [of _ 0]) (simp add: erase_take_successor_def rb_ops)
next
  case (Cons f ks')
  then obtain c b sb where f: "f = HL c b sb" using hl by (cases f) auto
  note ks = Cons [unfolded f]
  have t1: "seg_at (rb_mem s) a sa ks" "node_addr sa" "tree_at (rb_mem s) sa sr"
    "rb_mem s sa = Some (mk_node b sc 0 (root_addr sr))" "node_addr b"
    using t unfolding seg_at_plug by (simp_all add: ks)
  have d1: "ctx_distinct ks" "sa \<notin> ctx_addrs ks" "sa \<notin> set (rinorder sr)"
    "set (rinorder sr) \<inter> ctx_addrs ks = {}"
    using d unfolding distinct_plug by auto
  have top: "seg_top sa ks \<in> ctx_addrs ks" by (rule seg_top_in) (simp add: ks)
  with d1(2) have ne: "seg_top sa ks \<noteq> sa" by auto
  obtain tmp where tmp: "get_left s (seg_top sa ks) = Some tmp" "tmp \<noteq> 0"
    "erase_successor s (seg_top sa ks) tmp = Some (b, sa)"
    using erase_successor_correct [OF t hl] ne
    unfolding erase_successor.simps [of s a "seg_top sa ks"]
    by (auto simp: ks Let_def bind_eq_Some_conv split: if_splits)
  from seg_set_hole [OF t1(1) [unfolded ks] d1(1) [unfolded ks]] obtain s1 where
    s1: "set_left s b (root_addr sr) = Some s1" "seg_at (rb_mem s1) a (root_addr sr) ks"
      "same_outside {b} s s1" "rb_root s1 = rb_root s"
    by (auto simp: ks)
  have bk: "b \<in> ctx_addrs ks" by (simp add: ks)
  have m1: "rb_mem s1 sa = rb_mem s sa" "tree_at (rb_mem s1) sa sr"
    using outside_mem [OF s1(3), of sa] outside_frame(1) [OF s1(3), of sr sa] d1 bk t1(3) by auto
  define s2 where "s2 = rb_store s1 sa (mk_node b sc 0 (seg_top sa ks))"
  have s2: "set_right s1 sa (seg_top sa ks) = Some s2" "seg_at (rb_mem s2) a (root_addr sr) ks"
    "rb_mem s2 sa = Some (mk_node b sc 0 (seg_top sa ks))" "tree_at (rb_mem s2) sa sr"
    "same_outside {sa} s1 s2" "rb_root s2 = rb_root s1"
    using t1 m1 s1(2) d1 by (simp_all add: s2_def set_right_def rb_load_node rb_store_def)
  have top2: "seg_top (root_addr sr) ks = seg_top sa ks" by (simp add: ks)
  from seg_set_parent [OF s2(2) d1(1), of sa] a obtain s3 where
    s3: "rb_set_parent s2 (seg_top sa ks) sa = Some s3" "seg_at (rb_mem s3) sa (root_addr sr) ks"
      "same_outside {seg_top sa ks} s2 s3" "rb_root s3 = rb_root s2"
    by (auto simp: ks)
  have m3: "rb_mem s3 sa = rb_mem s2 sa" "tree_at (rb_mem s3) sa sr"
    using outside_mem [OF s3(3), of sa] outside_frame(1) [OF s3(3), of sr sa] ne top d1 s2(4) by auto
  have "same_outside (insert sa (ctx_addrs ks)) s s3"
    by (rule same_outside_trans [OF same_outside_mono [OF s1(3)]
          same_outside_trans [OF same_outside_mono [OF s2(5)] same_outside_mono [OF s3(3)]]])
      (use bk top in auto)
  moreover have "erase_take_successor dummy_callbacks s a (seg_top sa ks) = Some (s3, b, sa, root_addr sr)"
    using tmp t1 s1 s2 s3
    by (simp add: erase_take_successor_def dummy_defs get_right_def rb_load_node)
  ultimately show ?thesis
    using s3 m3 s2(3) s2(6) s1(4) t1(5) top2 by (intro exI [of _ s3] exI [of _ b] exI [of _ 0]) (simp add: ks)
qed


lemma erase_two_children_correct:
  assumes h: "holds_tree s (plug (ks @ HR c l a # k) (Nd sc Lf sa sr))"
    and hl: "list_all is_HL ks" and l: "l \<noteq> Lf"
  shows "\<exists>s' tmp. erase_two_children dummy_callbacks s a (seg_top sa ks) =
        Some (s', if sr = Lf \<and> sc = Black then seg_parent sa ks else 0, tmp) \<and>
     holds_tree s' (plug (ks @ HR c l sa # k) (rpaint Black sr)) \<and>
     same_outside (set (rinorder (plug (ks @ HR c l a # k) (Nd sc Lf sa sr)))) s s'"
proof -
  have t: "tree_at (rb_mem s) a (plug ks (Nd sc Lf sa sr))"
    and a: "node_addr a" "rb_mem s a = Some (mk_node (parent_addr k) c (root_addr l) (seg_top sa ks))"
    "tree_at (rb_mem s) a l" "ctx_at (rb_mem s) (rb_root s) a k" "node_addr sa"
    using h unfolding holds_tree_plug by (auto simp: seg_at_plug ctx_at_append)
  have d: "ctx_distinct ks" "ctx_distinct k" "sa \<notin> ctx_addrs ks" "sa \<notin> ctx_addrs k" "sa \<noteq> a"
    "sa \<notin> set (rinorder l)" "sa \<notin> set (rinorder sr)" "a \<notin> set (rinorder l)" "a \<notin> set (rinorder sr)"
    "a \<notin> ctx_addrs ks" "a \<notin> ctx_addrs k" "distinct (rinorder l)" "distinct (rinorder sr)"
    "set (rinorder l) \<inter> ctx_addrs k = {}" "set (rinorder l) \<inter> ctx_addrs ks = {}"
    "set (rinorder l) \<inter> set (rinorder sr) = {}" "set (rinorder sr) \<inter> ctx_addrs ks = {}"
    "set (rinorder sr) \<inter> ctx_addrs k = {}" "ctx_addrs ks \<inter> ctx_addrs k = {}"
    using h unfolding holds_tree_plug by auto
  have "distinct (rinorder (plug ks (Nd sc Lf sa sr)))"
    using d by (simp add: distinct_plug)
  from erase_take_successor_correct [OF t hl a(1) this] obtain s1 q y where
    s1: "erase_take_successor dummy_callbacks s a (seg_top sa ks) = Some (s1, seg_parent sa ks, sa, root_addr sr)"
      "rb_mem s1 sa = Some (mk_node q sc y (seg_top (root_addr sr) ks))" "q AND 3 = 0"
      "seg_at (rb_mem s1) sa (root_addr sr) ks" "tree_at (rb_mem s1) sa sr"
    and o1: "same_outside (insert sa (ctx_addrs ks)) s s1" "rb_root s1 = rb_root s"
    by blast
  have a1: "rb_mem s1 a = rb_mem s a" "tree_at (rb_mem s1) a l" "ctx_at (rb_mem s1) (rb_root s1) a k"
    using outside_mem [OF o1(1), of a] outside_frame(1) [OF o1(1), of l a]
      outside_frame(3) [OF o1(1), of k "rb_root s" a] d a(3,4) o1(2)
    by (auto simp: Int_commute)
  from erase_splice_correct [OF a1(1) [unfolded a(2)] a(1) a1(2) l a1(3) d(2) s1(2) a(5) s1(3) s1(5),
      of "seg_parent sa ks"] d
  obtain s2 where
    s2: "erase_splice s1 a (seg_parent sa ks) sa (root_addr sr) =
        Some (s2, if sr = Lf \<and> sc = Black then seg_parent sa ks else 0, sa)"
      "rb_mem s2 sa = Some (mk_node (parent_addr k) c (root_addr l) (seg_top (root_addr sr) ks))"
      "tree_at (rb_mem s2) sa l" "tree_at (rb_mem s2) (seg_parent sa ks) (rpaint Black sr)"
      "ctx_at (rb_mem s2) (rb_root s2) sa k"
      "same_outside ({sa} \<union> set (rinorder l) \<union> set (rinorder sr) \<union> ctx_addrs k) s1 s2"
    by auto
  have "seg_at (rb_mem s2) sa (root_addr sr) ks"
    using s1(4) d outside_frame(2) [OF s2(6), of ks sa] by (auto simp: rb_split Int_commute)
  then have "holds_tree s2 (plug (ks @ HR c l sa # k) (rpaint Black sr))"
    using s2 a(5) d unfolding holds_tree_plug by (auto simp: ctx_at_append)
  moreover have "same_outside (set (rinorder (plug (ks @ HR c l a # k) (Nd sc Lf sa sr)))) s s2"
    using o1(1) s2(6) by (auto simp: same_outside_def)
  ultimately show ?thesis using s1(1) s2(1) by (simp add: erase_two_children_def)
qed

text \<open>At most one child: it moves up and takes over the colour.\<close>

fun recolor :: "rbcol \<Rightarrow> rtree \<Rightarrow> rtree" where
  "recolor c Lf = Lf"
| "recolor c (Nd d l a r) = Nd c l a r"

lemma rinorder_recolor [simp]: "rinorder (recolor c t) = rinorder t"
  by (cases t) auto

lemma erase_no_left_correct:
  assumes h: "holds_tree s (plug k (Nd c Lf a r))"
  shows "\<exists>s' tmp. erase_no_left s a (root_addr r) = Some (s', if r = Lf \<and> c = Black then parent_addr k else 0, tmp) \<and>
     holds_tree s' (plug k (recolor c r)) \<and> same_outside (set (rinorder (plug k (Nd c Lf a r)))) s s'"
proof -
  note h1 = h [unfolded holds_tree_plug]
  have pa: "parent_addr k AND 3 = 0" using h1 parent_addr_ok by blast
  have cl: "ctx_links (rb_mem s) (rb_root s) k" using h1 by (auto intro: ctx_linksI)
  show ?thesis
    using h1 pa cl
    by (cases r; simp add: rb_split; elim conjE; simp add: erase_no_left_def Let_def rb_ops; simp add: holds_tree_plug rb_split)
qed

lemma erase_no_right_correct:
  assumes h: "holds_tree s (plug k (Nd c l a Lf))" and l: "l \<noteq> Lf"
  shows "\<exists>s' tmp. erase_no_right s a (root_addr l) = Some (s', 0, tmp) \<and>
     holds_tree s' (plug k (recolor c l)) \<and> same_outside (set (rinorder (plug k (Nd c l a Lf)))) s s'"
proof -
  note h1 = h [unfolded holds_tree_plug]
  have pa: "parent_addr k AND 3 = 0" using h1 parent_addr_ok by blast
  have cl: "ctx_links (rb_mem s) (rb_root s) k" using h1 by (auto intro: ctx_linksI)
  show ?thesis
    using h1 pa cl l
    by (cases l; simp add: rb_split; elim conjE; simp add: erase_no_right_def Let_def rb_ops; simp add: holds_tree_plug rb_split)
qed

text \<open>
  The outcome of the unlinking phase: a tree without \<open>a\<close> that either satisfies the invariant or
  is one black node short at an empty position, whose parent is then returned.
\<close>

definition unlinked :: "u64 list \<Rightarrow> rb_state \<Rightarrow> u64 \<Rightarrow> bool" where
  "unlinked xs s' rebalance \<longleftrightarrow> (\<exists>k t. holds_tree s' (plug k t) \<and> rinorder (plug k t) = xs \<and>
     (if rebalance = 0 then rbt_ok (plug k t)
      else k \<noteq> [] \<and> t = Lf \<and> rebalance = parent_addr k \<and> short_ok k t))"

lemma unlinkedI:
  assumes "holds_tree s' (plug k t)" "rinorder (plug k t) = xs"
    and "\<not> short \<Longrightarrow> rbt_ok (plug k t)" and "short \<Longrightarrow> t = Lf \<and> short_ok k t"
  shows "unlinked xs s' (if short then parent_addr k else 0)"
proof (cases "short \<and> k \<noteq> []")
  case True
  then have "parent_addr k \<noteq> 0"
    using assms(1) ctx_at_head(1) [of s' "rb_root s'"] unfolding holds_tree_plug by (cases k) auto
  then show ?thesis using True assms unfolding unlinked_def by (intro exI [of _ k] exI [of _ t]) auto
next
  case False
  then have "rbt_ok (plug k t)" using assms(3,4) by (cases short) (auto simp: rbt_ok_def)
  then show ?thesis using False assms(1,2) unfolding unlinked_def by (intro exI [of _ k] exI [of _ t]) auto
qed

lemma bh_0_cases: "invc t \<Longrightarrow> invh t \<Longrightarrow> bh t = 0 \<Longrightarrow> t = Lf \<or> (\<exists>a. t = Nd Red Lf a Lf)"
proof (cases t)
  case (Nd c l a r)
  assume "invc t" "invh t" "bh t = 0"
  with Nd have "c = Red" "rcolor l = Black" "rcolor r = Black" "bh l = 0" "bh r = 0"
    by (auto split: if_splits)
  then show ?thesis using Nd by (cases l; cases r) auto
qed simp

lemma ctx_ok_swap: "ctx_ok (ks @ HR c l a # k) n = ctx_ok (ks @ HR c l b # k) n"
proof (induction ks arbitrary: n)
  case (Cons f ks)
  moreover have "ctx_color (ks @ HR c l a # k) = ctx_color (ks @ HR c l b # k)" by (cases ks) auto
  ultimately show ?case by simp
qed simp

text \<open>Removing a node with at most one child, on trees.\<close>

lemma lift_child_ok:
  assumes "rbt_ok (plug k (Nd c l a r))" "l = Lf \<and> x = r \<or> r = Lf \<and> x = l"
  shows "\<not> (x = Lf \<and> c = Black) \<Longrightarrow> rbt_ok (plug k (recolor c x))"
    and "x = Lf \<and> c = Black \<Longrightarrow> short_ok k Lf"
proof -
  note p = ctx_ok_of_plug [OF assms(1)]
  then have x: "x = Lf \<or> c = Black \<and> (\<exists>b. x = Nd Red Lf b Lf)"
    using assms(2) bh_0_cases [of x] by (cases c) auto
  show "\<not> (x = Lf \<and> c = Black) \<Longrightarrow> rbt_ok (plug k (recolor c x))"
    using p x assms(2) by (intro ctx_ok_plug) (auto split: if_splits)
  show "x = Lf \<and> c = Black \<Longrightarrow> short_ok k Lf"
    using p assms(2) by (auto simp: short_ok_def)
qed

lemma take_successor_ok:
  assumes "rbt_ok (plug (ks @ HR c l a # k) (Nd sc Lf sa sr))"
  shows "\<not> (sr = Lf \<and> sc = Black) \<Longrightarrow> rbt_ok (plug (ks @ HR c l sa # k) (rpaint Black sr))"
    and "sr = Lf \<and> sc = Black \<Longrightarrow> short_ok (ks @ HR c l sa # k) Lf"
proof -
  note p = ctx_ok_of_plug [OF assms, unfolded ctx_ok_swap [of ks c l a k _ sa]]
  then have x: "sr = Lf \<or> sc = Black \<and> (\<exists>b. sr = Nd Red Lf b Lf)"
    using bh_0_cases [of sr] by (cases sc) auto
  show "\<not> (sr = Lf \<and> sc = Black) \<Longrightarrow> rbt_ok (plug (ks @ HR c l sa # k) (rpaint Black sr))"
    using p x by (intro ctx_ok_plug) (auto split: if_splits)
  show "sr = Lf \<and> sc = Black \<Longrightarrow> short_ok (ks @ HR c l sa # k) Lf"
    using p by (auto simp: short_ok_def)
qed

lemma rb_unlink_correct:
  assumes h: "holds_tree s (plug k (Nd c l a r))" and ok: "rbt_ok (plug k (Nd c l a r))"
  shows "\<exists>s' rebalance. raw_rb_erase_augmented dummy_callbacks s a = Some (s', rebalance) \<and>
     unlinked (before k @ rinorder l @ rinorder r @ after k) s' rebalance \<and>
     same_outside (set (rinorder (plug k (Nd c l a r)))) s s'"
proof -
  have n: "get_right s a = Some (root_addr r)" "get_left s a = Some (root_addr l)"
    and lr: "root_addr l = 0 \<longleftrightarrow> l = Lf" "root_addr r = 0 \<longleftrightarrow> r = Lf"
    using h unfolding holds_tree_plug
    by (auto simp: get_right_def get_left_def rb_load_node dest: root_addr_eq_0)
  consider "l = Lf" | "l \<noteq> Lf" "r = Lf" | "l \<noteq> Lf" "r \<noteq> Lf" by blast
  then show ?thesis
  proof cases
    case 1
    note e = erase_no_left_correct [OF h [unfolded 1]] and i = lift_child_ok [OF ok, of r]
    from e obtain s' tmp where s': "erase_no_left s a (root_addr r) =
        Some (s', if r = Lf \<and> c = Black then parent_addr k else 0, tmp)"
      "holds_tree s' (plug k (recolor c r))" "same_outside (set (rinorder (plug k (Nd c Lf a r)))) s s'"
      by blast
    have "unlinked (before k @ rinorder l @ rinorder r @ after k) s' (if r = Lf \<and> c = Black then parent_addr k else 0)"
      using i 1 by (intro unlinkedI [OF s'(2)]) (auto simp: rinorder_plug)
    then show ?thesis using s' n 1 by (auto simp: raw_rb_erase_augmented_def dummy_defs)
  next
    case 2
    note e = erase_no_right_correct [OF h [unfolded 2] 2(1)] and i = lift_child_ok [OF ok, of l]
    from e obtain s' tmp where s': "erase_no_right s a (root_addr l) = Some (s', 0, tmp)"
      "holds_tree s' (plug k (recolor c l))" "same_outside (set (rinorder (plug k (Nd c l a Lf)))) s s'"
      by blast
    have "unlinked (before k @ rinorder l @ rinorder r @ after k) s' (if False then parent_addr k else 0)"
      using i 2 by (intro unlinkedI [OF s'(2)]) (auto simp: rinorder_plug)
    then show ?thesis using s' n lr 2 by (auto simp: raw_rb_erase_augmented_def dummy_defs)
  next
    case 3
    then obtain ks sc sa sr where r: "r = plug ks (Nd sc Lf sa sr)" "list_all is_HL ks"
      using leftmost_split by (cases r) blast+
    have p: "plug k (Nd c l a r) = plug (ks @ HR c l a # k) (Nd sc Lf sa sr)" by (simp add: r plug_append)
    from erase_two_children_correct [OF h [unfolded p] r(2) 3(1)] obtain s' tmp where
      s': "erase_two_children dummy_callbacks s a (seg_top sa ks) =
        Some (s', if sr = Lf \<and> sc = Black then seg_parent sa ks else 0, tmp)"
      "holds_tree s' (plug (ks @ HR c l sa # k) (rpaint Black sr))"
      "same_outside (set (rinorder (plug k (Nd c l a r)))) s s'"
      unfolding p by blast
    have "unlinked (before k @ rinorder l @ rinorder r @ after k) s'
       (if sr = Lf \<and> sc = Black then parent_addr (ks @ HR c l sa # k) else 0)"
      using take_successor_ok [OF ok [unfolded p]] r
      by (intro unlinkedI [OF s'(2)]) (auto simp: rinorder_plug before_HL [of ks "[]", simplified])
    then show ?thesis using s' n lr 3 r(1) by (auto simp: raw_rb_erase_augmented_def dummy_defs)
  qed
qed

lemma rb_erase_correct:
  assumes h: "holds_tree s (plug k (Nd c l a r))" and ok: "rbt_ok (plug k (Nd c l a r))"
  shows "\<exists>s' t'. rb_erase s a = Some s' \<and> holds_tree s' t' \<and> rbt_ok t' \<and>
     rinorder t' = before k @ rinorder l @ rinorder r @ after k \<and>
     same_outside (set (rinorder (plug k (Nd c l a r)))) s s'"
proof -
  let ?xs = "before k @ rinorder l @ rinorder r @ after k"
  from rb_unlink_correct [OF h ok] obtain s1 reb where
    s1: "raw_rb_erase_augmented dummy_callbacks s a = Some (s1, reb)" "unlinked ?xs s1 reb"
      "same_outside (set (rinorder (plug k (Nd c l a r)))) s s1"
    by blast
  from s1(2) obtain k1 t1 where u: "holds_tree s1 (plug k1 t1)" "rinorder (plug k1 t1) = ?xs"
    "reb = 0 \<Longrightarrow> rbt_ok (plug k1 t1)"
    "reb \<noteq> 0 \<Longrightarrow> k1 \<noteq> [] \<and> t1 = Lf \<and> reb = parent_addr k1 \<and> short_ok k1 t1"
    unfolding unlinked_def by (metis (full_types))
  show ?thesis
  proof (cases "reb = 0")
    case True
    then show ?thesis using s1 u by (auto simp: rb_erase_def)
  next
    case False
    with u have k1: "k1 \<noteq> []" "t1 = Lf" "reb = parent_addr k1" "short_ok k1 t1" by auto
    from erase_loop_correct [OF u(1) k1(4,1)] obtain s2 where
      s2: "raw_rb_erase_color_loop dummy_rotate s1 0 reb = Some s2" "holds_tree s2 (del_fix k1 t1)"
        "same_outside (set (rinorder (plug k1 t1))) s1 s2"
      using k1 by auto
    have "same_outside (set (rinorder (plug k (Nd c l a r)))) s s2"
      by (rule same_outside_trans [OF s1(3) same_outside_mono [OF s2(3)]])
        (simp only: u(2), auto simp: ctx_addrs_def)
    then show ?thesis
      using del_fix_ok [OF k1(4)] s1 s2 u(2) False
      by (auto simp: rb_erase_def raw_rb_erase_color_def)
  qed
qed

end
