(* ===== verification/Rbtree_Walk.thy ===== *)
theory Rbtree_Walk
  imports Rbtree_Unlink
begin

text \<open>
  The traversal functions return in-order neighbours, and \<^verbatim>\<open>rb_replace_node\<close> exchanges one node
  for another without touching the shape of the tree.
\<close>

definition or_null :: "u64 list \<Rightarrow> u64" where
  "or_null xs = (case xs of [] \<Rightarrow> 0 | x # _ \<Rightarrow> x)"

lemma or_null_simps [simp]: "or_null [] = 0" "or_null (x # xs) = x"
  by (simp_all add: or_null_def)

lemma or_null_append [simp]: "or_null (xs @ x # ys) = (if xs = [] then x else hd xs)"
  by (cases xs) auto

lemma pc_parent_color_bit [simp]: "pc_parent (color_bit c) = 0"
  using pc_parent_mk [of 0 c] by simp

lemma leftmost_correct:
  assumes "tree_at (rb_mem s) p (Nd c l a r)"
  shows "leftmost s a = Some (or_null (rinorder (Nd c l a r)))"
  using assms
proof (induction l arbitrary: p c a r)
  case Lf
  then show ?case by (subst leftmost.simps) (simp add: get_left_def rb_load_node)
next
  case (Nd d x b y)
  then have "leftmost s a = leftmost s b"
    by (subst leftmost.simps) (simp add: get_left_def rb_load_node)
  moreover have "tree_at (rb_mem s) a (Nd d x b y)" using Nd.prems by simp
  ultimately show ?case using Nd.IH(1) [of a d b y] by simp
qed

lemma rightmost_correct:
  assumes "tree_at (rb_mem s) p (Nd c l a r)"
  shows "rightmost s a = Some (or_null (rev (rinorder (Nd c l a r))))"
  using assms
proof (induction r arbitrary: p c a l)
  case Lf
  then show ?case by (subst rightmost.simps) (simp add: get_right_def rb_load_node)
next
  case (Nd d x b y)
  then have "rightmost s a = rightmost s b"
    by (subst rightmost.simps) (simp add: get_right_def rb_load_node)
  moreover have "tree_at (rb_mem s) a (Nd d x b y)" using Nd.prems by simp
  ultimately show ?case using Nd.IH(2) [of a d x b] by simp
qed

lemma rb_last_correct:
  assumes "holds_tree s t"
  shows "rb_last s = Some (or_null (rev (rinorder t)))"
proof (cases t)
  case Lf
  then show ?thesis using assms by (simp add: rb_last_def holds_tree_def)
next
  case (Nd c l a r)
  then have "tree_at (rb_mem s) 0 (Nd c l a r)" "rb_root s = a" "a \<noteq> 0"
    using assms by (auto simp: holds_tree_def)
  then show ?thesis
    using rightmost_correct [of s 0 c l a r] Nd by (simp add: rb_last_def)
qed

lemma sib_not_child:
  assumes "node_addr p" "p \<notin> set (rinorder t)"
  shows "p \<noteq> root_addr t"
  using assms root_addr_in [of t] by (cases "t = Lf") auto

lemma ascend_while_right_correct:
  assumes "ctx_at (rb_mem s) (rb_root s) a k" "rb_mem s a = Some (mk_node (parent_addr k) c x y)"
    "node_addr a" "a \<notin> ctx_addrs k" "ctx_distinct k"
  shows "ascend_while_right s a = Some (or_null (after k))"
  using assms
proof (induction k arbitrary: a c x y rule: ctx_induct)
  case Nil
  then show ?case by (subst ascend_while_right.simps) (simp add: rb_parent_def get_pc_def rb_load_node)
next
  case (HL d b sb k)
  then have "a \<noteq> root_addr sb" by (intro sib_not_child) auto
  with HL.prems show ?case
    by (subst ascend_while_right.simps) (simp add: rb_parent_def get_pc_def get_right_def rb_load_node)
next
  case (HR d sb b k)
  have "ascend_while_right s a = ascend_while_right s b"
    using HR.prems by (subst ascend_while_right.simps)
      (simp add: rb_parent_def get_pc_def get_right_def rb_load_node)
  then show ?case using HR.prems by (simp add: HR.IH)
qed

lemma ascend_while_left_correct:
  assumes "ctx_at (rb_mem s) (rb_root s) a k" "rb_mem s a = Some (mk_node (parent_addr k) c x y)"
    "node_addr a" "a \<notin> ctx_addrs k" "ctx_distinct k"
  shows "ascend_while_left s a = Some (or_null (rev (before k)))"
  using assms
proof (induction k arbitrary: a c x y rule: ctx_induct)
  case Nil
  then show ?case by (subst ascend_while_left.simps) (simp add: rb_parent_def get_pc_def rb_load_node)
next
  case (HR d sb b k)
  then have "a \<noteq> root_addr sb" by (intro sib_not_child) auto
  with HR.prems show ?case
    by (subst ascend_while_left.simps) (simp add: rb_parent_def get_pc_def get_left_def rb_load_node)
next
  case (HL d b sb k)
  have "ascend_while_left s a = ascend_while_left s b"
    using HL.prems by (subst ascend_while_left.simps)
      (simp add: rb_parent_def get_pc_def get_left_def rb_load_node)
  then show ?case using HL.prems by (simp add: HL.IH)
qed

text \<open>A node of a tree is never marked as cleared: its parent field cannot be its own address.\<close>

lemma parent_color_not_self:
  assumes "p AND 3 = 0" "a AND 3 = 0" "a \<noteq> p"
  shows "p + color_bit c \<noteq> a"
proof
  assume "p + color_bit c = a"
  then have "pc_parent a = p" using assms(1) by (metis pc_parent_mk)
  moreover have "pc_parent a = a" using pc_parent_mk [OF assms(2), of Red] by (simp add: RB_RED_def)
  ultimately show False using assms(3) by simp
qed

lemma in_tree_not_empty:
  assumes "holds_tree s (plug k (Nd c l a r))"
  shows "RB_EMPTY_NODE s a = Some False"
proof -
  note h = assms [unfolded holds_tree_plug]
  have "parent_addr k AND 3 = 0" using h parent_addr_ok by blast
  moreover have "a \<noteq> parent_addr k" using h by (cases k; cases "hd k") auto
  ultimately show ?thesis
    using h parent_color_not_self [of "parent_addr k" a c]
    by (simp add: RB_EMPTY_NODE_def get_pc_def rb_load_node)
qed

lemma rb_next_correct:
  assumes h: "holds_tree s (plug k (Nd c l a r))"
  shows "rb_next s a = Some (or_null (rinorder r @ after k))"
proof (cases r)
  case Lf
  then show ?thesis
    using h [unfolded holds_tree_plug] in_tree_not_empty [OF h] ascend_while_right_correct [of s a k]
    by (simp add: rb_next_def get_right_def rb_load_node)
next
  case (Nd d x b y)
  then have "tree_at (rb_mem s) a (Nd d x b y)" using h unfolding holds_tree_plug by simp
  from leftmost_correct [OF this] show ?thesis
    using h [unfolded holds_tree_plug] in_tree_not_empty [OF h]
    by (auto simp: Nd rb_next_def get_right_def rb_load_node)
qed

lemma rb_prev_correct:
  assumes h: "holds_tree s (plug k (Nd c l a r))"
  shows "rb_prev s a = Some (or_null (rev (before k @ rinorder l)))"
proof (cases l)
  case Lf
  then show ?thesis
    using h [unfolded holds_tree_plug] in_tree_not_empty [OF h] ascend_while_left_correct [of s a k]
    by (simp add: rb_prev_def get_left_def rb_load_node)
next
  case (Nd d x b y)
  then have "tree_at (rb_mem s) a (Nd d x b y)" using h unfolding holds_tree_plug by simp
  from rightmost_correct [OF this] show ?thesis
    using h [unfolded holds_tree_plug] in_tree_not_empty [OF h]
    by (auto simp: Nd rb_prev_def get_left_def rb_load_node)
qed

lemma rb_replace_node_correct:
  assumes h: "holds_tree s (plug k (Nd c l a r))"
    and b: "node_addr b" "rb_mem s b = Some n" "b \<notin> set (rinorder (plug k (Nd c l a r)))"
  shows "\<exists>s'. rb_replace_node s a b = Some s' \<and> holds_tree s' (plug k (Nd c l b r)) \<and>
     same_outside (insert b (set (rinorder (plug k (Nd c l a r))))) s s'"
proof -
  note h1 = h [unfolded holds_tree_plug]
  have pa: "parent_addr k AND 3 = 0" using h1 parent_addr_ok by blast
  have cl: "ctx_links (rb_mem s) (rb_root s) k" using h1 by (auto intro: ctx_linksI)
  show ?thesis
    using h1 pa cl b
    by (cases l; cases r; simp add: rb_split; elim conjE; simp add: rb_replace_node_def Let_def rb_ops;
        simp add: holds_tree_plug rb_split)
qed

end
