(* ===== verification/Rbtree_Interface.thy ===== *)
theory Rbtree_Interface
  imports Rbtree_Walk
begin

text \<open>
  What a client of the red-black tree relies on, as a locale, and its interpretation on the
  model of \<^verbatim>\<open>src/svmx/rbtree.c\<close>. Clients see the tree as the list of its node addresses in order.
\<close>

text \<open>Stepping from a node until NULL, in at most \<open>n\<close> steps: the nodes visited.\<close>

primrec walk :: "(u64 \<Rightarrow> u64 option) \<Rightarrow> nat \<Rightarrow> u64 \<Rightarrow> u64 list option" where
  "walk step 0 a = (if a = 0 then Some [] else None)"
| "walk step (Suc n) a = (if a = 0 then Some [] else do {
     b \<leftarrow> step a;
     r \<leftarrow> walk step n b;
     Some (a # r)
   })"

locale ordered_tree =
  fixes tree_inv :: "'s \<Rightarrow> u64 list \<Rightarrow> bool"
    and mapped :: "'s \<Rightarrow> u64 \<Rightarrow> bool"
    and at_leaf :: "'s \<Rightarrow> u64 \<Rightarrow> rb_link \<Rightarrow> u64 list \<Rightarrow> u64 list \<Rightarrow> bool"
    and t_insert :: "'s \<Rightarrow> u64 \<Rightarrow> u64 \<Rightarrow> rb_link \<Rightarrow> 's option"
    and t_erase :: "'s \<Rightarrow> u64 \<Rightarrow> 's option"
    and t_replace :: "'s \<Rightarrow> u64 \<Rightarrow> u64 \<Rightarrow> 's option"
    and t_next :: "'s \<Rightarrow> u64 \<Rightarrow> u64 option"
    and t_prev :: "'s \<Rightarrow> u64 \<Rightarrow> u64 option"
    and t_last :: "'s \<Rightarrow> u64 option"
  assumes inv_distinct: "tree_inv s xs \<Longrightarrow> distinct xs \<and> 0 \<notin> set xs"
    and insert_law: "at_leaf s p l xs ys \<Longrightarrow> node_addr a \<Longrightarrow> mapped s a \<Longrightarrow>
      a \<notin> set (xs @ ys) \<Longrightarrow>
      \<exists>s'. t_insert s a p l = Some s' \<and> tree_inv s' (xs @ a # ys) \<and>
        (\<forall>b. b \<notin> set (xs @ a # ys) \<longrightarrow> mapped s' b = mapped s b)"
    and erase_law: "tree_inv s (xs @ a # ys) \<Longrightarrow>
      \<exists>s'. t_erase s a = Some s' \<and> tree_inv s' (xs @ ys) \<and>
        (\<forall>b. b \<notin> set (xs @ a # ys) \<longrightarrow> mapped s' b = mapped s b)"
    and replace_law: "tree_inv s (xs @ a # ys) \<Longrightarrow> node_addr b \<Longrightarrow> mapped s b \<Longrightarrow>
      b \<notin> set (xs @ a # ys) \<Longrightarrow>
      \<exists>s'. t_replace s a b = Some s' \<and> tree_inv s' (xs @ b # ys) \<and>
        (\<forall>c. c \<notin> set (xs @ a # b # ys) \<longrightarrow> mapped s' c = mapped s c)"
    and next_law: "tree_inv s (xs @ a # ys) \<Longrightarrow> t_next s a = Some (or_null ys)"
    and prev_law: "tree_inv s (xs @ a # ys) \<Longrightarrow> t_prev s a = Some (or_null (rev xs))"
    and last_law: "tree_inv s xs \<Longrightarrow> t_last s = Some (or_null (rev xs))"
begin

lemma walk_suffix:
  assumes "tree_inv s (xs @ ys)"
  shows "walk (t_next s) (length ys) (or_null ys) = Some ys"
  using assms
proof (induction ys arbitrary: xs)
  case (Cons a ys)
  have "a \<noteq> 0" using inv_distinct [OF Cons.prems] by auto
  moreover have "walk (t_next s) (length ys) (or_null ys) = Some ys"
    using Cons.IH [of "xs @ [a]"] Cons.prems by simp
  ultimately show ?case using next_law [OF Cons.prems] by simp
qed simp

lemma next_prev:
  assumes "tree_inv s (xs @ a # b # ys)"
  shows "t_next s a = Some b" "t_prev s b = Some a"
  using next_law [OF assms] prev_law [of s "xs @ [a]" b ys] assms by simp_all

lemma erase_insert:
  assumes "at_leaf s p l xs ys" "node_addr a" "mapped s a" "a \<notin> set (xs @ ys)"
  shows "\<exists>s1 s2. t_insert s a p l = Some s1 \<and> t_erase s1 a = Some s2 \<and> tree_inv s2 (xs @ ys)"
  using insert_law [OF assms] erase_law by blast

end

text \<open>The red-black tree provides the interface.\<close>

definition rb_inv :: "rb_state \<Rightarrow> u64 list \<Rightarrow> bool" where
  "rb_inv s xs \<longleftrightarrow> (\<exists>t. holds_tree s t \<and> rbt_ok t \<and> rinorder t = xs)"

definition rb_mapped :: "rb_state \<Rightarrow> u64 \<Rightarrow> bool" where
  "rb_mapped s a \<longleftrightarrow> rb_mem s a \<noteq> None"

definition rb_at_leaf :: "rb_state \<Rightarrow> u64 \<Rightarrow> rb_link \<Rightarrow> u64 list \<Rightarrow> u64 list \<Rightarrow> bool" where
  "rb_at_leaf s p l xs ys \<longleftrightarrow> (\<exists>k. holds_tree s (plug k Lf) \<and> rbt_ok (plug k Lf) \<and>
     p = parent_addr k \<and> l = link_of k \<and> xs = before k \<and> ys = after k)"

definition rb_link_insert :: "rb_state \<Rightarrow> u64 \<Rightarrow> u64 \<Rightarrow> rb_link \<Rightarrow> rb_state option" where
  "rb_link_insert s a p l = rb_link_node s a p l \<bind> (\<lambda>s. rb_insert_color s a)"

lemma list_split_cases:
  assumes "ls @ b # rs = xs @ a # ys"
  obtains us where "xs = ls @ b # us" "rs = us @ a # ys"
    | vs where "ls = xs @ a # vs" "ys = vs @ b # rs"
    | "xs = ls" "a = b" "ys = rs"
proof -
  from assms obtain us where "ls = xs @ us \<and> us @ b # rs = a # ys \<or> ls @ us = xs \<and> b # rs = us @ a # ys"
    unfolding append_eq_append_conv2 by blast
  then show thesis
    using that by (cases us) auto
qed

lemma before_snoc: "before (k @ [f]) = before [f] @ before k"
  by (induction k rule: ctx_induct; cases f) auto

lemma rinorder_split:
  "rinorder t = xs @ a # ys \<Longrightarrow>
   \<exists>k c l r. t = plug k (Nd c l a r) \<and> xs = before k @ rinorder l \<and> ys = rinorder r @ after k"
proof (induction t arbitrary: xs ys)
  case (Nd c l b r)
  from Nd.prems have "rinorder l @ b # rinorder r = xs @ a # ys" by simp
  then show ?case
  proof (cases rule: list_split_cases)
    case (1 us)
    with Nd.IH(2) obtain k d x y where
      "r = plug k (Nd d x a y)" "us = before k @ rinorder x" "ys = rinorder y @ after k" by blast
    then show ?thesis
      using 1 by (intro exI [of _ "k @ [HR c l b]"] exI [of _ d] exI [of _ x] exI [of _ y])
        (simp add: plug_append before_snoc)
  next
    case (2 vs)
    with Nd.IH(1) obtain k d x y where
      "l = plug k (Nd d x a y)" "xs = before k @ rinorder x" "vs = rinorder y @ after k" by blast
    then show ?thesis
      using 2 by (intro exI [of _ "k @ [HL c b r]"] exI [of _ d] exI [of _ x] exI [of _ y])
        (simp add: plug_append before_snoc)
  next
    case 3
    then show ?thesis by (intro exI [of _ "[]"]) auto
  qed
qed simp

lemma rb_inv_split:
  assumes "rb_inv s (xs @ a # ys)"
  obtains k c l r where "holds_tree s (plug k (Nd c l a r))" "rbt_ok (plug k (Nd c l a r))"
    "xs = before k @ rinorder l" "ys = rinorder r @ after k"
    "set (rinorder (plug k (Nd c l a r))) = set (xs @ a # ys)"
proof -
  from assms obtain t where t: "holds_tree s t" "rbt_ok t" "rinorder t = xs @ a # ys"
    by (auto simp: rb_inv_def)
  from rinorder_split [OF t(3)] obtain k c l r where
    "t = plug k (Nd c l a r)" "xs = before k @ rinorder l" "ys = rinorder r @ after k" by blast
  then show thesis using that t by metis
qed

lemma rbt_ok_replace:
  assumes "rbt_ok (plug k (Nd c l a r))"
  shows "rbt_ok (plug k (Nd c l b r))"
  using ctx_ok_of_plug [OF assms] by (intro ctx_ok_plug) simp_all

lemma rb_inv_distinct: "rb_inv s xs \<Longrightarrow> distinct xs \<and> 0 \<notin> set xs"
  using tree_at_node_addr [of "rb_mem s" 0] node_addr_nz
  unfolding rb_inv_def holds_tree_def by blast

lemma rb_erase_law:
  assumes "rb_inv s (xs @ a # ys)"
  shows "\<exists>s'. rb_erase s a = Some s' \<and> rb_inv s' (xs @ ys) \<and>
    (\<forall>b. b \<notin> set (xs @ a # ys) \<longrightarrow> rb_mapped s' b = rb_mapped s b)"
proof -
  obtain k c l r where k: "holds_tree s (plug k (Nd c l a r))" "rbt_ok (plug k (Nd c l a r))"
    "xs = before k @ rinorder l" "ys = rinorder r @ after k"
    "set (rinorder (plug k (Nd c l a r))) = set (xs @ a # ys)"
    using assms by (rule rb_inv_split)
  from rb_erase_correct [OF k(1,2)] obtain s' t' where "rb_erase s a = Some s'" "holds_tree s' t'" "rbt_ok t'"
    "rinorder t' = xs @ ys" "same_outside (set (xs @ a # ys)) s s'"
    unfolding k(5) using k(3,4) by auto
  then show ?thesis unfolding rb_inv_def rb_mapped_def same_outside_def by metis
qed

lemma rb_replace_law:
  assumes "rb_inv s (xs @ a # ys)" "node_addr b" "rb_mapped s b" "b \<notin> set (xs @ a # ys)"
  shows "\<exists>s'. rb_replace_node s a b = Some s' \<and> rb_inv s' (xs @ b # ys) \<and>
    (\<forall>c. c \<notin> set (xs @ a # b # ys) \<longrightarrow> rb_mapped s' c = rb_mapped s c)"
proof -
  obtain k c l r where k: "holds_tree s (plug k (Nd c l a r))" "rbt_ok (plug k (Nd c l a r))"
    "xs = before k @ rinorder l" "ys = rinorder r @ after k"
    "set (rinorder (plug k (Nd c l a r))) = set (xs @ a # ys)"
    using assms(1) by (rule rb_inv_split)
  obtain n where n: "rb_mem s b = Some n" using assms(3) by (auto simp: rb_mapped_def)
  from rb_replace_node_correct [OF k(1) assms(2) n] obtain s' where
    s': "rb_replace_node s a b = Some s'" "holds_tree s' (plug k (Nd c l b r))"
      "same_outside (insert b (set (xs @ a # ys))) s s'"
    unfolding k(5) using assms(4) by auto
  have "rinorder (plug k (Nd c l b r)) = xs @ b # ys" by (simp add: rinorder_plug k)
  then have "rb_inv s' (xs @ b # ys)" using s'(2) rbt_ok_replace [OF k(2)] unfolding rb_inv_def by blast
  moreover have "\<forall>c. c \<notin> set (xs @ a # b # ys) \<longrightarrow> rb_mapped s' c = rb_mapped s c"
    using s'(3) by (auto simp: same_outside_def rb_mapped_def)
  ultimately show ?thesis using s'(1) by blast
qed

lemma rb_insert_law:
  assumes "rb_at_leaf s p l xs ys" "node_addr a" "rb_mapped s a" "a \<notin> set (xs @ ys)"
  shows "\<exists>s'. rb_link_insert s a p l = Some s' \<and> rb_inv s' (xs @ a # ys) \<and>
    (\<forall>b. b \<notin> set (xs @ a # ys) \<longrightarrow> rb_mapped s' b = rb_mapped s b)"
proof -
  from assms(1) obtain k where k: "holds_tree s (plug k Lf)" "rbt_ok (plug k Lf)"
    "p = parent_addr k" "l = link_of k" "xs = before k" "ys = after k" by (auto simp: rb_at_leaf_def)
  obtain n where n: "rb_mem s a = Some n" using assms(3) by (auto simp: rb_mapped_def)
  have set: "set (rinorder (plug k Lf)) = set (xs @ ys)" by (simp add: k ctx_addrs_def)
  from rb_insert_correct [OF k(1,2) assms(2) n] obtain s' t' where
    "rb_link_insert s a p l = Some s'" "holds_tree s' t'" "rbt_ok t'" "rinorder t' = xs @ a # ys"
    "same_outside (insert a (set (xs @ ys))) s s'"
    unfolding set rb_link_insert_def using assms(4) k by auto
  then show ?thesis unfolding rb_inv_def rb_mapped_def same_outside_def
    by (intro exI [of _ s']) auto
qed

lemma rb_next_law: "rb_inv s (xs @ a # ys) \<Longrightarrow> rb_next s a = Some (or_null ys)"
  using rb_next_correct by (elim rb_inv_split) metis

lemma rb_prev_law: "rb_inv s (xs @ a # ys) \<Longrightarrow> rb_prev s a = Some (or_null (rev xs))"
  using rb_prev_correct by (elim rb_inv_split) metis

lemma rb_last_law: "rb_inv s xs \<Longrightarrow> rb_last s = Some (or_null (rev xs))"
  using rb_last_correct unfolding rb_inv_def by blast

interpretation rb: ordered_tree rb_inv rb_mapped rb_at_leaf rb_link_insert rb_erase rb_replace_node
  rb_next rb_prev rb_last
  by unfold_locales
    (rule rb_inv_distinct rb_insert_law rb_erase_law rb_replace_law rb_next_law rb_prev_law rb_last_law; assumption)+

end
