(* ===== verification/Rbtree_Props.thy ===== *)
theory Rbtree_Props
  imports Rbtree_Interface
begin

text \<open>
  The contract of the red-black tree, stated over the operations of \<^verbatim>\<open>src/svmx/rbtree.c\<close>:
  insertion, erasure, replacement and traversal, with concrete instances.
\<close>

section \<open>Concrete trees\<close>

text \<open>Three nodes at 16, 32 and 48: a black root with two red children, and a free node at 64.\<close>

definition three_nodes :: rb_state where
  "three_nodes = \<lparr>rb_mem = [16 \<mapsto> mk_node 32 Red 0 0, 32 \<mapsto> mk_node 0 Black 16 48,
      48 \<mapsto> mk_node 32 Red 0 0, 64 \<mapsto> mk_node 0 Black 7 9], rb_root = 32\<rparr>"

abbreviation three_tree :: rtree where
  "three_tree \<equiv> Nd Black (Nd Red Lf 16 Lf) 32 (Nd Red Lf 48 Lf)"

lemma three_nodes_holds: "holds_tree three_nodes three_tree" "rbt_ok three_tree"
  by (simp_all add: holds_tree_def three_nodes_def node_addr_def rbt_ok_def)

lemma three_nodes_inv: "rb_inv three_nodes [16, 32, 48]"
  using three_nodes_holds unfolding rb_inv_def by (intro exI [of _ three_tree]) simp

lemma three_nodes_leaf: "rb_at_leaf three_nodes 48 (Link_right 48) [16, 32, 48] []"
  using three_nodes_holds unfolding rb_at_leaf_def
  by (intro exI [of _ "[HR Red Lf 48, HR Black (Nd Red Lf 16 Lf) 32]"]) simp

section \<open>Height\<close>

lemma rbt_ok_height:
  assumes "rbt_ok t"
  shows "2 ^ (rheight t div 2) \<le> Suc (length (rinorder t))"
proof -
  from assms have i: "invc t" "invh t" "rcolor t = Black" by (auto simp: rbt_ok_def)
  then have "rheight t div 2 \<le> bh t" using rheight_bh [of t] by simp
  then have "(2 :: nat) ^ (rheight t div 2) \<le> 2 ^ bh t" by (intro power_increasing) auto
  then show ?thesis using bh_size [OF i(2)] by linarith
qed

section \<open>The contract\<close>

text \<open>
  C1: linking a fresh node at a leaf position of a valid tree and calling \<^verbatim>\<open>rb_insert_color\<close>
  terminates without a bad access, leaves a valid red-black tree whose in-order sequence has the
  node exactly at that position, and whose height is at most twice the logarithm of its size.
\<close>

theorem rb_insert_preserves:
  assumes "rb_at_leaf s parent link xs ys" and "node_addr a" and "rb_mapped s a"
    and "a \<notin> set (xs @ ys)"
  shows "\<exists>s' t'. (rb_link_node s a parent link \<bind> (\<lambda>s. rb_insert_color s a)) = Some s' \<and>
     holds_tree s' t' \<and> rbt_ok t' \<and> rinorder t' = xs @ a # ys \<and>
     2 ^ (rheight t' div 2) \<le> Suc (length (rinorder t'))"
  using rb_insert_law [OF assms] rbt_ok_height unfolding rb_link_insert_def rb_inv_def by blast

theorem rb_insert_preserves_witness:
  "\<exists>s' t'. (rb_link_node three_nodes 64 48 (Link_right 48) \<bind> (\<lambda>s. rb_insert_color s 64)) = Some s' \<and>
     holds_tree s' t' \<and> rbt_ok t' \<and> rinorder t' = [16, 32, 48, 64] \<and>
     2 ^ (rheight t' div 2) \<le> Suc (length (rinorder t'))"
  using rb_insert_preserves [OF three_nodes_leaf, of 64]
  by (simp add: node_addr_def rb_mapped_def three_nodes_def)

text \<open>
  C2: \<^verbatim>\<open>rb_erase\<close> of a node of a valid tree terminates without a bad access, leaves a valid
  red-black tree whose in-order sequence lost exactly that node, and writes no memory outside
  the tree.
\<close>

theorem rb_erase_preserves:
  assumes "holds_tree s t" and "rbt_ok t" and "a \<in> set (rinorder t)"
  shows "\<exists>s' t'. rb_erase s a = Some s' \<and> holds_tree s' t' \<and> rbt_ok t' \<and>
     rinorder t' = remove1 a (rinorder t) \<and> (\<forall>x. x \<notin> set (rinorder t) \<longrightarrow> rb_mem s' x = rb_mem s x)"
proof -
  from assms(3) obtain xs ys where xy: "rinorder t = xs @ a # ys" by (auto simp: in_set_conv_decomp)
  from rinorder_split [OF xy] obtain k c l r where k: "t = plug k (Nd c l a r)"
    "xs = before k @ rinorder l" "ys = rinorder r @ after k" by blast
  have "a \<notin> set xs" using assms(1) xy by (auto simp: holds_tree_def)
  then have "remove1 a (rinorder t) = xs @ ys" by (simp add: xy remove1_append)
  then show ?thesis
    using rb_erase_correct [OF assms(1,2) [unfolded k(1)]] k by (auto simp: same_outside_def)
qed

theorem rb_erase_preserves_witness:
  "\<exists>s' t'. rb_erase three_nodes 32 = Some s' \<and> holds_tree s' t' \<and> rbt_ok t' \<and>
     rinorder t' = [16, 48] \<and> (\<forall>x. x \<notin> {16, 32, 48} \<longrightarrow> rb_mem s' x = rb_mem three_nodes x)"
  using rb_erase_preserves [OF three_nodes_holds, of 32] by simp

text \<open>
  C3: on a valid tree, \<^verbatim>\<open>rb_next\<close> and \<^verbatim>\<open>rb_prev\<close> return the in-order neighbours of a node, NULL
  at the ends, and \<^verbatim>\<open>rb_last\<close> the last node; so stepping with \<^verbatim>\<open>rb_next\<close> from any node visits
  exactly the nodes from it on and then ends.
\<close>

theorem rb_traversal:
  assumes "rb_inv s (xs @ a # ys)"
  shows "rb_next s a = Some (or_null ys) \<and> rb_prev s a = Some (or_null (rev xs)) \<and>
     rb_last s = Some (or_null (rev (xs @ a # ys))) \<and>
     walk (rb_next s) (length (a # ys)) a = Some (a # ys)"
  using rb.next_law [OF assms] rb.prev_law [OF assms] rb.last_law [OF assms] rb.walk_suffix [OF assms]
  by (simp del: or_null_append)

theorem rb_traversal_witness:
  "rb_next three_nodes 16 = Some 32 \<and> rb_prev three_nodes 16 = Some 0 \<and>
   rb_last three_nodes = Some 48 \<and> walk (rb_next three_nodes) 3 16 = Some [16, 32, 48]"
  using rb_traversal [of three_nodes "[]" 16 "[32, 48]"] three_nodes_inv
  by (simp add: numeral_eq_Suc)

text \<open>
  C4: \<^verbatim>\<open>rb_replace_node\<close> puts a node outside the tree in the place of one inside: the tree stays
  valid and its in-order sequence changes in that one position.
\<close>

theorem rb_replace_preserves:
  assumes "rb_inv s (xs @ a # ys)" and "node_addr b" and "rb_mapped s b" and "b \<notin> set (xs @ a # ys)"
  shows "\<exists>s'. rb_replace_node s a b = Some s' \<and> rb_inv s' (xs @ b # ys)"
  using rb.replace_law [OF assms] by blast

theorem rb_replace_preserves_witness:
  "\<exists>s'. rb_replace_node three_nodes 32 64 = Some s' \<and> rb_inv s' [16, 64, 48]"
  using rb_replace_preserves [of three_nodes "[16]" 32 "[48]" 64] three_nodes_inv
  by (simp add: node_addr_def rb_mapped_def three_nodes_def)

end
