(* ===== verification/Hlist.thy ===== *)
theory Hlist
  imports Svmx_Prelude
begin

text \<open>
  The hash-bucket lists of \<^verbatim>\<open>src/svmx/list.h\<close>, the multiplicative hashes of
  \<^verbatim>\<open>src/svmx/hash.h\<close> and the fixed-size hash table of \<^verbatim>\<open>src/svmx/hashtable.h\<close>.

  A \<^verbatim>\<open>struct hlist_node\<close> is its address \<open>n\<close>. Because \<open>next\<close> is its first member,
  \<^verbatim>\<open>&n->next\<close> is \<open>n\<close> itself, and \<^verbatim>\<open>&h->first\<close> is the address of the head: \<open>hl_cell\<close> holds the
  pointer cells that a \<open>pprev\<close> can point to, \<open>hl_pprev\<close> the second member of every node.
  An access to an unmapped address has no result.
\<close>

record hl_state =
  hl_cell :: "u64 \<rightharpoonup> u64"
  hl_pprev :: "u64 \<rightharpoonup> u64"

section \<open>Lists\<close>

definition read_cell :: "hl_state \<Rightarrow> u64 \<Rightarrow> u64 option" where
  "read_cell s c = (if c = 0 then None else hl_cell s c)"

definition write_cell :: "hl_state \<Rightarrow> u64 \<Rightarrow> u64 \<Rightarrow> hl_state option" where
  "write_cell s c v = do {
     _ \<leftarrow> read_cell s c;
     Some (s\<lparr>hl_cell := (hl_cell s)(c \<mapsto> v)\<rparr>)
   }"

definition read_pprev :: "hl_state \<Rightarrow> u64 \<Rightarrow> u64 option" where
  "read_pprev s n = (if n = 0 then None else hl_pprev s n)"

definition write_pprev :: "hl_state \<Rightarrow> u64 \<Rightarrow> u64 \<Rightarrow> hl_state option" where
  "write_pprev s n v = do {
     _ \<leftarrow> read_pprev s n;
     Some (s\<lparr>hl_pprev := (hl_pprev s)(n \<mapsto> v)\<rparr>)
   }"

definition INIT_HLIST_HEAD :: "hl_state \<Rightarrow> u64 \<Rightarrow> hl_state option" where
  "INIT_HLIST_HEAD s h = write_cell s h 0"

definition INIT_HLIST_NODE :: "hl_state \<Rightarrow> u64 \<Rightarrow> hl_state option" where
  "INIT_HLIST_NODE s h = do {
     s \<leftarrow> write_cell s h 0;
     write_pprev s h 0
   }"

definition hlist_unhashed :: "hl_state \<Rightarrow> u64 \<Rightarrow> bool option" where
  "hlist_unhashed s h = do {
     p \<leftarrow> read_pprev s h;
     Some (p = 0)
   }"

definition raw_hlist_del :: "hl_state \<Rightarrow> u64 \<Rightarrow> hl_state option" where
  "raw_hlist_del s n = do {
     nxt \<leftarrow> read_cell s n;
     pprev \<leftarrow> read_pprev s n;
     s \<leftarrow> write_cell s pprev nxt;
     if nxt \<noteq> 0 then write_pprev s nxt pprev else Some s
   }"

definition hlist_del :: "hl_state \<Rightarrow> u64 \<Rightarrow> hl_state option" where
  "hlist_del s n = do {
     s \<leftarrow> raw_hlist_del s n;
     s \<leftarrow> write_cell s n 0;
     write_pprev s n 0
   }"

definition hlist_add_head :: "hl_state \<Rightarrow> u64 \<Rightarrow> u64 \<Rightarrow> hl_state option" where
  "hlist_add_head s n h = do {
     first \<leftarrow> read_cell s h;
     s \<leftarrow> write_cell s n first;
     s \<leftarrow> (if first \<noteq> 0 then write_pprev s first n else Some s);
     s \<leftarrow> write_cell s h n;
     write_pprev s n h
   }"

definition hlist_add_before :: "hl_state \<Rightarrow> u64 \<Rightarrow> u64 \<Rightarrow> hl_state option" where
  "hlist_add_before s n nxt = do {
     p \<leftarrow> read_pprev s nxt;
     s \<leftarrow> write_pprev s n p;
     s \<leftarrow> write_cell s n nxt;
     s \<leftarrow> write_pprev s nxt n;
     p \<leftarrow> read_pprev s n;
     write_cell s p n
   }"

definition hlist_add_behind :: "hl_state \<Rightarrow> u64 \<Rightarrow> u64 \<Rightarrow> hl_state option" where
  "hlist_add_behind s n prev = do {
     nx \<leftarrow> read_cell s prev;
     s \<leftarrow> write_cell s n nx;
     s \<leftarrow> write_cell s prev n;
     s \<leftarrow> write_pprev s n prev;
     nx \<leftarrow> read_cell s n;
     if nx \<noteq> 0 then write_pprev s nx n else Some s
   }"

definition hlist_empty :: "hl_state \<Rightarrow> u64 \<Rightarrow> bool option" where
  "hlist_empty s h = do {
     first \<leftarrow> read_cell s h;
     Some (first = 0)
   }"

definition hlist_del_init :: "hl_state \<Rightarrow> u64 \<Rightarrow> hl_state option" where
  "hlist_del_init s n = do {
     u \<leftarrow> hlist_unhashed s n;
     if \<not> u then do {
       s \<leftarrow> raw_hlist_del s n;
       INIT_HLIST_NODE s n
     }
     else Some s
   }"

section \<open>Hashes\<close>

definition GOLDEN_RATIO_32 :: u32 where "GOLDEN_RATIO_32 = 0x61C88647"
definition GOLDEN_RATIO_64 :: u64 where "GOLDEN_RATIO_64 = 0x61C8864680B583EB"

definition raw_hash_32_generic :: "u32 \<Rightarrow> u32" where
  "raw_hash_32_generic val = val * GOLDEN_RATIO_32"

definition hash_32 :: "u32 \<Rightarrow> nat \<Rightarrow> u32" where
  "hash_32 val bits = drop_bit (32 - bits) (raw_hash_32_generic val)"

definition hash_64_generic :: "u64 \<Rightarrow> nat \<Rightarrow> u32" where
  "hash_64_generic val bits = ucast (drop_bit (64 - bits) (val * GOLDEN_RATIO_64))"

text \<open>
  \<^verbatim>\<open>1UL\<close> is 32 bits wide in this ABI and the processor takes shift counts modulo 32, so the
  loop does not end for \<open>v\<close> above \<open>2 ^ 31\<close>.
\<close>

partial_function (option) ilog2_loop :: "u32 \<Rightarrow> nat \<Rightarrow> nat option" where
  "ilog2_loop v l = (if push_bit (l mod 32) (1 :: u32) < v then ilog2_loop v (Suc l) else Some l)"

definition ilog2 :: "u32 \<Rightarrow> nat option" where
  "ilog2 v = ilog2_loop v 0"

section \<open>The hash table\<close>

text \<open>
  \<^verbatim>\<open>DECLARE_HASHTABLE(name, bits)\<close> is an array of \<open>2 ^ bits\<close> heads of eight bytes at \<open>base\<close>.
  Keys are at most four bytes wide here, so \<^verbatim>\<open>hash_min\<close> is \<open>hash_32\<close>.
\<close>

definition HASH_BITS :: "nat \<Rightarrow> nat option" where
  "HASH_BITS array_size = ilog2 (of_nat array_size)"

definition bucket_addr :: "u64 \<Rightarrow> u32 \<Rightarrow> u64" where
  "bucket_addr base h = base + 8 * ucast h"

definition hash_min :: "u32 \<Rightarrow> nat \<Rightarrow> u32" where
  "hash_min val bits = hash_32 val bits"

definition hash_del :: "hl_state \<Rightarrow> u64 \<Rightarrow> hl_state option" where
  "hash_del s node = hlist_del_init s node"

definition hash_add :: "hl_state \<Rightarrow> u64 \<Rightarrow> nat \<Rightarrow> u64 \<Rightarrow> u32 \<Rightarrow> hl_state option" where
  "hash_add s base array_size node key = do {
     bits \<leftarrow> HASH_BITS array_size;
     hlist_add_head s node (bucket_addr base (hash_min key bits))
   }"

section \<open>Lists in memory\<close>

text \<open>
  \<open>hl_path s c xs\<close>: the cell \<open>c\<close> starts the chain of nodes \<open>xs\<close>, and every node points back;
  nothing is said of the cell the chain ends in.
\<close>

fun hl_path :: "hl_state \<Rightarrow> u64 \<Rightarrow> u64 list \<Rightarrow> bool" where
  "hl_path s c [] = True"
| "hl_path s c (x # xs) =
     (hl_cell s c = Some x \<and> x \<noteq> 0 \<and> hl_pprev s x = Some c \<and> hl_path s x xs)"

definition hl_list :: "hl_state \<Rightarrow> u64 \<Rightarrow> u64 list \<Rightarrow> bool" where
  "hl_list s h xs \<longleftrightarrow>
     h \<noteq> 0 \<and> hl_path s h xs \<and> hl_cell s (last (h # xs)) = Some 0 \<and> distinct (h # xs)"

definition hl_outside :: "u64 set \<Rightarrow> hl_state \<Rightarrow> hl_state \<Rightarrow> bool" where
  "hl_outside A s s' \<longleftrightarrow> (\<forall>x. x \<notin> A \<longrightarrow> hl_cell s' x = hl_cell s x \<and> hl_pprev s' x = hl_pprev s x)"

named_theorems hl_ops \<open>definitions of the list operations\<close>

declare read_cell_def [hl_ops] write_cell_def [hl_ops] read_pprev_def [hl_ops]
  write_pprev_def [hl_ops] INIT_HLIST_NODE_def [hl_ops] hlist_unhashed_def [hl_ops]
  raw_hlist_del_def [hl_ops] hlist_del_def [hl_ops] hlist_add_head_def [hl_ops]
  hlist_add_before_def [hl_ops] hlist_add_behind_def [hl_ops] hlist_empty_def [hl_ops]
  hlist_del_init_def [hl_ops]

lemma hl_path_append [simp]:
  "hl_path s c (xs @ ys) \<longleftrightarrow> hl_path s c xs \<and> hl_path s (last (c # xs)) ys"
  by (induction xs arbitrary: c) auto

lemma hl_path_cong:
  assumes "\<And>x. x \<in> set (butlast (c # xs)) \<Longrightarrow> hl_cell s' x = hl_cell s x"
    and "\<And>x. x \<in> set xs \<Longrightarrow> hl_pprev s' x = hl_pprev s x"
  shows "hl_path s' c xs = hl_path s c xs"
  using assms by (induction xs arbitrary: c) (auto split: if_splits)

lemma hl_path_nz: "hl_path s c xs \<Longrightarrow> x \<in> set xs \<Longrightarrow> x \<noteq> 0"
  by (induction xs arbitrary: c) auto

lemma hl_path_mapped:
  assumes "hl_path s c xs" "hl_cell s (last (c # xs)) = Some v" "x \<in> set (c # xs)"
  shows "\<exists>w. hl_cell s x = Some w"
  using assms by (induction xs arbitrary: c) auto

lemma hl_list_frame:
  assumes "hl_outside A s s'" "insert h (set xs) \<inter> A = {}"
  shows "hl_list s' h xs = hl_list s h xs"
proof -
  have eq: "hl_cell s' x = hl_cell s x" "hl_pprev s' x = hl_pprev s x" if "x \<in> insert h (set xs)" for x
    using assms that by (auto simp: hl_outside_def)
  have "hl_path s' h xs = hl_path s h xs"
    by (rule hl_path_cong) (use eq in \<open>auto dest: in_set_butlastD split: if_splits\<close>)
  moreover have "hl_cell s' (last (h # xs)) = hl_cell s (last (h # xs))"
    by (rule eq(1)) (use last_in_set [of "h # xs"] in auto)
  ultimately show ?thesis by (simp only: hl_list_def)
qed

lemma last_notin_butlast: "distinct (x # xs) \<Longrightarrow> last (x # xs) \<notin> set (butlast (x # xs))"
  using append_butlast_last_id [of "x # xs"] distinct_append [of "butlast (x # xs)" "[last (x # xs)]"]
  by (simp del: butlast.simps last.simps)

text \<open>What the operations do to a list.\<close>

text \<open>The three insertions have one effect: a new node after the cell \<open>c\<close>, in front of \<open>ys\<close>.\<close>

definition hl_splice :: "hl_state \<Rightarrow> u64 \<Rightarrow> u64 \<Rightarrow> u64 list \<Rightarrow> hl_state" where
  "hl_splice s c n ys = (case ys of
      [] \<Rightarrow> s\<lparr>hl_cell := (hl_cell s)(n \<mapsto> 0, c \<mapsto> n), hl_pprev := (hl_pprev s)(n \<mapsto> c)\<rparr>
    | y # _ \<Rightarrow> s\<lparr>hl_cell := (hl_cell s)(n \<mapsto> y, c \<mapsto> n), hl_pprev := (hl_pprev s)(y \<mapsto> n, n \<mapsto> c)\<rparr>)"

lemma hl_splice_correct:
  assumes l: "hl_list s h (xs @ ys)" and n: "n \<noteq> 0" "n \<notin> insert h (set (xs @ ys))"
  defines "d \<equiv> last (h # xs)"
  defines "s' \<equiv> hl_splice s d n ys"
  shows "hl_list s' h (xs @ n # ys)" "hl_outside (insert h (insert n (set (xs @ ys)))) s s'"
proof -
  have d: "d \<in> insert h (set xs)" "d \<noteq> n" "d \<notin> set ys"
    using l n last_in_set [of "h # xs"] unfolding hl_list_def d_def by auto
  have "d \<notin> set (butlast (h # xs))"
    using l last_notin_butlast [of h xs] unfolding hl_list_def d_def by auto
  then have keep: "hl_path s' h xs = hl_path s h xs"
    using l n d unfolding s'_def
    by (intro hl_path_cong)
      (auto simp: hl_list_def hl_splice_def dest: in_set_butlastD split: if_splits list.splits)
  show "hl_outside (insert h (insert n (set (xs @ ys)))) s s'"
    using d unfolding s'_def by (auto simp: hl_outside_def hl_splice_def split: list.splits)
  show "hl_list s' h (xs @ n # ys)"
  proof (cases ys)
    case Nil
    moreover have "last (h # xs @ [n]) = n" by simp
    ultimately show ?thesis using l n d keep
      by (auto simp: hl_list_def s'_def hl_splice_def d_def [symmetric] simp del: last.simps)
  next
    case (Cons y zs)
    have "hl_path s' y zs = hl_path s y zs"
      using l n d Cons unfolding s'_def
      by (intro hl_path_cong)
        (auto simp: hl_list_def hl_splice_def dest: in_set_butlastD split: if_splits)
    moreover have "last (y # zs) \<noteq> d" "last (y # zs) \<noteq> n"
      using l n d last_in_set [of "y # zs"] unfolding Cons hl_list_def by auto
    moreover have "last (h # xs @ y # zs) = last (y # zs)" "last (h # xs @ n # y # zs) = last (y # zs)"
      by simp_all
    ultimately show ?thesis
      using l n d keep unfolding Cons hl_list_def s'_def
      by (auto simp: hl_splice_def d_def [symmetric] simp del: last.simps)
  qed
qed

lemma hlist_add_head_correct:
  assumes l: "hl_list s h xs" and n: "n \<noteq> 0" "n \<notin> insert h (set xs)"
    and m: "hl_cell s n = Some v" "hl_pprev s n = Some w"
  shows "\<exists>s'. hlist_add_head s n h = Some s' \<and> hl_list s' h (n # xs) \<and>
    hl_outside (insert h (insert n (set xs))) s s'"
proof -
  have "hlist_add_head s n h = Some (hl_splice s h n xs)"
    using l n m by (cases xs) (auto simp: hl_list_def hl_ops hl_splice_def)
  then show ?thesis using hl_splice_correct [of s h "[]" xs n] l n by simp
qed

lemma hlist_add_behind_correct:
  assumes l: "hl_list s h (xs @ p # ys)" and n: "n \<noteq> 0" "n \<notin> insert h (set (xs @ p # ys))"
    and m: "hl_cell s n = Some v" "hl_pprev s n = Some w"
  shows "\<exists>s'. hlist_add_behind s n p = Some s' \<and> hl_list s' h (xs @ p # n # ys) \<and>
    hl_outside (insert h (insert n (set (xs @ p # ys)))) s s'"
proof -
  have "hlist_add_behind s n p = Some (hl_splice s p n ys)"
    using l n m by (cases ys) (auto simp: hl_list_def hl_ops hl_splice_def fun_upd_twist)
  then show ?thesis using hl_splice_correct [of s h "xs @ [p]" ys n] l n by simp
qed

lemma hlist_add_before_correct:
  assumes l: "hl_list s h (xs @ p # ys)" and n: "n \<noteq> 0" "n \<notin> insert h (set (xs @ p # ys))"
    and m: "hl_cell s n = Some v" "hl_pprev s n = Some w"
  shows "\<exists>s'. hlist_add_before s n p = Some s' \<and> hl_list s' h (xs @ n # p # ys) \<and>
    hl_outside (insert h (insert n (set (xs @ p # ys)))) s s'"
proof -
  let ?d = "last (h # xs)"
  have "?d \<in> insert h (set xs)" using last_in_set [of "h # xs"] by simp
  then have "?d \<noteq> 0" "?d \<noteq> n" using l n by (auto simp: hl_list_def dest: hl_path_nz)
  moreover have "hl_pprev s p = Some ?d" "hl_cell s ?d = Some p" "p \<noteq> 0"
    using l by (auto simp: hl_list_def)
  ultimately have "hlist_add_before s n p = Some (hl_splice s ?d n (p # ys))"
    using n m by (auto simp: hl_ops hl_splice_def fun_upd_twist simp del: last.simps)
  then show ?thesis using hl_splice_correct [of s h xs "p # ys" n] l n by simp
qed

lemma hlist_del_init_correct:
  assumes l: "hl_list s h (xs @ n # ys)"
  shows "\<exists>s'. hlist_del_init s n = Some s' \<and> hl_list s' h (xs @ ys) \<and>
    hl_pprev s' n = Some 0 \<and> hl_cell s' n = Some 0 \<and> hl_outside (insert h (set (xs @ n # ys))) s s'"
proof -
  define d where "d = last (h # xs)"
  have d: "d \<in> insert h (set xs)" "d \<noteq> 0" "d \<noteq> n" "d \<notin> set ys"
    using l last_in_set [of "h # xs"] unfolding hl_list_def d_def
    by (auto dest: hl_path_nz)
  have n: "hl_cell s d = Some n" "n \<noteq> 0" "hl_pprev s n = Some d"
    using l by (auto simp: hl_list_def d_def)
  have db: "d \<notin> set (butlast (h # xs))"
    using l last_notin_butlast [of h xs] unfolding hl_list_def d_def by auto
  have keep: "hl_path s' h xs = hl_path s h xs"
    if "\<And>x. x \<noteq> d \<Longrightarrow> x \<noteq> n \<Longrightarrow> hl_cell s' x = hl_cell s x"
      "\<And>x. x \<notin> insert n (set ys) \<Longrightarrow> hl_pprev s' x = hl_pprev s x" for s'
  proof (rule hl_path_cong)
    show "hl_cell s' x = hl_cell s x" if "x \<in> set (butlast (h # xs))" for x
      using that db l \<open>\<And>x. x \<noteq> d \<Longrightarrow> x \<noteq> n \<Longrightarrow> hl_cell s' x = hl_cell s x\<close> [of x]
      by (cases "x = d") (auto simp: hl_list_def dest: in_set_butlastD split: if_splits)
    show "hl_pprev s' x = hl_pprev s x" if "x \<in> set xs" for x
      using that l by (intro \<open>\<And>x. x \<notin> insert n (set ys) \<Longrightarrow> hl_pprev s' x = hl_pprev s x\<close>) (auto simp: hl_list_def)
  qed
  show ?thesis
  proof (cases ys)
    case Nil
    let ?s = "s\<lparr>hl_cell := (hl_cell s)(d \<mapsto> 0, n \<mapsto> 0), hl_pprev := (hl_pprev s)(n \<mapsto> 0)\<rparr>"
    have "hl_list ?s h (xs @ ys)"
      using l d keep [of ?s] unfolding Nil hl_list_def by (simp add: d_def)
    moreover have "hlist_del_init s n = Some ?s"
      using l n d unfolding Nil by (simp add: hl_list_def hl_ops)
    ultimately show ?thesis using d by (auto simp: hl_outside_def)
  next
    case (Cons y zs)
    let ?s = "s\<lparr>hl_cell := (hl_cell s)(d \<mapsto> y, n \<mapsto> 0), hl_pprev := (hl_pprev s)(y \<mapsto> d, n \<mapsto> 0)\<rparr>"
    have "hl_path ?s y zs = hl_path s y zs"
      by (rule hl_path_cong) (use l d Cons in \<open>auto simp: hl_list_def dest: in_set_butlastD split: if_splits\<close>)
    moreover have "last (y # zs) \<noteq> d" "last (y # zs) \<noteq> n"
      using l d last_in_set [of "y # zs"] unfolding Cons hl_list_def by auto
    moreover have "last (h # xs @ y # zs) = last (y # zs)" "last (h # xs @ n # y # zs) = last (y # zs)"
      by simp_all
    ultimately have "hl_list ?s h (xs @ ys)"
      using l d keep [of ?s] unfolding Cons hl_list_def by (auto simp: d_def [symmetric] simp del: last.simps)
    moreover have "hlist_del_init s n = Some ?s"
      using l n d unfolding Cons by (auto simp: hl_list_def hl_ops)
    ultimately show ?thesis using d by (auto simp: hl_outside_def Cons)
  qed
qed

section \<open>Hashing\<close>

lemma unat_2p: "l < 32 \<Longrightarrow> unat (2 ^ l :: u32) = 2 ^ l"
  using unat_of_nat [of "2 ^ l", where 'a = 32] power_strict_increasing [of l 32 "2 :: nat"] by simp

text \<open>\<open>ilog2\<close> rounds up: it returns the least \<open>l\<close> with \<open>v \<le> 2 ^ l\<close>.\<close>

lemma ilog2_loop_correct:
  assumes "unat v \<le> 2 ^ k" "k < 32" "l \<le> k" "\<And>j. j < l \<Longrightarrow> 2 ^ j < unat v"
  shows "\<exists>r. ilog2_loop v l = Some r \<and> r \<le> k \<and> unat v \<le> 2 ^ r \<and> (\<forall>j < r. 2 ^ j < unat v)"
  using assms
proof (induction "k - l" arbitrary: l)
  case 0
  then have "l = k" by simp
  then have "\<not> push_bit (l mod 32) (1 :: u32) < v"
    using 0 by (simp add: word_less_nat_alt unat_2p push_bit_eq_mult)
  then show ?case using 0 \<open>l = k\<close> by (subst ilog2_loop.simps) auto
next
  case (Suc d)
  have p: "push_bit (l mod 32) (1 :: u32) < v \<longleftrightarrow> 2 ^ l < unat v"
    using Suc by (simp add: word_less_nat_alt unat_2p push_bit_eq_mult)
  show ?case
  proof (cases "2 ^ l < unat v")
    case True
    then have "\<And>j. j < Suc l \<Longrightarrow> 2 ^ j < unat v" using Suc.prems less_antisym by blast
    then show ?thesis
      using Suc p True by (subst ilog2_loop.simps) auto
  next
    case False
    then show ?thesis using Suc p by (subst ilog2_loop.simps) auto
  qed
qed

lemma hash_bits_128: "HASH_BITS 128 = Some 7"
proof -
  have "\<exists>r. ilog2_loop 128 0 = Some r \<and> r \<le> 7 \<and> unat (128 :: u32) \<le> 2 ^ r \<and> (\<forall>j < r. 2 ^ j < unat (128 :: u32))"
    by (rule ilog2_loop_correct) simp_all
  then obtain r where r: "ilog2_loop 128 0 = Some r" "r \<le> 7" "(2 :: nat) ^ 7 \<le> 2 ^ r" by auto
  from r(3) have "7 \<le> r" using power_le_imp_le_exp [of "2 :: nat" 7 r] by simp
  with r show ?thesis by (simp add: HASH_BITS_def ilog2_def)
qed

lemma hash_32_bound:
  assumes "bits \<le> 32" "0 < bits"
  shows "unat (hash_32 v bits) < 2 ^ bits"
proof -
  have "unat (raw_hash_32_generic v) < 2 ^ 32" using unsigned_less [of "raw_hash_32_generic v"] by simp
  also have "(2 :: nat) ^ 32 = 2 ^ bits * 2 ^ (32 - bits)" using assms by (simp flip: power_add)
  finally show ?thesis
    using assms by (simp add: hash_32_def drop_bit_eq_div unat_div unat_2p less_mult_imp_div_less)
qed

end
