(* ===== verification/Memslots.thy ===== *)
theory Memslots
  imports Rbtree_Interface Hlist
begin

text \<open>
  The guest memory map of \<^verbatim>\<open>src/svmx/kvm_main.c\<close>, with the structures and inline functions of
  \<^verbatim>\<open>src/svmx/kvm_host.h\<close>: the memory slots, the two slot sets of a virtual machine, each with a
  red-black tree ordered by guest frame and a hash table on the slot id, the lookups, and the
  operations that add, replace and remove a slot in a set and swap the two sets.

  A slot is its address. Its data members are in \<open>slot_heap\<close>. Its embedded links
  \<^verbatim>\<open>gfn_node[idx]\<close> and \<^verbatim>\<open>id_node[idx]\<close> belong to the slot set with \<^verbatim>\<open>node_idx\<close> \<open>idx\<close>, so the
  memory of those members is kept in that set: distinct members of distinct objects never
  overlap. The offsets of the members are those of the C layout, and \<^verbatim>\<open>CONTAINING_RECORD\<close> is the
  subtraction of the offset.
\<close>

section \<open>Data\<close>

record kvm_arch_memory_slot =
  rmap :: "u64 list"
  lpage_info :: "u64 list"
  gfn_track :: "u64 list"

record kvm_memory_slot =
  base_gfn :: gfn_t
  npages :: u64
  dirty_bitmap :: u64
  slot_arch :: kvm_arch_memory_slot
  slot_flags :: u32
  slot_id :: u16
  slot_as_id :: u16

type_synonym slot_heap = "u64 \<rightharpoonup> kvm_memory_slot"

record kvm_memslots =
  generation :: u64
  last_used_slot :: u64
  gfn_tree :: rb_state
  id_hash :: hl_state
  id_hash_addr :: u64
  node_idx :: nat

definition KVM_MEM_LOG_DIRTY_PAGES :: u32 where "KVM_MEM_LOG_DIRTY_PAGES = 1"
definition KVM_MEM_READONLY :: u32 where "KVM_MEM_READONLY = 2"
definition KVM_MEMSLOT_INVALID :: u32 where "KVM_MEMSLOT_INVALID = 0x10000"
definition KVM_MEM_SLOTS_NUM :: u16 where "KVM_MEM_SLOTS_NUM = 32767"
definition KVM_USER_MEM_SLOTS :: u16 where "KVM_USER_MEM_SLOTS = KVM_MEM_SLOTS_NUM - 0"
definition KVM_ADDRESS_SPACE_NUM :: nat where "KVM_ADDRESS_SPACE_NUM = 1"
definition KVM_MEM_MAX_NR_PAGES :: u64 where "KVM_MEM_MAX_NR_PAGES = 2147483647"
definition KVM_MEMSLOT_GEN_UPDATE_IN_PROGRESS :: u64 where
  "KVM_MEMSLOT_GEN_UPDATE_IN_PROGRESS = BIT_ULL 63"

definition slot_load :: "slot_heap \<Rightarrow> u64 \<Rightarrow> kvm_memory_slot option" where
  "slot_load h p = (if p = 0 then None else h p)"

definition gfn_node :: "nat \<Rightarrow> u64 \<Rightarrow> u64" where
  "gfn_node idx slot = slot + (32 + 24 * of_nat idx)"

definition slot_of_gfn_node :: "nat \<Rightarrow> u64 \<Rightarrow> u64" where
  "slot_of_gfn_node idx node = node - (32 + 24 * of_nat idx)"

definition id_node :: "nat \<Rightarrow> u64 \<Rightarrow> u64" where
  "id_node idx slot = slot + 16 * of_nat idx"

definition slot_of_id_node :: "nat \<Rightarrow> u64 \<Rightarrow> u64" where
  "slot_of_id_node idx node = node - 16 * of_nat idx"

section \<open>Lookups\<close>

definition memslot_is_readonly :: "slot_heap \<Rightarrow> u64 \<Rightarrow> bool option" where
  "memslot_is_readonly h slot = do {
     sl \<leftarrow> slot_load h slot;
     Some (slot_flags sl AND KVM_MEM_READONLY \<noteq> 0)
   }"

definition kvm_slot_dirty_track_enabled :: "slot_heap \<Rightarrow> u64 \<Rightarrow> bool option" where
  "kvm_slot_dirty_track_enabled h slot = do {
     sl \<leftarrow> slot_load h slot;
     Some (slot_flags sl AND KVM_MEM_LOG_DIRTY_PAGES \<noteq> 0)
   }"

definition kvm_is_visible_memslot :: "slot_heap \<Rightarrow> u64 \<Rightarrow> bool option" where
  "kvm_is_visible_memslot h slot = (if slot = 0 then Some False else do {
     sl \<leftarrow> slot_load h slot;
     Some (slot_id sl < KVM_USER_MEM_SLOTS \<and> slot_flags sl AND KVM_MEMSLOT_INVALID = 0)
   })"

definition kvm_memslots_empty :: "kvm_memslots \<Rightarrow> bool" where
  "kvm_memslots_empty slots = RB_EMPTY_ROOT (gfn_tree slots)"

definition try_get_memslot :: "slot_heap \<Rightarrow> u64 \<Rightarrow> gfn_t \<Rightarrow> u64 option" where
  "try_get_memslot h slot gfn = (if slot = 0 then Some 0 else do {
     sl \<leftarrow> slot_load h slot;
     Some (if base_gfn sl \<le> gfn \<and> gfn < base_gfn sl + npages sl then slot else 0)
   })"

text \<open>The loop of \<open>search_memslots\<close> returns the slot it stopped at and whether it contains \<open>gfn\<close>.\<close>

partial_function (option) search_loop ::
  "slot_heap \<Rightarrow> rb_state \<Rightarrow> nat \<Rightarrow> gfn_t \<Rightarrow> u64 \<Rightarrow> u64 \<Rightarrow> (u64 \<times> bool) option" where
  "search_loop h t idx gfn slot node =
     (if node = 0 then Some (slot, False)
      else do {
        let slot = slot_of_gfn_node idx node;
        sl \<leftarrow> slot_load h slot;
        if base_gfn sl \<le> gfn
        then (if gfn < base_gfn sl + npages sl then Some (slot, True)
              else do {
                r \<leftarrow> get_right t node;
                search_loop h t idx gfn slot r
              })
        else do {
          l \<leftarrow> get_left t node;
          search_loop h t idx gfn slot l
        }
      })"

definition search_memslots :: "slot_heap \<Rightarrow> kvm_memslots \<Rightarrow> gfn_t \<Rightarrow> bool \<Rightarrow> u64 option" where
  "search_memslots h slots gfn approx = do {
     (slot, found) \<leftarrow> search_loop h (gfn_tree slots) (node_idx slots) gfn 0 (rb_root (gfn_tree slots));
     Some (if found \<or> approx then slot else 0)
   }"

text \<open>
  \<^verbatim>\<open>____gfn_to_memslot\<close> first tries \<^verbatim>\<open>(struct kvm_memory_slot*)&slots->last_used_slot\<close>: the address
  of the field, not its value. A slot's \<open>base_gfn\<close> and \<open>npages\<close> are at offsets 80 and 88; eight
  bytes into \<^verbatim>\<open>struct kvm_memslots\<close>, with the hash heads starting at offset 40, these are the
  heads of buckets 6 and 7. \<open>last_used_field\<close> is the address of the field, 32 bytes before the
  hash heads.
\<close>

definition last_used_field :: "kvm_memslots \<Rightarrow> u64" where
  "last_used_field slots = id_hash_addr slots - 32"

definition try_get_last_used_field :: "kvm_memslots \<Rightarrow> gfn_t \<Rightarrow> u64 option" where
  "try_get_last_used_field slots gfn = do {
     base \<leftarrow> read_cell (id_hash slots) (bucket_addr (id_hash_addr slots) 6);
     n \<leftarrow> read_cell (id_hash slots) (bucket_addr (id_hash_addr slots) 7);
     Some (if base \<le> gfn \<and> gfn < base + n then last_used_field slots else 0)
   }"

definition raw_gfn_to_memslot ::
  "slot_heap \<Rightarrow> kvm_memslots \<Rightarrow> gfn_t \<Rightarrow> bool \<Rightarrow> (u64 \<times> kvm_memslots) option" where
  "raw_gfn_to_memslot h slots gfn approx = do {
     slot \<leftarrow> try_get_last_used_field slots gfn;
     if slot \<noteq> 0 then Some (slot, slots)
     else do {
       slot \<leftarrow> search_memslots h slots gfn approx;
       if slot \<noteq> 0 then Some (slot, slots\<lparr>last_used_slot := slot\<rparr>)
       else Some (0, slots)
     }
   }"

partial_function (option) id_walk ::
  "slot_heap \<Rightarrow> hl_state \<Rightarrow> nat \<Rightarrow> u32 \<Rightarrow> u64 \<Rightarrow> u64 option" where
  "id_walk h hl idx sid node =
     (if node = 0 then Some 0
      else do {
        let slot = slot_of_id_node idx node;
        sl \<leftarrow> slot_load h slot;
        if ucast (slot_id sl) = sid then Some slot
        else do {
          nx \<leftarrow> read_cell hl node;
          id_walk h hl idx sid nx
        }
      })"

definition id_to_memslot :: "slot_heap \<Rightarrow> kvm_memslots \<Rightarrow> u32 \<Rightarrow> u64 option" where
  "id_to_memslot h slots sid = do {
     bits \<leftarrow> HASH_BITS 128;
     first \<leftarrow> read_cell (id_hash slots) (bucket_addr (id_hash_addr slots) (hash_min sid bits));
     id_walk h (id_hash slots) (node_idx slots) sid first
   }"

section \<open>Iteration over a range of frames\<close>

record kvm_memslot_iter =
  iter_node :: u64
  iter_slot :: u64

definition kvm_memslot_iter_next :: "kvm_memslots \<Rightarrow> kvm_memslot_iter \<Rightarrow> kvm_memslot_iter option" where
  "kvm_memslot_iter_next slots iter = do {
     node \<leftarrow> rb_next (gfn_tree slots) (iter_node iter);
     if node = 0 then Some (iter\<lparr>iter_node := node\<rparr>)
     else Some \<lparr>iter_node = node, iter_slot = slot_of_gfn_node (node_idx slots) node\<rparr>
   }"

partial_function (option) upper_bound_loop ::
  "slot_heap \<Rightarrow> rb_state \<Rightarrow> nat \<Rightarrow> gfn_t \<Rightarrow> u64 \<Rightarrow> u64 \<Rightarrow> u64 option" where
  "upper_bound_loop h t idx start node tmp =
     (if tmp = 0 then Some node
      else do {
        sl \<leftarrow> slot_load h (slot_of_gfn_node idx tmp);
        if start < base_gfn sl
        then do {
          l \<leftarrow> get_left t tmp;
          upper_bound_loop h t idx start tmp l
        }
        else do {
          r \<leftarrow> get_right t tmp;
          upper_bound_loop h t idx start node r
        }
      })"

definition kvm_memslot_iter_start ::
  "slot_heap \<Rightarrow> kvm_memslots \<Rightarrow> gfn_t \<Rightarrow> kvm_memslot_iter option" where
  "kvm_memslot_iter_start h slots start = do {
     let t = gfn_tree slots;
     let idx = node_idx slots;
     node \<leftarrow> upper_bound_loop h t idx start 0 (rb_root t);
     node \<leftarrow>
       (if node \<noteq> 0 then do {
          tmp \<leftarrow> rb_prev t node;
          Some (if tmp \<noteq> 0 then tmp else node)
        }
        else rb_last t);
     if node = 0 then Some \<lparr>iter_node = 0, iter_slot = 0\<rparr>
     else do {
       let iter = \<lparr>iter_node = node, iter_slot = slot_of_gfn_node idx node\<rparr>;
       sl \<leftarrow> slot_load h (iter_slot iter);
       if base_gfn sl + npages sl \<le> start then kvm_memslot_iter_next slots iter
       else Some iter
     }
   }"

definition kvm_memslot_iter_is_valid :: "slot_heap \<Rightarrow> kvm_memslot_iter \<Rightarrow> gfn_t \<Rightarrow> bool option" where
  "kvm_memslot_iter_is_valid h iter end_gfn =
     (if iter_node iter = 0 then Some False
      else do {
        sl \<leftarrow> slot_load h (iter_slot iter);
        Some (base_gfn sl < end_gfn)
      })"

partial_function (option) overlap_loop ::
  "slot_heap \<Rightarrow> kvm_memslots \<Rightarrow> u32 \<Rightarrow> gfn_t \<Rightarrow> kvm_memslot_iter \<Rightarrow> bool option" where
  "overlap_loop h slots sid end_gfn iter = do {
     valid \<leftarrow> kvm_memslot_iter_is_valid h iter end_gfn;
     if \<not> valid then Some False
     else do {
       sl \<leftarrow> slot_load h (iter_slot iter);
       if ucast (slot_id sl) \<noteq> sid then Some True
       else do {
         iter \<leftarrow> kvm_memslot_iter_next slots iter;
         overlap_loop h slots sid end_gfn iter
       }
     }
   }"

definition kvm_check_memslot_overlap ::
  "slot_heap \<Rightarrow> kvm_memslots \<Rightarrow> u32 \<Rightarrow> gfn_t \<Rightarrow> gfn_t \<Rightarrow> bool option" where
  "kvm_check_memslot_overlap h slots sid start end_gfn = do {
     iter \<leftarrow> kvm_memslot_iter_start h slots start;
     overlap_loop h slots sid end_gfn iter
   }"

section \<open>Changing one slot set\<close>

definition kvm_erase_gfn_node :: "kvm_memslots \<Rightarrow> u64 \<Rightarrow> kvm_memslots option" where
  "kvm_erase_gfn_node slots slot = do {
     t \<leftarrow> rb_erase (gfn_tree slots) (gfn_node (node_idx slots) slot);
     Some (slots\<lparr>gfn_tree := t\<rparr>)
   }"

definition kvm_replace_gfn_node :: "kvm_memslots \<Rightarrow> u64 \<Rightarrow> u64 \<Rightarrow> kvm_memslots option" where
  "kvm_replace_gfn_node slots old new = do {
     t \<leftarrow> rb_replace_node (gfn_tree slots) (gfn_node (node_idx slots) old) (gfn_node (node_idx slots) new);
     Some (slots\<lparr>gfn_tree := t\<rparr>)
   }"

text \<open>
  The descent of \<open>kvm_insert_gfn_node\<close> to the link the new node goes into, with its parent. Two
  slots with the same base frame end in \<^verbatim>\<open>KeBugCheckEx\<close>, which does not return.
\<close>

partial_function (option) insert_descend ::
  "slot_heap \<Rightarrow> rb_state \<Rightarrow> nat \<Rightarrow> gfn_t \<Rightarrow> u64 \<Rightarrow> rb_link \<Rightarrow> u64 \<Rightarrow> (u64 \<times> rb_link) option" where
  "insert_descend h t idx base parent link node =
     (if node = 0 then Some (parent, link)
      else do {
        tmp \<leftarrow> slot_load h (slot_of_gfn_node idx node);
        if base < base_gfn tmp
        then do {
          l \<leftarrow> get_left t node;
          insert_descend h t idx base node (Link_left node) l
        }
        else if base_gfn tmp < base
        then do {
          r \<leftarrow> get_right t node;
          insert_descend h t idx base node (Link_right node) r
        }
        else None
      })"

definition kvm_insert_gfn_node :: "slot_heap \<Rightarrow> kvm_memslots \<Rightarrow> u64 \<Rightarrow> kvm_memslots option" where
  "kvm_insert_gfn_node h slots slot = do {
     let t = gfn_tree slots;
     let idx = node_idx slots;
     sl \<leftarrow> slot_load h slot;
     (parent, link) \<leftarrow> insert_descend h t idx (base_gfn sl) 0 Link_root (rb_root t);
     t \<leftarrow> rb_link_node t (gfn_node idx slot) parent link;
     t \<leftarrow> rb_insert_color t (gfn_node idx slot);
     Some (slots\<lparr>gfn_tree := t\<rparr>)
   }"

text \<open>\<open>replace_in_set\<close> is the body of \<open>kvm_replace_memslot\<close> after it has chosen the slot set.\<close>

definition replace_in_set ::
  "slot_heap \<Rightarrow> kvm_memslots \<Rightarrow> u64 \<Rightarrow> u64 \<Rightarrow> kvm_memslots option" where
  "replace_in_set h slots old new = do {
     let idx = node_idx slots;
     slots \<leftarrow>
       (if old \<noteq> 0 then do {
          hl \<leftarrow> hash_del (id_hash slots) (id_node idx old);
          let slots = slots\<lparr>id_hash := hl\<rparr>;
          Some (if last_used_slot slots = old then slots\<lparr>last_used_slot := new\<rparr> else slots)
        }
        else Some slots);
     if old \<noteq> 0 \<and> new = 0 then kvm_erase_gfn_node slots old
     else do {
       nsl \<leftarrow> slot_load h new;
       hl \<leftarrow> hash_add (id_hash slots) (id_hash_addr slots) 128 (id_node idx new) (ucast (slot_id nsl));
       let slots = slots\<lparr>id_hash := hl\<rparr>;
       same \<leftarrow>
         (if old \<noteq> 0 then do {
            osl \<leftarrow> slot_load h old;
            Some (base_gfn osl = base_gfn nsl)
          }
          else Some False);
       if same then kvm_replace_gfn_node slots old new
       else do {
         slots \<leftarrow> (if old \<noteq> 0 then kvm_erase_gfn_node slots old else Some slots);
         kvm_insert_gfn_node h slots new
       }
     }
   }"

end
