(* ===== verification/Memslots_Lookup.thy ===== *)
theory Memslots_Lookup
  imports Memslots
begin

text \<open>
  The lookups in one slot set compute what they promise: the slot containing a frame, the slot
  with an id, and whether a range of frames overlaps a slot with another id.
\<close>

section \<open>Slots and their ranges\<close>

definition slot_ok :: "slot_heap \<Rightarrow> u64 \<Rightarrow> bool" where
  "slot_ok h p \<longleftrightarrow> p \<noteq> 0 \<and> id_node 1 p \<noteq> 0 \<and> node_addr (gfn_node 0 p) \<and> node_addr (gfn_node 1 p) \<and>
     (\<exists>sl. h p = Some sl \<and> npages sl \<noteq> 0 \<and> unat (base_gfn sl) + unat (npages sl) < 2 ^ 64)"

definition gbase :: "slot_heap \<Rightarrow> u64 \<Rightarrow> nat" where
  "gbase h p = (case h p of None \<Rightarrow> 0 | Some sl \<Rightarrow> unat (base_gfn sl))"

definition gend :: "slot_heap \<Rightarrow> u64 \<Rightarrow> nat" where
  "gend h p = (case h p of None \<Rightarrow> 0 | Some sl \<Rightarrow> unat (base_gfn sl) + unat (npages sl))"

definition sid_of :: "slot_heap \<Rightarrow> u64 \<Rightarrow> u32" where
  "sid_of h p = (case h p of None \<Rightarrow> 0 | Some sl \<Rightarrow> ucast (slot_id sl))"

definition in_slot :: "slot_heap \<Rightarrow> u64 \<Rightarrow> gfn_t \<Rightarrow> bool" where
  "in_slot h p gfn \<longleftrightarrow> gbase h p \<le> unat gfn \<and> unat gfn < gend h p"

abbreviation slots_sorted :: "slot_heap \<Rightarrow> u64 list \<Rightarrow> bool" where
  "slots_sorted h \<equiv> sorted_wrt (\<lambda>a b. gend h a \<le> gbase h b)"

lemma gfn_node_inverse [simp]: "slot_of_gfn_node idx (gfn_node idx p) = p"
  by (simp add: gfn_node_def slot_of_gfn_node_def)

lemma gfn_node_eq [simp]: "gfn_node idx p = gfn_node idx q \<longleftrightarrow> p = q"
  by (simp add: gfn_node_def)

lemma inj_gfn_node: "inj (gfn_node idx)"
  by (simp add: inj_def)

lemma id_node_inverse [simp]: "slot_of_id_node idx (id_node idx p) = p"
  by (simp add: id_node_def slot_of_id_node_def)

lemma id_node_eq [simp]: "id_node idx p = id_node idx q \<longleftrightarrow> p = q"
  by (simp add: id_node_def)

lemma slot_okD:
  assumes "slot_ok h p"
  obtains sl where "slot_load h p = Some sl" "h p = Some sl" "gbase h p = unat (base_gfn sl)"
    "gend h p = unat (base_gfn sl + npages sl)" "gbase h p < gend h p" "sid_of h p = ucast (slot_id sl)"
proof -
  from assms obtain sl where sl: "p \<noteq> 0" "h p = Some sl" "npages sl \<noteq> 0"
    "unat (base_gfn sl) + unat (npages sl) < 2 ^ 64" by (auto simp: slot_ok_def)
  then have "unat (base_gfn sl + npages sl) = unat (base_gfn sl) + unat (npages sl)"
    using unat_add_lem [of "base_gfn sl" "npages sl"] by simp
  moreover have "0 < unat (npages sl)" using sl(3) by (simp add: unat_gt_0)
  ultimately show thesis using sl that by (simp add: slot_load_def gbase_def gend_def sid_of_def)
qed

lemma slot_ok_node:
  assumes "slot_ok h p" "idx < 2"
  shows "node_addr (gfn_node idx p)" "gfn_node idx p \<noteq> 0" "id_node idx p \<noteq> 0"
proof -
  from assms(2) have "idx = 0 \<or> idx = 1" by auto
  with assms(1) show "node_addr (gfn_node idx p)" "id_node idx p \<noteq> 0"
    by (auto simp: slot_ok_def id_node_def)
  then show "gfn_node idx p \<noteq> 0" by simp
qed

text \<open>A sorted list of non-empty ranges is sorted by its base frames and by its end frames.\<close>

lemma slots_sorted_base:
  assumes "slots_sorted h xs" "\<forall>x \<in> set xs. slot_ok h x"
  shows "sorted_wrt (\<lambda>a b. gbase h a < gbase h b) xs" "sorted_wrt (\<lambda>a b. gend h a < gend h b) xs"
proof -
  have lt: "gbase h x < gend h x" if "x \<in> set xs" for x
    using assms(2) that by (elim ballE) (auto elim: slot_okD)
  show "sorted_wrt (\<lambda>a b. gbase h a < gbase h b) xs" "sorted_wrt (\<lambda>a b. gend h a < gend h b) xs"
    by (rule sorted_wrt_mono_rel [OF _ assms(1)]; use lt in fastforce)+
qed

text \<open>At most one slot of a sorted list contains a frame.\<close>

lemma in_slot_unique:
  assumes "slots_sorted h xs" "x \<in> set xs" "y \<in> set xs" "in_slot h x gfn" "in_slot h y gfn"
  shows "x = y"
  using assms by (induction xs) (auto simp: in_slot_def)

text \<open>The in-order sequence of a node's subtree splits the list of slots.\<close>

lemma map_split:
  assumes "rinorder (Nd c l a r) = map (gfn_node idx) xs"
  obtains ls x rs where "xs = ls @ x # rs" "a = gfn_node idx x" "rinorder l = map (gfn_node idx) ls"
    "rinorder r = map (gfn_node idx) rs"
  using assms by (auto simp: map_eq_append_conv append_eq_map_conv Cons_eq_map_conv)

section \<open>Search by frame\<close>

lemma search_loop_correct:
  assumes "tree_at (rb_mem t0) p t" "rinorder t = map (gfn_node idx) xs"
    "\<forall>x \<in> set xs. slot_ok h x" "slots_sorted h xs"
  shows "\<exists>q b. search_loop h t0 idx gfn slot (root_addr t) = Some (q, b) \<and>
     (if b then q \<in> set xs \<and> in_slot h q gfn
      else (\<forall>x \<in> set xs. \<not> in_slot h x gfn) \<and> (if xs = [] then q = slot else q \<in> set xs))"
  using assms
proof (induction t arbitrary: p xs slot)
  case Lf
  then show ?case by (subst search_loop.simps) auto
next
  case (Nd c l a r)
  from Nd.prems(2) obtain ls x rs where xs: "xs = ls @ x # rs" "a = gfn_node idx x"
    "rinorder l = map (gfn_node idx) ls" "rinorder r = map (gfn_node idx) rs" by (rule map_split)
  have sub: "\<forall>x \<in> set ls. slot_ok h x" "\<forall>x \<in> set rs. slot_ok h x" "slots_sorted h ls" "slots_sorted h rs"
    using Nd.prems(3,4) xs(1) by (auto simp: sorted_wrt_append)
  from Nd.prems(3) xs obtain sl where sl: "slot_load h x = Some sl" "gbase h x = unat (base_gfn sl)"
    "gend h x = unat (base_gfn sl + npages sl)" by (auto elim: slot_okD)
  have a: "a \<noteq> 0" "get_left t0 a = Some (root_addr l)" "get_right t0 a = Some (root_addr r)"
    "tree_at (rb_mem t0) a l" "tree_at (rb_mem t0) a r"
    using Nd.prems(1) by (simp_all add: get_left_def get_right_def rb_load_node)
  have step: "search_loop h t0 idx gfn slot (root_addr (Nd c l a r)) =
     (if gbase h x \<le> unat gfn
      then if unat gfn < gend h x then Some (x, True) else search_loop h t0 idx gfn x (root_addr r)
      else search_loop h t0 idx gfn x (root_addr l))"
    using a sl by (subst search_loop.simps) (simp add: xs(2) word_le_nat_alt word_less_nat_alt)
  consider "gbase h x \<le> unat gfn" "unat gfn < gend h x" | "gend h x \<le> unat gfn" "gbase h x \<le> unat gfn"
    | "unat gfn < gbase h x" by linarith
  then show ?case
  proof cases
    case 1
    then show ?thesis using step xs by (auto simp: in_slot_def)
  next
    case 2
    have "\<not> in_slot h y gfn" if "y \<in> set (ls @ [x])" for y
      using that 2 Nd.prems(4) slots_sorted_base(2) [OF Nd.prems(4,3)]
      by (auto simp: xs in_slot_def sorted_wrt_append)
    moreover obtain q b where "search_loop h t0 idx gfn x (root_addr r) = Some (q, b)"
      "if b then q \<in> set rs \<and> in_slot h q gfn
       else (\<forall>x \<in> set rs. \<not> in_slot h x gfn) \<and> (if rs = [] then q = x else q \<in> set rs)"
      using Nd.IH(2) [OF a(5) xs(4) sub(2,4), of x] by blast
    ultimately show ?thesis using step 2 xs(1) by (auto split: if_splits)
  next
    case 3
    have "\<not> in_slot h y gfn" if "y \<in> set (x # rs)" for y
      using that 3 Nd.prems(4) slots_sorted_base(1) [OF Nd.prems(4,3)]
      by (auto simp: xs in_slot_def sorted_wrt_append)
    moreover obtain q b where "search_loop h t0 idx gfn x (root_addr l) = Some (q, b)"
      "if b then q \<in> set ls \<and> in_slot h q gfn
       else (\<forall>x \<in> set ls. \<not> in_slot h x gfn) \<and> (if ls = [] then q = x else q \<in> set ls)"
      using Nd.IH(1) [OF a(4) xs(3) sub(1,3), of x] by blast
    ultimately show ?thesis using step 3 xs(1) by (auto split: if_splits)
  qed
qed

text \<open>A slot set: its tree holds the slots \<open>xs\<close> in the order of their frames.\<close>

definition tree_ok :: "slot_heap \<Rightarrow> kvm_memslots \<Rightarrow> u64 list \<Rightarrow> bool" where
  "tree_ok h ms xs \<longleftrightarrow> node_idx ms < 2 \<and> rb_inv (gfn_tree ms) (map (gfn_node (node_idx ms)) xs) \<and>
     (\<forall>x \<in> set xs. slot_ok h x) \<and> slots_sorted h xs"

lemma tree_okD:
  assumes "tree_ok h ms xs"
  obtains t where "tree_at (rb_mem (gfn_tree ms)) 0 t" "rb_root (gfn_tree ms) = root_addr t"
    "rinorder t = map (gfn_node (node_idx ms)) xs" "\<forall>x \<in> set xs. slot_ok h x" "slots_sorted h xs"
  using assms by (auto simp: tree_ok_def rb_inv_def holds_tree_def)

lemma search_memslots_correct:
  assumes "tree_ok h ms xs"
  shows "\<exists>q. search_memslots h ms gfn approx = Some q \<and>
     (\<forall>x \<in> set xs. in_slot h x gfn \<longrightarrow> q = x) \<and>
     ((\<forall>x \<in> set xs. \<not> in_slot h x gfn) \<longrightarrow> (if approx \<and> xs \<noteq> [] then q \<in> set xs else q = 0))"
proof -
  obtain t where t: "tree_at (rb_mem (gfn_tree ms)) 0 t" "rb_root (gfn_tree ms) = root_addr t"
    "rinorder t = map (gfn_node (node_idx ms)) xs" "\<forall>x \<in> set xs. slot_ok h x" "slots_sorted h xs"
    using assms by (rule tree_okD)
  from search_loop_correct [OF t(1,3,4,5)] obtain q b where
    "search_loop h (gfn_tree ms) (node_idx ms) gfn 0 (root_addr t) = Some (q, b)"
    "if b then q \<in> set xs \<and> in_slot h q gfn
     else (\<forall>x \<in> set xs. \<not> in_slot h x gfn) \<and> (if xs = [] then q = 0 else q \<in> set xs)" by blast
  then show ?thesis
    using in_slot_unique [OF t(5)] t(2) by (cases b) (auto simp: search_memslots_def split: if_splits)
qed

section \<open>Iteration over a range\<close>

lemma dropWhile_stop:
  "\<not> P x \<Longrightarrow> dropWhile P (ls @ x # rs) = (case dropWhile P ls of [] \<Rightarrow> x # rs | y # ys \<Rightarrow> y # ys @ x # rs)"
  by (induction ls) auto

lemma upper_bound_correct:
  assumes "tree_at (rb_mem t0) p t" "rinorder t = map (gfn_node idx) xs"
    "\<forall>x \<in> set xs. slot_ok h x" "sorted_wrt (\<lambda>a b. gbase h a < gbase h b) xs"
  shows "upper_bound_loop h t0 idx start node (root_addr t) =
     Some (case dropWhile (\<lambda>x. gbase h x \<le> unat start) xs of [] \<Rightarrow> node | x # _ \<Rightarrow> gfn_node idx x)"
  using assms
proof (induction t arbitrary: p xs node)
  case Lf
  then show ?case by (subst upper_bound_loop.simps) simp
next
  case (Nd c l a r)
  from Nd.prems(2) obtain ls x rs where xs: "xs = ls @ x # rs" "a = gfn_node idx x"
    "rinorder l = map (gfn_node idx) ls" "rinorder r = map (gfn_node idx) rs" by (rule map_split)
  have sub: "\<forall>x \<in> set ls. slot_ok h x" "\<forall>x \<in> set rs. slot_ok h x" using Nd.prems(3) xs(1) by auto
  from Nd.prems(3) xs obtain sl where sl: "slot_load h x = Some sl" "gbase h x = unat (base_gfn sl)"
    by (auto elim: slot_okD)
  have a: "a \<noteq> 0" "get_left t0 a = Some (root_addr l)" "get_right t0 a = Some (root_addr r)"
    "tree_at (rb_mem t0) a l" "tree_at (rb_mem t0) a r"
    using Nd.prems(1) by (simp_all add: get_left_def get_right_def rb_load_node)
  have step: "upper_bound_loop h t0 idx start node (root_addr (Nd c l a r)) =
     (if unat start < gbase h x then upper_bound_loop h t0 idx start a (root_addr l)
      else upper_bound_loop h t0 idx start node (root_addr r))"
    using a sl by (subst upper_bound_loop.simps) (simp add: xs(2) word_less_nat_alt)
  show ?case
  proof (cases "unat start < gbase h x")
    case True
    have "upper_bound_loop h t0 idx start a (root_addr l) =
       Some (case dropWhile (\<lambda>x. gbase h x \<le> unat start) ls of [] \<Rightarrow> a | x # _ \<Rightarrow> gfn_node idx x)"
      using Nd.IH(1) [OF a(4) xs(3) sub(1)] Nd.prems(4) by (simp only: xs(1) sorted_wrt_append)
    then show ?thesis
      using step True by (cases "dropWhile (\<lambda>x. gbase h x \<le> unat start) ls")
        (simp_all add: xs dropWhile_stop del: dropWhile_eq_Nil_conv)
  next
    case False
    have "upper_bound_loop h t0 idx start node (root_addr r) =
       Some (case dropWhile (\<lambda>x. gbase h x \<le> unat start) rs of [] \<Rightarrow> node | x # _ \<Rightarrow> gfn_node idx x)"
      using Nd.IH(2) [OF a(5) xs(4) sub(2)] Nd.prems(4) by (simp only: xs(1) sorted_wrt_append sorted_wrt.simps)
    moreover have "\<forall>y \<in> set ls. gbase h y \<le> unat start"
      using False Nd.prems(4) by (fastforce simp: xs sorted_wrt_append)
    ultimately show ?thesis
      using step False by (auto simp: xs dropWhile_append)
  qed
qed

text \<open>An iterator stands at the first of the slots \<open>zs\<close> still to visit.\<close>

definition iter_at :: "kvm_memslots \<Rightarrow> kvm_memslot_iter \<Rightarrow> u64 list \<Rightarrow> bool" where
  "iter_at ms it zs \<longleftrightarrow> iter_node it = or_null (map (gfn_node (node_idx ms)) zs) \<and>
     (zs \<noteq> [] \<longrightarrow> iter_slot it = hd zs)"

lemma tree_ok_node_nz: "tree_ok h ms xs \<Longrightarrow> x \<in> set xs \<Longrightarrow> gfn_node (node_idx ms) x \<noteq> 0"
  by (auto simp: tree_ok_def slot_ok_node)

lemma iter_next_correct:
  assumes "tree_ok h ms (ws @ z # zs)" "iter_at ms it (z # zs)"
  shows "\<exists>it'. kvm_memslot_iter_next ms it = Some it' \<and> iter_at ms it' zs"
proof -
  have "rb_next (gfn_tree ms) (gfn_node (node_idx ms) z) = Some (or_null (map (gfn_node (node_idx ms)) zs))"
    using assms(1) rb.next_law [of "gfn_tree ms" "map (gfn_node (node_idx ms)) ws"] by (simp add: tree_ok_def)
  moreover have "zs \<noteq> [] \<Longrightarrow> gfn_node (node_idx ms) (hd zs) \<noteq> 0"
    using tree_ok_node_nz [OF assms(1)] by simp
  ultimately show ?thesis
    using assms(2) by (cases zs) (auto simp: kvm_memslot_iter_next_def iter_at_def)
qed

lemma iter_start_correct:
  assumes ok: "tree_ok h ms xs"
  shows "\<exists>it. kvm_memslot_iter_start h ms start = Some it \<and>
     iter_at ms it (dropWhile (\<lambda>x. gend h x \<le> unat start) xs)"
proof -
  let ?idx = "node_idx ms" and ?t = "gfn_tree ms" and ?P = "\<lambda>x. gbase h x \<le> unat start"
  define us where "us = takeWhile ?P xs"
  define vs where "vs = dropWhile ?P xs"
  have xs: "xs = us @ vs" by (simp add: us_def vs_def)
  obtain t where t: "tree_at (rb_mem ?t) 0 t" "rb_root ?t = root_addr t"
    "rinorder t = map (gfn_node ?idx) xs" "\<forall>x \<in> set xs. slot_ok h x" "slots_sorted h xs"
    using ok by (rule tree_okD)
  have ub: "upper_bound_loop h ?t ?idx start 0 (rb_root ?t) = Some (or_null (map (gfn_node ?idx) vs))"
    using upper_bound_correct [OF t(1,3,4) slots_sorted_base(1) [OF t(5,4)], of start 0]
    unfolding t(2) vs_def [symmetric] by (cases vs) simp_all
  have vs_end: "\<not> gend h v \<le> unat start" if "v \<in> set vs" for v
  proof -
    have "\<not> ?P (hd vs)" using that hd_dropWhile [of ?P xs] unfolding vs_def by (metis dropWhile_eq_Nil_conv list.distinct(1) list.set_cases)
    moreover have "gbase h (hd vs) \<le> gbase h v"
      using that slots_sorted_base(1) [OF t(5,4)] unfolding xs by (cases vs) (auto simp: sorted_wrt_append)
    moreover have "gbase h v < gend h v" using t(4) that xs by (auto elim!: slot_okD)
    ultimately show ?thesis by linarith
  qed
  have inv: "rb_inv ?t (map (gfn_node ?idx) xs)" using ok by (simp add: tree_ok_def)
  show ?thesis
  proof (cases us rule: rev_cases)
    case Nil
    then have v: "vs = xs" by (simp add: xs)
    show ?thesis
    proof (cases xs)
      case Nil
      then show ?thesis
        using ub v rb.last_law [OF inv] by (simp add: kvm_memslot_iter_start_def iter_at_def)
    next
      case (Cons y ys)
      obtain sl where sl: "slot_load h y = Some sl" "gend h y = unat (base_gfn sl + npages sl)"
        using t(4) Cons by (auto elim: slot_okD)
      have "rb_prev ?t (gfn_node ?idx y) = Some 0"
        using rb.prev_law [of ?t "[]"] inv Cons by simp
      then show ?thesis
        using ub v sl vs_end [of y] tree_ok_node_nz [OF ok, of y] Cons
        by (simp add: kvm_memslot_iter_start_def iter_at_def word_le_nat_alt)
    qed
  next
    case (snoc ws w)
    have xw: "xs = ws @ w # vs" by (simp add: xs snoc)
    obtain sl where sl: "slot_load h w = Some sl" "gend h w = unat (base_gfn sl + npages sl)"
      using t(4) xw by (auto elim: slot_okD)
    have wnz: "gfn_node ?idx w \<noteq> 0" using tree_ok_node_nz [OF ok] xw by simp
    have "gbase h w \<le> unat start" using snoc us_def set_takeWhileD [of w ?P xs] by auto
    then have ws: "\<forall>x \<in> set ws. gend h x \<le> unat start"
      using t(5) by (fastforce simp: xw sorted_wrt_append)
    have node: "(if or_null (map (gfn_node ?idx) vs) \<noteq> 0
        then rb_prev ?t (or_null (map (gfn_node ?idx) vs)) \<bind>
          (\<lambda>tmp. Some (if tmp \<noteq> 0 then tmp else or_null (map (gfn_node ?idx) vs)))
        else rb_last ?t) = Some (gfn_node ?idx w)"
    proof (cases vs)
      case Nil
      then show ?thesis using rb.last_law [OF inv] by (simp add: xw)
    next
      case (Cons v vs')
      then have "rb_inv ?t ((map (gfn_node ?idx) (ws @ [w])) @ gfn_node ?idx v # map (gfn_node ?idx) vs')"
        using inv by (simp add: xw)
      from rb.prev_law [OF this] show ?thesis
        using wnz tree_ok_node_nz [OF ok, of v] Cons by (simp add: xw)
    qed
    let ?it = "\<lparr>iter_node = gfn_node ?idx w, iter_slot = w\<rparr>"
    have it: "iter_at ms ?it (w # vs)" by (simp add: iter_at_def)
    have start: "kvm_memslot_iter_start h ms start =
       (if gend h w \<le> unat start then kvm_memslot_iter_next ms ?it else Some ?it)"
      using ub node wnz sl by (simp add: kvm_memslot_iter_start_def Let_def word_le_nat_alt)
    have "dropWhile (\<lambda>x. gend h x \<le> unat start) xs = (if gend h w \<le> unat start then vs else w # vs)"
      using ws vs_end by (cases vs) (auto simp: xw dropWhile_append)
    then show ?thesis
      using start it iter_next_correct [of h ms ws w vs ?it] ok by (simp add: xw)
  qed
qed

lemma overlap_loop_correct:
  assumes "tree_ok h ms (ws @ zs)" "iter_at ms it zs"
  shows "overlap_loop h ms sid end_gfn it =
     Some (\<exists>z \<in> set zs. gbase h z < unat end_gfn \<and> sid_of h z \<noteq> sid)"
  using assms
proof (induction zs arbitrary: ws it)
  case Nil
  then show ?case
    by (subst overlap_loop.simps) (simp add: kvm_memslot_iter_is_valid_def iter_at_def)
next
  case (Cons z zs)
  have ok: "\<forall>x \<in> set (ws @ z # zs). slot_ok h x" "slots_sorted h (ws @ z # zs)"
    using Cons.prems(1) by (simp_all add: tree_ok_def)
  then obtain sl where sl: "slot_load h z = Some sl" "gbase h z = unat (base_gfn sl)"
    "sid_of h z = ucast (slot_id sl)" by (auto elim: slot_okD)
  have nz: "gfn_node (node_idx ms) z \<noteq> 0" using tree_ok_node_nz [OF Cons.prems(1)] by simp
  have it: "iter_node it = gfn_node (node_idx ms) z" "iter_slot it = z"
    using Cons.prems(2) by (simp_all add: iter_at_def)
  obtain it' where it': "kvm_memslot_iter_next ms it = Some it'" "iter_at ms it' zs"
    using iter_next_correct Cons.prems by blast
  have IH: "overlap_loop h ms sid end_gfn it' =
     Some (\<exists>z \<in> set zs. gbase h z < unat end_gfn \<and> sid_of h z \<noteq> sid)"
    using Cons.IH [of "ws @ [z]"] Cons.prems(1) it'(2) by simp
  have "gbase h z < unat end_gfn" if "y \<in> set zs" "gbase h y < unat end_gfn" for y
    using that slots_sorted_base(1) [OF ok(2,1)] by (fastforce simp: sorted_wrt_append)
  then show ?case
    using sl nz it it' IH
    by (subst overlap_loop.simps)
      (auto simp: kvm_memslot_iter_is_valid_def word_less_nat_alt)
qed

lemma check_overlap_correct:
  assumes ok: "tree_ok h ms xs"
  shows "kvm_check_memslot_overlap h ms sid start end_gfn =
     Some (\<exists>x \<in> set xs. unat start < gend h x \<and> gbase h x < unat end_gfn \<and> sid_of h x \<noteq> sid)"
proof -
  let ?D = "dropWhile (\<lambda>x. gend h x \<le> unat start) xs"
  let ?W = "takeWhile (\<lambda>x. gend h x \<le> unat start) xs"
  obtain it where it: "kvm_memslot_iter_start h ms start = Some it" "iter_at ms it ?D"
    using iter_start_correct [OF ok] by blast
  have "tree_ok h ms (?W @ ?D)" using ok by simp
  from overlap_loop_correct [OF this it(2)] have
    "kvm_check_memslot_overlap h ms sid start end_gfn =
      Some (\<exists>z \<in> set ?D. gbase h z < unat end_gfn \<and> sid_of h z \<noteq> sid)"
    by (simp add: kvm_check_memslot_overlap_def it(1))
  moreover have "set ?D = {x \<in> set xs. unat start < gend h x}"
  proof -
    have "sorted_wrt (\<lambda>a b. gend h a < gend h b) xs"
      using ok slots_sorted_base(2) by (simp add: tree_ok_def)
    then show ?thesis by (induction xs) (auto dest: order.strict_trans1)
  qed
  ultimately show ?thesis by auto
qed

section \<open>Lookup by id\<close>

text \<open>The hash table holds the slots \<open>xs\<close>: every bucket lists those whose id hashes to it.\<close>

definition id_slot_hash :: "slot_heap \<Rightarrow> u64 \<Rightarrow> u32" where
  "id_slot_hash h x = hash_min (sid_of h x) 7"

definition table_ok :: "slot_heap \<Rightarrow> kvm_memslots \<Rightarrow> u64 set \<Rightarrow> bool" where
  "table_ok h ms X \<longleftrightarrow> (\<exists>f. \<forall>b. unat b < 128 \<longrightarrow>
     hl_list (id_hash ms) (bucket_addr (id_hash_addr ms) b) (map (id_node (node_idx ms)) (f b)) \<and>
     set (f b) = {x \<in> X. id_slot_hash h x = b})"

lemma hash_min_bound: "unat (hash_min v 7) < 128"
  using hash_32_bound [of 7 v] by (simp add: hash_min_def)

lemma id_walk_correct:
  assumes "hl_path hl c (map (id_node idx) ys)" "hl_cell hl (last (c # map (id_node idx) ys)) = Some 0"
    "\<forall>x \<in> set ys. slot_ok h x" "hl_cell hl c = Some first"
  shows "id_walk h hl idx sid first = Some (or_null (filter (\<lambda>x. sid_of h x = sid) ys))"
  using assms
proof (induction ys arbitrary: c first)
  case Nil
  then show ?case by (subst id_walk.simps) simp
next
  case (Cons y ys)
  from Cons.prems(3) obtain sl where sl: "slot_load h y = Some sl" "sid_of h y = ucast (slot_id sl)"
    by (auto elim: slot_okD)
  have f: "first = id_node idx y" "id_node idx y \<noteq> 0" using Cons.prems(1,4) by auto
  obtain nx where nx: "hl_cell hl (id_node idx y) = Some nx"
    using hl_path_mapped [of hl "id_node idx y" "map (id_node idx) ys" 0 "id_node idx y"] Cons.prems(1,2)
    by (auto split: if_splits)
  have "id_walk h hl idx sid nx = Some (or_null (filter (\<lambda>x. sid_of h x = sid) ys))"
    using Cons.IH [OF _ _ _ nx] Cons.prems by simp
  then show ?case
    using f sl nx by (subst id_walk.simps) (simp add: read_cell_def)
qed

lemma id_to_memslot_correct:
  assumes "table_ok h ms X" "\<forall>x \<in> X. slot_ok h x" "inj_on (sid_of h) X"
  shows "\<exists>q. id_to_memslot h ms sid = Some q \<and>
    (\<forall>x \<in> X. sid_of h x = sid \<longrightarrow> q = x) \<and> ((\<forall>x \<in> X. sid_of h x \<noteq> sid) \<longrightarrow> q = 0)"
proof -
  let ?b = "hash_min sid 7"
  obtain ys where ys: "hl_list (id_hash ms) (bucket_addr (id_hash_addr ms) ?b) (map (id_node (node_idx ms)) ys)"
    "set ys = {x \<in> X. id_slot_hash h x = ?b}"
    using assms(1) hash_min_bound [of sid] unfolding table_ok_def by blast
  from ys(1) obtain first where first: "hl_cell (id_hash ms) (bucket_addr (id_hash_addr ms) ?b) = Some first"
    using hl_path_mapped by (fastforce simp: hl_list_def)
  have walk: "id_to_memslot h ms sid = Some (or_null (filter (\<lambda>x. sid_of h x = sid) ys))"
    using id_walk_correct [OF _ _ _ first, of "node_idx ms" ys h sid] ys assms(2) first
    by (simp add: id_to_memslot_def hash_bits_128 read_cell_def hl_list_def)
  have in_ys: "x \<in> set ys \<longleftrightarrow> x \<in> X" if "sid_of h x = sid" for x
    using ys(2) that by (simp add: id_slot_hash_def)
  show ?thesis
  proof (cases "filter (\<lambda>x. sid_of h x = sid) ys")
    case Nil
    then have "\<forall>x \<in> X. sid_of h x \<noteq> sid" using in_ys by (auto simp: filter_empty_conv)
    then show ?thesis using walk Nil by simp
  next
    case (Cons q qs)
    then have "q \<in> set ys" "sid_of h q = sid" using filter_set [of _ ys] by (auto dest: filter_eq_ConsD)
    then have "q \<in> X" using in_ys by blast
    then show ?thesis
      using walk Cons \<open>sid_of h q = sid\<close> assms(3) by (auto dest: inj_onD)
  qed
qed

end
