(* ===== verification/Memslots_Update.thy ===== *)
theory Memslots_Update
  imports Memslots_Lookup
begin

text \<open>
  \<open>replace_in_set\<close>, the body of \<^verbatim>\<open>kvm_replace_memslot\<close>, adds, replaces or removes one slot in a
  slot set and keeps the set's invariant: tree and hash table hold the same slots, the ranges
  are disjoint and in order, and ids are unique.
\<close>

section \<open>The hash table\<close>

definition heads_apart :: "kvm_memslots \<Rightarrow> u64 set \<Rightarrow> bool" where
  "heads_apart ms X \<longleftrightarrow> (\<forall>b. unat b < 128 \<longrightarrow>
     bucket_addr (id_hash_addr ms) b \<noteq> 0 \<and> (\<forall>x \<in> X. bucket_addr (id_hash_addr ms) b \<noteq> id_node (node_idx ms) x))"

lemma heads_apart_mono: "heads_apart ms X \<Longrightarrow> Y \<subseteq> X \<Longrightarrow> heads_apart ms Y"
  by (auto simp: heads_apart_def)

lemma bucket_addr_inj:
  assumes "unat b < 128" "unat c < 128" "bucket_addr base b = bucket_addr base c"
  shows "b = c"
proof -
  have "8 * (ucast b :: u64) = 8 * ucast c" using assms(3) by (simp add: bucket_addr_def)
  moreover have "unat (8 * (ucast x :: u64)) = 8 * unat x" if "unat x < 128" for x :: u32
  proof -
    have u: "unat (ucast x :: u64) = unat x" using that by (simp add: unsigned_ucast_eq take_bit_nat_eq_self)
    then show ?thesis using that unat_mult_lem [of 8 "ucast x :: u64"] by simp
  qed
  ultimately have "unat b = unat c" using assms(1,2) by (metis mult_left_cancel zero_neq_numeral)
  then show ?thesis by (simp add: word_unat_eq_iff)
qed

text \<open>The links of a slot in a slot set are mapped.\<close>

definition id_links :: "kvm_memslots \<Rightarrow> u64 \<Rightarrow> bool" where
  "id_links ms p \<longleftrightarrow> hl_cell (id_hash ms) (id_node (node_idx ms) p) \<noteq> None \<and>
     hl_pprev (id_hash ms) (id_node (node_idx ms) p) \<noteq> None"

lemma table_okE:
  assumes "table_ok h ms X"
  obtains f where "\<forall>b. unat b < 128 \<longrightarrow>
      hl_list (id_hash ms) (bucket_addr (id_hash_addr ms) b) (map (id_node (node_idx ms)) (f b))"
    "\<forall>b. unat b < 128 \<longrightarrow> set (f b) = {x \<in> X. id_slot_hash h x = b}"
  using assms unfolding table_ok_def by blast

lemma table_frame:
  assumes f: "hl_list (id_hash ms) (bucket_addr (id_hash_addr ms) b) (map (id_node (node_idx ms)) ys)"
    "set ys = {x \<in> X. id_slot_hash h x = b}"
    and out: "hl_outside (insert (bucket_addr (id_hash_addr ms) c) (id_node (node_idx ms) ` Y)) (id_hash ms) hl"
    and ap: "heads_apart ms (X \<union> Y)" "unat b < 128" "unat c < 128" "b \<noteq> c"
    and Y: "\<forall>y \<in> Y. id_slot_hash h y = c"
  shows "hl_list hl (bucket_addr (id_hash_addr ms) b) (map (id_node (node_idx ms)) ys)"
proof -
  have "bucket_addr (id_hash_addr ms) b \<noteq> bucket_addr (id_hash_addr ms) c"
    using ap bucket_addr_inj by blast
  then have "insert (bucket_addr (id_hash_addr ms) b) (set (map (id_node (node_idx ms)) ys)) \<inter>
     insert (bucket_addr (id_hash_addr ms) c) (id_node (node_idx ms) ` Y) = {}"
    using ap f(2) Y by (fastforce simp: heads_apart_def)
  from hl_list_frame [OF out this] f(1) show ?thesis by simp
qed

lemma hash_del_correct:
  assumes t: "table_ok h ms X" and x: "x \<in> X" and ap: "heads_apart ms X"
  shows "\<exists>hl. hash_del (id_hash ms) (id_node (node_idx ms) x) = Some hl \<and>
     table_ok h (ms\<lparr>id_hash := hl\<rparr>) (X - {x}) \<and>
     (\<forall>p. p \<notin> X \<longrightarrow> heads_apart ms {p} \<longrightarrow> id_links (ms\<lparr>id_hash := hl\<rparr>) p = id_links ms p)"
proof -
  let ?n = "id_node (node_idx ms)" and ?c = "id_slot_hash h x" and ?B = "bucket_addr (id_hash_addr ms)"
  have c: "unat ?c < 128" by (simp add: id_slot_hash_def hash_min_bound)
  from t obtain f where "\<forall>b. unat b < 128 \<longrightarrow> hl_list (id_hash ms) (?B b) (map ?n (f b))"
    "\<forall>b. unat b < 128 \<longrightarrow> set (f b) = {x \<in> X. id_slot_hash h x = b}"
    by (rule table_okE)
  note f = this [rule_format]
  have "x \<in> set (f ?c)" using f(2) [OF c] x by simp
  then obtain ys zs where yz: "f ?c = ys @ x # zs" by (auto simp: in_set_conv_decomp)
  from f(1) [OF c] have "hl_list (id_hash ms) (?B ?c) (map ?n ys @ ?n x # map ?n zs)" by (simp add: yz)
  from hlist_del_init_correct [OF this] obtain hl where
    hl: "hash_del (id_hash ms) (?n x) = Some hl" "hl_list hl (?B ?c) (map ?n (ys @ zs))"
      "hl_outside (insert (?B ?c) (?n ` set (f ?c))) (id_hash ms) hl"
    unfolding hash_del_def by (auto simp: yz image_Un)
  have "distinct (f ?c)" using f(1) [OF c] by (simp add: hl_list_def distinct_map)
  then have sets: "set (ys @ zs) = {y \<in> X - {x}. id_slot_hash h y = ?c}"
    using f(2) [OF c] by (auto simp: yz)
  have other: "hl_list hl (?B b) (map ?n (f b))" if "unat b < 128" "b \<noteq> ?c" for b
  proof (rule table_frame [OF f(1) f(2) hl(3) _ that(1) c that(2)])
    show "heads_apart ms (X \<union> set (f ?c))"
      by (rule heads_apart_mono [OF ap]) (use f(2) [OF c] in auto)
    show "\<forall>y \<in> set (f ?c). id_slot_hash h y = ?c" using f(2) [OF c] by simp
  qed (use that in auto)
  have "table_ok h (ms\<lparr>id_hash := hl\<rparr>) (X - {x})"
    unfolding table_ok_def
    by (rule exI [of _ "f(?c := ys @ zs)"]) (use hl(2) sets other f(2) in auto)
  moreover have "id_links (ms\<lparr>id_hash := hl\<rparr>) p = id_links ms p" if "p \<notin> X" "heads_apart ms {p}" for p
  proof -
    have "?n p \<notin> insert (?B ?c) (?n ` set (f ?c))"
      using that f(2) [OF c] c by (auto simp: heads_apart_def)
    then show ?thesis using hl(3) by (simp add: id_links_def hl_outside_def)
  qed
  ultimately show ?thesis using hl(1) by blast
qed

lemma hash_add_correct:
  assumes t: "table_ok h ms X" and x: "x \<notin> X" and ap: "heads_apart ms (insert x X)"
    and n: "id_links ms x" "id_node (node_idx ms) x \<noteq> 0"
  shows "\<exists>hl. hash_add (id_hash ms) (id_hash_addr ms) 128 (id_node (node_idx ms) x) (sid_of h x) = Some hl \<and>
     table_ok h (ms\<lparr>id_hash := hl\<rparr>) (insert x X) \<and>
     (\<forall>p. p \<notin> insert x X \<longrightarrow> heads_apart ms {p} \<longrightarrow> id_links (ms\<lparr>id_hash := hl\<rparr>) p = id_links ms p)"
proof -
  let ?n = "id_node (node_idx ms)" and ?c = "id_slot_hash h x" and ?B = "bucket_addr (id_hash_addr ms)"
  have c: "unat ?c < 128" by (simp add: id_slot_hash_def hash_min_bound)
  from t obtain f where "\<forall>b. unat b < 128 \<longrightarrow> hl_list (id_hash ms) (?B b) (map ?n (f b))"
    "\<forall>b. unat b < 128 \<longrightarrow> set (f b) = {x \<in> X. id_slot_hash h x = b}"
    by (rule table_okE)
  note f = this [rule_format]
  have "?n x \<notin> insert (?B ?c) (set (map ?n (f ?c)))"
    using f(2) [OF c] x ap c by (auto simp: heads_apart_def)
  from hlist_add_head_correct [OF f(1) [OF c] n(2) this] n(1) obtain hl where
    hl: "hash_add (id_hash ms) (id_hash_addr ms) 128 (?n x) (sid_of h x) = Some hl"
      "hl_list hl (?B ?c) (map ?n (x # f ?c))"
      "hl_outside (insert (?B ?c) (?n ` set (x # f ?c))) (id_hash ms) hl"
    by (auto simp: hash_add_def hash_bits_128 id_slot_hash_def id_links_def)
  have sets: "set (x # f ?c) = {y \<in> insert x X. id_slot_hash h y = ?c}"
    using f(2) [OF c] by auto
  have other: "hl_list hl (?B b) (map ?n (f b))" if "unat b < 128" "b \<noteq> ?c" for b
  proof (rule table_frame [OF f(1) f(2) hl(3) _ that(1) c that(2)])
    show "heads_apart ms (X \<union> set (x # f ?c))"
      by (rule heads_apart_mono [OF ap]) (use f(2) [OF c] in auto)
    show "\<forall>y \<in> set (x # f ?c). id_slot_hash h y = ?c" unfolding sets by simp
  qed (use that in auto)
  have "table_ok h (ms\<lparr>id_hash := hl\<rparr>) (insert x X)"
    unfolding table_ok_def
    by (rule exI [of _ "f(?c := x # f ?c)"]) (use hl(2) sets other f(2) in auto)
  moreover have "id_links (ms\<lparr>id_hash := hl\<rparr>) p = id_links ms p" if "p \<notin> insert x X" "heads_apart ms {p}" for p
  proof -
    have "?n p \<notin> insert (?B ?c) (?n ` set (x # f ?c))"
      using that f(2) [OF c] c by (auto simp: heads_apart_def)
    then show ?thesis using hl(3) by (simp add: id_links_def hl_outside_def)
  qed
  ultimately show ?thesis using hl(1) by blast
qed

section \<open>The tree\<close>

lemma insert_descend_correct:
  assumes "holds_tree t0 (plug k t)" "rinorder t = map (gfn_node idx) xs"
    "\<forall>x \<in> set xs. slot_ok h x" "sorted_wrt (\<lambda>a b. gbase h a < gbase h b) xs"
    "\<forall>x \<in> set xs. gbase h x \<noteq> unat base"
  shows "\<exists>k'. insert_descend h t0 idx base (parent_addr k) (link_of k) (root_addr t) =
       Some (parent_addr k', link_of k') \<and> plug k' Lf = plug k t \<and>
     before k' = before k @ map (gfn_node idx) (filter (\<lambda>x. gbase h x < unat base) xs) \<and>
     after k' = map (gfn_node idx) (filter (\<lambda>x. unat base < gbase h x) xs) @ after k"
  using assms
proof (induction t arbitrary: k xs)
  case Lf
  then show ?case by (intro exI [of _ k]) (subst insert_descend.simps, simp)
next
  case (Nd c l a r)
  from Nd.prems(2) obtain ls x rs where xs: "xs = ls @ x # rs" "a = gfn_node idx x"
    "rinorder l = map (gfn_node idx) ls" "rinorder r = map (gfn_node idx) rs" by (rule map_split)
  have sub: "\<forall>x \<in> set ls. slot_ok h x" "\<forall>x \<in> set rs. slot_ok h x"
    "sorted_wrt (\<lambda>a b. gbase h a < gbase h b) ls" "sorted_wrt (\<lambda>a b. gbase h a < gbase h b) rs"
    "\<forall>x \<in> set ls. gbase h x \<noteq> unat base" "\<forall>x \<in> set rs. gbase h x \<noteq> unat base"
    and lt: "\<forall>y \<in> set ls. gbase h y < gbase h x" "\<forall>y \<in> set rs. gbase h x < gbase h y"
    using Nd.prems(3,4,5) xs(1) by (auto simp: sorted_wrt_append)
  from Nd.prems(3) xs obtain sl where sl: "slot_load h x = Some sl" "gbase h x = unat (base_gfn sl)"
    by (auto elim: slot_okD)
  have a: "a \<noteq> 0" "get_left t0 a = Some (root_addr l)" "get_right t0 a = Some (root_addr r)"
    using Nd.prems(1) unfolding holds_tree_plug by (auto simp: get_left_def get_right_def rb_load_node)
  show ?case
  proof (cases "unat base < gbase h x")
    case True
    have "holds_tree t0 (plug (HL c a r # k) l)" using Nd.prems(1) by simp
    from Nd.IH(1) [OF this xs(3) sub(1,3,5)] obtain k' where
      k': "insert_descend h t0 idx base a (Link_left a) (root_addr l) = Some (parent_addr k', link_of k')"
        "plug k' Lf = plug k (Nd c l a r)"
        "before k' = before k @ map (gfn_node idx) (filter (\<lambda>x. gbase h x < unat base) ls)"
        "after k' = map (gfn_node idx) (filter (\<lambda>x. unat base < gbase h x) ls) @ a # rinorder r @ after k"
      by auto
    have "insert_descend h t0 idx base (parent_addr k) (link_of k) (root_addr (Nd c l a r)) =
        insert_descend h t0 idx base a (Link_left a) (root_addr l)"
      using a sl True by (subst insert_descend.simps) (simp add: xs(2) word_less_nat_alt)
    moreover have "filter (\<lambda>x. gbase h x < unat base) rs = []" "filter (\<lambda>x. unat base < gbase h x) rs = rs"
      using lt(2) True by (auto simp: filter_empty_conv filter_id_conv)
    ultimately show ?thesis using k' True xs by (intro exI [of _ k']) simp
  next
    case False
    moreover have "gbase h x \<noteq> unat base" using Nd.prems(5) xs(1) by simp
    ultimately have gt: "gbase h x < unat base" by simp
    have "holds_tree t0 (plug (HR c l a # k) r)" using Nd.prems(1) by simp
    from Nd.IH(2) [OF this xs(4) sub(2,4,6)] obtain k' where
      k': "insert_descend h t0 idx base a (Link_right a) (root_addr r) = Some (parent_addr k', link_of k')"
        "plug k' Lf = plug k (Nd c l a r)"
        "before k' = before k @ rinorder l @ a # map (gfn_node idx) (filter (\<lambda>x. gbase h x < unat base) rs)"
        "after k' = map (gfn_node idx) (filter (\<lambda>x. unat base < gbase h x) rs) @ after k"
      by auto
    have "insert_descend h t0 idx base (parent_addr k) (link_of k) (root_addr (Nd c l a r)) =
        insert_descend h t0 idx base a (Link_right a) (root_addr r)"
      using a sl gt by (subst insert_descend.simps) (simp add: xs(2) word_less_nat_alt)
    moreover have "filter (\<lambda>x. unat base < gbase h x) ls = []" "filter (\<lambda>x. gbase h x < unat base) ls = ls"
      using lt(1) gt by (auto simp: filter_empty_conv filter_id_conv)
    ultimately show ?thesis using k' gt xs by (intro exI [of _ k']) simp
  qed
qed

text \<open>Where a new slot goes: after the slots below it, before those above.\<close>

definition slot_insert :: "slot_heap \<Rightarrow> u64 \<Rightarrow> u64 list \<Rightarrow> u64 list" where
  "slot_insert h p xs = filter (\<lambda>x. gbase h x < gbase h p) xs @ p # filter (\<lambda>x. gbase h p < gbase h x) xs"

definition disjoint_from :: "slot_heap \<Rightarrow> u64 \<Rightarrow> u64 set \<Rightarrow> bool" where
  "disjoint_from h p X \<longleftrightarrow> (\<forall>x \<in> X. gend h x \<le> gbase h p \<or> gend h p \<le> gbase h x)"

lemma slot_ok_range: "slot_ok h x \<Longrightarrow> gbase h x < gend h x"
  by (auto elim: slot_okD)

lemma disjoint_base_neq:
  "disjoint_from h p X \<Longrightarrow> slot_ok h p \<Longrightarrow> \<forall>x \<in> X. slot_ok h x \<Longrightarrow> \<forall>x \<in> X. gbase h x \<noteq> gbase h p"
  unfolding disjoint_from_def by (fastforce dest: slot_ok_range)

lemma filter_split_sorted:
  assumes "sorted_wrt (\<lambda>a b. f a < f b) xs" "\<forall>x \<in> set xs. f x \<noteq> (b :: nat)"
  shows "filter (\<lambda>x. f x < b) xs @ filter (\<lambda>x. b < f x) xs = xs"
  using assms
proof (induction xs)
  case (Cons y ys)
  show ?case
  proof (cases "f y < b")
    case True
    then show ?thesis using Cons by auto
  next
    case False
    then have "b < f y" using Cons.prems(2) by auto
    then have "\<forall>x \<in> set ys. b < f x" using Cons.prems(1) by auto
    then have "filter (\<lambda>x. f x < b) ys = []" "filter (\<lambda>x. b < f x) ys = ys"
      by (auto simp: filter_empty_conv filter_id_conv)
    then show ?thesis using False \<open>b < f y\<close> by simp
  qed
qed simp

lemma slots_sorted_insert:
  assumes "slots_sorted h xs" "\<forall>x \<in> set xs. slot_ok h x" "slot_ok h p" "disjoint_from h p (set xs)"
  shows "slots_sorted h (slot_insert h p xs)"
proof -
  have below: "gend h x \<le> gbase h p" if "x \<in> set xs" "gbase h x < gbase h p" for x
    using assms(3,4) that slot_ok_range [OF assms(3)] unfolding disjoint_from_def by fastforce
  have above: "gend h p \<le> gbase h x" if "x \<in> set xs" "gbase h p < gbase h x" for x
    using assms(2,4) that slot_ok_range [of h x] unfolding disjoint_from_def by fastforce
  have cross: "gend h x \<le> gbase h y" if "x \<in> set xs" "gbase h x < gbase h p" "y \<in> set xs" "gbase h p < gbase h y" for x y
    using below [OF that(1,2)] that(4) by linarith
  show ?thesis
    unfolding slot_insert_def sorted_wrt_append
    using assms(1) below above cross by (auto simp: sorted_wrt_filter)
qed

lemma set_slot_insert:
  assumes "\<forall>x \<in> set xs. gbase h x \<noteq> gbase h p"
  shows "set (slot_insert h p xs) = insert p (set xs)"
  using assms by (auto simp: slot_insert_def neq_iff)

lemma kvm_insert_gfn_node_correct:
  assumes ok: "tree_ok h ms xs" and p: "slot_ok h p" "p \<notin> set xs" "disjoint_from h p (set xs)"
    and m: "rb_mapped (gfn_tree ms) (gfn_node (node_idx ms) p)"
  shows "\<exists>t'. kvm_insert_gfn_node h ms p = Some (ms\<lparr>gfn_tree := t'\<rparr>) \<and>
     tree_ok h (ms\<lparr>gfn_tree := t'\<rparr>) (slot_insert h p xs) \<and>
     (\<forall>q. q \<notin> insert p (set xs) \<longrightarrow>
        rb_mapped t' (gfn_node (node_idx ms) q) = rb_mapped (gfn_tree ms) (gfn_node (node_idx ms) q))"
proof -
  let ?idx = "node_idx ms" and ?t = "gfn_tree ms"
  have idx: "?idx < 2" and inv: "rb_inv ?t (map (gfn_node ?idx) xs)" and xs: "\<forall>x \<in> set xs. slot_ok h x"
    and so: "slots_sorted h xs" using ok by (simp_all add: tree_ok_def)
  from inv obtain t where t: "holds_tree ?t (plug [] t)" "rbt_ok t" "rinorder t = map (gfn_node ?idx) xs"
    by (auto simp: rb_inv_def)
  obtain sl where sl: "slot_load h p = Some sl" "gbase h p = unat (base_gfn sl)" using p(1) by (rule slot_okD)
  have ne: "\<forall>x \<in> set xs. gbase h x \<noteq> gbase h p" using disjoint_base_neq [OF p(3,1) xs] .
  let ?lo = "filter (\<lambda>x. gbase h x < gbase h p) xs" and ?hi = "filter (\<lambda>x. gbase h p < gbase h x) xs"
  from insert_descend_correct [OF t(1,3) xs slots_sorted_base(1) [OF so xs], of "base_gfn sl"] ne sl(2)
  obtain k where k: "insert_descend h ?t ?idx (base_gfn sl) 0 Link_root (root_addr t) = Some (parent_addr k, link_of k)"
    "plug k Lf = t" "before k = map (gfn_node ?idx) ?lo" "after k = map (gfn_node ?idx) ?hi"
    by auto
  have leaf: "rb_at_leaf ?t (parent_addr k) (link_of k) (map (gfn_node ?idx) ?lo) (map (gfn_node ?idx) ?hi)"
    using t k unfolding rb_at_leaf_def by (intro exI [of _ k]) simp
  have notin: "gfn_node ?idx p \<notin> set (map (gfn_node ?idx) ?lo @ map (gfn_node ?idx) ?hi)"
    using p(2) by auto
  from rb.insert_law [OF leaf slot_ok_node(1) [OF p(1) idx] m notin] obtain t' where
    t': "rb_link_insert ?t (gfn_node ?idx p) (parent_addr k) (link_of k) = Some t'"
      "rb_inv t' (map (gfn_node ?idx) (slot_insert h p xs))"
      "\<forall>b. b \<notin> gfn_node ?idx ` set (slot_insert h p xs) \<longrightarrow> rb_mapped t' b = rb_mapped ?t b"
    by (auto simp: slot_insert_def image_Un)
  have root: "rb_root ?t = root_addr t" using t(1) by (simp add: holds_tree_def)
  have "kvm_insert_gfn_node h ms p = Some (ms\<lparr>gfn_tree := t'\<rparr>)"
    using sl(1) k(1) t'(1) root
    by (auto simp: kvm_insert_gfn_node_def rb_link_insert_def Let_def bind_eq_Some_conv)
  moreover have "tree_ok h (ms\<lparr>gfn_tree := t'\<rparr>) (slot_insert h p xs)"
    using idx t'(2) xs p(1) slots_sorted_insert [OF so xs p(1,3)] set_slot_insert [OF ne]
    by (simp add: tree_ok_def)
  moreover have "\<forall>q. q \<notin> insert p (set xs) \<longrightarrow> rb_mapped t' (gfn_node ?idx q) = rb_mapped ?t (gfn_node ?idx q)"
    using t'(3) unfolding set_slot_insert [OF ne] by (metis inj_image_mem_iff inj_gfn_node)
  ultimately show ?thesis by blast
qed

section \<open>One slot set\<close>

definition set_inv :: "slot_heap \<Rightarrow> kvm_memslots \<Rightarrow> u64 list \<Rightarrow> bool" where
  "set_inv h ms xs \<longleftrightarrow> tree_ok h ms xs \<and> table_ok h ms (set xs) \<and> inj_on (sid_of h) (set xs) \<and>
     heads_apart ms (set xs) \<and> last_used_slot ms \<in> insert 0 (set xs)"

text \<open>The embedded links of a slot outside the set are mapped and clear of the hash heads.\<close>

definition links_ready :: "kvm_memslots \<Rightarrow> u64 \<Rightarrow> bool" where
  "links_ready ms p \<longleftrightarrow> rb_mapped (gfn_tree ms) (gfn_node (node_idx ms) p) \<and> id_links ms p \<and>
     heads_apart ms {p}"

lemma tree_ok_upd [simp]:
  "tree_ok h (ms\<lparr>id_hash := hl\<rparr>) xs = tree_ok h ms xs"
  "tree_ok h (ms\<lparr>last_used_slot := p\<rparr>) xs = tree_ok h ms xs"
  "tree_ok h (ms\<lparr>generation := g\<rparr>) xs = tree_ok h ms xs"
  by (simp_all add: tree_ok_def)

lemma table_ok_upd [simp]:
  "table_ok h (ms\<lparr>gfn_tree := t\<rparr>) X = table_ok h ms X"
  "table_ok h (ms\<lparr>last_used_slot := p\<rparr>) X = table_ok h ms X"
  "table_ok h (ms\<lparr>generation := g\<rparr>) X = table_ok h ms X"
  "table_ok h (ms\<lparr>id_hash := hl, last_used_slot := p\<rparr>) X = table_ok h (ms\<lparr>id_hash := hl\<rparr>) X"
  "table_ok h (ms\<lparr>last_used_slot := p, id_hash := hl\<rparr>) X = table_ok h (ms\<lparr>id_hash := hl\<rparr>) X"
  by (simp_all add: table_ok_def)

lemma heads_apart_upd [simp]:
  "heads_apart (ms\<lparr>gfn_tree := t\<rparr>) X = heads_apart ms X"
  "heads_apart (ms\<lparr>id_hash := hl\<rparr>) X = heads_apart ms X"
  "heads_apart (ms\<lparr>last_used_slot := p\<rparr>) X = heads_apart ms X"
  "heads_apart (ms\<lparr>generation := g\<rparr>) X = heads_apart ms X"
  by (simp_all add: heads_apart_def)

lemma id_links_upd [simp]:
  "id_links (ms\<lparr>gfn_tree := t\<rparr>) p = id_links ms p"
  "id_links (ms\<lparr>last_used_slot := q\<rparr>) p = id_links ms p"
  "id_links (ms\<lparr>generation := g\<rparr>) p = id_links ms p"
  by (simp_all add: id_links_def)

lemma set_inv_gen [simp]: "set_inv h (ms\<lparr>generation := g\<rparr>) xs = set_inv h ms xs"
  by (simp add: set_inv_def)

lemma links_ready_gen [simp]: "links_ready (ms\<lparr>generation := g\<rparr>) p = links_ready ms p"
  by (simp add: links_ready_def)

lemma heads_apart_insert: "heads_apart ms (insert p X) \<longleftrightarrow> heads_apart ms {p} \<and> heads_apart ms X"
  by (auto simp: heads_apart_def)

definition keeps_links :: "u64 set \<Rightarrow> kvm_memslots \<Rightarrow> kvm_memslots \<Rightarrow> bool" where
  "keeps_links X ms ms' \<longleftrightarrow> node_idx ms' = node_idx ms \<and> id_hash_addr ms' = id_hash_addr ms \<and>
     generation ms' = generation ms \<and> (\<forall>q. q \<notin> X \<longrightarrow> links_ready ms q \<longrightarrow> links_ready ms' q)"

text \<open>Adding a slot.\<close>

lemma replace_in_set_add:
  assumes inv: "set_inv h ms xs" and p: "slot_ok h p" "p \<notin> set xs" "disjoint_from h p (set xs)"
    "sid_of h p \<notin> sid_of h ` set xs" "links_ready ms p"
  shows "\<exists>ms'. replace_in_set h ms 0 p = Some ms' \<and> set_inv h ms' (slot_insert h p xs) \<and>
     keeps_links (insert p (set xs)) ms ms'"
proof -
  let ?idx = "node_idx ms"
  have t: "tree_ok h ms xs" "table_ok h ms (set xs)" "heads_apart ms (insert p (set xs))"
    using inv p(5) heads_apart_insert [of ms p "set xs"] unfolding set_inv_def links_ready_def by blast+
  have idx: "?idx < 2" using t(1) by (simp add: tree_ok_def)
  obtain sl where sl: "slot_load h p = Some sl" "sid_of h p = ucast (slot_id sl)" using p(1) by (rule slot_okD)
  from hash_add_correct [OF t(2) p(2) t(3) _ slot_ok_node(3) [OF p(1) idx]] p(5) obtain hl where
    hl: "hash_add (id_hash ms) (id_hash_addr ms) 128 (id_node ?idx p) (sid_of h p) = Some hl"
      "table_ok h (ms\<lparr>id_hash := hl\<rparr>) (insert p (set xs))"
      "\<forall>q. q \<notin> insert p (set xs) \<longrightarrow> heads_apart ms {q} \<longrightarrow> id_links (ms\<lparr>id_hash := hl\<rparr>) q = id_links ms q"
    by (auto simp: links_ready_def)
  let ?m = "ms\<lparr>id_hash := hl\<rparr>"
  have "tree_ok h ?m xs" "rb_mapped (gfn_tree ?m) (gfn_node (node_idx ?m) p)"
    using t(1) p(5) by (simp_all add: links_ready_def)
  from kvm_insert_gfn_node_correct [OF this(1) p(1,2,3) this(2)] obtain t' where
    t': "kvm_insert_gfn_node h ?m p = Some (?m\<lparr>gfn_tree := t'\<rparr>)"
      "tree_ok h (?m\<lparr>gfn_tree := t'\<rparr>) (slot_insert h p xs)"
      "\<forall>q. q \<notin> insert p (set xs) \<longrightarrow> rb_mapped t' (gfn_node ?idx q) = rb_mapped (gfn_tree ms) (gfn_node ?idx q)"
    by auto
  have ne: "\<forall>x \<in> set xs. gbase h x \<noteq> gbase h p"
    using disjoint_base_neq [OF p(3,1)] t(1) by (simp add: tree_ok_def)
  have "replace_in_set h ms 0 p = Some (?m\<lparr>gfn_tree := t'\<rparr>)"
    using hl(1) sl t'(1) by (simp add: replace_in_set_def)
  moreover have "set_inv h (?m\<lparr>gfn_tree := t'\<rparr>) (slot_insert h p xs)"
    using inv hl(2) t(3) t'(2) p(4) unfolding set_inv_def set_slot_insert [OF ne] by auto
  moreover have "keeps_links (insert p (set xs)) ms (?m\<lparr>gfn_tree := t'\<rparr>)"
    using hl(3) t'(3) by (auto simp: keeps_links_def links_ready_def)
  ultimately show ?thesis by blast
qed

text \<open>Removing the node of a slot from the tree.\<close>

lemma kvm_erase_gfn_node_correct:
  assumes "tree_ok h ms (ys @ x # zs)"
  shows "\<exists>t'. kvm_erase_gfn_node ms x = Some (ms\<lparr>gfn_tree := t'\<rparr>) \<and>
     tree_ok h (ms\<lparr>gfn_tree := t'\<rparr>) (ys @ zs) \<and>
     (\<forall>q. q \<notin> set (ys @ x # zs) \<longrightarrow>
        rb_mapped t' (gfn_node (node_idx ms) q) = rb_mapped (gfn_tree ms) (gfn_node (node_idx ms) q))"
proof -
  let ?n = "gfn_node (node_idx ms)"
  have "rb_inv (gfn_tree ms) (map ?n ys @ ?n x # map ?n zs)" using assms by (simp add: tree_ok_def)
  from rb.erase_law [OF this] obtain t' where
    t': "rb_erase (gfn_tree ms) (?n x) = Some t'" "rb_inv t' (map ?n (ys @ zs))"
      "\<forall>b. b \<notin> ?n ` set (ys @ x # zs) \<longrightarrow> rb_mapped t' b = rb_mapped (gfn_tree ms) b"
    by (auto simp: image_Un)
  have "tree_ok h (ms\<lparr>gfn_tree := t'\<rparr>) (ys @ zs)"
    using assms t'(2) by (auto simp: tree_ok_def sorted_wrt_append)
  moreover have "\<forall>q. q \<notin> set (ys @ x # zs) \<longrightarrow> rb_mapped t' (?n q) = rb_mapped (gfn_tree ms) (?n q)"
    using t'(3) by (metis inj_image_mem_iff inj_gfn_node)
  ultimately show ?thesis using t'(1) by (intro exI [of _ t']) (simp add: kvm_erase_gfn_node_def)
qed

lemma kvm_replace_gfn_node_correct:
  assumes "tree_ok h ms (ys @ x # zs)" "slot_ok h p" "p \<notin> set (ys @ x # zs)"
    "rb_mapped (gfn_tree ms) (gfn_node (node_idx ms) p)" "gbase h p = gbase h x" "gend h p = gend h x"
  shows "\<exists>t'. kvm_replace_gfn_node ms x p = Some (ms\<lparr>gfn_tree := t'\<rparr>) \<and>
     tree_ok h (ms\<lparr>gfn_tree := t'\<rparr>) (ys @ p # zs) \<and>
     (\<forall>q. q \<notin> insert p (set (ys @ x # zs)) \<longrightarrow>
        rb_mapped t' (gfn_node (node_idx ms) q) = rb_mapped (gfn_tree ms) (gfn_node (node_idx ms) q))"
proof -
  let ?n = "gfn_node (node_idx ms)"
  have inv: "rb_inv (gfn_tree ms) (map ?n ys @ ?n x # map ?n zs)" and idx: "node_idx ms < 2"
    using assms(1) by (simp_all add: tree_ok_def)
  have "?n p \<notin> set (map ?n ys @ ?n x # map ?n zs)" using assms(3) by auto
  from rb.replace_law [OF inv slot_ok_node(1) [OF assms(2) idx] assms(4) this] obtain t' where
    t': "rb_replace_node (gfn_tree ms) (?n x) (?n p) = Some t'" "rb_inv t' (map ?n (ys @ p # zs))"
      "\<forall>b. b \<notin> ?n ` insert p (set (ys @ x # zs)) \<longrightarrow> rb_mapped t' b = rb_mapped (gfn_tree ms) b"
    by (auto simp: image_Un)
  have "tree_ok h (ms\<lparr>gfn_tree := t'\<rparr>) (ys @ p # zs)"
    using assms t'(2) by (auto simp: tree_ok_def sorted_wrt_append)
  moreover have "\<forall>q. q \<notin> insert p (set (ys @ x # zs)) \<longrightarrow> rb_mapped t' (?n q) = rb_mapped (gfn_tree ms) (?n q)"
    using t'(3) by (metis inj_image_mem_iff inj_gfn_node)
  ultimately show ?thesis using t'(1) by (intro exI [of _ t']) (simp add: kvm_replace_gfn_node_def)
qed

lemma set_inv_distinct: "set_inv h ms xs \<Longrightarrow> distinct xs"
  using rb_inv_distinct [of "gfn_tree ms" "map (gfn_node (node_idx ms)) xs"]
  by (simp add: set_inv_def tree_ok_def distinct_map)

text \<open>Removing a slot.\<close>

lemma replace_in_set_remove:
  assumes inv: "set_inv h ms (ys @ x # zs)"
  shows "\<exists>ms'. replace_in_set h ms x 0 = Some ms' \<and> set_inv h ms' (ys @ zs) \<and>
     keeps_links (set (ys @ x # zs)) ms ms'"
proof -
  let ?X = "set (ys @ x # zs)" and ?idx = "node_idx ms"
  have t: "tree_ok h ms (ys @ x # zs)" "table_ok h ms ?X" "heads_apart ms ?X" "x \<in> ?X"
    using inv by (simp_all add: set_inv_def)
  have nz: "x \<noteq> 0" using t(1) by (auto simp: tree_ok_def slot_ok_def)
  have X: "?X - {x} = set (ys @ zs)" using set_inv_distinct [OF inv] by auto
  from hash_del_correct [OF t(2,4,3)] obtain hl where
    hl: "hash_del (id_hash ms) (id_node ?idx x) = Some hl" "table_ok h (ms\<lparr>id_hash := hl\<rparr>) (set (ys @ zs))"
      "\<forall>q. q \<notin> ?X \<longrightarrow> heads_apart ms {q} \<longrightarrow> id_links (ms\<lparr>id_hash := hl\<rparr>) q = id_links ms q"
    unfolding X by blast
  define m where "m = (if last_used_slot ms = x then ms\<lparr>id_hash := hl, last_used_slot := 0\<rparr> else ms\<lparr>id_hash := hl\<rparr>)"
  have m: "gfn_tree m = gfn_tree ms" "node_idx m = ?idx" "id_hash_addr m = id_hash_addr ms" "generation m = generation ms"
    "table_ok h m (set (ys @ zs))" "heads_apart m = heads_apart ms" "last_used_slot m \<in> insert 0 (set (ys @ zs))"
    "id_links m = id_links (ms\<lparr>id_hash := hl\<rparr>)"
    using hl(2) inv by (auto simp: m_def set_inv_def fun_eq_iff heads_apart_def id_links_def)
  have "tree_ok h m (ys @ x # zs)" using t(1) by (simp add: m_def)
  from kvm_erase_gfn_node_correct [OF this] obtain t' where
    t': "kvm_erase_gfn_node m x = Some (m\<lparr>gfn_tree := t'\<rparr>)" "tree_ok h (m\<lparr>gfn_tree := t'\<rparr>) (ys @ zs)"
      "\<forall>q. q \<notin> ?X \<longrightarrow> rb_mapped t' (gfn_node ?idx q) = rb_mapped (gfn_tree ms) (gfn_node ?idx q)"
    using m by auto
  have "replace_in_set h ms x 0 = Some (m\<lparr>gfn_tree := t'\<rparr>)"
    using hl(1) t'(1) nz by (simp add: replace_in_set_def m_def split: if_splits)
  moreover have "set_inv h (m\<lparr>gfn_tree := t'\<rparr>) (ys @ zs)"
    using inv t'(2) m t(3) heads_apart_mono [OF t(3), of "set (ys @ zs)"]
    by (auto simp: set_inv_def inj_on_Un)
  moreover have "keeps_links ?X ms (m\<lparr>gfn_tree := t'\<rparr>)"
    using hl(3) t'(3) m by (simp add: keeps_links_def links_ready_def)
  ultimately show ?thesis by blast
qed

text \<open>
  Exchanging a slot: first the hash table, where the two nodes swap, then the tree, by one
  replacement when the base frame is the same and by an erasure and an insertion otherwise.
\<close>

lemma rehash_correct:
  assumes inv: "set_inv h ms (ys @ x # zs)" and p: "slot_ok h p" "p \<notin> set (ys @ x # zs)"
    "sid_of h p \<notin> sid_of h ` set (ys @ zs)" "links_ready ms p"
  shows "\<exists>hl hl'. hash_del (id_hash ms) (id_node (node_idx ms) x) = Some hl \<and>
     hash_add hl (id_hash_addr ms) 128 (id_node (node_idx ms) p) (sid_of h p) = Some hl' \<and>
     table_ok h (ms\<lparr>id_hash := hl'\<rparr>) (set (ys @ p # zs)) \<and>
     (\<forall>q. q \<notin> insert p (set (ys @ x # zs)) \<longrightarrow> heads_apart ms {q} \<longrightarrow>
        id_links (ms\<lparr>id_hash := hl'\<rparr>) q = id_links ms q)"
proof -
  let ?X = "set (ys @ x # zs)" and ?Y = "set (ys @ zs)" and ?idx = "node_idx ms"
  have t: "table_ok h ms ?X" "heads_apart ms ?X" "x \<in> ?X" and idx: "?idx < 2"
    using inv by (simp_all add: set_inv_def tree_ok_def)
  have X: "?X - {x} = ?Y" using set_inv_distinct [OF inv] by auto
  have pl: "heads_apart ms {p}" "id_links ms p" using p(4) by (simp_all add: links_ready_def)
  have ap: "heads_apart ms (insert p ?Y)"
    using heads_apart_insert [of ms p ?Y] heads_apart_mono [OF t(2), of ?Y] pl(1) by auto
  from hash_del_correct [OF t(1,3,2)] obtain hl where
    hl: "hash_del (id_hash ms) (id_node ?idx x) = Some hl" "table_ok h (ms\<lparr>id_hash := hl\<rparr>) ?Y"
      "\<forall>q. q \<notin> ?X \<longrightarrow> heads_apart ms {q} \<longrightarrow> id_links (ms\<lparr>id_hash := hl\<rparr>) q = id_links ms q"
    unfolding X by blast
  have pY: "p \<notin> ?Y" "id_links (ms\<lparr>id_hash := hl\<rparr>) p" using p(2) hl(3) pl by auto
  from hash_add_correct [OF hl(2) pY(1) _ pY(2)] ap slot_ok_node(3) [OF p(1) idx] obtain hl' where
    hl': "hash_add hl (id_hash_addr ms) 128 (id_node ?idx p) (sid_of h p) = Some hl'"
      "table_ok h (ms\<lparr>id_hash := hl'\<rparr>) (insert p ?Y)"
      "\<forall>q. q \<notin> insert p ?Y \<longrightarrow> heads_apart ms {q} \<longrightarrow>
         id_links (ms\<lparr>id_hash := hl'\<rparr>) q = id_links (ms\<lparr>id_hash := hl\<rparr>) q"
    by auto
  have "insert p ?Y = set (ys @ p # zs)" by auto
  with hl hl' show ?thesis by auto
qed

lemma replace_in_set_exchange:
  assumes inv: "set_inv h ms (ys @ x # zs)" and p: "slot_ok h p" "p \<notin> set (ys @ x # zs)"
    "gbase h p = gbase h x" "gend h p = gend h x" "sid_of h p \<notin> sid_of h ` set (ys @ zs)" "links_ready ms p"
  shows "\<exists>ms'. replace_in_set h ms x p = Some ms' \<and> set_inv h ms' (ys @ p # zs) \<and>
     keeps_links (insert p (set (ys @ x # zs))) ms ms'"
proof -
  let ?X = "set (ys @ x # zs)" and ?Y = "set (ys @ zs)" and ?idx = "node_idx ms"
  have t: "tree_ok h ms (ys @ x # zs)" "heads_apart ms ?X" using inv by (simp_all add: set_inv_def)
  have x: "slot_ok h x" using t(1) by (simp add: tree_ok_def)
  obtain xl where xl: "slot_load h x = Some xl" "gbase h x = unat (base_gfn xl)" using x by (rule slot_okD)
  obtain pl where pl: "slot_load h p = Some pl" "gbase h p = unat (base_gfn pl)" "sid_of h p = ucast (slot_id pl)"
    using p(1) by (rule slot_okD)
  have nz: "x \<noteq> 0" "p \<noteq> 0" using x p(1) by (auto simp: slot_ok_def)
  have same: "base_gfn xl = base_gfn pl" using xl pl p(3) by (simp add: word_unat_eq_iff)
  from rehash_correct [OF inv p(1,2,5,6)] obtain hl hl' where
    hl: "hash_del (id_hash ms) (id_node ?idx x) = Some hl"
      "hash_add hl (id_hash_addr ms) 128 (id_node ?idx p) (sid_of h p) = Some hl'"
      "table_ok h (ms\<lparr>id_hash := hl'\<rparr>) (set (ys @ p # zs))"
      "\<forall>q. q \<notin> insert p ?X \<longrightarrow> heads_apart ms {q} \<longrightarrow> id_links (ms\<lparr>id_hash := hl'\<rparr>) q = id_links ms q"
    by blast
  define m where "m = (if last_used_slot ms = x then ms\<lparr>last_used_slot := p, id_hash := hl'\<rparr> else ms\<lparr>id_hash := hl'\<rparr>)"
  have m: "gfn_tree m = gfn_tree ms" "node_idx m = ?idx" "id_hash_addr m = id_hash_addr ms" "generation m = generation ms"
    "table_ok h m (set (ys @ p # zs))" "heads_apart m = heads_apart ms" "last_used_slot m \<in> insert 0 (set (ys @ p # zs))"
    "id_links m = id_links (ms\<lparr>id_hash := hl'\<rparr>)"
    using hl(3) inv by (auto simp: m_def set_inv_def fun_eq_iff heads_apart_def id_links_def)
  have tm: "tree_ok h m (ys @ x # zs)" using t(1) by (simp add: m_def)
  have "rb_mapped (gfn_tree m) (gfn_node (node_idx m) p)" using p(6) m by (simp add: links_ready_def)
  from kvm_replace_gfn_node_correct [OF tm p(1,2) this p(3,4)] obtain t' where
    t': "kvm_replace_gfn_node m x p = Some (m\<lparr>gfn_tree := t'\<rparr>)" "tree_ok h (m\<lparr>gfn_tree := t'\<rparr>) (ys @ p # zs)"
      "\<forall>q. q \<notin> insert p ?X \<longrightarrow> rb_mapped t' (gfn_node ?idx q) = rb_mapped (gfn_tree ms) (gfn_node ?idx q)"
    using m by auto
  have "replace_in_set h ms x p = Some (m\<lparr>gfn_tree := t'\<rparr>)"
    using hl(1,2) t'(1) nz xl pl same by (simp add: replace_in_set_def m_def split: if_splits)
  moreover have "set_inv h (m\<lparr>gfn_tree := t'\<rparr>) (ys @ p # zs)"
  proof -
    have "heads_apart ms (set (ys @ p # zs))"
      using heads_apart_insert [of ms p ?Y] heads_apart_mono [OF t(2), of ?Y] p(6)
      by (auto simp: links_ready_def)
    moreover have "inj_on (sid_of h) (set (ys @ p # zs))"
      using inv p(5) by (auto simp: set_inv_def inj_on_Un)
    ultimately show ?thesis using t'(2) m by (simp add: set_inv_def)
  qed
  moreover have "keeps_links (insert p ?X) ms (m\<lparr>gfn_tree := t'\<rparr>)"
    using hl(4) t'(3) m by (simp add: keeps_links_def links_ready_def)
  ultimately show ?thesis by blast
qed

end
