(* ===== verification/Page_Size.thy ===== *)
theory Page_Size
  imports Svmx_Prelude
begin

text \<open>
  Page sizes and page-table indices: the macros of \<^verbatim>\<open>kvm_host.h\<close> and \<^verbatim>\<open>mmu_internal.h\<close>, at the
  widths the Windows ABI gives them.
\<close>

section \<open>Page-size arithmetic\<close>

text \<open>\<^verbatim>\<open>1UL\<close> has 32 bits in this ABI; the processor takes the shift count modulo 32.\<close>

definition KVM_HPAGE_GFN_SHIFT :: "nat \<Rightarrow> nat" where "KVM_HPAGE_GFN_SHIFT level = (level - 1) * 9"
definition KVM_HPAGE_SHIFT :: "nat \<Rightarrow> nat" where "KVM_HPAGE_SHIFT level = PAGE_SHIFT + KVM_HPAGE_GFN_SHIFT level"
definition KVM_HPAGE_SIZE :: "nat \<Rightarrow> u32" where "KVM_HPAGE_SIZE level = push_bit (KVM_HPAGE_SHIFT level mod 32) 1"
definition KVM_PAGES_PER_HPAGE :: "nat \<Rightarrow> u32" where "KVM_PAGES_PER_HPAGE level = KVM_HPAGE_SIZE level div 4096"

text \<open>
  \<^verbatim>\<open>gfn & -KVM_PAGES_PER_HPAGE(level)\<close>: the negation is done in 32 bits and zero-extended.
\<close>

definition gfn_round_for_level :: "gfn_t \<Rightarrow> nat \<Rightarrow> gfn_t" where
  "gfn_round_for_level gfn level = gfn AND ucast (- KVM_PAGES_PER_HPAGE level)"

definition PT_LEVEL_SHIFT :: "nat \<Rightarrow> nat" where "PT_LEVEL_SHIFT level = PAGE_SHIFT + (level - 1) * 9"

abbreviation SPTE_ENT_PER_PAGE :: u64 where "SPTE_ENT_PER_PAGE \<equiv> 512"

definition SPTE_INDEX :: "u64 \<Rightarrow> nat \<Rightarrow> u64" where
  "SPTE_INDEX address level = drop_bit (PT_LEVEL_SHIFT level) address AND (SPTE_ENT_PER_PAGE - 1)"

section \<open>Values\<close>

lemma pages_per_hpage:
  "KVM_PAGES_PER_HPAGE 1 = 1" "KVM_PAGES_PER_HPAGE 2 = 512" "KVM_PAGES_PER_HPAGE 3 = 262144"
  "KVM_PAGES_PER_HPAGE 4 = 0"
  by (simp_all add: KVM_PAGES_PER_HPAGE_def KVM_HPAGE_SIZE_def KVM_HPAGE_SHIFT_def KVM_HPAGE_GFN_SHIFT_def)

lemma level_cases: "0 < level \<Longrightarrow> level < 4 \<Longrightarrow> level = 1 \<or> level = 2 \<or> level = 3" for level :: nat
  by auto

text \<open>Below 16 TiB and up to level 3 the rounding clears the low bits; at level 4 it clears all.\<close>

lemma bit_round:
  assumes "0 < level" "level < 4" "gfn < 2 ^ 32"
  shows "bit (gfn_round_for_level gfn level) n \<longleftrightarrow> 9 * (level - 1) \<le> n \<and> bit gfn n"
proof -
  have hi: "n < 32" if "bit gfn n" using bit_above_less [OF assms(3), of n] that by force
  have m: "bit (- (2 ^ k) :: u32) n \<longleftrightarrow> k \<le> n \<and> n < 32" for k n
    by (auto simp: minus_exp_eq_not_mask bit_not_iff bit_mask_iff)
  have "- KVM_PAGES_PER_HPAGE level = - (2 ^ (9 * (level - 1)))"
    using level_cases [OF assms(1,2)] pages_per_hpage by (elim disjE) simp_all
  then show ?thesis
    using hi by (auto simp: gfn_round_for_level_def bit_and_iff bit_unsigned_iff m)
qed

lemma round_level_4: "gfn_round_for_level gfn 4 = 0"
  by (simp add: gfn_round_for_level_def pages_per_hpage)

lemma drop_bit_round:
  assumes "0 < level" "level < 4" "gfn < 2 ^ 32"
  shows "drop_bit (9 * (level - 1)) (gfn_round_for_level gfn level) = drop_bit (9 * (level - 1)) gfn"
  by (rule bit_eqI) (auto simp: bit_drop_bit_eq bit_round [OF assms])

lemma round_le: "gfn_round_for_level gfn level \<le> gfn"
  unfolding gfn_round_for_level_def by (rule word_and_le2)

text \<open>One step to the side lands beyond the frame the walk is for.\<close>

lemma round_step:
  assumes "0 < level" "level < 4" "gfn < 2 ^ 32"
  shows "gfn < gfn_round_for_level gfn level + ucast (KVM_PAGES_PER_HPAGE level)"
proof -
  let ?s = "9 * (level - 1)" and ?r = "gfn_round_for_level gfn level"
  have s: "?s < 32" using assms(1,2) by simp
  have disj: "?r AND take_bit ?s gfn = 0"
    by (rule bit_eqI) (auto simp: bit_and_iff bit_take_bit_iff bit_round [OF assms])
  have split: "gfn = ?r + take_bit ?s gfn"
    unfolding add_eq_or [OF disj]
    by (rule bit_eqI) (auto simp: bit_or_iff bit_take_bit_iff bit_round [OF assms])
  have g: "unat gfn < 2 ^ 32" using assms(3) by (simp add: word_less_nat_alt)
  have r: "unat ?r \<le> unat gfn" using round_le [of gfn level] by (simp add: word_le_nat_alt)
  have t: "unat (take_bit ?s gfn) < 2 ^ ?s" by (simp add: unsigned_take_bit_eq)
  have p: "unat (ucast (KVM_PAGES_PER_HPAGE level) :: u64) = 2 ^ ?s"
    using level_cases [OF assms(1,2)] pages_per_hpage by (elim disjE) simp_all
  have le: "(2 :: nat) ^ ?s \<le> 2 ^ 32" using s by (intro power_increasing) simp_all
  have "unat gfn \<le> unat ?r + unat (take_bit ?s gfn)"
    using split by (metis unat_word_ariths(1) mod_less_eq_dividend)
  also have "\<dots> < unat ?r + 2 ^ ?s" using t by simp
  also have "\<dots> = unat (?r + ucast (KVM_PAGES_PER_HPAGE level))"
    using unat_add_lem [of ?r "ucast (KVM_PAGES_PER_HPAGE level)"] g r le p by simp
  finally show ?thesis by (simp add: word_less_nat_alt)
qed

lemma index_round:
  assumes "0 < level" "level < 4" "gfn < 2 ^ 32"
  shows "SPTE_INDEX (push_bit PAGE_SHIFT (gfn_round_for_level gfn level)) level = SPTE_INDEX (push_bit PAGE_SHIFT gfn) level"
proof -
  have e: "drop_bit (PT_LEVEL_SHIFT level) (push_bit PAGE_SHIFT x) = drop_bit (9 * (level - 1)) x" if "x < 2 ^ 32" for x :: u64
  proof (rule bit_eqI)
    fix n
    have "n < 52" if "bit x n" for n using bit_above_less [OF \<open>x < 2 ^ 32\<close>, of n] that by force
    then show "bit (drop_bit (PT_LEVEL_SHIFT level) (push_bit PAGE_SHIFT x)) n = bit (drop_bit (9 * (level - 1)) x) n"
      by (auto simp: bit_drop_bit_eq bit_push_bit_iff PT_LEVEL_SHIFT_def mult.commute add.assoc)
  qed
  have "gfn_round_for_level gfn level < 2 ^ 32" using round_le [of gfn level] assms(3) by (rule le_less_trans)
  then show ?thesis unfolding SPTE_INDEX_def using e assms drop_bit_round by simp
qed

end
