(* ===== verification/Memory_Region.thy ===== *)
theory Memory_Region
  imports Memslots_Update Page_Size
begin

text \<open>
  Setting a guest memory region: \<^verbatim>\<open>__kvm_set_memory_region\<close> and the functions below it in
  \<^verbatim>\<open>src/svmx/kvm_main.c\<close>, with the architecture hooks of \<^verbatim>\<open>src/svmx/x86.c\<close>. A virtual machine has
  two slot sets; a change is made to the inactive one, the sets are swapped, and the change is
  repeated on the set that has become inactive.

  The pool allocator is the environment's: \<open>pool_alloc\<close> answers the \<open>n\<close>-th request of a given
  size with an address or NULL, and \<open>junk_*\<close> is what a fresh block contains. Freeing NULL is a
  bug check. A freed slot is unmapped, so a later access to it has no result. The mutexes are
  their recursion counts; releasing one that is not held has no result.
\<close>

section \<open>State\<close>

record mmu_pages =
  n_requested_mmu_pages :: u64
  n_used_mmu_pages :: u64
  n_max_mmu_pages :: u64

record kvm_env =
  pool_alloc :: "nat \<Rightarrow> u64 \<Rightarrow> u64"
  junk_slot :: kvm_memory_slot
  junk_rb :: rb_node
  junk_next :: u64
  junk_pprev :: u64
  junk_lpage :: "u64 \<Rightarrow> u32"
  tdp_enabled :: bool
  tdp_mmu_enabled :: bool
  shadow_phys_bits :: nat
  zap_oldest_mmu_pages :: "mmu_pages \<Rightarrow> u64 \<Rightarrow> mmu_pages option"

record kvm =
  memslot_sets :: "nat \<Rightarrow> kvm_memslots"
  active_set :: nat
  slots :: slot_heap
  lpage_heap :: "u64 \<rightharpoonup> u64 \<times> (u64 \<Rightarrow> u32)"
  nr_memslot_pages :: u64
  mmu_pages_of :: mmu_pages
  nalloc :: nat
  freed :: "u64 list"
  slots_lock :: nat
  slots_arch_lock :: nat

datatype kvm_mr_change = KVM_MR_CREATE | KVM_MR_DELETE | KVM_MR_MOVE | KVM_MR_FLAGS_ONLY

record kvm_userspace_memory_region =
  mem_slot :: u32
  mem_flags :: u32
  guest_phys_addr :: u64
  memory_size :: u64

section \<open>Locks and pool\<close>

definition lock_arch :: "kvm \<Rightarrow> kvm" where
  "lock_arch k = k\<lparr>slots_arch_lock := Suc (slots_arch_lock k)\<rparr>"

definition unlock_arch :: "kvm \<Rightarrow> kvm option" where
  "unlock_arch k = (if slots_arch_lock k = 0 then None else Some (k\<lparr>slots_arch_lock := slots_arch_lock k - 1\<rparr>))"

definition ExAllocatePool :: "kvm_env \<Rightarrow> kvm \<Rightarrow> u64 \<Rightarrow> u64 \<times> kvm" where
  "ExAllocatePool e k bytes = (pool_alloc e (nalloc k) bytes, k\<lparr>nalloc := Suc (nalloc k)\<rparr>)"

definition map_links :: "kvm_env \<Rightarrow> u64 \<Rightarrow> kvm_memslots \<Rightarrow> kvm_memslots" where
  "map_links e p ms = ms\<lparr>
     gfn_tree := (gfn_tree ms)\<lparr>rb_mem := (rb_mem (gfn_tree ms))(gfn_node (node_idx ms) p \<mapsto> junk_rb e)\<rparr>,
     id_hash := (id_hash ms)\<lparr>
       hl_cell := (hl_cell (id_hash ms))(id_node (node_idx ms) p \<mapsto> junk_next e),
       hl_pprev := (hl_pprev (id_hash ms))(id_node (node_idx ms) p \<mapsto> junk_pprev e)\<rparr>\<rparr>"

definition unmap_links :: "u64 \<Rightarrow> kvm_memslots \<Rightarrow> kvm_memslots" where
  "unmap_links p ms = ms\<lparr>
     gfn_tree := (gfn_tree ms)\<lparr>rb_mem := (rb_mem (gfn_tree ms))(gfn_node (node_idx ms) p := None)\<rparr>,
     id_hash := (id_hash ms)\<lparr>
       hl_cell := (hl_cell (id_hash ms))(id_node (node_idx ms) p := None),
       hl_pprev := (hl_pprev (id_hash ms))(id_node (node_idx ms) p := None)\<rparr>\<rparr>"

definition alloc_slot :: "kvm_env \<Rightarrow> kvm \<Rightarrow> u64 \<times> kvm" where
  "alloc_slot e k = (let (p, k) = ExAllocatePool e k 160 in
     if p = 0 then (0, k)
     else (p, k\<lparr>slots := (slots k)(p \<mapsto> junk_slot e),
                memslot_sets := (\<lambda>i. map_links e p (memslot_sets k i))\<rparr>))"

definition ExFreePool :: "kvm \<Rightarrow> u64 \<Rightarrow> kvm option" where
  "ExFreePool k p = (if p = 0 then None else Some (k\<lparr>freed := p # freed k\<rparr>))"

definition free_slot :: "kvm \<Rightarrow> u64 \<Rightarrow> kvm option" where
  "free_slot k p = do {
     k \<leftarrow> ExFreePool k p;
     Some (k\<lparr>slots := (slots k)(p := None), memslot_sets := (\<lambda>i. unmap_links p (memslot_sets k i))\<rparr>)
   }"

definition upd_slot :: "kvm \<Rightarrow> u64 \<Rightarrow> (kvm_memory_slot \<Rightarrow> kvm_memory_slot) \<Rightarrow> kvm option" where
  "upd_slot k p f = do {
     sl \<leftarrow> slot_load (slots k) p;
     Some (k\<lparr>slots := (slots k)(p \<mapsto> f sl)\<rparr>)
   }"

section \<open>Frame indices\<close>

definition gfn_to_index :: "gfn_t \<Rightarrow> gfn_t \<Rightarrow> nat \<Rightarrow> u64" where
  "gfn_to_index gfn base level =
     drop_bit (KVM_HPAGE_GFN_SHIFT level) gfn - drop_bit (KVM_HPAGE_GFN_SHIFT level) base"

definition raw_kvm_mmu_slot_lpages :: "kvm_memory_slot \<Rightarrow> u64 \<Rightarrow> nat \<Rightarrow> u64" where
  "raw_kvm_mmu_slot_lpages sl np level = gfn_to_index (base_gfn sl + np - 1) (base_gfn sl) level + 1"

definition kvm_mmu_max_gfn :: "kvm_env \<Rightarrow> gfn_t" where
  "kvm_mmu_max_gfn e = push_bit ((if tdp_enabled e then shadow_phys_bits e else 52) - PAGE_SHIFT) 1 - 1"

definition kvm_shadow_root_allocated :: "kvm \<Rightarrow> bool" where "kvm_shadow_root_allocated k = False"

definition kvm_memslots_have_rmaps :: "kvm_env \<Rightarrow> kvm \<Rightarrow> bool" where
  "kvm_memslots_have_rmaps e k \<longleftrightarrow> \<not> tdp_mmu_enabled e \<or> kvm_shadow_root_allocated k"

section \<open>Architecture hooks\<close>

primrec rmap_free_loop :: "nat \<Rightarrow> nat \<Rightarrow> kvm \<Rightarrow> u64 \<Rightarrow> kvm option" where
  "rmap_free_loop 0 i k p = Some k"
| "rmap_free_loop (Suc n) i k p = do {
     sl \<leftarrow> slot_load (slots k) p;
     k \<leftarrow> ExFreePool k (rmap (slot_arch sl) ! i);
     k \<leftarrow> upd_slot k p (\<lambda>sl. sl\<lparr>slot_arch := (slot_arch sl)\<lparr>rmap := (rmap (slot_arch sl))[i := 0]\<rparr>\<rparr>);
     rmap_free_loop n (Suc i) k p
   }"

definition memslot_rmap_free :: "kvm \<Rightarrow> u64 \<Rightarrow> kvm option" where
  "memslot_rmap_free k p = rmap_free_loop 3 0 k p"

primrec rmap_alloc_loop :: "nat \<Rightarrow> nat \<Rightarrow> kvm_env \<Rightarrow> kvm \<Rightarrow> u64 \<Rightarrow> u64 \<Rightarrow> (int \<times> kvm) option" where
  "rmap_alloc_loop 0 i e k p np = Some (STATUS_SUCCESS, k)"
| "rmap_alloc_loop (Suc n) i e k p np = do {
     sl \<leftarrow> slot_load (slots k) p;
     let lpages = raw_kvm_mmu_slot_lpages sl np (i + 1);
     if rmap (slot_arch sl) ! i \<noteq> 0 then rmap_alloc_loop n (Suc i) e k p np
     else do {
       let (a, k) = ExAllocatePool e k (lpages * 8);
       k \<leftarrow> upd_slot k p (\<lambda>sl. sl\<lparr>slot_arch := (slot_arch sl)\<lparr>rmap := (rmap (slot_arch sl))[i := a]\<rparr>\<rparr>);
       if a = 0 then do {
         k \<leftarrow> memslot_rmap_free k p;
         Some (STATUS_NO_MEMORY, k)
       }
       else rmap_alloc_loop n (Suc i) e k p np
     }
   }"

definition memslot_rmap_alloc :: "kvm_env \<Rightarrow> kvm \<Rightarrow> u64 \<Rightarrow> u64 \<Rightarrow> (int \<times> kvm) option" where
  "memslot_rmap_alloc e k p np = rmap_alloc_loop 3 0 e k p np"

primrec lpage_free_loop :: "nat \<Rightarrow> nat \<Rightarrow> kvm \<Rightarrow> u64 \<Rightarrow> kvm option" where
  "lpage_free_loop 0 i k p = Some k"
| "lpage_free_loop (Suc n) i k p = do {
     sl \<leftarrow> slot_load (slots k) p;
     k \<leftarrow> ExFreePool k (lpage_info (slot_arch sl) ! (i - 1));
     k \<leftarrow> upd_slot k p (\<lambda>sl. sl\<lparr>slot_arch := (slot_arch sl)\<lparr>lpage_info := (lpage_info (slot_arch sl))[i - 1 := 0]\<rparr>\<rparr>);
     lpage_free_loop n (Suc i) k p
   }"

definition kvm_arch_free_memslot :: "kvm \<Rightarrow> u64 \<Rightarrow> kvm option" where
  "kvm_arch_free_memslot k p = do {
     k \<leftarrow> memslot_rmap_free k p;
     lpage_free_loop 2 1 k p
   }"

definition set_lpage :: "kvm \<Rightarrow> u64 \<Rightarrow> u64 \<Rightarrow> kvm option" where
  "set_lpage k a idx = do {
     (n, f) \<leftarrow> lpage_heap k a;
     if idx < n then Some (k\<lparr>lpage_heap := (lpage_heap k)(a \<mapsto> (n, f(idx := 1)))\<rparr>) else None
   }"

text \<open>One round of the large-page loop; the flag is false where the code goes to \<^verbatim>\<open>out_free\<close>.\<close>

definition lpage_round :: "kvm_env \<Rightarrow> kvm \<Rightarrow> u64 \<Rightarrow> u64 \<Rightarrow> nat \<Rightarrow> (bool \<times> kvm) option" where
  "lpage_round e k p np i = do {
     let level = i + 1;
     sl \<leftarrow> slot_load (slots k) p;
     let lpages = raw_kvm_mmu_slot_lpages sl np level;
     let (linfo, k) = ExAllocatePool e k (lpages * 4);
     if linfo = 0 then Some (False, k)
     else do {
       let k = k\<lparr>lpage_heap := (lpage_heap k)(linfo \<mapsto> (lpages, junk_lpage e))\<rparr>;
       k \<leftarrow> upd_slot k p (\<lambda>sl. sl\<lparr>slot_arch := (slot_arch sl)\<lparr>lpage_info := (lpage_info (slot_arch sl))[i - 1 := linfo]\<rparr>\<rparr>);
       let mask = ucast (KVM_PAGES_PER_HPAGE level - 1);
       k \<leftarrow> (if base_gfn sl AND mask \<noteq> 0 then set_lpage k linfo 0 else Some k);
       k \<leftarrow> (if (base_gfn sl + np) AND mask \<noteq> 0 then set_lpage k linfo (lpages - 1) else Some k);
       Some (True, k)
     }
   }"

definition kvm_page_track_create_memslot :: "kvm \<Rightarrow> u64 \<Rightarrow> u64 \<Rightarrow> int" where
  "kvm_page_track_create_memslot k p np = 0"

definition metadata_out_free :: "kvm \<Rightarrow> u64 \<Rightarrow> (int \<times> kvm) option" where
  "metadata_out_free k p = do {
     k \<leftarrow> memslot_rmap_free k p;
     k \<leftarrow> lpage_free_loop 2 1 k p;
     Some (STATUS_NO_MEMORY, k)
   }"

definition kvm_alloc_memslot_metadata :: "kvm_env \<Rightarrow> kvm \<Rightarrow> u64 \<Rightarrow> (int \<times> kvm) option" where
  "kvm_alloc_memslot_metadata e k p = do {
     sl \<leftarrow> slot_load (slots k) p;
     let np = npages sl;
     k \<leftarrow> upd_slot k p (\<lambda>sl. sl\<lparr>slot_arch := \<lparr>rmap = [0, 0, 0], lpage_info = [0, 0], gfn_track = [0]\<rparr>\<rparr>);
     (r, k) \<leftarrow> (if kvm_memslots_have_rmaps e k then memslot_rmap_alloc e k p np else Some (0, k));
     if r \<noteq> 0 then Some (r, k)
     else do {
       (ok, k) \<leftarrow> lpage_round e k p np 1;
       if \<not> ok then metadata_out_free k p
       else do {
         (ok, k) \<leftarrow> lpage_round e k p np 2;
         if \<not> ok then metadata_out_free k p
         else if kvm_page_track_create_memslot k p np \<noteq> 0 then metadata_out_free k p
         else Some (STATUS_SUCCESS, k)
       }
     }
   }"

definition kvm_arch_prepare_memory_region ::
  "kvm_env \<Rightarrow> kvm \<Rightarrow> u64 \<Rightarrow> u64 \<Rightarrow> kvm_mr_change \<Rightarrow> (int \<times> kvm) option" where
  "kvm_arch_prepare_memory_region e k old new change =
     (if change = KVM_MR_CREATE \<or> change = KVM_MR_MOVE then do {
        sl \<leftarrow> slot_load (slots k) new;
        if kvm_mmu_max_gfn e < base_gfn sl + npages sl - 1 then Some (STATUS_INVALID_PARAMETER, k)
        else kvm_alloc_memslot_metadata e k new
      }
      else if change = KVM_MR_FLAGS_ONLY then do {
        osl \<leftarrow> slot_load (slots k) old;
        k \<leftarrow> upd_slot k new (\<lambda>sl. sl\<lparr>slot_arch := slot_arch osl\<rparr>);
        Some (STATUS_SUCCESS, k)
      }
      else Some (STATUS_SUCCESS, k))"

definition kvm_mmu_change_mmu_pages :: "kvm_env \<Rightarrow> kvm \<Rightarrow> u64 \<Rightarrow> kvm option" where
  "kvm_mmu_change_mmu_pages e k goal = do {
     let mp = mmu_pages_of k;
     (mp, goal) \<leftarrow>
       (if goal < n_used_mmu_pages mp then do {
          mp \<leftarrow> zap_oldest_mmu_pages e mp (n_used_mmu_pages mp - goal);
          Some (mp, n_used_mmu_pages mp)
        }
        else Some (mp, goal));
     Some (k\<lparr>mmu_pages_of := mp\<lparr>n_max_mmu_pages := goal\<rparr>\<rparr>)
   }"

text \<open>Both branches on the dirty-logging flag are empty in the code.\<close>

definition kvm_mmu_slot_apply_flags :: "kvm \<Rightarrow> u64 \<Rightarrow> u64 \<Rightarrow> kvm_mr_change \<Rightarrow> kvm option" where
  "kvm_mmu_slot_apply_flags k old new change = do {
     new_flags \<leftarrow> (if new = 0 then Some 0 else do { sl \<leftarrow> slot_load (slots k) new; Some (slot_flags sl) });
     if change \<noteq> KVM_MR_FLAGS_ONLY \<or> new_flags AND KVM_MEM_READONLY \<noteq> 0 then Some k
     else if new_flags AND KVM_MEM_LOG_DIRTY_PAGES = 0 then Some k
     else Some k
   }"

definition kvm_arch_commit_memory_region ::
  "kvm_env \<Rightarrow> kvm \<Rightarrow> u64 \<Rightarrow> u64 \<Rightarrow> kvm_mr_change \<Rightarrow> kvm option" where
  "kvm_arch_commit_memory_region e k old new change = do {
     k \<leftarrow> (if n_requested_mmu_pages (mmu_pages_of k) = 0 \<and> (change = KVM_MR_CREATE \<or> change = KVM_MR_DELETE)
          then kvm_mmu_change_mmu_pages e k (max (nr_memslot_pages k div 50) 64)
          else Some k);
     k \<leftarrow> kvm_mmu_slot_apply_flags k old new change;
     if change = KVM_MR_MOVE then kvm_arch_free_memslot k old else Some k
   }"

section \<open>Swapping the slot sets\<close>

definition raw_kvm_memslots :: "kvm \<Rightarrow> nat \<Rightarrow> nat option" where
  "raw_kvm_memslots k as_id = (if as_id < KVM_ADDRESS_SPACE_NUM then Some (active_set k) else None)"

definition kvm_get_inactive_memslots :: "kvm \<Rightarrow> nat \<Rightarrow> nat option" where
  "kvm_get_inactive_memslots k as_id = do {
     a \<leftarrow> raw_kvm_memslots k as_id;
     let i = node_idx (memslot_sets k a) XOR 1;
     if i < 2 then Some i else None
   }"

definition kvm_memslots_get_as_id :: "kvm \<Rightarrow> u64 \<Rightarrow> u64 \<Rightarrow> nat option" where
  "kvm_memslots_get_as_id k a b =
     (if a = 0 \<and> b = 0 then Some 0
      else do {
        sl \<leftarrow> slot_load (slots k) (if a = 0 then b else a);
        Some (unat (slot_as_id sl))
      })"

definition kvm_replace_memslot :: "kvm \<Rightarrow> u64 \<Rightarrow> u64 \<Rightarrow> kvm option" where
  "kvm_replace_memslot k old new = do {
     as_id \<leftarrow> kvm_memslots_get_as_id k old new;
     i \<leftarrow> kvm_get_inactive_memslots k as_id;
     ms \<leftarrow> replace_in_set (slots k) (memslot_sets k i) old new;
     Some (k\<lparr>memslot_sets := (memslot_sets k)(i := ms)\<rparr>)
   }"

definition set_generation :: "kvm \<Rightarrow> nat \<Rightarrow> u64 \<Rightarrow> kvm" where
  "set_generation k i g = k\<lparr>memslot_sets := (memslot_sets k)(i := (memslot_sets k i)\<lparr>generation := g\<rparr>)\<rparr>"

definition kvm_arch_memslots_updated :: "kvm \<Rightarrow> u64 \<Rightarrow> kvm" where
  "kvm_arch_memslots_updated k gen = k"

definition kvm_swap_active_memslots :: "kvm \<Rightarrow> nat \<Rightarrow> kvm option" where
  "kvm_swap_active_memslots k as_id = do {
     i \<leftarrow> kvm_get_inactive_memslots k as_id;
     a \<leftarrow> raw_kvm_memslots k as_id;
     let gen = generation (memslot_sets k a);
     let k = set_generation k i (gen OR KVM_MEMSLOT_GEN_UPDATE_IN_PROGRESS);
     let k = k\<lparr>active_set := i\<rparr>;
     k \<leftarrow> unlock_arch k;
     let gen = generation (memslot_sets k i) AND NOT KVM_MEMSLOT_GEN_UPDATE_IN_PROGRESS;
     let gen = gen + of_nat KVM_ADDRESS_SPACE_NUM;
     let k = kvm_arch_memslots_updated k gen;
     Some (set_generation k i gen)
   }"

definition kvm_activate_memslot :: "kvm \<Rightarrow> u64 \<Rightarrow> u64 \<Rightarrow> kvm option" where
  "kvm_activate_memslot k old new = do {
     as_id \<leftarrow> kvm_memslots_get_as_id k old new;
     k \<leftarrow> kvm_swap_active_memslots k as_id;
     kvm_replace_memslot k old new
   }"

definition kvm_create_memslot :: "kvm \<Rightarrow> u64 \<Rightarrow> kvm option" where
  "kvm_create_memslot k new = do {
     k \<leftarrow> kvm_replace_memslot k 0 new;
     kvm_activate_memslot k 0 new
   }"

definition kvm_move_memslot :: "kvm \<Rightarrow> u64 \<Rightarrow> u64 \<Rightarrow> u64 \<Rightarrow> kvm option" where
  "kvm_move_memslot k old new invalid_slot = do {
     k \<leftarrow> kvm_replace_memslot k old new;
     kvm_activate_memslot k invalid_slot new
   }"

definition kvm_delete_memslot :: "kvm \<Rightarrow> u64 \<Rightarrow> u64 \<Rightarrow> kvm option" where
  "kvm_delete_memslot k old invalid_slot = do {
     k \<leftarrow> kvm_replace_memslot k old 0;
     kvm_activate_memslot k invalid_slot 0
   }"

definition kvm_update_flags_memslot :: "kvm \<Rightarrow> u64 \<Rightarrow> u64 \<Rightarrow> kvm option" where
  "kvm_update_flags_memslot k old new = do {
     k \<leftarrow> kvm_replace_memslot k old new;
     kvm_activate_memslot k old new
   }"

section \<open>Preparing and committing a change\<close>

definition kvm_invalidate_memslot :: "kvm \<Rightarrow> u64 \<Rightarrow> u64 \<Rightarrow> kvm option" where
  "kvm_invalidate_memslot k old invalid_slot = do {
     isl \<leftarrow> slot_load (slots k) invalid_slot;
     upd_slot k old (\<lambda>sl. sl\<lparr>slot_arch := slot_arch isl\<rparr>)
   }"

text \<open>\<^verbatim>\<open>ALIGN_UP(npages, ULONG_PTR) / 8\<close>: the macro works on a \<^verbatim>\<open>ULONG\<close> and rounds to a multiple of 8.\<close>

definition kvm_dirty_bitmap_bytes :: "kvm_memory_slot \<Rightarrow> u64" where
  "kvm_dirty_bitmap_bytes sl = (ucast ((ucast (npages sl) :: u32) + 7) AND NOT 7) div 8"

definition kvm_use_dirty_bitmap :: "kvm \<Rightarrow> bool" where "kvm_use_dirty_bitmap k = True"

definition kvm_alloc_dirty_bitmap :: "kvm_env \<Rightarrow> kvm \<Rightarrow> u64 \<Rightarrow> (int \<times> kvm) option" where
  "kvm_alloc_dirty_bitmap e k p = do {
     sl \<leftarrow> slot_load (slots k) p;
     let (b, k) = ExAllocatePool e k (2 * kvm_dirty_bitmap_bytes sl);
     k \<leftarrow> upd_slot k p (\<lambda>sl. sl\<lparr>dirty_bitmap := b\<rparr>);
     Some (if b = 0 then STATUS_NO_MEMORY else STATUS_SUCCESS, k)
   }"

definition kvm_destroy_dirty_bitmap :: "kvm \<Rightarrow> u64 \<Rightarrow> kvm option" where
  "kvm_destroy_dirty_bitmap k p = do {
     sl \<leftarrow> slot_load (slots k) p;
     if dirty_bitmap sl = 0 then Some k
     else do {
       k \<leftarrow> ExFreePool k (dirty_bitmap sl);
       upd_slot k p (\<lambda>sl. sl\<lparr>dirty_bitmap := 0\<rparr>)
     }
   }"

text \<open>\<open>old\<close> is NULL or has no dirty bitmap.\<close>

definition no_dirty_bitmap :: "kvm \<Rightarrow> u64 \<Rightarrow> bool option" where
  "no_dirty_bitmap k p = (if p = 0 then Some True else do {
     sl \<leftarrow> slot_load (slots k) p;
     Some (dirty_bitmap sl = 0)
   })"

definition prepare_bitmap :: "kvm_env \<Rightarrow> kvm \<Rightarrow> u64 \<Rightarrow> u64 \<Rightarrow> (int \<times> kvm) option" where
  "prepare_bitmap e k old new = do {
     sl \<leftarrow> slot_load (slots k) new;
     if slot_flags sl AND KVM_MEM_LOG_DIRTY_PAGES = 0 then do {
       k \<leftarrow> upd_slot k new (\<lambda>sl. sl\<lparr>dirty_bitmap := 0\<rparr>);
       Some (0, k)
     }
     else do {
       none \<leftarrow> no_dirty_bitmap k old;
       if \<not> none then do {
         osl \<leftarrow> slot_load (slots k) old;
         k \<leftarrow> upd_slot k new (\<lambda>sl. sl\<lparr>dirty_bitmap := dirty_bitmap osl\<rparr>);
         Some (0, k)
       }
       else if kvm_use_dirty_bitmap k then kvm_alloc_dirty_bitmap e k new
       else Some (0, k)
     }
   }"

definition kvm_prepare_memory_region ::
  "kvm_env \<Rightarrow> kvm \<Rightarrow> u64 \<Rightarrow> u64 \<Rightarrow> kvm_mr_change \<Rightarrow> (int \<times> kvm) option" where
  "kvm_prepare_memory_region e k old new change = do {
     (r, k) \<leftarrow> (if change \<noteq> KVM_MR_DELETE then prepare_bitmap e k old new else Some (0, k));
     if r \<noteq> 0 then Some (r, k)
     else do {
       (r, k) \<leftarrow> kvm_arch_prepare_memory_region e k old new change;
       if r \<noteq> 0 \<and> new \<noteq> 0 then do {
         nnone \<leftarrow> no_dirty_bitmap k new;
         if nnone then Some (r, k)
         else do {
           onone \<leftarrow> no_dirty_bitmap k old;
           k \<leftarrow> (if onone then kvm_destroy_dirty_bitmap k new else Some k);
           Some (r, k)
         }
       }
       else Some (r, k)
     }
   }"

definition kvm_free_memslot :: "kvm \<Rightarrow> u64 \<Rightarrow> kvm" where "kvm_free_memslot k p = k"

definition kvm_commit_memory_region ::
  "kvm_env \<Rightarrow> kvm \<Rightarrow> u64 \<Rightarrow> u64 \<Rightarrow> kvm_mr_change \<Rightarrow> kvm option" where
  "kvm_commit_memory_region e k old new change = do {
     k \<leftarrow> (case change of
         KVM_MR_DELETE \<Rightarrow> do {
           sl \<leftarrow> slot_load (slots k) old;
           Some (k\<lparr>nr_memslot_pages := nr_memslot_pages k - npages sl\<rparr>)
         }
       | KVM_MR_CREATE \<Rightarrow> do {
           sl \<leftarrow> slot_load (slots k) new;
           Some (k\<lparr>nr_memslot_pages := nr_memslot_pages k + npages sl\<rparr>)
         }
       | _ \<Rightarrow> Some k);
     k \<leftarrow> kvm_arch_commit_memory_region e k old new change;
     (case change of
        KVM_MR_CREATE \<Rightarrow> Some k
      | KVM_MR_DELETE \<Rightarrow> Some (kvm_free_memslot k old)
      | _ \<Rightarrow> do {
          osl \<leftarrow> slot_load (slots k) old;
          k \<leftarrow> (if dirty_bitmap osl \<noteq> 0 then do {
                 nsl \<leftarrow> slot_load (slots k) new;
                 if dirty_bitmap nsl = 0 then kvm_destroy_dirty_bitmap k old else Some k
               }
               else Some k);
          if old \<noteq> 0 then free_slot k old else Some k
        })
   }"

definition install_memslot ::
  "kvm \<Rightarrow> u64 \<Rightarrow> u64 \<Rightarrow> u64 \<Rightarrow> kvm_mr_change \<Rightarrow> kvm option" where
  "install_memslot k old new invalid_slot change = (case change of
      KVM_MR_CREATE \<Rightarrow> kvm_create_memslot k new
    | KVM_MR_DELETE \<Rightarrow> kvm_delete_memslot k old invalid_slot
    | KVM_MR_MOVE \<Rightarrow> kvm_move_memslot k old new invalid_slot
    | KVM_MR_FLAGS_ONLY \<Rightarrow> kvm_update_flags_memslot k old new)"

definition kvm_set_memslot ::
  "kvm_env \<Rightarrow> kvm \<Rightarrow> u64 \<Rightarrow> u64 \<Rightarrow> kvm_mr_change \<Rightarrow> (int \<times> kvm) option" where
  "kvm_set_memslot e k old new change = do {
     let k = lock_arch k;
     let invalidate = (change = KVM_MR_DELETE \<or> change = KVM_MR_MOVE);
     let (invalid_slot, k) = (if invalidate then alloc_slot e k else (0, k));
     if invalidate \<and> invalid_slot = 0 then do {
       k \<leftarrow> unlock_arch k;
       Some (STATUS_NO_MEMORY, k)
     }
     else do {
       k \<leftarrow> (if invalidate then kvm_invalidate_memslot k old invalid_slot else Some k);
       (r, k) \<leftarrow> kvm_prepare_memory_region e k old new change;
       if r \<noteq> 0 then do {
         k \<leftarrow> (if invalidate then Some k else unlock_arch k);
         Some (r, k)
       }
       else do {
         k \<leftarrow> install_memslot k old new invalid_slot change;
         k \<leftarrow> (if invalidate \<and> invalid_slot \<noteq> 0 then free_slot k invalid_slot else Some k);
         k \<leftarrow> kvm_commit_memory_region e k old new change;
         Some (0, k)
       }
     }
   }"

section \<open>The system call\<close>

definition check_memory_region_flags :: "kvm_userspace_memory_region \<Rightarrow> int" where
  "check_memory_region_flags mem =
     (let valid_flags = KVM_MEM_LOG_DIRTY_PAGES OR KVM_MEM_READONLY in
      if mem_flags mem AND NOT valid_flags \<noteq> 0 then STATUS_INVALID_PARAMETER else STATUS_SUCCESS)"

text \<open>The general sanity checks on the arguments, in the order of the code.\<close>

definition region_args_bad :: "kvm_userspace_memory_region \<Rightarrow> bool" where
  "region_args_bad mem \<longleftrightarrow>
     memory_size mem AND (PAGE_SIZE - 1) \<noteq> 0 \<or>
     guest_phys_addr mem AND (PAGE_SIZE - 1) \<noteq> 0 \<or>
     unat (ucast (drop_bit 16 (mem_slot mem)) :: u16) \<ge> KVM_ADDRESS_SPACE_NUM \<or>
     KVM_MEM_SLOTS_NUM \<le> ucast (mem_slot mem) \<or>
     guest_phys_addr mem + memory_size mem < guest_phys_addr mem \<or>
     KVM_MEM_MAX_NR_PAGES < drop_bit PAGE_SHIFT (memory_size mem)"

datatype region_plan = Refuse int | Nothing_to_do | Change kvm_mr_change

text \<open>What the request asks for, given the existing slot with that id (none, or its contents).\<close>

definition plan_region ::
  "kvm \<Rightarrow> kvm_userspace_memory_region \<Rightarrow> kvm_memory_slot option \<Rightarrow> region_plan" where
  "plan_region k mem old = (let
       base = drop_bit PAGE_SHIFT (guest_phys_addr mem);
       np = drop_bit PAGE_SHIFT (memory_size mem) in
     case (case old of Some o' \<Rightarrow> if npages o' = 0 then None else Some o' | None \<Rightarrow> None) of
       None \<Rightarrow> (if nr_memslot_pages k + np < nr_memslot_pages k then Refuse STATUS_INVALID_PARAMETER
                else Change KVM_MR_CREATE)
     | Some o' \<Rightarrow>
         if np \<noteq> npages o' \<or> (mem_flags mem XOR slot_flags o') AND KVM_MEM_READONLY \<noteq> 0
         then Refuse STATUS_INVALID_PARAMETER
         else if base \<noteq> base_gfn o' then Change KVM_MR_MOVE
         else if mem_flags mem \<noteq> slot_flags o' then Change KVM_MR_FLAGS_ONLY
         else Nothing_to_do)"

definition delete_region :: "kvm_env \<Rightarrow> kvm \<Rightarrow> u64 \<Rightarrow> kvm_memory_slot option \<Rightarrow> (int \<times> kvm) option" where
  "delete_region e k old osl = (case osl of
      None \<Rightarrow> Some (STATUS_INVALID_PARAMETER, k)
    | Some o' \<Rightarrow>
        if npages o' = 0 then Some (STATUS_INVALID_PARAMETER, k)
        else if nr_memslot_pages k < npages o' then Some (STATUS_UNSUCCESSFUL, k)
        else kvm_set_memslot e k old 0 KVM_MR_DELETE)"

definition install_region ::
  "kvm_env \<Rightarrow> kvm \<Rightarrow> kvm_userspace_memory_region \<Rightarrow> u64 \<Rightarrow> kvm_mr_change \<Rightarrow> (int \<times> kvm) option" where
  "install_region e k mem old change = do {
     let base = drop_bit PAGE_SHIFT (guest_phys_addr mem);
     let np = drop_bit PAGE_SHIFT (memory_size mem);
     let (new, k) = alloc_slot e k;
     if new = 0 then Some (STATUS_NO_MEMORY, k)
     else do {
       k \<leftarrow> upd_slot k new (\<lambda>sl. sl\<lparr>slot_as_id := ucast (drop_bit 16 (mem_slot mem)),
              slot_id := ucast (mem_slot mem), base_gfn := base, npages := np, slot_flags := mem_flags mem\<rparr>);
       (r, k) \<leftarrow> kvm_set_memslot e k old new change;
       k \<leftarrow> (if r \<noteq> 0 then free_slot k new else Some k);
       Some (r, k)
     }
   }"

definition raw_kvm_set_memory_region ::
  "kvm_env \<Rightarrow> kvm \<Rightarrow> kvm_userspace_memory_region \<Rightarrow> (int \<times> kvm) option" where
  "raw_kvm_set_memory_region e k mem =
     (if check_memory_region_flags mem \<noteq> 0 then Some (check_memory_region_flags mem, k)
      else if region_args_bad mem then Some (STATUS_INVALID_PARAMETER, k)
      else do {
        let as_id = unat (ucast (drop_bit 16 (mem_slot mem)) :: u16);
        let sid = (ucast (ucast (mem_slot mem) :: u16) :: u32);
        a \<leftarrow> raw_kvm_memslots k as_id;
        let ms = memslot_sets k a;
        old \<leftarrow> id_to_memslot (slots k) ms sid;
        osl \<leftarrow> (if old = 0 then Some None else do { sl \<leftarrow> slot_load (slots k) old; Some (Some sl) });
        if memory_size mem = 0 then delete_region e k old osl
        else (case plan_region k mem osl of
            Refuse r \<Rightarrow> Some (r, k)
          | Nothing_to_do \<Rightarrow> Some (0, k)
          | Change change \<Rightarrow> do {
              let base = drop_bit PAGE_SHIFT (guest_phys_addr mem);
              let np = drop_bit PAGE_SHIFT (memory_size mem);
              clash \<leftarrow> (if change = KVM_MR_CREATE \<or> change = KVM_MR_MOVE
                        then kvm_check_memslot_overlap (slots k) ms sid base (base + np) else Some False);
              if clash then Some (STATUS_ALREADY_COMMITTED, k)
              else install_region e k mem old change
            })
      })"

definition kvm_set_memory_region ::
  "kvm_env \<Rightarrow> kvm \<Rightarrow> kvm_userspace_memory_region \<Rightarrow> (int \<times> kvm) option" where
  "kvm_set_memory_region e k mem = do {
     let k = k\<lparr>slots_lock := Suc (slots_lock k)\<rparr>;
     (r, k) \<leftarrow> raw_kvm_set_memory_region e k mem;
     if slots_lock k = 0 then None else Some (r, k\<lparr>slots_lock := slots_lock k - 1\<rparr>)
   }"

definition kvm_vm_ioctl_set_memory_region ::
  "kvm_env \<Rightarrow> kvm \<Rightarrow> kvm_userspace_memory_region \<Rightarrow> (int \<times> kvm) option" where
  "kvm_vm_ioctl_set_memory_region e k mem =
     (if KVM_USER_MEM_SLOTS \<le> ucast (mem_slot mem) then Some (STATUS_INVALID_PARAMETER, k)
      else kvm_set_memory_region e k mem)"

text \<open>
  \<^verbatim>\<open>kvm_vm_ioctl\<close> registers every physical memory range of the host, as the operating system
  reports them (\<open>None\<close> when it reports none), in slots 0, 1, 2 and so on. The array ends at the
  first entry that is zero in both members. The result is that of the last range.
\<close>

fun set_ranges :: "kvm_env \<Rightarrow> kvm \<Rightarrow> u32 \<Rightarrow> int \<Rightarrow> (u64 \<times> u64) list \<Rightarrow> (int \<times> kvm) option" where
  "set_ranges e k runs r [] = Some (r, k)"
| "set_ranges e k runs r ((base, len) # rs) =
     (if base = 0 \<and> len = 0 then Some (r, k)
      else do {
        (r, k) \<leftarrow> kvm_vm_ioctl_set_memory_region e k
          \<lparr>mem_slot = runs, mem_flags = 0, guest_phys_addr = base, memory_size = len\<rparr>;
        set_ranges e k (runs + 1) r rs
      })"

definition kvm_vm_ioctl :: "kvm_env \<Rightarrow> kvm \<Rightarrow> bool \<Rightarrow> (u64 \<times> u64) list option \<Rightarrow> (int \<times> kvm) option" where
  "kvm_vm_ioctl e k set_user_memory_region ranges =
     (if \<not> set_user_memory_region then Some (0, k)
      else case ranges of
          None \<Rightarrow> Some (STATUS_UNSUCCESSFUL, k)
        | Some rs \<Rightarrow> set_ranges e k 0 0 rs)"

section \<open>Frame lookups on a virtual machine\<close>

definition gfn_to_memslot :: "kvm \<Rightarrow> gfn_t \<Rightarrow> (u64 \<times> kvm) option" where
  "gfn_to_memslot k gfn = do {
     a \<leftarrow> raw_kvm_memslots k 0;
     (slot, ms) \<leftarrow> raw_gfn_to_memslot (slots k) (memslot_sets k a) gfn False;
     Some (slot, k\<lparr>memslot_sets := (memslot_sets k)(a := ms)\<rparr>)
   }"

text \<open>
  \<open>writable\<close> is the out-parameter, \<open>None\<close> when the caller passes NULL. The frame number returned
  is the guest's: memory is mapped one to one.
\<close>

definition raw_gfn_to_pfn_memslot ::
  "slot_heap \<Rightarrow> u64 \<Rightarrow> gfn_t \<Rightarrow> bool option \<Rightarrow> (kvm_pfn_t \<times> bool option) option" where
  "raw_gfn_to_pfn_memslot h slot gfn writable = (case writable of
      None \<Rightarrow> Some (gfn, None)
    | Some w \<Rightarrow> do {
        ro \<leftarrow> memslot_is_readonly h slot;
        Some (gfn, Some (if ro then False else w))
      })"

definition gfn_to_pfn_prot ::
  "kvm \<Rightarrow> gfn_t \<Rightarrow> bool option \<Rightarrow> (kvm_pfn_t \<times> bool option \<times> kvm) option" where
  "gfn_to_pfn_prot k gfn writable = do {
     (slot, k) \<leftarrow> gfn_to_memslot k gfn;
     (pfn, w) \<leftarrow> raw_gfn_to_pfn_memslot (slots k) slot gfn writable;
     Some (pfn, w, k)
   }"

text \<open>The part of \<^verbatim>\<open>kvm_create_vm\<close> that sets up the slot sets.\<close>

definition init_memslots :: "kvm \<Rightarrow> kvm" where
  "init_memslots k = k\<lparr>
     memslot_sets := (\<lambda>j. if j < 2
        then (memslot_sets k j)\<lparr>gfn_tree := (gfn_tree (memslot_sets k j))\<lparr>rb_root := 0\<rparr>,
               node_idx := j, generation := 0\<rparr>
        else memslot_sets k j),
     active_set := 0\<rparr>"

end
