(* ===== verification/Memory_Region_Inv.thy ===== *)
theory Memory_Region_Inv
  imports Memory_Region
begin

text \<open>
  The invariant of a virtual machine's memory map: both slot sets are well formed and hold the
  same slots. Creating a slot and changing the flags of one keep it, and leave the other set
  active under the next generation.
\<close>

definition vm_inv :: "kvm \<Rightarrow> u64 list \<Rightarrow> bool" where
  "vm_inv k xs \<longleftrightarrow> active_set k < 2 \<and>
     (\<forall>i < 2. node_idx (memslot_sets k i) = i \<and> set_inv (slots k) (memslot_sets k i) xs) \<and>
     (\<forall>x \<in> set xs. \<exists>sl. slots k x = Some sl \<and> slot_as_id sl = 0)"

definition next_generation :: "u64 \<Rightarrow> u64" where
  "next_generation g = (g AND NOT KVM_MEMSLOT_GEN_UPDATE_IN_PROGRESS) + 1"

text \<open>
  Replacing in the inactive set, swapping, and replacing in the other set: the effect when both
  replacements succeed.
\<close>

lemma replace_and_activate:
  assumes a: "active_set k < 2" "\<And>i. i < 2 \<Longrightarrow> node_idx (memslot_sets k i) = i"
    and as: "kvm_memslots_get_as_id k old new = Some 0" and lock: "0 < slots_arch_lock k"
  defines "c \<equiv> 1 - active_set k"
  assumes m1: "replace_in_set (slots k) (memslot_sets k c) old new = Some m1" "node_idx m1 = c"
    and m0: "replace_in_set (slots k) (memslot_sets k (active_set k)) old new = Some m0"
  shows "(kvm_replace_memslot k old new \<bind> (\<lambda>k. kvm_activate_memslot k old new)) =
     Some (k\<lparr>memslot_sets := (memslot_sets k)(c := m1\<lparr>generation :=
               next_generation (generation (memslot_sets k (active_set k)))\<rparr>, active_set k := m0),
            active_set := c, slots_arch_lock := slots_arch_lock k - 1\<rparr>)"
proof -
  have ac: "active_set k = 0 \<and> c = 1 \<or> active_set k = 1 \<and> c = 0" using a(1) by (auto simp: c_def)
  have as': "kvm_memslots_get_as_id k' old new = Some 0" if "slots k' = slots k" for k'
    using as that unfolding kvm_memslots_get_as_id_def by (simp only: that)
  have inact: "kvm_get_inactive_memslots k' 0 = Some j"
    if "active_set k' = i" "node_idx (memslot_sets k' i) = i" "i = 0 \<and> j = 1 \<or> i = 1 \<and> j = 0" for k' i j
    using that by (auto simp: kvm_get_inactive_memslots_def raw_kvm_memslots_def KVM_ADDRESS_SPACE_NUM_def)
  have bits: "(x OR y) AND NOT y = x AND NOT y" for x y :: u64
    by (simp add: bit.conj_disj_distrib2)
  from ac show ?thesis
    using a(2) [of 0] a(2) [of 1] m1 m0 lock
    by (auto simp: kvm_replace_memslot_def kvm_activate_memslot_def kvm_swap_active_memslots_def as as' inact
        set_generation_def unlock_arch_def raw_kvm_memslots_def KVM_ADDRESS_SPACE_NUM_def
        kvm_arch_memslots_updated_def next_generation_def bits fun_upd_twist)
qed

lemma as_id_zero:
  assumes "slots k p = Some sl" "slot_as_id sl = 0" "p \<noteq> 0"
  shows "kvm_memslots_get_as_id k 0 p = Some 0" "kvm_memslots_get_as_id k p q = Some 0"
  using assms by (simp_all add: kvm_memslots_get_as_id_def slot_load_def)

text \<open>The invariant after both sets made the same step.\<close>

lemma vm_inv_step:
  assumes inv: "vm_inv k xs" and as: "kvm_memslots_get_as_id k old new = Some 0" and lock: "0 < slots_arch_lock k"
    and step: "\<And>i. i < 2 \<Longrightarrow> \<exists>ms'. replace_in_set (slots k) (memslot_sets k i) old new = Some ms' \<and>
       set_inv (slots k) ms' ys \<and> keeps_links X (memslot_sets k i) ms'"
    and ys: "\<forall>x \<in> set ys. \<exists>sl. slots k x = Some sl \<and> slot_as_id sl = 0"
  shows "\<exists>k'. (kvm_replace_memslot k old new \<bind> (\<lambda>k. kvm_activate_memslot k old new)) = Some k' \<and>
     vm_inv k' ys \<and> active_set k' = 1 - active_set k \<and> slots k' = slots k \<and>
     generation (memslot_sets k' (active_set k')) = next_generation (generation (memslot_sets k (active_set k))) \<and>
     slots_arch_lock k' = slots_arch_lock k - 1 \<and> nr_memslot_pages k' = nr_memslot_pages k \<and>
     mmu_pages_of k' = mmu_pages_of k \<and> slots_lock k' = slots_lock k"
proof -
  let ?a = "active_set k"
  have a: "?a < 2" "\<And>i. i < 2 \<Longrightarrow> node_idx (memslot_sets k i) = i" using inv by (auto simp: vm_inv_def)
  define c where "c = 1 - active_set k"
  have c: "c < 2" "?a \<noteq> c" using a(1) unfolding c_def by presburger+
  have two: "i = ?a \<or> i = c" if "i < 2" for i using a(1) that unfolding c_def by presburger
  obtain m0 where m0: "replace_in_set (slots k) (memslot_sets k ?a) old new = Some m0"
    "set_inv (slots k) m0 ys" "node_idx m0 = ?a"
    using step [OF a(1)] a(2) [OF a(1)] unfolding keeps_links_def by metis
  obtain m1 where m1: "replace_in_set (slots k) (memslot_sets k c) old new = Some m1"
    "set_inv (slots k) m1 ys" "node_idx m1 = c"
    using step [OF c(1)] a(2) [OF c(1)] unfolding keeps_links_def by metis
  note r = replace_and_activate [OF a as lock m1(1,3) [unfolded c_def] m0(1), folded c_def]
  show ?thesis
    unfolding c_def [symmetric]
  proof (intro exI conjI)
    show "vm_inv (k\<lparr>memslot_sets := (memslot_sets k)(c := m1\<lparr>generation :=
        next_generation (generation (memslot_sets k ?a))\<rparr>, ?a := m0), active_set := c,
        slots_arch_lock := slots_arch_lock k - 1\<rparr>) ys" (is "vm_inv ?k' ys")
      unfolding vm_inv_def
    proof (intro conjI allI impI)
      fix i :: nat assume "i < 2"
      from two [OF this] show "node_idx (memslot_sets ?k' i) = i" "set_inv (slots ?k') (memslot_sets ?k' i) ys"
        using m0 m1 c(2) by auto
    qed (use c ys in simp_all)
    show "(kvm_replace_memslot k old new \<bind> (\<lambda>k. kvm_activate_memslot k old new)) = Some ?k'"
      by (rule r)
  qed (use c in auto)
qed

lemma kvm_create_memslot_correct:
  assumes inv: "vm_inv k xs" and lock: "0 < slots_arch_lock k"
    and p: "slot_ok (slots k) p" "p \<notin> set xs" "disjoint_from (slots k) p (set xs)"
      "sid_of (slots k) p \<notin> sid_of (slots k) ` set xs" "slots k p = Some sl" "slot_as_id sl = 0"
      "\<And>i. i < 2 \<Longrightarrow> links_ready (memslot_sets k i) p"
  shows "\<exists>k'. kvm_create_memslot k p = Some k' \<and> vm_inv k' (slot_insert (slots k) p xs) \<and>
     active_set k' = 1 - active_set k \<and> slots k' = slots k \<and>
     generation (memslot_sets k' (active_set k')) = next_generation (generation (memslot_sets k (active_set k))) \<and>
     slots_arch_lock k' = slots_arch_lock k - 1 \<and> nr_memslot_pages k' = nr_memslot_pages k \<and>
     mmu_pages_of k' = mmu_pages_of k \<and> slots_lock k' = slots_lock k"
  unfolding kvm_create_memslot_def
proof (rule vm_inv_step [OF inv _ lock])
  have nz: "p \<noteq> 0" using p(1) by (simp add: slot_ok_def)
  show "kvm_memslots_get_as_id k 0 p = Some 0" by (rule as_id_zero [OF p(5,6) nz])
  fix i :: nat assume i: "i < 2"
  then show "\<exists>ms'. replace_in_set (slots k) (memslot_sets k i) 0 p = Some ms' \<and>
      set_inv (slots k) ms' (slot_insert (slots k) p xs) \<and>
      keeps_links (insert p (set xs)) (memslot_sets k i) ms'"
    using inv by (intro replace_in_set_add p) (auto simp: vm_inv_def)
next
  have "\<forall>x \<in> set xs. slot_ok (slots k) x" using inv by (auto simp: vm_inv_def set_inv_def tree_ok_def)
  then have "set (slot_insert (slots k) p xs) = insert p (set xs)"
    using disjoint_base_neq [OF p(3,1)] by (intro set_slot_insert) auto
  then show "\<forall>x \<in> set (slot_insert (slots k) p xs). \<exists>sl. slots k x = Some sl \<and> slot_as_id sl = 0"
    using inv p(5,6) by (auto simp: vm_inv_def)
qed

lemma kvm_update_flags_memslot_correct:
  assumes inv: "vm_inv k (ys @ x # zs)" and lock: "0 < slots_arch_lock k"
    and p: "slot_ok (slots k) p" "p \<notin> set (ys @ x # zs)" "gbase (slots k) p = gbase (slots k) x"
      "gend (slots k) p = gend (slots k) x" "sid_of (slots k) p = sid_of (slots k) x"
      "slots k p = Some sl" "slot_as_id sl = 0" "\<And>i. i < 2 \<Longrightarrow> links_ready (memslot_sets k i) p"
  shows "\<exists>k'. kvm_update_flags_memslot k x p = Some k' \<and> vm_inv k' (ys @ p # zs) \<and>
     active_set k' = 1 - active_set k \<and> slots k' = slots k \<and>
     generation (memslot_sets k' (active_set k')) = next_generation (generation (memslot_sets k (active_set k))) \<and>
     slots_arch_lock k' = slots_arch_lock k - 1 \<and> nr_memslot_pages k' = nr_memslot_pages k \<and>
     mmu_pages_of k' = mmu_pages_of k \<and> slots_lock k' = slots_lock k"
  unfolding kvm_update_flags_memslot_def
proof (rule vm_inv_step [OF inv _ lock])
  have "set_inv (slots k) (memslot_sets k 0) (ys @ x # zs)" using inv by (simp add: vm_inv_def)
  then have sid: "sid_of (slots k) p \<notin> sid_of (slots k) ` set (ys @ zs)"
    and xnz: "x \<noteq> 0" and xd: "x \<notin> set (ys @ zs)"
    using set_inv_distinct [of "slots k" "memslot_sets k 0" "ys @ x # zs"]
    unfolding p(5) by (auto simp: set_inv_def tree_ok_def slot_ok_def inj_on_def)
  obtain xl where "slots k x = Some xl" "slot_as_id xl = 0" using inv by (auto simp: vm_inv_def)
  then show "kvm_memslots_get_as_id k x p = Some 0" using as_id_zero(2) xnz by blast
  fix i :: nat assume i: "i < 2"
  then show "\<exists>ms'. replace_in_set (slots k) (memslot_sets k i) x p = Some ms' \<and>
      set_inv (slots k) ms' (ys @ p # zs) \<and>
      keeps_links (insert p (set (ys @ x # zs))) (memslot_sets k i) ms'"
    using inv sid p by (intro replace_in_set_exchange) (auto simp: vm_inv_def)
next
  show "\<forall>x \<in> set (ys @ p # zs). \<exists>sl. slots k x = Some sl \<and> slot_as_id sl = 0"
    using inv p(6,7) by (auto simp: vm_inv_def)
qed

end
