(* ===== verification/Memory_Region_Set.thy ===== *)
theory Memory_Region_Set
  imports Memory_Region_Inv
begin

text \<open>
  Registering a new memory region from the system call down: the frame lemmas that carry the
  invariant over the allocation and the filling of a slot outside the map, the large-page
  metadata, and the effect of \<^verbatim>\<open>__kvm_set_memory_region\<close> on a virtual machine whose map has room.
\<close>

section \<open>Frames\<close>

lemma set_inv_heap_cong:
  assumes "\<And>x. x \<in> set xs \<Longrightarrow> h' x = h x"
  shows "set_inv h' ms xs = set_inv h ms xs"
proof -
  have eq: "slot_ok h' x = slot_ok h x" "gbase h' x = gbase h x" "gend h' x = gend h x" "sid_of h' x = sid_of h x"
    if "x \<in> set xs" for x
    using assms [OF that] by (simp_all add: slot_ok_def gbase_def gend_def sid_of_def)
  have "slots_sorted h' xs = slots_sorted h xs"
    by (rule iffI; erule sorted_wrt_mono_rel [rotated]) (use eq in auto)
  moreover have "inj_on (sid_of h') (set xs) = inj_on (sid_of h) (set xs)"
    using eq(4) by (rule inj_on_cong)
  moreover have "{x \<in> set xs. id_slot_hash h' x = b} = {x \<in> set xs. id_slot_hash h x = b}" for b
    using eq(4) by (auto simp: id_slot_hash_def)
  ultimately show ?thesis using eq(1) by (simp add: set_inv_def tree_ok_def table_ok_def)
qed

lemma rb_inv_frame:
  assumes "rb_inv s xs" "a \<notin> set xs"
  shows "rb_inv (s\<lparr>rb_mem := (rb_mem s)(a \<mapsto> n)\<rparr>) xs"
proof -
  from assms(1) obtain t where "holds_tree s t" "rbt_ok t" "rinorder t = xs" by (auto simp: rb_inv_def)
  with assms(2) show ?thesis unfolding rb_inv_def by (intro exI [of _ t]) (simp add: holds_tree_def)
qed

lemma map_links_simps [simp]:
  "node_idx (map_links e p ms) = node_idx ms" "generation (map_links e p ms) = generation ms"
  by (simp_all add: map_links_def)

lemma set_inv_map_links:
  assumes inv: "set_inv h ms xs" and p: "p \<notin> set xs" "heads_apart ms {p}"
  shows "set_inv h (map_links e p ms) xs" "links_ready (map_links e p ms) p"
proof -
  let ?m = "map_links e p ms" and ?idx = "node_idx ms"
  have "rb_inv (gfn_tree ?m) (map (gfn_node ?idx) xs)"
    unfolding map_links_def using inv p(1) by (auto simp: set_inv_def tree_ok_def intro!: rb_inv_frame)
  then have t: "tree_ok h ?m xs" using inv by (simp add: set_inv_def tree_ok_def map_links_def)
  have out: "hl_outside {id_node ?idx p} (id_hash ms) (id_hash ?m)"
    by (simp add: hl_outside_def map_links_def)
  have heads: "heads_apart ?m X = heads_apart ms X" for X by (simp add: heads_apart_def map_links_def)
  have "table_ok h ?m (set xs)"
  proof -
    from inv obtain f where f: "\<forall>b. unat b < 128 \<longrightarrow>
        hl_list (id_hash ms) (bucket_addr (id_hash_addr ms) b) (map (id_node ?idx) (f b)) \<and>
        set (f b) = {x \<in> set xs. id_slot_hash h x = b}"
      by (auto simp: set_inv_def table_ok_def)
    have "hl_list (id_hash ?m) (bucket_addr (id_hash_addr ms) b) (map (id_node ?idx) (f b))" if "unat b < 128" for b
    proof -
      have "insert (bucket_addr (id_hash_addr ms) b) (set (map (id_node ?idx) (f b))) \<inter> {id_node ?idx p} = {}"
        using f p that by (auto simp: heads_apart_def)
      from hl_list_frame [OF out this] f that show ?thesis by blast
    qed
    with f show ?thesis by (auto simp: table_ok_def map_links_def)
  qed
  with t inv heads show "set_inv h ?m xs" by (simp add: set_inv_def map_links_def)
  show "links_ready ?m p"
    using p(2) heads by (simp add: links_ready_def id_links_def rb_mapped_def) (simp add: map_links_def)
qed

text \<open>An address the pool may hand out for a slot: aligned, unused, and clear of the hash heads.\<close>

definition fresh_slot :: "kvm \<Rightarrow> u64 list \<Rightarrow> u64 \<Rightarrow> bool" where
  "fresh_slot k xs p \<longleftrightarrow> p \<notin> set xs \<and> p \<noteq> 0 \<and> id_node 1 p \<noteq> 0 \<and> node_addr (gfn_node 0 p) \<and>
     node_addr (gfn_node 1 p) \<and> heads_apart (memslot_sets k 0) {p} \<and> heads_apart (memslot_sets k 1) {p}"

lemma vm_inv_heap:
  assumes "vm_inv k xs" "active_set k' = active_set k" "\<And>i. i < 2 \<Longrightarrow> node_idx (memslot_sets k' i) = i"
    "\<And>x. x \<in> set xs \<Longrightarrow> slots k' x = slots k x"
    "\<And>i. i < 2 \<Longrightarrow> set_inv (slots k) (memslot_sets k' i) xs"
  shows "vm_inv k' xs"
  using assms set_inv_heap_cong [of xs "slots k'" "slots k"] by (auto simp: vm_inv_def)

lemma vm_inv_fill:
  assumes "vm_inv k xs" "p \<notin> set xs" "active_set k' = active_set k" "memslot_sets k' = memslot_sets k"
    "slots k' = (slots k)(p := v)"
  shows "vm_inv k' xs"
  using assms by (intro vm_inv_heap [OF assms(1)]) (auto simp: vm_inv_def)

lemma alloc_slot_correct:
  assumes inv: "vm_inv k xs" and p: "fresh_slot k xs p" "pool_alloc e (nalloc k) 160 = p"
  obtains k' where "alloc_slot e k = (p, k')" "vm_inv k' xs" "slots k' = (slots k)(p \<mapsto> junk_slot e)"
    "nalloc k' = Suc (nalloc k)" "active_set k' = active_set k"
    "\<And>i. i < 2 \<Longrightarrow> links_ready (memslot_sets k' i) p"
    "\<And>i. generation (memslot_sets k' i) = generation (memslot_sets k i)"
    "slots_arch_lock k' = slots_arch_lock k" "slots_lock k' = slots_lock k"
    "nr_memslot_pages k' = nr_memslot_pages k" "mmu_pages_of k' = mmu_pages_of k"
proof -
  let ?k = "k\<lparr>nalloc := Suc (nalloc k), slots := (slots k)(p \<mapsto> junk_slot e),
     memslot_sets := \<lambda>i. map_links e p (memslot_sets k i)\<rparr>"
  have ap: "heads_apart (memslot_sets k i) {p}" if "i < 2" for i :: nat
    using p(1) that by (auto simp: fresh_slot_def less_2_cases_iff)
  have pn: "p \<notin> set xs" "p \<noteq> 0" using p(1) by (simp_all add: fresh_slot_def)
  have "alloc_slot e k = (p, ?k)" using p pn by (simp add: alloc_slot_def ExAllocatePool_def)
  moreover have "vm_inv ?k xs"
    by (rule vm_inv_heap [OF inv]) (use inv pn ap in \<open>auto simp: vm_inv_def set_inv_map_links\<close>)
  moreover have "links_ready (memslot_sets ?k i) p" if "i < 2" for i
    using inv that pn ap by (auto simp: vm_inv_def intro: set_inv_map_links)
  ultimately show ?thesis by (intro that [of ?k]) simp_all
qed

section \<open>Large-page metadata\<close>

lemma lpages_nonzero:
  assumes "npages sl \<noteq> 0" "unat (base_gfn sl) + unat (npages sl) < 2 ^ 64" "1 < level" "level < 4"
  shows "raw_kvm_mmu_slot_lpages sl (npages sl) level \<noteq> 0"
proof -
  let ?b = "base_gfn sl" and ?e = "base_gfn sl + npages sl - 1" and ?s = "KVM_HPAGE_GFN_SHIFT level"
  have e: "unat ?e = unat ?b + unat (npages sl) - 1"
  proof -
    have "unat (?b + npages sl) = unat ?b + unat (npages sl)"
      using assms(2) by (subst unat_add_lem [symmetric]) simp
    moreover from this have "?b + npages sl \<noteq> 0" using assms(1) by (metis add_is_0 unat_0 unat_eq_zero)
    ultimately show ?thesis by (simp add: unat_minus_one)
  qed
  moreover have "0 < unat (npages sl)" using assms(1) by (simp add: unat_gt_0)
  ultimately have "?b \<le> ?e" by (simp add: word_le_nat_alt)
  then have le: "drop_bit ?s ?b \<le> drop_bit ?s ?e"
    by (simp add: word_le_nat_alt unat_drop_bit_div div_le_mono)
  have s: "9 \<le> ?s" using assms(3) by (simp add: KVM_HPAGE_GFN_SHIFT_def)
  have "unat (drop_bit ?s ?e) < 2 ^ 64 - 1"
  proof -
    have "unat (drop_bit ?s ?e) \<le> unat ?e div 2 ^ ?s" by (simp add: unat_drop_bit_div)
    also have "\<dots> \<le> unat ?e div 2 ^ 9" using power_increasing [OF s, of "2 :: nat"] by (intro div_le_mono2) simp_all
    also have "\<dots> < 2 ^ 64 - 1" using assms(2) unfolding e by simp
    finally show ?thesis .
  qed
  then have "unat (drop_bit ?s ?e - drop_bit ?s ?b) < 2 ^ 64 - 1"
    using le by (simp add: unat_sub)
  then have "unat (drop_bit ?s ?e - drop_bit ?s ?b + 1) = unat (drop_bit ?s ?e - drop_bit ?s ?b) + 1"
    by (subst unat_add_lem [THEN iffD1]) simp_all
  then show ?thesis unfolding raw_kvm_mmu_slot_lpages_def gfn_to_index_def by auto
qed

lemma slot_ok_fill:
  assumes "fresh_slot k xs p" "npages sl \<noteq> 0" "unat (base_gfn sl) + unat (npages sl) < 2 ^ 64" "h p = Some sl"
  shows "slot_ok h p"
  using assms by (auto simp: fresh_slot_def slot_ok_def)

text \<open>
  What the metadata allocation leaves in an array: the first and the last large page are
  forbidden when the region does not start or end on a large-page boundary; the other entries
  keep what the pool block held.
\<close>

definition lpage_array :: "kvm_env \<Rightarrow> kvm_memory_slot \<Rightarrow> nat \<Rightarrow> u64 \<Rightarrow> u32" where
  "lpage_array e sl level = (let
       mask = ucast (KVM_PAGES_PER_HPAGE level - 1);
       f = (if base_gfn sl AND mask \<noteq> 0 then (junk_lpage e)(0 := 1) else junk_lpage e) in
     if (base_gfn sl + npages sl) AND mask \<noteq> 0
     then f(raw_kvm_mmu_slot_lpages sl (npages sl) level - 1 := 1) else f)"

lemma lpage_round_correct:
  assumes p: "p \<noteq> 0" "slots k p = Some sl" and i: "i = 1 \<or> i = 2"
    and sl: "npages sl \<noteq> 0" "unat (base_gfn sl) + unat (npages sl) < 2 ^ 64"
    and a: "pool_alloc e (nalloc k) (raw_kvm_mmu_slot_lpages sl (npages sl) (i + 1) * 4) = a" "a \<noteq> 0"
  shows "lpage_round e k p (npages sl) i = Some (True, k\<lparr>
     slots := (slots k)(p \<mapsto> sl\<lparr>slot_arch := (slot_arch sl)\<lparr>lpage_info := (lpage_info (slot_arch sl))[i - 1 := a]\<rparr>\<rparr>),
     lpage_heap := (lpage_heap k)(a \<mapsto> (raw_kvm_mmu_slot_lpages sl (npages sl) (i + 1), lpage_array e sl (i + 1))),
     nalloc := Suc (nalloc k)\<rparr>)"
proof -
  let ?n = "raw_kvm_mmu_slot_lpages sl (npages sl) (i + 1)"
  have nz: "?n \<noteq> 0" by (rule lpages_nonzero [OF sl]) (use i in auto)
  then have "0 < ?n" "?n - 1 < ?n" using measure_unat [OF nz] by (auto simp: word_less_nat_alt unat_gt_0)
  then show ?thesis
    using p a unfolding lpage_round_def lpage_array_def
    by (simp add: slot_load_def ExAllocatePool_def upd_slot_def set_lpage_def Let_def)
qed

text \<open>The metadata of a slot when the TDP MMU is on, so that no reverse maps are needed.\<close>

lemma kvm_alloc_memslot_metadata_correct:
  assumes p: "p \<noteq> 0" "slots k p = Some sl" and tdp: "tdp_mmu_enabled e"
    and sl: "npages sl \<noteq> 0" "unat (base_gfn sl) + unat (npages sl) < 2 ^ 64"
    and a: "pool_alloc e (nalloc k) (raw_kvm_mmu_slot_lpages sl (npages sl) 2 * 4) = a" "a \<noteq> 0"
    and b: "pool_alloc e (Suc (nalloc k)) (raw_kvm_mmu_slot_lpages sl (npages sl) 3 * 4) = b" "b \<noteq> 0"
  shows "kvm_alloc_memslot_metadata e k p = Some (STATUS_SUCCESS, k\<lparr>
     slots := (slots k)(p \<mapsto> sl\<lparr>slot_arch := \<lparr>rmap = [0, 0, 0], lpage_info = [a, b], gfn_track = [0]\<rparr>\<rparr>),
     lpage_heap := (lpage_heap k)(a \<mapsto> (raw_kvm_mmu_slot_lpages sl (npages sl) 2, lpage_array e sl 2),
        b \<mapsto> (raw_kvm_mmu_slot_lpages sl (npages sl) 3, lpage_array e sl 3)),
     nalloc := nalloc k + 2\<rparr>)"
proof -
  have lp: "raw_kvm_mmu_slot_lpages (sl\<lparr>slot_arch := r\<rparr>) n l = raw_kvm_mmu_slot_lpages sl n l"
    "lpage_array e (sl\<lparr>slot_arch := r\<rparr>) l = lpage_array e sl l" for r n l
    by (simp_all add: raw_kvm_mmu_slot_lpages_def lpage_array_def Let_def)
  have [simp]: "Suc (Suc 0) = 2" "Suc 2 = 3" by simp_all
  let ?z = "sl\<lparr>slot_arch := \<lparr>rmap = [0, 0, 0], lpage_info = [0, 0], gfn_track = [0]\<rparr>\<rparr>"
  let ?y = "sl\<lparr>slot_arch := \<lparr>rmap = [0, 0, 0], lpage_info = [a, 0], gfn_track = [0]\<rparr>\<rparr>"
  show ?thesis
    using p tdp a b sl
      lpage_round_correct [of p "k\<lparr>slots := (slots k)(p \<mapsto> ?z)\<rparr>" ?z 1 e a]
      lpage_round_correct [of p "k\<lparr>slots := (slots k)(p \<mapsto> ?y), lpage_heap := (lpage_heap k)(a \<mapsto>
        (raw_kvm_mmu_slot_lpages sl (npages sl) 2, lpage_array e sl 2)), nalloc := Suc (nalloc k)\<rparr>" ?y 2 e b]
    by (simp add: kvm_alloc_memslot_metadata_def slot_load_def upd_slot_def kvm_memslots_have_rmaps_def
        kvm_shadow_root_allocated_def kvm_page_track_create_memslot_def lp Let_def)
qed

section \<open>Creating a slot\<close>

text \<open>
  The pool serves the two metadata arrays of a slot of \<open>np\<close> frames at \<open>base\<close>, starting with
  request \<open>n\<close>.
\<close>

definition lpages_at :: "gfn_t \<Rightarrow> u64 \<Rightarrow> nat \<Rightarrow> u64" where
  "lpages_at base np level = gfn_to_index (base + np - 1) base level + 1"

definition metadata_served :: "kvm_env \<Rightarrow> nat \<Rightarrow> gfn_t \<Rightarrow> u64 \<Rightarrow> bool" where
  "metadata_served e n base np \<longleftrightarrow> tdp_mmu_enabled e \<and>
     pool_alloc e n (lpages_at base np 2 * 4) \<noteq> 0 \<and> pool_alloc e (Suc n) (lpages_at base np 3 * 4) \<noteq> 0"

lemma prepare_create:
  assumes p: "p \<noteq> 0" "slots k p = Some sl" and fl: "slot_flags sl = 0"
    and sl: "npages sl \<noteq> 0" "unat (base_gfn sl) + unat (npages sl) < 2 ^ 64"
      "base_gfn sl + npages sl - 1 \<le> kvm_mmu_max_gfn e"
    and a: "metadata_served e (nalloc k) (base_gfn sl) (npages sl)"
  shows "\<exists>ar lh n. kvm_prepare_memory_region e k 0 p KVM_MR_CREATE = Some (0, k\<lparr>
     slots := (slots k)(p \<mapsto> sl\<lparr>dirty_bitmap := 0, slot_arch := ar\<rparr>), lpage_heap := lh, nalloc := n\<rparr>)"
proof -
  let ?s = "sl\<lparr>dirty_bitmap := 0\<rparr>"
  let ?k = "k\<lparr>slots := (slots k)(p \<mapsto> ?s)\<rparr>"
  have lp: "raw_kvm_mmu_slot_lpages ?s (npages sl) l = lpages_at (base_gfn sl) (npages sl) l" for l
    by (simp add: raw_kvm_mmu_slot_lpages_def lpages_at_def)
  obtain ar lh n where m: "kvm_alloc_memslot_metadata e ?k p = Some (0, ?k\<lparr>
      slots := (slots k)(p \<mapsto> ?s\<lparr>slot_arch := ar\<rparr>), lpage_heap := lh, nalloc := n\<rparr>)"
    using kvm_alloc_memslot_metadata_correct [of p ?k ?s e] p sl a
    by (simp add: lp metadata_served_def status_defs)
  have "\<not> kvm_mmu_max_gfn e < base_gfn sl + npages sl - 1" using sl(3) by simp
  then have "kvm_prepare_memory_region e k 0 p KVM_MR_CREATE = kvm_alloc_memslot_metadata e ?k p"
    using p fl m by (simp add: kvm_prepare_memory_region_def prepare_bitmap_def slot_load_def upd_slot_def
        kvm_arch_prepare_memory_region_def status_defs)
  with m show ?thesis by auto
qed

lemma commit_create:
  assumes p: "p \<noteq> 0" "slots k p = Some sl" and used: "n_used_mmu_pages (mmu_pages_of k) \<le> 64"
  shows "\<exists>mp. kvm_commit_memory_region e k 0 p KVM_MR_CREATE =
    Some (k\<lparr>nr_memslot_pages := nr_memslot_pages k + npages sl, mmu_pages_of := mp\<rparr>)"
proof -
  have le: "\<not> max x 64 < n_used_mmu_pages (mmu_pages_of k)" for x :: u64
    using used unfolding max_def by (auto simp: not_less)
  show ?thesis
  proof (cases "n_requested_mmu_pages (mmu_pages_of k) = 0")
    case True
    then show ?thesis
      using p le by (auto simp: kvm_commit_memory_region_def slot_load_def kvm_arch_commit_memory_region_def
          kvm_mmu_change_mmu_pages_def kvm_mmu_slot_apply_flags_def Let_def simp del: max_less_iff_conj)
  next
    case False
    then show ?thesis
      using p by (intro exI [of _ "mmu_pages_of k"])
        (simp add: kvm_commit_memory_region_def slot_load_def kvm_arch_commit_memory_region_def
          kvm_mmu_slot_apply_flags_def)
  qed
qed

lemma heap_fill [simp]:
  "gbase (h(p \<mapsto> sl)) p = unat (base_gfn sl)" "gend (h(p \<mapsto> sl)) p = unat (base_gfn sl) + unat (npages sl)"
  "sid_of (h(p \<mapsto> sl)) p = ucast (slot_id sl)"
  "x \<noteq> p \<Longrightarrow> gbase (h(p \<mapsto> sl)) x = gbase h x" "x \<noteq> p \<Longrightarrow> gend (h(p \<mapsto> sl)) x = gend h x"
  "x \<noteq> p \<Longrightarrow> sid_of (h(p \<mapsto> sl)) x = sid_of h x"
  by (simp_all add: gbase_def gend_def sid_of_def)

text \<open>A slot of a map, against the range and id of a new one.\<close>

definition room_for :: "slot_heap \<Rightarrow> u64 list \<Rightarrow> gfn_t \<Rightarrow> u64 \<Rightarrow> u32 \<Rightarrow> bool" where
  "room_for h xs base np sid \<longleftrightarrow> (\<forall>x \<in> set xs. sid_of h x \<noteq> sid \<and>
     (gend h x \<le> unat base \<or> unat base + unat np \<le> gbase h x))"

lemma kvm_set_memslot_create:
  assumes inv: "vm_inv k xs" and p: "slots k p = Some sl" "p \<notin> set xs" "slot_ok (slots k) p"
    and rd: "\<And>i. i < 2 \<Longrightarrow> links_ready (memslot_sets k i) p"
    and sl: "slot_flags sl = 0" "slot_as_id sl = 0" "base_gfn sl + npages sl - 1 \<le> kvm_mmu_max_gfn e"
    and room: "room_for (slots k) xs (base_gfn sl) (npages sl) (ucast (slot_id sl))"
    and served: "metadata_served e (nalloc k) (base_gfn sl) (npages sl)"
    and used: "n_used_mmu_pages (mmu_pages_of k) \<le> 64"
  shows "\<exists>k' db ar. kvm_set_memslot e k 0 p KVM_MR_CREATE = Some (0, k') \<and> vm_inv k' (slot_insert (slots k') p xs) \<and>
     slots k' = (slots k)(p \<mapsto> sl\<lparr>dirty_bitmap := db, slot_arch := ar\<rparr>) \<and>
     active_set k' = 1 - active_set k \<and>
     generation (memslot_sets k' (active_set k')) = next_generation (generation (memslot_sets k (active_set k))) \<and>
     nr_memslot_pages k' = nr_memslot_pages k + npages sl \<and>
     slots_lock k' = slots_lock k \<and> slots_arch_lock k' = slots_arch_lock k"
proof -
  let ?k = "lock_arch k"
  have neq: "x \<noteq> p" if "x \<in> set xs" for x using p(2) that by auto
  have np: "p \<noteq> 0" "npages sl \<noteq> 0" "unat (base_gfn sl) + unat (npages sl) < 2 ^ 64"
    using p(1,3) by (auto simp: slot_ok_def)
  obtain ar lh n where prep: "kvm_prepare_memory_region e ?k 0 p KVM_MR_CREATE = Some (0, ?k\<lparr>
      slots := (slots k)(p \<mapsto> sl\<lparr>dirty_bitmap := 0, slot_arch := ar\<rparr>), lpage_heap := lh, nalloc := n\<rparr>)"
    using prepare_create [of p ?k sl e] np p(1) sl served by (auto simp: lock_arch_def)
  let ?s = "sl\<lparr>dirty_bitmap := 0, slot_arch := ar\<rparr>"
  let ?k1 = "?k\<lparr>slots := (slots k)(p \<mapsto> ?s), lpage_heap := lh, nalloc := n\<rparr>"
  have "vm_inv ?k1 xs" by (rule vm_inv_fill [OF inv p(2)]) (simp_all add: lock_arch_def)
  moreover have "slot_ok (slots ?k1) p" using p(1,3) by (auto simp: slot_ok_def)
  moreover have "disjoint_from (slots ?k1) p (set xs)" "sid_of (slots ?k1) p \<notin> sid_of (slots ?k1) ` set xs"
    using room neq by (auto simp: disjoint_from_def room_for_def neq)
  ultimately obtain k2 where k2: "kvm_create_memslot ?k1 p = Some k2" "vm_inv k2 (slot_insert (slots ?k1) p xs)"
    "active_set k2 = 1 - active_set k" "slots k2 = (slots k)(p \<mapsto> ?s)"
    "generation (memslot_sets k2 (active_set k2)) = next_generation (generation (memslot_sets k (active_set k)))"
    "slots_arch_lock k2 = slots_arch_lock k" "nr_memslot_pages k2 = nr_memslot_pages k"
    "mmu_pages_of k2 = mmu_pages_of k" "slots_lock k2 = slots_lock k"
    using kvm_create_memslot_correct [of ?k1 xs p ?s] p(2) rd sl(2) by (auto simp: lock_arch_def)
  obtain mp where com: "kvm_commit_memory_region e k2 0 p KVM_MR_CREATE =
      Some (k2\<lparr>nr_memslot_pages := nr_memslot_pages k2 + npages ?s, mmu_pages_of := mp\<rparr>)"
    using commit_create [of p k2 ?s e] np(1) k2(4,8) used by auto
  let ?k3 = "k2\<lparr>nr_memslot_pages := nr_memslot_pages k2 + npages ?s, mmu_pages_of := mp\<rparr>"
  have "kvm_set_memslot e k 0 p KVM_MR_CREATE = Some (0, ?k3)"
    using prep k2(1) com by (simp add: kvm_set_memslot_def install_memslot_def)
  moreover have "vm_inv ?k3 (slot_insert (slots ?k3) p xs)" using k2(2,4) by (simp add: vm_inv_def)
  ultimately show ?thesis using k2 by (intro exI [of _ ?k3] exI [of _ 0] exI [of _ ar]) simp
qed

text \<open>The checks and the plan of the system call, for a region that fits.\<close>

abbreviation mem_base :: "kvm_userspace_memory_region \<Rightarrow> gfn_t" where
  "mem_base mem \<equiv> drop_bit PAGE_SHIFT (guest_phys_addr mem)"

abbreviation mem_npages :: "kvm_userspace_memory_region \<Rightarrow> u64" where
  "mem_npages mem \<equiv> drop_bit PAGE_SHIFT (memory_size mem)"

abbreviation mem_sid :: "kvm_userspace_memory_region \<Rightarrow> u32" where
  "mem_sid mem \<equiv> ucast (ucast (mem_slot mem) :: u16)"

lemma region_range:
  "unat (mem_base mem) + unat (mem_npages mem) < 2 ^ 64"
  "unat (mem_base mem + mem_npages mem) = unat (mem_base mem) + unat (mem_npages mem)"
proof -
  have "unat (drop_bit PAGE_SHIFT w) < 2 ^ 52" for w :: u64
    using unsigned_less [of w, where 'a = nat] by (simp add: unat_drop_bit_div less_mult_imp_div_less)
  from this [of "guest_phys_addr mem"] this [of "memory_size mem"]
  show s: "unat (mem_base mem) + unat (mem_npages mem) < 2 ^ 64" by simp
  then show "unat (mem_base mem + mem_npages mem) = unat (mem_base mem) + unat (mem_npages mem)"
    using unat_add_lem [of "mem_base mem" "mem_npages mem"] by simp
qed

lemma aligned_npages:
  assumes "memory_size mem AND (PAGE_SIZE - 1) = 0" "memory_size mem \<noteq> 0"
  shows "mem_npages mem \<noteq> 0"
proof
  have m: "PAGE_SIZE - 1 = (mask 12 :: u64)" by (simp add: mask_eq_exp_minus_1)
  assume z: "mem_npages mem = 0"
  have "\<not> bit (memory_size mem) n" if "12 \<le> n" for n
  proof -
    have "bit (mem_npages mem) (n - 12) = bit (memory_size mem) n" using that by (simp add: bit_drop_bit_eq)
    then show ?thesis using z by simp
  qed
  moreover have "\<not> bit (memory_size mem) n" if "n < 12" for n
    using assms(1) that unfolding m bit_eq_iff by (auto simp: bit_simps dest: spec [of _ n])
  ultimately have "memory_size mem = 0" by (auto simp: bit_eq_iff) (metis not_le)
  with assms(2) show False by simp
qed

lemma plan_create:
  assumes inv: "vm_inv k xs" and room: "room_for (slots k) xs (mem_base mem) (mem_npages mem) (mem_sid mem)"
    and nr: "\<not> nr_memslot_pages k + mem_npages mem < nr_memslot_pages k"
    and ok: "check_memory_region_flags mem = 0" "\<not> region_args_bad mem" "memory_size mem \<noteq> 0"
  shows "raw_kvm_set_memory_region e k mem = install_region e k mem 0 KVM_MR_CREATE"
proof -
  let ?ms = "memslot_sets k (active_set k)"
  have s: "set_inv (slots k) ?ms xs" using inv by (simp add: vm_inv_def)
  then have t: "tree_ok (slots k) ?ms xs" by (simp add: set_inv_def)
  have "id_to_memslot (slots k) ?ms (mem_sid mem) = Some 0"
    using id_to_memslot_correct [of "slots k" ?ms "set xs" "mem_sid mem"] s t room
    by (auto simp: set_inv_def tree_ok_def room_for_def)
  moreover have "kvm_check_memslot_overlap (slots k) ?ms (mem_sid mem) (mem_base mem) (mem_base mem + mem_npages mem) = Some False"
    using check_overlap_correct [OF t] room by (auto simp: region_range(2) room_for_def)
  moreover have "\<not> KVM_ADDRESS_SPACE_NUM \<le> unat (ucast (drop_bit 16 (mem_slot mem)) :: u16)"
    using ok(2) by (simp add: region_args_bad_def)
  ultimately show ?thesis
    using ok nr by (simp add: raw_kvm_set_memory_region_def raw_kvm_memslots_def plan_region_def Let_def)
qed

lemma kvm_set_memory_region_create:
  assumes inv: "vm_inv k xs" and room: "room_for (slots k) xs (mem_base mem) (mem_npages mem) (mem_sid mem)"
    and nr: "\<not> nr_memslot_pages k + mem_npages mem < nr_memslot_pages k"
    and ok: "mem_flags mem = 0" "\<not> region_args_bad mem" "memory_size mem \<noteq> 0"
    and max: "mem_base mem + mem_npages mem - 1 \<le> kvm_mmu_max_gfn e"
    and p: "pool_alloc e (nalloc k) 160 = p" "fresh_slot k xs p"
    and served: "metadata_served e (Suc (nalloc k)) (mem_base mem) (mem_npages mem)"
    and used: "n_used_mmu_pages (mmu_pages_of k) \<le> 64"
  shows "\<exists>k' sl. kvm_set_memory_region e k mem = Some (0, k') \<and> vm_inv k' (slot_insert (slots k') p xs) \<and>
     slots k' = (slots k)(p \<mapsto> sl) \<and> base_gfn sl = mem_base mem \<and> npages sl = mem_npages mem \<and>
     slot_id sl = ucast (mem_slot mem) \<and> slot_flags sl = 0 \<and>
     active_set k' = 1 - active_set k \<and>
     generation (memslot_sets k' (active_set k')) = next_generation (generation (memslot_sets k (active_set k))) \<and>
     nr_memslot_pages k' = nr_memslot_pages k + mem_npages mem \<and>
     slots_lock k' = slots_lock k \<and> slots_arch_lock k' = slots_arch_lock k"
proof -
  let ?k = "k\<lparr>slots_lock := Suc (slots_lock k)\<rparr>"
  have inv': "vm_inv ?k xs" and fr: "fresh_slot ?k xs p" and pn: "p \<notin> set xs" "p \<noteq> 0"
    using inv p(2) by (simp_all add: vm_inv_def fresh_slot_def)
  have np: "mem_npages mem \<noteq> 0" using ok(2,3) by (intro aligned_npages) (auto simp: region_args_bad_def)
  obtain k1 where k1: "alloc_slot e ?k = (p, k1)" "vm_inv k1 xs" "slots k1 = (slots k)(p \<mapsto> junk_slot e)"
    "nalloc k1 = Suc (nalloc k)" "active_set k1 = active_set k"
    "\<And>i. i < 2 \<Longrightarrow> links_ready (memslot_sets k1 i) p"
    "\<And>i. generation (memslot_sets k1 i) = generation (memslot_sets k i)"
    "slots_arch_lock k1 = slots_arch_lock k" "slots_lock k1 = Suc (slots_lock k)"
    "nr_memslot_pages k1 = nr_memslot_pages k" "mmu_pages_of k1 = mmu_pages_of k"
    using alloc_slot_correct [OF inv' fr, of e] p(1) by auto
  define sl where "sl = (junk_slot e)\<lparr>slot_as_id := ucast (drop_bit 16 (mem_slot mem)),
    slot_id := ucast (mem_slot mem), base_gfn := mem_base mem, npages := mem_npages mem, slot_flags := 0\<rparr>"
  have "unat (slot_as_id sl) = 0" using ok(2)
    by (auto simp: sl_def region_args_bad_def KVM_ADDRESS_SPACE_NUM_def not_le)
  then have as: "slot_as_id sl = 0" by (simp add: unat_eq_zero)
  let ?k2 = "k1\<lparr>slots := (slots k1)(p \<mapsto> sl)\<rparr>"
  have "vm_inv ?k2 xs" by (rule vm_inv_fill [OF k1(2) pn(1)]) simp_all
  moreover have "slot_ok (slots ?k2) p"
    using slot_ok_fill [OF p(2), of sl "slots ?k2"] np region_range(1) by (simp add: sl_def)
  moreover have "room_for (slots ?k2) xs (base_gfn sl) (npages sl) (ucast (slot_id sl))"
    using room pn(1) by (auto simp: room_for_def sl_def k1(3) gbase_def gend_def sid_of_def)
  ultimately obtain k3 db ar where k3: "kvm_set_memslot e ?k2 0 p KVM_MR_CREATE = Some (0, k3)"
    "vm_inv k3 (slot_insert (slots k3) p xs)" "slots k3 = (slots ?k2)(p \<mapsto> sl\<lparr>dirty_bitmap := db, slot_arch := ar\<rparr>)"
    "active_set k3 = 1 - active_set k"
    "generation (memslot_sets k3 (active_set k3)) = next_generation (generation (memslot_sets k (active_set k)))"
    "nr_memslot_pages k3 = nr_memslot_pages k + mem_npages mem"
    "slots_lock k3 = Suc (slots_lock k)" "slots_arch_lock k3 = slots_arch_lock k"
    using kvm_set_memslot_create [of ?k2 xs p sl e] k1 pn as max served used by (auto simp: sl_def)
  have "install_region e ?k mem 0 KVM_MR_CREATE = Some (0, k3)"
    using k1(1,3) pn k3(1) ok(1) by (simp add: install_region_def upd_slot_def slot_load_def sl_def)
  moreover have "raw_kvm_set_memory_region e ?k mem = install_region e ?k mem 0 KVM_MR_CREATE"
    by (rule plan_create [OF inv']) (use room nr ok in \<open>simp_all add: check_memory_region_flags_def status_defs\<close>)
  ultimately have "kvm_set_memory_region e k mem = Some (0, k3\<lparr>slots_lock := slots_lock k\<rparr>)"
    using k3(7) by (simp add: kvm_set_memory_region_def)
  moreover have "vm_inv (k3\<lparr>slots_lock := slots_lock k\<rparr>) (slot_insert (slots k3) p xs)"
    using k3(2) by (simp add: vm_inv_def)
  ultimately show ?thesis using k3 k1(3)
    by (intro exI [of _ "k3\<lparr>slots_lock := slots_lock k\<rparr>"] exI [of _ "sl\<lparr>dirty_bitmap := db, slot_arch := ar\<rparr>"])
      (simp add: sl_def)
qed

end
