(* ===== verification/Memslots_Props.thy ===== *)
theory Memslots_Props
  imports Memory_Region_Set
begin

text \<open>
  The contract of the guest memory map, stated over the operations of \<^verbatim>\<open>src/svmx/kvm_main.c\<close>:
  lookups agree with linear searches, changes keep the invariant of the two slot sets, requests
  with bad arguments change nothing, and the places where the code departs from its intent.
\<close>

section \<open>A concrete virtual machine\<close>

definition demo_set :: "nat \<Rightarrow> kvm_memslots" where
  "demo_set i = \<lparr>generation = 0, last_used_slot = 0, gfn_tree = \<lparr>rb_mem = (\<lambda>_. None), rb_root = 0\<rparr>,
     id_hash = \<lparr>hl_cell = (\<lambda>_. Some 0), hl_pprev = (\<lambda>_. Some 0)\<rparr>, id_hash_addr = 0x1000, node_idx = i\<rparr>"

definition demo_env :: kvm_env where
  "demo_env = \<lparr>pool_alloc = (\<lambda>n _. 0x10000 * of_nat (Suc n)),
     junk_slot = \<lparr>base_gfn = 0, npages = 0, dirty_bitmap = 0,
       slot_arch = \<lparr>rmap = [0, 0, 0], lpage_info = [0, 0], gfn_track = [0]\<rparr>,
       slot_flags = 0, slot_id = 0, slot_as_id = 0\<rparr>,
     junk_rb = mk_node 0 Red 0 0, junk_next = 0, junk_pprev = 0, junk_lpage = (\<lambda>_. 0),
     tdp_enabled = True, tdp_mmu_enabled = True, shadow_phys_bits = 39,
     zap_oldest_mmu_pages = (\<lambda>mp n. Some mp)\<rparr>"

definition demo_vm :: kvm where
  "demo_vm = \<lparr>memslot_sets = demo_set, active_set = 0, slots = (\<lambda>_. None), lpage_heap = (\<lambda>_. None),
     nr_memslot_pages = 0, mmu_pages_of = \<lparr>n_requested_mmu_pages = 0, n_used_mmu_pages = 0, n_max_mmu_pages = 0\<rparr>,
     nalloc = 0, freed = [], slots_lock = 0, slots_arch_lock = 0\<rparr>"

definition demo_mem :: kvm_userspace_memory_region where
  "demo_mem = \<lparr>mem_slot = 3, mem_flags = 0, guest_phys_addr = 0x100000, memory_size = 0x201000\<rparr>"

lemma demo_bucket: "unat b < 128 \<Longrightarrow> unat (bucket_addr 0x1000 b) = 4096 + 8 * unat b"
proof -
  assume b: "unat b < 128"
  have u: "unat (ucast b :: u64) = unat b" using b by (simp add: unsigned_ucast_eq take_bit_nat_eq_self)
  have m: "unat (8 * ucast b :: u64) = 8 * unat b"
    using unat_mult_lem [of "8 :: u64" "ucast b"] b by (simp add: u)
  show ?thesis using unat_add_lem [of "4096 :: u64" "8 * ucast b"] b by (simp add: bucket_addr_def m)
qed

lemma demo_bucket_neq: "unat b < 128 \<Longrightarrow> bucket_addr 0x1000 b \<noteq> 0"
  "unat b < 128 \<Longrightarrow> 0x10000 \<le> unat w \<Longrightarrow> bucket_addr 0x1000 b \<noteq> w"
  using demo_bucket [of b] by auto

lemma demo_vm_inv: "vm_inv demo_vm []"
proof -
  have "rb_inv \<lparr>rb_mem = (\<lambda>_. None), rb_root = 0\<rparr> []"
    by (auto simp: rb_inv_def holds_tree_def rbt_ok_def intro!: exI [of _ Lf])
  then have "set_inv (\<lambda>_. None) (demo_set i) []" if "i < 2" for i
    using that demo_bucket_neq(1)
    by (auto simp: set_inv_def tree_ok_def table_ok_def heads_apart_def demo_set_def hl_list_def intro!: exI [of _ "\<lambda>_. []"])
  then show ?thesis by (simp add: vm_inv_def demo_vm_def) (simp add: demo_set_def)
qed

lemma demo_heads: "0x10000 \<le> unat (id_node i p) \<Longrightarrow> heads_apart (demo_set i) {p}"
  using demo_bucket_neq by (simp add: heads_apart_def demo_set_def)

lemma demo_fresh: "fresh_slot demo_vm [] 0x10000"
proof -
  have "heads_apart (demo_set 0) {0x10000}" "heads_apart (demo_set 1) {0x10000}"
    by (rule demo_heads; simp add: id_node_def)+
  then show ?thesis by (simp add: fresh_slot_def demo_vm_def id_node_def gfn_node_def node_addr_def)
qed

lemma demo_pool:
  "pool_alloc demo_env (nalloc demo_vm) 160 = 0x10000"
  "metadata_served demo_env (Suc (nalloc demo_vm)) (mem_base demo_mem) (mem_npages demo_mem)"
  by (simp_all add: demo_env_def demo_vm_def metadata_served_def)

lemma demo_args: "\<not> region_args_bad demo_mem"
  by (simp add: region_args_bad_def demo_mem_def KVM_ADDRESS_SPACE_NUM_def KVM_MEM_SLOTS_NUM_def KVM_MEM_MAX_NR_PAGES_def)

lemma demo_below_max: "mem_base demo_mem + mem_npages demo_mem - 1 \<le> kvm_mmu_max_gfn demo_env"
  by (simp add: demo_mem_def kvm_mmu_max_gfn_def demo_env_def)

lemma demo_create:
  "\<exists>k' sl. kvm_set_memory_region demo_env demo_vm demo_mem = Some (0, k') \<and> vm_inv k' [0x10000] \<and>
     slots k' = [0x10000 \<mapsto> sl] \<and> slots k' 0x10000 = Some sl \<and> base_gfn sl = 0x100 \<and> npages sl = 0x201 \<and> slot_id sl = 3"
proof -
  note demo_args demo_below_max
  moreover have "room_for (slots demo_vm) [] b np i" for b np i by (simp add: room_for_def)
  ultimately obtain k' sl where "kvm_set_memory_region demo_env demo_vm demo_mem = Some (0, k')"
    "vm_inv k' (slot_insert (slots k') 0x10000 [])" "slots k' = (slots demo_vm)(0x10000 \<mapsto> sl)"
    "base_gfn sl = mem_base demo_mem" "npages sl = mem_npages demo_mem" "slot_id sl = ucast (mem_slot demo_mem)"
    using kvm_set_memory_region_create [OF demo_vm_inv, of demo_mem demo_env] demo_pool demo_fresh
    by (auto simp: demo_vm_def demo_mem_def)
  then show ?thesis by (auto simp: slot_insert_def demo_mem_def demo_vm_def)
qed

section \<open>Lookups\<close>

lemma or_null_filter:
  assumes "\<And>x. x \<in> set xs \<Longrightarrow> P x \<Longrightarrow> q = x" "(\<forall>x \<in> set xs. \<not> P x) \<Longrightarrow> q = 0"
  shows "q = or_null (filter P xs)"
proof (cases "filter P xs")
  case Nil
  then show ?thesis using assms(2) by (auto simp: filter_empty_conv)
next
  case (Cons y ys)
  then have "y \<in> set xs \<and> P y" using filter_eq_ConsD [OF Cons] by auto
  then show ?thesis using assms(1) [of y] Cons by simp
qed

lemma search_linear:
  assumes "tree_ok h ms xs"
  shows "search_memslots h ms gfn False = Some (or_null (filter (\<lambda>x. in_slot h x gfn) xs))"
proof -
  from search_memslots_correct [OF assms, of gfn False] obtain q where
    q: "search_memslots h ms gfn False = Some q" "\<forall>x \<in> set xs. in_slot h x gfn \<longrightarrow> q = x"
      "(\<forall>x \<in> set xs. \<not> in_slot h x gfn) \<longrightarrow> q = 0" by auto
  with or_null_filter [of xs "\<lambda>x. in_slot h x gfn" q] show ?thesis by auto
qed

text \<open>
  C5: on a well-formed slot set the descent of \<^verbatim>\<open>search_memslots\<close> through the red-black tree ends
  and finds what a linear search through the slots finds: the one slot that contains the frame,
  NULL when none does.
\<close>

theorem search_memslots_linear:
  assumes "tree_ok h ms xs"
  shows "search_memslots h ms gfn False = Some (or_null (filter (\<lambda>x. in_slot h x gfn) xs)) \<and>
     (\<forall>x \<in> set xs. in_slot h x gfn \<longrightarrow> search_memslots h ms gfn False = Some x)"
proof -
  have "or_null (filter (\<lambda>x. in_slot h x gfn) xs) = x" if x: "x \<in> set xs" "in_slot h x gfn" for x
    by (rule or_null_filter [symmetric])
      (use assms x in_slot_unique [of h xs] in \<open>auto simp: tree_ok_def\<close>)
  then show ?thesis using search_linear [OF assms] by auto
qed

theorem search_memslots_linear_witness:
  "\<exists>k' sl. kvm_set_memory_region demo_env demo_vm demo_mem = Some (0, k') \<and> slots k' 0x10000 = Some sl \<and>
     search_memslots (slots k') (memslot_sets k' (active_set k')) 0x150 False = Some 0x10000"
proof -
  obtain k' sl where k': "kvm_set_memory_region demo_env demo_vm demo_mem = Some (0, k')"
    "vm_inv k' [0x10000]" "slots k' 0x10000 = Some sl" "base_gfn sl = 0x100" "npages sl = 0x201"
    using demo_create by blast
  have "tree_ok (slots k') (memslot_sets k' (active_set k')) [0x10000]"
    using k'(2) by (simp add: vm_inv_def set_inv_def)
  from search_memslots_linear [OF this, of "0x150"] show ?thesis
    using k' by (simp add: in_slot_def gbase_def gend_def)
qed

text \<open>
  C6: on a well-formed slot set \<^verbatim>\<open>id_to_memslot\<close> walks one hash bucket, ends, and finds the slot
  a linear search for the id finds; ids are unique, so there is at most one.
\<close>

theorem id_to_memslot_linear:
  assumes "set_inv h ms xs"
  shows "id_to_memslot h ms sid = Some (or_null (filter (\<lambda>x. sid_of h x = sid) xs)) \<and>
     length (filter (\<lambda>x. sid_of h x = sid) xs) \<le> 1"
proof -
  have t: "table_ok h ms (set xs)" "\<forall>x \<in> set xs. slot_ok h x" "inj_on (sid_of h) (set xs)"
    using assms by (auto simp: set_inv_def tree_ok_def)
  from id_to_memslot_correct [OF t, of sid] obtain q where
    q: "id_to_memslot h ms sid = Some q" "\<forall>x \<in> set xs. sid_of h x = sid \<longrightarrow> q = x"
      "(\<forall>x \<in> set xs. sid_of h x \<noteq> sid) \<longrightarrow> q = 0" by blast
  have "distinct (filter (\<lambda>x. sid_of h x = sid) xs)" using set_inv_distinct [OF assms] by simp
  moreover have "card (set (filter (\<lambda>x. sid_of h x = sid) xs)) \<le> card {q}"
    by (rule card_mono) (use q(2) in auto)
  ultimately have "length (filter (\<lambda>x. sid_of h x = sid) xs) \<le> 1" by (simp only: distinct_card) simp
  with q or_null_filter [of xs "\<lambda>x. sid_of h x = sid" q] show ?thesis by auto
qed

theorem id_to_memslot_linear_witness:
  "\<exists>k'. kvm_set_memory_region demo_env demo_vm demo_mem = Some (0, k') \<and>
     id_to_memslot (slots k') (memslot_sets k' (active_set k')) 3 = Some 0x10000 \<and>
     id_to_memslot (slots k') (memslot_sets k' (active_set k')) 4 = Some 0"
proof -
  obtain k' sl where k': "kvm_set_memory_region demo_env demo_vm demo_mem = Some (0, k')"
    "vm_inv k' [0x10000]" "slots k' 0x10000 = Some sl" "slot_id sl = 3"
    using demo_create by blast
  have "set_inv (slots k') (memslot_sets k' (active_set k')) [0x10000]" using k'(2) by (simp add: vm_inv_def)
  from id_to_memslot_linear [OF this, of 3] id_to_memslot_linear [OF this, of 4] show ?thesis
    using k' by (simp add: sid_of_def)
qed

text \<open>
  C7: on a well-formed slot set \<^verbatim>\<open>kvm_check_memslot_overlap\<close>, which starts its iteration at an
  upper bound found in the tree and stops early, answers exactly whether the frames of some slot
  with another id intersect the range.
\<close>

theorem check_overlap_ranges:
  assumes "tree_ok h ms xs" and "start < end_gfn"
  shows "kvm_check_memslot_overlap h ms sid start end_gfn =
     Some (\<exists>x \<in> set xs. sid_of h x \<noteq> sid \<and> {gbase h x ..< gend h x} \<inter> {unat start ..< unat end_gfn} \<noteq> {})"
proof -
  have "(unat start < gend h x \<and> gbase h x < unat end_gfn) =
      ({gbase h x ..< gend h x} \<inter> {unat start ..< unat end_gfn} \<noteq> {})" if "x \<in> set xs" for x
  proof -
    have "gbase h x < gend h x" using assms(1) that by (auto simp: tree_ok_def intro: slot_ok_range)
    then have "max (gbase h x) (unat start) \<in> {gbase h x ..< gend h x} \<inter> {unat start ..< unat end_gfn}"
      if "unat start < gend h x" "gbase h x < unat end_gfn"
      using that assms(2) by (simp add: word_less_nat_alt)
    then show ?thesis by fastforce
  qed
  then show ?thesis unfolding check_overlap_correct [OF assms(1)] by blast
qed

theorem check_overlap_ranges_witness:
  "\<exists>k'. kvm_set_memory_region demo_env demo_vm demo_mem = Some (0, k') \<and>
     kvm_check_memslot_overlap (slots k') (memslot_sets k' (active_set k')) 4 0x80 0x101 = Some True \<and>
     kvm_check_memslot_overlap (slots k') (memslot_sets k' (active_set k')) 4 0x80 0x100 = Some False"
proof -
  obtain k' sl where k': "kvm_set_memory_region demo_env demo_vm demo_mem = Some (0, k')"
    "vm_inv k' [0x10000]" "slots k' 0x10000 = Some sl" "base_gfn sl = 0x100" "npages sl = 0x201" "slot_id sl = 3"
    using demo_create by blast
  have t: "tree_ok (slots k') (memslot_sets k' (active_set k')) [0x10000]"
    using k'(2) by (simp add: vm_inv_def set_inv_def)
  from check_overlap_ranges [OF t, of "0x80" "0x101" 4] check_overlap_ranges [OF t, of "0x80" "0x100" 4]
  show ?thesis using k' by (simp add: sid_of_def gbase_def gend_def)
qed

section \<open>Changes\<close>

text \<open>
  C8: \<^verbatim>\<open>kvm_set_memory_region\<close>, asked to register a region whose id is unused and whose frames no
  slot covers, succeeds when the pool serves the slot and its metadata. Both slot sets then hold
  exactly the old slots and the new one, in frame order; the old slots are unchanged; the other
  set is active under the next generation; both mutexes are back where they were; and the lookup
  of every frame of the region in the active set yields the new slot.
\<close>

theorem set_memory_region_creates:
  assumes "vm_inv k xs" and "room_for (slots k) xs (mem_base mem) (mem_npages mem) (mem_sid mem)"
    and "\<not> nr_memslot_pages k + mem_npages mem < nr_memslot_pages k"
    and "mem_flags mem = 0" and "\<not> region_args_bad mem" and "memory_size mem \<noteq> 0"
    and "mem_base mem + mem_npages mem - 1 \<le> kvm_mmu_max_gfn e"
    and "pool_alloc e (nalloc k) 160 = p" and "fresh_slot k xs p"
    and "metadata_served e (Suc (nalloc k)) (mem_base mem) (mem_npages mem)"
    and "n_used_mmu_pages (mmu_pages_of k) \<le> 64"
  shows "\<exists>k'. kvm_set_memory_region e k mem = Some (0, k') \<and> vm_inv k' (slot_insert (slots k') p xs) \<and>
     set (slot_insert (slots k') p xs) = insert p (set xs) \<and>
     (\<forall>x \<in> set xs. slots k' x = slots k x) \<and> active_set k' = 1 - active_set k \<and>
     generation (memslot_sets k' (active_set k')) = next_generation (generation (memslot_sets k (active_set k))) \<and>
     nr_memslot_pages k' = nr_memslot_pages k + mem_npages mem \<and>
     slots_lock k' = slots_lock k \<and> slots_arch_lock k' = slots_arch_lock k \<and>
     (\<forall>gfn. mem_base mem \<le> gfn \<and> gfn < mem_base mem + mem_npages mem \<longrightarrow>
        search_memslots (slots k') (memslot_sets k' (active_set k')) gfn False = Some p)"
proof -
  from kvm_set_memory_region_create [OF assms] obtain k' sl where
    k': "kvm_set_memory_region e k mem = Some (0, k')" "vm_inv k' (slot_insert (slots k') p xs)"
      "slots k' = (slots k)(p \<mapsto> sl)" "base_gfn sl = mem_base mem" "npages sl = mem_npages mem"
      "active_set k' = 1 - active_set k"
      "generation (memslot_sets k' (active_set k')) = next_generation (generation (memslot_sets k (active_set k)))"
      "nr_memslot_pages k' = nr_memslot_pages k + mem_npages mem"
      "slots_lock k' = slots_lock k" "slots_arch_lock k' = slots_arch_lock k" by blast
  have pn: "p \<notin> set xs" using assms(9) by (simp add: fresh_slot_def)
  let ?ys = "slot_insert (slots k') p xs" and ?ms = "memslot_sets k' (active_set k')"
  have t: "tree_ok (slots k') ?ms ?ys" using k'(2) by (simp add: vm_inv_def set_inv_def)
  have "\<forall>x \<in> set xs. gbase (slots k') x \<noteq> gbase (slots k') p"
  proof
    fix x assume x: "x \<in> set xs"
    have "slot_ok (slots k) x" using assms(1) x by (auto simp: vm_inv_def set_inv_def tree_ok_def)
    from slot_ok_range [OF this] have "gbase (slots k) x < gend (slots k) x" .
    moreover have "0 < unat (mem_npages mem)"
      using aligned_npages [of mem] assms(5,6) by (auto simp: region_args_bad_def unat_gt_0)
    moreover have "x \<noteq> p" using x pn by auto
    ultimately show "gbase (slots k') x \<noteq> gbase (slots k') p"
      using assms(2) x k'(3,4) unfolding room_for_def by fastforce
  qed
  then have set: "set ?ys = insert p (set xs)" by (rule set_slot_insert)
  have "search_memslots (slots k') ?ms gfn False = Some p"
    if g: "mem_base mem \<le> gfn" "gfn < mem_base mem + mem_npages mem" for gfn
  proof -
    have "in_slot (slots k') p gfn"
      using g k'(3,4,5) region_range(2) [of mem] by (simp add: in_slot_def word_le_nat_alt word_less_nat_alt)
    moreover have "p \<in> set ?ys" using set by simp
    ultimately show ?thesis using search_memslots_correct [OF t, of gfn False] by auto
  qed
  with k' set pn show ?thesis by (intro exI [of _ k']) auto
qed

theorem set_memory_region_creates_witness:
  "\<exists>k'. kvm_set_memory_region demo_env demo_vm demo_mem = Some (0, k') \<and> nr_memslot_pages k' = 0x201 \<and>
     search_memslots (slots k') (memslot_sets k' (active_set k')) 0x300 False = Some 0x10000 \<and>
     generation (memslot_sets k' (active_set k')) = 1 \<and> active_set k' = 1"
proof -
  have "\<not> region_args_bad demo_mem"
    by (simp add: region_args_bad_def demo_mem_def KVM_ADDRESS_SPACE_NUM_def KVM_MEM_SLOTS_NUM_def KVM_MEM_MAX_NR_PAGES_def)
  moreover have "mem_base demo_mem + mem_npages demo_mem - 1 \<le> kvm_mmu_max_gfn demo_env"
    by (simp add: demo_mem_def kvm_mmu_max_gfn_def demo_env_def)
  moreover have "room_for (slots demo_vm) [] b np i" for b np i by (simp add: room_for_def)
  moreover have "next_generation 0 = 1" by (simp add: next_generation_def)
  ultimately show ?thesis
    using set_memory_region_creates [OF demo_vm_inv, of demo_mem demo_env] demo_pool demo_fresh
    by (auto simp: demo_vm_def demo_mem_def demo_set_def)
qed

text \<open>A machine with slot 3 at 0x10000, and an unused copy of it with other flags at 0x20000.\<close>

definition demo_slot :: "u32 \<Rightarrow> kvm_memory_slot" where
  "demo_slot fl = \<lparr>base_gfn = 0x100, npages = 0x201, dirty_bitmap = 0,
     slot_arch = \<lparr>rmap = [0, 0, 0], lpage_info = [0, 0], gfn_track = [0]\<rparr>,
     slot_flags = fl, slot_id = 3, slot_as_id = 0\<rparr>"

definition one_set :: "nat \<Rightarrow> kvm_memslots" where
  "one_set i = (demo_set i)\<lparr>
     gfn_tree := \<lparr>rb_mem = [gfn_node i 0x10000 \<mapsto> mk_node 0 Black 0 0, gfn_node i 0x20000 \<mapsto> mk_node 0 Red 0 0],
       rb_root = gfn_node i 0x10000\<rparr>,
     id_hash := \<lparr>hl_cell = (\<lambda>_. Some 0)(bucket_addr 0x1000 (hash_min 3 7) := Some (id_node i 0x10000)),
       hl_pprev = (\<lambda>_. Some 0)(id_node i 0x10000 := Some (bucket_addr 0x1000 (hash_min 3 7)))\<rparr>\<rparr>"

definition one_vm :: kvm where
  "one_vm = demo_vm\<lparr>memslot_sets := one_set, slots := [0x10000 \<mapsto> demo_slot 0, 0x20000 \<mapsto> demo_slot 1],
     nr_memslot_pages := 0x201, slots_arch_lock := 1\<rparr>"

lemma one_slots: "slots one_vm 0x10000 = Some (demo_slot 0)" "slots one_vm 0x20000 = Some (demo_slot 1)"
  by (simp_all add: one_vm_def)

lemma slot_okI:
  assumes "h p = Some (demo_slot fl)" "p \<noteq> 0" "id_node 1 p \<noteq> 0" "node_addr (gfn_node 0 p)" "node_addr (gfn_node 1 p)"
  shows "slot_ok h p"
  using assms unfolding slot_ok_def by (simp add: demo_slot_def)

lemma one_slot_ok: "slot_ok (slots one_vm) 0x10000" "slot_ok (slots one_vm) 0x20000"
  by (rule slot_okI, rule one_slots; simp add: id_node_def gfn_node_def node_addr_def)+

lemma one_heads:
  assumes "i < 2"
  shows "heads_apart (one_set i) {0x10000}" "heads_apart (one_set i) {0x20000}"
proof -
  have "0x10000 \<le> unat (id_node i 0x10000)" "0x10000 \<le> unat (id_node i 0x20000)"
    using assms by (auto simp: id_node_def less_2_cases_iff)
  from demo_heads [OF this(1)] demo_heads [OF this(2)]
  show "heads_apart (one_set i) {0x10000}" "heads_apart (one_set i) {0x20000}" by (simp_all add: one_set_def)
qed

lemma one_vm_inv: "vm_inv one_vm [0x10000]"
proof -
  let ?h = "slots one_vm"
  have "set_inv ?h (one_set i) [0x10000]" if i: "i < 2" for i
  proof -
    let ?ms = "one_set i"
    have idx: "node_idx ?ms = i" "id_hash_addr ?ms = 0x1000" "last_used_slot ?ms = 0"
      by (simp_all add: one_set_def demo_set_def)
    have n: "node_addr (gfn_node i 0x10000)" using slot_ok_node(1) [OF one_slot_ok(1) i] .
    have "gfn_node i 0x10000 \<noteq> gfn_node i 0x20000" by simp
    then have "rb_inv (gfn_tree ?ms) [gfn_node i 0x10000]"
      using n by (auto simp: rb_inv_def holds_tree_def rbt_ok_def one_set_def
          intro!: exI [of _ "Nd Black Lf (gfn_node i 0x10000) Lf"])
    then have t: "tree_ok ?h ?ms [0x10000]" using i idx one_slot_ok(1) by (simp add: tree_ok_def)
    have ih: "id_slot_hash ?h 0x10000 = hash_min 3 7"
      by (simp add: id_slot_hash_def sid_of_def one_vm_def demo_slot_def)
    have b: "bucket_addr 0x1000 b = bucket_addr 0x1000 (hash_min 3 7) \<longleftrightarrow> b = hash_min 3 7" if "unat b < 128" for b
      using demo_bucket [OF that] demo_bucket [OF hash_min_bound [of 3]] by (auto simp: word_unat_eq_iff)
    have "table_ok ?h ?ms {0x10000}"
      unfolding table_ok_def idx
    proof (intro exI [of _ "\<lambda>b. if b = hash_min 3 7 then [0x10000] else []"] allI impI)
      fix b :: u32 assume ub: "unat b < 128"
      have "id_node i 0x10000 \<noteq> bucket_addr 0x1000 b" "bucket_addr 0x1000 b \<noteq> 0"
        using one_heads(1) [OF i] ub unfolding heads_apart_def idx by auto
      then show "hl_list (id_hash ?ms) (bucket_addr 0x1000 b)
            (map (id_node i) (if b = hash_min 3 7 then [0x10000] else [])) \<and>
          set (if b = hash_min 3 7 then [0x10000] else []) = {x \<in> {0x10000}. id_slot_hash ?h x = b}"
        using b [OF ub] ih slot_ok_node(3) [OF one_slot_ok(1) i] by (auto simp: hl_list_def one_set_def)
    qed
    then show ?thesis using t one_heads(1) [OF i] idx by (simp add: set_inv_def)
  qed
  moreover have "node_idx (one_set i) = i" for i by (simp add: one_set_def demo_set_def)
  ultimately show ?thesis by (simp add: vm_inv_def) (simp add: one_vm_def demo_vm_def demo_slot_def)
qed

lemma one_same:
  "gbase (slots one_vm) 0x20000 = gbase (slots one_vm) 0x10000"
  "gend (slots one_vm) 0x20000 = gend (slots one_vm) 0x10000"
  "sid_of (slots one_vm) 0x20000 = sid_of (slots one_vm) 0x10000"
  "slots one_vm 0x20000 = Some (demo_slot 1)" "slot_as_id (demo_slot 1) = 0"
  by (simp_all add: gbase_def gend_def sid_of_def one_vm_def demo_slot_def)

lemma one_links: "i < 2 \<Longrightarrow> links_ready (memslot_sets one_vm i) 0x20000"
  using one_heads(2) [of i]
  by (simp add: links_ready_def id_links_def rb_mapped_def one_vm_def) (simp add: one_set_def demo_set_def)

text \<open>
  C9: \<^verbatim>\<open>kvm_update_flags_memslot\<close> exchanges a slot for a copy with the same id and frames: both sets
  keep their invariant with the copy in the place of the old slot, the sets are swapped under the
  next generation, and \<^verbatim>\<open>slots_arch_lock\<close> is released once.
\<close>

theorem update_flags_keeps_inv:
  assumes "vm_inv k (ys @ x # zs)" and "0 < slots_arch_lock k"
    and "slot_ok (slots k) p" and "p \<notin> set (ys @ x # zs)" and "gbase (slots k) p = gbase (slots k) x"
    and "gend (slots k) p = gend (slots k) x" and "sid_of (slots k) p = sid_of (slots k) x"
    and "slots k p = Some sl" and "slot_as_id sl = 0" and "\<And>i. i < 2 \<Longrightarrow> links_ready (memslot_sets k i) p"
  shows "\<exists>k'. kvm_update_flags_memslot k x p = Some k' \<and> vm_inv k' (ys @ p # zs) \<and>
     active_set k' = 1 - active_set k \<and> slots k' = slots k \<and>
     generation (memslot_sets k' (active_set k')) = next_generation (generation (memslot_sets k (active_set k))) \<and>
     slots_arch_lock k' = slots_arch_lock k - 1"
  using kvm_update_flags_memslot_correct [OF assms] by blast

theorem update_flags_keeps_inv_witness:
  "\<exists>k'. kvm_update_flags_memslot one_vm 0x10000 0x20000 = Some k' \<and> vm_inv k' [0x20000] \<and> slots_arch_lock k' = 0"
proof -
  have "vm_inv one_vm ([] @ 0x10000 # [])" using one_vm_inv by simp
  from update_flags_keeps_inv [OF this _ one_slot_ok(2) _ one_same one_links] show ?thesis
    by (auto simp: one_vm_def)
qed

section \<open>Refused requests\<close>

text \<open>
  C10: a request is refused and the machine left exactly as it was, mutexes included, when its
  flags, alignment, address space, slot number, address range or size are out of bounds
  (\<^verbatim>\<open>STATUS_INVALID_PARAMETER\<close>), and when it would create a region over frames of another slot
  (\<^verbatim>\<open>STATUS_ALREADY_COMMITTED\<close>).
\<close>

theorem bad_region_refused:
  assumes "vm_inv k xs"
  shows "(mem_flags mem AND NOT 3 \<noteq> 0 \<or> region_args_bad mem \<or> KVM_USER_MEM_SLOTS \<le> ucast (mem_slot mem) \<longrightarrow>
       kvm_vm_ioctl_set_memory_region e k mem = Some (STATUS_INVALID_PARAMETER, k)) \<and>
     (mem_flags mem AND NOT 3 = 0 \<and> \<not> region_args_bad mem \<and> memory_size mem \<noteq> 0 \<and>
      \<not> nr_memslot_pages k + mem_npages mem < nr_memslot_pages k \<and>
      (\<forall>x \<in> set xs. sid_of (slots k) x \<noteq> mem_sid mem) \<and>
      (\<exists>x \<in> set xs. unat (mem_base mem) < gend (slots k) x \<and>
         gbase (slots k) x < unat (mem_base mem) + unat (mem_npages mem)) \<longrightarrow>
       kvm_set_memory_region e k mem = Some (STATUS_ALREADY_COMMITTED, k))"
proof (intro conjI impI)
  have fl: "check_memory_region_flags mem = (if mem_flags mem AND NOT 3 \<noteq> 0 then STATUS_INVALID_PARAMETER else 0)"
    by (simp add: check_memory_region_flags_def KVM_MEM_LOG_DIRTY_PAGES_def KVM_MEM_READONLY_def STATUS_SUCCESS_def Let_def)
  have nz: "STATUS_INVALID_PARAMETER \<noteq> 0" by (simp add: status_defs)
  show "kvm_vm_ioctl_set_memory_region e k mem = Some (STATUS_INVALID_PARAMETER, k)"
    if "mem_flags mem AND NOT 3 \<noteq> 0 \<or> region_args_bad mem \<or> KVM_USER_MEM_SLOTS \<le> ucast (mem_slot mem)"
  proof -
    let ?k = "k\<lparr>slots_lock := Suc (slots_lock k)\<rparr>"
    have "raw_kvm_set_memory_region e ?k mem = Some (STATUS_INVALID_PARAMETER, ?k)"
      if "mem_flags mem AND NOT 3 \<noteq> 0 \<or> region_args_bad mem"
      using that nz unfolding raw_kvm_set_memory_region_def fl by auto
    then show ?thesis using that by (auto simp: kvm_vm_ioctl_set_memory_region_def kvm_set_memory_region_def)
  qed
  let ?k = "k\<lparr>slots_lock := Suc (slots_lock k)\<rparr>" and ?ms = "memslot_sets k (active_set k)"
  assume a: "mem_flags mem AND NOT 3 = 0 \<and> \<not> region_args_bad mem \<and> memory_size mem \<noteq> 0 \<and>
      \<not> nr_memslot_pages k + mem_npages mem < nr_memslot_pages k \<and>
      (\<forall>x \<in> set xs. sid_of (slots k) x \<noteq> mem_sid mem) \<and>
      (\<exists>x \<in> set xs. unat (mem_base mem) < gend (slots k) x \<and>
         gbase (slots k) x < unat (mem_base mem) + unat (mem_npages mem))"
  have s: "set_inv (slots k) ?ms xs" using assms by (simp add: vm_inv_def)
  then have t: "tree_ok (slots k) ?ms xs" by (simp add: set_inv_def)
  have "id_to_memslot (slots k) ?ms (mem_sid mem) = Some 0"
    using id_to_memslot_correct [of "slots k" ?ms "set xs" "mem_sid mem"] s t a
    by (auto simp: set_inv_def tree_ok_def)
  moreover have "kvm_check_memslot_overlap (slots k) ?ms (mem_sid mem) (mem_base mem) (mem_base mem + mem_npages mem) = Some True"
    using check_overlap_correct [OF t] a by (auto simp: region_range(2))
  moreover have "\<not> KVM_ADDRESS_SPACE_NUM \<le> unat (ucast (drop_bit 16 (mem_slot mem)) :: u16)"
    using a by (simp add: region_args_bad_def)
  ultimately have "raw_kvm_set_memory_region e ?k mem = Some (STATUS_ALREADY_COMMITTED, ?k)"
    using a by (simp add: raw_kvm_set_memory_region_def raw_kvm_memslots_def plan_region_def Let_def fl)
  then show "kvm_set_memory_region e k mem = Some (STATUS_ALREADY_COMMITTED, k)"
    by (simp add: kvm_set_memory_region_def)
qed

theorem bad_region_refused_witness:
  "kvm_vm_ioctl_set_memory_region demo_env one_vm (demo_mem\<lparr>guest_phys_addr := 0x100001\<rparr>) =
     Some (STATUS_INVALID_PARAMETER, one_vm) \<and>
   kvm_set_memory_region demo_env one_vm (demo_mem\<lparr>mem_slot := 5\<rparr>) = Some (STATUS_ALREADY_COMMITTED, one_vm)"
proof -
  have "region_args_bad (demo_mem\<lparr>guest_phys_addr := 0x100001\<rparr>)" by (simp add: region_args_bad_def demo_mem_def)
  moreover have "\<not> region_args_bad (demo_mem\<lparr>mem_slot := 5\<rparr>)"
    by (simp add: region_args_bad_def demo_mem_def KVM_ADDRESS_SPACE_NUM_def KVM_MEM_SLOTS_NUM_def KVM_MEM_MAX_NR_PAGES_def)
  moreover have "sid_of (slots one_vm) 0x10000 = 3" "gbase (slots one_vm) 0x10000 = 0x100"
    "gend (slots one_vm) 0x10000 = 0x301" "nr_memslot_pages one_vm = 0x201"
    by (simp_all add: sid_of_def gbase_def gend_def one_slots demo_slot_def) (simp add: one_vm_def)
  ultimately show ?thesis
    using bad_region_refused [OF one_vm_inv, of "demo_mem\<lparr>guest_phys_addr := 0x100001\<rparr>" demo_env]
      bad_region_refused [OF one_vm_inv, of "demo_mem\<lparr>mem_slot := 5\<rparr>" demo_env]
    by (simp add: demo_mem_def)
qed

end
