(* ===== verification/Memslots_Flaws.thy ===== *)
theory Memslots_Flaws
  imports Memslots_Props
begin

text \<open>
  Places where the memory-map code departs from what it means to do, each as a theorem about the
  model: the lookup that tries the address of a field as a slot, the deletion that empties the
  tree of the other slot set, the mutex that stays held when a move is refused, and the clean-up
  that frees blocks never allocated.
\<close>

section \<open>The last-used slot\<close>

lemma bucket_head:
  assumes "set_inv h ms xs" "unat b < 128"
  obtains ys where "hl_list (id_hash ms) (bucket_addr (id_hash_addr ms) b) (map (id_node (node_idx ms)) ys)"
    "set ys = {x \<in> set xs. id_slot_hash h x = b}"
  using assms unfolding set_inv_def table_ok_def by blast

lemma bucket_first:
  assumes "hl_list s c zs"
  shows "read_cell s c = Some (or_null zs)"
  using assms by (cases zs) (auto simp: hl_list_def read_cell_def)

text \<open>
  C11: \<^verbatim>\<open>____gfn_to_memslot\<close> tries the address of \<^verbatim>\<open>last_used_slot\<close> as if it were a slot, so what it
  reads as base frame and page count are the heads of hash buckets 6 and 7. While bucket 7 is empty
  the guess always misses and the lookup is that of \<^verbatim>\<open>search_memslots\<close>. Once a slot hashes to
  bucket 7 and none to bucket 6, every frame number below that slot's link address is answered
  with the address of the field, whatever slot covers the frame.
\<close>

theorem gfn_to_memslot_last_used:
  assumes "set_inv h ms xs"
  shows "((\<forall>x \<in> set xs. id_slot_hash h x \<noteq> 7) \<longrightarrow>
      (\<exists>ms'. raw_gfn_to_memslot h ms gfn False = Some (or_null (filter (\<lambda>x. in_slot h x gfn) xs), ms'))) \<and>
    ((\<forall>x \<in> set xs. id_slot_hash h x \<noteq> 6) \<and> (\<exists>x \<in> set xs. id_slot_hash h x = 7) \<and>
      (\<forall>x \<in> set xs. gfn < id_node (node_idx ms) x) \<and> last_used_field ms \<noteq> 0 \<longrightarrow>
      raw_gfn_to_memslot h ms gfn approx = Some (last_used_field ms, ms))"
proof -
  obtain y6 where y6: "hl_list (id_hash ms) (bucket_addr (id_hash_addr ms) 6) (map (id_node (node_idx ms)) y6)"
    "set y6 = {x \<in> set xs. id_slot_hash h x = 6}" by (rule bucket_head [OF assms, of 6]) simp_all
  obtain y7 where y7: "hl_list (id_hash ms) (bucket_addr (id_hash_addr ms) 7) (map (id_node (node_idx ms)) y7)"
    "set y7 = {x \<in> set xs. id_slot_hash h x = 7}" by (rule bucket_head [OF assms, of 7]) simp_all
  note r = bucket_first [OF y6(1)] bucket_first [OF y7(1)]
  have t: "tree_ok h ms xs" using assms by (simp add: set_inv_def)
  show ?thesis
  proof (intro conjI impI)
    assume "\<forall>x \<in> set xs. id_slot_hash h x \<noteq> 7"
    then have "set y7 = {}" using y7(2) by auto
    then have "y7 = []" by simp
    then have "try_get_last_used_field ms gfn = Some 0" using r by (auto simp: try_get_last_used_field_def dest: leD)
    then show "\<exists>ms'. raw_gfn_to_memslot h ms gfn False = Some (or_null (filter (\<lambda>x. in_slot h x gfn) xs), ms')"
      using search_linear [OF t, of gfn] by (simp add: raw_gfn_to_memslot_def)
  next
    assume a: "(\<forall>x \<in> set xs. id_slot_hash h x \<noteq> 6) \<and> (\<exists>x \<in> set xs. id_slot_hash h x = 7) \<and>
      (\<forall>x \<in> set xs. gfn < id_node (node_idx ms) x) \<and> last_used_field ms \<noteq> 0"
    then have "set y6 = {}" and "set y7 \<noteq> {}" using y6(2) y7(2) by auto
    then have "y6 = []" and "y7 \<noteq> []" by simp_all
    then obtain z zs where z: "y7 = z # zs" by (cases y7) auto
    then have "z \<in> set xs" using y7(2) by (metis (no_types, lifting) list.set_intros(1) mem_Collect_eq)
    then have "gfn < id_node (node_idx ms) z" using a by blast
    then have "try_get_last_used_field ms gfn = Some (last_used_field ms)"
      using r z \<open>y6 = []\<close> by (simp add: try_get_last_used_field_def)
    then show "raw_gfn_to_memslot h ms gfn approx = Some (last_used_field ms, ms)"
      using a by (simp add: raw_gfn_to_memslot_def)
  qed
qed

text \<open>Slot number 8 is the first one that hashes to bucket 7.\<close>

definition eight_set :: kvm_memslots where
  "eight_set = (one_set 0)\<lparr>
     id_hash := \<lparr>hl_cell = (\<lambda>_. Some 0)(bucket_addr 0x1000 7 := Some 0x10000),
       hl_pprev = (\<lambda>_. Some 0)(0x10000 := Some (bucket_addr 0x1000 7))\<rparr>\<rparr>"

definition eight_heap :: slot_heap where
  "eight_heap = [0x10000 \<mapsto> (demo_slot 0)\<lparr>slot_id := 8\<rparr>]"

lemma eight_hash: "id_slot_hash eight_heap 0x10000 = 7"
  by (simp add: id_slot_hash_def sid_of_def eight_heap_def hash_min_def hash_32_def raw_hash_32_generic_def
      GOLDEN_RATIO_32_def)

lemma eight_inv: "set_inv eight_heap eight_set [0x10000]"
proof -
  have t: "tree_ok (slots one_vm) (one_set 0) [0x10000]"
    using one_vm_inv by (simp add: vm_inv_def set_inv_def one_vm_def)
  have "slot_ok eight_heap 0x10000"
    using one_slot_ok(1) by (simp add: slot_ok_def eight_heap_def one_slots demo_slot_def)
  then have t8: "tree_ok eight_heap eight_set [0x10000]"
    using t by (simp add: tree_ok_def eight_set_def)
  have b: "bucket_addr 0x1000 b = bucket_addr 0x1000 7 \<longleftrightarrow> b = 7" if "unat b < 128" for b
    using demo_bucket [OF that] demo_bucket [of 7] by (auto simp: word_unat_eq_iff)
  have "table_ok eight_heap eight_set {0x10000}"
    unfolding table_ok_def
  proof (intro exI [of _ "\<lambda>b. if b = 7 then [0x10000] else []"] allI impI)
    fix b :: u32 assume ub: "unat b < 128"
    have "bucket_addr 0x1000 b \<noteq> 0x10000" "bucket_addr 0x1000 b \<noteq> 0" using demo_bucket_neq [OF ub] by simp_all
    then show "hl_list (id_hash eight_set) (bucket_addr (id_hash_addr eight_set) b)
          (map (id_node (node_idx eight_set)) (if b = 7 then [0x10000] else [])) \<and>
        set (if b = 7 then [0x10000] else []) = {x \<in> {0x10000}. id_slot_hash eight_heap x = b}"
      using b [OF ub] eight_hash by (auto simp: hl_list_def eight_set_def one_set_def demo_set_def id_node_def)
  qed
  moreover have "heads_apart eight_set {0x10000}" using one_heads(1) [of 0] by (simp add: eight_set_def)
  moreover have "last_used_slot eight_set = 0" by (simp add: eight_set_def one_set_def demo_set_def)
  ultimately show ?thesis using t8 by (simp add: set_inv_def)
qed

theorem gfn_to_memslot_last_used_witness:
  "raw_gfn_to_memslot eight_heap eight_set 0x150 False = Some (0xFE0, eight_set) \<and>
   in_slot eight_heap 0x10000 0x150"
  using gfn_to_memslot_last_used [OF eight_inv, of "0x150" False] eight_hash
  by (simp add: last_used_field_def eight_set_def one_set_def demo_set_def id_node_def in_slot_def gbase_def
      gend_def eight_heap_def demo_slot_def)

section \<open>Deleting and moving\<close>

text \<open>
  A \<^verbatim>\<open>KVM_MR_MOVE\<close> to frames beyond the host's physical address width is refused with
  \<^verbatim>\<open>STATUS_INVALID_PARAMETER\<close>, but \<^verbatim>\<open>slots_arch_lock\<close>, acquired at the start of
  \<^verbatim>\<open>kvm_set_memslot\<close>, is not released, and the temporary slot is not freed.
\<close>

theorem refused_move_keeps_lock:
  assumes "slots k old = Some osl" and "old \<noteq> 0" and "slots k new = Some nsl" and "new \<noteq> 0" and "old \<noteq> new"
    and "slot_flags nsl = 0" and "kvm_mmu_max_gfn e < base_gfn nsl + npages nsl - 1"
    and "pool_alloc e (nalloc k) 160 = p" and "p \<notin> {0, old, new}"
  shows "\<exists>k'. kvm_set_memslot e k old new KVM_MR_MOVE = Some (STATUS_INVALID_PARAMETER, k') \<and>
     slots_arch_lock k' = Suc (slots_arch_lock k) \<and> slots k' p \<noteq> None \<and> freed k' = freed k"
  using assms
  by (auto simp: kvm_set_memslot_def alloc_slot_def ExAllocatePool_def lock_arch_def kvm_invalidate_memslot_def
      slot_load_def upd_slot_def kvm_prepare_memory_region_def prepare_bitmap_def
      kvm_arch_prepare_memory_region_def no_dirty_bitmap_def status_defs Let_def)

theorem refused_move_keeps_lock_witness:
  "\<exists>k'. kvm_set_memslot (demo_env\<lparr>pool_alloc := \<lambda>_ _. 0x30000\<rparr>)
      (one_vm\<lparr>slots := (slots one_vm)(0x20000 \<mapsto> (demo_slot 0)\<lparr>base_gfn := 0x8000000\<rparr>)\<rparr>) 0x10000 0x20000 KVM_MR_MOVE =
      Some (STATUS_INVALID_PARAMETER, k') \<and> slots_arch_lock k' = 2 \<and> slots k' 0x30000 \<noteq> None"
  using refused_move_keeps_lock [of "one_vm\<lparr>slots := (slots one_vm)(0x20000 \<mapsto> (demo_slot 0)\<lparr>base_gfn := 0x8000000\<rparr>)\<rparr>"
      "0x10000" "demo_slot 0" "0x20000" "(demo_slot 0)\<lparr>base_gfn := 0x8000000\<rparr>"
      "demo_env\<lparr>pool_alloc := \<lambda>_ _. 0x30000\<rparr>" "0x30000"]
  by (auto simp: one_slots kvm_mmu_max_gfn_def demo_env_def demo_slot_def) (auto simp: one_vm_def)

lemma rb_erase_zero_node:
  assumes "rb_mem s a = Some \<lparr>rb_parent_color = 0, rb_right = 0, rb_left = 0\<rparr>" "a \<noteq> 0"
  shows "rb_erase s a = Some (s\<lparr>rb_root := 0\<rparr>)"
  using assms by (simp add: rb_erase_def raw_rb_erase_augmented_def erase_no_left_def get_left_def get_right_def
      get_pc_def rb_load_def raw_rb_change_child_def pc_parent_def pc_is_black_def pc_color_def dummy_callbacks_def
      dummy_propagate_def)

lemma erase_zeroed_slot:
  assumes "p \<noteq> 0" "last_used_slot ms \<noteq> p" "id_node (node_idx ms) p \<noteq> 0" "gfn_node (node_idx ms) p \<noteq> 0"
    "hl_pprev (id_hash ms) (id_node (node_idx ms) p) = Some 0"
    "rb_mem (gfn_tree ms) (gfn_node (node_idx ms) p) = Some \<lparr>rb_parent_color = 0, rb_right = 0, rb_left = 0\<rparr>"
  shows "replace_in_set h ms p 0 = Some (ms\<lparr>gfn_tree := (gfn_tree ms)\<lparr>rb_root := 0\<rparr>\<rparr>)"
  using assms rb_erase_zero_node [OF assms(6,4)]
  by (simp add: replace_in_set_def hash_del_def hlist_del_init_def hlist_unhashed_def read_pprev_def
      kvm_erase_gfn_node_def)

text \<open>
  C12: \<^verbatim>\<open>kvm_delete_memslot\<close> removes the slot from the set that becomes active, but on the other set
  it erases the temporary slot, which was never inserted there. When that block came zeroed from
  the pool, the erasure takes it for the root of the tree and clears the root: the inactive set
  has an empty tree, while its hash table still holds every slot, the deleted one included.
\<close>

theorem delete_empties_inactive_tree:
  assumes "vm_inv k (ys @ x # zs)" and "0 < slots_arch_lock k"
    and "slots k p = Some sl" and "slot_as_id sl = 0" and "p \<notin> set (ys @ x # zs)" and "p \<noteq> 0"
    and "id_node (active_set k) p \<noteq> 0" and "gfn_node (active_set k) p \<noteq> 0"
    and "hl_pprev (id_hash (memslot_sets k (active_set k))) (id_node (active_set k) p) = Some 0"
    and "rb_mem (gfn_tree (memslot_sets k (active_set k))) (gfn_node (active_set k) p) =
      Some \<lparr>rb_parent_color = 0, rb_right = 0, rb_left = 0\<rparr>"
  shows "\<exists>k'. kvm_delete_memslot k x p = Some k' \<and> active_set k' = 1 - active_set k \<and>
     set_inv (slots k') (memslot_sets k' (active_set k')) (ys @ zs) \<and>
     kvm_memslots_empty (memslot_sets k' (active_set k)) \<and>
     table_ok (slots k') (memslot_sets k' (active_set k)) (set (ys @ x # zs))"
proof -
  define c where "c = 1 - active_set k"
  let ?a = "active_set k"
  have a: "?a < 2" "c < 2" "?a = 0 \<and> c = 1 \<or> ?a = 1 \<and> c = 0" using assms(1) by (auto simp: vm_inv_def c_def)
  have i: "node_idx (memslot_sets k i) = i" "set_inv (slots k) (memslot_sets k i) (ys @ x # zs)" if "i < 2" for i
    using assms(1) that by (auto simp: vm_inv_def)
  obtain xl where x: "slots k x = Some xl" "slot_as_id xl = 0" using assms(1) by (auto simp: vm_inv_def)
  have xnz: "x \<noteq> 0" using i(2) [OF a(1)] by (auto simp: set_inv_def tree_ok_def slot_ok_def)
  obtain m1 where m1: "replace_in_set (slots k) (memslot_sets k c) x 0 = Some m1" "set_inv (slots k) m1 (ys @ zs)"
    "node_idx m1 = c"
    using replace_in_set_remove [OF i(2) [OF a(2)]] i(1) [OF a(2)] unfolding keeps_links_def by metis
  have "last_used_slot (memslot_sets k ?a) \<noteq> p"
    using i(2) [OF a(1)] assms(5,6) by (auto simp: set_inv_def)
  with assms(6-10) i(1) [OF a(1)] have m0: "replace_in_set (slots k) (memslot_sets k ?a) p 0 =
      Some ((memslot_sets k ?a)\<lparr>gfn_tree := (gfn_tree (memslot_sets k ?a))\<lparr>rb_root := 0\<rparr>\<rparr>)"
    by (intro erase_zeroed_slot) simp_all
  have as: "kvm_memslots_get_as_id k' x 0 = Some 0" "kvm_memslots_get_as_id k' p 0 = Some 0"
    if "slots k' = slots k" for k'
    using x xnz assms(3,4,6) that by (simp_all add: kvm_memslots_get_as_id_def slot_load_def)
  have inact: "kvm_get_inactive_memslots k' 0 = Some j"
    if "active_set k' = i" "node_idx (memslot_sets k' i) = i" "i = 0 \<and> j = 1 \<or> i = 1 \<and> j = 0" for k' i j
    using that by (auto simp: kvm_get_inactive_memslots_def raw_kvm_memslots_def KVM_ADDRESS_SPACE_NUM_def)
  let ?g = "(generation (memslot_sets k ?a) OR KVM_MEMSLOT_GEN_UPDATE_IN_PROGRESS) AND NOT KVM_MEMSLOT_GEN_UPDATE_IN_PROGRESS"
  let ?k = "k\<lparr>memslot_sets := (memslot_sets k)(c := m1\<lparr>generation := ?g + 1\<rparr>,
      ?a := (memslot_sets k ?a)\<lparr>gfn_tree := (gfn_tree (memslot_sets k ?a))\<lparr>rb_root := 0\<rparr>\<rparr>),
     active_set := c, slots_arch_lock := slots_arch_lock k - 1\<rparr>"
  have "kvm_delete_memslot k x p = Some ?k"
    using a(3) i(1) [of 0] i(1) [of 1] m1 m0 assms(2)
    by (auto simp: kvm_delete_memslot_def kvm_replace_memslot_def kvm_activate_memslot_def kvm_swap_active_memslots_def
        as inact set_generation_def unlock_arch_def raw_kvm_memslots_def KVM_ADDRESS_SPACE_NUM_def
        kvm_arch_memslots_updated_def fun_upd_twist)
  moreover have "set_inv (slots ?k) (memslot_sets ?k c) (ys @ zs)" using m1(2) a(3) by auto
  moreover have "table_ok (slots ?k) (memslot_sets ?k ?a) (set (ys @ x # zs))"
    using i(2) [OF a(1)] by (simp add: set_inv_def)
  ultimately show ?thesis
    unfolding c_def [symmetric] by (intro exI [of _ ?k]) (simp add: kvm_memslots_empty_def RB_EMPTY_ROOT_def)
qed

theorem delete_empties_inactive_tree_witness:
  "\<exists>k'. kvm_delete_memslot one_vm 0x10000 0x20000 = Some k' \<and> active_set k' = 1 \<and>
     kvm_memslots_empty (memslot_sets k' 0) \<and> table_ok (slots k') (memslot_sets k' 0) {0x10000}"
proof -
  have "vm_inv one_vm ([] @ 0x10000 # [])" using one_vm_inv by simp
  from delete_empties_inactive_tree [OF this _ one_same(4,5)] show ?thesis
    by (simp add: one_vm_def demo_vm_def) (auto simp: one_set_def demo_set_def id_node_def gfn_node_def mk_node_def RB_RED_def)
qed

section \<open>Metadata\<close>

text \<open>
  When the TDP MMU is on, a slot has no reverse maps; the clean-up after a failed allocation
  of the large-page arrays nevertheless frees them, so an allocation failure is not reported as
  \<^verbatim>\<open>STATUS_NO_MEMORY\<close> but ends in freeing NULL.
\<close>

theorem metadata_failure_frees_null:
  assumes "slots k p = Some sl" and "p \<noteq> 0" and "tdp_mmu_enabled e"
    and "pool_alloc e (nalloc k) (raw_kvm_mmu_slot_lpages sl (npages sl) 2 * 4) = 0"
  shows "kvm_alloc_memslot_metadata e k p = None"
proof -
  have null: "metadata_out_free k' p = None" if "slots k' p = Some sl'" "rmap (slot_arch sl') = [0, 0, 0]" for k' sl'
    using that assms(2) by (simp add: metadata_out_free_def memslot_rmap_free_def numeral_3_eq_3 slot_load_def ExFreePool_def)
  have "raw_kvm_mmu_slot_lpages (sl\<lparr>slot_arch := r\<rparr>) (npages sl) 2 = raw_kvm_mmu_slot_lpages sl (npages sl) 2" for r
    by (simp add: raw_kvm_mmu_slot_lpages_def)
  then show ?thesis using assms null
    by (simp add: kvm_alloc_memslot_metadata_def slot_load_def upd_slot_def kvm_memslots_have_rmaps_def
        kvm_shadow_root_allocated_def lpage_round_def ExAllocatePool_def Let_def numeral_2_eq_2)
qed

theorem metadata_failure_frees_null_witness:
  "kvm_alloc_memslot_metadata (demo_env\<lparr>pool_alloc := \<lambda>_ _. 0\<rparr>) one_vm 0x10000 = None"
  using metadata_failure_frees_null [OF one_slots(1), of "demo_env\<lparr>pool_alloc := \<lambda>_ _. 0\<rparr>"]
  by (simp add: demo_env_def)

end
