(* ===== verification/Spte.thy ===== *)
theory Spte
  imports Svmx_Prelude
begin

text \<open>
  Shadow page-table entries: \<^verbatim>\<open>src/svmx/spte.h\<close> and \<^verbatim>\<open>src/svmx/spte.c\<close>, with the page-table masks
  of \<^verbatim>\<open>mmu.h\<close> and the EPT bits of \<^verbatim>\<open>vmx.h\<close>. The global masks \<^verbatim>\<open>shadow_*\<close> are the record
  \<open>shadow_masks\<close>, which the functions that set them return updated. Address translation of the
  host kernel (\<^verbatim>\<open>MmGetPhysicalAddress\<close>) is done by the caller, so a child table is given by its
  physical address.
\<close>

section \<open>Masks\<close>

definition PT_PRESENT_MASK :: u64 where [bit_masks]: "PT_PRESENT_MASK = 1"
definition PT_WRITABLE_MASK :: u64 where [bit_masks]: "PT_WRITABLE_MASK = 2"
definition PT_USER_MASK :: u64 where [bit_masks]: "PT_USER_MASK = 4"
definition PT_ACCESSED_MASK :: u64 where [bit_masks]: "PT_ACCESSED_MASK = 0x20"
definition PT_DIRTY_MASK :: u64 where [bit_masks]: "PT_DIRTY_MASK = 0x40"
definition PT_PAGE_SIZE_MASK :: u64 where [bit_masks]: "PT_PAGE_SIZE_MASK = 0x80"
definition PT64_NX_MASK :: u64 where [bit_masks]: "PT64_NX_MASK = BIT_ULL 63"

definition ACC_EXEC_MASK :: u32 where [bit_masks]: "ACC_EXEC_MASK = 1"
definition ACC_WRITE_MASK :: u32 where [bit_masks]: "ACC_WRITE_MASK = 2"
definition ACC_USER_MASK :: u32 where [bit_masks]: "ACC_USER_MASK = 4"
definition ACC_ALL :: u32 where [bit_masks]: "ACC_ALL = ACC_EXEC_MASK OR ACC_WRITE_MASK OR ACC_USER_MASK"

definition VMX_EPT_READABLE_MASK :: u64 where [bit_masks]: "VMX_EPT_READABLE_MASK = 1"
definition VMX_EPT_WRITABLE_MASK :: u64 where [bit_masks]: "VMX_EPT_WRITABLE_MASK = 2"
definition VMX_EPT_EXECUTABLE_MASK :: u64 where [bit_masks]: "VMX_EPT_EXECUTABLE_MASK = 4"
definition VMX_EPT_IPAT_BIT :: u64 where [bit_masks]: "VMX_EPT_IPAT_BIT = 0x40"
definition VMX_EPT_ACCESS_BIT :: u64 where [bit_masks]: "VMX_EPT_ACCESS_BIT = 0x100"
definition VMX_EPT_DIRTY_BIT :: u64 where [bit_masks]: "VMX_EPT_DIRTY_BIT = 0x200"
definition VMX_EPT_MT_MASK :: u64 where [bit_masks]: "VMX_EPT_MT_MASK = 0x38"
definition VMX_EPT_RWX_MASK :: u64 where [bit_masks]:
  "VMX_EPT_RWX_MASK = VMX_EPT_READABLE_MASK OR VMX_EPT_WRITABLE_MASK OR VMX_EPT_EXECUTABLE_MASK"
definition VMX_EPT_MISCONFIG_WX_VALUE :: u64 where [bit_masks]:
  "VMX_EPT_MISCONFIG_WX_VALUE = VMX_EPT_WRITABLE_MASK OR VMX_EPT_EXECUTABLE_MASK"

definition MMIO_SPTE_GEN_LOW_MASK :: u64 where [bit_masks]: "MMIO_SPTE_GEN_LOW_MASK = GENMASK_ULL 10 3"
definition MMIO_SPTE_GEN_HIGH_MASK :: u64 where [bit_masks]: "MMIO_SPTE_GEN_HIGH_MASK = GENMASK_ULL 62 52"
abbreviation MMIO_SPTE_GEN_LOW_BITS :: nat where "MMIO_SPTE_GEN_LOW_BITS \<equiv> 10 - 3 + 1"
abbreviation MMIO_SPTE_GEN_HIGH_BITS :: nat where "MMIO_SPTE_GEN_HIGH_BITS \<equiv> 62 - 52 + 1"
abbreviation MMIO_SPTE_GEN_LOW_SHIFT :: nat where "MMIO_SPTE_GEN_LOW_SHIFT \<equiv> 3 - 0"
abbreviation MMIO_SPTE_GEN_HIGH_SHIFT :: nat where "MMIO_SPTE_GEN_HIGH_SHIFT \<equiv> 52 - MMIO_SPTE_GEN_LOW_BITS"
definition MMIO_SPTE_GEN_MASK :: u64 where [bit_masks]:
  "MMIO_SPTE_GEN_MASK = GENMASK_ULL (MMIO_SPTE_GEN_LOW_BITS + MMIO_SPTE_GEN_HIGH_BITS - 1) 0"

definition SPTE_MMU_PRESENT_MASK :: u64 where [bit_masks]: "SPTE_MMU_PRESENT_MASK = BIT_ULL 11"
definition SHADOW_ACC_TRACK_SAVED_BITS_MASK :: u64 where [bit_masks]: "SHADOW_ACC_TRACK_SAVED_BITS_MASK = 1 OR 4"
abbreviation SHADOW_ACC_TRACK_SAVED_BITS_SHIFT :: nat where "SHADOW_ACC_TRACK_SAVED_BITS_SHIFT \<equiv> 54"
definition SPTE_TDP_AD_MASK :: u64 where [bit_masks]: "SPTE_TDP_AD_MASK = push_bit 52 3"
definition SPTE_TDP_AD_DISABLED :: u64 where [bit_masks]: "SPTE_TDP_AD_DISABLED = push_bit 52 1"
definition SPTE_TDP_AD_WRPROT_ONLY :: u64 where [bit_masks]: "SPTE_TDP_AD_WRPROT_ONLY = push_bit 52 2"
definition SPTE_BASE_ADDR_MASK :: u64 where [bit_masks]:
  "SPTE_BASE_ADDR_MASK = (push_bit 52 1 - 1) AND NOT (PAGE_SIZE - 1)"
definition EPT_SPTE_HOST_WRITABLE :: u64 where [bit_masks]: "EPT_SPTE_HOST_WRITABLE = BIT_ULL 57"
definition EPT_SPTE_MMU_WRITABLE :: u64 where [bit_masks]: "EPT_SPTE_MMU_WRITABLE = BIT_ULL 58"
definition DEFAULT_SPTE_HOST_WRITABLE :: u64 where [bit_masks]: "DEFAULT_SPTE_HOST_WRITABLE = BIT_ULL 9"
definition DEFAULT_SPTE_MMU_WRITABLE :: u64 where [bit_masks]: "DEFAULT_SPTE_MMU_WRITABLE = BIT_ULL 10"
definition SPTE_MMIO_ALLOWED_MASK :: u64 where [bit_masks]:
  "SPTE_MMIO_ALLOWED_MASK = BIT_ULL 63 OR GENMASK_ULL 51 12 OR GENMASK_ULL 2 0"
definition REMOVED_SPTE :: u64 where [bit_masks]: "REMOVED_SPTE = 0x5a0"

definition rsvd_bits :: "int \<Rightarrow> int \<Rightarrow> u64" where
  "rsvd_bits s e = (if e < s then 0 else push_bit (nat s) (push_bit (nat (e - s)) 2 - 1))"

record shadow_masks =
  shadow_host_writable_mask :: u64
  shadow_mmu_writable_mask :: u64
  shadow_nx_mask :: u64
  shadow_x_mask :: u64
  shadow_user_mask :: u64
  shadow_accessed_mask :: u64
  shadow_dirty_mask :: u64
  shadow_mmio_value :: u64
  shadow_mmio_mask :: u64
  shadow_mmio_access_mask :: u64
  shadow_present_mask :: u64
  shadow_memtype_mask :: u64
  shadow_me_value :: u64
  shadow_me_mask :: u64
  shadow_acc_track_mask :: u64
  shadow_nonpresent_or_rsvd_mask :: u64
  spte_phys_bits :: u8
  enable_mmio_caching :: bool
  allow_mmio_caching :: bool

section \<open>Setting the masks\<close>

definition kvm_mmu_set_mmio_spte_mask :: "shadow_masks \<Rightarrow> u64 \<Rightarrow> u64 \<Rightarrow> u64 \<Rightarrow> shadow_masks" where
  "kvm_mmu_set_mmio_spte_mask m mmio_value mmio_mask access_mask = (let
       m = m\<lparr>enable_mmio_caching := allow_mmio_caching m\<rparr>;
       mmio_value = (if \<not> enable_mmio_caching m then 0 else mmio_value);
       mmio_value = (if mmio_mask AND NOT SPTE_MMIO_ALLOWED_MASK \<noteq> 0 then 0 else mmio_value) in
     m\<lparr>shadow_mmio_value := mmio_value, shadow_mmio_mask := mmio_mask, shadow_mmio_access_mask := access_mask\<rparr>)"

definition kvm_mmu_set_ept_masks :: "shadow_masks \<Rightarrow> bool \<Rightarrow> bool \<Rightarrow> shadow_masks" where
  "kvm_mmu_set_ept_masks m has_ad_bits has_exec_only = kvm_mmu_set_mmio_spte_mask (m\<lparr>
       shadow_user_mask := VMX_EPT_READABLE_MASK,
       shadow_accessed_mask := (if has_ad_bits then VMX_EPT_ACCESS_BIT else 0),
       shadow_dirty_mask := (if has_ad_bits then VMX_EPT_DIRTY_BIT else 0),
       shadow_nx_mask := 0,
       shadow_x_mask := VMX_EPT_EXECUTABLE_MASK,
       shadow_present_mask := (if has_exec_only then 0 else VMX_EPT_READABLE_MASK),
       shadow_memtype_mask := VMX_EPT_MT_MASK OR VMX_EPT_IPAT_BIT,
       shadow_acc_track_mask := VMX_EPT_RWX_MASK,
       shadow_host_writable_mask := EPT_SPTE_HOST_WRITABLE,
       shadow_mmu_writable_mask := EPT_SPTE_MMU_WRITABLE\<rparr>)
     VMX_EPT_MISCONFIG_WX_VALUE VMX_EPT_RWX_MASK 0"

text \<open>\<open>phys_bits\<close> is \<^verbatim>\<open>kvm_get_shadow_phys_bits()\<close>: the low byte of CPUID 0x80000008.EAX.\<close>

definition kvm_get_shadow_phys_bits :: "u32 \<Rightarrow> u8" where
  "kvm_get_shadow_phys_bits cpuid_eax = ucast (cpuid_eax AND 0xff)"

definition kvm_mmu_reset_all_pte_masks :: "shadow_masks \<Rightarrow> u32 \<Rightarrow> shadow_masks" where
  "kvm_mmu_reset_all_pte_masks m cpuid_eax = (let
       m = m\<lparr>spte_phys_bits := kvm_get_shadow_phys_bits cpuid_eax,
         shadow_nonpresent_or_rsvd_mask := 0,
         shadow_user_mask := PT_USER_MASK,
         shadow_accessed_mask := PT_ACCESSED_MASK,
         shadow_dirty_mask := PT_DIRTY_MASK,
         shadow_nx_mask := PT64_NX_MASK,
         shadow_x_mask := 0,
         shadow_present_mask := PT_PRESENT_MASK,
         shadow_memtype_mask := 0,
         shadow_acc_track_mask := 0,
         shadow_me_mask := 0,
         shadow_me_value := 0,
         shadow_host_writable_mask := DEFAULT_SPTE_HOST_WRITABLE,
         shadow_mmu_writable_mask := DEFAULT_SPTE_MMU_WRITABLE\<rparr>;
       mask = (if spte_phys_bits m < 52 then BIT_ULL 51 OR PT_PRESENT_MASK else 0) in
     kvm_mmu_set_mmio_spte_mask m mask mask (ucast (ACC_WRITE_MASK OR ACC_USER_MASK)))"

definition kvm_mmu_spte_module_init :: "shadow_masks \<Rightarrow> shadow_masks" where
  "kvm_mmu_spte_module_init m = m\<lparr>allow_mmio_caching := enable_mmio_caching m\<rparr>"

section \<open>Predicates on entries\<close>

definition kvm_ad_enabled :: "shadow_masks \<Rightarrow> bool" where
  "kvm_ad_enabled m \<longleftrightarrow> shadow_accessed_mask m \<noteq> 0"

definition is_large_pte :: "u64 \<Rightarrow> bool" where "is_large_pte pte \<longleftrightarrow> pte AND PT_PAGE_SIZE_MASK \<noteq> 0"

definition is_last_spte :: "u64 \<Rightarrow> nat \<Rightarrow> bool" where
  "is_last_spte pte level \<longleftrightarrow> level = 1 \<or> is_large_pte pte"

definition is_shadow_present_pte :: "u64 \<Rightarrow> bool" where
  "is_shadow_present_pte pte \<longleftrightarrow> pte AND SPTE_MMU_PRESENT_MASK \<noteq> 0"

record rsvd_bits_validate =
  rsvd_bits_mask :: "u64 list list"
  bad_mt_xwr :: u64

definition is_bad_mt_xwr :: "rsvd_bits_validate \<Rightarrow> u64 \<Rightarrow> bool" where
  "is_bad_mt_xwr c pte \<longleftrightarrow> bad_mt_xwr c AND BIT_ULL (unat (pte AND 0x3f)) \<noteq> 0"

definition get_rsvd_bits :: "rsvd_bits_validate \<Rightarrow> u64 \<Rightarrow> nat \<Rightarrow> u64 option" where
  "get_rsvd_bits c pte level = (let bit7 = unat (drop_bit 7 pte AND 1) in
     if 1 \<le> level \<and> bit7 < length (rsvd_bits_mask c) \<and> level - 1 < length (rsvd_bits_mask c ! bit7)
     then Some (rsvd_bits_mask c ! bit7 ! (level - 1)) else None)"

definition is_rsvd_bits_set :: "rsvd_bits_validate \<Rightarrow> u64 \<Rightarrow> nat \<Rightarrow> bool option" where
  "is_rsvd_bits_set c pte level = do {
     r \<leftarrow> get_rsvd_bits c pte level;
     Some (pte AND r \<noteq> 0)
   }"

definition is_rsvd_spte :: "rsvd_bits_validate \<Rightarrow> u64 \<Rightarrow> nat \<Rightarrow> bool option" where
  "is_rsvd_spte c spte level = (if is_bad_mt_xwr c spte then Some True else is_rsvd_bits_set c spte level)"

definition is_mmio_spte :: "u64 \<Rightarrow> bool" where
  "is_mmio_spte pte \<longleftrightarrow> pte AND SPTE_MMU_PRESENT_MASK \<noteq> 0"

definition spte_to_pfn :: "u64 \<Rightarrow> kvm_pfn_t" where
  "spte_to_pfn pte = drop_bit PAGE_SHIFT (pte AND SPTE_BASE_ADDR_MASK)"

definition is_removed_spte :: "u64 \<Rightarrow> bool" where "is_removed_spte spte \<longleftrightarrow> spte = REMOVED_SPTE"

definition is_executable_pte :: "shadow_masks \<Rightarrow> u64 \<Rightarrow> bool" where
  "is_executable_pte m spte \<longleftrightarrow> spte AND (shadow_x_mask m OR shadow_nx_mask m) = shadow_x_mask m"

definition is_writable_pte :: "u64 \<Rightarrow> bool" where "is_writable_pte pte \<longleftrightarrow> pte AND PT_WRITABLE_MASK \<noteq> 0"

definition spte_ad_enabled :: "u64 \<Rightarrow> bool" where
  "spte_ad_enabled spte \<longleftrightarrow> spte AND SPTE_TDP_AD_MASK \<noteq> SPTE_TDP_AD_DISABLED"

definition is_access_track_spte :: "shadow_masks \<Rightarrow> u64 \<Rightarrow> bool" where
  "is_access_track_spte m spte \<longleftrightarrow> \<not> spte_ad_enabled spte \<and> spte AND shadow_acc_track_mask m = 0"

definition restore_acc_track_spte :: "shadow_masks \<Rightarrow> u64 \<Rightarrow> u64" where
  "restore_acc_track_spte m spte = (let
       saved_bits = drop_bit SHADOW_ACC_TRACK_SAVED_BITS_SHIFT spte AND SHADOW_ACC_TRACK_SAVED_BITS_MASK;
       spte = spte AND NOT (shadow_acc_track_mask m);
       spte = spte AND NOT (push_bit SHADOW_ACC_TRACK_SAVED_BITS_SHIFT SHADOW_ACC_TRACK_SAVED_BITS_MASK) in
     spte OR saved_bits)"

definition is_mmu_writable_spte :: "shadow_masks \<Rightarrow> u64 \<Rightarrow> bool" where
  "is_mmu_writable_spte m spte \<longleftrightarrow> spte AND shadow_mmu_writable_mask m \<noteq> 0"

definition spte_index :: "u64 \<Rightarrow> u64" where "spte_index sptep = sptep div 8 AND (512 - 1)"

definition spte_shadow_accessed_mask :: "shadow_masks \<Rightarrow> u64 \<Rightarrow> u64" where
  "spte_shadow_accessed_mask m spte = (if spte_ad_enabled spte then shadow_accessed_mask m else 0)"

definition spte_shadow_dirty_mask :: "shadow_masks \<Rightarrow> u64 \<Rightarrow> u64" where
  "spte_shadow_dirty_mask m spte = (if spte_ad_enabled spte then shadow_dirty_mask m else 0)"

definition is_dirty_spte :: "shadow_masks \<Rightarrow> u64 \<Rightarrow> bool" where
  "is_dirty_spte m spte = (let dirty_mask = spte_shadow_dirty_mask m spte in
     if dirty_mask \<noteq> 0 then spte AND dirty_mask \<noteq> 0 else spte AND PT_WRITABLE_MASK \<noteq> 0)"

definition is_accessed_spte :: "shadow_masks \<Rightarrow> u64 \<Rightarrow> bool" where
  "is_accessed_spte m spte = (let accessed_mask = spte_shadow_accessed_mask m spte in
     if accessed_mask \<noteq> 0 then spte AND accessed_mask \<noteq> 0 else \<not> is_access_track_spte m spte)"

definition spte_has_volatile_bits :: "shadow_masks \<Rightarrow> u64 \<Rightarrow> bool" where
  "spte_has_volatile_bits m spte =
     (if \<not> is_writable_pte spte \<and> is_mmu_writable_spte m spte then True
      else if is_access_track_spte m spte then True
      else if spte_ad_enabled spte \<and>
        (spte AND shadow_accessed_mask m = 0 \<or> is_writable_pte spte \<and> spte AND shadow_dirty_mask m = 0) then True
      else False)"

section \<open>Roles\<close>

record kvm_mmu_page_role =
  role_level :: nat
  has_4_byte_gpte :: bool
  quadrant :: nat
  role_direct :: bool
  role_access :: nat
  role_invalid :: bool
  efer_nx :: bool
  cr0_wp :: bool
  smep_andnot_wp :: bool
  smap_andnot_wp :: bool
  ad_disabled :: bool
  guest_mode :: bool
  passthrough :: bool
  role_smm :: nat

text \<open>The bit fields of the union, in their C widths, and \<^verbatim>\<open>role.word\<close>.\<close>

definition role_fits :: "kvm_mmu_page_role \<Rightarrow> bool" where
  "role_fits r \<longleftrightarrow> role_level r < 16 \<and> quadrant r < 4 \<and> role_access r < 8 \<and> role_smm r < 256"

definition field :: "nat \<Rightarrow> nat \<Rightarrow> nat \<Rightarrow> nat" where
  "field w v rest = v + 2 ^ w * rest"

definition role_word :: "kvm_mmu_page_role \<Rightarrow> nat" where
  "role_word r = field 4 (role_level r) (field 1 (of_bool (has_4_byte_gpte r)) (field 2 (quadrant r)
     (field 1 (of_bool (role_direct r)) (field 3 (role_access r) (field 1 (of_bool (role_invalid r))
     (field 1 (of_bool (efer_nx r)) (field 1 (of_bool (cr0_wp r)) (field 1 (of_bool (smep_andnot_wp r))
     (field 1 (of_bool (smap_andnot_wp r)) (field 1 (of_bool (ad_disabled r)) (field 1 (of_bool (guest_mode r))
     (field 1 (of_bool (passthrough r)) (field 5 0 (field 8 (role_smm r) 0))))))))))))))"

definition kvm_mmu_role_as_id :: "kvm_mmu_page_role \<Rightarrow> nat" where
  "kvm_mmu_role_as_id role = (if role_smm role \<noteq> 0 then 1 else 0)"

text \<open>\<open>cpu_dirty_log_size\<close> is a field of the vendor's operations table.\<close>

definition kvm_mmu_page_ad_need_write_protect :: "nat \<Rightarrow> kvm_mmu_page_role \<Rightarrow> bool" where
  "kvm_mmu_page_ad_need_write_protect cpu_dirty_log_size role \<longleftrightarrow> cpu_dirty_log_size \<noteq> 0 \<and> guest_mode role"

definition is_nx_huge_page_enabled :: "int \<Rightarrow> bool \<Rightarrow> bool" where
  "is_nx_huge_page_enabled nx_huge_pages disable_nx_huge_pages \<longleftrightarrow> nx_huge_pages \<noteq> 0 \<and> \<not> disable_nx_huge_pages"

section \<open>Making entries\<close>

definition make_nonleaf_spte :: "shadow_masks \<Rightarrow> u64 \<Rightarrow> bool \<Rightarrow> u64" where
  "make_nonleaf_spte m child_pa ad_dis = (let
       spte = SPTE_MMU_PRESENT_MASK;
       spte = spte OR (child_pa OR shadow_present_mask m OR PT_WRITABLE_MASK OR
         shadow_user_mask m OR shadow_x_mask m OR shadow_me_value m) in
     if ad_dis then spte OR SPTE_TDP_AD_DISABLED else spte OR shadow_accessed_mask m)"

definition generation_mmio_spte_mask :: "u64 \<Rightarrow> u64" where
  "generation_mmio_spte_mask gen =
     (push_bit MMIO_SPTE_GEN_LOW_SHIFT gen AND MMIO_SPTE_GEN_LOW_MASK) OR
     (push_bit MMIO_SPTE_GEN_HIGH_SHIFT gen AND MMIO_SPTE_GEN_HIGH_MASK)"

text \<open>\<open>generation\<close> is that of the slot set of the vCPU's address space.\<close>

definition make_mmio_spte :: "shadow_masks \<Rightarrow> u64 \<Rightarrow> gfn_t \<Rightarrow> u32 \<Rightarrow> u64" where
  "make_mmio_spte m generation gfn access = (let
       gen = generation AND MMIO_SPTE_GEN_MASK;
       spte = generation_mmio_spte_mask gen;
       gpa = push_bit PAGE_SHIFT gfn;
       access = (ucast (ucast access AND shadow_mmio_access_mask m) :: u32);
       spte = spte OR (shadow_mmio_value m OR ucast access);
       spte = spte OR (gpa OR shadow_nonpresent_or_rsvd_mask m) in
     spte OR push_bit 5 (gpa AND shadow_nonpresent_or_rsvd_mask m))"

definition kvm_is_mmio_pfn :: "kvm_pfn_t \<Rightarrow> bool" where "kvm_is_mmio_pfn pfn = False"

text \<open>\<^verbatim>\<open>if (c) spte |= x;\<close>\<close>

definition or_if :: "bool \<Rightarrow> u64 \<Rightarrow> u64 \<Rightarrow> u64" where
  "or_if c x spte = (if c then spte OR x else spte)"

definition make_spte ::
  "shadow_masks \<Rightarrow> nat \<Rightarrow> bool \<Rightarrow> kvm_mmu_page_role \<Rightarrow> u32 \<Rightarrow> kvm_pfn_t \<Rightarrow> bool \<Rightarrow> bool \<Rightarrow> bool \<times> u64" where
  "make_spte m cpu_dirty_log_size nx_huge role pte_access pfn prefetch host_writable = (let
       level = role_level role;
       spte = SPTE_MMU_PRESENT_MASK;
       wrprot = False;
       spte = or_if (ad_disabled role) SPTE_TDP_AD_DISABLED spte;
       spte = or_if (\<not> ad_disabled role \<and> kvm_mmu_page_ad_need_write_protect cpu_dirty_log_size role)
         SPTE_TDP_AD_WRPROT_ONLY spte;
       spte = spte OR shadow_present_mask m;
       spte = or_if (\<not> prefetch) (spte_shadow_accessed_mask m spte) spte;
       pte_access = (if 1 < level \<and> pte_access AND ACC_EXEC_MASK \<noteq> 0 \<and> nx_huge
                     then pte_access AND NOT ACC_EXEC_MASK else pte_access);
       spte = spte OR (if pte_access AND ACC_EXEC_MASK \<noteq> 0 then shadow_x_mask m else shadow_nx_mask m);
       spte = or_if (pte_access AND ACC_USER_MASK \<noteq> 0) (shadow_user_mask m) spte;
       spte = or_if (1 < level) PT_PAGE_SIZE_MASK spte;
       spte = or_if host_writable (shadow_host_writable_mask m) spte;
       pte_access = (if host_writable then pte_access else pte_access AND NOT ACC_WRITE_MASK);
       spte = or_if (shadow_me_value m \<noteq> 0 \<and> \<not> kvm_is_mmio_pfn pfn) (shadow_me_value m) spte in
     (wrprot, spte))"

end
