(* ===== verification/Spte_Props.thy ===== *)
theory Spte_Props
  imports Spte
begin

text \<open>
  The entries of \<^verbatim>\<open>src/svmx/spte.c\<close>: the masks in force never overlap the software bits, entries
  give back the table or the frame and generation they were made from, and the role word is a
  faithful encoding. Also what \<^verbatim>\<open>make_spte\<close> leaves out.
\<close>

section \<open>Bits of the masks\<close>

lemma bit_GENMASK_ULL: "h < 64 \<Longrightarrow> bit (GENMASK_ULL h l) n \<longleftrightarrow> l \<le> n \<and> n \<le> h"
  by (auto simp: GENMASK_ULL_def bit_simps)

lemma bit_BIT_ULL: "k < 64 \<Longrightarrow> bit (BIT_ULL k) n \<longleftrightarrow> n = k"
  by (auto simp: BIT_ULL_def bit_simps)

lemma and_BIT_ULL: "w AND BIT_ULL k = 0 \<longleftrightarrow> \<not> bit w k"
  by (simp add: BIT_ULL_def push_bit_eq_mult and_exp_eq_0_iff_not_bit)

lemma present_iff_bit: "is_shadow_present_pte pte \<longleftrightarrow> bit pte 11"
  by (simp add: is_shadow_present_pte_def SPTE_MMU_PRESENT_MASK_def and_BIT_ULL)

lemma mask_values:
  "SPTE_BASE_ADDR_MASK = 0xFFFFFFFFFF000" "SPTE_MMIO_ALLOWED_MASK = 0x800FFFFFFFFFF007"
  "MMIO_SPTE_GEN_LOW_MASK = 0x7F8" "MMIO_SPTE_GEN_HIGH_MASK = 0x7FF0000000000000" "MMIO_SPTE_GEN_MASK = 0x7FFFF"
  by (simp_all add: bit_masks mask_eq_exp_minus_1)

lemma bit_base_addr: "bit SPTE_BASE_ADDR_MASK n \<longleftrightarrow> 12 \<le> n \<and> n < 52"
proof -
  have "SPTE_BASE_ADDR_MASK = GENMASK_ULL 51 12" by (simp add: mask_values GENMASK_ULL_def mask_eq_exp_minus_1)
  then show ?thesis using bit_GENMASK_ULL [of 51 12 n] by auto
qed

lemma bit_gen_masks:
  "bit MMIO_SPTE_GEN_LOW_MASK n \<longleftrightarrow> 3 \<le> n \<and> n \<le> 10"
  "bit MMIO_SPTE_GEN_HIGH_MASK n \<longleftrightarrow> 52 \<le> n \<and> n \<le> 62"
  "bit MMIO_SPTE_GEN_MASK n \<longleftrightarrow> n \<le> 18"
  by (auto simp: MMIO_SPTE_GEN_LOW_MASK_def MMIO_SPTE_GEN_HIGH_MASK_def MMIO_SPTE_GEN_MASK_def bit_GENMASK_ULL)

lemma rsvd_bits_bit:
  assumes "0 \<le> s" "s \<le> e" "e < 64"
  shows "bit (rsvd_bits s e) n \<longleftrightarrow> s \<le> int n \<and> int n \<le> e"
proof -
  have "push_bit (nat (e - s)) 2 - 1 = (mask (Suc (nat (e - s))) :: u64)"
    by (simp add: mask_eq_exp_minus_1 push_bit_eq_mult)
  then show ?thesis using assms by (auto simp: rsvd_bits_def bit_simps)
qed

section \<open>The masks in force\<close>

text \<open>Software bits that no hardware mask may touch, and bits that tell present from MMIO entries.\<close>

definition masks_ok :: "shadow_masks \<Rightarrow> bool" where
  "masks_ok m \<longleftrightarrow> (\<forall>k \<in> {shadow_present_mask m, shadow_user_mask m, shadow_x_mask m, shadow_nx_mask m,
       shadow_accessed_mask m, shadow_dirty_mask m, shadow_me_value m, shadow_host_writable_mask m,
       shadow_mmu_writable_mask m}.
       k AND (SPTE_MMU_PRESENT_MASK OR SPTE_TDP_AD_MASK OR SPTE_BASE_ADDR_MASK OR PT_PAGE_SIZE_MASK) = 0) \<and>
     shadow_host_writable_mask m AND shadow_mmu_writable_mask m = 0 \<and>
     shadow_accessed_mask m AND shadow_dirty_mask m = 0 \<and>
     shadow_mmio_value m AND (SPTE_MMU_PRESENT_MASK OR MMIO_SPTE_GEN_LOW_MASK OR MMIO_SPTE_GEN_HIGH_MASK) = 0"

lemma ept_masks_sel:
  fixes m ad xo
  defines "m' \<equiv> kvm_mmu_set_ept_masks m ad xo"
  shows "shadow_user_mask m' = 1" "shadow_accessed_mask m' = (if ad then 0x100 else 0)"
    "shadow_dirty_mask m' = (if ad then 0x200 else 0)" "shadow_nx_mask m' = 0" "shadow_x_mask m' = 4"
    "shadow_present_mask m' = (if xo then 0 else 1)" "shadow_acc_track_mask m' = 7"
    "shadow_host_writable_mask m' = BIT_ULL 57" "shadow_mmu_writable_mask m' = BIT_ULL 58"
    "shadow_me_value m' = shadow_me_value m"
    "shadow_nonpresent_or_rsvd_mask m' = shadow_nonpresent_or_rsvd_mask m"
    "shadow_mmio_access_mask m' = 0"
    "shadow_mmio_value m' = (if allow_mmio_caching m then 6 else 0)"
  by (simp_all add: m'_def kvm_mmu_set_ept_masks_def kvm_mmu_set_mmio_spte_mask_def Let_def mask_values bit_masks)

text \<open>
  Whichever of \<^verbatim>\<open>kvm_mmu_reset_all_pte_masks\<close> and \<^verbatim>\<open>kvm_mmu_set_ept_masks\<close> set them last, the
  masks in force do not overlap the MMU-present bit, the access-tracking type, the frame bits or
  the large-page bit; the two writability bits differ; and the MMIO value stays clear of the
  present bit and of the generation, so that an MMIO entry is never taken for a present one.
\<close>

lemma masks_in_force_ok:
  assumes "shadow_me_value m = 0"
  shows "masks_ok (kvm_mmu_set_ept_masks m has_ad_bits has_exec_only) \<and> masks_ok (kvm_mmu_reset_all_pte_masks m eax)"
proof
  show "masks_ok (kvm_mmu_set_ept_masks m has_ad_bits has_exec_only)"
    using assms by (simp add: masks_ok_def ept_masks_sel mask_values bit_masks)
  show "masks_ok (kvm_mmu_reset_all_pte_masks m eax)"
    by (simp add: masks_ok_def kvm_mmu_reset_all_pte_masks_def kvm_mmu_set_mmio_spte_mask_def Let_def mask_values bit_masks)
qed

text \<open>The masks before any setter has run.\<close>

definition demo_masks :: shadow_masks where
  "demo_masks = kvm_mmu_spte_module_init \<lparr>shadow_host_writable_mask = 0, shadow_mmu_writable_mask = 0, shadow_nx_mask = 0,
     shadow_x_mask = 0, shadow_user_mask = 0, shadow_accessed_mask = 0, shadow_dirty_mask = 0, shadow_mmio_value = 0,
     shadow_mmio_mask = 0, shadow_mmio_access_mask = 0, shadow_present_mask = 0, shadow_memtype_mask = 0,
     shadow_me_value = 0, shadow_me_mask = 0, shadow_acc_track_mask = 0, shadow_nonpresent_or_rsvd_mask = 0,
     spte_phys_bits = 0, enable_mmio_caching = True, allow_mmio_caching = False\<rparr>"

section \<open>Round trips\<close>

lemma masks_okD:
  assumes "masks_ok m" "k \<in> {shadow_present_mask m, shadow_user_mask m, shadow_x_mask m, shadow_nx_mask m,
       shadow_accessed_mask m, shadow_dirty_mask m, shadow_me_value m, shadow_host_writable_mask m}"
  shows "k AND SPTE_BASE_ADDR_MASK = 0" "k AND PT_PAGE_SIZE_MASK = 0" "k AND SPTE_MMU_PRESENT_MASK = 0"
    "k AND SPTE_TDP_AD_MASK = 0"
proof -
  have "k AND (SPTE_MMU_PRESENT_MASK OR SPTE_TDP_AD_MASK OR SPTE_BASE_ADDR_MASK OR PT_PAGE_SIZE_MASK) = 0"
    using assms unfolding masks_ok_def by blast
  then show "k AND SPTE_BASE_ADDR_MASK = 0" "k AND PT_PAGE_SIZE_MASK = 0" "k AND SPTE_MMU_PRESENT_MASK = 0"
    "k AND SPTE_TDP_AD_MASK = 0"
    by (simp_all add: bit.conj_disj_distrib or_eq_0_iff)
qed

text \<open>
  C13: an entry made for a child page table gives that table back: it is present, not a leaf above
  the lowest level, not frozen, and its frame number is that of the table.
\<close>

theorem nonleaf_spte_roundtrip:
  assumes "masks_ok m" and "pa AND NOT SPTE_BASE_ADDR_MASK = 0"
  shows "spte_to_pfn (make_nonleaf_spte m pa ad) = drop_bit PAGE_SHIFT pa \<and>
     is_shadow_present_pte (make_nonleaf_spte m pa ad) \<and> \<not> is_removed_spte (make_nonleaf_spte m pa ad) \<and>
     is_writable_pte (make_nonleaf_spte m pa ad) \<and>
     (1 < level \<longrightarrow> \<not> is_last_spte (make_nonleaf_spte m pa ad) level)"
proof -
  let ?s = "make_nonleaf_spte m pa ad"
  note ok = masks_okD [OF assms(1)]
  have pa: "pa AND SPTE_BASE_ADDR_MASK = pa"
    using assms(2) bit.conj_disj_distrib [of pa SPTE_BASE_ADDR_MASK "NOT SPTE_BASE_ADDR_MASK"] by simp
  have "pa AND PT_PAGE_SIZE_MASK = pa AND (SPTE_BASE_ADDR_MASK AND PT_PAGE_SIZE_MASK)" by (simp add: pa flip: and.assoc)
  then have lp: "pa AND PT_PAGE_SIZE_MASK = 0" by (simp add: mask_values bit_masks)
  have base: "?s AND SPTE_BASE_ADDR_MASK = pa"
    by (simp add: make_nonleaf_spte_def Let_def bit.conj_disj_distrib2 ok pa) (simp add: mask_values bit_masks)
  have pr: "is_shadow_present_pte ?s" "is_writable_pte ?s"
    by (simp_all add: make_nonleaf_spte_def Let_def is_shadow_present_pte_def is_writable_pte_def
        bit.conj_disj_distrib2 or_eq_0_iff) (simp_all add: bit_masks)
  have "?s AND PT_PAGE_SIZE_MASK = 0"
    by (simp add: make_nonleaf_spte_def Let_def bit.conj_disj_distrib2 ok lp) (simp add: bit_masks)
  moreover have "\<not> is_shadow_present_pte REMOVED_SPTE" by (simp add: is_shadow_present_pte_def bit_masks)
  ultimately show ?thesis
    using base pr by (auto simp: spte_to_pfn_def is_last_spte_def is_large_pte_def is_removed_spte_def)
qed

theorem nonleaf_spte_roundtrip_witness:
  "spte_to_pfn (make_nonleaf_spte (kvm_mmu_set_ept_masks demo_masks True False) 0x12345000 False) = 0x12345"
  using nonleaf_spte_roundtrip [of "kvm_mmu_set_ept_masks demo_masks True False" "0x12345000" False]
  by (simp add: masks_ok_def ept_masks_sel mask_values bit_masks) (simp add: demo_masks_def kvm_mmu_spte_module_init_def)

text \<open>What \<^verbatim>\<open>make_mmio_spte\<close> packs around the frame number.\<close>

definition mmio_generation :: "u64 \<Rightarrow> u64" where
  "mmio_generation spte = drop_bit MMIO_SPTE_GEN_LOW_SHIFT (spte AND MMIO_SPTE_GEN_LOW_MASK) OR
     drop_bit MMIO_SPTE_GEN_HIGH_SHIFT (spte AND MMIO_SPTE_GEN_HIGH_MASK)"

lemma bit_generation_mask:
  "bit (generation_mmio_spte_mask g) n \<longleftrightarrow>
     3 \<le> n \<and> n \<le> 10 \<and> bit g (n - 3) \<or> 52 \<le> n \<and> n \<le> 62 \<and> bit g (n - 44)"
  by (auto simp: generation_mmio_spte_mask_def bit_simps bit_gen_masks)

lemma bit_mmio_spte:
  assumes "shadow_nonpresent_or_rsvd_mask m = 0"
  shows "bit (make_mmio_spte (kvm_mmu_set_ept_masks m ad xo) gen gfn access) n \<longleftrightarrow>
     bit (generation_mmio_spte_mask (gen AND MMIO_SPTE_GEN_MASK)) n \<or>
     (allow_mmio_caching m \<and> (n = 1 \<or> n = 2)) \<or> 12 \<le> n \<and> n < 64 \<and> bit gfn (n - 12)"
proof -
  have "bit (6 :: u64) n \<longleftrightarrow> n = 1 \<or> n = 2"
  proof -
    have six: "(6 :: u64) = BIT_ULL 1 OR BIT_ULL 2" by (simp add: BIT_ULL_def)
    show ?thesis unfolding six bit_or_iff using bit_BIT_ULL [of 1 n] bit_BIT_ULL [of 2 n] by simp
  qed
  then show ?thesis
    using assms by (auto simp: make_mmio_spte_def Let_def ept_masks_sel bit_or_iff bit_push_bit_iff bit_imp_le_length)
qed

text \<open>
  C14: under the EPT masks an MMIO entry gives back the frame number and the low 19 bits of the
  slot generation it was made from, so a stale entry can be told from a current one; and it is not
  MMU-present.
\<close>

theorem mmio_spte_roundtrip:
  assumes "shadow_nonpresent_or_rsvd_mask m = 0" and "gfn < 2 ^ 40"
  shows "spte_to_pfn (make_mmio_spte (kvm_mmu_set_ept_masks m ad xo) gen gfn access) = gfn \<and>
     mmio_generation (make_mmio_spte (kvm_mmu_set_ept_masks m ad xo) gen gfn access) = gen AND MMIO_SPTE_GEN_MASK \<and>
     \<not> is_shadow_present_pte (make_mmio_spte (kvm_mmu_set_ept_masks m ad xo) gen gfn access)"
proof -
  define spte where "spte = make_mmio_spte (kvm_mmu_set_ept_masks m ad xo) gen gfn access"
  note bits = bit_mmio_spte [OF assms(1), of ad xo gen gfn access, folded spte_def] bit_generation_mask bit_gen_masks bit_and_iff
  have hi: "n < 40" if "bit gfn n" for n using bit_above_less [OF assms(2), of n] that by force
  have "spte_to_pfn spte = gfn"
    by (rule bit_eqI) (auto simp: spte_to_pfn_def bit_simps bits bit_base_addr dest: hi)
  moreover have "mmio_generation spte = gen AND MMIO_SPTE_GEN_MASK"
    by (rule bit_eqI) (auto simp: mmio_generation_def bit_simps bits dest: hi)
  moreover have "\<not> bit spte 11" by (auto simp: bits)
  then have "\<not> is_shadow_present_pte spte"
    by (simp add: present_iff_bit)
  ultimately show ?thesis unfolding spte_def by blast
qed

theorem mmio_spte_roundtrip_witness:
  "spte_to_pfn (make_mmio_spte (kvm_mmu_set_ept_masks demo_masks True False) 0x800012345 0xFEE00 7) = 0xFEE00 \<and>
   mmio_generation (make_mmio_spte (kvm_mmu_set_ept_masks demo_masks True False) 0x800012345 0xFEE00 7) = 0x12345"
  using mmio_spte_roundtrip [of demo_masks "0xFEE00" True False "0x800012345" 7]
  by (simp add: demo_masks_def kvm_mmu_spte_module_init_def mask_values)

text \<open>
  C15: \<^verbatim>\<open>restore_acc_track_spte\<close> puts the saved read and execute bits back in place, clears the
  tracked bits and the area they were saved in, and changes no other bit; the result is no longer
  an access-tracked entry when a saved bit was set.
\<close>

theorem restore_acc_track_bits:
  "bit (restore_acc_track_spte (kvm_mmu_set_ept_masks m ad xo) spte) n =
     (if n = 0 \<or> n = 2 then bit spte (n + 54)
      else if n \<in> {1, 54, 56} then False
      else bit spte n)"
proof -
  have b7: "bit (7 :: u64) k \<longleftrightarrow> k < 3" for k
  proof -
    have seven: "(7 :: u64) = mask 3" by (simp add: mask_eq_exp_minus_1)
    show ?thesis unfolding seven by (auto simp: bit_mask_iff)
  qed
  have b5: "bit SHADOW_ACC_TRACK_SAVED_BITS_MASK k \<longleftrightarrow> k = 0 \<or> k = 2" for k
  proof -
    have five: "SHADOW_ACC_TRACK_SAVED_BITS_MASK = BIT_ULL 0 OR BIT_ULL 2" by (simp add: bit_masks)
    show ?thesis unfolding five bit_or_iff using bit_BIT_ULL [of 0 k] bit_BIT_ULL [of 2 k] by simp
  qed
  have b8: "bit (- 8 :: int) k \<longleftrightarrow> 3 \<le> k" for k
  proof -
    have eight: "(- 8 :: int) = NOT (mask 3)" by (simp add: mask_eq_exp_minus_1)
    show ?thesis unfolding eight bit_not_int_iff by (auto simp: bit_mask_iff)
  qed
  show ?thesis
    by (auto simp: restore_acc_track_spte_def Let_def ept_masks_sel b8 bit_or_iff bit_and_iff bit_push_bit_iff
        bit_drop_bit_eq b5 b7 add.commute dest: bit_imp_le_length)
qed

section \<open>What an entry for a page holds\<close>

lemma or_and_0I: "s AND k = 0 \<Longrightarrow> x AND k = 0 \<Longrightarrow> (s OR x) AND (k :: u64) = 0"
  by (simp add: bit.conj_disj_distrib2)

lemma or_if_and_0I: "s AND k = 0 \<Longrightarrow> x AND k = 0 \<Longrightarrow> or_if c x s AND k = 0"
  by (simp add: or_if_def or_and_0I)

lemma if_and_0I: "s AND k = 0 \<Longrightarrow> x AND k = 0 \<Longrightarrow> (if c then s else x) AND (k :: u64) = 0"
  by simp

lemma accessed_and_0I: "shadow_accessed_mask m AND k = 0 \<Longrightarrow> spte_shadow_accessed_mask m s AND k = 0"
  by (simp add: spte_shadow_accessed_mask_def)

lemma bit_or_if: "bit (or_if c x s) n \<longleftrightarrow> bit s n \<or> c \<and> bit x n"
  by (simp add: or_if_def bit_or_iff)

lemmas and_0I = or_and_0I or_if_and_0I if_and_0I accessed_and_0I

lemma make_spte_present: "bit (snd (make_spte m dl nx role acc pfn pf hw)) 11"
proof -
  have "bit SPTE_MMU_PRESENT_MASK 11" using bit_BIT_ULL [of 11 11] by (simp add: SPTE_MMU_PRESENT_MASK_def)
  then show ?thesis unfolding make_spte_def Let_def snd_conv bit_or_if bit_or_iff by blast
qed

text \<open>The frame number is only asked whether it is memory, and only when memory is encrypted.\<close>

lemma make_spte_pfn_only_mmio:
  assumes "shadow_me_value m = 0 \<or> kvm_is_mmio_pfn pfn = kvm_is_mmio_pfn pfn'"
  shows "make_spte m dl nx role acc pfn pf hw = make_spte m dl nx role acc pfn' pf hw"
  using assms by (auto simp: make_spte_def)

text \<open>
  C16: the entry \<^verbatim>\<open>make_spte\<close> builds for a page does not depend on the frame number it is given: two
  frames get the same entry and the same result, except that with memory encryption (\<^verbatim>\<open>shadow_me_value\<close>,
  which the code only ever sets to zero) memory and device frames may differ. Whatever page and access
  are asked for, the entry is present and a leaf of its level, and it maps frame 0 without the
  hardware write permission. Assumed of the masks in force: they leave the software bits, the frame bits
  and the large-page bit alone (\<^verbatim>\<open>masks_ok\<close>), and the seven that \<^verbatim>\<open>make_spte\<close> ORs into the entry do
  not contain \<^verbatim>\<open>PT_WRITABLE_MASK\<close>; the masks for EPT are of this kind.
\<close>

theorem make_spte_drops_pfn:
  assumes "masks_ok m" and "\<forall>k \<in> {shadow_present_mask m, shadow_user_mask m, shadow_x_mask m, shadow_nx_mask m,
      shadow_accessed_mask m, shadow_me_value m, shadow_host_writable_mask m}. k AND PT_WRITABLE_MASK = 0"
  shows "(shadow_me_value m = 0 \<or> kvm_is_mmio_pfn pfn = kvm_is_mmio_pfn pfn' \<longrightarrow>
       make_spte m dl nx role acc pfn pf hw = make_spte m dl nx role acc pfn' pf hw) \<and>
     spte_to_pfn (snd (make_spte m dl nx role acc pfn pf hw)) = 0 \<and>
     \<not> is_writable_pte (snd (make_spte m dl nx role acc pfn pf hw)) \<and>
     is_shadow_present_pte (snd (make_spte m dl nx role acc pfn pf hw)) \<and>
     (0 < role_level role \<longrightarrow> is_last_spte (snd (make_spte m dl nx role acc pfn pf hw)) (role_level role))"
proof -
  note ok = masks_okD [OF assms(1)]
  let ?s = "snd (make_spte m dl nx role acc pfn pf hw)"
  have const: "SPTE_MMU_PRESENT_MASK AND SPTE_BASE_ADDR_MASK = 0" "SPTE_TDP_AD_DISABLED AND SPTE_BASE_ADDR_MASK = 0"
    "SPTE_TDP_AD_WRPROT_ONLY AND SPTE_BASE_ADDR_MASK = 0" "PT_PAGE_SIZE_MASK AND SPTE_BASE_ADDR_MASK = 0"
    "SPTE_MMU_PRESENT_MASK AND PT_WRITABLE_MASK = 0" "SPTE_TDP_AD_DISABLED AND PT_WRITABLE_MASK = 0"
    "SPTE_TDP_AD_WRPROT_ONLY AND PT_WRITABLE_MASK = 0" "PT_PAGE_SIZE_MASK AND PT_WRITABLE_MASK = 0"
    by (simp_all add: mask_values bit_masks)
  have "?s AND SPTE_BASE_ADDR_MASK = 0"
    unfolding make_spte_def Let_def snd_conv by (intro and_0I const ok(1)) simp_all
  moreover have "?s AND PT_WRITABLE_MASK = 0"
    unfolding make_spte_def Let_def snd_conv by (intro and_0I const) (use assms(2) in simp_all)
  moreover have "bit ?s 7" if l: "1 < role_level role"
  proof -
    have "bit PT_PAGE_SIZE_MASK 7" using bit_BIT_ULL [of 7 7] by (simp add: PT_PAGE_SIZE_MASK_def BIT_ULL_def)
    with l show ?thesis unfolding make_spte_def Let_def snd_conv bit_or_if bit_or_iff by blast
  qed
  then have "is_large_pte ?s" if "1 < role_level role"
    using that and_BIT_ULL [of ?s 7] by (simp add: is_large_pte_def PT_PAGE_SIZE_MASK_def BIT_ULL_def)
  ultimately show ?thesis
    using make_spte_pfn_only_mmio [of m pfn pfn' dl nx role acc pf hw]
      make_spte_present [of m dl nx role acc pfn pf hw] nat_neq_iff [of "role_level role" 1]
    by (auto simp: spte_to_pfn_def is_writable_pte_def is_last_spte_def present_iff_bit)
qed

definition demo_role :: kvm_mmu_page_role where
  "demo_role = \<lparr>role_level = 1, has_4_byte_gpte = False, quadrant = 0, role_direct = True, role_access = 7,
     role_invalid = False, efer_nx = True, cr0_wp = True, smep_andnot_wp = False, smap_andnot_wp = False,
     ad_disabled = False, guest_mode = False, passthrough = False, role_smm = 0\<rparr>"

theorem make_spte_drops_pfn_witness:
  "make_spte (kvm_mmu_set_ept_masks demo_masks True False) 0 False demo_role ACC_ALL 0x12345 False True =
     make_spte (kvm_mmu_set_ept_masks demo_masks True False) 0 False demo_role ACC_ALL 0x54321 False True \<and>
   spte_to_pfn (snd (make_spte (kvm_mmu_set_ept_masks demo_masks True False) 0 False demo_role ACC_ALL 0x12345 False True)) = 0"
proof -
  let ?m = "kvm_mmu_set_ept_masks demo_masks True False"
  have me: "shadow_me_value ?m = 0" by (simp add: ept_masks_sel demo_masks_def kvm_mmu_spte_module_init_def)
  have "masks_ok ?m"
    by (simp add: masks_ok_def ept_masks_sel mask_values bit_masks) (simp add: demo_masks_def kvm_mmu_spte_module_init_def)
  moreover have "\<forall>k \<in> {shadow_present_mask ?m, shadow_user_mask ?m, shadow_x_mask ?m, shadow_nx_mask ?m,
      shadow_accessed_mask ?m, shadow_me_value ?m, shadow_host_writable_mask ?m}. k AND PT_WRITABLE_MASK = 0"
    by (simp add: me) (simp add: ept_masks_sel bit_masks)
  ultimately show ?thesis using make_spte_drops_pfn [of ?m "0x12345" "0x54321" 0 False demo_role ACC_ALL False True] me by blast
qed

text \<open>
  \<^verbatim>\<open>is_mmio_spte\<close> tests the MMU-present bit, so it holds of exactly the entries that are not
  MMIO entries: no entry made by \<^verbatim>\<open>make_mmio_spte\<close> passes it and every entry made for a page does.
\<close>

theorem is_mmio_spte_inverted:
  assumes "shadow_nonpresent_or_rsvd_mask m = 0"
  shows "\<not> is_mmio_spte (make_mmio_spte (kvm_mmu_set_ept_masks m ad xo) gen gfn access) \<and>
     is_mmio_spte (snd (make_spte m' dl nx role acc pfn pf hw))"
proof
  have "\<not> bit (make_mmio_spte (kvm_mmu_set_ept_masks m ad xo) gen gfn access) 11"
    using bit_mmio_spte [OF assms, of ad xo gen gfn access 11] bit_generation_mask [of "gen AND MMIO_SPTE_GEN_MASK" 11]
    by (simp add: bit_and_iff bit_gen_masks)
  then show "\<not> is_mmio_spte (make_mmio_spte (kvm_mmu_set_ept_masks m ad xo) gen gfn access)"
    by (simp add: is_mmio_spte_def SPTE_MMU_PRESENT_MASK_def and_BIT_ULL)
  show "is_mmio_spte (snd (make_spte m' dl nx role acc pfn pf hw))"
    using make_spte_present [of m' dl nx role acc pfn pf hw]
    by (simp add: is_mmio_spte_def SPTE_MMU_PRESENT_MASK_def and_BIT_ULL)
qed

theorem is_mmio_spte_inverted_witness:
  "\<not> is_mmio_spte (make_mmio_spte (kvm_mmu_set_ept_masks demo_masks True True) 5 0xFEE00 7)"
  using is_mmio_spte_inverted [of demo_masks True True 5 "0xFEE00" 7]
  by (simp add: demo_masks_def kvm_mmu_spte_module_init_def)

section \<open>Roles\<close>

lemma field_eq: "v < 2 ^ w \<Longrightarrow> v' < 2 ^ w \<Longrightarrow> field w v x = field w v' x' \<longleftrightarrow> v = v' \<and> x = x'"
proof
  assume b: "v < 2 ^ w" "v' < 2 ^ w" and e: "field w v x = field w v' x'"
  from arg_cong [OF e, of "\<lambda>n. n mod 2 ^ w"] arg_cong [OF e, of "\<lambda>n. n div 2 ^ w"] b
  show "v = v' \<and> x = x'" by (simp add: field_def)
qed simp

lemma field_less:
  assumes "v < 2 ^ w" "x < 2 ^ n"
  shows "field w v x < 2 ^ (w + n)"
proof -
  have "v + 2 ^ w * x < 2 ^ w * Suc x" using assms(1) by simp
  also have "\<dots> \<le> 2 ^ w * 2 ^ n" using assms(2) by (intro mult_le_mono2) simp
  finally show ?thesis by (simp add: field_def power_add)
qed

text \<open>
  The bit fields of a role fit 32 bits and the word determines them, so comparing
  \<^verbatim>\<open>role.word\<close>, as the search for an existing root does, compares every field.
\<close>

lemma role_word_faithful:
  assumes "role_fits r" and "role_fits r'"
  shows "role_word r < 2 ^ 32 \<and> (role_word r = role_word r' \<longleftrightarrow> r = r')"
proof
  have fits: "role_level r < 2 ^ 4" "role_level r' < 2 ^ 4" "quadrant r < 2 ^ 2" "quadrant r' < 2 ^ 2"
    "role_access r < 2 ^ 3" "role_access r' < 2 ^ 3" "role_smm r < 2 ^ 8" "role_smm r' < 2 ^ 8"
    using assms by (simp_all add: role_fits_def)
  have b: "of_bool P < (2 :: nat) ^ 1" for P by simp
  have "role_word r < 2 ^ (4 + (1 + (2 + (1 + (3 + (1 + (1 + (1 + (1 + (1 + (1 + (1 + (1 + (5 + (8 + 0)))))))))))))))"
    unfolding role_word_def by (intro field_less fits b) simp_all
  then show "role_word r < 2 ^ 32" by simp
  show "role_word r = role_word r' \<longleftrightarrow> r = r'"
  proof
    assume "role_word r = role_word r'"
    then show "r = r'"
      unfolding role_word_def field_eq [OF fits(1,2)] field_eq [OF b b] field_eq [OF fits(3,4)] field_eq [OF fits(5,6)]
        field_eq [OF zero_less_power zero_less_power, OF zero_less_numeral zero_less_numeral] field_eq [OF fits(7,8)]
      by (intro kvm_mmu_page_role.equality) (simp_all add: of_bool_eq_iff)
  qed simp
qed

end
