(* ===== verification/Tdp_Iter.thy ===== *)
theory Tdp_Iter
  imports Spte_Props Page_Size
begin

text \<open>
  The TDP iterator of \<^verbatim>\<open>src/svmx/tdp_iter.c\<close> and \<^verbatim>\<open>tdp_iter.h\<close>: a pre-order walk over a paging
  structure held in memory, and \<^verbatim>\<open>kvm_tdp_mmu_fast_pf_get_last_sptep\<close> of \<^verbatim>\<open>tdp_mmu.c\<close>, which
  uses it to find the last entry of a frame.

  The page tables are \<open>spte_mem\<close>, a map from addresses to entries; reading an unmapped address has
  no result. \<open>p2v\<close> is the kernel's \<^verbatim>\<open>MmGetVirtualForPhysical\<close>.
\<close>

type_synonym spte_mem = "u64 \<rightharpoonup> u64"

record tdp_iter =
  next_last_level_gfn :: gfn_t
  yielded_gfn :: gfn_t
  pt_path :: "nat \<Rightarrow> u64"
  sptep :: u64
  it_gfn :: gfn_t
  root_level :: nat
  min_level :: nat
  it_level :: nat
  it_as_id :: nat
  old_spte :: u64
  it_valid :: bool
  yielded :: bool

section \<open>Steps\<close>

definition kvm_tdp_mmu_read_spte :: "spte_mem \<Rightarrow> u64 \<Rightarrow> u64 option" where
  "kvm_tdp_mmu_read_spte mem p = mem p"

definition tdp_iter_refresh_sptep :: "spte_mem \<Rightarrow> tdp_iter \<Rightarrow> tdp_iter option" where
  "tdp_iter_refresh_sptep mem iter = do {
     let p = pt_path iter (it_level iter - 1) + 8 * SPTE_INDEX (push_bit PAGE_SHIFT (it_gfn iter)) (it_level iter);
     v \<leftarrow> kvm_tdp_mmu_read_spte mem p;
     Some (iter\<lparr>sptep := p, old_spte := v\<rparr>)
   }"

definition tdp_iter_restart :: "spte_mem \<Rightarrow> tdp_iter \<Rightarrow> tdp_iter option" where
  "tdp_iter_restart mem iter = do {
     let iter = iter\<lparr>yielded := False, yielded_gfn := next_last_level_gfn iter, it_level := root_level iter\<rparr>;
     let iter = iter\<lparr>it_gfn := gfn_round_for_level (next_last_level_gfn iter) (it_level iter)\<rparr>;
     iter \<leftarrow> tdp_iter_refresh_sptep mem iter;
     Some (iter\<lparr>it_valid := True\<rparr>)
   }"

definition tdp_iter_start ::
  "spte_mem \<Rightarrow> tdp_iter \<Rightarrow> kvm_mmu_page_role \<Rightarrow> u64 \<Rightarrow> nat \<Rightarrow> gfn_t \<Rightarrow> tdp_iter option" where
  "tdp_iter_start mem iter role root_spt min_lvl gfn = (let
       iter = iter\<lparr>next_last_level_gfn := gfn, root_level := role_level role, min_level := min_lvl\<rparr>;
       iter = iter\<lparr>pt_path := (pt_path iter)(root_level iter - 1 := root_spt), it_as_id := kvm_mmu_role_as_id role\<rparr> in
     tdp_iter_restart mem iter)"

definition spte_to_child_pt :: "(u64 \<Rightarrow> u64) \<Rightarrow> u64 \<Rightarrow> nat \<Rightarrow> u64" where
  "spte_to_child_pt p2v spte level =
     (if \<not> is_shadow_present_pte spte \<or> is_last_spte spte level then 0
      else p2v (push_bit PAGE_SHIFT (spte_to_pfn spte)))"

definition try_step_down :: "(u64 \<Rightarrow> u64) \<Rightarrow> spte_mem \<Rightarrow> tdp_iter \<Rightarrow> (bool \<times> tdp_iter) option" where
  "try_step_down p2v mem iter =
     (if it_level iter = min_level iter then Some (False, iter)
      else do {
        v \<leftarrow> kvm_tdp_mmu_read_spte mem (sptep iter);
        let iter = iter\<lparr>old_spte := v\<rparr>;
        let child_pt = spte_to_child_pt p2v (old_spte iter) (it_level iter);
        if child_pt = 0 then Some (False, iter)
        else do {
          let iter = iter\<lparr>it_level := it_level iter - 1\<rparr>;
          let iter = iter\<lparr>pt_path := (pt_path iter)(it_level iter - 1 := child_pt),
            it_gfn := gfn_round_for_level (next_last_level_gfn iter) (it_level iter)\<rparr>;
          iter \<leftarrow> tdp_iter_refresh_sptep mem iter;
          Some (True, iter)
        }
      })"

definition try_step_side :: "spte_mem \<Rightarrow> tdp_iter \<Rightarrow> (bool \<times> tdp_iter) option" where
  "try_step_side mem iter =
     (if SPTE_INDEX (push_bit PAGE_SHIFT (it_gfn iter)) (it_level iter) = SPTE_ENT_PER_PAGE - 1 then Some (False, iter)
      else do {
        let g = it_gfn iter + ucast (KVM_PAGES_PER_HPAGE (it_level iter));
        let iter = iter\<lparr>it_gfn := g, next_last_level_gfn := g, sptep := sptep iter + 8\<rparr>;
        v \<leftarrow> kvm_tdp_mmu_read_spte mem (sptep iter);
        Some (True, iter\<lparr>old_spte := v\<rparr>)
      })"

definition try_step_up :: "spte_mem \<Rightarrow> tdp_iter \<Rightarrow> (bool \<times> tdp_iter) option" where
  "try_step_up mem iter =
     (if it_level iter = root_level iter then Some (False, iter)
      else do {
        let iter = iter\<lparr>it_level := it_level iter + 1\<rparr>;
        let iter = iter\<lparr>it_gfn := gfn_round_for_level (it_gfn iter) (it_level iter)\<rparr>;
        iter \<leftarrow> tdp_iter_refresh_sptep mem iter;
        Some (True, iter)
      })"

text \<open>The loop of \<open>tdp_iter_next\<close>: to the side, or up and then to the side again.\<close>

partial_function (option) step_over :: "spte_mem \<Rightarrow> tdp_iter \<Rightarrow> tdp_iter option" where
  "step_over mem iter = do {
     (side, iter) \<leftarrow> try_step_side mem iter;
     if side then Some iter
     else do {
       (up, iter) \<leftarrow> try_step_up mem iter;
       if up then step_over mem iter else Some (iter\<lparr>it_valid := False\<rparr>)
     }
   }"

definition tdp_iter_next :: "(u64 \<Rightarrow> u64) \<Rightarrow> spte_mem \<Rightarrow> tdp_iter \<Rightarrow> tdp_iter option" where
  "tdp_iter_next p2v mem iter =
     (if yielded iter then tdp_iter_restart mem iter
      else do {
        (down, iter) \<leftarrow> try_step_down p2v mem iter;
        if down then Some iter else step_over mem iter
      })"

section \<open>The last entry of a frame\<close>

partial_function (option) last_sptep_loop ::
  "(u64 \<Rightarrow> u64) \<Rightarrow> spte_mem \<Rightarrow> gfn_t \<Rightarrow> tdp_iter \<Rightarrow> u64 \<times> u64 \<Rightarrow> (u64 \<times> u64) option" where
  "last_sptep_loop p2v mem end_gfn iter acc =
     (if it_valid iter \<and> it_gfn iter < end_gfn
      then do {
        it' \<leftarrow> tdp_iter_next p2v mem iter;
        last_sptep_loop p2v mem end_gfn it' (sptep iter, old_spte iter)
      }
      else Some acc)"

text \<open>The result is the pointer and \<^verbatim>\<open>*spte\<close>; \<open>spte0\<close> is what the caller's variable held.\<close>

definition kvm_tdp_mmu_fast_pf_get_last_sptep ::
  "(u64 \<Rightarrow> u64) \<Rightarrow> spte_mem \<Rightarrow> tdp_iter \<Rightarrow> kvm_mmu_page_role \<Rightarrow> u64 \<Rightarrow> u64 \<Rightarrow> u64 \<Rightarrow> (u64 \<times> u64) option" where
  "kvm_tdp_mmu_fast_pf_get_last_sptep p2v mem iter0 role root_spt addr spte0 = do {
     let gfn = drop_bit PAGE_SHIFT addr;
     iter \<leftarrow> tdp_iter_start mem iter0 role root_spt 1 gfn;
     last_sptep_loop p2v mem (gfn + 1) iter (0, spte0)
   }"

end
