(* ===== verification/Tdp_Iter_Props.thy ===== *)
theory Tdp_Iter_Props
  imports Tdp_Iter
begin

text \<open>
  The walk of the TDP iterator against a direct descent through the tables: what it finds for a
  frame, and what it does at the top level, where the page-size macro overflows.
\<close>

section \<open>Direct descent\<close>

abbreviation idx :: "gfn_t \<Rightarrow> nat \<Rightarrow> u64" where
  "idx g l \<equiv> SPTE_INDEX (push_bit PAGE_SHIFT g) l"

fun tdp_leaf :: "(u64 \<Rightarrow> u64) \<Rightarrow> spte_mem \<Rightarrow> nat \<Rightarrow> u64 \<Rightarrow> gfn_t \<Rightarrow> (nat \<times> u64 \<times> u64) option" where
  "tdp_leaf p2v mem 0 pt g = None"
| "tdp_leaf p2v mem (Suc l) pt g = do {
     let p = pt + 8 * idx g (Suc l);
     v \<leftarrow> mem p;
     let c = spte_to_child_pt p2v v (Suc l);
     if l = 0 \<or> c = 0 then Some (Suc l, p, v) else tdp_leaf p2v mem l c g
   }"

definition table_mapped :: "spte_mem \<Rightarrow> u64 \<Rightarrow> bool" where
  "table_mapped mem pt \<longleftrightarrow> (\<forall>i < 512. mem (pt + 8 * of_nat i) \<noteq> None)"

fun path_mapped :: "(u64 \<Rightarrow> u64) \<Rightarrow> spte_mem \<Rightarrow> nat \<Rightarrow> u64 \<Rightarrow> gfn_t \<Rightarrow> bool" where
  "path_mapped p2v mem 0 pt g = True"
| "path_mapped p2v mem (Suc l) pt g = (table_mapped mem pt \<and> (case mem (pt + 8 * idx g (Suc l)) of
      None \<Rightarrow> False
    | Some v \<Rightarrow> (let c = spte_to_child_pt p2v v (Suc l) in l = 0 \<or> c = 0 \<or> path_mapped p2v mem l c g)))"

lemma idx_less: "unat (idx g l) < 512"
proof -
  have m: "(512 - 1 :: u64) = mask 9" by (simp add: mask_eq_exp_minus_1)
  show ?thesis unfolding SPTE_INDEX_def m
    using and_mask_less' [of 9 "drop_bit (PT_LEVEL_SHIFT l) (push_bit PAGE_SHIFT g)"] by (simp add: word_less_nat_alt)
qed

lemma table_read:
  assumes "table_mapped mem pt"
  shows "\<exists>v. mem (pt + 8 * idx g l) = Some v"
    "idx g l \<noteq> 511 \<Longrightarrow> \<exists>v. mem (pt + 8 * idx g l + 8) = Some v"
proof -
  have e: "idx g l = of_nat (unat (idx g l))" by simp
  show "\<exists>v. mem (pt + 8 * idx g l) = Some v"
    using assms idx_less [of g l] e unfolding table_mapped_def by (metis not_None_eq)
  assume "idx g l \<noteq> 511"
  then have "unat (idx g l) \<noteq> 511" by (metis e of_nat_numeral)
  then have "Suc (unat (idx g l)) < 512" using idx_less [of g l] by simp
  moreover have "pt + 8 * idx g l + 8 = pt + 8 * of_nat (Suc (unat (idx g l)))" by (simp add: algebra_simps)
  ultimately show "\<exists>v. mem (pt + 8 * idx g l + 8) = Some v"
    using assms unfolding table_mapped_def by (metis not_None_eq)
qed

section \<open>Stepping over\<close>

lemma round_round:
  assumes "0 < l" "l < 3" "g < 2 ^ 32"
  shows "gfn_round_for_level (gfn_round_for_level g l) (l + 1) = gfn_round_for_level g (l + 1)"
proof -
  have "gfn_round_for_level g l < 2 ^ 32" using round_le [of g l] assms(3) by (rule le_less_trans)
  then show ?thesis using assms
    by (intro bit_eqI) (auto simp: bit_round)
qed

lemma step_over_stops:
  assumes "0 < it_level it" "it_level it \<le> j" "j < 4" "idx g j \<noteq> 511" "g < 2 ^ 32"
    "it_gfn it = gfn_round_for_level g (it_level it)" "root_level it = 4"
    "sptep it = pt_path it (it_level it - 1) + 8 * idx g (it_level it)"
    "\<And>i. it_level it \<le> i \<Longrightarrow> i < 4 \<Longrightarrow> table_mapped mem (pt_path it (i - 1))"
  shows "\<exists>it'. step_over mem it = Some it' \<and> g < it_gfn it'"
  using assms
proof (induction "j - it_level it" arbitrary: it rule: less_induct)
  case less
  let ?l = "it_level it"
  have l: "0 < ?l" "?l < 4" using less.prems(1-3) by auto
  have ix: "idx (it_gfn it) ?l = idx g ?l" using index_round [OF l less.prems(5)] less.prems(6) by simp
  show ?case
  proof (cases "idx g ?l = 511")
    case False
    obtain v where v: "mem (sptep it + 8) = Some v"
      using table_read(2) [OF less.prems(9) [OF order_refl l(2)] False] less.prems(8) by auto
    have "g < it_gfn it + ucast (KVM_PAGES_PER_HPAGE ?l)"
      using round_step [OF l less.prems(5)] less.prems(6) by simp
    with v False ix show ?thesis
      by (subst step_over.simps) (simp add: try_step_side_def kvm_tdp_mmu_read_spte_def Let_def)
  next
    case True
    then have lj: "?l < j" using less.prems(2,4) le_neq_implies_less by metis
    let ?it = "it\<lparr>it_level := ?l + 1, it_gfn := gfn_round_for_level (it_gfn it) (?l + 1)\<rparr>"
    have g': "gfn_round_for_level (it_gfn it) (?l + 1) = gfn_round_for_level g (?l + 1)"
      using round_round [of ?l g] l lj less.prems(3,5,6) by simp
    have ix': "idx (gfn_round_for_level g (?l + 1)) (?l + 1) = idx g (?l + 1)"
      using index_round [of "?l + 1" g] lj less.prems(3,5) by simp
    obtain v where v: "mem (pt_path it ?l + 8 * idx g (?l + 1)) = Some v"
      using table_read(1) [OF less.prems(9), of "?l + 1"] lj less.prems(3) by auto
    let ?it2 = "?it\<lparr>sptep := pt_path it ?l + 8 * idx g (?l + 1), old_spte := v\<rparr>"
    have up: "try_step_up mem it = Some (True, ?it2)"
      using l less.prems(7) v g' ix'
      by (simp add: try_step_up_def tdp_iter_refresh_sptep_def kvm_tdp_mmu_read_spte_def Let_def)
    have "\<exists>it'. step_over mem ?it2 = Some it' \<and> g < it_gfn it'"
      by (rule less.hyps) (use less.prems lj l g' in auto)
    then show ?thesis using up True ix
      by (subst step_over.simps) (simp add: try_step_side_def)
  qed
qed

section \<open>The walk for one frame\<close>

text \<open>The iterator stands at level \<open>l\<close> on its way to frame \<open>g\<close>.\<close>

definition on_way :: "spte_mem \<Rightarrow> tdp_iter \<Rightarrow> gfn_t \<Rightarrow> nat \<Rightarrow> bool" where
  "on_way mem it g l \<longleftrightarrow> it_level it = l \<and> 0 < l \<and> l \<le> 4 \<and> next_last_level_gfn it = g \<and>
     it_gfn it = gfn_round_for_level g l \<and> root_level it = 4 \<and> min_level it = 1 \<and> it_valid it \<and> \<not> yielded it \<and>
     sptep it = pt_path it (l - 1) + 8 * idx g l \<and> mem (sptep it) = Some (old_spte it) \<and>
     (\<forall>i. l < i \<and> i < 4 \<longrightarrow> table_mapped mem (pt_path it (i - 1)))"

lemma idx_top: "g < 2 ^ 27 \<Longrightarrow> idx (gfn_round_for_level g 4) 4 = idx g 4"
proof -
  assume g: "g < 2 ^ 27"
  have "drop_bit (PT_LEVEL_SHIFT 4) (push_bit PAGE_SHIFT g) = 0"
  proof (rule bit_eqI)
    fix n
    show "bit (drop_bit (PT_LEVEL_SHIFT 4) (push_bit PAGE_SHIFT g)) n = bit (0 :: u64) n"
      using bit_above_less [OF g, of "27 + n"]
      by (simp add: bit_drop_bit_eq bit_push_bit_iff PT_LEVEL_SHIFT_def)
  qed
  then show ?thesis by (simp add: SPTE_INDEX_def round_level_4)
qed

lemma last_sptep_loop_correct:
  assumes "on_way mem it g l" "path_mapped p2v mem l (pt_path it (l - 1)) g" "g < 2 ^ 27"
    "tdp_leaf p2v mem l (pt_path it (l - 1)) g = Some (lv, p, v)" "lv \<le> j" "j < 4" "idx g j \<noteq> 511"
  shows "last_sptep_loop p2v mem (g + 1) it acc = Some (p, v)"
  using assms
proof (induction l arbitrary: it acc)
  case 0
  then show ?case by (simp add: on_way_def)
next
  case (Suc l)
  have g32: "g < 2 ^ 32" using Suc.prems(3) by (rule less_trans) simp
  have w: "it_level it = Suc l" "next_last_level_gfn it = g" "it_gfn it = gfn_round_for_level g (Suc l)"
    "root_level it = 4" "min_level it = 1" "it_valid it" "\<not> yielded it"
    "sptep it = pt_path it l + 8 * idx g (Suc l)" "mem (sptep it) = Some (old_spte it)" "Suc l \<le> 4"
    using Suc.prems(1) unfolding on_way_def by auto
  have lt: "it_gfn it < g + 1"
  proof -
    have "it_gfn it \<le> g" using w(3) round_le by simp
    moreover have "g < g + 1" using g32 unat_add_lem [of g 1] by (simp add: word_less_nat_alt)
    ultimately show ?thesis by (rule le_less_trans)
  qed
  have tm: "table_mapped mem (pt_path it l)" using Suc.prems(2) by simp
  let ?c = "spte_to_child_pt p2v (old_spte it) (Suc l)"
  have leaf: "tdp_leaf p2v mem (Suc l) (pt_path it l) g =
      (if l = 0 \<or> ?c = 0 then Some (Suc l, sptep it, old_spte it) else tdp_leaf p2v mem l ?c g)"
    using w(8,9) by (simp add: Let_def)
  show ?case
  proof (cases "l = 0 \<or> ?c = 0")
    case True
    then have e: "lv = Suc l" "p = sptep it" "v = old_spte it" using Suc.prems(4) leaf by auto
    have nd: "try_step_down p2v mem it = Some (False, it)"
      using True w by (auto simp: try_step_down_def kvm_tdp_mmu_read_spte_def Let_def)
    have tabs: "table_mapped mem (pt_path it (i - 1))" if "it_level it \<le> i" "i < 4" for i
      using that tm Suc.prems(1) w(1) unfolding on_way_def by (cases "i = Suc l") auto
    have "\<exists>it'. step_over mem it = Some it' \<and> g < it_gfn it'"
      by (rule step_over_stops [OF _ _ Suc.prems(6,7) g32 _ w(4) _ tabs]) (use w e Suc.prems(5) in simp_all)
    then obtain it' where it': "step_over mem it = Some it'" "g < it_gfn it'" by blast
    have nx: "tdp_iter_next p2v mem it = Some it'" using w(7) nd it'(1) by (simp add: tdp_iter_next_def)
    have "\<not> it_gfn it' < g + 1" using it'(2) by (metis inc_le linorder_not_less)
    then show ?thesis using lt w(6) e nx
      by (subst last_sptep_loop.simps, simp) (subst last_sptep_loop.simps, simp)
  next
    case False
    then have l: "0 < l" "l < 4" "l \<noteq> 0" "?c \<noteq> 0" using w(10) by auto
    have pm: "path_mapped p2v mem l ?c g" using Suc.prems(2) w(8,9) False by (simp add: Let_def)
    then have tc: "table_mapped mem ?c" using l(1) by (cases l) auto
    have ix: "idx (gfn_round_for_level g l) l = idx g l" using index_round [OF l(1,2) g32] .
    obtain u where u: "mem (?c + 8 * idx g l) = Some u" using table_read(1) [OF tc] by blast
    let ?it = "it\<lparr>it_level := l, pt_path := (pt_path it)(l - 1 := ?c), it_gfn := gfn_round_for_level g l,
      sptep := ?c + 8 * idx g l, old_spte := u\<rparr>"
    have "try_step_down p2v mem it = Some (True, ?it)"
      using w l u ix by (simp add: try_step_down_def kvm_tdp_mmu_read_spte_def tdp_iter_refresh_sptep_def Let_def)
    then have nx: "tdp_iter_next p2v mem it = Some ?it" using w(7) by (simp add: tdp_iter_next_def)
    have "table_mapped mem (pt_path it (i - 1))" if "l < i" "i < 4" for i
      using that tm Suc.prems(1) unfolding on_way_def by (cases "i = Suc l") auto
    then have "on_way mem ?it g l" using w l u by (auto simp: on_way_def)
    from Suc.IH [OF this, of "(sptep it, old_spte it)"] have "last_sptep_loop p2v mem (g + 1) ?it (sptep it, old_spte it) = Some (p, v)"
      using pm Suc.prems(3-7) leaf False l by simp
    then show ?thesis using lt w(6) nx by (subst last_sptep_loop.simps) simp
  qed
qed

section \<open>Theorems\<close>

text \<open>
  C18: for a frame below 512 GiB, on a four-level structure whose tables on the way to the frame are
  mapped, the iterator of \<^verbatim>\<open>kvm_tdp_mmu_fast_pf_get_last_sptep\<close> ends and returns the address and value of
  the entry that a direct descent through the tables reaches, provided that the entry is below the top
  level and that at some level from its own up to 3 the frame's index is not 511. Without these
  conditions the walk need not end well: see \<open>empty_root_runs_off\<close> for a root that is empty.
\<close>

theorem last_sptep_is_leaf:
  assumes "role_level role = 4" and "path_mapped p2v mem 4 root g" and "g = drop_bit PAGE_SHIFT addr" and "g < 2 ^ 27"
    and "tdp_leaf p2v mem 4 root g = Some (lv, p, v)" and "lv \<le> j" and "j < 4" and "idx g j \<noteq> 511"
  shows "kvm_tdp_mmu_fast_pf_get_last_sptep p2v mem iter0 role root addr spte0 = Some (p, v)"
proof -
  have "table_mapped mem root" using assms(2) by (simp add: numeral_eq_Suc)
  then obtain u where u: "mem (root + 8 * idx g 4) = Some u" using table_read(1) by blast
  let ?it = "iter0\<lparr>next_last_level_gfn := g, root_level := 4, min_level := 1, pt_path := (pt_path iter0)(3 := root),
    it_as_id := kvm_mmu_role_as_id role, yielded := False, yielded_gfn := g, it_level := 4,
    it_gfn := gfn_round_for_level g 4, sptep := root + 8 * idx g 4, old_spte := u, it_valid := True\<rparr>"
  have "tdp_iter_start mem iter0 role root 1 g = Some ?it"
    using assms(1) u idx_top [OF assms(4)]
    by (simp add: tdp_iter_start_def tdp_iter_restart_def tdp_iter_refresh_sptep_def kvm_tdp_mmu_read_spte_def Let_def)
  moreover have "on_way mem ?it g 4" using u by (auto simp: on_way_def)
  then have "last_sptep_loop p2v mem (g + 1) ?it (0, spte0) = Some (p, v)"
    by (rule last_sptep_loop_correct) (use assms in simp_all)
  ultimately show ?thesis using assms(3) by (simp add: kvm_tdp_mmu_fast_pf_get_last_sptep_def)
qed

text \<open>Tables for the frames 0 to 511, at 0x1000 to 0x4000.\<close>

definition demo_tables :: spte_mem where
  "demo_tables = (\<lambda>_. Some 0)(0x1000 := Some 0x2800, 0x2000 := Some 0x3800, 0x3000 := Some 0x4800)"

definition demo_iter :: tdp_iter where
  "demo_iter = \<lparr>next_last_level_gfn = 0, yielded_gfn = 0, pt_path = (\<lambda>_. 0), sptep = 0, it_gfn = 0, root_level = 0,
     min_level = 0, it_level = 0, it_as_id = 0, old_spte = 0, it_valid = False, yielded = False\<rparr>"

lemma demo_child:
  "spte_to_child_pt (\<lambda>a. a) 0x2800 4 = 0x2000" "spte_to_child_pt (\<lambda>a. a) 0x3800 3 = 0x3000"
  "spte_to_child_pt (\<lambda>a. a) 0x4800 2 = 0x4000"
  by (simp_all add: spte_to_child_pt_def is_shadow_present_pte_def is_last_spte_def is_large_pte_def spte_to_pfn_def
      mask_values bit_masks)

lemma descent_step:
  assumes "table_mapped mem pt" and "mem (pt + 8 * idx g (Suc l)) = Some v" and "spte_to_child_pt p2v v (Suc l) = c"
    and "c \<noteq> 0" and "path_mapped p2v mem l c g" and "tdp_leaf p2v mem l c g = Some r"
  shows "path_mapped p2v mem (Suc l) pt g \<and> tdp_leaf p2v mem (Suc l) pt g = Some r"
proof -
  have "l \<noteq> 0" using assms(6) by (cases l) auto
  then show ?thesis using assms by (simp add: Let_def)
qed

lemma demo_idx: "SPTE_INDEX 0x5000 4 = 0" "SPTE_INDEX 0x5000 3 = 0" "SPTE_INDEX 0x5000 2 = 0" "SPTE_INDEX 0x5000 (Suc 0) = 5"
  by (simp_all add: SPTE_INDEX_def PT_LEVEL_SHIFT_def)

lemma demo_descent:
  "path_mapped (\<lambda>a. a) demo_tables 4 0x1000 5 \<and> tdp_leaf (\<lambda>a. a) demo_tables 4 0x1000 5 = Some (1, 0x4028, 0)"
proof -
  have t: "table_mapped demo_tables pt" for pt by (simp add: table_mapped_def demo_tables_def)
  let ?P = "\<lambda>l pt. path_mapped (\<lambda>a. a) demo_tables l pt 5 \<and> tdp_leaf (\<lambda>a. a) demo_tables l pt 5 = Some (1, 0x4028, 0)"
  have s: "?P (Suc l) pt"
    if "demo_tables (pt + 8 * idx 5 (Suc l)) = Some v" "spte_to_child_pt (\<lambda>a. a) v (Suc l) = c" "c \<noteq> 0" "?P l c" for l pt v c
    using descent_step [OF t that(1-3) conjunct1 [OF that(4)] conjunct2 [OF that(4)]] .
  have m: "demo_tables (0x1000 + 8 * idx 5 4) = Some 0x2800" "demo_tables (0x2000 + 8 * idx 5 3) = Some 0x3800"
    "demo_tables (0x3000 + 8 * idx 5 2) = Some 0x4800" "demo_tables (0x4000 + 8 * idx 5 (Suc 0)) = Some 0"
    by (simp_all add: demo_tables_def demo_idx)
  have nz: "(0x4000::u64) \<noteq> 0" "(0x3000::u64) \<noteq> 0" "(0x2000::u64) \<noteq> 0" by simp_all
  have n: "Suc 1 = (2::nat)" "Suc 2 = (3::nat)" "Suc 3 = (4::nat)" by simp_all
  have p1: "?P 1 0x4000" using m(4) t by (simp add: demo_idx)
  have p2: "?P 2 0x3000" by (rule s [of "0x3000" 1 "0x4800" "0x4000", unfolded n, OF m(3) demo_child(3) nz(1) p1])
  have p3: "?P 3 0x2000" by (rule s [of "0x2000" 2 "0x3800" "0x3000", unfolded n, OF m(2) demo_child(2) nz(2) p2])
  show "?P 4 0x1000" by (rule s [of "0x1000" 3 "0x2800" "0x2000", unfolded n, OF m(1) demo_child(1) nz(3) p3])
qed

theorem last_sptep_is_leaf_witness:
  "kvm_tdp_mmu_fast_pf_get_last_sptep (\<lambda>a. a) demo_tables demo_iter (demo_role\<lparr>role_level := 4\<rparr>) 0x1000 0x5123 0 = Some (0x4028, 0)"
  by (rule last_sptep_is_leaf [OF _ conjunct1 [OF demo_descent] _ _ conjunct2 [OF demo_descent], of _ _ 1]) (simp_all add: demo_idx)

text \<open>
  At level 4 the shift in \<^verbatim>\<open>KVM_PAGES_PER_HPAGE\<close> wraps to zero pages, so a step to the side does
  not advance the frame. When the root table of the structure is empty, the walk for any frame reads
  entry after entry and on past the end of the page.
\<close>

theorem empty_root_runs_off:
  assumes "role_level role = 4" and "\<And>i. i < 512 \<Longrightarrow> mem (root + 8 * of_nat i) = Some 0"
    and "mem (root + 8 * 512) = None" and "drop_bit PAGE_SHIFT addr < 2 ^ 27"
  shows "kvm_tdp_mmu_fast_pf_get_last_sptep p2v mem iter0 role root addr spte0 = None"
proof -
  let ?g = "drop_bit PAGE_SHIFT addr"
  have i0: "idx 0 4 = 0" by (simp add: SPTE_INDEX_def)
  have c0: "spte_to_child_pt p2v 0 l = 0" for l by (simp add: spte_to_child_pt_def is_shadow_present_pte_def)
  have run: "last_sptep_loop p2v mem (?g + 1) it acc = None"
    if "it_valid it" "it_gfn it = 0" "it_level it = 4" "min_level it = 1" "\<not> yielded it" "i < 512"
      "sptep it = root + 8 * of_nat i" for it acc i
    using that
  proof (induction "512 - i" arbitrary: it acc i rule: less_induct)
    case less
    have "?g < 2 ^ 32" using assms(4) by (rule less_trans) simp
    then have pos: "0 < ?g + 1" using unat_add_lem [of ?g 1] by (simp add: word_less_nat_alt)
    have nd: "try_step_down p2v mem it = Some (False, it\<lparr>old_spte := 0\<rparr>)"
      using less.prems assms(2) by (simp add: try_step_down_def kvm_tdp_mmu_read_spte_def c0 Let_def)
    let ?it = "it\<lparr>it_gfn := 0, next_last_level_gfn := 0, sptep := sptep it + 8, old_spte := 0\<rparr>"
    have q: "sptep it + 8 = root + 8 * of_nat (Suc i)" using less.prems(7) by (simp add: algebra_simps)
    have "mem (sptep it + 8) = (if Suc i < 512 then Some 0 else None)"
      unfolding q using assms(2) [of "Suc i"] assms(3) less.prems(6) by (cases "Suc i = 512") (auto simp del: of_nat_Suc)
    then have nx: "tdp_iter_next p2v mem it = (if Suc i < 512 then Some ?it else None)"
      using less.prems(1-5) nd i0 pages_per_hpage(4)
      by (simp add: tdp_iter_next_def step_over.simps try_step_side_def kvm_tdp_mmu_read_spte_def Let_def)
    show ?case
    proof (cases "Suc i < 512")
      case True
      then have "last_sptep_loop p2v mem (?g + 1) ?it (sptep it, old_spte it) = None"
        by (intro less.hyps [of "Suc i"]) (use less.prems q in auto)
      then show ?thesis using nx True less.prems pos by (subst last_sptep_loop.simps) simp
    next
      case False
      then show ?thesis using nx less.prems pos by (subst last_sptep_loop.simps) simp
    qed
  qed
  have r0: "mem root = Some 0" using assms(2) [of 0] by simp
  show ?thesis
    using assms(1) r0 i0
    by (simp add: kvm_tdp_mmu_fast_pf_get_last_sptep_def tdp_iter_start_def tdp_iter_restart_def tdp_iter_refresh_sptep_def
        kvm_tdp_mmu_read_spte_def round_level_4 Let_def run [of _ 0])
qed

theorem empty_root_runs_off_witness:
  "kvm_tdp_mmu_fast_pf_get_last_sptep (\<lambda>a. a) (\<lambda>p. if p < 0x1000 then Some 0 else None) demo_iter
     (demo_role\<lparr>role_level := 4\<rparr>) 0 0x5123 0 = None"
proof -
  have "(8 * of_nat i :: u64) < 0x1000" if "i < 512" for i
  proof -
    have "(8 * of_nat i :: u64) = of_nat (8 * i)" by simp
    moreover have "unat (of_nat (8 * i) :: u64) = 8 * i" using that by (simp add: unat_of_nat del: of_nat_mult)
    ultimately show ?thesis using that by (simp add: word_less_nat_alt del: of_nat_mult)
  qed
  with empty_root_runs_off [of "demo_role\<lparr>role_level := 4\<rparr>" "\<lambda>p. if p < 0x1000 then Some 0 else None" 0 "0x5123"]
  show ?thesis by simp
qed

end
