(* ===== verification/Hash_Table.thy ===== *)
theory Hash_Table
  imports Svmx_Prelude
begin

text \<open>
  The hash table of \<^verbatim>\<open>src/svmx/mphashtable.c\<close>. Buckets and entries are linked through a memory of
  64-bit cells: a \<^verbatim>\<open>SINGLE_LIST_ENTRY\<close> at \<open>p\<close> has its \<^verbatim>\<open>Next\<close> in the cell \<open>p\<close>, a
  \<^verbatim>\<open>HASH_BUCKET\<close> has its \<^verbatim>\<open>HashValue\<close> in the cell \<open>p + 8\<close>. The last link of a chain holds the
  address of the table with bit 0 set. Reading or writing an unmapped cell, and a loop that does
  not end, have no result. \<open>self\<close> is the address of the \<^verbatim>\<open>HASH_TABLE\<close>.
\<close>

type_synonym heap = "u64 \<rightharpoonup> u64"

record hash_table =
  ItemCount :: u32
  BucketCount :: u32
  Buckets :: u64

record hash_table_iterator =
  Iter_Hash :: hash_table
  HashEntry :: u64
  Bucket :: u64

definition rd :: "heap \<Rightarrow> u64 \<Rightarrow> u64 option" where
  "rd mem p = mem p"

definition wr :: "heap \<Rightarrow> u64 \<Rightarrow> u64 \<Rightarrow> heap option" where
  "wr mem p v = (if mem p = None then None else Some (mem(p \<mapsto> v)))"

section \<open>Hash functions\<close>

definition HashBytesGeneric :: "u8 list \<Rightarrow> u64 \<Rightarrow> u64 \<Rightarrow> u64" where
  "HashBytesGeneric pBytes kMagicNum coefficient =
     foldl (\<lambda>hashCode b. ucast b + coefficient * hashCode) kMagicNum pBytes"

definition HashBytesEx :: "u8 list \<Rightarrow> u64 \<Rightarrow> u64" where
  "HashBytesEx pBytes kMagicNum = HashBytesGeneric pBytes kMagicNum 37"

definition HashBytes :: "u8 list \<Rightarrow> u64" where
  "HashBytes pBytes = HashBytesEx pBytes 314159"

text \<open>The bytes of an integer as they lie in memory on a little-endian machine.\<close>

definition le_bytes :: "nat \<Rightarrow> 'a::len word \<Rightarrow> u8 list" where
  "le_bytes n w = map (\<lambda>i. ucast (drop_bit (8 * i) w)) [0..<n]"

definition HashUlongPtr :: "u64 \<Rightarrow> u64" where
  "HashUlongPtr v = HashBytes (le_bytes 8 v)"

text \<open>
  \<open>upcase\<close> is the kernel's \<^verbatim>\<open>RtlUpcaseUnicodeChar\<close>; \<open>wmem\<close> maps the addresses of UTF-16 units.
\<close>

partial_function (option) upcase_loop ::
  "(u16 \<Rightarrow> u16) \<Rightarrow> (u64 \<rightharpoonup> u16) \<Rightarrow> u64 \<Rightarrow> u64 \<Rightarrow> u64 \<Rightarrow> u64 \<Rightarrow> u64 option" where
  "upcase_loop upcase wmem pStart pEnd pBuffer kMagicNumber =
     (if pStart < pEnd
      then do {
        c \<leftarrow> wmem pBuffer;
        upcase_loop upcase wmem pStart pEnd (pBuffer + 2) (HashBytesEx (le_bytes 2 (upcase c)) kMagicNumber)
      }
      else Some kMagicNumber)"

definition HashUStringUpcase :: "(u16 \<Rightarrow> u16) \<Rightarrow> (u64 \<rightharpoonup> u16) \<Rightarrow> u64 \<Rightarrow> int \<Rightarrow> u64 option" where
  "HashUStringUpcase upcase wmem pBuffer len =
     upcase_loop upcase wmem pBuffer (pBuffer + 2 * of_int len) pBuffer 314159"

section \<open>Powers of two\<close>

function highest_loop :: "u32 \<Rightarrow> u32 \<Rightarrow> u32" where
  "highest_loop index v = (if 0 < v then highest_loop (index + 1) (drop_bit 1 v) else index)"
  by auto
termination
  by (relation "measure (\<lambda>(_, v). unat v)") (auto simp: unat_drop_bit_div word_less_nat_alt)

declare highest_loop.simps [simp del]

definition GetHighestBitIndex :: "u32 \<Rightarrow> u32" where
  "GetHighestBitIndex v = highest_loop 0 v"

definition IsPowerOfTwo :: "u32 \<Rightarrow> bool" where
  "IsPowerOfTwo x \<longleftrightarrow> 0 < x \<and> x AND (x - 1) = 0"

text \<open>The processor takes the count of a 32-bit shift modulo 32.\<close>

definition RoundToPowerOfTwo :: "u32 \<Rightarrow> bool \<Rightarrow> u32" where
  "RoundToPowerOfTwo v roundUpToNext =
     (if v = 0 then v
      else if IsPowerOfTwo v then v
      else let
        idx = GetHighestBitIndex v;
        idx = (if roundUpToNext then idx + 1 else idx) in
      push_bit (unat idx mod 32) 1)"

section \<open>Construction\<close>

definition bucket_total :: "hash_table \<Rightarrow> u32" where
  "bucket_total Hash = drop_bit 5 (BucketCount Hash) AND 0x7FFFFFF"

definition key_mask :: "hash_table \<Rightarrow> u64" where
  "key_mask Hash = push_bit (unat (BucketCount Hash AND 0x1F)) (- 1)"

partial_function (option) init_buckets :: "heap \<Rightarrow> u64 \<Rightarrow> u64 \<Rightarrow> u64 \<Rightarrow> heap option" where
  "init_buckets mem self p pEnd =
     (if p < pEnd
      then do {
        mem \<leftarrow> wr mem p (self OR 1);
        init_buckets mem self (p + 8) pEnd
      }
      else Some mem)"

definition HashTableInitialize ::
  "heap \<Rightarrow> u64 \<Rightarrow> hash_table \<Rightarrow> u32 \<Rightarrow> u32 \<Rightarrow> u64 \<Rightarrow> (heap \<times> hash_table) option" where
  "HashTableInitialize mem self Hash Flags BucketCnt buckets = do {
     let count = RoundToPowerOfTwo BucketCnt False;
     let count = (if 0x4000000 < count then 0x4000000 else count);
     let Hash = Hash\<lparr>ItemCount := 0\<rparr>;
     let Hash = Hash\<lparr>BucketCount := push_bit 5 count OR (BucketCount Hash AND 0x1F)\<rparr>;
     let Hash = Hash\<lparr>Buckets := buckets\<rparr>;
     let Hash = Hash\<lparr>BucketCount := (Flags AND 0x1F) OR (BucketCount Hash AND 0xFFFFFFE0)\<rparr>;
     mem \<leftarrow> (if buckets \<noteq> 0 then init_buckets mem self buckets (buckets + 8 * ucast count) else Some mem);
     Some (mem, Hash)
   }"

definition HashTableGetBucketIndex :: "u32 \<Rightarrow> u64 \<Rightarrow> u32" where
  "HashTableGetBucketIndex bucketCount key = ucast (ucast (bucketCount - 1) AND HashUlongPtr key)"

text \<open>The kernel's inline \<^verbatim>\<open>PushEntryList\<close>.\<close>

definition PushEntryList :: "heap \<Rightarrow> u64 \<Rightarrow> u64 \<Rightarrow> heap option" where
  "PushEntryList mem ListHead Entry = do {
     nxt \<leftarrow> rd mem ListHead;
     mem \<leftarrow> wr mem Entry nxt;
     wr mem ListHead Entry
   }"

definition HashTableInsert :: "heap \<Rightarrow> hash_table \<Rightarrow> u64 \<Rightarrow> (heap \<times> hash_table \<times> u32) option" where
  "HashTableInsert mem Hash pBucket = do {
     let count = bucket_total Hash;
     hv \<leftarrow> rd mem (pBucket + 8);
     let key = key_mask Hash AND hv;
     let idx = HashTableGetBucketIndex count key;
     mem \<leftarrow> PushEntryList mem (Buckets Hash + 8 * ucast idx) pBucket;
     let count = ItemCount Hash + 1;
     Some (mem, Hash\<lparr>ItemCount := count\<rparr>, count)
   }"

definition HashBucketLastLink :: "heap \<Rightarrow> u64 \<Rightarrow> bool option" where
  "HashBucketLastLink mem bucket = do {
     nxt \<leftarrow> rd mem bucket;
     Some (nxt AND 1 \<noteq> 0)
   }"

text \<open>The inner and the outer loop that move the entries of the old buckets to the new ones.\<close>

partial_function (option) drain_bucket :: "heap \<Rightarrow> u64 \<Rightarrow> u32 \<Rightarrow> u64 \<Rightarrow> u64 \<Rightarrow> heap option" where
  "drain_bucket mem v bucketCount pBuckets pBucket = do {
     last \<leftarrow> HashBucketLastLink mem pBucket;
     if last then Some mem
     else do {
       pEntry \<leftarrow> rd mem pBucket;
       nxt \<leftarrow> rd mem pEntry;
       mem \<leftarrow> wr mem pBucket nxt;
       hashValue \<leftarrow> rd mem (pEntry + 8);
       let idx = HashTableGetBucketIndex bucketCount (v AND hashValue);
       mem \<leftarrow> PushEntryList mem (pBuckets + 8 * ucast idx) pEntry;
       drain_bucket mem v bucketCount pBuckets pBucket
     }
   }"

partial_function (option) drain_all :: "heap \<Rightarrow> u64 \<Rightarrow> u32 \<Rightarrow> u64 \<Rightarrow> u64 \<Rightarrow> u32 \<Rightarrow> heap option" where
  "drain_all mem v bucketCount pBuckets old j =
     (if j < bucketCount
      then do {
        mem \<leftarrow> drain_bucket mem v bucketCount pBuckets (old + 8 * ucast j);
        drain_all mem v bucketCount pBuckets old (j + 1)
      }
      else Some mem)"

definition HashTableChangeTable ::
  "heap \<Rightarrow> u64 \<Rightarrow> hash_table \<Rightarrow> u32 \<Rightarrow> u64 \<Rightarrow> (heap \<times> hash_table \<times> u64) option" where
  "HashTableChangeTable mem self Hash allocCount pBuckets = do {
     let count = RoundToPowerOfTwo allocCount False;
     let count = (if 0x4000000 < count then 0x4000000 else count);
     mem \<leftarrow> init_buckets mem self pBuckets (pBuckets + 8 * ucast count);
     let v = key_mask Hash;
     let bucketCount = bucket_total Hash;
     mem \<leftarrow> drain_all mem v bucketCount pBuckets (Buckets Hash) 0;
     let pOldBuckets = Buckets Hash;
     Some (mem, Hash\<lparr>Buckets := pBuckets, BucketCount := push_bit 5 count OR (BucketCount Hash AND 0x1F)\<rparr>, pOldBuckets)
   }"

text \<open>
  The start of \<^verbatim>\<open>kvm_mmu_create\<close> in \<^verbatim>\<open>mmu.c\<close>, after its allocation of 512 buckets succeeded: every
  vCPU that is created sets up the one global table again.
\<close>

definition mmu_create_table :: "heap \<Rightarrow> u64 \<Rightarrow> hash_table \<Rightarrow> u64 \<Rightarrow> (heap \<times> hash_table) option" where
  "mmu_create_table mem self g_Table pBuckets = do {
     (mem, g_Table) \<leftarrow> HashTableInitialize mem self g_Table 0 0 0;
     (mem, g_Table, old) \<leftarrow> HashTableChangeTable mem self g_Table 512 pBuckets;
     Some (mem, g_Table)
   }"

section \<open>Search\<close>

partial_function (option) find_loop :: "heap \<Rightarrow> u64 \<Rightarrow> u64 \<Rightarrow> u64 \<Rightarrow> u64 option" where
  "find_loop mem v k1 p = do {
     last \<leftarrow> HashBucketLastLink mem p;
     if last then Some 0
     else do {
       nxt \<leftarrow> rd mem p;
       hv \<leftarrow> rd mem (nxt + 8);
       if k1 = v AND hv then Some nxt else find_loop mem v k1 nxt
     }
   }"

definition HashTableFindNext :: "heap \<Rightarrow> hash_table \<Rightarrow> u64 \<Rightarrow> u64 \<Rightarrow> u64 option" where
  "HashTableFindNext mem Hash HashValue pLink = do {
     let v = key_mask Hash;
     let k1 = v AND HashValue;
     if pLink \<noteq> 0 then do {
       _ \<leftarrow> HashBucketLastLink mem pLink;
       find_loop mem v k1 pLink
     }
     else let count = bucket_total Hash in
       if count = 0 then Some 0
       else find_loop mem v k1 (Buckets Hash + 8 * ucast (HashTableGetBucketIndex count k1))
   }"

partial_function (option) last_link :: "heap \<Rightarrow> u64 \<Rightarrow> u64 option" where
  "last_link mem p = do {
     last \<leftarrow> HashBucketLastLink mem p;
     if last then Some p else rd mem p \<bind> last_link mem
   }"

partial_function (option) confirm_loop :: "heap \<Rightarrow> hash_table \<Rightarrow> u64 \<Rightarrow> u64 \<Rightarrow> unit option" where
  "confirm_loop mem Hash HashEnt pEntry = do {
     hashValue \<leftarrow> rd mem (HashEnt + 8);
     pEntry \<leftarrow> HashTableFindNext mem Hash hashValue pEntry;
     if pEntry \<noteq> 0 \<and> pEntry \<noteq> HashEnt then confirm_loop mem Hash HashEnt pEntry else Some ()
   }"

text \<open>\<open>tables\<close> gives the \<^verbatim>\<open>HASH_TABLE\<close> at an address.\<close>

definition HashTableGetTable :: "heap \<Rightarrow> (u64 \<rightharpoonup> hash_table) \<Rightarrow> u64 \<Rightarrow> u64 option" where
  "HashTableGetTable mem tables HashEnt = do {
     p \<leftarrow> last_link mem HashEnt;
     nxt \<leftarrow> rd mem p;
     let pHash = nxt AND NOT 1;
     Hash \<leftarrow> tables pHash;
     _ \<leftarrow> confirm_loop mem Hash HashEnt 0;
     Some pHash
   }"

definition HashTableCleanup :: "hash_table \<Rightarrow> u64" where
  "HashTableCleanup Hash = Buckets Hash"

section \<open>Removal\<close>

partial_function (option) remove_loop :: "heap \<Rightarrow> hash_table \<Rightarrow> u64 \<Rightarrow> u64 \<Rightarrow> u64 \<Rightarrow> (heap \<times> hash_table \<times> u64) option" where
  "remove_loop mem Hash v k1 p = do {
     last \<leftarrow> HashBucketLastLink mem p;
     if last then Some (mem, Hash, 0)
     else do {
       pNext \<leftarrow> rd mem p;
       hv \<leftarrow> rd mem (p + 8);
       if k1 = v AND hv then do {
         nn \<leftarrow> rd mem pNext;
         mem \<leftarrow> wr mem p nn;
         let Hash = Hash\<lparr>ItemCount := ItemCount Hash - 1\<rparr>;
         nn \<leftarrow> rd mem pNext;
         mem \<leftarrow> wr mem pNext (nn OR 0x8000000000000002);
         r \<leftarrow> rd mem p;
         Some (mem, Hash, r)
       }
       else remove_loop mem Hash v k1 pNext
     }
   }"

definition HashTableRemoveKey :: "heap \<Rightarrow> hash_table \<Rightarrow> u64 \<Rightarrow> (heap \<times> hash_table \<times> u64) option" where
  "HashTableRemoveKey mem Hash HashValue =
     (if ItemCount Hash = 0 then Some (mem, Hash, 0)
      else let
        v = key_mask Hash;
        k1 = v AND HashValue;
        count = bucket_total Hash;
        idx = HashTableGetBucketIndex count k1 in
      remove_loop mem Hash v k1 (Buckets Hash + 8 * ucast idx))"

section \<open>Iteration\<close>

text \<open>An iterator carries the table it points to.\<close>

definition HashTableIterInit :: "hash_table \<Rightarrow> hash_table_iterator" where
  "HashTableIterInit Hash = \<lparr>Iter_Hash = Hash, HashEntry = Buckets Hash, Bucket = Buckets Hash\<rparr>"

partial_function (option) next_bucket :: "heap \<Rightarrow> u64 \<Rightarrow> u64 \<Rightarrow> u64 option" where
  "next_bucket mem pBucket pEnd =
     (if pEnd \<le> pBucket then Some 0
      else do {
        last \<leftarrow> HashBucketLastLink mem pBucket;
        if \<not> last then Some pBucket else next_bucket mem (pBucket + 8) pEnd
      })"

definition HashTableIterGetNext :: "heap \<Rightarrow> hash_table_iterator \<Rightarrow> (hash_table_iterator \<times> u64) option" where
  "HashTableIterGetNext mem it = do {
     let pLink = HashEntry it;
     last \<leftarrow> (if pLink = 0 then Some True else HashBucketLastLink mem pLink);
     if last then do {
       let Hash = Iter_Hash it;
       let pEnd = Buckets Hash + 8 * ucast (bucket_total Hash);
       pBucket \<leftarrow> next_bucket mem (Bucket it + 8) pEnd;
       if pBucket = 0 then Some (it, 0)
       else do {
         pHashEntry \<leftarrow> rd mem pBucket;
         Some (it\<lparr>Bucket := pBucket, HashEntry := pHashEntry\<rparr>, pHashEntry)
       }
     }
     else do {
       nxt \<leftarrow> rd mem pLink;
       Some (it\<lparr>HashEntry := nxt\<rparr>, nxt)
     }
   }"

partial_function (option) iter_remove_loop ::
  "heap \<Rightarrow> hash_table_iterator \<Rightarrow> u64 \<Rightarrow> u64 \<Rightarrow> (heap \<times> hash_table_iterator \<times> u64) option" where
  "iter_remove_loop mem it pHashEntry pBucket = do {
     last \<leftarrow> HashBucketLastLink mem pBucket;
     if last then Some (mem, it, 0)
     else do {
       nxt \<leftarrow> rd mem pBucket;
       if nxt = pHashEntry then do {
         nn \<leftarrow> rd mem pHashEntry;
         mem \<leftarrow> wr mem pBucket nn;
         let Hash = Iter_Hash it;
         let it = it\<lparr>Iter_Hash := Hash\<lparr>ItemCount := ItemCount Hash - 1\<rparr>\<rparr>;
         nn \<leftarrow> rd mem pHashEntry;
         mem \<leftarrow> wr mem pHashEntry (nn OR 0x8000000000000002);
         Some (mem, it\<lparr>HashEntry := pBucket\<rparr>, pHashEntry)
       }
       else iter_remove_loop mem it pHashEntry nxt
     }
   }"

definition HashTableIterRemove :: "heap \<Rightarrow> hash_table_iterator \<Rightarrow> (heap \<times> hash_table_iterator \<times> u64) option" where
  "HashTableIterRemove mem it = iter_remove_loop mem it (HashEntry it) (Bucket it)"

end
