(* ===== verification/Hash_Table_Inv.thy ===== *)
theory Hash_Table_Inv
  imports Hash_Table
begin

text \<open>
  What the hash table stands for: an association list of keys and entries, newest first. Each bucket
  is the chain of the entries whose key has its index. Construction gives the empty list, insertion
  puts a pair in front, and the search answers with \<^const>\<open>map_of\<close>.
\<close>

section \<open>Chains\<close>

fun chain :: "heap \<Rightarrow> u64 \<Rightarrow> u64 \<Rightarrow> u64 list \<Rightarrow> bool" where
  "chain mem self p [] \<longleftrightarrow> mem p = Some (self OR 1)"
| "chain mem self p (x # xs) \<longleftrightarrow> mem p = Some x \<and> x \<noteq> 0 \<and> x AND 1 = 0 \<and> chain mem self x xs"

lemma chain_cong:
  "chain mem self p xs \<Longrightarrow> mem' q = mem p \<Longrightarrow> (\<And>x. x \<in> set xs \<Longrightarrow> mem' x = mem x) \<Longrightarrow> chain mem' self q xs"
  by (induction xs arbitrary: p q) auto

lemma chain_nonnull: "chain mem self p xs \<Longrightarrow> x \<in> set xs \<Longrightarrow> x \<noteq> 0 \<and> x AND 1 = 0"
  by (induction xs arbitrary: p) auto

lemma tag_bit: "(w OR 1) AND 1 = (1 :: u64)"
  by (rule bit_eqI) (auto simp: bit_and_iff bit_or_iff)

lemma last_link_iff:
  "chain mem self p xs \<Longrightarrow> HashBucketLastLink mem p = Some (xs = [])"
  by (cases xs) (simp_all add: HashBucketLastLink_def rd_def tag_bit)

lemma find_loop_chain:
  assumes "chain mem self p xs" and "\<And>x. x \<in> set xs \<Longrightarrow> mem (x + 8) = Some (hv x)"
  shows "find_loop mem v k p = Some (case find (\<lambda>x. v AND hv x = k) xs of None \<Rightarrow> 0 | Some x \<Rightarrow> x)"
  using assms
proof (induction xs arbitrary: p)
  case Nil
  then show ?case using last_link_iff [OF Nil.prems(1)] by (subst find_loop.simps) simp
next
  case (Cons x xs)
  then show ?case using last_link_iff [OF Cons.prems(1)] by (subst find_loop.simps) (auto simp: rd_def)
qed

section \<open>The table as an association list\<close>

definition head :: "hash_table \<Rightarrow> nat \<Rightarrow> u64" where
  "head H i = Buckets H + 8 * of_nat i"

definition idx_of :: "hash_table \<Rightarrow> u64 \<Rightarrow> nat" where
  "idx_of H k = unat (HashTableGetBucketIndex (bucket_total H) k)"

definition in_bucket :: "hash_table \<Rightarrow> nat \<Rightarrow> (u64 \<times> u64) list \<Rightarrow> u64 list" where
  "in_bucket H i A = map snd (filter (\<lambda>(k, e). idx_of H k = i) A)"

definition ht_cells :: "hash_table \<Rightarrow> u64 list \<Rightarrow> u64 list" where
  "ht_cells H es = map (head H) [0..<unat (bucket_total H)] @ es @ map (\<lambda>e. e + 8) es"

definition ht_repr :: "heap \<Rightarrow> u64 \<Rightarrow> hash_table \<Rightarrow> (u64 \<times> u64) list \<Rightarrow> bool" where
  "ht_repr mem self H A \<longleftrightarrow>
     0 < bucket_total H \<and>
     (\<forall>i < unat (bucket_total H). chain mem self (head H i) (in_bucket H i A)) \<and>
     (\<forall>(k, e) \<in> set A. \<exists>hv. mem (e + 8) = Some hv \<and> key_mask H AND hv = k) \<and>
     distinct (ht_cells H (map snd A)) \<and>
     ItemCount H = of_nat (length A)"

definition ht_fresh :: "heap \<Rightarrow> hash_table \<Rightarrow> (u64 \<times> u64) list \<Rightarrow> u64 \<Rightarrow> bool" where
  "ht_fresh mem H A e \<longleftrightarrow> e \<noteq> 0 \<and> e AND 1 = 0 \<and> mem e \<noteq> None \<and> mem (e + 8) \<noteq> None \<and>
     e \<notin> set (ht_cells H (map snd A)) \<and> e + 8 \<notin> set (ht_cells H (map snd A))"

definition entry_key :: "heap \<Rightarrow> hash_table \<Rightarrow> u64 \<Rightarrow> u64" where
  "entry_key mem H e = key_mask H AND the (mem (e + 8))"

lemma head_ucast: "Buckets H + 8 * ucast (HashTableGetBucketIndex (bucket_total H) k) = head H (idx_of H k)"
  by (simp add: head_def idx_of_def)

lemma idx_of_less:
  assumes "0 < bucket_total H"
  shows "idx_of H k < unat (bucket_total H)"
proof -
  let ?n = "bucket_total H"
  have "ucast (?n - 1) AND HashUlongPtr k \<le> ucast (?n - 1)" by (rule word_and_le2)
  then have "unat (ucast (?n - 1) AND HashUlongPtr k) \<le> unat (?n - 1)"
    by (simp add: word_le_nat_alt unat_ucast_u64)
  moreover have "unat (ucast w :: u32) \<le> unat w" for w :: u64
    by (simp add: unsigned_ucast_eq unsigned_take_bit_eq take_bit_nat_less_eq_self)
  ultimately have "idx_of H k \<le> unat (?n - 1)"
    unfolding idx_of_def HashTableGetBucketIndex_def using order_trans by blast
  also have "unat (?n - 1) < unat ?n"
    using assms by (metis word_gt_0 unat_minus_one diff_less unat_gt_0 zero_less_one)
  finally show ?thesis .
qed

lemma find_in_bucket:
  "find (\<lambda>x. f x = k) (in_bucket H (idx_of H k) A) = map_of A k" if "\<forall>(k, e) \<in> set A. f e = k"
  using that
proof (induction A)
  case (Cons a A)
  then show ?case by (cases a) (simp add: in_bucket_def)
qed (simp add: in_bucket_def)

lemma in_bucket_subset: "set (in_bucket H i A) \<subseteq> set (map snd A)"
  by (auto simp: in_bucket_def)

lemma in_bucket_Cons: "in_bucket H i ((k, e) # A) = (if idx_of H k = i then e # in_bucket H i A else in_bucket H i A)"
  by (simp add: in_bucket_def)

section \<open>Search\<close>

text \<open>The null pointer stands for no entry; an entry of a table is never null.\<close>

abbreviation opt_ptr :: "u64 option \<Rightarrow> u64" where
  "opt_ptr r \<equiv> (case r of None \<Rightarrow> 0 | Some x \<Rightarrow> x)"

lemma FindNext_repr:
  assumes "ht_repr mem self H A"
  shows "HashTableFindNext mem H hv 0 = Some (opt_ptr (map_of A (key_mask H AND hv)))"
proof -
  let ?k = "key_mask H AND hv"
  have r: "0 < bucket_total H" "chain mem self (head H (idx_of H ?k)) (in_bucket H (idx_of H ?k) A)"
    using assms idx_of_less [of H ?k] by (auto simp: ht_repr_def)
  have keys: "\<forall>(k, e) \<in> set A. mem (e + 8) \<noteq> None \<and> key_mask H AND the (mem (e + 8)) = k"
    using assms by (fastforce simp: ht_repr_def)
  then have m: "mem (x + 8) = Some (the (mem (x + 8)))" if "x \<in> set (in_bucket H (idx_of H ?k) A)" for x
    using that in_bucket_subset [of H _ A] by (fastforce simp: in_bucket_def)
  have "find (\<lambda>x. key_mask H AND the (mem (x + 8)) = ?k) (in_bucket H (idx_of H ?k) A) = map_of A ?k"
    by (rule find_in_bucket) (use keys in auto)
  then show ?thesis
    using r(1) find_loop_chain [OF r(2) m, of "key_mask H" ?k]
    by (simp add: HashTableFindNext_def head_ucast Let_def word_gt_0)
qed

section \<open>Insertion\<close>

lemma push_entry:
  assumes "mem h = Some nxt" "mem e \<noteq> None" "h \<noteq> e"
  shows "PushEntryList mem h e = Some (mem(e \<mapsto> nxt, h \<mapsto> e))"
  using assms by (simp add: PushEntryList_def rd_def wr_def)

lemma chain_start: "chain mem self p xs \<Longrightarrow> \<exists>v. mem p = Some v"
  by (cases xs) auto

lemma ht_simps [simp]:
  "bucket_total (H\<lparr>ItemCount := c\<rparr>) = bucket_total H" "key_mask (H\<lparr>ItemCount := c\<rparr>) = key_mask H"
  "head (H\<lparr>ItemCount := c\<rparr>) = head H" "idx_of (H\<lparr>ItemCount := c\<rparr>) = idx_of H"
  "in_bucket (H\<lparr>ItemCount := c\<rparr>) = in_bucket H" "ht_cells (H\<lparr>ItemCount := c\<rparr>) = ht_cells H"
  by (simp_all add: bucket_total_def key_mask_def head_def idx_of_def in_bucket_def ht_cells_def fun_eq_iff)

lemma distinct_heads:
  assumes "distinct (ht_cells H es)" "i < unat (bucket_total H)" "j < unat (bucket_total H)" "head H i = head H j"
  shows "i = j"
  using assms inj_on_contraD by (fastforce simp: ht_cells_def distinct_map)

lemma set_cells:
  "x \<in> set (ht_cells H es) \<longleftrightarrow> (\<exists>i < unat (bucket_total H). x = head H i) \<or> x \<in> set es \<or> (\<exists>y \<in> set es. x = y + 8)"
  by (auto simp: ht_cells_def)

lemma cells_apart:
  assumes "distinct (ht_cells H es)" "i < unat (bucket_total H)" "x \<in> set es"
  shows "head H i \<noteq> x" "head H i \<noteq> x + 8"
proof -
  have d: "head H ` {0..<unat (bucket_total H)} \<inter> (set es \<union> (\<lambda>e. e + 8) ` set es) = {}"
    using assms(1) by (simp add: ht_cells_def)
  have "head H i \<in> head H ` {0..<unat (bucket_total H)}" using assms(2) by simp
  then show "head H i \<noteq> x" "head H i \<noteq> x + 8" using d assms(3) by (metis IntI UnI1 UnI2 empty_iff imageI)+
qed

lemma Insert_repr:
  assumes repr: "ht_repr mem self H A" and fresh: "ht_fresh mem H A e"
  shows "\<exists>mem' H' c. HashTableInsert mem H e = Some (mem', H', c) \<and>
    ht_repr mem' self H' ((entry_key mem H e, e) # A) \<and> key_mask H' = key_mask H \<and> c = ItemCount H' \<and>
    bucket_total H' = bucket_total H \<and> Buckets H' = Buckets H \<and>
    (\<forall>p. p \<notin> set (ht_cells H (map snd A)) \<longrightarrow> p \<noteq> e \<longrightarrow> mem' p = mem p) \<and> (\<forall>x. mem x \<noteq> None \<longrightarrow> mem' x \<noteq> None)"
proof -
  let ?k = "entry_key mem H e" and ?n = "unat (bucket_total H)"
  let ?h = "head H (idx_of H ?k)"
  have r: "0 < bucket_total H" "\<And>i. i < ?n \<Longrightarrow> chain mem self (head H i) (in_bucket H i A)"
    "\<And>k x. (k, x) \<in> set A \<Longrightarrow> \<exists>hv. mem (x + 8) = Some hv \<and> key_mask H AND hv = k"
    "distinct (ht_cells H (map snd A))" "ItemCount H = of_nat (length A)"
    using repr by (auto simp: ht_repr_def)
  have ix: "idx_of H ?k < ?n" by (rule idx_of_less [OF r(1)])
  obtain nxt where nxt: "mem ?h = Some nxt" using chain_start [OF r(2) [OF ix]] by blast
  obtain hv where hv: "mem (e + 8) = Some hv" using fresh by (auto simp: ht_fresh_def)
  have hin: "head H i \<in> set (ht_cells H (map snd A))" if "i < ?n" for i using that by (simp add: ht_cells_def)
  then have he: "head H i \<noteq> e" "head H i \<noteq> e + 8" if "i < ?n" for i
    using fresh that unfolding ht_fresh_def by metis+
  have ein: "x \<noteq> e" "x \<noteq> e + 8" "x + 8 \<noteq> e" "x \<noteq> ?h" "x + 8 \<noteq> ?h" if "x \<in> snd ` set A" for x
    using fresh that cells_apart [OF r(4) ix, of x] unfolding ht_fresh_def set_cells by (auto, metis+)
  define mem' where "mem' = mem(e \<mapsto> nxt, ?h \<mapsto> e)"
  have ins: "HashTableInsert mem H e = Some (mem', H\<lparr>ItemCount := ItemCount H + 1\<rparr>, ItemCount H + 1)"
    using hv nxt fresh he(1) [OF ix] push_entry [of mem ?h nxt e]
    by (simp add: HashTableInsert_def rd_def head_ucast entry_key_def mem'_def ht_fresh_def Let_def)
  have keep: "mem' x = mem x" if "x \<noteq> e" "x \<noteq> ?h" for x using that by (simp add: mem'_def)
  have "chain mem' self (head H i) (in_bucket H i ((?k, e) # A))" if i: "i < ?n" for i
  proof -
    have sub: "x \<in> set (in_bucket H i A) \<Longrightarrow> mem' x = mem x" for x
      using in_bucket_subset [of H i A] ein(1,4) by (intro keep) auto
    show ?thesis
    proof (cases "idx_of H ?k = i")
      case True
      have "chain mem' self e (in_bucket H i A)"
        by (rule chain_cong [OF r(2) [OF i]]) (use True nxt he(1) [OF i] sub in \<open>auto simp: mem'_def\<close>)
      then show ?thesis using True fresh by (simp add: in_bucket_Cons mem'_def ht_fresh_def)
    next
      case False
      then have "head H i \<noteq> ?h" using distinct_heads [OF r(4) i ix] by blast
      then show ?thesis
        using False sub he(1) [OF i] by (simp add: in_bucket_Cons) (rule chain_cong [OF r(2) [OF i]], auto intro: keep)
    qed
  qed
  moreover have "\<exists>hv. mem' (x + 8) = Some hv \<and> key_mask H AND hv = k" if "(k, x) \<in> set ((?k, e) # A)" for k x
  proof (cases "x = e \<and> k = ?k")
    case True
    then show ?thesis using hv he(2) [OF ix] by (auto simp: mem'_def entry_key_def)
  next
    case False
    then have "(k, x) \<in> set A" using that by auto
    then show ?thesis using r(3) [of k x] ein [of x] keep [of "x + 8"] by force
  qed
  moreover have "distinct (ht_cells H (map snd ((?k, e) # A)))"
    using r(4) fresh by (auto simp: ht_cells_def ht_fresh_def)
  ultimately have "ht_repr mem' self (H\<lparr>ItemCount := ItemCount H + 1\<rparr>) ((?k, e) # A)"
    using r(1,5) by (auto simp: ht_repr_def)
  moreover have "mem' p = mem p" if "p \<notin> set (ht_cells H (map snd A))" "p \<noteq> e" for p
    using that keep hin [OF ix] by blast
  ultimately show ?thesis using ins by (auto simp: mem'_def)
qed

end
