(* ===== verification/Hash_Table_Interface.thy ===== *)
theory Hash_Table_Interface
  imports Hash_Table_Inv
begin

text \<open>
  The contract of a keyed store whose newest entry wins, what follows from it for a sequence of
  insertions, and the hash table as an instance of it.
\<close>

section \<open>Keyed stores\<close>

fun fold_opt :: "('s \<Rightarrow> 'e \<Rightarrow> 's option) \<Rightarrow> 's \<Rightarrow> 'e list \<Rightarrow> 's option" where
  "fold_opt f s [] = Some s"
| "fold_opt f s (e # es) = f s e \<bind> (\<lambda>s. fold_opt f s es)"

locale keyed_store =
  fixes R :: "'s \<Rightarrow> ('k \<times> 'e) list \<Rightarrow> bool"
    and ins :: "'s \<Rightarrow> 'e \<Rightarrow> 's option"
    and lookup :: "'s \<Rightarrow> 'h \<Rightarrow> 'e option option"
    and norm :: "'s \<Rightarrow> 'h \<Rightarrow> 'k"
    and key :: "'s \<Rightarrow> 'e \<Rightarrow> 'k"
    and fresh :: "'s \<Rightarrow> ('k \<times> 'e) list \<Rightarrow> 'e \<Rightarrow> bool"
    and apart :: "'e \<Rightarrow> 'e \<Rightarrow> bool"
  assumes ins_ok: "R s A \<Longrightarrow> fresh s A e \<Longrightarrow> \<exists>s'. ins s e = Some s' \<and> R s' ((key s e, e) # A) \<and> norm s' = norm s \<and>
      (\<forall>x. apart e x \<longrightarrow> fresh s A x \<longrightarrow> fresh s' ((key s e, e) # A) x \<and> key s' x = key s x)"
    and lookup_ok: "R s A \<Longrightarrow> lookup s h = Some (map_of A (norm s h))"
begin

lemma ins_all:
  assumes "R s A" and "\<And>e. e \<in> set es \<Longrightarrow> fresh s A e" and "sorted_wrt apart es"
  shows "\<exists>s'. fold_opt ins s es = Some s' \<and> R s' (rev (map (\<lambda>e. (key s e, e)) es) @ A) \<and> norm s' = norm s"
  using assms
proof (induction es arbitrary: s A)
  case (Cons e es)
  have fe: "fresh s A e" using Cons.prems(2) by simp
  obtain s1 where s1: "ins s e = Some s1" "R s1 ((key s e, e) # A)" "norm s1 = norm s"
    and keep: "\<And>x. apart e x \<Longrightarrow> fresh s A x \<Longrightarrow> fresh s1 ((key s e, e) # A) x \<and> key s1 x = key s x"
    using ins_ok [OF Cons.prems(1) fe] by blast
  have k: "fresh s1 ((key s e, e) # A) x \<and> key s1 x = key s x" if "x \<in> set es" for x
    using that Cons.prems(2,3) by (intro keep) auto
  have "\<exists>s'. fold_opt ins s1 es = Some s' \<and> R s' (rev (map (\<lambda>e. (key s1 e, e)) es) @ (key s e, e) # A) \<and> norm s' = norm s1"
    by (rule Cons.IH [OF s1(2)]) (use k Cons.prems(3) in auto)
  moreover have "map (\<lambda>e. (key s1 e, e)) es = map (\<lambda>e. (key s e, e)) es" using k by auto
  ultimately show ?case using s1 by auto
qed auto

text \<open>After a sequence of insertions a lookup finds the latest of them with the key, else what was there.\<close>

lemma lookup_after_ins_all:
  assumes "R s A" and "\<And>e. e \<in> set es \<Longrightarrow> fresh s A e" and "sorted_wrt apart es"
  shows "\<exists>s'. fold_opt ins s es = Some s' \<and>
    lookup s' h = Some (case find (\<lambda>e. key s e = norm s h) (rev es) of Some e \<Rightarrow> Some e | None \<Rightarrow> map_of A (norm s h))"
proof -
  have m: "map_of (map (\<lambda>e. (key s e, e)) xs @ A) k = (case find (\<lambda>e. key s e = k) xs of Some e \<Rightarrow> Some e | None \<Rightarrow> map_of A k)"
    for xs k by (induction xs) auto
  obtain s' where s': "fold_opt ins s es = Some s'" "R s' (rev (map (\<lambda>e. (key s e, e)) es) @ A)" "norm s' = norm s"
    using ins_all [of s A es] assms by blast
  then show ?thesis
    using lookup_ok [OF s'(2), of h] by (simp only: rev_map m) auto
qed

end

section \<open>The hash table\<close>

abbreviation null_opt :: "u64 \<Rightarrow> u64 option" where
  "null_opt p \<equiv> (if p = 0 then None else Some p)"

definition table_insert :: "heap \<times> hash_table \<Rightarrow> u64 \<Rightarrow> (heap \<times> hash_table) option" where
  "table_insert s e = map_option (\<lambda>(mem, H, c). (mem, H)) (HashTableInsert (fst s) (snd s) e)"

definition table_find :: "heap \<times> hash_table \<Rightarrow> u64 \<Rightarrow> u64 option option" where
  "table_find s h = map_option null_opt (HashTableFindNext (fst s) (snd s) h 0)"

definition entries_apart :: "u64 \<Rightarrow> u64 \<Rightarrow> bool" where
  "entries_apart e x \<longleftrightarrow> {e, e + 8} \<inter> {x, x + 8} = {}"

lemma map_of_repr_nonnull:
  assumes "ht_repr mem self H A" "map_of A k = Some e"
  shows "e \<noteq> 0"
proof -
  have m: "(k, e) \<in> set A" using assms(2) by (rule map_of_SomeD)
  then have "e \<in> set (in_bucket H (idx_of H k) A)" by (force simp: in_bucket_def)
  moreover have "chain mem self (head H (idx_of H k)) (in_bucket H (idx_of H k) A)"
    using assms(1) idx_of_less [of H k] by (simp add: ht_repr_def)
  ultimately show ?thesis using chain_nonnull by blast
qed

lemma fresh_after_insert:
  assumes "entries_apart e x" "ht_fresh mem H A x" "\<And>p. mem p \<noteq> None \<Longrightarrow> mem' p \<noteq> None"
    "bucket_total H' = bucket_total H" "Buckets H' = Buckets H"
  shows "ht_fresh mem' H' ((k, e) # A) x"
proof -
  have c: "set (ht_cells H' (map snd ((k, e) # A))) = set (ht_cells H (map snd A)) \<union> {e, e + 8}"
    using assms(4,5) by (auto simp: ht_cells_def head_def)
  have "x \<notin> {e, e + 8}" "x + 8 \<notin> {e, e + 8}" using assms(1) unfolding entries_apart_def by blast+
  moreover have "mem' x \<noteq> None" "mem' (x + 8) \<noteq> None" using assms(2) assms(3) [of x] assms(3) [of "x + 8"] unfolding ht_fresh_def by blast+
  ultimately show ?thesis using assms(2) unfolding ht_fresh_def c by blast
qed

interpretation spt_table: keyed_store "\<lambda>(mem, H). ht_repr mem self H" table_insert table_find
  "\<lambda>s h. key_mask (snd s) AND h" "\<lambda>s. entry_key (fst s) (snd s)" "\<lambda>(mem, H). ht_fresh mem H" entries_apart for self
proof unfold_locales
  fix s A e
  assume "(case s of (mem, H) \<Rightarrow> ht_repr mem self H) A" "(case s of (mem, H) \<Rightarrow> ht_fresh mem H) A e"
  then obtain mem H where s: "s = (mem, H)" and r: "ht_repr mem self H A" and f: "ht_fresh mem H A e" by (cases s) auto
  obtain mem' H' c where i: "HashTableInsert mem H e = Some (mem', H', c)" "ht_repr mem' self H' ((entry_key mem H e, e) # A)"
      "key_mask H' = key_mask H" "bucket_total H' = bucket_total H" "Buckets H' = Buckets H"
    and frame: "\<And>p. p \<notin> set (ht_cells H (map snd A)) \<Longrightarrow> p \<noteq> e \<Longrightarrow> mem' p = mem p" "\<And>x. mem x \<noteq> None \<Longrightarrow> mem' x \<noteq> None"
    using Insert_repr [OF r f] by blast
  have "ht_fresh mem' H' ((entry_key mem H e, e) # A) x \<and> entry_key mem' H' x = entry_key mem H x"
    if "entries_apart e x" "ht_fresh mem H A x" for x
  proof
    show "ht_fresh mem' H' ((entry_key mem H e, e) # A) x"
      by (rule fresh_after_insert [OF that frame(2) i(4,5)])
    have "mem' (x + 8) = mem (x + 8)"
      using that by (intro frame(1)) (auto simp: ht_fresh_def entries_apart_def)
    then show "entry_key mem' H' x = entry_key mem H x" by (simp add: entry_key_def i(3))
  qed
  then show "\<exists>s'. table_insert s e = Some s' \<and> (case s' of (mem, H) \<Rightarrow> ht_repr mem self H) ((entry_key (fst s) (snd s) e, e) # A) \<and>
      (\<lambda>h. key_mask (snd s') AND h) = (\<lambda>h. key_mask (snd s) AND h) \<and>
      (\<forall>x. entries_apart e x \<longrightarrow> (case s of (mem, H) \<Rightarrow> ht_fresh mem H) A x \<longrightarrow>
        (case s' of (mem, H) \<Rightarrow> ht_fresh mem H) ((entry_key (fst s) (snd s) e, e) # A) x \<and>
        entry_key (fst s') (snd s') x = entry_key (fst s) (snd s) x)"
    using i(1-3) by (simp add: table_insert_def s)
next
  fix s A h
  assume "(case s of (mem, H) \<Rightarrow> ht_repr mem self H) A"
  then obtain mem H where s: "s = (mem, H)" and r: "ht_repr mem self H A" by (cases s) auto
  show "table_find s h = Some (map_of A (key_mask (snd s) AND h))"
    using map_of_repr_nonnull [OF r, of "key_mask H AND h"] by (auto simp: s table_find_def FindNext_repr [OF r] split: option.split)
qed

end
