(* ===== verification/Hash_Table_Props.thy ===== *)
theory Hash_Table_Props
  imports Hash_Table_Interface "HOL-Library.Multiset"
begin

text \<open>
  Construction, search, iteration and removal of the hash table, and the rounding of its size.
\<close>

section \<open>Sizes\<close>

lemma highest_loop_bound:
  "\<exists>n \<le> 32. highest_loop i v = i + of_nat n \<and> unat v < 2 ^ n \<and> (v \<noteq> 0 \<longrightarrow> 0 < n \<and> 2 ^ (n - 1) \<le> unat v)"
proof -
  have "\<exists>n. highest_loop i v = i + of_nat n \<and> unat v < 2 ^ n \<and> (if v = 0 then n = 0 else 0 < n \<and> 2 ^ (n - 1) \<le> unat v)"
  proof (induction i v rule: highest_loop.induct)
    case (1 index v)
    show ?case
    proof (cases "v = 0")
      case True
      then show ?thesis by (subst highest_loop.simps) (auto intro: exI [of _ 0])
    next
      case False
      then have pos: "0 < v" by (simp add: word_gt_0)
      obtain n where n: "highest_loop (index + 1) (drop_bit 1 v) = index + 1 + of_nat n" "unat v div 2 < 2 ^ n"
        "if unat v div 2 = 0 then n = 0 else 0 < n \<and> 2 ^ (n - 1) \<le> unat v div 2"
        using 1 [OF pos, unfolded unat_eq_zero [symmetric] unat_drop_bit_div power_one_right] by blast
      have "2 ^ n \<le> unat v"
      proof (cases n)
        case 0
        then show ?thesis using False by (simp add: unat_gt_0 Suc_leI)
      next
        case (Suc m)
        then have "2 ^ m \<le> unat v div 2" using n(3) by (simp split: if_splits)
        then show ?thesis using Suc by simp
      qed
      then show ?thesis using n(1,2) pos by (subst highest_loop.simps) (auto intro!: exI [of _ "Suc n"])
    qed
  qed
  then obtain n where n: "highest_loop i v = i + of_nat n" "unat v < 2 ^ n" "v \<noteq> 0 \<longrightarrow> 0 < n \<and> 2 ^ (n - 1) \<le> unat v"
    by (metis (no_types))
  show ?thesis
  proof (cases "v = 0")
    case True
    then show ?thesis by (subst highest_loop.simps) (auto intro: exI [of _ 0])
  next
    case False
    then have "(2::nat) ^ (n - 1) < 2 ^ 32" using n(3) unsigned_less [of v, where ?'a = nat] by simp
    then have "n - 1 < 32" by (rule power_less_imp_less_exp [rotated]) simp
    then show ?thesis using n False by (intro exI [of _ n]) auto
  qed
qed

lemma power_of_two: "n < 32 \<Longrightarrow> IsPowerOfTwo (2 ^ n)"
proof -
  assume n: "n < 32"
  have "(2 ^ n :: u32) AND mask n = 0" by (rule bit_eqI) (auto simp: bit_and_iff bit_mask_iff bit_exp_iff)
  moreover have "(2 ^ n :: u32) \<noteq> 0" using n by simp
  ultimately show ?thesis by (simp add: IsPowerOfTwo_def mask_eq_exp_minus_1 word_gt_0)
qed

lemma top_bit:
  assumes "2 ^ 31 \<le> unat (w :: u32)"
  shows "bit w 31"
proof -
  have "unat w div 2 ^ 31 = 1" using assms unsigned_less [of w, where ?'a = nat] by simp
  then have "unat (drop_bit 31 w) = unat (1 :: u32)" by (simp add: unat_drop_bit_div)
  then have "drop_bit 31 w = 1" by (rule unsigned_word_eqI)
  then show ?thesis by (simp add: bit_iff_odd_drop_bit)
qed

lemma not_power_of_two_above:
  assumes "2 ^ 31 < unat v"
  shows "\<not> IsPowerOfTwo v"
proof -
  have "v \<noteq> 0" using assms by auto
  then have "unat (v - 1) = unat v - 1" by (rule unat_minus_one)
  then have "bit (v AND (v - 1)) 31" using assms by (auto simp: bit_and_iff intro!: top_bit)
  then show ?thesis by (auto simp: IsPowerOfTwo_def)
qed

lemma unat_power_u32: "n < 32 \<Longrightarrow> unat (2 ^ n :: u32) = 2 ^ n"
  using unat_of_nat [of "2 ^ n", where 'a = 32] power_strict_increasing [of n 32 "2 :: nat"] by simp

text \<open>
  C19: rounding a positive size of at most 2^31 gives a power of two that is at least the size and
  less than twice as large; above that the shift count is taken modulo 32 and the result is 1.
\<close>

theorem round_to_power_of_two:
  assumes "0 < v"
  shows "(v \<le> 2 ^ 31 \<longrightarrow> IsPowerOfTwo (RoundToPowerOfTwo v False) \<and> v \<le> RoundToPowerOfTwo v False \<and>
      unat (RoundToPowerOfTwo v False) < 2 * unat v) \<and> (2 ^ 31 < v \<longrightarrow> RoundToPowerOfTwo v False = 1)"
proof -
  obtain n where n: "n \<le> 32" "GetHighestBitIndex v = of_nat n" "unat v < 2 ^ n" "0 < n" "2 ^ (n - 1) \<le> unat v"
    using highest_loop_bound [of 0 v] assms by (auto simp: GetHighestBitIndex_def word_gt_0)
  have un: "unat (of_nat n :: u32) = n" using n(1) by (simp add: unat_of_nat)
  have small: "IsPowerOfTwo (RoundToPowerOfTwo v False) \<and> v \<le> RoundToPowerOfTwo v False \<and>
      unat (RoundToPowerOfTwo v False) < 2 * unat v" if v: "v \<le> 2 ^ 31"
    proof (cases "IsPowerOfTwo v")
      case True
      then show ?thesis using assms by (auto simp: RoundToPowerOfTwo_def word_less_nat_alt)
    next
      case False
      have uv: "unat v \<le> 2 ^ 31" using v by (simp add: word_le_nat_alt)
      have "v \<noteq> 2 ^ (n - 1)" using False power_of_two [of "n - 1"] n(1) by auto
      then have ne: "unat v \<noteq> 2 ^ (n - 1)"
        using n(1,4) unat_power_u32 [of "n - 1"] by (metis Suc_diff_1 Suc_le_eq unsigned_word_eqI)
      then have "(2::nat) ^ (n - 1) < 2 ^ 31" using n(5) uv by linarith
      then have "n - 1 < 31" by (rule power_less_imp_less_exp [rotated]) simp
      then have n32: "n < 32" by linarith
      have r: "RoundToPowerOfTwo v False = 2 ^ n"
        using False assms n32 un by (simp add: RoundToPowerOfTwo_def n(2) push_bit_eq_mult word_gt_0)
      have "2 * 2 ^ (n - 1) = (2::nat) ^ n" using n(4) by (simp add: power_eq_if)
      then have "(2::nat) ^ n < 2 * unat v" using ne n(5) by linarith
      then show ?thesis
        using n(3) unfolding r by (simp add: power_of_two [OF n32] word_le_nat_alt unat_power_u32 [OF n32])
    qed
  have large: "RoundToPowerOfTwo v False = 1" if v: "2 ^ 31 < v"
  proof -
    have uv: "2 ^ 31 < unat v" using v by (simp add: word_less_nat_alt)
    then have "(2::nat) ^ 31 < 2 ^ n" using n(3) by linarith
    then have "31 < n" by (rule power_less_imp_less_exp [rotated]) simp
    then have n32: "n = 32" using n(1) by simp
    have "\<not> IsPowerOfTwo v" by (rule not_power_of_two_above [OF uv])
    then show "RoundToPowerOfTwo v False = 1"
      using assms n32 by (simp add: RoundToPowerOfTwo_def n(2) word_gt_0)
  qed
  show ?thesis using small large by blast
qed

theorem round_to_power_of_two_witness:
  "IsPowerOfTwo (RoundToPowerOfTwo 1000 False) \<and> 1000 \<le> RoundToPowerOfTwo 1000 False \<and> RoundToPowerOfTwo 0x80000001 False = 1"
  using round_to_power_of_two [of 1000] round_to_power_of_two [of "0x80000001"] by simp

section \<open>Construction\<close>

abbreviation cell :: "u64 \<Rightarrow> nat \<Rightarrow> u64" where
  "cell p i \<equiv> p + 8 * of_nat i"

lemma unat_cell:
  assumes "unat p + 8 * i < 2 ^ 64"
  shows "unat (cell p i) = unat p + 8 * i"
proof -
  have "cell p i = of_nat (unat p + 8 * i)" by simp
  then show ?thesis using assms by (simp only: unat_of_nat) simp
qed

lemma cell_eq:
  assumes "unat p + 8 * n < 2 ^ 64" "i \<le> n" "j \<le> n" "cell p i = cell p j"
  shows "i = j"
proof -
  have "unat (cell p i) = unat p + 8 * i" "unat (cell p j) = unat p + 8 * j"
    using assms(1-3) by (intro unat_cell; linarith)+
  then show ?thesis unfolding assms(4) by linarith
qed

lemma cell_Suc: "cell p i + 8 = cell p (Suc i)"
  by (simp add: algebra_simps)

lemma init_buckets_ok:
  assumes "unat p + 8 * n < 2 ^ 64" and "j \<le> n" and "\<And>i. j \<le> i \<Longrightarrow> i < n \<Longrightarrow> mem (cell p i) \<noteq> None"
  shows "\<exists>mem'. init_buckets mem self (cell p j) (cell p n) = Some mem' \<and>
    (\<forall>i. j \<le> i \<longrightarrow> i < n \<longrightarrow> mem' (cell p i) = Some (self OR 1)) \<and> (\<forall>q. q \<notin> cell p ` {j..<n} \<longrightarrow> mem' q = mem q)"
  using assms(2,3)
proof (induction "n - j" arbitrary: j mem)
  case 0
  then show ?case by (subst init_buckets.simps) auto
next
  case (Suc k)
  then have j: "j < n" by simp
  have lt: "cell p j < cell p n"
    using j assms(1) unat_cell [of p j] unat_cell [of p n] by (simp only: word_less_nat_alt)
  let ?m = "mem(cell p j \<mapsto> self OR 1)"
  have k: "k = n - Suc j" "Suc j \<le> n" using Suc.hyps(2) j by simp_all
  have "\<exists>mem'. init_buckets ?m self (cell p (Suc j)) (cell p n) = Some mem' \<and>
    (\<forall>i. Suc j \<le> i \<longrightarrow> i < n \<longrightarrow> mem' (cell p i) = Some (self OR 1)) \<and> (\<forall>q. q \<notin> cell p ` {Suc j..<n} \<longrightarrow> mem' q = ?m q)"
    by (rule Suc.hyps(1) [OF k]) (use Suc.prems(2) in auto)
  then obtain mem' where m: "init_buckets ?m self (cell p (Suc j)) (cell p n) = Some mem'"
    "\<And>i. Suc j \<le> i \<Longrightarrow> i < n \<Longrightarrow> mem' (cell p i) = Some (self OR 1)" "\<And>q. q \<notin> cell p ` {Suc j..<n} \<Longrightarrow> mem' q = ?m q"
    by blast
  have "init_buckets mem self (cell p j) (cell p n) = Some mem'"
    using lt m(1) Suc.prems(2) [of j] j by (subst init_buckets.simps) (auto simp: wr_def cell_Suc simp del: of_nat_Suc)
  moreover have "mem' (cell p j) = Some (self OR 1)"
  proof -
    have "cell p j \<notin> cell p ` {Suc j..<n}"
    proof
      assume "cell p j \<in> cell p ` {Suc j..<n}"
      then obtain i where "Suc j \<le> i" "i < n" "cell p j = cell p i" by auto
      then show False using cell_eq [OF assms(1), of j i] by simp
    qed
    then show ?thesis using m(3) by simp
  qed
  then have "mem' (cell p i) = Some (self OR 1)" if "j \<le> i" "i < n" for i
    using that m(2) [of i] by (cases "i = j") auto
  moreover have "mem' q = mem q" if "q \<notin> cell p ` {j..<n}" for q
  proof -
    have "q \<noteq> cell p j" "q \<notin> cell p ` {Suc j..<n}" using that j by force+
    then show ?thesis using m(3) by simp
  qed
  ultimately show ?case by blast
qed

lemma create_repr:
  assumes "unat pB + 4096 < 2 ^ 64" and "\<And>i. i < 512 \<Longrightarrow> mem (cell pB i) \<noteq> None"
  shows "\<exists>mem' H'. mmu_create_table mem self H pB = Some (mem', H') \<and> ht_repr mem' self H' [] \<and>
    key_mask H' = - 1 \<and> bucket_total H' = 512 \<and> Buckets H' = pB \<and> (\<forall>q. q \<notin> cell pB ` {0..<512} \<longrightarrow> mem' q = mem q)"
proof -
  have "unat pB + 8 * 512 < 2 ^ 64" using assms(1) by simp
  then obtain mem' where m: "init_buckets mem self (cell pB 0) (cell pB 512) = Some mem'"
    "\<And>i. i < 512 \<Longrightarrow> mem' (cell pB i) = Some (self OR 1)" "\<And>q. q \<notin> cell pB ` {0..<512} \<Longrightarrow> mem' q = mem q"
    using init_buckets_ok [of pB 512 0 mem self] assms(2) by blast
  let ?H = "H\<lparr>ItemCount := 0, BucketCount := 0, Buckets := 0\<rparr>"
  let ?H' = "H\<lparr>ItemCount := 0, BucketCount := 16384, Buckets := pB\<rparr>"
  have i: "HashTableInitialize mem self H 0 0 0 = Some (mem, ?H)"
    by (simp add: HashTableInitialize_def RoundToPowerOfTwo_def and.assoc)
  have r: "RoundToPowerOfTwo 512 False = 512" by (simp add: RoundToPowerOfTwo_def IsPowerOfTwo_def)
  have "HashTableChangeTable mem self ?H 512 pB = Some (mem', ?H', 0)"
    using m(1) by (simp add: HashTableChangeTable_def r bucket_total_def drain_all.simps)
  then have c: "mmu_create_table mem self H pB = Some (mem', ?H')" by (simp add: mmu_create_table_def i)
  have t: "bucket_total ?H' = 512" "key_mask ?H' = - 1" by (simp_all add: bucket_total_def key_mask_def)
  have "inj_on (head ?H') {0..<512}"
  proof (rule inj_onI)
    fix i j assume "i \<in> {0..<512}" "j \<in> {0..<512}" "head ?H' i = head ?H' j"
    then show "i = j" using cell_eq [of pB 512 i j] assms(1) by (simp add: head_def)
  qed
  then have "ht_repr mem' self ?H' []"
    using m(2) by (simp add: ht_repr_def t head_def in_bucket_def ht_cells_def distinct_map)
  then show ?thesis using c t m(3) by auto
qed

text \<open>
  C20: in the table that \<^verbatim>\<open>kvm_mmu_create\<close> sets up, whatever it held before, after inserting any
  sequence of entries that do not overlap each other or the buckets, the search for a hash value
  returns the entry inserted last among those that carry it, and NULL when there is none.
\<close>

theorem created_table_last_wins:
  assumes "unat pB + 4096 < 2 ^ 64" and "\<forall>i < 512. mem (cell pB i) \<noteq> None"
    and "\<forall>e \<in> set es. e \<noteq> 0 \<and> e AND 1 = 0 \<and> {e, e + 8} \<subseteq> dom mem \<and> {e, e + 8} \<inter> cell pB ` {0..<512} = {}"
    and "sorted_wrt entries_apart es"
  shows "\<exists>mem1 H1 mem2 H2. mmu_create_table mem self H pB = Some (mem1, H1) \<and>
    fold_opt table_insert (mem1, H1) es = Some (mem2, H2) \<and>
    HashTableFindNext mem2 H2 h 0 = Some (opt_ptr (find (\<lambda>e. mem (e + 8) = Some h) (rev es)))"
proof -
  obtain mem1 H1 where c: "mmu_create_table mem self H pB = Some (mem1, H1)" "ht_repr mem1 self H1 []"
      "key_mask H1 = - 1" "bucket_total H1 = 512" "Buckets H1 = pB"
    and frame: "\<And>q. q \<notin> cell pB ` {0..<512} \<Longrightarrow> mem1 q = mem q"
    using create_repr [OF assms(1), of mem self H] assms(2) by blast
  have cells: "set (ht_cells H1 (map snd [])) = cell pB ` {0..<512}" by (simp add: ht_cells_def head_def c(4,5))
  have e: "mem1 e = mem e" "mem1 (e + 8) = mem (e + 8)" "ht_fresh mem1 H1 [] e" if "e \<in> set es" for e
  proof -
    have p: "e \<notin> cell pB ` {0..<512}" "e + 8 \<notin> cell pB ` {0..<512}" "mem e \<noteq> None" "mem (e + 8) \<noteq> None" "e \<noteq> 0" "e AND 1 = 0"
      using assms(3) that by auto
    then show m: "mem1 e = mem e" "mem1 (e + 8) = mem (e + 8)" using frame by blast+
    show "ht_fresh mem1 H1 [] e" unfolding ht_fresh_def cells using p m by simp
  qed
  have "\<exists>s'. fold_opt table_insert (mem1, H1) es = Some s' \<and> table_find s' h = Some
      (case find (\<lambda>e. entry_key (fst (mem1, H1)) (snd (mem1, H1)) e = key_mask (snd (mem1, H1)) AND h) (rev es) of
        Some e \<Rightarrow> Some e | None \<Rightarrow> map_of [] (key_mask (snd (mem1, H1)) AND h))"
    by (rule spt_table.lookup_after_ins_all) (use c(2) e(3) assms(4) in auto)
  moreover have "find (\<lambda>e. entry_key mem1 H1 e = h) (rev es) = find (\<lambda>e. mem (e + 8) = Some h) (rev es)"
    by (rule find_cong) (use e assms(3) in \<open>auto simp: entry_key_def c(3)\<close>)
  ultimately obtain s' where s': "fold_opt table_insert (mem1, H1) es = Some s'"
    "table_find s' h = Some (find (\<lambda>e. mem (e + 8) = Some h) (rev es))" by (auto simp: c(3) split: option.splits)
  then show ?thesis using c(1) by (cases s') (auto simp: table_find_def split: if_splits option.splits)
qed

definition demo_heap :: heap where
  "demo_heap = (\<lambda>_. Some 0)(0x9008 := Some 5, 0x9018 := Some 5)"

lemma cell_below:
  assumes "i < 512"
  shows "cell 0x1000 i < 0x2000"
  using unat_cell [of "0x1000" i] assms by (simp add: word_less_nat_alt)

theorem created_table_last_wins_witness:
  "\<exists>mem1 H1 mem2 H2. mmu_create_table demo_heap 0x500 \<lparr>ItemCount = 0, BucketCount = 0, Buckets = 0\<rparr> 0x1000 = Some (mem1, H1) \<and>
    fold_opt table_insert (mem1, H1) [0x9000, 0x9010] = Some (mem2, H2) \<and> HashTableFindNext mem2 H2 5 0 = Some 0x9010"
proof -
  have "x \<notin> cell 0x1000 ` {0..<512}" if "0x2000 \<le> x" for x
    using cell_below that by (auto simp: not_less [symmetric])
  then have "\<exists>mem1 H1 mem2 H2. mmu_create_table demo_heap 0x500 \<lparr>ItemCount = 0, BucketCount = 0, Buckets = 0\<rparr> 0x1000 = Some (mem1, H1) \<and>
    fold_opt table_insert (mem1, H1) [0x9000, 0x9010] = Some (mem2, H2) \<and>
    HashTableFindNext mem2 H2 5 0 = Some (opt_ptr (find (\<lambda>e. demo_heap (e + 8) = Some 5) (rev [0x9000, 0x9010])))"
    by (intro created_table_last_wins) (auto simp: demo_heap_def entries_apart_def)
  then show ?thesis by (simp add: demo_heap_def)
qed

section \<open>Iteration\<close>

text \<open>What a caller that asks for the next entry at most \<open>n\<close> times, until it gets NULL, has seen.\<close>

fun iter_collect :: "heap \<Rightarrow> hash_table_iterator \<Rightarrow> nat \<Rightarrow> u64 list option" where
  "iter_collect mem it 0 = Some []"
| "iter_collect mem it (Suc n) = do {
     (it, p) \<leftarrow> HashTableIterGetNext mem it;
     if p = 0 then Some [] else map_option (Cons p) (iter_collect mem it n)
   }"

abbreviation buckets_from :: "hash_table \<Rightarrow> (u64 \<times> u64) list \<Rightarrow> nat \<Rightarrow> u64 list" where
  "buckets_from H A i \<equiv> concat (map (\<lambda>j. in_bucket H j A) [i..<unat (bucket_total H)])"

lemma next_bucket_ok:
  assumes "ht_repr mem self H A" and "unat (Buckets H) + 8 * unat (bucket_total H) < 2 ^ 64" and "Buckets H \<noteq> 0"
    and "i \<le> unat (bucket_total H)"
  shows "(buckets_from H A i = [] \<and> next_bucket mem (head H i) (head H (unat (bucket_total H))) = Some 0) \<or>
    (\<exists>j. i \<le> j \<and> j < unat (bucket_total H) \<and> next_bucket mem (head H i) (head H (unat (bucket_total H))) = Some (head H j) \<and>
       head H j \<noteq> 0 \<and> in_bucket H j A \<noteq> [] \<and> buckets_from H A i = in_bucket H j A @ buckets_from H A (Suc j))"
  using assms(4)
proof (induction "unat (bucket_total H) - i" arbitrary: i)
  case 0
  then show ?case by (subst next_bucket.simps) simp
next
  case (Suc k)
  let ?n = "unat (bucket_total H)"
  have i: "i < ?n" using Suc.hyps(2) by simp
  have u: "unat (head H i) = unat (Buckets H) + 8 * i" "unat (head H ?n) = unat (Buckets H) + 8 * ?n"
    unfolding head_def using i assms(2) by (intro unat_cell; linarith)+
  have lt: "\<not> head H ?n \<le> head H i" using i u by (simp add: word_le_nat_alt)
  have nz: "head H i \<noteq> 0"
  proof
    assume "head H i = 0"
    then show False using u(1) assms(3) by (simp add: unat_eq_zero)
  qed
  have ch: "chain mem self (head H i) (in_bucket H i A)" using assms(1) i by (simp add: ht_repr_def)
  have bf: "buckets_from H A i = in_bucket H i A @ buckets_from H A (Suc i)" using i by (simp add: upt_conv_Cons)
  have hs: "head H i + 8 = head H (Suc i)" by (simp add: head_def algebra_simps)
  show ?case
  proof (cases "in_bucket H i A = []")
    case True
    then have "next_bucket mem (head H i) (head H ?n) = next_bucket mem (head H (Suc i)) (head H ?n)"
      using lt last_link_iff [OF ch] by (subst next_bucket.simps) (simp add: hs)
    moreover have "k = ?n - Suc i" "Suc i \<le> ?n" using Suc.hyps(2) i by simp_all
    ultimately show ?thesis using Suc.hyps(1) [of "Suc i"] True bf Suc_leD by fastforce
  next
    case False
    then have "next_bucket mem (head H i) (head H ?n) = Some (head H i)"
      using lt last_link_iff [OF ch] by (subst next_bucket.simps) simp
    then show ?thesis using False i bf nz by blast
  qed
qed

lemma iter_collect_ok:
  assumes "ht_repr mem self H A" and "unat (Buckets H) + 8 * unat (bucket_total H) < 2 ^ 64" and "Buckets H \<noteq> 0"
    and "i < unat (bucket_total H)" and "chain mem self p xs" and "p \<noteq> 0" and "length (xs @ buckets_from H A (Suc i)) < n"
  shows "iter_collect mem \<lparr>Iter_Hash = H, HashEntry = p, Bucket = head H i\<rparr> n = Some (xs @ buckets_from H A (Suc i))"
  using assms(4-)
proof (induction n arbitrary: i p xs)
  case (Suc n)
  let ?it = "\<lparr>Iter_Hash = H, HashEntry = p, Bucket = head H i\<rparr>" and ?n = "unat (bucket_total H)"
  have e: "Buckets H + 8 * ucast (bucket_total H) = head H ?n" "head H i + 8 = head H (Suc i)"
    by (simp_all add: head_def algebra_simps)
  show ?case
  proof (cases xs)
    case (Cons x xs')
    then have ch: "chain mem self x xs'" "x \<noteq> 0" "mem p = Some x" using Suc.prems(2) by auto
    have "HashTableIterGetNext mem ?it = Some (?it\<lparr>HashEntry := x\<rparr>, x)"
      using last_link_iff [OF Suc.prems(2)] Suc.prems(3) Cons ch(3) by (simp add: HashTableIterGetNext_def rd_def)
    then show ?thesis using Suc.IH [OF Suc.prems(1) ch(1,2)] Suc.prems(4) Cons ch(2) by simp
  next
    case Nil
    then have last: "HashBucketLastLink mem p = Some True" using last_link_iff [OF Suc.prems(2)] by simp
    consider (none) "buckets_from H A (Suc i) = []" "next_bucket mem (head H (Suc i)) (head H ?n) = Some 0"
      | (found) j where "Suc i \<le> j" "j < ?n" "next_bucket mem (head H (Suc i)) (head H ?n) = Some (head H j)" "head H j \<noteq> 0"
          "in_bucket H j A \<noteq> []" "buckets_from H A (Suc i) = in_bucket H j A @ buckets_from H A (Suc j)"
      using next_bucket_ok [OF assms(1-3), of "Suc i"] Suc.prems(1) by (auto simp: Suc_le_eq)
    then show ?thesis
    proof cases
      case none
      then show ?thesis using last Suc.prems(3) Nil by (simp add: HashTableIterGetNext_def e Let_def)
    next
      case found
      obtain x ys where xy: "in_bucket H j A = x # ys" using found(5) by (cases "in_bucket H j A") auto
      have "chain mem self (head H j) (x # ys)" using assms(1) found(2) xy by (auto simp: ht_repr_def)
      then have ch: "chain mem self x ys" "x \<noteq> 0" "mem (head H j) = Some x" by auto
      have "HashTableIterGetNext mem ?it = Some (\<lparr>Iter_Hash = H, HashEntry = x, Bucket = head H j\<rparr>, x)"
        using last Suc.prems(3) found(3,4) ch(3) by (simp add: HashTableIterGetNext_def e rd_def Let_def)
      then show ?thesis using Suc.IH [OF found(2) ch(1,2)] Suc.prems(4) found(6) xy Nil ch(2) by simp
    qed
  qed
qed simp

lemma mset_in_buckets:
  assumes "0 < bucket_total H"
  shows "mset (buckets_from H A 0) = mset (map snd A)"
proof -
  let ?n = "unat (bucket_total H)"
  have "mset (concat (map (\<lambda>j. in_bucket H j A) [0..<m])) = mset (map snd (filter (\<lambda>(k, e). idx_of H k < m) A))" for m
  proof (induction m)
    case (Suc m)
    have "filter_mset (\<lambda>(k, e). idx_of H k < Suc m) M = filter_mset (\<lambda>(k, e). idx_of H k < m) M + filter_mset (\<lambda>(k, e). idx_of H k = m) M"
      for M :: "(u64 \<times> u64) multiset"
      by (induction M) (auto simp: less_Suc_eq)
    then show ?case using Suc by (simp add: in_bucket_def)
  qed simp
  moreover have "filter (\<lambda>(k, e). idx_of H k < ?n) A = A" using idx_of_less [OF assms] by (simp add: filter_id_conv split_beta)
  ultimately show ?thesis by metis
qed

text \<open>
  C21: the iterator of a table whose bucket array does not wrap visits every entry exactly once and
  then returns NULL.
\<close>

theorem iter_visits_every_entry:
  assumes "ht_repr mem self H A" and "unat (Buckets H) + 8 * unat (bucket_total H) < 2 ^ 64" and "Buckets H \<noteq> 0"
  shows "\<exists>es. iter_collect mem (HashTableIterInit H) (Suc (length A)) = Some es \<and> mset es = mset (map snd A)"
proof -
  have n: "0 < bucket_total H" and n': "0 < unat (bucket_total H)" using assms(1) by (auto simp: ht_repr_def word_less_nat_alt)
  have m: "in_bucket H 0 A @ buckets_from H A (Suc 0) = buckets_from H A 0" using n' by (simp add: upt_conv_Cons)
  have "length (buckets_from H A 0) = length A"
    using mset_in_buckets [OF n, of A] by (metis length_map mset_eq_length)
  moreover have "chain mem self (head H 0) (in_bucket H 0 A)" using assms(1) n' by (simp add: ht_repr_def)
  ultimately have "iter_collect mem \<lparr>Iter_Hash = H, HashEntry = head H 0, Bucket = head H 0\<rparr> (Suc (length A)) = Some (buckets_from H A 0)"
    using iter_collect_ok [OF assms n', of "head H 0" "in_bucket H 0 A" "Suc (length A)"] assms(3) m by (simp add: head_def)
  then show ?thesis using mset_in_buckets [OF n] by (auto simp: HashTableIterInit_def head_def)
qed

definition demo_cells :: heap where
  "demo_cells = (\<lambda>_. None)(0x1000 := Some 0x501, 0x1008 := Some 0x9000, 0x1010 := Some 0x77, 0x9000 := Some 0x501, 0x9008 := Some 0)"

definition demo_table :: hash_table where
  "demo_table = \<lparr>ItemCount = 1, BucketCount = 64, Buckets = 0x1000\<rparr>"

lemma demo_table_simps: "bucket_total demo_table = 2" "key_mask demo_table = - 1" "Buckets demo_table = 0x1000"
  by (simp_all add: demo_table_def bucket_total_def key_mask_def)

lemma demo_idx_of: "idx_of demo_table 0 = Suc 0"
  by (simp add: idx_of_def demo_table_simps HashTableGetBucketIndex_def HashUlongPtr_def HashBytes_def HashBytesEx_def
      HashBytesGeneric_def le_bytes_def upt_rec)

lemma demo_repr: "ht_repr demo_cells 0x500 demo_table [(0, 0x9000)]"
proof -
  have "chain demo_cells 0x500 (head demo_table j) (in_bucket demo_table j [(0, 0x9000)])" if "j < 2" for j
    using that demo_idx_of by (auto simp: less_2_cases_iff in_bucket_def head_def demo_cells_def demo_table_simps)
  moreover have "[0..<2] = [0, Suc 0]" by (simp add: upt_rec)
  ultimately show ?thesis
    unfolding ht_repr_def ht_cells_def demo_table_simps
    by (simp add: head_def demo_table_simps demo_cells_def demo_table_def [THEN arg_cong, of ItemCount])
qed

theorem iter_visits_every_entry_witness:
  "\<exists>es. iter_collect demo_cells (HashTableIterInit demo_table) 2 = Some es \<and> mset es = {#0x9000#}"
proof -
  have "unat (Buckets demo_table) + 8 * unat (bucket_total demo_table) < 2 ^ 64" "Buckets demo_table \<noteq> 0"
    by (simp_all add: demo_table_simps)
  from iter_visits_every_entry [OF demo_repr this] show ?thesis by (simp only: Suc_1 [symmetric] list.size) simp
qed

section \<open>Flaws\<close>

text \<open>
  \<^verbatim>\<open>HashUStringUpcase\<close> advances its read pointer but tests another one that never moves, so on
  a string that is not empty, and whatever is in memory, it does not return.
\<close>

theorem HashUStringUpcase_never_returns:
  assumes "pBuffer < pBuffer + 2 * of_int len"
  shows "HashUStringUpcase upcase wmem pBuffer len = None"
proof -
  have "\<not> s < e" if run: "upcase_loop upcase wmem s e b k = Some r" for s e b k r
    by (rule upcase_loop.raw_induct [where P = "\<lambda>_ _ s e _ _ _. \<not> s < e", OF _ run]) (auto split: if_splits bind_splits)
  then show ?thesis
    using assms unfolding HashUStringUpcase_def by (meson not_Some_eq)
qed

theorem HashUStringUpcase_never_returns_witness:
  "HashUStringUpcase (\<lambda>c. c) (\<lambda>_. Some 65) 0x1000 3 = None"
  by (rule HashUStringUpcase_never_returns) simp

text \<open>
  \<^verbatim>\<open>HashTableRemoveKey\<close> compares the hash value of the link it stands on instead of the one
  it is about to unlink. A key whose entry is alone in its bucket is not found, and nothing is
  removed, unless the cell behind the bucket happens to hold the key.
\<close>

theorem RemoveKey_misses_single_entry:
  assumes "ht_repr mem self H A" and "in_bucket H (idx_of H (key_mask H AND hv)) A = [e]"
    and "map_of A (key_mask H AND hv) = Some e"
    and "mem (head H (idx_of H (key_mask H AND hv)) + 8) = Some v" and "key_mask H AND v \<noteq> key_mask H AND hv"
  shows "HashTableRemoveKey mem H hv = Some (mem, H, 0) \<and> HashTableFindNext mem H hv 0 = Some e"
proof -
  let ?k = "key_mask H AND hv"
  have ch: "chain mem self (head H (idx_of H ?k)) [e]"
    using assms(1,2) idx_of_less [of H ?k] unfolding ht_repr_def by metis
  then have l: "HashBucketLastLink mem (head H (idx_of H ?k)) = Some False" "HashBucketLastLink mem e = Some True" "mem (head H (idx_of H ?k)) = Some e"
    using last_link_iff [OF ch] last_link_iff [of mem self e "[]"] by auto
  have "remove_loop mem H (key_mask H) ?k (head H (idx_of H ?k)) = Some (mem, H, 0)"
    using l assms(4,5) by (subst remove_loop.simps) (simp add: rd_def, subst remove_loop.simps, simp)
  then show ?thesis
    using FindNext_repr [OF assms(1), of hv] assms(3) by (simp add: HashTableRemoveKey_def head_ucast Let_def)
qed

theorem RemoveKey_misses_single_entry_witness:
  "HashTableRemoveKey demo_cells demo_table 0 = Some (demo_cells, demo_table, 0) \<and> HashTableFindNext demo_cells demo_table 0 0 = Some 0x9000"
  by (rule RemoveKey_misses_single_entry [OF demo_repr, where v = "0x77"])
    (simp_all add: demo_table_simps demo_idx_of in_bucket_def head_def demo_cells_def)

end
