(* ===== verification/Vcpu_Slot.thy ===== *)
theory Vcpu_Slot
  imports Memslots_Props
begin

text \<open>
  The slot lookup of a vCPU, \<^verbatim>\<open>kvm_vcpu_gfn_to_memslot\<close> of \<^verbatim>\<open>src/svmx/kvm_main.c\<close>: a vCPU keeps the
  last slot it found together with the generation of the slot set it found it in. The cache is
  coherent because every change of the slots installs a set with a new generation; that is an
  invariant of the runs in which lookups and changes of the memory map interleave.
\<close>

section \<open>Lookup\<close>

record vcpu_slots =
  vcpu_last_used_slot :: u64
  last_used_slot_gen :: u64
  hflags :: u32

definition HF_SMM_MASK :: u32 where "HF_SMM_MASK = 2"

definition kvm_arch_vcpu_memslots_id :: "vcpu_slots \<Rightarrow> nat" where
  "kvm_arch_vcpu_memslots_id v = (if hflags v AND HF_SMM_MASK \<noteq> 0 then 1 else 0)"

definition kvm_vcpu_memslots :: "kvm \<Rightarrow> vcpu_slots \<Rightarrow> kvm_memslots option" where
  "kvm_vcpu_memslots k v = do {
     let as_id = kvm_arch_vcpu_memslots_id v;
     a \<leftarrow> raw_kvm_memslots k as_id;
     Some (memslot_sets k a)
   }"

definition kvm_vcpu_gfn_to_memslot :: "kvm \<Rightarrow> vcpu_slots \<Rightarrow> gfn_t \<Rightarrow> (u64 \<times> vcpu_slots) option" where
  "kvm_vcpu_gfn_to_memslot k v gfn = do {
     ms \<leftarrow> kvm_vcpu_memslots k v;
     let gen = generation ms;
     let v = (if gen \<noteq> last_used_slot_gen v
              then v\<lparr>vcpu_last_used_slot := 0, last_used_slot_gen := gen\<rparr> else v);
     slot \<leftarrow> try_get_memslot (slots k) (vcpu_last_used_slot v) gfn;
     if slot \<noteq> 0 then Some (slot, v)
     else do {
       slot \<leftarrow> search_memslots (slots k) ms gfn False;
       if slot \<noteq> 0 then Some (slot, v\<lparr>vcpu_last_used_slot := slot\<rparr>)
       else Some (0, v)
     }
   }"

section \<open>Coherence\<close>

abbreviation vm_generation :: "kvm \<Rightarrow> u64" where
  "vm_generation k \<equiv> generation (memslot_sets k (active_set k))"

definition cache_ok :: "kvm \<Rightarrow> u64 list \<Rightarrow> vcpu_slots \<Rightarrow> bool" where
  "cache_ok k xs v \<longleftrightarrow> hflags v AND HF_SMM_MASK = 0 \<and> last_used_slot_gen v \<le> vm_generation k \<and>
     (last_used_slot_gen v = vm_generation k \<longrightarrow> vcpu_last_used_slot v = 0 \<or> vcpu_last_used_slot v \<in> set xs)"

lemma try_get_in_slot:
  assumes "tree_ok h ms xs" "x \<in> set xs"
  shows "try_get_memslot h x gfn = Some (if in_slot h x gfn then x else 0)"
proof -
  have "slot_ok h x" using assms by (auto simp: tree_ok_def)
  then obtain sl where "slot_load h x = Some sl" "gbase h x = unat (base_gfn sl)" "gend h x = unat (base_gfn sl + npages sl)" "x \<noteq> 0"
    using slot_okD [of h x] by (metis slot_ok_def)
  then show ?thesis by (simp add: try_get_memslot_def in_slot_def word_le_nat_alt word_less_nat_alt)
qed

lemma or_null_mem: "or_null xs = 0 \<or> or_null xs \<in> set xs"
  by (cases xs) auto

lemma vcpu_lookup_correct:
  assumes inv: "vm_inv k xs" and v: "cache_ok k xs v"
  shows "\<exists>v'. kvm_vcpu_gfn_to_memslot k v gfn = Some (or_null (filter (\<lambda>x. in_slot (slots k) x gfn) xs), v') \<and> cache_ok k xs v'"
proof -
  let ?h = "slots k" and ?ms = "memslot_sets k (active_set k)" and ?r = "or_null (filter (\<lambda>x. in_slot (slots k) x gfn) xs)"
  have t: "tree_ok ?h ?ms xs" using inv by (simp add: vm_inv_def set_inv_def)
  have ms: "kvm_vcpu_memslots k v = Some ?ms"
    using v by (simp add: kvm_vcpu_memslots_def kvm_arch_vcpu_memslots_id_def raw_kvm_memslots_def KVM_ADDRESS_SPACE_NUM_def cache_ok_def)
  define w where "w = (if vm_generation k \<noteq> last_used_slot_gen v
    then v\<lparr>vcpu_last_used_slot := 0, last_used_slot_gen := vm_generation k\<rparr> else v)"
  have w: "cache_ok k xs w" "last_used_slot_gen w = vm_generation k" "vcpu_last_used_slot w = 0 \<or> vcpu_last_used_slot w \<in> set xs"
    using v by (auto simp: w_def cache_ok_def)
  have s: "search_memslots ?h ?ms gfn False = Some ?r" by (rule search_linear [OF t])
  have r: "?r \<in> set xs" if "?r \<noteq> 0" using or_null_mem [of "filter (\<lambda>x. in_slot ?h x gfn) xs"] that by auto
  show ?thesis
  proof (cases "vcpu_last_used_slot w \<in> set xs \<and> in_slot ?h (vcpu_last_used_slot w) gfn")
    case True
    then have "or_null (filter (\<lambda>x. in_slot ?h x gfn) xs) = vcpu_last_used_slot w"
      by (intro or_null_filter [symmetric]) (use t in_slot_unique [of ?h xs] in \<open>auto simp: tree_ok_def\<close>)
    moreover have "vcpu_last_used_slot w \<noteq> 0" using t True by (auto simp: tree_ok_def slot_ok_def)
    ultimately show ?thesis
      using True w(1) try_get_in_slot [OF t, of "vcpu_last_used_slot w" gfn]
      by (simp add: kvm_vcpu_gfn_to_memslot_def ms w_def [symmetric] Let_def)
  next
    case False
    then have "try_get_memslot ?h (vcpu_last_used_slot w) gfn = Some 0"
      using w(3) try_get_in_slot [OF t, of "vcpu_last_used_slot w" gfn] by (auto simp: try_get_memslot_def)
    then show ?thesis
      using s r w(1,2) by (auto simp: kvm_vcpu_gfn_to_memslot_def ms w_def [symmetric] Let_def cache_ok_def)
  qed
qed

lemma next_generation_greater:
  assumes "g < 2 ^ 63 - 1"
  shows "g < next_generation g" "next_generation g = g + 1"
proof -
  have "g < 2 ^ 63" using assms by (rule order.strict_trans) simp
  then have "\<not> bit g 63" using bit_above_less [of g 63 63] by simp
  then have "g AND NOT KVM_MEMSLOT_GEN_UPDATE_IN_PROGRESS = g"
    unfolding KVM_MEMSLOT_GEN_UPDATE_IN_PROGRESS_def BIT_ULL_def push_bit_of_1
    by (intro bit_eqI) (auto simp: bit_and_iff bit_exp_iff simp del: power_numeral)
  then show "next_generation g = g + 1" by (simp add: next_generation_def)
  moreover have "unat (g + 1) = unat g + 1"
    using assms unat_add_lem [of g 1] by (simp add: word_less_nat_alt)
  ultimately show "g < next_generation g" by (simp add: word_less_nat_alt)
qed

section \<open>Runs\<close>

text \<open>
  A lookup by the vCPU, the registration of a new region that fits, and the exchange of a slot for a
  copy with other flags, in any order. The generation counter is assumed not to be exhausted.
\<close>

inductive slot_step :: "kvm_env \<Rightarrow> kvm \<times> vcpu_slots \<Rightarrow> kvm \<times> vcpu_slots \<Rightarrow> bool" for e where
  lookup: "kvm_vcpu_gfn_to_memslot k v gfn = Some (slot, v') \<Longrightarrow> slot_step e (k, v) (k, v')"
| create: "vm_inv k xs \<Longrightarrow> room_for (slots k) xs (mem_base mem) (mem_npages mem) (mem_sid mem) \<Longrightarrow>
     \<not> nr_memslot_pages k + mem_npages mem < nr_memslot_pages k \<Longrightarrow> mem_flags mem = 0 \<Longrightarrow> \<not> region_args_bad mem \<Longrightarrow>
     memory_size mem \<noteq> 0 \<Longrightarrow> mem_base mem + mem_npages mem - 1 \<le> kvm_mmu_max_gfn e \<Longrightarrow>
     fresh_slot k xs (pool_alloc e (nalloc k) 160) \<Longrightarrow>
     metadata_served e (Suc (nalloc k)) (mem_base mem) (mem_npages mem) \<Longrightarrow>
     n_used_mmu_pages (mmu_pages_of k) \<le> 64 \<Longrightarrow> vm_generation k < 2 ^ 63 - 1 \<Longrightarrow>
     kvm_set_memory_region e k mem = Some (r, k') \<Longrightarrow> slot_step e (k, v) (k', v)"
| flags: "vm_inv k (ys @ x # zs) \<Longrightarrow> 0 < slots_arch_lock k \<Longrightarrow> slot_ok (slots k) p \<Longrightarrow> p \<notin> set (ys @ x # zs) \<Longrightarrow>
     gbase (slots k) p = gbase (slots k) x \<Longrightarrow> gend (slots k) p = gend (slots k) x \<Longrightarrow>
     sid_of (slots k) p = sid_of (slots k) x \<Longrightarrow> slots k p = Some sl \<Longrightarrow> slot_as_id sl = 0 \<Longrightarrow>
     (\<And>i. i < 2 \<Longrightarrow> links_ready (memslot_sets k i) p) \<Longrightarrow> vm_generation k < 2 ^ 63 - 1 \<Longrightarrow>
     kvm_update_flags_memslot k x p = Some k' \<Longrightarrow> slot_step e (k, v) (k', v)"

inductive_cases slot_stepE: "slot_step e (k, v) s"

definition coherent :: "kvm \<times> vcpu_slots \<Rightarrow> bool" where
  "coherent s \<longleftrightarrow> (\<exists>xs. vm_inv (fst s) xs \<and> cache_ok (fst s) xs (snd s))"

lemma cache_ok_new_generation:
  assumes "cache_ok k xs v" "vm_generation k < 2 ^ 63 - 1" "vm_generation k' = next_generation (vm_generation k)"
  shows "cache_ok k' ys v"
  using assms(1) next_generation_greater(1) [OF assms(2)] unfolding cache_ok_def assms(3) by auto

lemma slot_step_coherent:
  assumes "slot_step e s t" "coherent s"
  shows "coherent t"
  using assms
proof (cases rule: slot_step.cases)
  case (lookup k v gfn slot v')
  then obtain xs where "vm_inv k xs" "cache_ok k xs v" using assms(2) by (auto simp: coherent_def)
  then show ?thesis using vcpu_lookup_correct [of k xs v gfn] lookup by (auto simp: coherent_def)
next
  case (create k xs mem r k' v)
  obtain ys where "cache_ok k ys v" using assms(2) create(1) by (auto simp: coherent_def)
  then show ?thesis
    using kvm_set_memory_region_create [OF create(3-9) refl create(10-12)] create(1,2,13,14) cache_ok_new_generation [of k ys v k']
    by (auto simp: coherent_def)
next
  case (flags k ys x zs p sl k' v)
  obtain xs where "cache_ok k xs v" using assms(2) flags(1) by (auto simp: coherent_def)
  then show ?thesis
    using kvm_update_flags_memslot_correct [OF flags(3-12)] flags(1,2,13,14) cache_ok_new_generation [of k xs v k']
    by (auto simp: coherent_def)
qed

text \<open>
  C22: on every run of lookups, registrations of new regions with flags 0 and exchanges of a slot for
  a copy with other flags, in any order and under the conditions of \<open>slot_step\<close>, that starts with an empty
  cache, the cached lookup of a vCPU outside system-management mode ends and returns, for every frame,
  the slot that a linear search through the slots now installed finds. Runs in which a slot is deleted,
  moved or freed are not covered: deletion breaks the invariant of the slot sets.
\<close>

theorem vcpu_lookup_coherent:
  assumes "(slot_step e)\<^sup>*\<^sup>* (k0, v0) (k, v)" and "vm_inv k0 xs0"
    and "hflags v0 AND HF_SMM_MASK = 0" and "vcpu_last_used_slot v0 = 0" and "last_used_slot_gen v0 = 0"
  shows "\<exists>xs. vm_inv k xs \<and>
    (\<forall>gfn. \<exists>v'. kvm_vcpu_gfn_to_memslot k v gfn = Some (or_null (filter (\<lambda>x. in_slot (slots k) x gfn) xs), v'))"
proof -
  have "coherent (k0, v0)" using assms(2-5) by (auto simp: coherent_def cache_ok_def)
  with assms(1) have "coherent (k, v)" by (induction rule: rtranclp_induct) (auto intro: slot_step_coherent)
  then show ?thesis using vcpu_lookup_correct by (fastforce simp: coherent_def)
qed

theorem vcpu_lookup_coherent_witness:
  "\<exists>k v v'. kvm_vcpu_gfn_to_memslot demo_vm \<lparr>vcpu_last_used_slot = 0, last_used_slot_gen = 0, hflags = 0\<rparr> 0x150 = Some (0, v) \<and>
     kvm_set_memory_region demo_env demo_vm demo_mem = Some (0, k) \<and> kvm_vcpu_gfn_to_memslot k v 0x150 = Some (0x10000, v')"
proof -
  let ?v = "\<lparr>vcpu_last_used_slot = 0, last_used_slot_gen = 0, hflags = 0\<rparr>"
  have "cache_ok demo_vm [] ?v" by (simp add: cache_ok_def)
  then obtain v where v: "kvm_vcpu_gfn_to_memslot demo_vm ?v 0x150 = Some (0, v)"
    using vcpu_lookup_correct [OF demo_vm_inv, of ?v "0x150"] by auto
  obtain k sl where k: "kvm_set_memory_region demo_env demo_vm demo_mem = Some (0, k)" "vm_inv k [0x10000]"
    "slots k = [0x10000 \<mapsto> sl]" "base_gfn sl = 0x100" "npages sl = 0x201"
    using demo_create by blast
  have "slot_step demo_env (demo_vm, ?v) (demo_vm, v)" by (rule slot_step.lookup [OF v])
  moreover have "slot_step demo_env (demo_vm, v) (k, v)"
    by (rule slot_step.create [OF demo_vm_inv _ _ _ demo_args _ demo_below_max _ _ _ _ k(1)])
      (use demo_pool demo_fresh in \<open>auto simp: room_for_def demo_vm_def demo_mem_def demo_set_def\<close>)
  ultimately have "(slot_step demo_env)\<^sup>*\<^sup>* (demo_vm, ?v) (k, v)" by auto
  then obtain xs v' where xs: "vm_inv k xs"
    "kvm_vcpu_gfn_to_memslot k v 0x150 = Some (or_null (filter (\<lambda>x. in_slot (slots k) x 0x150) xs), v')"
    using vcpu_lookup_coherent [OF _ demo_vm_inv] by fastforce
  have "tree_ok (slots k) (memslot_sets k (active_set k)) [0x10000]" "tree_ok (slots k) (memslot_sets k (active_set k)) xs"
    using k(2) xs(1) by (simp_all add: vm_inv_def set_inv_def)
  then have "or_null (filter (\<lambda>x. in_slot (slots k) x 0x150) xs) = or_null (filter (\<lambda>x. in_slot (slots k) x 0x150) [0x10000])"
    using search_linear by (metis option.inject)
  also have "\<dots> = 0x10000" using k(3-5) by (simp add: in_slot_def gbase_def gend_def)
  finally show ?thesis using v k(1) xs(2) by metis
qed

end
