(* ===== verification/Mmu_Cache.thy ===== *)
theory Mmu_Cache
  imports Spte_Props Hash_Table_Props
begin

text \<open>
  The state of the shadow MMU and its memory caches: the object caches of
  \<^verbatim>\<open>src/svmx/kvm_main.c\<close>, which are filled before a fault is handled, and
  \<^verbatim>\<open>mmu_topup_memory_caches\<close> of \<^verbatim>\<open>src/svmx/mmu.c\<close>.

  \<open>pt_heap\<close> is the memory that holds page tables and the links of the pointer hash table,
  \<open>sp_heap\<close> the \<^verbatim>\<open>struct kvm_mmu_page\<close> headers by address. \<open>mmu_pool\<close> gives the address with which
  the kernel answers the \<open>n\<close>-th pool request, or NULL; \<open>p2v\<close> and \<open>v2p\<close> are
  \<^verbatim>\<open>MmGetVirtualForPhysical\<close> and \<^verbatim>\<open>MmGetPhysicalAddress\<close>. \<^verbatim>\<open>kvm->arch.mmu_page_hash[0]\<close> and
  \<^verbatim>\<open>kvm->arch.tdp_mmu_roots\<close> are the sequences of the pages linked there.
\<close>

section \<open>State\<close>

record kvm_mmu_page =
  tdp_mmu_page :: bool
  unsync :: bool
  sp_mmu_valid_gen :: u8
  nx_huge_page_disallowed :: bool
  sp_role :: kvm_mmu_page_role
  sp_gfn :: gfn_t
  sp_spt :: u64
  shadowed_translation :: u64
  sp_root_count :: u32
  ptep :: u64
  parent_ptes :: u64

record pte_list_desc =
  desc_more :: u64
  spte_count :: u32
  tail_count :: u32
  desc_sptes :: "u64 list"

record kvm_mmu_memory_cache =
  mc_capacity :: int
  mc_nobjs :: int
  mc_objects :: "u64 list option"

record mmu_env =
  mmu_pool :: "nat \<Rightarrow> u64"
  p2v :: "u64 \<Rightarrow> u64"
  v2p :: "u64 \<Rightarrow> u64"
  junk_word :: u64
  masks :: shadow_masks
  g_Table_addr :: u64

record mmu_state =
  pt_heap :: heap
  sp_heap :: "u64 \<rightharpoonup> kvm_mmu_page"
  desc_heap :: "u64 \<rightharpoonup> pte_list_desc"
  g_Table :: hash_table
  mmu_page_hash :: "u64 list"
  tdp_mmu_roots :: "u64 list"
  tdp_mmu_pages :: u64
  mmu_valid_gen :: u8
  pf_mmio_spte_created :: u64
  pool_reqs :: nat
  mmu_pte_list_desc_cache :: kvm_mmu_memory_cache
  mmu_shadow_page_cache :: kvm_mmu_memory_cache
  mmu_shadowed_info_cache :: kvm_mmu_memory_cache
  mmu_page_header_cache :: kvm_mmu_memory_cache
  page_stats :: "u64 list"

section \<open>Caches\<close>

definition zero_page :: "heap \<Rightarrow> u64 \<Rightarrow> heap" where
  "zero_page mem p = (\<lambda>a. if a - p < PAGE_SIZE \<and> (a - p) AND 7 = 0 then Some 0 else mem a)"

definition mmu_memory_cache_alloc_obj :: "mmu_env \<Rightarrow> mmu_state \<Rightarrow> u64 \<times> mmu_state" where
  "mmu_memory_cache_alloc_obj e s = (let
       obj = mmu_pool e (pool_reqs s);
       s = s\<lparr>pool_reqs := Suc (pool_reqs s)\<rparr> in
     (obj, if obj \<noteq> 0 then s\<lparr>pt_heap := zero_page (pt_heap s) obj\<rparr> else s))"

text \<open>The loop that fills the array; a store outside the array has no result.\<close>

function fill_cache :: "mmu_env \<Rightarrow> int \<Rightarrow> mmu_state \<Rightarrow> kvm_mmu_memory_cache \<Rightarrow> (int \<times> mmu_state \<times> kvm_mmu_memory_cache) option" where
  "fill_cache e mn s mc =
     (if mc_nobjs mc < mc_capacity mc
      then let (obj, s) = mmu_memory_cache_alloc_obj e s in
        if obj = 0 then Some (if mn \<le> mc_nobjs mc then STATUS_SUCCESS else STATUS_NO_MEMORY, s, mc)
        else case mc_objects mc of
          None \<Rightarrow> None
        | Some objs \<Rightarrow>
            if 0 \<le> mc_nobjs mc \<and> mc_nobjs mc < int (length objs)
            then fill_cache e mn s (mc\<lparr>mc_objects := Some (objs[nat (mc_nobjs mc) := obj]), mc_nobjs := mc_nobjs mc + 1\<rparr>)
            else None
      else Some (STATUS_SUCCESS, s, mc))"
  by pat_completeness auto
termination
  by (relation "measure (\<lambda>(_, _, _, mc). nat (mc_capacity mc - mc_nobjs mc))") auto

declare fill_cache.simps [simp del]

definition raw_kvm_mmu_topup_memory_cache ::
  "mmu_env \<Rightarrow> mmu_state \<Rightarrow> kvm_mmu_memory_cache \<Rightarrow> int \<Rightarrow> int \<Rightarrow> (int \<times> mmu_state \<times> kvm_mmu_memory_cache) option" where
  "raw_kvm_mmu_topup_memory_cache e s mc capacity mn =
     (if mn \<le> mc_nobjs mc then Some (STATUS_SUCCESS, s, mc)
      else case mc_objects mc of
        None \<Rightarrow>
          if capacity = 0 then Some (STATUS_IO_DEVICE_ERROR, s, mc)
          else let p = mmu_pool e (pool_reqs s); s = s\<lparr>pool_reqs := Suc (pool_reqs s)\<rparr> in
            if p = 0 then Some (STATUS_NO_MEMORY, s, mc)
            else fill_cache e mn s (mc\<lparr>mc_objects := Some (replicate (nat capacity) (junk_word e)), mc_capacity := capacity\<rparr>)
      | Some objs \<Rightarrow>
          if mc_capacity mc \<noteq> capacity then Some (STATUS_IO_DEVICE_ERROR, s, mc)
          else fill_cache e mn s mc)"

definition KVM_ARCH_NR_OBJS_PER_MEMORY_CACHE :: int where "KVM_ARCH_NR_OBJS_PER_MEMORY_CACHE = 40"
definition PT64_ROOT_MAX_LEVEL :: int where "PT64_ROOT_MAX_LEVEL = 5"
definition PTE_PREFETCH_NUM :: int where "PTE_PREFETCH_NUM = 8"

definition kvm_mmu_topup_memory_cache ::
  "mmu_env \<Rightarrow> mmu_state \<Rightarrow> kvm_mmu_memory_cache \<Rightarrow> int \<Rightarrow> (int \<times> mmu_state \<times> kvm_mmu_memory_cache) option" where
  "kvm_mmu_topup_memory_cache e s mc mn =
     raw_kvm_mmu_topup_memory_cache e s mc KVM_ARCH_NR_OBJS_PER_MEMORY_CACHE mn"

definition kvm_mmu_memory_cache_alloc ::
  "mmu_env \<Rightarrow> mmu_state \<Rightarrow> kvm_mmu_memory_cache \<Rightarrow> (u64 \<times> mmu_state \<times> kvm_mmu_memory_cache) option" where
  "kvm_mmu_memory_cache_alloc e s mc =
     (if mc_nobjs mc = 0 then let (p, s) = mmu_memory_cache_alloc_obj e s in Some (p, s, mc)
      else case mc_objects mc of
        None \<Rightarrow> None
      | Some objs \<Rightarrow> let n = mc_nobjs mc - 1 in
          if 0 \<le> n \<and> n < int (length objs) then Some (objs ! nat n, s, mc\<lparr>mc_nobjs := n\<rparr>) else None)"

definition mmu_topup_memory_caches :: "mmu_env \<Rightarrow> mmu_state \<Rightarrow> bool \<Rightarrow> (int \<times> mmu_state) option" where
  "mmu_topup_memory_caches e s maybe_indirect = do {
     (r, s, mc) \<leftarrow> kvm_mmu_topup_memory_cache e s (mmu_pte_list_desc_cache s) (1 + PT64_ROOT_MAX_LEVEL + PTE_PREFETCH_NUM);
     let s = s\<lparr>mmu_pte_list_desc_cache := mc\<rparr>;
     if r \<noteq> 0 then Some (r, s)
     else do {
       (r, s, mc) \<leftarrow> kvm_mmu_topup_memory_cache e s (mmu_shadow_page_cache s) PT64_ROOT_MAX_LEVEL;
       let s = s\<lparr>mmu_shadow_page_cache := mc\<rparr>;
       if r \<noteq> 0 then Some (r, s)
       else do {
         (r, s) \<leftarrow> (if maybe_indirect
           then do {
             (r, s, mc) \<leftarrow> kvm_mmu_topup_memory_cache e s (mmu_shadowed_info_cache s) PT64_ROOT_MAX_LEVEL;
             Some (r, s\<lparr>mmu_shadowed_info_cache := mc\<rparr>)
           }
           else Some (0, s));
         if r \<noteq> 0 then Some (r, s)
         else do {
           (r, s, mc) \<leftarrow> kvm_mmu_topup_memory_cache e s (mmu_page_header_cache s) PT64_ROOT_MAX_LEVEL;
           Some (r, s\<lparr>mmu_page_header_cache := mc\<rparr>)
         }
       }
     }
   }"

section \<open>What a cache holds\<close>

text \<open>The first \<open>nobjs\<close> entries of the array are pages; their number never exceeds the capacity.\<close>

definition cache_wf :: "kvm_mmu_memory_cache \<Rightarrow> bool" where
  "cache_wf mc \<longleftrightarrow> 0 \<le> mc_nobjs mc \<and> (case mc_objects mc of
      None \<Rightarrow> mc_nobjs mc = 0
    | Some objs \<Rightarrow> mc_capacity mc = KVM_ARCH_NR_OBJS_PER_MEMORY_CACHE \<and> length objs = nat (mc_capacity mc) \<and>
        mc_nobjs mc \<le> mc_capacity mc \<and> (\<forall>i < nat (mc_nobjs mc). objs ! i \<noteq> 0))"

text \<open>Only the pool counter and the contents of new pages change in the rest of the state.\<close>

definition same_but_pool :: "mmu_state \<Rightarrow> mmu_state \<Rightarrow> bool" where
  "same_but_pool s t \<longleftrightarrow> s\<lparr>pt_heap := Map.empty, pool_reqs := 0\<rparr> = t\<lparr>pt_heap := Map.empty, pool_reqs := 0\<rparr>"

lemma same_but_pool_refl [simp]: "same_but_pool s s"
  by (simp add: same_but_pool_def)

lemma same_but_pool_trans: "same_but_pool s t \<Longrightarrow> same_but_pool t u \<Longrightarrow> same_but_pool s u"
  by (simp add: same_but_pool_def)

lemma same_but_pool_alloc_obj: "mmu_memory_cache_alloc_obj e s = (p, t) \<Longrightarrow> same_but_pool s t"
  by (auto simp: mmu_memory_cache_alloc_obj_def same_but_pool_def Let_def split: if_splits)

lemma same_but_pool_reqs: "same_but_pool s (s\<lparr>pool_reqs := n\<rparr>)"
  by (simp add: same_but_pool_def)

lemma same_but_poolD:
  assumes "same_but_pool s t"
  shows "mmu_pte_list_desc_cache t = mmu_pte_list_desc_cache s" "mmu_shadow_page_cache t = mmu_shadow_page_cache s"
    "mmu_shadowed_info_cache t = mmu_shadowed_info_cache s" "mmu_page_header_cache t = mmu_page_header_cache s"
    "sp_heap t = sp_heap s" "g_Table t = g_Table s"
  using assms [unfolded same_but_pool_def, THEN arg_cong, of mmu_pte_list_desc_cache]
    assms [unfolded same_but_pool_def, THEN arg_cong, of mmu_shadow_page_cache]
    assms [unfolded same_but_pool_def, THEN arg_cong, of mmu_shadowed_info_cache]
    assms [unfolded same_but_pool_def, THEN arg_cong, of mmu_page_header_cache]
    assms [unfolded same_but_pool_def, THEN arg_cong, of sp_heap]
    assms [unfolded same_but_pool_def, THEN arg_cong, of g_Table]
  by simp_all

lemma fill_cache_ok:
  assumes "cache_wf mc" "mc_objects mc \<noteq> None" "mn \<le> KVM_ARCH_NR_OBJS_PER_MEMORY_CACHE"
  shows "\<exists>r t mc'. fill_cache e mn s mc = Some (r, t, mc') \<and> cache_wf mc' \<and> same_but_pool s t \<and>
    (r = STATUS_SUCCESS \<and> mn \<le> mc_nobjs mc' \<or> r = STATUS_NO_MEMORY)"
  using assms
proof (induction e mn s mc rule: fill_cache.induct)
  case (1 e mn s mc)
  obtain objs where o: "mc_objects mc = Some objs" using "1.prems"(2) by auto
  have wf: "0 \<le> mc_nobjs mc" "mc_capacity mc = KVM_ARCH_NR_OBJS_PER_MEMORY_CACHE" "length objs = nat (mc_capacity mc)"
    "mc_nobjs mc \<le> mc_capacity mc" "\<And>i. i < nat (mc_nobjs mc) \<Longrightarrow> objs ! i \<noteq> 0"
    using "1.prems"(1) o by (auto simp: cache_wf_def)
  obtain p t where a: "mmu_memory_cache_alloc_obj e s = (p, t)" by force
  show ?case
  proof (cases "mc_nobjs mc < mc_capacity mc \<and> p \<noteq> 0")
    case False
    then show ?thesis
      using a wf(2,4) "1.prems"(1,3) same_but_pool_alloc_obj [OF a]
      by (subst fill_cache.simps) (auto simp: status_defs)
  next
    case True
    let ?mc = "mc\<lparr>mc_objects := Some (objs[nat (mc_nobjs mc) := p]), mc_nobjs := mc_nobjs mc + 1\<rparr>"
    have b: "0 \<le> mc_nobjs mc" "mc_nobjs mc < int (length objs)" using wf(1,3) True by auto
    have "cache_wf ?mc"
      using wf True b by (auto simp: cache_wf_def nth_list_update nat_add_distrib less_Suc_eq)
    with "1.IH" [OF _ a [symmetric] _ _ o] "1.prems"(3) True b same_but_pool_alloc_obj [OF a]
    show ?thesis using a o by (subst fill_cache.simps) (auto intro: same_but_pool_trans)
  qed
qed

lemma topup_ok:
  assumes "cache_wf mc" "mn \<le> KVM_ARCH_NR_OBJS_PER_MEMORY_CACHE"
  shows "\<exists>r t mc'. kvm_mmu_topup_memory_cache e s mc mn = Some (r, t, mc') \<and> cache_wf mc' \<and> same_but_pool s t \<and>
    (r = STATUS_SUCCESS \<and> mn \<le> mc_nobjs mc' \<or> r = STATUS_NO_MEMORY)"
proof (cases "mc_nobjs mc < mn")
  case False
  then show ?thesis using assms(1) by (auto simp: kvm_mmu_topup_memory_cache_def raw_kvm_mmu_topup_memory_cache_def)
next
  case True
  note defs = kvm_mmu_topup_memory_cache_def raw_kvm_mmu_topup_memory_cache_def KVM_ARCH_NR_OBJS_PER_MEMORY_CACHE_def
  show ?thesis
  proof (cases "mc_objects mc")
    case (Some objs)
    then have "mc_capacity mc = KVM_ARCH_NR_OBJS_PER_MEMORY_CACHE" using assms(1) by (simp add: cache_wf_def)
    then show ?thesis
      using True Some fill_cache_ok [OF assms(1) _ assms(2), of e s]
      by (simp add: kvm_mmu_topup_memory_cache_def raw_kvm_mmu_topup_memory_cache_def)
  next
    case None
    let ?s = "s\<lparr>pool_reqs := Suc (pool_reqs s)\<rparr>"
    let ?mc = "mc\<lparr>mc_objects := Some (replicate 40 (junk_word e)), mc_capacity := 40\<rparr>"
    have "cache_wf ?mc" using assms(1) None by (simp add: cache_wf_def KVM_ARCH_NR_OBJS_PER_MEMORY_CACHE_def)
    from fill_cache_ok [OF this _ assms(2), of e ?s] show ?thesis
      using True None assms(1) same_but_pool_reqs by (auto simp: defs Let_def dest: same_but_pool_trans [OF same_but_pool_reqs])
  qed
qed

lemma cache_alloc_ok:
  assumes "cache_wf mc" "0 < mc_nobjs mc"
  shows "\<exists>p mc'. kvm_mmu_memory_cache_alloc e s mc = Some (p, s, mc') \<and> p \<noteq> 0 \<and> cache_wf mc' \<and> mc_nobjs mc' = mc_nobjs mc - 1"
proof -
  obtain objs where o: "mc_objects mc = Some objs" using assms by (auto simp: cache_wf_def split: option.splits)
  then show ?thesis
    using assms by (auto simp: kvm_mmu_memory_cache_alloc_def cache_wf_def Let_def nat_less_iff)
qed

text \<open>A sequence of allocations from one cache.\<close>

fun take_objs :: "mmu_env \<Rightarrow> nat \<Rightarrow> mmu_state \<Rightarrow> kvm_mmu_memory_cache \<Rightarrow> (u64 list \<times> mmu_state) option" where
  "take_objs e 0 s mc = Some ([], s)"
| "take_objs e (Suc n) s mc = do {
     (p, s, mc) \<leftarrow> kvm_mmu_memory_cache_alloc e s mc;
     (ps, s) \<leftarrow> take_objs e n s mc;
     Some (p # ps, s)
   }"

lemma take_objs_ok:
  assumes "cache_wf mc" "int n \<le> mc_nobjs mc"
  shows "\<exists>ps. take_objs e n s mc = Some (ps, s) \<and> length ps = n \<and> 0 \<notin> set ps"
  using assms
proof (induction n arbitrary: mc)
  case (Suc n)
  then obtain p mc' where "kvm_mmu_memory_cache_alloc e s mc = Some (p, s, mc')" "p \<noteq> 0" "cache_wf mc'" "mc_nobjs mc' = mc_nobjs mc - 1"
    using cache_alloc_ok [OF Suc.prems(1), of e s] by auto
  then show ?case using Suc.IH [of mc'] Suc.prems(2) by auto
qed simp

definition caches_wf :: "mmu_state \<Rightarrow> bool" where
  "caches_wf s \<longleftrightarrow> cache_wf (mmu_pte_list_desc_cache s) \<and> cache_wf (mmu_shadow_page_cache s) \<and>
     cache_wf (mmu_shadowed_info_cache s) \<and> cache_wf (mmu_page_header_cache s)"

definition caches_full :: "mmu_state \<Rightarrow> bool \<Rightarrow> bool" where
  "caches_full s indirect \<longleftrightarrow> 14 \<le> mc_nobjs (mmu_pte_list_desc_cache s) \<and> 5 \<le> mc_nobjs (mmu_shadow_page_cache s) \<and>
     (indirect \<longrightarrow> 5 \<le> mc_nobjs (mmu_shadowed_info_cache s)) \<and> 5 \<le> mc_nobjs (mmu_page_header_cache s)"

lemma topup_small:
  assumes "cache_wf mc" "mn \<le> 40"
  obtains r t mc' where "kvm_mmu_topup_memory_cache e s mc mn = Some (r, t, mc')" "cache_wf mc'" "same_but_pool s t"
    "r = 0 \<and> mn \<le> mc_nobjs mc' \<or> r = STATUS_NO_MEMORY"
  using topup_ok [OF assms(1), of mn e s] assms(2) by (auto simp: KVM_ARCH_NR_OBJS_PER_MEMORY_CACHE_def STATUS_SUCCESS_def)

lemma topup_caches_ok:
  assumes "caches_wf s"
  shows "\<exists>r t. mmu_topup_memory_caches e s indirect = Some (r, t) \<and> caches_wf t \<and> (r = 0 \<and> caches_full t indirect \<or> r = STATUS_NO_MEMORY)"
proof -
  note K = PT64_ROOT_MAX_LEVEL_def PTE_PREFETCH_NUM_def
  have nz: "STATUS_NO_MEMORY \<noteq> 0" by (simp add: status_defs)
  obtain r1 t1 m1 where 1: "kvm_mmu_topup_memory_cache e s (mmu_pte_list_desc_cache s) 14 = Some (r1, t1, m1)" "cache_wf m1" "same_but_pool s t1"
    "r1 = 0 \<and> 14 \<le> mc_nobjs m1 \<or> r1 = STATUS_NO_MEMORY"
    using topup_small [of "mmu_pte_list_desc_cache s" 14 e s] assms by (auto simp: caches_wf_def)
  define s1 where "s1 = t1\<lparr>mmu_pte_list_desc_cache := m1\<rparr>"
  have w1: "caches_wf s1" using assms 1(2) same_but_poolD [OF 1(3)] by (simp add: caches_wf_def s1_def)
  obtain r2 t2 m2 where 2: "kvm_mmu_topup_memory_cache e s1 (mmu_shadow_page_cache s1) 5 = Some (r2, t2, m2)" "cache_wf m2" "same_but_pool s1 t2"
    "r2 = 0 \<and> 5 \<le> mc_nobjs m2 \<or> r2 = STATUS_NO_MEMORY"
    using topup_small [of "mmu_shadow_page_cache s1" 5 e s1] w1 by (auto simp: caches_wf_def)
  define s2 where "s2 = t2\<lparr>mmu_shadow_page_cache := m2\<rparr>"
  have w2: "caches_wf s2" "mmu_pte_list_desc_cache s2 = m1" using w1 2(2) same_but_poolD [OF 2(3)] by (simp_all add: caches_wf_def s2_def s1_def)
  obtain r3 t3 m3 where 3: "kvm_mmu_topup_memory_cache e s2 (mmu_shadowed_info_cache s2) 5 = Some (r3, t3, m3)" "cache_wf m3" "same_but_pool s2 t3"
    "r3 = 0 \<and> 5 \<le> mc_nobjs m3 \<or> r3 = STATUS_NO_MEMORY"
    using topup_small [of "mmu_shadowed_info_cache s2" 5 e s2] w2 by (auto simp: caches_wf_def)
  define s3 where "s3 = (if indirect then t3\<lparr>mmu_shadowed_info_cache := m3\<rparr> else s2)"
  define r3' where "r3' = (if indirect then r3 else 0)"
  have w3: "caches_wf s3" "mmu_pte_list_desc_cache s3 = m1" "mmu_shadow_page_cache s3 = m2" "indirect \<longrightarrow> mmu_shadowed_info_cache s3 = m3"
    using w2 3(2) same_but_poolD [OF 3(3)] by (simp_all add: caches_wf_def s3_def s2_def)
  obtain r4 t4 m4 where 4: "kvm_mmu_topup_memory_cache e s3 (mmu_page_header_cache s3) 5 = Some (r4, t4, m4)" "cache_wf m4" "same_but_pool s3 t4"
    "r4 = 0 \<and> 5 \<le> mc_nobjs m4 \<or> r4 = STATUS_NO_MEMORY"
    using topup_small [of "mmu_page_header_cache s3" 5 e s3] w3 by (auto simp: caches_wf_def)
  define s4 where "s4 = t4\<lparr>mmu_page_header_cache := m4\<rparr>"
  have w4: "caches_wf s4" "mmu_pte_list_desc_cache s4 = m1" "mmu_shadow_page_cache s4 = m2" "indirect \<longrightarrow> mmu_shadowed_info_cache s4 = m3" "mmu_page_header_cache s4 = m4"
    using w3 4(2) same_but_poolD [OF 4(3)] by (simp_all add: caches_wf_def s4_def)
  have run: "mmu_topup_memory_caches e s indirect =
      Some (if r1 \<noteq> 0 then (r1, s1) else if r2 \<noteq> 0 then (r2, s2) else if r3' \<noteq> 0 then (r3', s3) else (r4, s4))"
  proof (cases indirect)
    case True
    then have e3: "t3\<lparr>mmu_shadowed_info_cache := m3\<rparr> = s3" "r3' = r3" by (simp_all add: s3_def r3'_def)
    show ?thesis
      using True 1(1) 2(1) 3(1) 4(1)
      by (simp add: mmu_topup_memory_caches_def K s1_def [symmetric] s2_def [symmetric] s4_def [symmetric] e3)
  next
    case False
    then have e3: "s3 = s2" "r3' = 0" by (simp_all add: s3_def r3'_def)
    show ?thesis
      using False 1(1) 2(1) 4(1) unfolding e3
      by (simp add: mmu_topup_memory_caches_def K s1_def [symmetric] s2_def [symmetric] s4_def [symmetric])
  qed
  show ?thesis
    unfolding run using 1(4) 2(4) 3(4) 4(4) w1 w2(1) w3(1) w4 nz by (auto simp: caches_full_def r3'_def)
qed

text \<open>A top-up reports a failure only when the pool refused a request.\<close>

lemma fill_cache_refused:
  "(\<And>n. mmu_pool e n \<noteq> 0) \<Longrightarrow> fill_cache e mn s mc = Some (r, t, mc') \<Longrightarrow> r = STATUS_SUCCESS"
proof (induction e mn s mc rule: fill_cache.induct)
  case (1 e mn s mc)
  obtain p u where a: "mmu_memory_cache_alloc_obj e s = (p, u)" by force
  then have "p \<noteq> 0" using "1.prems"(1) by (auto simp: mmu_memory_cache_alloc_obj_def Let_def)
  with "1.IH" [OF _ a [symmetric]] "1.prems" a show ?case
    by (subst (asm) (2) fill_cache.simps) (auto split: if_splits option.splits)
qed

lemma topup_refused:
  assumes "\<And>n. mmu_pool e n \<noteq> 0" and "kvm_mmu_topup_memory_cache e s mc mn = Some (r, t, mc')" and "cache_wf mc"
  shows "r = STATUS_SUCCESS"
  using assms(2,3) fill_cache_refused [OF assms(1)]
  by (auto simp: kvm_mmu_topup_memory_cache_def raw_kvm_mmu_topup_memory_cache_def Let_def assms(1) cache_wf_def
      KVM_ARCH_NR_OBJS_PER_MEMORY_CACHE_def split: if_splits option.splits)

lemma topup_one_refused:
  assumes "\<And>n. mmu_pool e n \<noteq> 0" and "cache_wf mc" and "mn \<le> 40"
  shows "\<exists>t mc'. kvm_mmu_topup_memory_cache e s mc mn = Some (0, t, mc') \<and> same_but_pool s t"
  using topup_small [OF assms(2,3), of e s] topup_refused [OF assms(1) _ assms(2)] by (metis STATUS_SUCCESS_def)

lemma topup_caches_refused:
  assumes "\<And>n. mmu_pool e n \<noteq> 0" and "caches_wf s" and "mmu_topup_memory_caches e s indirect = Some (r, t)"
  shows "r = 0"
proof -
  note one = topup_one_refused [of e, OF assms(1)]
  obtain t1 m1 where 1: "kvm_mmu_topup_memory_cache e s (mmu_pte_list_desc_cache s) 14 = Some (0, t1, m1)" "same_but_pool s t1"
    using one [of "mmu_pte_list_desc_cache s" 14 s] assms(2) by (auto simp: caches_wf_def)
  let ?s1 = "t1\<lparr>mmu_pte_list_desc_cache := m1\<rparr>"
  obtain t2 m2 where 2: "kvm_mmu_topup_memory_cache e ?s1 (mmu_shadow_page_cache t1) 5 = Some (0, t2, m2)" "same_but_pool ?s1 t2"
    using one [of "mmu_shadow_page_cache t1" 5 ?s1] assms(2) same_but_poolD [OF 1(2)] by (auto simp: caches_wf_def)
  let ?s2 = "t2\<lparr>mmu_shadow_page_cache := m2\<rparr>"
  obtain t3 m3 where 3: "kvm_mmu_topup_memory_cache e ?s2 (mmu_shadowed_info_cache t2) 5 = Some (0, t3, m3)" "same_but_pool ?s2 t3"
    using one [of "mmu_shadowed_info_cache t2" 5 ?s2] assms(2) same_but_poolD [OF 1(2)] same_but_poolD [OF 2(2)]
    by (auto simp: caches_wf_def)
  let ?s3 = "if indirect then t3\<lparr>mmu_shadowed_info_cache := m3\<rparr> else ?s2"
  have "cache_wf (mmu_page_header_cache ?s3)"
    using assms(2) same_but_poolD [OF 1(2)] same_but_poolD [OF 2(2)] same_but_poolD [OF 3(2)] by (auto simp: caches_wf_def)
  then obtain t4 m4 where 4: "kvm_mmu_topup_memory_cache e ?s3 (mmu_page_header_cache ?s3) 5 = Some (0, t4, m4)"
    using one [of "mmu_page_header_cache ?s3" 5 ?s3] by auto
  show ?thesis
    using assms(3) 1(1) 2(1) 3(1) 4
    by (cases indirect) (auto simp: mmu_topup_memory_caches_def PT64_ROOT_MAX_LEVEL_def PTE_PREFETCH_NUM_def)
qed

text \<open>
  C23: topping up the caches ends, whatever the pool answers, with success or with STATUS_NO_MEMORY, and
  with the latter only if the pool refused a request. After success the page cache and the header cache
  each serve five allocations, the descriptor cache fourteen and, when it was asked for, the cache of
  shadowed information five, all of them not NULL and without a change of the state, that is without asking
  the pool again. Nothing is said of the blocks a fault takes from the pool directly, as
  \<^verbatim>\<open>kvm_mmu_alloc_shadow_page\<close> does for its hash-table entry.
\<close>

theorem topup_makes_allocations_safe:
  assumes "caches_wf s"
  shows "\<exists>r t. mmu_topup_memory_caches e s indirect = Some (r, t) \<and> caches_wf t \<and> (r = 0 \<or> r = STATUS_NO_MEMORY) \<and>
    (r = STATUS_NO_MEMORY \<longrightarrow> (\<exists>n. mmu_pool e n = 0)) \<and>
    (r = 0 \<longrightarrow>
      (\<exists>ps. take_objs e 5 t (mmu_shadow_page_cache t) = Some (ps, t) \<and> length ps = 5 \<and> 0 \<notin> set ps) \<and>
      (\<exists>ps. take_objs e 5 t (mmu_page_header_cache t) = Some (ps, t) \<and> length ps = 5 \<and> 0 \<notin> set ps) \<and>
      (\<exists>ps. take_objs e 14 t (mmu_pte_list_desc_cache t) = Some (ps, t) \<and> length ps = 14 \<and> 0 \<notin> set ps) \<and>
      (indirect \<longrightarrow> (\<exists>ps. take_objs e 5 t (mmu_shadowed_info_cache t) = Some (ps, t) \<and> length ps = 5 \<and> 0 \<notin> set ps)))"
proof -
  obtain r t where t: "mmu_topup_memory_caches e s indirect = Some (r, t)" "caches_wf t" "r = 0 \<and> caches_full t indirect \<or> r = STATUS_NO_MEMORY"
    using topup_caches_ok [OF assms] by blast
  have ne: "STATUS_NO_MEMORY \<noteq> 0" by (simp add: status_defs)
  then have "\<exists>n. mmu_pool e n = 0" if "r = STATUS_NO_MEMORY" using topup_caches_refused [OF _ assms t(1)] that by metis
  then show ?thesis
    using ne t take_objs_ok [of "mmu_shadow_page_cache t" 5 e t] take_objs_ok [of "mmu_page_header_cache t" 5 e t]
      take_objs_ok [of "mmu_pte_list_desc_cache t" 14 e t] take_objs_ok [of "mmu_shadowed_info_cache t" 5 e t]
    by (auto simp: caches_wf_def caches_full_def)
qed

definition empty_cache :: kvm_mmu_memory_cache where
  "empty_cache = \<lparr>mc_capacity = 0, mc_nobjs = 0, mc_objects = None\<rparr>"

definition fresh_state :: mmu_state where
  "fresh_state = \<lparr>pt_heap = Map.empty, sp_heap = Map.empty, desc_heap = Map.empty, g_Table = demo_table, mmu_page_hash = [],
     tdp_mmu_roots = [], tdp_mmu_pages = 0, mmu_valid_gen = 0, pf_mmio_spte_created = 0, pool_reqs = 0,
     mmu_pte_list_desc_cache = empty_cache, mmu_shadow_page_cache = empty_cache, mmu_shadowed_info_cache = empty_cache,
     mmu_page_header_cache = empty_cache, page_stats = [0, 0, 0]\<rparr>"

text \<open>A pool that serves every request with a page of its own, and empty caches.\<close>

theorem topup_makes_allocations_safe_witness:
  "\<exists>t ps. mmu_topup_memory_caches \<lparr>mmu_pool = (\<lambda>n. 0x100000 OR push_bit 12 (of_nat (n mod 256))), p2v = id, v2p = id,
       junk_word = 0, masks = demo_masks, g_Table_addr = 0x500\<rparr> fresh_state True = Some (0, t) \<and>
     take_objs \<lparr>mmu_pool = (\<lambda>n. 0x100000 OR push_bit 12 (of_nat (n mod 256))), p2v = id, v2p = id,
       junk_word = 0, masks = demo_masks, g_Table_addr = 0x500\<rparr> 14 t (mmu_pte_list_desc_cache t) = Some (ps, t) \<and> 0 \<notin> set ps"
proof -
  let ?e = "\<lparr>mmu_pool = (\<lambda>n. 0x100000 OR push_bit 12 (of_nat (n mod 256))), p2v = id, v2p = id, junk_word = 0, masks = demo_masks, g_Table_addr = 0x500\<rparr>"
  have wf: "caches_wf fresh_state" by (simp add: caches_wf_def fresh_state_def empty_cache_def cache_wf_def)
  have "mmu_pool ?e n \<noteq> 0" for n by (simp add: or_eq_0_iff)
  with topup_makes_allocations_safe [OF wf, of ?e True] show ?thesis by blast
qed

end
