(* ===== verification/Shadow_Mmu.thy ===== *)
theory Shadow_Mmu
  imports Mmu_Cache Tdp_Iter_Props
begin

text \<open>
  Shadow pages and the walk that maps a fault: the middle of \<^verbatim>\<open>src/svmx/mmu.c\<close> from the shadow walk
  iterator to \<^verbatim>\<open>fast_page_fault\<close>, with \<^verbatim>\<open>sptep_to_sp\<close> of \<^verbatim>\<open>spte.h\<close>. Dereferencing NULL or an unmapped
  address has no result.
\<close>

section \<open>Faults and MMU contexts\<close>

record kvm_page_fault =
  pf_addr :: gpa_t
  pf_prefetch :: bool
  pf_exec :: bool
  pf_write :: bool
  pf_present :: bool
  pf_rsvd :: bool
  nx_huge_page_workaround_enabled :: bool
  huge_page_disallowed :: bool
  max_level :: nat
  req_level :: nat
  goal_level :: nat
  pf_gfn :: gfn_t
  pf_slot :: u64
  pf_pfn :: kvm_pfn_t
  map_writable :: bool

record kvm_mmu =
  root_hpa :: hpa_t
  root_pgd :: u64
  root_role :: kvm_mmu_page_role
  cpu_role_base :: kvm_mmu_page_role
  pae_root :: u64
  pml4_root :: u64
  pml5_root :: u64

record kvm_shadow_walk_iterator =
  w_addr :: u64
  shadow_addr :: hpa_t
  w_sptep :: u64
  w_level :: nat
  w_index :: u32

definition RET_PF_CONTINUE :: int where "RET_PF_CONTINUE = 0"
definition RET_PF_RETRY :: int where "RET_PF_RETRY = 1"
definition RET_PF_EMULATE :: int where "RET_PF_EMULATE = 2"
definition RET_PF_INVALID :: int where "RET_PF_INVALID = 3"
definition RET_PF_FIXED :: int where "RET_PF_FIXED = 4"
definition RET_PF_SPURIOUS :: int where "RET_PF_SPURIOUS = 5"

lemmas ret_pf_defs = RET_PF_CONTINUE_def RET_PF_RETRY_def RET_PF_EMULATE_def RET_PF_INVALID_def RET_PF_FIXED_def RET_PF_SPURIOUS_def

definition KVM_PFN_NOSLOT :: u64 where "KVM_PFN_NOSLOT = push_bit 63 1"
definition KVM_PFN_ERR_MASK :: u64 where "KVM_PFN_ERR_MASK = push_bit 52 0x7ff"
definition KVM_PFN_ERR_NOSLOT_MASK :: u64 where "KVM_PFN_ERR_NOSLOT_MASK = push_bit 52 0xfff"
definition is_noslot_pfn :: "kvm_pfn_t \<Rightarrow> bool" where "is_noslot_pfn pfn \<longleftrightarrow> pfn = KVM_PFN_NOSLOT"
definition is_error_pfn :: "kvm_pfn_t \<Rightarrow> bool" where "is_error_pfn pfn \<longleftrightarrow> pfn AND KVM_PFN_ERR_MASK \<noteq> 0"
definition is_error_noslot_pfn :: "kvm_pfn_t \<Rightarrow> bool" where
  "is_error_noslot_pfn pfn \<longleftrightarrow> pfn AND KVM_PFN_ERR_NOSLOT_MASK \<noteq> 0"

section \<open>Shadow pages\<close>

text \<open>\<^verbatim>\<open>struct spt_info\<close> has the page at offset 0 and its bucket at offset 8.\<close>

definition sptep_to_sp :: "mmu_state \<Rightarrow> u64 \<Rightarrow> u64 option" where
  "sptep_to_sp s ep = do {
     pBucket \<leftarrow> HashTableFindNext (pt_heap s) (g_Table s) (HashUlongPtr ep) 0;
     if pBucket = 0 then Some 0 else rd (pt_heap s) (pBucket - 8)
   }"

definition sp_load :: "mmu_state \<Rightarrow> u64 \<Rightarrow> kvm_mmu_page option" where
  "sp_load s sp = (if sp = 0 then None else sp_heap s sp)"

definition sp_update :: "mmu_state \<Rightarrow> u64 \<Rightarrow> (kvm_mmu_page \<Rightarrow> kvm_mmu_page) \<Rightarrow> mmu_state option" where
  "sp_update s sp f = do {
     x \<leftarrow> sp_load s sp;
     Some (s\<lparr>sp_heap := (sp_heap s)(sp \<mapsto> f x)\<rparr>)
   }"

definition zero_role :: kvm_mmu_page_role where
  "zero_role = \<lparr>role_level = 0, has_4_byte_gpte = False, quadrant = 0, role_direct = False, role_access = 0,
     role_invalid = False, efer_nx = False, cr0_wp = False, smep_andnot_wp = False, smap_andnot_wp = False,
     ad_disabled = False, guest_mode = False, passthrough = False, role_smm = 0\<rparr>"

definition zero_sp :: kvm_mmu_page where
  "zero_sp = \<lparr>tdp_mmu_page = False, unsync = False, sp_mmu_valid_gen = 0, nx_huge_page_disallowed = False, sp_role = zero_role,
     sp_gfn = 0, sp_spt = 0, shadowed_translation = 0, sp_root_count = 0, ptep = 0, parent_ptes = 0\<rparr>"

definition alloc_header :: "mmu_env \<Rightarrow> mmu_state \<Rightarrow> (u64 \<times> mmu_state) option" where
  "alloc_header e s = do {
     (sp, s, mc) \<leftarrow> kvm_mmu_memory_cache_alloc e s (mmu_page_header_cache s);
     Some (sp, s\<lparr>mmu_page_header_cache := mc,
       sp_heap := (if sp = 0 then sp_heap s else (sp_heap s)(sp \<mapsto> zero_sp))\<rparr>)
   }"

definition alloc_spt :: "mmu_env \<Rightarrow> mmu_state \<Rightarrow> (u64 \<times> mmu_state) option" where
  "alloc_spt e s = do {
     (p, s, mc) \<leftarrow> kvm_mmu_memory_cache_alloc e s (mmu_shadow_page_cache s);
     Some (p, s\<lparr>mmu_shadow_page_cache := mc\<rparr>)
   }"

definition alloc_shadowed_info :: "mmu_env \<Rightarrow> mmu_state \<Rightarrow> (u64 \<times> mmu_state) option" where
  "alloc_shadowed_info e s = do {
     (p, s, mc) \<leftarrow> kvm_mmu_memory_cache_alloc e s (mmu_shadowed_info_cache s);
     Some (p, s\<lparr>mmu_shadowed_info_cache := mc\<rparr>)
   }"

text \<open>The 24 bytes of a \<^verbatim>\<open>struct spt_info\<close>; \<^verbatim>\<open>RtlZeroMemory(info, sizeof(info))\<close> clears eight of them.\<close>

definition alloc_spt_info :: "mmu_env \<Rightarrow> mmu_state \<Rightarrow> u64 \<times> mmu_state" where
  "alloc_spt_info e s = (let
       info = mmu_pool e (pool_reqs s);
       s = s\<lparr>pool_reqs := Suc (pool_reqs s)\<rparr> in
     (info, if info = 0 then s
            else s\<lparr>pt_heap := (pt_heap s)(info \<mapsto> 0, info + 8 \<mapsto> junk_word e, info + 16 \<mapsto> junk_word e)\<rparr>))"

definition register_spt :: "mmu_state \<Rightarrow> u64 \<Rightarrow> u64 \<Rightarrow> u64 \<Rightarrow> mmu_state option" where
  "register_spt s info sp spt = do {
     mem \<leftarrow> wr (pt_heap s) info sp;
     mem \<leftarrow> wr mem (info + 16) (HashUlongPtr spt);
     (mem, H, c) \<leftarrow> HashTableInsert mem (g_Table s) (info + 8);
     Some (s\<lparr>pt_heap := mem, g_Table := H\<rparr>)
   }"

definition kvm_mmu_alloc_shadow_page :: "mmu_env \<Rightarrow> mmu_state \<Rightarrow> gfn_t \<Rightarrow> kvm_mmu_page_role \<Rightarrow> (u64 \<times> mmu_state) option" where
  "kvm_mmu_alloc_shadow_page e s gfn role = (let (info, s) = alloc_spt_info e s in
     if info = 0 then Some (0, s)
     else do {
       (sp, s) \<leftarrow> alloc_header e s;
       (spt, s) \<leftarrow> alloc_spt e s;
       s \<leftarrow> sp_update s sp (\<lambda>x. x\<lparr>sp_spt := spt\<rparr>);
       s \<leftarrow> (if role_direct role then Some s else do {
         (t, s) \<leftarrow> alloc_shadowed_info e s;
         sp_update s sp (\<lambda>x. x\<lparr>shadowed_translation := t\<rparr>)
       });
       s \<leftarrow> register_spt s info sp spt;
       s \<leftarrow> sp_update s sp (\<lambda>x. x\<lparr>sp_mmu_valid_gen := mmu_valid_gen s, sp_gfn := gfn, sp_role := role\<rparr>);
       Some (sp, s\<lparr>mmu_page_hash := sp # mmu_page_hash s\<rparr>)
     })"

definition kvm_mmu_find_shadow_page :: "mmu_state \<Rightarrow> gfn_t \<Rightarrow> kvm_mmu_page_role \<Rightarrow> u64" where
  "kvm_mmu_find_shadow_page s gfn role = 0"

definition kvm_mmu_get_shadow_page :: "mmu_env \<Rightarrow> mmu_state \<Rightarrow> gfn_t \<Rightarrow> kvm_mmu_page_role \<Rightarrow> (u64 \<times> mmu_state) option" where
  "kvm_mmu_get_shadow_page e s gfn role = (let sp = kvm_mmu_find_shadow_page s gfn role in
     if sp = 0 then kvm_mmu_alloc_shadow_page e s gfn role else Some (sp, s))"

definition kvm_mmu_child_role :: "mmu_state \<Rightarrow> u64 \<Rightarrow> bool \<Rightarrow> nat \<Rightarrow> kvm_mmu_page_role option" where
  "kvm_mmu_child_role s ep direct access = do {
     parent_sp \<leftarrow> sptep_to_sp s ep;
     parent \<leftarrow> sp_load s parent_sp;
     let role = sp_role parent;
     let role = role\<lparr>role_level := (role_level role + 15) mod 16, role_access := access, role_direct := direct, passthrough := False\<rparr>;
     Some (if has_4_byte_gpte role then role\<lparr>quadrant := unat (spte_index ep AND 1)\<rparr> else role)
   }"

text \<open>The pointer value of \<^verbatim>\<open>STATUS_ALREADY_COMMITTED\<close> stands for an entry that has a table already.\<close>

definition ALREADY_COMMITTED_PTR :: u64 where "ALREADY_COMMITTED_PTR = of_int STATUS_ALREADY_COMMITTED"

definition kvm_mmu_get_child_sp :: "mmu_env \<Rightarrow> mmu_state \<Rightarrow> u64 \<Rightarrow> gfn_t \<Rightarrow> bool \<Rightarrow> nat \<Rightarrow> (u64 \<times> mmu_state) option" where
  "kvm_mmu_get_child_sp e s ep gfn direct access = do {
     v \<leftarrow> rd (pt_heap s) ep;
     if is_shadow_present_pte v \<and> \<not> is_large_pte v then Some (ALREADY_COMMITTED_PTR, s)
     else do {
       role \<leftarrow> kvm_mmu_child_role s ep direct access;
       kvm_mmu_get_shadow_page e s gfn role
     }
   }"

section \<open>Reverse maps\<close>

text \<open>\<^verbatim>\<open>rmap_head->val & ~1ul\<close>: the mask has 32 bits in this ABI and is zero-extended.\<close>

definition desc_ptr :: "u64 \<Rightarrow> u64" where "desc_ptr v = v AND ucast (NOT 1 :: u32)"

definition desc_load :: "mmu_state \<Rightarrow> u64 \<Rightarrow> pte_list_desc option" where
  "desc_load s d = (if d = 0 then None else desc_heap s d)"

definition pte_list_desc_remove_entry :: "mmu_state \<Rightarrow> u64 \<Rightarrow> u64 \<Rightarrow> nat \<Rightarrow> (u64 \<times> mmu_state) option" where
  "pte_list_desc_remove_entry s rmap_val desc i = do {
     let head = desc_ptr rmap_val;
     h \<leftarrow> desc_load s head;
     let j = unat (spte_count h - 1);
     if length (desc_sptes h) \<le> j then None
     else do {
       d \<leftarrow> desc_load s desc;
       let s = s\<lparr>desc_heap := (desc_heap s)(desc \<mapsto> d\<lparr>desc_sptes := (desc_sptes d)[i := desc_sptes h ! j]\<rparr>)\<rparr>;
       h \<leftarrow> desc_load s head;
       let h = h\<lparr>desc_sptes := (desc_sptes h)[j := 0], spte_count := spte_count h - 1\<rparr>;
       let s = s\<lparr>desc_heap := (desc_heap s)(head \<mapsto> h)\<rparr>;
       if spte_count h \<noteq> 0 then Some (rmap_val, s)
       else if desc_more h = 0 then Some (0, s)
       else Some (desc_more h OR 1, s)
     }
   }"

partial_function (option) pte_list_search :: "mmu_state \<Rightarrow> u64 \<Rightarrow> u64 \<Rightarrow> u64 \<Rightarrow> (u64 \<times> mmu_state) option" where
  "pte_list_search s spte rmap_val desc =
     (if desc = 0 then Some (rmap_val, s)
      else do {
        d \<leftarrow> desc_load s desc;
        case List.find (\<lambda>i. desc_sptes d ! i = spte) [0..<min (unat (spte_count d)) (length (desc_sptes d))] of
          Some i \<Rightarrow> pte_list_desc_remove_entry s rmap_val desc i
        | None \<Rightarrow> if length (desc_sptes d) < unat (spte_count d) then None
            else pte_list_search s spte rmap_val (desc_more d)
      })"

text \<open>The new value of \<^verbatim>\<open>rmap_head->val\<close> and the state.\<close>

definition pte_list_remove :: "mmu_state \<Rightarrow> u64 \<Rightarrow> u64 \<Rightarrow> (u64 \<times> mmu_state) option" where
  "pte_list_remove s spte rmap_val =
     (if rmap_val = 0 then Some (rmap_val, s)
      else if rmap_val AND 1 = 0 then Some (0, s)
      else pte_list_search s spte rmap_val (desc_ptr rmap_val))"

definition drop_parent_pte :: "mmu_state \<Rightarrow> u64 \<Rightarrow> u64 \<Rightarrow> mmu_state option" where
  "drop_parent_pte s sp parent_pte = do {
     x \<leftarrow> sp_load s sp;
     (v, s) \<leftarrow> pte_list_remove s parent_pte (parent_ptes x);
     sp_update s sp (\<lambda>x. x\<lparr>parent_ptes := v\<rparr>)
   }"

definition mmu_spte_clear_track_bits :: "mmu_state \<Rightarrow> u64 \<Rightarrow> u64 option" where
  "mmu_spte_clear_track_bits s ep = rd (pt_heap s) ep"

definition rmap_remove :: "mmu_state \<Rightarrow> u64 \<Rightarrow> mmu_state" where "rmap_remove s ep = s"

definition drop_spte :: "mmu_state \<Rightarrow> u64 \<Rightarrow> mmu_state option" where
  "drop_spte s ep = do {
     old \<leftarrow> mmu_spte_clear_track_bits s ep;
     Some (if is_shadow_present_pte old then rmap_remove s ep else s)
   }"

section \<open>Linking\<close>

definition drop_large_spte :: "mmu_state \<Rightarrow> u64 \<Rightarrow> mmu_state option" where
  "drop_large_spte s ep = do {
     sp \<leftarrow> sptep_to_sp s ep;
     drop_spte s ep
   }"

definition mmu_spte_set :: "mmu_state \<Rightarrow> u64 \<Rightarrow> u64 \<Rightarrow> mmu_state option" where
  "mmu_spte_set s ep new_spte = do {
     mem \<leftarrow> wr (pt_heap s) ep new_spte;
     Some (s\<lparr>pt_heap := mem\<rparr>)
   }"

definition link_shadow_page :: "mmu_env \<Rightarrow> mmu_state \<Rightarrow> u64 \<Rightarrow> u64 \<Rightarrow> mmu_state option" where
  "link_shadow_page e s ep sp = do {
     v \<leftarrow> rd (pt_heap s) ep;
     s \<leftarrow> (if is_shadow_present_pte v then drop_large_spte s ep else Some s);
     x \<leftarrow> sp_load s sp;
     mmu_spte_set s ep (make_nonleaf_spte (masks e) (v2p e (sp_spt x)) (ad_disabled (sp_role x)))
   }"

section \<open>The shadow walk\<close>

definition shadow_walk_init_using_root ::
  "mmu_env \<Rightarrow> mmu_state \<Rightarrow> kvm_mmu \<Rightarrow> hpa_t \<Rightarrow> u64 \<Rightarrow> kvm_shadow_walk_iterator option" where
  "shadow_walk_init_using_root e s mmu root addr = (let
       level = role_level (root_role mmu);
       level = (if 4 \<le> level \<and> role_level (cpu_role_base mmu) < 4 \<and> \<not> role_direct (root_role mmu) then 3 else level) in
     if level = 3 then do {
       v \<leftarrow> rd (pt_heap s) (pae_root mmu + 8 * (drop_bit 30 addr AND 3));
       let sa = v AND SPTE_BASE_ADDR_MASK;
       Some \<lparr>w_addr = addr, shadow_addr = sa, w_sptep = 0, w_level = (if sa = 0 then 0 else level - 1), w_index = 0\<rparr>
     }
     else Some \<lparr>w_addr = addr, shadow_addr = root, w_sptep = 0, w_level = level, w_index = 0\<rparr>)"

definition shadow_walk_init :: "mmu_env \<Rightarrow> mmu_state \<Rightarrow> kvm_mmu \<Rightarrow> u64 \<Rightarrow> kvm_shadow_walk_iterator option" where
  "shadow_walk_init e s mmu addr = shadow_walk_init_using_root e s mmu (root_hpa mmu) addr"

definition shadow_walk_okay :: "mmu_env \<Rightarrow> kvm_shadow_walk_iterator \<Rightarrow> bool \<times> kvm_shadow_walk_iterator" where
  "shadow_walk_okay e it =
     (if w_level it < 1 then (False, it)
      else let ix = (ucast (SPTE_INDEX (w_addr it) (w_level it)) :: u32) in
        (True, it\<lparr>w_index := ix, w_sptep := p2v e (shadow_addr it) + 8 * ucast ix\<rparr>))"

definition raw_shadow_walk_next :: "kvm_shadow_walk_iterator \<Rightarrow> u64 \<Rightarrow> kvm_shadow_walk_iterator" where
  "raw_shadow_walk_next it spte =
     (if \<not> is_shadow_present_pte spte \<or> is_last_spte spte (w_level it) then it\<lparr>w_level := 0\<rparr>
      else it\<lparr>shadow_addr := spte AND SPTE_BASE_ADDR_MASK, w_level := w_level it - 1\<rparr>)"

definition shadow_walk_next :: "mmu_state \<Rightarrow> kvm_shadow_walk_iterator \<Rightarrow> kvm_shadow_walk_iterator option" where
  "shadow_walk_next s it = do {
     v \<leftarrow> rd (pt_heap s) (w_sptep it);
     Some (raw_shadow_walk_next it v)
   }"

text \<open>The loop of \<^verbatim>\<open>fast_pf_get_last_sptep\<close>; every step lowers the level, so it ends.\<close>

function last_entry_loop :: "mmu_env \<Rightarrow> mmu_state \<Rightarrow> kvm_shadow_walk_iterator \<Rightarrow> u64 \<times> u64 \<Rightarrow> (u64 \<times> u64) option" where
  "last_entry_loop e s it acc =
     (if w_level it < 1 then Some acc
      else let it = snd (shadow_walk_okay e it) in
        case rd (pt_heap s) (w_sptep it) of
          None \<Rightarrow> None
        | Some old \<Rightarrow> last_entry_loop e s (raw_shadow_walk_next it old) (w_sptep it, old))"
  by pat_completeness auto
termination
  by (relation "measure (\<lambda>(_, _, it, _). w_level it)") (auto simp: raw_shadow_walk_next_def shadow_walk_okay_def Let_def)

declare last_entry_loop.simps [simp del]

definition fast_pf_get_last_sptep :: "mmu_env \<Rightarrow> mmu_state \<Rightarrow> kvm_mmu \<Rightarrow> gpa_t \<Rightarrow> u64 \<Rightarrow> (u64 \<times> u64) option" where
  "fast_pf_get_last_sptep e s mmu gpa spte0 = do {
     it \<leftarrow> shadow_walk_init e s mmu gpa;
     last_entry_loop e s it (0, spte0)
   }"

end
