(* ===== verification/Page_Fault.thy ===== *)
theory Page_Fault
  imports Shadow_Mmu Vcpu_Slot
begin

text \<open>
  The two-dimensional page fault: \<^verbatim>\<open>kvm_mmu_page_fault\<close> of \<^verbatim>\<open>src/svmx/mmu.c\<close> with the choice of the
  page size, the lookup of the host frame, the fast path, \<^verbatim>\<open>direct_map\<close> and the TDP variant. The
  memory slots are those of \<open>kvm\<close>, the page tables those of \<open>mmu_state\<close>. A read of a header at an
  address where there is none has no result.
\<close>

section \<open>Page sizes\<close>

definition lpage_info_slot :: "kvm \<Rightarrow> gfn_t \<Rightarrow> kvm_memory_slot \<Rightarrow> nat \<Rightarrow> u32 option" where
  "lpage_info_slot k gfn sl level = (let idx = gfn_to_index gfn (base_gfn sl) level in
     if level < 2 \<or> length (lpage_info (slot_arch sl)) \<le> level - 2 then None
     else case lpage_heap k (lpage_info (slot_arch sl) ! (level - 2)) of
       None \<Rightarrow> None
     | Some (n, arr) \<Rightarrow> if idx < n then Some (arr idx) else None)"

definition host_pfn_mapping_level :: "gfn_t \<Rightarrow> nat" where "host_pfn_mapping_level gfn = 1"

fun mapping_level_loop :: "kvm \<Rightarrow> gfn_t \<Rightarrow> kvm_memory_slot \<Rightarrow> nat \<Rightarrow> nat option" where
  "mapping_level_loop k gfn sl lvl =
     (if 1 < lvl
      then case lpage_info_slot k gfn sl lvl of
        None \<Rightarrow> None
      | Some disallow \<Rightarrow> if disallow = 0 then Some lvl else mapping_level_loop k gfn sl (lvl - 1)
      else Some lvl)"

declare mapping_level_loop.simps [simp del]

definition kvm_mmu_max_mapping_level :: "kvm \<Rightarrow> nat \<Rightarrow> u64 \<Rightarrow> gfn_t \<Rightarrow> nat \<Rightarrow> nat option" where
  "kvm_mmu_max_mapping_level k max_huge_page_level slot gfn lvl = do {
     sl \<leftarrow> slot_load (slots k) slot;
     lvl \<leftarrow> mapping_level_loop k gfn sl (min lvl max_huge_page_level);
     Some (if lvl = 1 then 1 else min (host_pfn_mapping_level gfn) lvl)
   }"

definition kvm_mmu_hugepage_adjust :: "kvm \<Rightarrow> nat \<Rightarrow> kvm_page_fault \<Rightarrow> kvm_page_fault option" where
  "kvm_mmu_hugepage_adjust k max_huge_page_level fault = (let
       fault = fault\<lparr>huge_page_disallowed := pf_exec fault \<and> nx_huge_page_workaround_enabled fault\<rparr> in
     if max_level fault = 1 then Some fault
     else if is_error_noslot_pfn (pf_pfn fault) then Some fault
     else do {
       dirty \<leftarrow> kvm_slot_dirty_track_enabled (slots k) (pf_slot fault);
       if dirty then Some fault
       else do {
         r \<leftarrow> kvm_mmu_max_mapping_level k max_huge_page_level (pf_slot fault) (pf_gfn fault) (max_level fault);
         let fault = fault\<lparr>req_level := r\<rparr>;
         if req_level fault = 1 \<or> huge_page_disallowed fault then Some fault
         else do {
           let fault = fault\<lparr>goal_level := req_level fault\<rparr>;
           let mask = (ucast (KVM_PAGES_PER_HPAGE (goal_level fault) - 1) :: u64);
           Some (fault\<lparr>pf_pfn := pf_pfn fault AND NOT mask\<rparr>)
         }
       }
     })"

definition spte_to_child_sp :: "mmu_env \<Rightarrow> u64 \<Rightarrow> u64" where
  "spte_to_child_sp e spte = p2v e (spte AND SPTE_BASE_ADDR_MASK)"

definition disallowed_hugepage_adjust :: "mmu_env \<Rightarrow> mmu_state \<Rightarrow> kvm_page_fault \<Rightarrow> u64 \<Rightarrow> nat \<Rightarrow> kvm_page_fault option" where
  "disallowed_hugepage_adjust e s fault spte cur_level =
     (if 1 < cur_level \<and> cur_level = goal_level fault \<and> is_shadow_present_pte spte \<and> \<not> is_large_pte spte
      then do {
        child \<leftarrow> sp_load s (spte_to_child_sp e spte);
        if nx_huge_page_disallowed child
        then let page_mask = (ucast (KVM_PAGES_PER_HPAGE cur_level - KVM_PAGES_PER_HPAGE (cur_level - 1)) :: u64) in
          Some (fault\<lparr>pf_pfn := pf_pfn fault OR (pf_gfn fault AND page_mask), goal_level := goal_level fault - 1\<rparr>)
        else Some fault
      }
      else Some fault)"

section \<open>The leaf entry\<close>

definition mmu_spte_update :: "u64 \<Rightarrow> u64 \<Rightarrow> bool" where "mmu_spte_update ep new_spte = False"

text \<open>
  \<open>env_pf\<close>: the dirty-log size of the vendor, and whether huge pages are kept not executable.
\<close>

record env_pf =
  dirty_log_size :: nat
  nx_huge :: bool
  max_huge_page_level :: nat
  tdp_mmu_on :: bool

definition mmu_set_spte ::
  "mmu_env \<Rightarrow> env_pf \<Rightarrow> mmu_state \<Rightarrow> u64 \<Rightarrow> u32 \<Rightarrow> kvm_pfn_t \<Rightarrow> kvm_page_fault \<Rightarrow> (int \<times> mmu_state) option" where
  "mmu_set_spte e c s ep pte_access pfn fault = do {
     sp \<leftarrow> sptep_to_sp s ep;
     x \<leftarrow> sp_load s sp;
     let level = role_level (sp_role x);
     if is_noslot_pfn pfn
     then Some (RET_PF_EMULATE, s\<lparr>pf_mmio_spte_created := pf_mmio_spte_created s + 1\<rparr>)
     else do {
       v \<leftarrow> rd (pt_heap s) ep;
       s \<leftarrow> (if is_shadow_present_pte v
             then (if 1 < level \<and> \<not> is_large_pte v then drop_parent_pte s (spte_to_child_sp e v) ep
                   else if pfn \<noteq> spte_to_pfn v then drop_spte s ep
                   else Some s)
             else Some s);
       let (wrprot, spte) = make_spte (masks e) (dirty_log_size c) (nx_huge c) (sp_role x) pte_access pfn
         (pf_prefetch fault) (map_writable fault);
       v \<leftarrow> rd (pt_heap s) ep;
       let ret = (if v = spte then RET_PF_SPURIOUS else RET_PF_FIXED);
       let flush = mmu_spte_update ep spte;
       Some (if wrprot \<and> pf_write fault then RET_PF_EMULATE else ret, s)
     }
   }"

section \<open>Building the path\<close>

text \<open>
  The loop of \<^verbatim>\<open>direct_map\<close>: it stops at the goal level, or goes down after making sure that there
  is a table below. The result is the iterator, the fault and the rounded frame at the end.
\<close>

function direct_map_loop ::
  "mmu_env \<Rightarrow> mmu_state \<Rightarrow> kvm_page_fault \<Rightarrow> gfn_t \<Rightarrow> kvm_shadow_walk_iterator \<Rightarrow>
     (kvm_shadow_walk_iterator \<times> kvm_page_fault \<times> gfn_t \<times> mmu_state) option" where
  "direct_map_loop e s fault base it =
     (if w_level it < 1 then Some (it, fault, base, s)
      else let it = snd (shadow_walk_okay e it) in
        case (if nx_huge_page_workaround_enabled fault
              then rd (pt_heap s) (w_sptep it) \<bind> (\<lambda>v. disallowed_hugepage_adjust e s fault v (w_level it))
              else Some fault) of
          None \<Rightarrow> None
        | Some fault \<Rightarrow> (let base = gfn_round_for_level (pf_gfn fault) (w_level it) in
            if w_level it = goal_level fault then Some (it, fault, base, s)
            else case kvm_mmu_get_child_sp e s (w_sptep it) base True 7 of
              None \<Rightarrow> None
            | Some (sp, s) \<Rightarrow>
                (case (if sp = ALREADY_COMMITTED_PTR then Some s else link_shadow_page e s (w_sptep it) sp) of
                   None \<Rightarrow> None
                 | Some s \<Rightarrow>
                     (case rd (pt_heap s) (w_sptep it) of
                        None \<Rightarrow> None
                      | Some v \<Rightarrow> direct_map_loop e s fault base (raw_shadow_walk_next it v)))))"
  by pat_completeness auto
termination
  by (relation "measure (\<lambda>(_, _, _, _, it). w_level it)") (auto simp: raw_shadow_walk_next_def shadow_walk_okay_def Let_def)

declare direct_map_loop.simps [simp del]

definition direct_map ::
  "mmu_env \<Rightarrow> env_pf \<Rightarrow> kvm \<Rightarrow> mmu_state \<Rightarrow> kvm_mmu \<Rightarrow> kvm_page_fault \<Rightarrow> (int \<times> mmu_state) option" where
  "direct_map e c k s mmu fault = do {
     fault \<leftarrow> kvm_mmu_hugepage_adjust k (max_huge_page_level c) fault;
     it \<leftarrow> shadow_walk_init e s mmu (pf_addr fault);
     (it, fault, base, s) \<leftarrow> direct_map_loop e s fault (pf_gfn fault) it;
     if w_level it \<noteq> goal_level fault then Some (STATUS_FAIL_CHECK, s)
     else do {
       (ret, s) \<leftarrow> mmu_set_spte e c s (w_sptep it) ACC_ALL (pf_pfn fault) fault;
       Some (if ret = RET_PF_SPURIOUS then ret else 0, s)
     }
   }"

section \<open>The fast path\<close>

definition page_fault_can_be_fast :: "shadow_masks \<Rightarrow> kvm_page_fault \<Rightarrow> bool" where
  "page_fault_can_be_fast m fault =
     (if pf_rsvd fault then False
      else if \<not> pf_present fault then \<not> kvm_ad_enabled m
      else pf_write fault)"

definition is_access_allowed :: "shadow_masks \<Rightarrow> kvm_page_fault \<Rightarrow> u64 \<Rightarrow> bool" where
  "is_access_allowed m fault spte =
     (if pf_exec fault then is_executable_pte m spte
      else if pf_write fault then is_writable_pte spte
      else spte AND PT_PRESENT_MASK \<noteq> 0)"

definition kvm_tdp_root :: "mmu_env \<Rightarrow> mmu_state \<Rightarrow> kvm_mmu \<Rightarrow> kvm_mmu_page option" where
  "kvm_tdp_root e s mmu = sp_load s (p2v e (root_hpa mmu))"

definition fast_last_sptep :: "mmu_env \<Rightarrow> env_pf \<Rightarrow> mmu_state \<Rightarrow> kvm_mmu \<Rightarrow> tdp_iter \<Rightarrow> gpa_t \<Rightarrow> u64 \<Rightarrow> (u64 \<times> u64) option" where
  "fast_last_sptep e c s mmu iter0 addr spte =
     (if tdp_mmu_on c then do {
        root \<leftarrow> kvm_tdp_root e s mmu;
        kvm_tdp_mmu_fast_pf_get_last_sptep (p2v e) (pt_heap s) iter0 (sp_role root) (sp_spt root) addr spte
      }
      else fast_pf_get_last_sptep e s mmu addr spte)"

text \<open>One turn of the retry loop: \<open>Some True\<close> when it goes round again.\<close>

definition fast_try :: "mmu_env \<Rightarrow> env_pf \<Rightarrow> mmu_state \<Rightarrow> kvm_mmu \<Rightarrow> tdp_iter \<Rightarrow> kvm_page_fault \<Rightarrow> u64 \<Rightarrow> (bool \<times> u64) option" where
  "fast_try e c s mmu iter0 fault spte = do {
     (ep, spte) \<leftarrow> fast_last_sptep e c s mmu iter0 (pf_addr fault) spte;
     if \<not> is_shadow_present_pte spte then Some (False, spte)
     else do {
       sp \<leftarrow> sptep_to_sp s ep;
       x \<leftarrow> sp_load s sp;
       if \<not> is_last_spte spte (role_level (sp_role x)) then Some (False, spte)
       else if is_access_allowed (masks e) fault spte then Some (False, spte)
       else do {
         let new_spte = spte;
         let new_spte = (if \<not> kvm_ad_enabled (masks e) \<and> is_access_track_spte (masks e) spte
                         then restore_acc_track_spte (masks e) new_spte else new_spte);
         let new_spte = (if pf_write fault \<and> is_mmu_writable_spte (masks e) spte
                         then new_spte OR PT_WRITABLE_MASK else new_spte);
         Some (\<not> (new_spte = spte \<or> \<not> is_access_allowed (masks e) fault new_spte), spte)
       }
     }
   }"

text \<open>\<open>n\<close> is the number of retries left: the loop gives up when the counter exceeds four.\<close>

primrec fast_loop :: "mmu_env \<Rightarrow> env_pf \<Rightarrow> mmu_state \<Rightarrow> kvm_mmu \<Rightarrow> tdp_iter \<Rightarrow> kvm_page_fault \<Rightarrow> nat \<Rightarrow> u64 \<Rightarrow> unit option" where
  "fast_loop e c s mmu iter0 fault 0 spte = Some ()"
| "fast_loop e c s mmu iter0 fault (Suc n) spte = do {
     (again, spte) \<leftarrow> fast_try e c s mmu iter0 fault spte;
     if again then fast_loop e c s mmu iter0 fault n spte else Some ()
   }"

definition fast_page_fault :: "mmu_env \<Rightarrow> env_pf \<Rightarrow> mmu_state \<Rightarrow> kvm_mmu \<Rightarrow> tdp_iter \<Rightarrow> kvm_page_fault \<Rightarrow> int option" where
  "fast_page_fault e c s mmu iter0 fault =
     (if \<not> page_fault_can_be_fast (masks e) fault then Some RET_PF_INVALID
      else do {
        _ \<leftarrow> fast_loop e c s mmu iter0 fault 5 0;
        Some RET_PF_INVALID
      })"

section \<open>The host frame\<close>

definition HF_GUEST_MASK :: u32 where "HF_GUEST_MASK = 1"
definition APIC_ACCESS_PAGE_PRIVATE_MEMSLOT :: int where "APIC_ACCESS_PAGE_PRIVATE_MEMSLOT = 32768"

definition is_guest_mode :: "vcpu_slots \<Rightarrow> bool" where "is_guest_mode v \<longleftrightarrow> hflags v AND HF_GUEST_MASK \<noteq> 0"

definition kvm_apicv_activated :: "u64 \<Rightarrow> bool" where
  "kvm_apicv_activated apicv_inhibit_reasons \<longleftrightarrow> apicv_inhibit_reasons = 0"

definition raw_kvm_faultin_pfn :: "kvm \<Rightarrow> u64 \<Rightarrow> vcpu_slots \<Rightarrow> kvm_page_fault \<Rightarrow> (int \<times> kvm_page_fault) option" where
  "raw_kvm_faultin_pfn k inhibit v fault = do {
     flags \<leftarrow> (if pf_slot fault = 0 then Some 0 else map_option slot_flags (slot_load (slots k) (pf_slot fault)));
     if pf_slot fault \<noteq> 0 \<and> flags AND KVM_MEMSLOT_INVALID \<noteq> 0 then Some (RET_PF_RETRY, fault)
     else do {
       visible \<leftarrow> kvm_is_visible_memslot (slots k) (pf_slot fault);
       sid \<leftarrow> (if pf_slot fault = 0 then Some 0 else map_option (\<lambda>sl. uint (slot_id sl)) (slot_load (slots k) (pf_slot fault)));
       if \<not> visible \<and> is_guest_mode v
       then Some (RET_PF_CONTINUE, fault\<lparr>pf_slot := 0, pf_pfn := KVM_PFN_NOSLOT, map_writable := False\<rparr>)
       else if \<not> visible \<and> pf_slot fault \<noteq> 0 \<and> sid = APIC_ACCESS_PAGE_PRIVATE_MEMSLOT \<and> \<not> kvm_apicv_activated inhibit
       then Some (RET_PF_EMULATE, fault)
       else do {
         (pfn, w) \<leftarrow> raw_gfn_to_pfn_memslot (slots k) (pf_slot fault) (pf_gfn fault) (Some (map_writable fault));
         Some (RET_PF_CONTINUE, fault\<lparr>pf_pfn := pfn, map_writable := (case w of None \<Rightarrow> map_writable fault | Some b \<Rightarrow> b)\<rparr>)
       }
     }
   }"

definition kvm_handle_error_pfn :: "kvm_page_fault \<Rightarrow> int" where "kvm_handle_error_pfn fault = RET_PF_RETRY"

definition kvm_handle_noslot_fault :: "kvm_env \<Rightarrow> kvm_page_fault \<Rightarrow> int" where
  "kvm_handle_noslot_fault ke fault = (if kvm_mmu_max_gfn ke < pf_gfn fault then RET_PF_EMULATE else RET_PF_CONTINUE)"

definition kvm_faultin_pfn :: "kvm_env \<Rightarrow> kvm \<Rightarrow> u64 \<Rightarrow> vcpu_slots \<Rightarrow> kvm_page_fault \<Rightarrow> (int \<times> kvm_page_fault) option" where
  "kvm_faultin_pfn ke k inhibit v fault = do {
     (ret, fault) \<leftarrow> raw_kvm_faultin_pfn k inhibit v fault;
     if ret \<noteq> RET_PF_CONTINUE then Some (ret, fault)
     else if is_error_pfn (pf_pfn fault) then Some (kvm_handle_error_pfn fault, fault)
     else if pf_slot fault = 0 then Some (kvm_handle_noslot_fault ke fault, fault)
     else Some (RET_PF_CONTINUE, fault)
   }"

definition direct_page_fault ::
  "mmu_env \<Rightarrow> env_pf \<Rightarrow> kvm_env \<Rightarrow> kvm \<Rightarrow> u64 \<Rightarrow> vcpu_slots \<Rightarrow> mmu_state \<Rightarrow> kvm_mmu \<Rightarrow> tdp_iter \<Rightarrow> kvm_page_fault \<Rightarrow> (int \<times> mmu_state) option" where
  "direct_page_fault e c ke k inhibit v s mmu iter0 fault = do {
     r \<leftarrow> fast_page_fault e c s mmu iter0 fault;
     if r \<noteq> RET_PF_INVALID then Some (r, s)
     else do {
       (r, s) \<leftarrow> mmu_topup_memory_caches e s False;
       if r \<noteq> 0 then Some (r, s)
       else do {
         (r, fault) \<leftarrow> kvm_faultin_pfn ke k inhibit v fault;
         if r \<noteq> RET_PF_CONTINUE then Some (r, s)
         else direct_map e c k s mmu fault
       }
     }
   }"

end
