(* ===== verification/Tdp_Mmu.thy ===== *)
theory Tdp_Mmu
  imports Page_Fault
begin

text \<open>
  The TDP MMU of \<^verbatim>\<open>src/svmx/tdp_mmu.c\<close>: its reference-counted roots, the replacement of entries with
  the bookkeeping for tables that become unreachable, and \<^verbatim>\<open>kvm_tdp_mmu_map\<close>; then the handling of a
  page fault from \<^verbatim>\<open>kvm_mmu_page_fault\<close> of \<^verbatim>\<open>mmu.c\<close> down to it.

  Dereferencing NULL or an unmapped address, a \<^verbatim>\<open>KeBugCheckEx\<close> and a loop that never ends have no result.
\<close>

section \<open>Roots\<close>

definition kvm_mmu_page_as_id :: "kvm_mmu_page \<Rightarrow> nat" where
  "kvm_mmu_page_as_id x = kvm_mmu_role_as_id (sp_role x)"

definition tdp_mmu_alloc_sp :: "mmu_env \<Rightarrow> mmu_state \<Rightarrow> (u64 \<times> mmu_state) option" where
  "tdp_mmu_alloc_sp e s = do {
     (sp, s) \<leftarrow> alloc_header e s;
     (spt, s) \<leftarrow> alloc_spt e s;
     s \<leftarrow> sp_update s sp (\<lambda>x. x\<lparr>sp_spt := spt\<rparr>);
     Some (sp, s)
   }"

definition tdp_mmu_init_sp :: "mmu_state \<Rightarrow> u64 \<Rightarrow> u64 \<Rightarrow> gfn_t \<Rightarrow> kvm_mmu_page_role \<Rightarrow> mmu_state option" where
  "tdp_mmu_init_sp s sp ep gfn role =
     sp_update s sp (\<lambda>x. x\<lparr>sp_role := role, sp_gfn := gfn, ptep := ep, tdp_mmu_page := True\<rparr>)"

definition kvm_tdp_mmu_get_root :: "mmu_state \<Rightarrow> u64 \<Rightarrow> (bool \<times> mmu_state) option" where
  "kvm_tdp_mmu_get_root s root = do {
     x \<leftarrow> sp_load s root;
     if sp_root_count x = 0 then Some (False, s)
     else do {
       s \<leftarrow> sp_update s root (\<lambda>x. x\<lparr>sp_root_count := sp_root_count x + 1\<rparr>);
       Some (True, s)
     }
   }"

text \<open>The search of the list of roots; 0 when there is none to share.\<close>

primrec find_root :: "mmu_state \<Rightarrow> kvm_mmu_page_role \<Rightarrow> u64 list \<Rightarrow> (u64 \<times> mmu_state) option" where
  "find_root s role [] = Some (0, s)"
| "find_root s role (root # rs) = do {
     x \<leftarrow> sp_load s root;
     if kvm_mmu_page_as_id x \<noteq> kvm_mmu_role_as_id role then find_root s role rs
     else if role_word (sp_role x) = role_word role then do {
       (got, s) \<leftarrow> kvm_tdp_mmu_get_root s root;
       if got then Some (root, s) else find_root s role rs
     }
     else find_root s role rs
   }"

definition kvm_tdp_mmu_get_vcpu_root_hpa :: "mmu_env \<Rightarrow> mmu_state \<Rightarrow> kvm_mmu \<Rightarrow> (hpa_t \<times> mmu_state) option" where
  "kvm_tdp_mmu_get_vcpu_root_hpa e s mmu = do {
     let role = root_role mmu;
     (root, s) \<leftarrow> find_root s role (tdp_mmu_roots s);
     if root \<noteq> 0 then Some (v2p e root, s)
     else do {
       (root, s) \<leftarrow> tdp_mmu_alloc_sp e s;
       s \<leftarrow> tdp_mmu_init_sp s root 0 0 role;
       s \<leftarrow> sp_update s root (\<lambda>x. x\<lparr>sp_root_count := 2\<rparr>);
       Some (v2p e root, s\<lparr>tdp_mmu_roots := root # tdp_mmu_roots s\<rparr>)
     }
   }"

definition kvm_tdp_mmu_put_root :: "mmu_state \<Rightarrow> u64 \<Rightarrow> mmu_state option" where
  "kvm_tdp_mmu_put_root s root = do {
     s \<leftarrow> sp_update s root (\<lambda>x. x\<lparr>sp_root_count := sp_root_count x - 1\<rparr>);
     x \<leftarrow> sp_load s root;
     Some (if sp_root_count x \<noteq> 0 then s else s\<lparr>tdp_mmu_roots := removeAll root (tdp_mmu_roots s)\<rparr>)
   }"

section \<open>Replacing entries\<close>

definition kvm_tdp_mmu_write_spte_atomic :: "mmu_state \<Rightarrow> u64 \<Rightarrow> u64 \<Rightarrow> (u64 \<times> mmu_state) option" where
  "kvm_tdp_mmu_write_spte_atomic s ep new_spte = do {
     old \<leftarrow> rd (pt_heap s) ep;
     mem \<leftarrow> wr (pt_heap s) ep new_spte;
     Some (old, s\<lparr>pt_heap := mem\<rparr>)
   }"

definition kvm_tdp_mmu_spte_need_atomic_write :: "shadow_masks \<Rightarrow> u64 \<Rightarrow> nat \<Rightarrow> bool" where
  "kvm_tdp_mmu_spte_need_atomic_write m old level \<longleftrightarrow>
     is_shadow_present_pte old \<and> is_last_spte old level \<and> spte_has_volatile_bits m old"

definition raw_kvm_tdp_mmu_write_spte :: "mmu_state \<Rightarrow> u64 \<Rightarrow> u64 \<Rightarrow> mmu_state option" where
  "raw_kvm_tdp_mmu_write_spte s ep new_spte = do {
     mem \<leftarrow> wr (pt_heap s) ep new_spte;
     Some (s\<lparr>pt_heap := mem\<rparr>)
   }"

definition kvm_tdp_mmu_write_spte :: "shadow_masks \<Rightarrow> mmu_state \<Rightarrow> u64 \<Rightarrow> u64 \<Rightarrow> u64 \<Rightarrow> nat \<Rightarrow> (u64 \<times> mmu_state) option" where
  "kvm_tdp_mmu_write_spte m s ep old new_spte level =
     (if kvm_tdp_mmu_spte_need_atomic_write m old level then kvm_tdp_mmu_write_spte_atomic s ep new_spte
      else do {
        s \<leftarrow> raw_kvm_tdp_mmu_write_spte s ep new_spte;
        Some (old, s)
      })"

text \<open>\<open>n\<close> is added to one of the three counters, by page size.\<close>

definition kvm_update_page_stats :: "mmu_state \<Rightarrow> nat \<Rightarrow> u64 \<Rightarrow> mmu_state option" where
  "kvm_update_page_stats s level n =
     (if 0 < level \<and> level - 1 < length (page_stats s)
      then Some (s\<lparr>page_stats := (page_stats s)[level - 1 := page_stats s ! (level - 1) + n]\<rparr>)
      else None)"

definition kvm_set_pfn_accessed :: "kvm_pfn_t \<Rightarrow> mmu_state \<Rightarrow> mmu_state" where
  "kvm_set_pfn_accessed pfn s = s"

text \<open>
  The exchange of an entry of a removed table for \<^verbatim>\<open>REMOVED_SPTE\<close>: under the shared lock it is
  repeated until the value replaced is another one, which never happens once it has been written.
\<close>

definition remove_entry :: "mmu_state \<Rightarrow> u64 \<Rightarrow> bool \<Rightarrow> (u64 \<times> mmu_state) option" where
  "remove_entry s ep shared =
     (if shared then do {
        (old, s) \<leftarrow> kvm_tdp_mmu_write_spte_atomic s ep REMOVED_SPTE;
        if is_removed_spte old then None else Some (old, s)
      }
      else do {
        old \<leftarrow> rd (pt_heap s) ep;
        Some (old, s)
      })"

text \<open>
  \<^verbatim>\<open>handle_changed_spte\<close> and \<^verbatim>\<open>handle_removed_pt\<close> call each other once per level of the removed
  subtree; the first argument bounds that depth. \<open>i\<close> is the next entry of the table \<open>pt\<close>.
\<close>

function handle_changed_spte :: "nat \<Rightarrow> mmu_env \<Rightarrow> mmu_state \<Rightarrow> u64 \<Rightarrow> u64 \<Rightarrow> nat \<Rightarrow> bool \<Rightarrow> mmu_state option"
and removed_entries :: "nat \<Rightarrow> mmu_env \<Rightarrow> mmu_state \<Rightarrow> u64 \<Rightarrow> nat \<Rightarrow> nat \<Rightarrow> bool \<Rightarrow> mmu_state option" where
  "handle_changed_spte d e s old new_spte level shared = (let
       was_present = is_shadow_present_pte old;
       is_present = is_shadow_present_pte new_spte;
       was_leaf = (was_present \<and> is_last_spte old level);
       is_leaf = (is_present \<and> is_last_spte new_spte level);
       pfn_changed = (spte_to_pfn old \<noteq> spte_to_pfn new_spte) in
     if was_leaf \<and> is_leaf \<and> pfn_changed then None
     else if old = new_spte then Some s
     else if \<not> was_present \<and> \<not> is_present then Some s
     else case (if is_leaf \<noteq> was_leaf then kvm_update_page_stats s level (if is_leaf then 1 else - 1) else Some s) of
       None \<Rightarrow> None
     | Some s \<Rightarrow>
         case (if was_present \<and> \<not> was_leaf \<and> (is_leaf \<or> \<not> is_present \<or> pfn_changed)
               then (case d of 0 \<Rightarrow> None
                     | Suc d \<Rightarrow> (let pt = spte_to_child_pt (p2v e) old level in
                         case Option.bind (sptep_to_sp s pt) (sp_load s) of
                           None \<Rightarrow> None
                         | Some x \<Rightarrow> removed_entries d e s pt 0 (role_level (sp_role x)) shared))
               else Some s) of
           None \<Rightarrow> None
         | Some s \<Rightarrow> Some (if was_leaf \<and> is_accessed_spte (masks e) old \<and>
               (\<not> is_present \<or> \<not> is_accessed_spte (masks e) new_spte \<or> pfn_changed)
             then kvm_set_pfn_accessed (spte_to_pfn old) s else s))"
| "removed_entries d e s pt i level shared =
     (if i < 512
      then case remove_entry s (pt + 8 * of_nat i) shared of
          None \<Rightarrow> None
        | Some (old, s) \<Rightarrow>
            (case handle_changed_spte d e s old REMOVED_SPTE level shared of
               None \<Rightarrow> None
             | Some s \<Rightarrow> removed_entries d e s pt (Suc i) level shared)
      else Some s)"
  by pat_completeness auto
termination
  by (relation "measures [\<lambda>x. case x of Inl (d, _) \<Rightarrow> d | Inr (d, _) \<Rightarrow> d,
    \<lambda>x. case x of Inl _ \<Rightarrow> 0 | Inr (_, _, _, _, i, _) \<Rightarrow> 513 - i]") auto

declare handle_changed_spte.simps [simp del] removed_entries.simps [simp del]

definition handle_removed_pt :: "nat \<Rightarrow> mmu_env \<Rightarrow> mmu_state \<Rightarrow> u64 \<Rightarrow> bool \<Rightarrow> mmu_state option" where
  "handle_removed_pt d e s pt shared = do {
     sp \<leftarrow> sptep_to_sp s pt;
     x \<leftarrow> sp_load s sp;
     removed_entries d e s pt 0 (role_level (sp_role x)) shared
   }"

text \<open>The deepest paging structure has five levels.\<close>

abbreviation max_depth :: nat where "max_depth \<equiv> 5"

definition tdp_mmu_set_spte_atomic :: "mmu_env \<Rightarrow> mmu_state \<Rightarrow> tdp_iter \<Rightarrow> u64 \<Rightarrow> (int \<times> mmu_state) option" where
  "tdp_mmu_set_spte_atomic e s iter new_spte = do {
     cur \<leftarrow> rd (pt_heap s) (sptep iter);
     mem \<leftarrow> (if cur = old_spte iter then wr (pt_heap s) (sptep iter) new_spte else Some (pt_heap s));
     s \<leftarrow> handle_changed_spte max_depth e (s\<lparr>pt_heap := mem\<rparr>) (old_spte iter) new_spte (it_level iter) True;
     Some (0, s)
   }"

definition tdp_mmu_set_spte :: "mmu_env \<Rightarrow> mmu_state \<Rightarrow> u64 \<Rightarrow> u64 \<Rightarrow> u64 \<Rightarrow> nat \<Rightarrow> (u64 \<times> mmu_state) option" where
  "tdp_mmu_set_spte e s ep old new_spte level = do {
     (old, s) \<leftarrow> kvm_tdp_mmu_write_spte (masks e) s ep old new_spte level;
     s \<leftarrow> handle_changed_spte max_depth e s old new_spte level False;
     Some (old, s)
   }"

definition tdp_mmu_iter_set_spte :: "mmu_env \<Rightarrow> mmu_state \<Rightarrow> tdp_iter \<Rightarrow> u64 \<Rightarrow> (tdp_iter \<times> mmu_state) option" where
  "tdp_mmu_iter_set_spte e s iter new_spte = do {
     (old, s) \<leftarrow> tdp_mmu_set_spte e s (sptep iter) (old_spte iter) new_spte (it_level iter);
     Some (iter\<lparr>old_spte := old\<rparr>, s)
   }"

definition tdp_account_mmu_page :: "mmu_state \<Rightarrow> mmu_state" where
  "tdp_account_mmu_page s = s\<lparr>tdp_mmu_pages := tdp_mmu_pages s + 1\<rparr>"

definition tdp_mmu_link_sp :: "mmu_env \<Rightarrow> mmu_state \<Rightarrow> tdp_iter \<Rightarrow> u64 \<Rightarrow> bool \<Rightarrow> (int \<times> tdp_iter \<times> mmu_state) option" where
  "tdp_mmu_link_sp e s iter sp shared = do {
     x \<leftarrow> sp_load s sp;
     let spte = make_nonleaf_spte (masks e) (v2p e (sp_spt x)) (\<not> kvm_ad_enabled (masks e));
     (iter, s) \<leftarrow> (if shared then do {
         (ret, s) \<leftarrow> tdp_mmu_set_spte_atomic e s iter spte;
         Some (iter, s)
       }
       else tdp_mmu_iter_set_spte e s iter spte);
     Some (0, iter, tdp_account_mmu_page s)
   }"

definition tdp_mmu_split_huge_page :: "mmu_env \<Rightarrow> mmu_state \<Rightarrow> tdp_iter \<Rightarrow> u64 \<Rightarrow> bool \<Rightarrow> (int \<times> tdp_iter \<times> mmu_state) option" where
  "tdp_mmu_split_huge_page e s iter sp shared = tdp_mmu_link_sp e s iter sp shared"

section \<open>Mapping\<close>

definition tdp_mmu_map_handle_target_level ::
  "mmu_env \<Rightarrow> env_pf \<Rightarrow> u64 \<Rightarrow> mmu_state \<Rightarrow> kvm_page_fault \<Rightarrow> tdp_iter \<Rightarrow> int option" where
  "tdp_mmu_map_handle_target_level e c gen s fault iter = do {
     sp \<leftarrow> sptep_to_sp s (sptep iter);
     x \<leftarrow> sp_load s sp;
     if role_level (sp_role x) \<noteq> goal_level fault then Some RET_PF_RETRY
     else do {
       let (wrprot, new_spte) = (if pf_slot fault = 0 then (False, make_mmio_spte (masks e) gen (it_gfn iter) ACC_ALL)
         else make_spte (masks e) (dirty_log_size c) (nx_huge c) (sp_role x) ACC_ALL (pf_pfn fault) (pf_prefetch fault) (map_writable fault));
       Some RET_PF_FIXED
     }
   }"

definition tdp_mmu_init_child_sp :: "mmu_state \<Rightarrow> u64 \<Rightarrow> tdp_iter \<Rightarrow> mmu_state option" where
  "tdp_mmu_init_child_sp s child_sp iter = do {
     parent_sp \<leftarrow> sptep_to_sp s (sptep iter);
     x \<leftarrow> sp_load s parent_sp;
     let role = (sp_role x)\<lparr>role_level := (role_level (sp_role x) + 15) mod 16\<rparr>;
     tdp_mmu_init_sp s child_sp (sptep iter) (it_gfn iter) role
   }"

definition tdp_mmu_free_sp :: "mmu_state \<Rightarrow> u64 \<Rightarrow> mmu_state option" where
  "tdp_mmu_free_sp s sp = do {
     x \<leftarrow> sp_load s sp;
     Some (s\<lparr>pt_heap := (\<lambda>a. if a - sp_spt x < PAGE_SIZE then None else pt_heap s a), sp_heap := (sp_heap s)(sp := None)\<rparr>)
   }"

text \<open>The loop over the entries that lead to the frame.\<close>

partial_function (option) tdp_map_loop ::
  "mmu_env \<Rightarrow> env_pf \<Rightarrow> u64 \<Rightarrow> mmu_state \<Rightarrow> kvm_page_fault \<Rightarrow> gfn_t \<Rightarrow> tdp_iter \<Rightarrow> (int \<times> mmu_state) option" where
  "tdp_map_loop e c gen s fault end_gfn iter =
     (if it_valid iter \<and> it_gfn iter < end_gfn
      then do {
        fault \<leftarrow> (if nx_huge_page_workaround_enabled fault
                  then disallowed_hugepage_adjust e s fault (old_spte iter) (it_level iter) else Some fault);
        if is_removed_spte (old_spte iter) then Some (RET_PF_RETRY, s)
        else if it_level iter = goal_level fault then do {
          r \<leftarrow> tdp_mmu_map_handle_target_level e c gen s fault iter;
          Some (r, s)
        }
        else if is_shadow_present_pte (old_spte iter) \<and> \<not> is_large_pte (old_spte iter) then do {
          iter \<leftarrow> tdp_iter_next (p2v e) (pt_heap s) iter;
          tdp_map_loop e c gen s fault end_gfn iter
        }
        else do {
          (sp, s) \<leftarrow> tdp_mmu_alloc_sp e s;
          s \<leftarrow> tdp_mmu_init_child_sp s sp iter;
          s \<leftarrow> sp_update s sp (\<lambda>x. x\<lparr>nx_huge_page_disallowed := huge_page_disallowed fault\<rparr>);
          (r, iter, s) \<leftarrow> (if is_shadow_present_pte (old_spte iter) then tdp_mmu_split_huge_page e s iter sp True
                           else tdp_mmu_link_sp e s iter sp True);
          if r \<noteq> 0 then do {
            s \<leftarrow> tdp_mmu_free_sp s sp;
            Some (RET_PF_RETRY, s)
          }
          else do {
            iter \<leftarrow> tdp_iter_next (p2v e) (pt_heap s) iter;
            tdp_map_loop e c gen s fault end_gfn iter
          }
        }
      }
      else Some (RET_PF_RETRY, s))"

definition kvm_tdp_mmu_map ::
  "mmu_env \<Rightarrow> env_pf \<Rightarrow> kvm \<Rightarrow> mmu_state \<Rightarrow> kvm_mmu \<Rightarrow> tdp_iter \<Rightarrow> kvm_page_fault \<Rightarrow> (int \<times> mmu_state) option" where
  "kvm_tdp_mmu_map e c k s mmu iter0 fault = do {
     fault \<leftarrow> kvm_mmu_hugepage_adjust k (max_huge_page_level c) fault;
     root \<leftarrow> kvm_tdp_root e s mmu;
     iter \<leftarrow> tdp_iter_start (pt_heap s) iter0 (sp_role root) (sp_spt root) 1 (pf_gfn fault);
     tdp_map_loop e c (vm_generation k) s fault (pf_gfn fault + 1) iter
   }"

section \<open>From the fault to the map\<close>

text \<open>
  What a vCPU contributes: its slot cache and flags, the cached MMIO translation, whether its walk MMU
  is the nested one, whether \<^verbatim>\<open>mmu->page_fault\<close> is \<^verbatim>\<open>kvm_tdp_page_fault\<close> (the only other value is
  NULL), and the count of faults taken.
\<close>

record vcpu_fault =
  vslots :: vcpu_slots
  mmio_gva :: u64
  mmio_gfn :: gfn_t
  mmio_gen :: u64
  walk_nested :: bool
  page_fault_tdp :: bool
  pf_taken :: u64

definition PFERR_PRESENT_MASK :: u32 where "PFERR_PRESENT_MASK = 1"
definition PFERR_WRITE_MASK :: u32 where "PFERR_WRITE_MASK = 2"
definition PFERR_RSVD_MASK :: u32 where "PFERR_RSVD_MASK = 8"
definition PFERR_FETCH_MASK :: u32 where "PFERR_FETCH_MASK = 16"
definition INVALID_PAGE :: u64 where "INVALID_PAGE = - 1"

definition page_fault_handle_page_track :: "kvm_page_fault \<Rightarrow> bool" where
  "page_fault_handle_page_track fault =
     (if pf_rsvd fault then False
      else if \<not> pf_present fault \<or> \<not> pf_write fault then False
      else False)"

definition is_obsolete_sp :: "mmu_state \<Rightarrow> kvm_mmu_page \<Rightarrow> bool" where
  "is_obsolete_sp s x \<longleftrightarrow> role_invalid (sp_role x) \<or> \<not> tdp_mmu_page x \<and> sp_mmu_valid_gen x \<noteq> mmu_valid_gen s"

definition mmu_invalidate_retry_hva :: "kvm_page_fault \<Rightarrow> int" where "mmu_invalidate_retry_hva fault = 0"

definition is_page_fault_stale :: "mmu_env \<Rightarrow> mmu_state \<Rightarrow> kvm_mmu \<Rightarrow> kvm_page_fault \<Rightarrow> bool option" where
  "is_page_fault_stale e s mmu fault = do {
     let sp = p2v e (root_hpa mmu);
     obsolete \<leftarrow> (if sp = 0 then Some False else map_option (is_obsolete_sp s) (sp_load s sp));
     Some (obsolete \<or> pf_slot fault \<noteq> 0 \<and> mmu_invalidate_retry_hva fault \<noteq> 0)
   }"

definition kvm_tdp_mmu_page_fault ::
  "mmu_env \<Rightarrow> env_pf \<Rightarrow> kvm_env \<Rightarrow> kvm \<Rightarrow> u64 \<Rightarrow> vcpu_slots \<Rightarrow> mmu_state \<Rightarrow> kvm_mmu \<Rightarrow> tdp_iter \<Rightarrow> kvm_page_fault \<Rightarrow> (int \<times> mmu_state) option" where
  "kvm_tdp_mmu_page_fault e c ke k inhibit v s mmu iter0 fault =
     (if page_fault_handle_page_track fault then Some (RET_PF_EMULATE, s)
      else do {
        r \<leftarrow> fast_page_fault e c s mmu iter0 fault;
        if r \<noteq> RET_PF_INVALID then Some (r, s)
        else do {
          (r, s) \<leftarrow> mmu_topup_memory_caches e s False;
          if r \<noteq> 0 then Some (r, s)
          else do {
            (r, fault) \<leftarrow> kvm_faultin_pfn ke k inhibit v fault;
            if r \<noteq> RET_PF_CONTINUE then Some (r, s)
            else do {
              stale \<leftarrow> is_page_fault_stale e s mmu fault;
              if stale then Some (RET_PF_RETRY, s)
              else kvm_tdp_mmu_map e c k s mmu iter0 fault
            }
          }
        }
      })"

definition kvm_tdp_page_fault ::
  "mmu_env \<Rightarrow> env_pf \<Rightarrow> kvm_env \<Rightarrow> kvm \<Rightarrow> u64 \<Rightarrow> vcpu_slots \<Rightarrow> mmu_state \<Rightarrow> kvm_mmu \<Rightarrow> tdp_iter \<Rightarrow> kvm_page_fault \<Rightarrow> (int \<times> mmu_state) option" where
  "kvm_tdp_page_fault e c ke k inhibit v s mmu iter0 fault =
     (if tdp_mmu_on c then kvm_tdp_mmu_page_fault e c ke k inhibit v s mmu iter0 fault
      else direct_page_fault e c ke k inhibit v s mmu iter0 fault)"

definition new_fault :: "env_pf \<Rightarrow> gpa_t \<Rightarrow> u32 \<Rightarrow> bool \<Rightarrow> kvm_page_fault" where
  "new_fault c addr err prefetch =
     \<lparr>pf_addr = addr, pf_prefetch = prefetch, pf_exec = (err AND PFERR_FETCH_MASK \<noteq> 0), pf_write = (err AND PFERR_WRITE_MASK \<noteq> 0),
      pf_present = (err AND PFERR_PRESENT_MASK \<noteq> 0), pf_rsvd = (err AND PFERR_RSVD_MASK \<noteq> 0),
      nx_huge_page_workaround_enabled = nx_huge c, huge_page_disallowed = False, max_level = 3, req_level = 1, goal_level = 1,
      pf_gfn = 0, pf_slot = 0, pf_pfn = 0, map_writable = False\<rparr>"

definition kvm_mmu_do_page_fault ::
  "mmu_env \<Rightarrow> env_pf \<Rightarrow> kvm_env \<Rightarrow> kvm \<Rightarrow> u64 \<Rightarrow> vcpu_fault \<Rightarrow> mmu_state \<Rightarrow> kvm_mmu \<Rightarrow> tdp_iter \<Rightarrow> gpa_t \<Rightarrow> u32 \<Rightarrow> bool \<Rightarrow>
     (int \<times> vcpu_fault \<times> mmu_state) option" where
  "kvm_mmu_do_page_fault e c ke k inhibit v s mmu iter0 addr err prefetch = do {
     let fault = new_fault c addr err prefetch;
     (fault, v) \<leftarrow> (if role_direct (root_role mmu) then do {
         let gfn = drop_bit PAGE_SHIFT (pf_addr fault);
         (sl, vs) \<leftarrow> kvm_vcpu_gfn_to_memslot k (vslots v) gfn;
         Some (fault\<lparr>pf_gfn := gfn, pf_slot := sl\<rparr>, v\<lparr>vslots := vs\<rparr>)
       }
       else Some (fault, v));
     let v = (if prefetch then v else v\<lparr>pf_taken := pf_taken v + 1\<rparr>);
     if page_fault_tdp v then do {
       (r, s) \<leftarrow> kvm_tdp_page_fault e c ke k inhibit (vslots v) s mmu iter0 fault;
       Some (r, v, s)
     }
     else None
   }"

definition vcpu_match_mmio_gen :: "kvm \<Rightarrow> vcpu_fault \<Rightarrow> bool" where
  "vcpu_match_mmio_gen k v \<longleftrightarrow> mmio_gen v = vm_generation k"

definition vcpu_match_mmio_gva :: "kvm \<Rightarrow> vcpu_fault \<Rightarrow> u64 \<Rightarrow> bool" where
  "vcpu_match_mmio_gva k v gva \<longleftrightarrow> vcpu_match_mmio_gen k v \<and> mmio_gva v \<noteq> 0 \<and> mmio_gva v = gva AND NOT (PAGE_SIZE - 1)"

definition vcpu_match_mmio_gpa :: "kvm \<Rightarrow> vcpu_fault \<Rightarrow> gpa_t \<Rightarrow> bool" where
  "vcpu_match_mmio_gpa k v gpa \<longleftrightarrow> vcpu_match_mmio_gen k v \<and> mmio_gfn v \<noteq> 0 \<and> mmio_gfn v = drop_bit PAGE_SHIFT gpa"

definition mmio_info_in_cache :: "kvm \<Rightarrow> vcpu_fault \<Rightarrow> u64 \<Rightarrow> bool \<Rightarrow> bool" where
  "mmio_info_in_cache k v addr direct =
     (if walk_nested v then False
      else if direct then vcpu_match_mmio_gpa k v addr
      else vcpu_match_mmio_gva k v addr)"

text \<open>Both walks are stubs that report no level, so that the reserved bits are never looked at.\<close>

definition kvm_tdp_mmu_get_walk :: "u64 \<Rightarrow> int" where "kvm_tdp_mmu_get_walk addr = - 1"
definition get_walk :: "u64 \<Rightarrow> int" where "get_walk addr = - 1"

definition is_tdp_mmu_active :: "env_pf \<Rightarrow> kvm_mmu \<Rightarrow> bool" where
  "is_tdp_mmu_active c mmu \<longleftrightarrow> tdp_mmu_on c \<and> role_direct (root_role mmu)"

text \<open>The result is the reserved flag and \<^verbatim>\<open>*sptep\<close>; the entries collected when there is a leaf are not modelled.\<close>

definition get_mmio_spte :: "env_pf \<Rightarrow> kvm_mmu \<Rightarrow> u64 \<Rightarrow> (bool \<times> u64) option" where
  "get_mmio_spte c mmu addr = (let
       leaf = (if is_tdp_mmu_active c mmu then kvm_tdp_mmu_get_walk addr else get_walk addr) in
     if leaf < 0 then Some (False, 0) else None)"

definition handle_mmio_page_fault :: "env_pf \<Rightarrow> kvm \<Rightarrow> vcpu_fault \<Rightarrow> kvm_mmu \<Rightarrow> u64 \<Rightarrow> bool \<Rightarrow> int option" where
  "handle_mmio_page_fault c k v mmu addr direct =
     (if mmio_info_in_cache k v addr direct then Some RET_PF_EMULATE
      else do {
        (reserved, spte) \<leftarrow> get_mmio_spte c mmu addr;
        Some RET_PF_RETRY
      })"

definition x86_emulate_instruction :: "gpa_t \<Rightarrow> int" where "x86_emulate_instruction gpa = 0"

definition kvm_mmu_page_fault ::
  "mmu_env \<Rightarrow> env_pf \<Rightarrow> kvm_env \<Rightarrow> kvm \<Rightarrow> u64 \<Rightarrow> vcpu_fault \<Rightarrow> mmu_state \<Rightarrow> kvm_mmu \<Rightarrow> tdp_iter \<Rightarrow> gpa_t \<Rightarrow> u64 \<Rightarrow>
     (int \<times> vcpu_fault \<times> mmu_state) option" where
  "kvm_mmu_page_fault e c ke k inhibit v s mmu iter0 gpa error_code =
     (if root_hpa mmu = INVALID_PAGE then Some (RET_PF_RETRY, v, s)
      else do {
        r \<leftarrow> (if error_code AND ucast PFERR_RSVD_MASK \<noteq> 0
              then handle_mmio_page_fault c k v mmu gpa (role_direct (root_role mmu)) else Some RET_PF_INVALID);
        if r = RET_PF_EMULATE then Some (x86_emulate_instruction gpa, v, s)
        else do {
          (r, v, s) \<leftarrow> (if r = RET_PF_INVALID
            then kvm_mmu_do_page_fault e c ke k inhibit v s mmu iter0 gpa (ucast error_code) False else Some (r, v, s));
          if r < 0 then Some (r, v, s)
          else if r \<noteq> RET_PF_EMULATE then Some (1, v, s)
          else Some (x86_emulate_instruction gpa, v, s)
        }
      })"

end
