(* ===== verification/Page_Fault_Props.thy ===== *)
theory Page_Fault_Props
  imports Page_Fault
begin

text \<open>
  What the shadow walk finds, which pages the page lookup knows, which page size is chosen, and what
  becomes of a fault outside the memory slots.
\<close>

section \<open>The shadow walk\<close>

lemma index_of_frame: "0 < l \<Longrightarrow> SPTE_INDEX addr l = SPTE_INDEX (push_bit PAGE_SHIFT (drop_bit PAGE_SHIFT addr)) l"
proof -
  assume "0 < l"
  then have "drop_bit (PT_LEVEL_SHIFT l) addr = drop_bit (PT_LEVEL_SHIFT l) (push_bit PAGE_SHIFT (drop_bit PAGE_SHIFT addr))"
    by (intro bit_eqI) (auto simp: bit_drop_bit_eq bit_push_bit_iff PT_LEVEL_SHIFT_def add.assoc dest: bit_imp_le_length)
  then show ?thesis by (simp add: SPTE_INDEX_def)
qed

lemma index_u32: "ucast (ucast (SPTE_INDEX addr l) :: u32) = SPTE_INDEX addr l"
proof -
  have m: "SPTE_INDEX addr l = SPTE_INDEX addr l AND mask 9"
    by (simp add: SPTE_INDEX_def and.assoc mask_eq_exp_minus_1)
  show ?thesis by (subst m, subst (2) m) (rule bit_eqI, auto simp: bit_and_iff bit_mask_iff bit_unsigned_iff)
qed

lemma base_addr_pfn: "push_bit PAGE_SHIFT (spte_to_pfn v) = v AND SPTE_BASE_ADDR_MASK"
  by (intro bit_eqI) (auto simp: spte_to_pfn_def bit_push_bit_iff bit_drop_bit_eq bit_and_iff bit_base_addr)

lemma last_entry_descent:
  assumes "\<And>a. p2v e a \<noteq> 0" and "w_level it = Suc l" and "p2v e (shadow_addr it) = pt"
  shows "last_entry_loop e s it acc = map_option snd (tdp_leaf (p2v e) (pt_heap s) (Suc l) pt (drop_bit PAGE_SHIFT (w_addr it)))"
  using assms(2,3)
proof (induction l arbitrary: it pt acc)
  case 0
  let ?i = "SPTE_INDEX (push_bit PAGE_SHIFT (drop_bit PAGE_SHIFT (w_addr it))) (Suc 0)"
  show ?case
    using 0 index_of_frame [of "Suc 0" "w_addr it"]
    by (subst last_entry_loop.simps)
      (auto simp: shadow_walk_okay_def index_u32 rd_def Let_def raw_shadow_walk_next_def is_last_spte_def last_entry_loop.simps split: option.split)
next
  case (Suc l)
  have ix: "SPTE_INDEX (w_addr it) (Suc (Suc l)) = idx (drop_bit PAGE_SHIFT (w_addr it)) (Suc (Suc l))"
    by (rule index_of_frame) simp
  let ?p = "pt + 8 * idx (drop_bit PAGE_SHIFT (w_addr it)) (Suc (Suc l))"
  show ?case
  proof (cases "pt_heap s ?p")
    case None
    then show ?thesis
      using Suc.prems ix by (subst last_entry_loop.simps) (simp add: shadow_walk_okay_def index_u32 rd_def Let_def)
  next
    case (Some v)
    define it' where "it' = snd (shadow_walk_okay e it)"
    have it': "w_level it' = Suc (Suc l)" "w_addr it' = w_addr it" "w_sptep it' = ?p"
      using Suc.prems ix by (simp_all add: it'_def shadow_walk_okay_def index_u32 Let_def)
    have step: "last_entry_loop e s it acc = last_entry_loop e s (raw_shadow_walk_next it' v) (?p, v)"
      using Suc.prems(1) it'(3) Some by (subst last_entry_loop.simps) (simp add: it'_def [symmetric] rd_def)
    show ?thesis
    proof (cases "is_shadow_present_pte v \<and> \<not> is_last_spte v (Suc (Suc l))")
      case True
      have c: "spte_to_child_pt (p2v e) v (Suc (Suc l)) = p2v e (v AND SPTE_BASE_ADDR_MASK)"
        using True by (simp add: spte_to_child_pt_def base_addr_pfn)
      have n: "w_level (raw_shadow_walk_next it' v) = Suc l" "shadow_addr (raw_shadow_walk_next it' v) = v AND SPTE_BASE_ADDR_MASK"
        "w_addr (raw_shadow_walk_next it' v) = w_addr it"
        using True it' by (simp_all add: raw_shadow_walk_next_def)
      show ?thesis
        using Suc.IH [OF n(1) refl] assms(1) Some by (simp add: step n c Let_def)
    next
      case False
      then have "spte_to_child_pt (p2v e) v (Suc (Suc l)) = 0" by (auto simp: spte_to_child_pt_def)
      moreover have "w_level (raw_shadow_walk_next it' v) = 0" using False it'(1) by (auto simp: raw_shadow_walk_next_def)
      then have "last_entry_loop e s (raw_shadow_walk_next it' v) (?p, v) = Some (?p, v)" by (subst last_entry_loop.simps) simp
      ultimately show ?thesis using Some by (simp add: step Let_def)
    qed
  qed
qed

text \<open>
  C24: on a direct MMU the shadow walk for an address, at any number of levels other than three,
  returns exactly the address and value of the entry that a direct descent through the tables
  reaches, and faults exactly when that descent leaves mapped memory.
\<close>

theorem shadow_walk_is_descent:
  assumes "role_direct (root_role mmu)" and "role_level (root_role mmu) = Suc l" and "Suc l \<noteq> 3" and "\<And>a. p2v e a \<noteq> 0"
  shows "fast_pf_get_last_sptep e s mmu gpa spte0 =
    map_option snd (tdp_leaf (p2v e) (pt_heap s) (Suc l) (p2v e (root_hpa mmu)) (drop_bit PAGE_SHIFT gpa))"
proof -
  let ?it = "\<lparr>w_addr = gpa, shadow_addr = root_hpa mmu, w_sptep = 0, w_level = Suc l, w_index = 0\<rparr>"
  have "shadow_walk_init e s mmu gpa = Some ?it"
    using assms(1-3) by (simp add: shadow_walk_init_def shadow_walk_init_using_root_def)
  then show ?thesis
    using last_entry_descent [of e ?it l "p2v e (root_hpa mmu)" s "(0, spte0)", OF assms(4)] by (simp add: fast_pf_get_last_sptep_def)
qed

definition demo_mmu :: kvm_mmu where
  "demo_mmu = \<lparr>root_hpa = 0x1000, root_pgd = 0, root_role = zero_role\<lparr>role_level := 4, role_direct := True\<rparr>,
     cpu_role_base = zero_role, pae_root = 0, pml4_root = 0, pml5_root = 0\<rparr>"

definition demo_menv :: mmu_env where
  "demo_menv = \<lparr>mmu_pool = (\<lambda>n. 0x100000 + 4096 * of_nat n), p2v = (\<lambda>a. if a = 0 then 0x9000 else a), v2p = id,
     junk_word = 0, masks = demo_masks, g_Table_addr = 0x500\<rparr>"

theorem shadow_walk_is_descent_witness:
  "fast_pf_get_last_sptep demo_menv (fresh_state\<lparr>pt_heap := (\<lambda>_. Some 0)\<rparr>) demo_mmu 0x5123 0 = Some (0x1000, 0)"
proof -
  have "p2v demo_menv a \<noteq> 0" for a by (simp add: demo_menv_def)
  moreover have "tdp_leaf f (\<lambda>_. Some 0) (Suc 3) 0x1000 5 = Some (Suc 3, 0x1000, 0)" for f
    by (subst tdp_leaf.simps(2))
      (simp add: spte_to_child_pt_def is_shadow_present_pte_def SPTE_INDEX_def PT_LEVEL_SHIFT_def Let_def del: tdp_leaf.simps)
  ultimately show ?thesis
    using shadow_walk_is_descent [of demo_mmu 3 demo_menv "fresh_state\<lparr>pt_heap := (\<lambda>_. Some 0)\<rparr>" "0x5123" 0]
    by (simp add: demo_mmu_def demo_menv_def del: tdp_leaf.simps)
qed

section \<open>The page of an entry\<close>

text \<open>The hash of an address as a polynomial in its bytes.\<close>

abbreviation byte_of :: "u64 \<Rightarrow> nat \<Rightarrow> u64" where
  "byte_of w i \<equiv> take_bit 8 (drop_bit (8 * i) w)"

lemma HashUlongPtr_bytes:
  "HashUlongPtr w = byte_of w 7 + 37 * (byte_of w 6 + 37 * (byte_of w 5 + 37 * (byte_of w 4 + 37 * (byte_of w 3 + 37 *
     (byte_of w 2 + 37 * (byte_of w 1 + 37 * (byte_of w 0 + 37 * 314159)))))))"
proof -
  have u: "(ucast (ucast (v :: u64) :: u8) :: u64) = take_bit 8 v" for v
    by (rule bit_eqI) (auto simp: bit_unsigned_iff bit_take_bit_iff)
  have l: "le_bytes 8 w = [ucast w, ucast (drop_bit 8 w), ucast (drop_bit 16 w), ucast (drop_bit 24 w), ucast (drop_bit 32 w),
      ucast (drop_bit 40 w), ucast (drop_bit 48 w), ucast (drop_bit 56 w)]"
    by (simp add: le_bytes_def upt_rec)
  show ?thesis unfolding HashUlongPtr_def HashBytes_def HashBytesEx_def HashBytesGeneric_def l by (simp add: u)
qed

lemma entry_offset_bytes:
  assumes "spt AND mask 12 = 0" and "i < 512"
  shows "byte_of (spt + 8 * of_nat i) 0 = of_nat (8 * i mod 256)"
    and "byte_of (spt + 8 * of_nat i) 1 = byte_of spt 1 + of_nat (i div 32)"
    and "2 \<le> j \<Longrightarrow> byte_of (spt + 8 * of_nat i) j = byte_of spt j"
proof -
  let ?d = "of_nat (8 * i) :: u64"
  have lo: "\<not> bit spt n" if "n < 12" for n
    using arg_cong [OF assms(1), of "\<lambda>w. bit w n"] that by (simp add: bit_and_iff bit_mask_iff)
  have d: "unat ?d = 8 * i" using assms(2) by (simp add: unat_of_nat del: of_nat_mult)
  then have hi: "\<not> bit ?d n" if "12 \<le> n" for n
    using that assms(2) bit_above_less [of ?d 12 n] by (simp add: word_less_nat_alt)
  have "spt AND ?d = 0" by (rule bit_eqI) (metis bit_and_iff bit_0_eq bot_apply bot_bool_def hi lo not_less)
  then have sum: "spt + 8 * of_nat i = spt OR ?d" using add_eq_or [of spt ?d] by simp
  have ut: "unat (take_bit 8 w) = take_bit 8 (unat w)" for w :: u64 by (rule unsigned_take_bit_eq)
  have nat: "w = of_nat n" if "unat w = n" for w :: u64 and n using that by auto
  have "byte_of (spt OR ?d) 0 = take_bit 8 ?d"
    by (rule bit_eqI) (auto simp: bit_take_bit_iff bit_or_iff lo)
  moreover have "unat (take_bit 8 ?d) = 8 * i mod 256" unfolding ut d by (simp add: take_bit_eq_mod)
  ultimately show "byte_of (spt + 8 * of_nat i) 0 = of_nat (8 * i mod 256)" unfolding sum using nat by metis
  have "byte_of (spt OR ?d) 1 = byte_of spt 1 OR take_bit 8 (drop_bit 8 ?d)"
    by (rule bit_eqI) (auto simp: bit_take_bit_iff bit_or_iff bit_drop_bit_eq)
  moreover have "byte_of spt 1 AND take_bit 8 (drop_bit 8 ?d) = 0"
  proof (rule bit_eqI)
    fix n
    show "bit (byte_of spt 1 AND take_bit 8 (drop_bit 8 ?d)) n = bit 0 n"
      using lo [of "8 + n"] hi [of "8 + n"] by (cases "n < 4") (auto simp: bit_and_iff bit_take_bit_iff bit_drop_bit_eq)
  qed
  moreover have "unat (take_bit 8 (drop_bit 8 ?d)) = i div 32"
    unfolding ut unat_drop_bit_div d using assms(2) by (simp add: take_bit_eq_mod)
  ultimately show "byte_of (spt + 8 * of_nat i) 1 = byte_of spt 1 + of_nat (i div 32)"
    unfolding sum using add_eq_or nat by metis
  show "byte_of (spt + 8 * of_nat i) j = byte_of spt j" if "2 \<le> j"
    unfolding sum using that hi by (intro bit_eqI) (auto simp: bit_take_bit_iff bit_or_iff bit_drop_bit_eq)
qed

lemma cancel_37:
  assumes "37 ^ 6 * (x :: u64) = 0"
  shows "x = 0"
proof -
  have "0x9638862262643979 * 37 ^ 6 = (1 :: u64)" by simp
  then have "x = (0x9638862262643979 * 37 ^ 6) * x" by (metis mult_1)
  also have "\<dots> = 0x9638862262643979 * (37 ^ 6 * x)" by (rule mult.assoc)
  finally show ?thesis unfolding assms by simp
qed

lemma hash_of_other_entry:
  assumes "spt AND mask 12 = 0" and "0 < i" and "i < 512"
  shows "HashUlongPtr (spt + 8 * of_nat i) \<noteq> HashUlongPtr spt"
proof
  assume eq: "HashUlongPtr (spt + 8 * of_nat i) = HashUlongPtr spt"
  let ?t = "37 * (8 * i mod 256) + i div 32"
  have b0: "byte_of spt 0 = 0" using entry_offset_bytes(1) [OF assms(1), of 0] by simp
  note b = entry_offset_bytes [OF assms(1,3)]
  have h: "byte_of (spt + 8 * of_nat i) 2 = byte_of spt 2" "byte_of (spt + 8 * of_nat i) 3 = byte_of spt 3"
    "byte_of (spt + 8 * of_nat i) 4 = byte_of spt 4" "byte_of (spt + 8 * of_nat i) 5 = byte_of spt 5"
    "byte_of (spt + 8 * of_nat i) 6 = byte_of spt 6" "byte_of (spt + 8 * of_nat i) 7 = byte_of spt 7"
    by (intro b(3); simp)+
  have "HashUlongPtr (spt + 8 * of_nat i) = HashUlongPtr spt + 37 ^ 6 * of_nat ?t"
    unfolding HashUlongPtr_bytes b(1,2) b0 h by (simp add: algebra_simps)
  then have "37 ^ 6 * (of_nat ?t :: u64) = 0" using eq by simp
  then have "(of_nat ?t :: u64) = 0" by (rule cancel_37)
  moreover have "unat (of_nat ?t :: u64) = ?t" using assms(3) by (subst unat_of_nat) simp
  ultimately show False using assms(2,3) by auto
qed

lemma register_spt_correct:
  assumes repr: "ht_repr (pt_heap s) self (g_Table s) A" and km: "key_mask (g_Table s) = - 1"
    and info: "ht_fresh (pt_heap s) (g_Table s) A (info + 8)" "pt_heap s info \<noteq> None" "info \<notin> set (ht_cells (g_Table s) (map snd A))"
  shows "\<exists>s'. register_spt s info sp spt = Some s' \<and> key_mask (g_Table s') = - 1 \<and> pt_heap s' info = Some sp \<and>
    ht_repr (pt_heap s') self (g_Table s') ((HashUlongPtr spt, info + 8) # A)"
proof -
  define m where "m = (pt_heap s)(info \<mapsto> sp, info + 16 \<mapsto> HashUlongPtr spt)"
  let ?H = "g_Table s"
  have f: "pt_heap s (info + 8) \<noteq> None" "pt_heap s (info + 8 + 8) \<noteq> None" using info(1) by (auto simp: ht_fresh_def)
  have i16: "info + 16 = info + 8 + 8" by simp
  have f16: "pt_heap s (info + 16) \<noteq> None" using f(2) unfolding i16 .
  have off: "info + 16 \<notin> set (ht_cells ?H (map snd A))" using info(1) unfolding i16 by (simp add: ht_fresh_def)
  have same: "m x = pt_heap s x" if "x \<in> set (ht_cells ?H (map snd A))" for x
    using that info(3) off by (auto simp: m_def)
  have cells: "head ?H i \<in> set (ht_cells ?H (map snd A))" if "i < unat (bucket_total ?H)" for i
    using that by (auto simp: set_cells)
  have ent: "x \<in> set (ht_cells ?H (map snd A))" "x + 8 \<in> set (ht_cells ?H (map snd A))" if "x \<in> snd ` set A" for x
    using that by (auto simp: set_cells)
  have repr': "ht_repr m self ?H A"
    unfolding ht_repr_def
  proof (intro conjI allI impI ballI)
    fix i assume i: "i < unat (bucket_total ?H)"
    then have "chain (pt_heap s) self (head ?H i) (in_bucket ?H i A)" using repr by (simp add: ht_repr_def)
    then show "chain m self (head ?H i) (in_bucket ?H i A)"
      by (rule chain_cong) (use cells [OF i] in_bucket_subset [of ?H i A] in \<open>auto intro!: same ent(1)\<close>)
  next
    fix ke assume "ke \<in> set A"
    then show "case ke of (k, e) \<Rightarrow> \<exists>hv. m (e + 8) = Some hv \<and> key_mask ?H AND hv = k"
      using repr same [OF ent(2), of "snd ke"] by (force simp: ht_repr_def)
  qed (use repr in \<open>auto simp: ht_repr_def\<close>)
  have fresh': "ht_fresh m ?H A (info + 8)"
    using info(1) f by (auto simp: ht_fresh_def m_def)
  have key: "entry_key m ?H (info + 8) = HashUlongPtr spt" by (simp add: entry_key_def km m_def)
  obtain m' H' c where ins: "HashTableInsert m ?H (info + 8) = Some (m', H', c)"
    "ht_repr m' self H' ((HashUlongPtr spt, info + 8) # A)" "key_mask H' = key_mask ?H"
    "\<And>p. p \<notin> set (ht_cells ?H (map snd A)) \<Longrightarrow> p \<noteq> info + 8 \<Longrightarrow> m' p = m p"
    using Insert_repr [OF repr' fresh'] unfolding key by blast
  have "register_spt s info sp spt = Some (s\<lparr>pt_heap := m', g_Table := H'\<rparr>)"
    using info(2) f16 ins(1) by (simp add: register_spt_def wr_def m_def)
  moreover have "m' info = Some sp" using ins(4) [OF info(3)] by (simp add: m_def)
  ultimately show ?thesis using ins(2,3) km by auto
qed

lemma sptep_to_sp_lookup:
  assumes "ht_repr (pt_heap s) self (g_Table s) A" and "key_mask (g_Table s) = - 1"
  shows "sptep_to_sp s p = (case map_of A (HashUlongPtr p) of None \<Rightarrow> Some 0 | Some b \<Rightarrow> pt_heap s (b - 8))"
  using FindNext_repr [OF assms(1), of "HashUlongPtr p"] map_of_repr_nonnull [OF assms(1), of "HashUlongPtr p"]
  by (auto simp: sptep_to_sp_def assms(2) rd_def split: option.split)

text \<open>
  C17: when a page table is registered for its header, \<^verbatim>\<open>sptep_to_sp\<close> finds the header for the address
  of the table, that is of its first entry. For any of the other 511 entries, whose address has another
  hash, it finds nothing unless some other table's hash happens to be the same.
\<close>

theorem sptep_to_sp_only_first_entry:
  assumes "ht_repr (pt_heap s) self (g_Table s) A" and "key_mask (g_Table s) = - 1"
    and "ht_fresh (pt_heap s) (g_Table s) A (info + 8)" and "pt_heap s info \<noteq> None"
    and "info \<notin> set (ht_cells (g_Table s) (map snd A))" and "spt AND mask 12 = 0"
  shows "\<exists>s'. register_spt s info sp spt = Some s' \<and> sptep_to_sp s' spt = Some sp \<and>
    (\<forall>i. 0 < i \<and> i < 512 \<and> HashUlongPtr (spt + 8 * of_nat i) \<notin> fst ` set A \<longrightarrow> sptep_to_sp s' (spt + 8 * of_nat i) = Some 0)"
proof -
  obtain s' where s': "register_spt s info sp spt = Some s'" "key_mask (g_Table s') = - 1" "pt_heap s' info = Some sp"
    "ht_repr (pt_heap s') self (g_Table s') ((HashUlongPtr spt, info + 8) # A)"
    using register_spt_correct [OF assms(1-5)] by blast
  note look = sptep_to_sp_lookup [OF s'(4,2)]
  have "sptep_to_sp s' (spt + 8 * of_nat i) = Some 0"
    if "0 < i" "i < 512" "HashUlongPtr (spt + 8 * of_nat i) \<notin> fst ` set A" for i
  proof -
    have "map_of A (HashUlongPtr (spt + 8 * of_nat i)) = None" using that(3) by (simp add: map_of_eq_None_iff)
    then show ?thesis unfolding look using hash_of_other_entry [OF assms(6) that(1,2)] by simp
  qed
  then show ?thesis using s'(1,3) look [of spt] by auto
qed

theorem sptep_to_sp_only_first_entry_witness:
  "\<exists>s'. register_spt (fresh_state\<lparr>pt_heap := demo_cells(0x8000 \<mapsto> 0, 0x8008 \<mapsto> 0, 0x8010 \<mapsto> 0)\<rparr>) 0x8000 0x7000 0x6000 = Some s' \<and>
     sptep_to_sp s' 0x6000 = Some 0x7000"
proof -
  let ?m = "demo_cells(0x8000 \<mapsto> 0, 0x8008 \<mapsto> 0, 0x8010 \<mapsto> 0)" and ?s = "fresh_state\<lparr>pt_heap := demo_cells(0x8000 \<mapsto> 0, 0x8008 \<mapsto> 0, 0x8010 \<mapsto> 0)\<rparr>"
  have H: "g_Table ?s = demo_table" "pt_heap ?s = ?m" by (simp_all add: fresh_state_def)
  have two: "[0..<2] = [0, Suc 0]" by (simp add: upt_rec)
  have cells: "set (ht_cells demo_table (map snd [(0, 0x9000)])) = {0x1000, 0x1008, 0x9000, 0x9008}"
    unfolding ht_cells_def demo_table_simps by (simp add: two head_def demo_table_simps)
  have "chain ?m 0x500 (head demo_table i) (in_bucket demo_table i [(0, 0x9000)])" if "i < 2" for i
    using that demo_idx_of by (auto simp: less_2_cases_iff in_bucket_def head_def demo_cells_def demo_table_simps)
  then have repr: "ht_repr (pt_heap ?s) 0x500 (g_Table ?s) [(0, 0x9000)]"
    using demo_repr unfolding H ht_repr_def demo_table_simps by (simp add: demo_cells_def)
  have "ht_fresh ?m demo_table [(0, 0x9000)] (0x8000 + 8)" unfolding ht_fresh_def cells by simp
  then show ?thesis
    using sptep_to_sp_only_first_entry [OF repr, of "0x8000" "0x6000" "0x7000"] unfolding H cells
    by (auto simp: demo_table_simps mask_eq_exp_minus_1)
qed

section \<open>The page size\<close>

lemma mapping_level_loop_total:
  assumes "\<And>l. 1 < l \<Longrightarrow> l \<le> lvl \<Longrightarrow> lpage_info_slot k gfn sl l \<noteq> None" and "0 < lvl"
  shows "\<exists>l. mapping_level_loop k gfn sl lvl = Some l \<and> 0 < l"
  using assms
proof (induction lvl)
  case (Suc n)
  then show ?case
    by (cases "n = 0"; subst mapping_level_loop.simps) (auto split: option.split)
qed simp

text \<open>The index of a frame of the slot lies below the number of large pages the arrays were made for.\<close>

lemma gfn_to_index_in_lpages:
  assumes np: "npages sl \<noteq> 0" "unat (base_gfn sl) + unat (npages sl) < 2 ^ 64" and l: "1 < level" "level < 4"
    and g: "base_gfn sl \<le> gfn" "gfn \<le> base_gfn sl + npages sl - 1"
  shows "gfn_to_index gfn (base_gfn sl) level < raw_kvm_mmu_slot_lpages sl (npages sl) level"
proof -
  let ?d = "drop_bit (KVM_HPAGE_GFN_SHIFT level) :: u64 \<Rightarrow> u64"
  have mono: "?d a \<le> ?d b" if "a \<le> b" for a b using that by (simp add: word_le_nat_alt unat_drop_bit_div div_le_mono)
  have le: "?d gfn - ?d (base_gfn sl) \<le> ?d (base_gfn sl + npages sl - 1) - ?d (base_gfn sl)"
    using mono [OF g(1)] mono [OF g(2)] by (simp add: word_le_nat_alt unat_sub)
  have "?d (base_gfn sl + npages sl - 1) - ?d (base_gfn sl) + 1 \<noteq> 0"
    using lpages_nonzero [OF np l] by (simp add: raw_kvm_mmu_slot_lpages_def gfn_to_index_def)
  then have "?d (base_gfn sl + npages sl - 1) - ?d (base_gfn sl) < ?d (base_gfn sl + npages sl - 1) - ?d (base_gfn sl) + 1"
    using measure_unat by (fastforce simp: word_less_nat_alt)
  then show ?thesis using le by (simp add: raw_kvm_mmu_slot_lpages_def gfn_to_index_def)
qed

text \<open>
  The slot at \<open>p\<close> has, for both large page sizes, an array of large-page information with an entry for
  every large page of the slot.
\<close>

definition lpages_ok :: "kvm \<Rightarrow> u64 \<Rightarrow> kvm_memory_slot \<Rightarrow> bool" where
  "lpages_ok k p sl \<longleftrightarrow> slot_load (slots k) p = Some sl \<and> npages sl \<noteq> 0 \<and> unat (base_gfn sl) + unat (npages sl) < 2 ^ 64 \<and>
     (\<forall>level \<in> {2, 3}. level - 2 < length (lpage_info (slot_arch sl)) \<and>
       (case lpage_heap k (lpage_info (slot_arch sl) ! (level - 2)) of
          None \<Rightarrow> False
        | Some (n, arr) \<Rightarrow> raw_kvm_mmu_slot_lpages sl (npages sl) level \<le> n))"

definition in_slot_range :: "kvm_memory_slot \<Rightarrow> gfn_t \<Rightarrow> bool" where
  "in_slot_range sl gfn \<longleftrightarrow> base_gfn sl \<le> gfn \<and> gfn \<le> base_gfn sl + npages sl - 1"

lemma lpages_ok_info:
  assumes "lpages_ok k p sl" and "in_slot_range sl gfn" and "1 < level" "level \<le> 3"
  shows "lpage_info_slot k gfn sl level \<noteq> None"
proof -
  have "gfn_to_index gfn (base_gfn sl) level < raw_kvm_mmu_slot_lpages sl (npages sl) level"
    using assms by (intro gfn_to_index_in_lpages) (auto simp: lpages_ok_def in_slot_range_def)
  moreover have "level = 2 \<or> level = 3" using assms(3,4) by auto
  ultimately show ?thesis
    using assms(1) by (auto simp: lpage_info_slot_def lpages_ok_def Let_def split: option.splits prod.splits)
qed

lemma max_mapping_level_small:
  assumes "lpages_ok k p sl" and "in_slot_range sl gfn" and "0 < lvl" "lvl \<le> 3" "0 < mx"
  shows "kvm_mmu_max_mapping_level k mx p gfn lvl = Some 1"
proof -
  have "\<exists>l. mapping_level_loop k gfn sl (min lvl mx) = Some l \<and> 0 < l"
    using assms(3-5) by (intro mapping_level_loop_total lpages_ok_info [OF assms(1,2)]) auto
  moreover have "slot_load (slots k) p = Some sl" using assms(1) by (simp add: lpages_ok_def)
  ultimately show ?thesis by (auto simp: kvm_mmu_max_mapping_level_def host_pfn_mapping_level_def)
qed

text \<open>Of the fault, only the note that huge pages are disallowed and the requested level may change.\<close>

definition frame_kept :: "kvm_page_fault \<Rightarrow> kvm_page_fault \<Rightarrow> bool" where
  "frame_kept fault f \<longleftrightarrow> f = fault\<lparr>huge_page_disallowed := huge_page_disallowed f, req_level := req_level f\<rparr> \<and>
     (req_level f = req_level fault \<or> req_level f = 1)"

lemma frame_keptD:
  assumes "frame_kept fault f"
  shows "pf_pfn f = pf_pfn fault" "pf_gfn f = pf_gfn fault" "goal_level f = goal_level fault"
proof -
  have e: "f = fault\<lparr>huge_page_disallowed := huge_page_disallowed f, req_level := req_level f\<rparr>"
    using assms by (simp add: frame_kept_def)
  show "pf_pfn f = pf_pfn fault" "pf_gfn f = pf_gfn fault" "goal_level f = goal_level fault" by (subst e, simp)+
qed

lemma hugepage_adjust_small:
  assumes "lpages_ok k (pf_slot fault) sl" and "in_slot_range sl (pf_gfn fault)"
    and "0 < max_level fault" "max_level fault \<le> 3" "0 < mx"
  shows "\<exists>f. kvm_mmu_hugepage_adjust k mx fault = Some f \<and> frame_kept fault f"
proof -
  have "slot_load (slots k) (pf_slot fault) = Some sl" using assms(1) by (simp add: lpages_ok_def)
  then show ?thesis
    using max_mapping_level_small [OF assms]
    by (auto simp: kvm_mmu_hugepage_adjust_def kvm_slot_dirty_track_enabled_def Let_def frame_kept_def)
qed

lemma metadata_lpages_ok:
  assumes "p \<noteq> 0" and "slots k p = Some sl" and "tdp_mmu_enabled e" and "npages sl \<noteq> 0"
    and "unat (base_gfn sl) + unat (npages sl) < 2 ^ 64"
    and a: "pool_alloc e (nalloc k) (raw_kvm_mmu_slot_lpages sl (npages sl) 2 * 4) = a" "a \<noteq> 0"
    and b: "pool_alloc e (Suc (nalloc k)) (raw_kvm_mmu_slot_lpages sl (npages sl) 3 * 4) = b" "b \<noteq> 0" and "a \<noteq> b"
  shows "\<exists>k' sl'. kvm_alloc_memslot_metadata e k p = Some (STATUS_SUCCESS, k') \<and> lpages_ok k' p sl' \<and>
    base_gfn sl' = base_gfn sl \<and> npages sl' = npages sl"
proof -
  define sl' where "sl' = sl\<lparr>slot_arch := \<lparr>rmap = [0, 0, 0], lpage_info = [a, b], gfn_track = [0]\<rparr>\<rparr>"
  define k' where "k' = k\<lparr>slots := (slots k)(p \<mapsto> sl'),
     lpage_heap := (lpage_heap k)(a \<mapsto> (raw_kvm_mmu_slot_lpages sl (npages sl) 2, lpage_array e sl 2),
        b \<mapsto> (raw_kvm_mmu_slot_lpages sl (npages sl) 3, lpage_array e sl 3)),
     nalloc := nalloc k + 2\<rparr>"
  have "kvm_alloc_memslot_metadata e k p = Some (STATUS_SUCCESS, k')"
    unfolding k'_def sl'_def by (rule kvm_alloc_memslot_metadata_correct [OF assms(1-5) a b])
  moreover have "lpages_ok k' p sl'"
    using assms(1,4,5,10) by (simp add: lpages_ok_def slot_load_def k'_def sl'_def raw_kvm_mmu_slot_lpages_def gfn_to_index_def)
  moreover have "base_gfn sl' = base_gfn sl" "npages sl' = npages sl" by (simp_all add: sl'_def)
  ultimately show ?thesis by blast
qed

text \<open>
  C25: allocating the metadata of a slot in two pool blocks of their own gives it arrays of large-page
  information of sufficient length. In any later state in which the slot still has such arrays, every
  access for a frame of the slot is in bounds at both large levels, the choice of the page size ends with
  the level of a 4 KiB page, and \<^verbatim>\<open>kvm_mmu_hugepage_adjust\<close> returns the fault with its host frame, guest
  frame, goal level and all else kept, but for the note that huge pages are disallowed and the
  requested level. The level is always that of a 4 KiB page because \<^verbatim>\<open>host_pfn_mapping_level\<close> is a stub of the
  source that answers so.
\<close>

theorem page_size_in_bounds:
  assumes "p \<noteq> 0" and "slots k p = Some sl" and "tdp_mmu_enabled e" and "npages sl \<noteq> 0"
    and "unat (base_gfn sl) + unat (npages sl) < 2 ^ 64"
    and a: "pool_alloc e (nalloc k) (raw_kvm_mmu_slot_lpages sl (npages sl) 2 * 4) = a" "a \<noteq> 0"
    and b: "pool_alloc e (Suc (nalloc k)) (raw_kvm_mmu_slot_lpages sl (npages sl) 3 * 4) = b" "b \<noteq> 0" and "a \<noteq> b"
  shows "(\<exists>k' sl'. kvm_alloc_memslot_metadata e k p = Some (STATUS_SUCCESS, k') \<and> lpages_ok k' p sl' \<and>
      base_gfn sl' = base_gfn sl \<and> npages sl' = npages sl) \<and>
    (\<forall>k' sl' fault mx. lpages_ok k' (pf_slot fault) sl' \<and> in_slot_range sl' (pf_gfn fault) \<and>
       0 < max_level fault \<and> max_level fault \<le> 3 \<and> 0 < mx \<longrightarrow>
      (\<forall>level \<in> {2, 3}. lpage_info_slot k' (pf_gfn fault) sl' level \<noteq> None) \<and>
      kvm_mmu_max_mapping_level k' mx (pf_slot fault) (pf_gfn fault) (max_level fault) = Some 1 \<and>
      (\<exists>f. kvm_mmu_hugepage_adjust k' mx fault = Some f \<and> frame_kept fault f))"
  using metadata_lpages_ok [OF assms] max_mapping_level_small hugepage_adjust_small lpages_ok_info by auto

definition huge_fault :: kvm_page_fault where
  "huge_fault = \<lparr>pf_addr = 0x2ff123, pf_prefetch = False, pf_exec = True, pf_write = False, pf_present = False, pf_rsvd = False,
     nx_huge_page_workaround_enabled = False, huge_page_disallowed = False, max_level = 3, req_level = 1, goal_level = 1,
     pf_gfn = 0x2ff, pf_slot = 0x9000, pf_pfn = 0x777, map_writable = False\<rparr>"

theorem page_size_in_bounds_witness:
  "\<exists>k' f. kvm_alloc_memslot_metadata demo_env (demo_vm\<lparr>slots := [0x9000 \<mapsto> (junk_slot demo_env)\<lparr>base_gfn := 0x100, npages := 0x201\<rparr>]\<rparr>) 0x9000
     = Some (STATUS_SUCCESS, k') \<and> kvm_mmu_hugepage_adjust k' 3 huge_fault = Some f \<and> pf_pfn f = 0x777 \<and> goal_level f = 1"
proof -
  let ?sl = "(junk_slot demo_env)\<lparr>base_gfn := 0x100, npages := 0x201\<rparr>"
  let ?k = "demo_vm\<lparr>slots := [0x9000 \<mapsto> ?sl]\<rparr>"
  have "(\<exists>k' sl'. kvm_alloc_memslot_metadata demo_env ?k 0x9000 = Some (STATUS_SUCCESS, k') \<and> lpages_ok k' 0x9000 sl' \<and>
      base_gfn sl' = base_gfn ?sl \<and> npages sl' = npages ?sl) \<and>
    (\<forall>k' sl' fault mx. lpages_ok k' (pf_slot fault) sl' \<and> in_slot_range sl' (pf_gfn fault) \<and>
       0 < max_level fault \<and> max_level fault \<le> 3 \<and> 0 < mx \<longrightarrow>
      (\<forall>level \<in> {2, 3}. lpage_info_slot k' (pf_gfn fault) sl' level \<noteq> None) \<and>
      kvm_mmu_max_mapping_level k' mx (pf_slot fault) (pf_gfn fault) (max_level fault) = Some 1 \<and>
      (\<exists>f. kvm_mmu_hugepage_adjust k' mx fault = Some f \<and> frame_kept fault f))"
    by (rule page_size_in_bounds [where a = "0x10000" and b = "0x20000"]) (simp_all add: demo_env_def demo_vm_def)
  then obtain k' sl' where k: "kvm_alloc_memslot_metadata demo_env ?k 0x9000 = Some (STATUS_SUCCESS, k')" "lpages_ok k' 0x9000 sl'"
      "base_gfn sl' = 0x100" "npages sl' = 0x201"
    and all: "\<And>k' sl' fault mx. lpages_ok k' (pf_slot fault) sl' \<Longrightarrow> in_slot_range sl' (pf_gfn fault) \<Longrightarrow>
       0 < max_level fault \<Longrightarrow> max_level fault \<le> 3 \<Longrightarrow> 0 < mx \<Longrightarrow>
       \<exists>f. kvm_mmu_hugepage_adjust k' mx fault = Some f \<and> frame_kept fault f"
    by auto
  have "in_slot_range sl' 0x2ff" by (simp add: in_slot_range_def k(3,4))
  then obtain f where f: "kvm_mmu_hugepage_adjust k' 3 huge_fault = Some f" "frame_kept huge_fault f"
    using all [of k' huge_fault sl' 3] k(2) by (auto simp: huge_fault_def)
  then show ?thesis using k(1) frame_keptD [OF f(2)] by (auto simp: huge_fault_def)
qed

end
