(* ===== verification/Tdp_Mmu_Props.thy ===== *)
theory Tdp_Mmu_Props
  imports Tdp_Mmu Page_Fault_Props
begin

text \<open>
  What becomes of a fault outside the memory slots, what the TDP MMU can map, and the reference
  counts of its roots.
\<close>

section \<open>Faults outside the slots\<close>

lemma faultin_without_slot:
  assumes "pf_slot fault = 0" and "\<not> is_guest_mode v"
  shows "kvm_faultin_pfn ke k inhibit v fault = None"
proof -
  have "raw_kvm_faultin_pfn k inhibit v fault = None"
    using assms by (simp add: raw_kvm_faultin_pfn_def kvm_is_visible_memslot_def raw_gfn_to_pfn_memslot_def
        memslot_is_readonly_def slot_load_def)
  then show ?thesis by (simp add: kvm_faultin_pfn_def)
qed

lemma fast_page_fault_invalid: "fast_page_fault e c s mmu iter0 fault = Some r \<Longrightarrow> r = RET_PF_INVALID"
  by (auto simp: fast_page_fault_def split: if_splits bind_splits)

lemma tdp_page_fault_without_slot:
  assumes "pf_slot fault = 0" and "\<not> is_guest_mode v" and "mmu_topup_memory_caches e s False = Some (0, t)"
  shows "kvm_tdp_page_fault e c ke k inhibit v s mmu iter0 fault = None"
  using assms(3) faultin_without_slot [OF assms(1,2)] fast_page_fault_invalid [of e c s mmu iter0 fault]
  by (cases "fast_page_fault e c s mmu iter0 fault")
    (auto simp: kvm_tdp_page_fault_def kvm_tdp_mmu_page_fault_def direct_page_fault_def page_fault_handle_page_track_def)

lemma vcpu_lookup_flags: "kvm_vcpu_gfn_to_memslot k v gfn = Some (x, v') \<Longrightarrow> hflags v' = hflags v"
  by (auto simp: kvm_vcpu_gfn_to_memslot_def Let_def split: bind_splits if_splits)

lemma filter_empty_or_null: "\<forall>x\<in>set xs. \<not> P x \<Longrightarrow> or_null (filter P xs) = 0"
  by (simp add: filter_False)

text \<open>
  C26: a page fault at a guest-physical address that no memory slot covers, taken outside nested
  guest mode on a direct MMU while the caches can be filled, dereferences the NULL slot instead of
  being handed to the emulator.
\<close>

theorem fault_outside_slots_dereferences_null:
  assumes "vm_inv k xs" and "cache_ok k xs (vslots v)" and "\<forall>x\<in>set xs. \<not> in_slot (slots k) x (drop_bit PAGE_SHIFT gpa)"
    and "role_direct (root_role mmu)" and "root_hpa mmu \<noteq> INVALID_PAGE" and "error_code AND ucast PFERR_RSVD_MASK = 0"
    and "\<not> is_guest_mode (vslots v)" and "mmu_topup_memory_caches e s False = Some (0, t)"
  shows "kvm_mmu_page_fault e c ke k inhibit v s mmu iter0 gpa error_code = None"
proof -
  let ?gfn = "drop_bit PAGE_SHIFT gpa"
  obtain vs where vs: "kvm_vcpu_gfn_to_memslot k (vslots v) ?gfn = Some (0, vs)" "hflags vs = hflags (vslots v)"
    using vcpu_lookup_correct [OF assms(1,2), of ?gfn] vcpu_lookup_flags assms(3) by (fastforce simp: filter_empty_or_null)
  then have "\<not> is_guest_mode vs" using assms(7) by (simp add: is_guest_mode_def)
  then have "kvm_mmu_do_page_fault e c ke k inhibit v s mmu iter0 gpa (ucast error_code) False = None"
    using vs(1) assms(4,8) by (simp add: kvm_mmu_do_page_fault_def new_fault_def tdp_page_fault_without_slot Let_def)
  then show ?thesis using assms(5,6) by (simp add: kvm_mmu_page_fault_def ret_pf_defs)
qed

definition full_cache :: kvm_mmu_memory_cache where
  "full_cache = \<lparr>mc_capacity = 40, mc_nobjs = 40, mc_objects = Some (map (\<lambda>i. 0x200000 + 4096 * of_nat i) [0..<40])\<rparr>"

definition full_state :: mmu_state where
  "full_state = fresh_state\<lparr>mmu_pte_list_desc_cache := full_cache, mmu_shadow_page_cache := full_cache, mmu_page_header_cache := full_cache\<rparr>"

lemma topup_full: "mmu_topup_memory_caches e full_state False = Some (0, full_state)"
  by (simp add: mmu_topup_memory_caches_def kvm_mmu_topup_memory_cache_def raw_kvm_mmu_topup_memory_cache_def full_state_def
      fresh_state_def full_cache_def PT64_ROOT_MAX_LEVEL_def PTE_PREFETCH_NUM_def STATUS_SUCCESS_def)

definition demo_pf :: env_pf where
  "demo_pf = \<lparr>dirty_log_size = 0, nx_huge = False, max_huge_page_level = 3, tdp_mmu_on = True\<rparr>"

definition demo_vcpu :: vcpu_fault where
  "demo_vcpu = \<lparr>vslots = \<lparr>vcpu_last_used_slot = 0, last_used_slot_gen = 0, hflags = 0\<rparr>, mmio_gva = 0, mmio_gfn = 0, mmio_gen = 0,
     walk_nested = False, page_fault_tdp = True, pf_taken = 0\<rparr>"

definition blank_iter :: tdp_iter where
  "blank_iter = \<lparr>next_last_level_gfn = 0, yielded_gfn = 0, pt_path = (\<lambda>_. 0), sptep = 0, it_gfn = 0, root_level = 0, min_level = 0,
     it_level = 0, it_as_id = 0, old_spte = 0, it_valid = False, yielded = False\<rparr>"

theorem fault_outside_slots_dereferences_null_witness:
  "kvm_mmu_page_fault demo_menv demo_pf demo_env demo_vm 0 demo_vcpu full_state demo_mmu blank_iter 0xfee00000 2 = None"
  by (rule fault_outside_slots_dereferences_null [OF demo_vm_inv _ _ _ _ _ _ topup_full])
    (simp_all add: demo_vcpu_def cache_ok_def demo_mmu_def INVALID_PAGE_def PFERR_RSVD_MASK_def is_guest_mode_def)

section \<open>What the TDP MMU maps\<close>

text \<open>The lookup reads the page tables' memory and the hash table only.\<close>

lemma sptep_to_sp_cong:
  assumes "pt_heap t = pt_heap s" and "g_Table t = g_Table s"
  shows "sptep_to_sp t = sptep_to_sp s"
  by (rule ext) (simp only: sptep_to_sp_def assms)

lemma cache_alloc_keeps:
  "mc_nobjs mc \<noteq> 0 \<Longrightarrow> kvm_mmu_memory_cache_alloc e s mc = Some (p, t, mc') \<Longrightarrow> t = s"
  by (auto simp: kvm_mmu_memory_cache_alloc_def Let_def split: option.splits if_splits)

lemma alloc_header_keeps:
  assumes "alloc_header e s = Some (sp, t)" and "mc_nobjs (mmu_page_header_cache s) \<noteq> 0"
  shows "pt_heap t = pt_heap s \<and> g_Table t = g_Table s \<and> mmu_shadow_page_cache t = mmu_shadow_page_cache s"
proof -
  obtain s1 mc where a: "kvm_mmu_memory_cache_alloc e s (mmu_page_header_cache s) = Some (sp, s1, mc)"
    and t: "t = s1\<lparr>mmu_page_header_cache := mc, sp_heap := (if sp = 0 then sp_heap s1 else (sp_heap s1)(sp \<mapsto> zero_sp))\<rparr>"
    using assms(1) unfolding alloc_header_def bind_eq_Some_conv by auto
  show ?thesis using cache_alloc_keeps [OF assms(2) a] by (simp add: t)
qed

lemma alloc_spt_keeps:
  assumes "alloc_spt e s = Some (p, t)" and "mc_nobjs (mmu_shadow_page_cache s) \<noteq> 0"
  shows "pt_heap t = pt_heap s \<and> g_Table t = g_Table s"
proof -
  obtain s1 mc where a: "kvm_mmu_memory_cache_alloc e s (mmu_shadow_page_cache s) = Some (p, s1, mc)"
    and t: "t = s1\<lparr>mmu_shadow_page_cache := mc\<rparr>"
    using assms(1) unfolding alloc_spt_def bind_eq_Some_conv by auto
  show ?thesis using cache_alloc_keeps [OF assms(2) a] by (simp add: t)
qed

lemma sp_update_keeps: "sp_update s sp f = Some t \<Longrightarrow> pt_heap t = pt_heap s \<and> g_Table t = g_Table s"
  unfolding sp_update_def bind_eq_Some_conv by auto

lemma alloc_sp_keeps:
  assumes "tdp_mmu_alloc_sp e s = Some (sp, t)" and "mc_nobjs (mmu_page_header_cache s) \<noteq> 0" "mc_nobjs (mmu_shadow_page_cache s) \<noteq> 0"
  shows "pt_heap t = pt_heap s \<and> g_Table t = g_Table s"
proof -
  obtain s1 spt s2 where a: "alloc_header e s = Some (sp, s1)" "alloc_spt e s1 = Some (spt, s2)"
    "sp_update s2 sp (\<lambda>x. x\<lparr>sp_spt := spt\<rparr>) = Some t"
    using assms(1) by (auto simp: tdp_mmu_alloc_sp_def bind_eq_Some_conv)
  show ?thesis using alloc_header_keeps [OF a(1) assms(2)] alloc_spt_keeps [OF a(2)] sp_update_keeps [OF a(3)] assms(3) by simp
qed

definition nothing_registered :: "mmu_state \<Rightarrow> bool" where
  "nothing_registered s \<longleftrightarrow> (\<forall>p. sptep_to_sp s p = Some 0) \<and>
     mc_nobjs (mmu_page_header_cache s) \<noteq> 0 \<and> mc_nobjs (mmu_shadow_page_cache s) \<noteq> 0"

lemma init_child_unregistered:
  assumes "nothing_registered s" and "tdp_mmu_alloc_sp e s = Some (sp, t)"
  shows "tdp_mmu_init_child_sp t sp iter = None"
  using assms alloc_sp_keeps [OF assms(2)] sptep_to_sp_cong [of t s]
  by (simp add: tdp_mmu_init_child_sp_def nothing_registered_def sp_load_def)

lemma target_level_unregistered: "nothing_registered s \<Longrightarrow> tdp_mmu_map_handle_target_level e c gen s fault iter = None"
  by (simp add: tdp_mmu_map_handle_target_level_def nothing_registered_def sp_load_def)

lemma map_loop_unregistered:
  assumes "nothing_registered s"
  shows "tdp_map_loop e c gen s fault end_gfn iter \<in> {None, Some (RET_PF_RETRY, s)}"
proof -
  have "nothing_registered s \<longrightarrow> r = (RET_PF_RETRY, s)" if run: "tdp_map_loop e c gen s fault end_gfn iter = Some r" for r
    by (rule tdp_map_loop.raw_induct [where P = "\<lambda>_ _ _ s _ _ _ r. nothing_registered s \<longrightarrow> r = (RET_PF_RETRY, s)", OF _ run])
      (auto simp: init_child_unregistered target_level_unregistered split: if_splits bind_splits)
  then show ?thesis using assms by (cases "tdp_map_loop e c gen s fault end_gfn iter") auto
qed

lemma bind_in: "(\<And>x. f x \<in> A) \<Longrightarrow> None \<in> A \<Longrightarrow> Option.bind m f \<in> A"
  by (cases m) auto

lemma hugepage_adjust_keeps:
  assumes "kvm_mmu_hugepage_adjust k mx fault = Some f" and "0 < max_level fault" "0 < mx"
  shows "goal_level f = goal_level fault" and "pf_gfn f = pf_gfn fault"
proof -
  have r: "r = 1" if m: "kvm_mmu_max_mapping_level k mx p g lvl = Some r" and "0 < lvl" for p g lvl r
  proof -
    obtain sl l where l: "mapping_level_loop k g sl (min lvl mx) = Some l" "r = (if l = 1 then 1 else min 1 l)"
      using m by (auto simp: kvm_mmu_max_mapping_level_def host_pfn_mapping_level_def bind_eq_Some_conv)
    have "0 < l" if "mapping_level_loop k g sl n = Some l" "0 < n" for n
      using that
    proof (induction n)
      case (Suc n)
      then show ?case
        by (subst (asm) (2) mapping_level_loop.simps) (cases "n = 0"; auto split: option.splits if_splits)
    qed simp
    from this [OF l(1)] show ?thesis using l(2) that(2) assms(3) by auto
  qed
  have "goal_level f = goal_level fault \<and> pf_gfn f = pf_gfn fault"
    using assms(1,2) by (auto simp: kvm_mmu_hugepage_adjust_def Let_def split: if_splits bind_splits dest: r)
  then show "goal_level f = goal_level fault" "pf_gfn f = pf_gfn fault" by simp_all
qed

text \<open>The first entry the walk reads in a root whose entries are all clear.\<close>

lemma iter_start_clear:
  assumes "\<forall>i < 512. mem (spt + 8 * i) = Some 0"
  shows "\<exists>it. tdp_iter_start mem iter0 role spt 1 gfn = Some it \<and> it_valid it \<and> it_level it = role_level role \<and> old_spte it = 0 \<and>
    it_gfn it = gfn_round_for_level gfn (role_level role)"
proof -
  have "SPTE_INDEX a l < 512" for a l
    unfolding SPTE_INDEX_def by (rule le_less_trans [OF word_and_le1]) simp
  then have "mem (spt + 8 * SPTE_INDEX a l) = Some 0" for a l using assms by blast
  then show ?thesis
    by (simp add: tdp_iter_start_def tdp_iter_restart_def tdp_iter_refresh_sptep_def kvm_tdp_mmu_read_spte_def Let_def)
qed

lemma map_loop_clear_entry:
  assumes "nothing_registered s" and "it_valid it" "it_gfn it < end_gfn" "old_spte it = 0" "it_level it \<noteq> goal_level fault"
  shows "tdp_map_loop e c gen s fault end_gfn it = None"
proof -
  have "\<not> is_shadow_present_pte 0" "\<not> is_removed_spte 0"
    by (simp_all add: is_shadow_present_pte_def is_removed_spte_def REMOVED_SPTE_def)
  then have "Option.bind (tdp_mmu_alloc_sp e s) (\<lambda>(sp, s). Option.bind (tdp_mmu_init_child_sp s sp it) (g s sp)) = None" for g
    using init_child_unregistered [OF assms(1), of e] by (cases "tdp_mmu_alloc_sp e s") auto
  then show ?thesis
    using assms(2-5) \<open>\<not> is_shadow_present_pte 0\<close> \<open>\<not> is_removed_spte 0\<close>
    by (subst tdp_map_loop.simps) (simp add: disallowed_hugepage_adjust_def)
qed

text \<open>
  C27: no page of the TDP MMU is ever registered in the pointer hash table, and with an empty table
  mapping a frame never succeeds: it has no result or leaves the page tables alone and asks for a
  retry. On a new root, all of whose entries are clear, it dereferences NULL for every 4 KiB fault.
\<close>

theorem tdp_map_without_registered_pages:
  assumes "ht_repr (pt_heap s) self (g_Table s) []" and "key_mask (g_Table s) = - 1"
    and "mc_nobjs (mmu_page_header_cache s) \<noteq> 0" "mc_nobjs (mmu_shadow_page_cache s) \<noteq> 0"
  shows "kvm_tdp_mmu_map e c k s mmu iter0 fault \<in> {None, Some (RET_PF_RETRY, s)} \<and>
    (\<forall>root. sp_load s (p2v e (root_hpa mmu)) = Some root \<and> 1 < role_level (sp_role root) \<and> goal_level fault = 1 \<and>
       (\<forall>i < 512. pt_heap s (sp_spt root + 8 * i) = Some 0) \<and> pf_gfn fault \<noteq> - 1 \<and> 0 < max_level fault \<and> 0 < max_huge_page_level c \<longrightarrow>
       kvm_tdp_mmu_map e c k s mmu iter0 fault = None)"
proof (intro conjI allI impI)
  have nr: "nothing_registered s"
    using sptep_to_sp_lookup [OF assms(1,2)] assms(3,4) by (simp add: nothing_registered_def)
  show "kvm_tdp_mmu_map e c k s mmu iter0 fault \<in> {None, Some (RET_PF_RETRY, s)}"
    unfolding kvm_tdp_mmu_map_def by (intro bind_in map_loop_unregistered [OF nr]) simp_all
  fix root
  assume r: "sp_load s (p2v e (root_hpa mmu)) = Some root \<and> 1 < role_level (sp_role root) \<and> goal_level fault = 1 \<and>
    (\<forall>i < 512. pt_heap s (sp_spt root + 8 * i) = Some 0) \<and> pf_gfn fault \<noteq> - 1 \<and> 0 < max_level fault \<and> 0 < max_huge_page_level c"
  show "kvm_tdp_mmu_map e c k s mmu iter0 fault = None"
  proof (cases "kvm_mmu_hugepage_adjust k (max_huge_page_level c) fault")
    case (Some f)
    then have f: "goal_level f = 1" "pf_gfn f = pf_gfn fault" using hugepage_adjust_keeps r by auto
    obtain it where it: "tdp_iter_start (pt_heap s) iter0 (sp_role root) (sp_spt root) 1 (pf_gfn f) = Some it" "it_valid it"
      "it_level it = role_level (sp_role root)" "old_spte it = 0" "it_gfn it = gfn_round_for_level (pf_gfn f) (role_level (sp_role root))"
      using iter_start_clear r by blast
    have "pf_gfn f + 1 \<noteq> 0" using r f(2) by (simp add: eq_neg_iff_add_eq_0 [symmetric])
    then have "pf_gfn f < pf_gfn f + 1" using measure_unat [of "pf_gfn f + 1"] by (simp add: word_less_nat_alt)
    then have "it_gfn it < pf_gfn f + 1" unfolding it(5) using round_le by (rule le_less_trans [rotated])
    then have "tdp_map_loop e c (vm_generation k) s f (pf_gfn f + 1) it = None"
      using it r f(1) by (intro map_loop_clear_entry nr) auto
    then show ?thesis using Some r it(1) by (simp add: kvm_tdp_mmu_map_def kvm_tdp_root_def)
  qed (simp add: kvm_tdp_mmu_map_def)
qed

definition root_state :: mmu_state where
  "root_state = full_state\<lparr>
     pt_heap := (\<lambda>a. if a - 0x6000 < 4096 then Some 0 else None)(0x1000 \<mapsto> 0x501, 0x1008 \<mapsto> 0x501),
     g_Table := demo_table\<lparr>ItemCount := 0\<rparr>,
     sp_heap := [0x1000 \<mapsto> zero_sp\<lparr>sp_role := root_role demo_mmu, sp_spt := 0x6000\<rparr>]\<rparr>"

lemma root_state_repr: "ht_repr (pt_heap root_state) 0x500 (g_Table root_state) []" "key_mask (g_Table root_state) = - 1"
proof -
  let ?H = "demo_table\<lparr>ItemCount := 0\<rparr>"
  have H: "bucket_total ?H = 2" "key_mask ?H = - 1" "Buckets ?H = 0x1000"
    by (simp_all add: demo_table_def bucket_total_def key_mask_def)
  have "chain (pt_heap root_state) 0x500 (head ?H j) []" if "j < 2" for j
    using that by (auto simp: less_2_cases_iff head_def root_state_def demo_table_simps)
  moreover have "[0..<2] = [0, Suc 0]" by (simp add: upt_rec)
  ultimately show "ht_repr (pt_heap root_state) 0x500 (g_Table root_state) []"
    unfolding ht_repr_def ht_cells_def by (simp add: root_state_def head_def H demo_table_simps in_bucket_def)
  show "key_mask (g_Table root_state) = - 1" by (simp add: root_state_def H demo_table_simps)
qed

theorem tdp_map_without_registered_pages_witness:
  "kvm_tdp_mmu_map demo_menv demo_pf demo_vm root_state demo_mmu blank_iter ((new_fault demo_pf 0x5123 2 False)\<lparr>pf_gfn := 5\<rparr>) = None"
proof -
  have "pt_heap root_state (0x6000 + 8 * i) = Some 0" if "i < 512" for i
  proof -
    have "unat (8 * i) = 8 * unat i" using that unat_mult_lem [of 8 i] by (simp add: word_less_nat_alt)
    then have "8 * i < 4096" using that by (simp add: word_less_nat_alt)
    moreover from this have "unat (0x6000 + 8 * i) = 0x6000 + unat (8 * i)"
      using unat_add_lem [of "0x6000" "8 * i"] by (simp add: word_less_nat_alt)
    then have "0x6000 + 8 * i \<noteq> 0x1000" "0x6000 + 8 * i \<noteq> 0x1008" using arg_cong [of "0x6000 + 8 * i" _ unat] by fastforce+
    ultimately show ?thesis by (simp add: root_state_def)
  qed
  moreover have "mc_nobjs (mmu_page_header_cache root_state) \<noteq> 0" "mc_nobjs (mmu_shadow_page_cache root_state) \<noteq> 0"
    by (simp_all add: root_state_def full_state_def full_cache_def)
  moreover have "sp_load root_state (p2v demo_menv (root_hpa demo_mmu)) = Some (zero_sp\<lparr>sp_role := root_role demo_mmu, sp_spt := 0x6000\<rparr>)"
    by (simp add: root_state_def sp_load_def demo_mmu_def demo_menv_def)
  moreover have "role_level (root_role demo_mmu) = 4" by (simp add: demo_mmu_def)
  ultimately show ?thesis
    by (intro tdp_map_without_registered_pages [OF root_state_repr, THEN conjunct2, rule_format]) (auto simp: new_fault_def demo_pf_def)
qed

end
