(* ===== verification/Tdp_Roots.thy ===== *)
theory Tdp_Roots
  imports Tdp_Mmu_Props "HOL-Library.Multiset"
begin

text \<open>
  The reference counts of TDP roots over runs in which vCPUs load and put roots in any order. The
  references that vCPUs hold are a multiset of root addresses; a root keeps one more reference for the
  TDP MMU itself.
\<close>

section \<open>Runs\<close>

text \<open>
  A load takes a root for the vCPU's MMU; the address of a page that is still in use is not handed
  out again, and there are fewer references than a 32-bit count can hold. A put gives one reference back.
\<close>

inductive root_step :: "mmu_env \<Rightarrow> mmu_state \<times> u64 multiset \<Rightarrow> mmu_state \<times> u64 multiset \<Rightarrow> bool" for e where
  load: "kvm_tdp_mmu_get_vcpu_root_hpa e s mmu = Some (hpa, s') \<Longrightarrow>
     tdp_mmu_roots s' = tdp_mmu_roots s \<or> hd (tdp_mmu_roots s') \<notin> set (tdp_mmu_roots s) \<Longrightarrow>
     size H < 2 ^ 32 - 3 \<Longrightarrow> root_step e (s, H) (s', add_mset (p2v e hpa) H)"
| put: "r \<in># H \<Longrightarrow> kvm_tdp_mmu_put_root s r = Some s' \<Longrightarrow> root_step e (s, H) (s', H - {#r#})"

inductive_cases root_stepE: "root_step e (s, H) t"

definition root_key :: "kvm_mmu_page_role \<Rightarrow> nat \<times> nat" where
  "root_key role = (kvm_mmu_role_as_id role, role_word role)"

definition key_at :: "mmu_state \<Rightarrow> u64 \<Rightarrow> nat \<times> nat" where
  "key_at s r = root_key (sp_role (the (sp_heap s r)))"

definition count_at :: "mmu_state \<Rightarrow> u64 \<Rightarrow> nat" where
  "count_at s r = unat (sp_root_count (the (sp_heap s r)))"

definition roots_ok :: "mmu_state \<Rightarrow> u64 multiset \<Rightarrow> bool" where
  "roots_ok s H \<longleftrightarrow> distinct (map (key_at s) (tdp_mmu_roots s)) \<and> set_mset H \<subseteq> set (tdp_mmu_roots s) \<and>
     (\<forall>r\<in>set (tdp_mmu_roots s). r \<noteq> 0 \<and> sp_heap s r \<noteq> None \<and> count_at s r = 1 + count H r)"

section \<open>Taking a root\<close>

definition bump :: "mmu_state \<Rightarrow> u64 \<Rightarrow> mmu_state" where
  "bump s r = s\<lparr>sp_heap := (sp_heap s)(r \<mapsto> (the (sp_heap s r))\<lparr>sp_root_count := sp_root_count (the (sp_heap s r)) + 1\<rparr>)\<rparr>"

lemma find_root_spec:
  assumes "\<forall>r\<in>set rs. r \<noteq> 0 \<and> sp_heap s r \<noteq> None \<and> count_at s r \<noteq> 0"
  shows "find_root s role rs = (case List.find (\<lambda>r. key_at s r = root_key role) rs of
    None \<Rightarrow> Some (0, s) | Some r \<Rightarrow> Some (r, bump s r))"
  using assms
proof (induction rs)
  case (Cons r rs)
  then obtain x where "sp_load s r = Some x" "sp_heap s r = Some x" "sp_root_count x \<noteq> 0"
    by (auto simp: sp_load_def count_at_def unat_gt_0)
  then show ?case
    using Cons by (auto simp: key_at_def root_key_def kvm_mmu_page_as_id_def kvm_tdp_mmu_get_root_def sp_update_def bump_def)
qed simp

lemma cache_alloc_frame:
  assumes "kvm_mmu_memory_cache_alloc e s mc = Some (p, t, mc')"
  shows "sp_heap t = sp_heap s \<and> tdp_mmu_roots t = tdp_mmu_roots s"
  using assms unfolding kvm_mmu_memory_cache_alloc_def mmu_memory_cache_alloc_obj_def
  by (auto simp: Let_def split: if_splits option.splits)

lemma alloc_sp_frame:
  assumes "tdp_mmu_alloc_sp e s = Some (sp, t)"
  shows "sp \<noteq> 0" and "\<exists>x. sp_heap t = (sp_heap s)(sp \<mapsto> x)" and "tdp_mmu_roots t = tdp_mmu_roots s"
proof -
  obtain s1 spt s2 where a: "alloc_header e s = Some (sp, s1)" "alloc_spt e s1 = Some (spt, s2)"
    "sp_update s2 sp (\<lambda>x. x\<lparr>sp_spt := spt\<rparr>) = Some t"
    using assms by (auto simp: tdp_mmu_alloc_sp_def bind_eq_Some_conv)
  obtain s3 mc where b: "kvm_mmu_memory_cache_alloc e s (mmu_page_header_cache s) = Some (sp, s3, mc)"
    "s1 = s3\<lparr>mmu_page_header_cache := mc, sp_heap := (if sp = 0 then sp_heap s3 else (sp_heap s3)(sp \<mapsto> zero_sp))\<rparr>"
    using a(1) by (auto simp: alloc_header_def bind_eq_Some_conv)
  obtain s4 mc' where c: "kvm_mmu_memory_cache_alloc e s1 (mmu_shadow_page_cache s1) = Some (spt, s4, mc')"
    "s2 = s4\<lparr>mmu_shadow_page_cache := mc'\<rparr>"
    using a(2) by (auto simp: alloc_spt_def bind_eq_Some_conv)
  obtain y where d: "sp \<noteq> 0" "t = s2\<lparr>sp_heap := (sp_heap s2)(sp \<mapsto> y)\<rparr>"
    using a(3) by (auto simp: sp_update_def sp_load_def bind_eq_Some_conv split: if_splits)
  show "sp \<noteq> 0" "\<exists>x. sp_heap t = (sp_heap s)(sp \<mapsto> x)" "tdp_mmu_roots t = tdp_mmu_roots s"
    using cache_alloc_frame [OF b(1)] cache_alloc_frame [OF c(1)] d unfolding b(2) c(2) by auto
qed

lemma new_root_spec:
  assumes "kvm_tdp_mmu_get_vcpu_root_hpa e s mmu = Some (hpa, t)" and "find_root s (root_role mmu) (tdp_mmu_roots s) = Some (0, s)"
  shows "\<exists>r x. hpa = v2p e r \<and> r \<noteq> 0 \<and> tdp_mmu_roots t = r # tdp_mmu_roots s \<and> sp_heap t = (sp_heap s)(r \<mapsto> x) \<and>
    sp_role x = root_role mmu \<and> sp_root_count x = 2"
proof -
  obtain r s1 s2 s3 where a: "tdp_mmu_alloc_sp e s = Some (r, s1)" "tdp_mmu_init_sp s1 r 0 0 (root_role mmu) = Some s2"
    "sp_update s2 r (\<lambda>x. x\<lparr>sp_root_count := 2\<rparr>) = Some s3" "hpa = v2p e r" "t = s3\<lparr>tdp_mmu_roots := r # tdp_mmu_roots s3\<rparr>"
    using assms by (auto simp: kvm_tdp_mmu_get_vcpu_root_hpa_def bind_eq_Some_conv)
  obtain x where x: "sp_heap s1 = (sp_heap s)(r \<mapsto> x)" using alloc_sp_frame(2) [OF a(1)] by blast
  note r = alloc_sp_frame(1) [OF a(1)]
  have s3: "s3 = s1\<lparr>sp_heap := (sp_heap s)(r \<mapsto> x\<lparr>sp_role := root_role mmu, sp_gfn := 0, ptep := 0, tdp_mmu_page := True, sp_root_count := 2\<rparr>)\<rparr>"
    using a(2,3) x r by (auto simp: tdp_mmu_init_sp_def sp_update_def sp_load_def)
  show ?thesis
    using a(4,5) r alloc_sp_frame(3) [OF a(1)]
    by (intro exI [of _ r] exI [of _ "x\<lparr>sp_role := root_role mmu, sp_gfn := 0, ptep := 0, tdp_mmu_page := True, sp_root_count := 2\<rparr>"])
      (simp add: s3)
qed

section \<open>The invariant\<close>

lemma load_keeps:
  assumes ok: "roots_ok s H" and run: "kvm_tdp_mmu_get_vcpu_root_hpa e s mmu = Some (hpa, t)" and inv: "\<And>r. p2v e (v2p e r) = r"
    and fresh: "tdp_mmu_roots t = tdp_mmu_roots s \<or> hd (tdp_mmu_roots t) \<notin> set (tdp_mmu_roots s)" and sz: "size H < 2 ^ 32 - 3"
  shows "roots_ok t (add_mset (p2v e hpa) H)"
proof -
  have f: "find_root s (root_role mmu) (tdp_mmu_roots s) = (case List.find (\<lambda>r. key_at s r = root_key (root_role mmu)) (tdp_mmu_roots s) of
      None \<Rightarrow> Some (0, s) | Some r \<Rightarrow> Some (r, bump s r))"
    using ok by (intro find_root_spec) (auto simp: roots_ok_def)
  show ?thesis
  proof (cases "List.find (\<lambda>r. key_at s r = root_key (root_role mmu)) (tdp_mmu_roots s)")
    case None
    then have no: "\<forall>r\<in>set (tdp_mmu_roots s). key_at s r \<noteq> root_key (root_role mmu)" by (auto simp: find_None_iff)
    obtain r x where r: "hpa = v2p e r" "r \<noteq> 0" "tdp_mmu_roots t = r # tdp_mmu_roots s" "sp_heap t = (sp_heap s)(r \<mapsto> x)"
      "sp_role x = root_role mmu" "sp_root_count x = 2"
      using new_root_spec [OF run] f None by auto
    have n: "r \<notin> set (tdp_mmu_roots s)" using fresh r(3) by auto
    then have same: "key_at t q = key_at s q" "count_at t q = count_at s q" "sp_heap t q = sp_heap s q"
      if "q \<in> set (tdp_mmu_roots s)" for q
      using that r(4) by (auto simp: key_at_def count_at_def)
    have "key_at t r = root_key (root_role mmu)" "count_at t r = 2" using r(4-6) by (simp_all add: key_at_def count_at_def)
    moreover have "map (key_at t) (tdp_mmu_roots s) = map (key_at s) (tdp_mmu_roots s)" using same(1) by simp
    then have "distinct (map (key_at t) (tdp_mmu_roots s))" using ok by (simp only: roots_ok_def)
    moreover have "count H r = 0" using ok n by (auto simp: roots_ok_def count_eq_zero_iff)
    moreover have "q \<noteq> r" if "q \<in> set (tdp_mmu_roots s)" for q using that n by auto
    ultimately show ?thesis
      using ok r(1-4) no same unfolding roots_ok_def r(3) by (auto simp: inv)
  next
    case (Some r)
    then have r: "r \<in> set (tdp_mmu_roots s)" "r \<noteq> 0" using ok by (auto simp: find_Some_iff roots_ok_def)
    then obtain x where x: "sp_heap s r = Some x" "unat (sp_root_count x) = 1 + count H r"
      using ok by (auto simp: roots_ok_def count_at_def)
    have t: "t = bump s r" "hpa = v2p e r"
      using run f Some r(2) by (auto simp: kvm_tdp_mmu_get_vcpu_root_hpa_def)
    have "count H r \<le> size H" by (rule count_le_size)
    then have u: "unat (sp_root_count x + 1) = 2 + count H r"
      using unat_add_lem [of "sp_root_count x" 1] x(2) sz by simp
    have "key_at t = key_at s" using x(1) by (simp add: t(1) bump_def key_at_def fun_eq_iff)
    then have "distinct (map (key_at t) (tdp_mmu_roots s))" using ok by (simp only: roots_ok_def)
    moreover have "count_at t q = (if q = r then 2 + count H r else count_at s q)" for q
      using x(1) u by (simp add: t(1) bump_def count_at_def)
    moreover have "tdp_mmu_roots t = tdp_mmu_roots s" "sp_heap t q = None \<longleftrightarrow> sp_heap s q = None" for q
      using x(1) by (auto simp: t(1) bump_def)
    ultimately show ?thesis using ok r t(2) by (auto simp: roots_ok_def inv)
  qed
qed

lemma put_spec:
  assumes "roots_ok s H" and "r \<in># H"
  shows "\<exists>t. kvm_tdp_mmu_put_root s r = Some t \<and> tdp_mmu_roots t = tdp_mmu_roots s \<and> roots_ok t (H - {#r#})"
proof -
  have r: "r \<in> set (tdp_mmu_roots s)" "r \<noteq> 0" using assms by (auto simp: roots_ok_def)
  then obtain x where x: "sp_heap s r = Some x" "unat (sp_root_count x) = 1 + count H r"
    using assms(1) by (auto simp: roots_ok_def count_at_def)
  define t where "t = s\<lparr>sp_heap := (sp_heap s)(r \<mapsto> x\<lparr>sp_root_count := sp_root_count x - 1\<rparr>)\<rparr>"
  have "sp_root_count x \<noteq> 0" using x(2) by auto
  then have u: "unat (sp_root_count x - 1) = count H r" using x(2) by (simp add: unat_minus_one)
  moreover have "0 < count H r" using assms(2) by simp
  ultimately have "sp_root_count x - 1 \<noteq> 0" by (metis less_irrefl unat_0)
  then have run: "kvm_tdp_mmu_put_root s r = Some t"
    using x(1) r(2) by (simp add: kvm_tdp_mmu_put_root_def sp_update_def sp_load_def t_def)
  have "key_at t = key_at s" using x(1) by (simp add: t_def key_at_def fun_eq_iff)
  then have "distinct (map (key_at t) (tdp_mmu_roots s))" using assms(1) by (simp only: roots_ok_def)
  moreover have "count_at t q = (if q = r then count H r else count_at s q)" for q
    using x(1) u by (simp add: t_def count_at_def)
  moreover have "tdp_mmu_roots t = tdp_mmu_roots s" "sp_heap t q = None \<longleftrightarrow> sp_heap s q = None" for q
    using x(1) by (auto simp: t_def)
  ultimately have "roots_ok t (H - {#r#})"
    using assms r \<open>0 < count H r\<close> by (auto simp: roots_ok_def dest: in_diffD)
  then show ?thesis using run by (auto simp: t_def)
qed

lemma root_step_ok:
  assumes "root_step e p q" and "roots_ok (fst p) (snd p)" and "\<And>r. p2v e (v2p e r) = r"
  shows "roots_ok (fst q) (snd q)"
  using assms(1)
proof (cases rule: root_step.cases)
  case (load s mmu hpa s' H)
  then show ?thesis using load_keeps [of s H e mmu hpa s'] assms(2,3) by simp
next
  case (put r H s s')
  then show ?thesis using put_spec [of s H r] assms(2) by auto
qed

text \<open>
  C28: on every run of loads and puts that starts without roots, a root that a vCPU holds is in the
  list with a count of one more than the references held, there is one root per role and address
  space, and every reference held can be put without the root leaving the list.
\<close>

theorem root_counts_exact:
  assumes "(root_step e)\<^sup>*\<^sup>* (s0, {#}) (s, H)" and "tdp_mmu_roots s0 = []" and "\<And>r. p2v e (v2p e r) = r"
  shows "roots_ok s H \<and> (\<forall>r. r \<in># H \<longrightarrow> (\<exists>x t. sp_load s r = Some x \<and> unat (sp_root_count x) = 1 + count H r \<and>
    kvm_tdp_mmu_put_root s r = Some t \<and> tdp_mmu_roots t = tdp_mmu_roots s))"
proof -
  have "roots_ok s0 {#}" using assms(2) by (simp add: roots_ok_def)
  with assms(1) have "roots_ok (fst (s, H)) (snd (s, H))"
    by (induction rule: rtranclp_induct) (auto intro: root_step_ok [OF _ _ assms(3)])
  then have ok: "roots_ok s H" by simp
  moreover have "\<exists>x. sp_load s r = Some x \<and> unat (sp_root_count x) = 1 + count H r" if "r \<in># H" for r
    using ok that by (fastforce simp: roots_ok_def sp_load_def count_at_def)
  ultimately show ?thesis using put_spec [OF ok] by blast
qed

theorem root_counts_exact_witness:
  "\<exists>s hpa. kvm_tdp_mmu_get_vcpu_root_hpa (demo_menv\<lparr>p2v := id\<rparr>) full_state demo_mmu = Some (hpa, s) \<and>
     tdp_mmu_roots s = [hpa] \<and> (\<exists>t. kvm_tdp_mmu_put_root s hpa = Some t \<and> tdp_mmu_roots t = [hpa])"
proof -
  let ?e = "demo_menv\<lparr>p2v := id\<rparr>"
  have inv: "p2v ?e (v2p ?e r) = r" for r by (simp add: demo_menv_def)
  have "nat 39 = 39" by simp
  then obtain hpa s where run: "kvm_tdp_mmu_get_vcpu_root_hpa ?e full_state demo_mmu = Some (hpa, s)"
    by (auto simp: kvm_tdp_mmu_get_vcpu_root_hpa_def full_state_def fresh_state_def tdp_mmu_alloc_sp_def alloc_header_def alloc_spt_def
        kvm_mmu_memory_cache_alloc_def full_cache_def sp_update_def sp_load_def tdp_mmu_init_sp_def)
  have e: "tdp_mmu_roots full_state = []" by (simp add: full_state_def fresh_state_def)
  obtain r where r: "hpa = v2p ?e r" "tdp_mmu_roots s = [r]" using new_root_spec [OF run] e by auto
  have "root_step ?e (full_state, {#}) (s, add_mset (p2v ?e hpa) {#})"
    using e by (intro root_step.load [OF run]) auto
  then have "(root_step ?e)\<^sup>*\<^sup>* (full_state, {#}) (s, {#r#})" unfolding r(1) inv by auto
  from root_counts_exact [OF this e inv] show ?thesis using run r by (auto simp: demo_menv_def)
qed

end
