(* ===== verification/Vmx_Controls.thy ===== *)
theory Vmx_Controls
  imports Svmx_Prelude
begin

text \<open>
  The execution controls of \<^verbatim>\<open>src/svmx/vmx.c\<close> with the constants of \<^verbatim>\<open>vmx.h\<close> and \<^verbatim>\<open>vmxfeatures.h\<close>:
  \<^verbatim>\<open>setup_vmcs_config\<close> reads what the processor allows from its capability MSRs, and the functions that
  compute the words \<^verbatim>\<open>init_vmcs\<close> programs derive them from that configuration.

  The processor is a parameter: \<open>msr\<close> is \<^verbatim>\<open>__readmsr\<close> and \<open>cpuid_eax\<close> the first register of \<^verbatim>\<open>cpuid\<close>.
  The low half of a capability MSR has the bits that must be one, the high half those that may be one.
\<close>

section \<open>Control bits\<close>

named_theorems vmx_bits \<open>definitions of control bits, unfolded to evaluate them\<close>

definition CPU_BASED_INTR_WINDOW_EXITING :: u32 where [vmx_bits]: "CPU_BASED_INTR_WINDOW_EXITING = 0x4"
definition CPU_BASED_USE_TSC_OFFSETTING :: u32 where [vmx_bits]: "CPU_BASED_USE_TSC_OFFSETTING = 0x8"
definition CPU_BASED_HLT_EXITING :: u32 where [vmx_bits]: "CPU_BASED_HLT_EXITING = 0x80"
definition CPU_BASED_INVLPG_EXITING :: u32 where [vmx_bits]: "CPU_BASED_INVLPG_EXITING = 0x200"
definition CPU_BASED_MWAIT_EXITING :: u32 where [vmx_bits]: "CPU_BASED_MWAIT_EXITING = 0x400"
definition CPU_BASED_RDPMC_EXITING :: u32 where [vmx_bits]: "CPU_BASED_RDPMC_EXITING = 0x800"
definition CPU_BASED_RDTSC_EXITING :: u32 where [vmx_bits]: "CPU_BASED_RDTSC_EXITING = 0x1000"
definition CPU_BASED_CR3_LOAD_EXITING :: u32 where [vmx_bits]: "CPU_BASED_CR3_LOAD_EXITING = 0x8000"
definition CPU_BASED_CR3_STORE_EXITING :: u32 where [vmx_bits]: "CPU_BASED_CR3_STORE_EXITING = 0x10000"
definition CPU_BASED_ACTIVATE_TERTIARY_CONTROLS :: u32 where [vmx_bits]: "CPU_BASED_ACTIVATE_TERTIARY_CONTROLS = 0x20000"
definition CPU_BASED_CR8_LOAD_EXITING :: u32 where [vmx_bits]: "CPU_BASED_CR8_LOAD_EXITING = 0x80000"
definition CPU_BASED_CR8_STORE_EXITING :: u32 where [vmx_bits]: "CPU_BASED_CR8_STORE_EXITING = 0x100000"
definition CPU_BASED_TPR_SHADOW :: u32 where [vmx_bits]: "CPU_BASED_TPR_SHADOW = 0x200000"
definition CPU_BASED_NMI_WINDOW_EXITING :: u32 where [vmx_bits]: "CPU_BASED_NMI_WINDOW_EXITING = 0x400000"
definition CPU_BASED_MOV_DR_EXITING :: u32 where [vmx_bits]: "CPU_BASED_MOV_DR_EXITING = 0x800000"
definition CPU_BASED_UNCOND_IO_EXITING :: u32 where [vmx_bits]: "CPU_BASED_UNCOND_IO_EXITING = 0x1000000"
definition CPU_BASED_USE_IO_BITMAPS :: u32 where [vmx_bits]: "CPU_BASED_USE_IO_BITMAPS = 0x2000000"
definition CPU_BASED_MONITOR_TRAP_FLAG :: u32 where [vmx_bits]: "CPU_BASED_MONITOR_TRAP_FLAG = 0x8000000"
definition CPU_BASED_USE_MSR_BITMAPS :: u32 where [vmx_bits]: "CPU_BASED_USE_MSR_BITMAPS = 0x10000000"
definition CPU_BASED_MONITOR_EXITING :: u32 where [vmx_bits]: "CPU_BASED_MONITOR_EXITING = 0x20000000"
definition CPU_BASED_PAUSE_EXITING :: u32 where [vmx_bits]: "CPU_BASED_PAUSE_EXITING = 0x40000000"
definition CPU_BASED_ACTIVATE_SECONDARY_CONTROLS :: u32 where [vmx_bits]: "CPU_BASED_ACTIVATE_SECONDARY_CONTROLS = 0x80000000"

definition SECONDARY_EXEC_VIRTUALIZE_APIC_ACCESSES :: u32 where [vmx_bits]: "SECONDARY_EXEC_VIRTUALIZE_APIC_ACCESSES = 0x1"
definition SECONDARY_EXEC_ENABLE_EPT :: u32 where [vmx_bits]: "SECONDARY_EXEC_ENABLE_EPT = 0x2"
definition SECONDARY_EXEC_DESC :: u32 where [vmx_bits]: "SECONDARY_EXEC_DESC = 0x4"
definition SECONDARY_EXEC_ENABLE_RDTSCP :: u32 where [vmx_bits]: "SECONDARY_EXEC_ENABLE_RDTSCP = 0x8"
definition SECONDARY_EXEC_VIRTUALIZE_X2APIC_MODE :: u32 where [vmx_bits]: "SECONDARY_EXEC_VIRTUALIZE_X2APIC_MODE = 0x10"
definition SECONDARY_EXEC_ENABLE_VPID :: u32 where [vmx_bits]: "SECONDARY_EXEC_ENABLE_VPID = 0x20"
definition SECONDARY_EXEC_WBINVD_EXITING :: u32 where [vmx_bits]: "SECONDARY_EXEC_WBINVD_EXITING = 0x40"
definition SECONDARY_EXEC_UNRESTRICTED_GUEST :: u32 where [vmx_bits]: "SECONDARY_EXEC_UNRESTRICTED_GUEST = 0x80"
definition SECONDARY_EXEC_APIC_REGISTER_VIRT :: u32 where [vmx_bits]: "SECONDARY_EXEC_APIC_REGISTER_VIRT = 0x100"
definition SECONDARY_EXEC_VIRTUAL_INTR_DELIVERY :: u32 where [vmx_bits]: "SECONDARY_EXEC_VIRTUAL_INTR_DELIVERY = 0x200"
definition SECONDARY_EXEC_PAUSE_LOOP_EXITING :: u32 where [vmx_bits]: "SECONDARY_EXEC_PAUSE_LOOP_EXITING = 0x400"
definition SECONDARY_EXEC_RDRAND_EXITING :: u32 where [vmx_bits]: "SECONDARY_EXEC_RDRAND_EXITING = 0x800"
definition SECONDARY_EXEC_ENABLE_INVPCID :: u32 where [vmx_bits]: "SECONDARY_EXEC_ENABLE_INVPCID = 0x1000"
definition SECONDARY_EXEC_ENABLE_VMFUNC :: u32 where [vmx_bits]: "SECONDARY_EXEC_ENABLE_VMFUNC = 0x2000"
definition SECONDARY_EXEC_SHADOW_VMCS :: u32 where [vmx_bits]: "SECONDARY_EXEC_SHADOW_VMCS = 0x4000"
definition SECONDARY_EXEC_ENCLS_EXITING :: u32 where [vmx_bits]: "SECONDARY_EXEC_ENCLS_EXITING = 0x8000"
definition SECONDARY_EXEC_RDSEED_EXITING :: u32 where [vmx_bits]: "SECONDARY_EXEC_RDSEED_EXITING = 0x10000"
definition SECONDARY_EXEC_ENABLE_PML :: u32 where [vmx_bits]: "SECONDARY_EXEC_ENABLE_PML = 0x20000"
definition SECONDARY_EXEC_PT_CONCEAL_VMX :: u32 where [vmx_bits]: "SECONDARY_EXEC_PT_CONCEAL_VMX = 0x80000"
definition SECONDARY_EXEC_XSAVES :: u32 where [vmx_bits]: "SECONDARY_EXEC_XSAVES = 0x100000"
definition SECONDARY_EXEC_PT_USE_GPA :: u32 where [vmx_bits]: "SECONDARY_EXEC_PT_USE_GPA = 0x1000000"
definition SECONDARY_EXEC_TSC_SCALING :: u32 where [vmx_bits]: "SECONDARY_EXEC_TSC_SCALING = 0x2000000"
definition SECONDARY_EXEC_ENABLE_USR_WAIT_PAUSE :: u32 where [vmx_bits]: "SECONDARY_EXEC_ENABLE_USR_WAIT_PAUSE = 0x4000000"
definition SECONDARY_EXEC_BUS_LOCK_DETECTION :: u32 where [vmx_bits]: "SECONDARY_EXEC_BUS_LOCK_DETECTION = 0x40000000"
definition SECONDARY_EXEC_NOTIFY_VM_EXITING :: u32 where [vmx_bits]: "SECONDARY_EXEC_NOTIFY_VM_EXITING = 0x80000000"

definition PIN_BASED_EXT_INTR_MASK :: u32 where [vmx_bits]: "PIN_BASED_EXT_INTR_MASK = 0x1"
definition PIN_BASED_NMI_EXITING :: u32 where [vmx_bits]: "PIN_BASED_NMI_EXITING = 0x8"
definition PIN_BASED_VIRTUAL_NMIS :: u32 where [vmx_bits]: "PIN_BASED_VIRTUAL_NMIS = 0x20"
definition PIN_BASED_VMX_PREEMPTION_TIMER :: u32 where [vmx_bits]: "PIN_BASED_VMX_PREEMPTION_TIMER = 0x40"
definition PIN_BASED_POSTED_INTR :: u32 where [vmx_bits]: "PIN_BASED_POSTED_INTR = 0x80"

definition VM_EXIT_SAVE_DEBUG_CONTROLS :: u32 where [vmx_bits]: "VM_EXIT_SAVE_DEBUG_CONTROLS = 0x4"
definition VM_EXIT_HOST_ADDR_SPACE_SIZE :: u32 where [vmx_bits]: "VM_EXIT_HOST_ADDR_SPACE_SIZE = 0x200"
definition VM_EXIT_LOAD_IA32_PERF_GLOBAL_CTRL :: u32 where [vmx_bits]: "VM_EXIT_LOAD_IA32_PERF_GLOBAL_CTRL = 0x1000"
definition VM_EXIT_ACK_INTR_ON_EXIT :: u32 where [vmx_bits]: "VM_EXIT_ACK_INTR_ON_EXIT = 0x8000"
definition VM_EXIT_SAVE_IA32_PAT :: u32 where [vmx_bits]: "VM_EXIT_SAVE_IA32_PAT = 0x40000"
definition VM_EXIT_LOAD_IA32_PAT :: u32 where [vmx_bits]: "VM_EXIT_LOAD_IA32_PAT = 0x80000"
definition VM_EXIT_SAVE_IA32_EFER :: u32 where [vmx_bits]: "VM_EXIT_SAVE_IA32_EFER = 0x100000"
definition VM_EXIT_LOAD_IA32_EFER :: u32 where [vmx_bits]: "VM_EXIT_LOAD_IA32_EFER = 0x200000"
definition VM_EXIT_SAVE_VMX_PREEMPTION_TIMER :: u32 where [vmx_bits]: "VM_EXIT_SAVE_VMX_PREEMPTION_TIMER = 0x400000"
definition VM_EXIT_CLEAR_BNDCFGS :: u32 where [vmx_bits]: "VM_EXIT_CLEAR_BNDCFGS = 0x800000"
definition VM_EXIT_PT_CONCEAL_PIP :: u32 where [vmx_bits]: "VM_EXIT_PT_CONCEAL_PIP = 0x1000000"
definition VM_EXIT_CLEAR_IA32_RTIT_CTL :: u32 where [vmx_bits]: "VM_EXIT_CLEAR_IA32_RTIT_CTL = 0x2000000"

definition VM_ENTRY_LOAD_DEBUG_CONTROLS :: u32 where [vmx_bits]: "VM_ENTRY_LOAD_DEBUG_CONTROLS = 0x4"
definition VM_ENTRY_IA32E_MODE :: u32 where [vmx_bits]: "VM_ENTRY_IA32E_MODE = 0x200"
definition VM_ENTRY_LOAD_IA32_PERF_GLOBAL_CTRL :: u32 where [vmx_bits]: "VM_ENTRY_LOAD_IA32_PERF_GLOBAL_CTRL = 0x2000"
definition VM_ENTRY_LOAD_IA32_PAT :: u32 where [vmx_bits]: "VM_ENTRY_LOAD_IA32_PAT = 0x4000"
definition VM_ENTRY_LOAD_IA32_EFER :: u32 where [vmx_bits]: "VM_ENTRY_LOAD_IA32_EFER = 0x8000"
definition VM_ENTRY_LOAD_BNDCFGS :: u32 where [vmx_bits]: "VM_ENTRY_LOAD_BNDCFGS = 0x10000"
definition VM_ENTRY_PT_CONCEAL_PIP :: u32 where [vmx_bits]: "VM_ENTRY_PT_CONCEAL_PIP = 0x20000"
definition VM_ENTRY_LOAD_IA32_RTIT_CTL :: u32 where [vmx_bits]: "VM_ENTRY_LOAD_IA32_RTIT_CTL = 0x40000"

definition TERTIARY_EXEC_IPI_VIRT :: u64 where [vmx_bits]: "TERTIARY_EXEC_IPI_VIRT = 0x10"

definition KVM_REQUIRED_VMX_CPU_BASED_VM_EXEC_CONTROL :: u32 where [vmx_bits]:
  "KVM_REQUIRED_VMX_CPU_BASED_VM_EXEC_CONTROL =
     CPU_BASED_HLT_EXITING OR CPU_BASED_CR3_LOAD_EXITING OR CPU_BASED_CR3_STORE_EXITING OR CPU_BASED_UNCOND_IO_EXITING OR
     CPU_BASED_MOV_DR_EXITING OR CPU_BASED_USE_TSC_OFFSETTING OR CPU_BASED_MWAIT_EXITING OR CPU_BASED_MONITOR_EXITING OR
     CPU_BASED_INVLPG_EXITING OR CPU_BASED_RDPMC_EXITING OR CPU_BASED_INTR_WINDOW_EXITING OR
     CPU_BASED_CR8_LOAD_EXITING OR CPU_BASED_CR8_STORE_EXITING"

definition KVM_OPTIONAL_VMX_CPU_BASED_VM_EXEC_CONTROL :: u32 where [vmx_bits]:
  "KVM_OPTIONAL_VMX_CPU_BASED_VM_EXEC_CONTROL =
     CPU_BASED_RDTSC_EXITING OR CPU_BASED_TPR_SHADOW OR CPU_BASED_USE_IO_BITMAPS OR CPU_BASED_MONITOR_TRAP_FLAG OR
     CPU_BASED_USE_MSR_BITMAPS OR CPU_BASED_NMI_WINDOW_EXITING OR CPU_BASED_PAUSE_EXITING OR
     CPU_BASED_ACTIVATE_SECONDARY_CONTROLS OR CPU_BASED_ACTIVATE_TERTIARY_CONTROLS"

definition KVM_REQUIRED_VMX_SECONDARY_VM_EXEC_CONTROL :: u32 where [vmx_bits]: "KVM_REQUIRED_VMX_SECONDARY_VM_EXEC_CONTROL = 0"

definition KVM_OPTIONAL_VMX_SECONDARY_VM_EXEC_CONTROL :: u32 where [vmx_bits]:
  "KVM_OPTIONAL_VMX_SECONDARY_VM_EXEC_CONTROL =
     SECONDARY_EXEC_VIRTUALIZE_APIC_ACCESSES OR SECONDARY_EXEC_VIRTUALIZE_X2APIC_MODE OR SECONDARY_EXEC_WBINVD_EXITING OR
     SECONDARY_EXEC_ENABLE_VPID OR SECONDARY_EXEC_ENABLE_EPT OR SECONDARY_EXEC_UNRESTRICTED_GUEST OR
     SECONDARY_EXEC_PAUSE_LOOP_EXITING OR SECONDARY_EXEC_DESC OR SECONDARY_EXEC_ENABLE_RDTSCP OR SECONDARY_EXEC_ENABLE_INVPCID OR
     SECONDARY_EXEC_APIC_REGISTER_VIRT OR SECONDARY_EXEC_VIRTUAL_INTR_DELIVERY OR SECONDARY_EXEC_SHADOW_VMCS OR
     SECONDARY_EXEC_XSAVES OR SECONDARY_EXEC_RDSEED_EXITING OR SECONDARY_EXEC_RDRAND_EXITING OR SECONDARY_EXEC_ENABLE_PML OR
     SECONDARY_EXEC_TSC_SCALING OR SECONDARY_EXEC_ENABLE_USR_WAIT_PAUSE OR SECONDARY_EXEC_PT_USE_GPA OR
     SECONDARY_EXEC_PT_CONCEAL_VMX OR SECONDARY_EXEC_ENABLE_VMFUNC OR SECONDARY_EXEC_BUS_LOCK_DETECTION OR
     SECONDARY_EXEC_NOTIFY_VM_EXITING OR SECONDARY_EXEC_ENCLS_EXITING"

definition KVM_OPTIONAL_VMX_TERTIARY_VM_EXEC_CONTROL :: u64 where [vmx_bits]:
  "KVM_OPTIONAL_VMX_TERTIARY_VM_EXEC_CONTROL = TERTIARY_EXEC_IPI_VIRT"

definition KVM_REQUIRED_VMX_VM_EXIT_CONTROLS :: u32 where [vmx_bits]:
  "KVM_REQUIRED_VMX_VM_EXIT_CONTROLS = VM_EXIT_SAVE_DEBUG_CONTROLS OR VM_EXIT_ACK_INTR_ON_EXIT OR VM_EXIT_HOST_ADDR_SPACE_SIZE"

definition KVM_OPTIONAL_VMX_VM_EXIT_CONTROLS :: u32 where [vmx_bits]:
  "KVM_OPTIONAL_VMX_VM_EXIT_CONTROLS =
     VM_EXIT_LOAD_IA32_PERF_GLOBAL_CTRL OR VM_EXIT_SAVE_IA32_PAT OR VM_EXIT_LOAD_IA32_PAT OR VM_EXIT_SAVE_IA32_EFER OR
     VM_EXIT_SAVE_VMX_PREEMPTION_TIMER OR VM_EXIT_LOAD_IA32_EFER OR VM_EXIT_CLEAR_BNDCFGS OR VM_EXIT_PT_CONCEAL_PIP OR
     VM_EXIT_CLEAR_IA32_RTIT_CTL"

definition KVM_REQUIRED_VMX_PIN_BASED_VM_EXEC_CONTROL :: u32 where [vmx_bits]:
  "KVM_REQUIRED_VMX_PIN_BASED_VM_EXEC_CONTROL = PIN_BASED_EXT_INTR_MASK OR PIN_BASED_NMI_EXITING"

definition KVM_OPTIONAL_VMX_PIN_BASED_VM_EXEC_CONTROL :: u32 where [vmx_bits]:
  "KVM_OPTIONAL_VMX_PIN_BASED_VM_EXEC_CONTROL = PIN_BASED_VIRTUAL_NMIS OR PIN_BASED_POSTED_INTR OR PIN_BASED_VMX_PREEMPTION_TIMER"

definition KVM_REQUIRED_VMX_VM_ENTRY_CONTROLS :: u32 where [vmx_bits]:
  "KVM_REQUIRED_VMX_VM_ENTRY_CONTROLS = VM_ENTRY_LOAD_DEBUG_CONTROLS OR VM_ENTRY_IA32E_MODE"

definition KVM_OPTIONAL_VMX_VM_ENTRY_CONTROLS :: u32 where [vmx_bits]:
  "KVM_OPTIONAL_VMX_VM_ENTRY_CONTROLS =
     VM_ENTRY_LOAD_IA32_PERF_GLOBAL_CTRL OR VM_ENTRY_LOAD_IA32_PAT OR VM_ENTRY_LOAD_IA32_EFER OR VM_ENTRY_LOAD_BNDCFGS OR
     VM_ENTRY_PT_CONCEAL_PIP OR VM_ENTRY_LOAD_IA32_RTIT_CTL"

definition MSR_IA32_VMX_BASIC :: u32 where "MSR_IA32_VMX_BASIC = 0x480"
definition MSR_IA32_VMX_PINBASED_CTLS :: u32 where "MSR_IA32_VMX_PINBASED_CTLS = 0x481"
definition MSR_IA32_VMX_PROCBASED_CTLS :: u32 where "MSR_IA32_VMX_PROCBASED_CTLS = 0x482"
definition MSR_IA32_VMX_EXIT_CTLS :: u32 where "MSR_IA32_VMX_EXIT_CTLS = 0x483"
definition MSR_IA32_VMX_ENTRY_CTLS :: u32 where "MSR_IA32_VMX_ENTRY_CTLS = 0x484"
definition MSR_IA32_VMX_MISC :: u32 where "MSR_IA32_VMX_MISC = 0x485"
definition MSR_IA32_VMX_PROCBASED_CTLS2 :: u32 where "MSR_IA32_VMX_PROCBASED_CTLS2 = 0x48b"
definition MSR_IA32_VMX_EPT_VPID_CAP :: u32 where "MSR_IA32_VMX_EPT_VPID_CAP = 0x48c"
definition MSR_IA32_VMX_PROCBASED_CTLS3 :: u32 where "MSR_IA32_VMX_PROCBASED_CTLS3 = 0x492"

section \<open>Configuration\<close>

record vmcs_config =
  vmcs_size :: u32
  basic_cap :: u32
  revision_id :: u32
  pin_based_exec_ctrl :: u32
  cpu_based_exec_ctrl :: u32
  cpu_based_2nd_exec_ctrl :: u32
  cpu_based_3rd_exec_ctrl :: u64
  vmexit_ctrl :: u32
  vmentry_ctrl :: u32
  vmx_misc :: u64

record vmx_capability =
  cap_ept :: u32
  cap_vpid :: u32

definition zero_vmcs_config :: vmcs_config where
  "zero_vmcs_config = \<lparr>vmcs_size = 0, basic_cap = 0, revision_id = 0, pin_based_exec_ctrl = 0, cpu_based_exec_ctrl = 0,
     cpu_based_2nd_exec_ctrl = 0, cpu_based_3rd_exec_ctrl = 0, vmexit_ctrl = 0, vmentry_ctrl = 0, vmx_misc = 0\<rparr>"

definition STATUS_NOT_SUPPORTED :: int where "STATUS_NOT_SUPPORTED = -1073741637"

definition msr_low :: "u64 \<Rightarrow> u32" where "msr_low v = ucast v"
definition msr_high :: "u64 \<Rightarrow> u32" where "msr_high v = ucast (drop_bit 32 v)"

definition adjust_vmx_controls :: "(u32 \<Rightarrow> u64) \<Rightarrow> u32 \<Rightarrow> u32 \<Rightarrow> u32 \<Rightarrow> int + u32" where
  "adjust_vmx_controls msr ctl_min ctl_opt idx = (let
       ctl = ctl_min OR ctl_opt;
       vmx_msr = msr idx;
       ctl = ctl AND msr_high vmx_msr;
       ctl = ctl OR msr_low vmx_msr in
     if ctl_min AND NOT ctl \<noteq> 0 then Inl STATUS_NOT_SUPPORTED else Inr ctl)"

definition adjust_vmx_controls64 :: "(u32 \<Rightarrow> u64) \<Rightarrow> u64 \<Rightarrow> u32 \<Rightarrow> u64" where
  "adjust_vmx_controls64 msr ctl_opt idx = ctl_opt AND msr idx"

definition cpu_has_sgx :: "(u32 \<Rightarrow> u32) \<Rightarrow> bool" where
  "cpu_has_sgx cpuid_eax \<longleftrightarrow> 0x12 \<le> cpuid_eax 0 \<and> cpuid_eax 0x12 AND 1 \<noteq> 0"

definition vmx_preemption_cpu_tfms :: "u32 list" where
  "vmx_preemption_cpu_tfms = [0x000206E6, 0x00020652, 0x00020655, 0x000106E5, 0x000106A0, 0x000106A1, 0x000106A4, 0x000106A5, 0x000306A8]"

definition cpu_has_broken_vmx_preemption_timer :: "(u32 \<Rightarrow> u32) \<Rightarrow> bool" where
  "cpu_has_broken_vmx_preemption_timer cpuid_eax \<longleftrightarrow>
     cpuid_eax 1 AND NOT (push_bit 14 0x3 OR push_bit 28 0xf) \<in> set vmx_preemption_cpu_tfms"

definition vmcs_entry_exit_pairs :: "(u32 \<times> u32) list" where
  "vmcs_entry_exit_pairs =
     [(VM_ENTRY_LOAD_IA32_PERF_GLOBAL_CTRL, VM_EXIT_LOAD_IA32_PERF_GLOBAL_CTRL),
      (VM_ENTRY_LOAD_IA32_PAT, VM_EXIT_LOAD_IA32_PAT),
      (VM_ENTRY_LOAD_IA32_EFER, VM_EXIT_LOAD_IA32_EFER),
      (VM_ENTRY_LOAD_BNDCFGS, VM_EXIT_CLEAR_BNDCFGS),
      (VM_ENTRY_LOAD_IA32_RTIT_CTL, VM_EXIT_CLEAR_IA32_RTIT_CTL)]"

fun pair_controls :: "(u32 \<times> u32) list \<Rightarrow> u32 \<Rightarrow> u32 \<Rightarrow> u32 \<times> u32" where
  "pair_controls [] entry ex = (entry, ex)"
| "pair_controls ((n_ctrl, x_ctrl) # ps) entry ex =
     (if (entry AND n_ctrl = 0) = (ex AND x_ctrl = 0) then pair_controls ps entry ex
      else pair_controls ps (entry AND NOT n_ctrl) (ex AND NOT x_ctrl))"

text \<open>\<^verbatim>\<open>if (c) ctl &= ~bits;\<close>\<close>

definition clear_if :: "bool \<Rightarrow> u32 \<Rightarrow> u32 \<Rightarrow> u32" where
  "clear_if c bits w = (if c then w AND NOT bits else w)"

text \<open>The result is the status, \<^verbatim>\<open>*vmcs_conf\<close> and \<^verbatim>\<open>*vmx_cap\<close>; \<open>cap0\<close> is what the latter held.\<close>

definition setup_vmcs_config ::
  "(u32 \<Rightarrow> u64) \<Rightarrow> (u32 \<Rightarrow> u32) \<Rightarrow> vmx_capability \<Rightarrow> int \<times> vmcs_config \<times> vmx_capability" where
  "setup_vmcs_config msr cpuid_eax cap0 =
     (case adjust_vmx_controls msr KVM_REQUIRED_VMX_CPU_BASED_VM_EXEC_CONTROL KVM_OPTIONAL_VMX_CPU_BASED_VM_EXEC_CONTROL
        MSR_IA32_VMX_PROCBASED_CTLS of
        Inl _ \<Rightarrow> (STATUS_UNSUCCESSFUL, zero_vmcs_config, cap0)
      | Inr cpu \<Rightarrow>
     (case (if cpu AND CPU_BASED_ACTIVATE_SECONDARY_CONTROLS \<noteq> 0
            then adjust_vmx_controls msr KVM_REQUIRED_VMX_SECONDARY_VM_EXEC_CONTROL KVM_OPTIONAL_VMX_SECONDARY_VM_EXEC_CONTROL
              MSR_IA32_VMX_PROCBASED_CTLS2
            else Inr 0) of
        Inl _ \<Rightarrow> (STATUS_UNSUCCESSFUL, zero_vmcs_config, cap0)
      | Inr cpu2 \<Rightarrow> (let
          cpu2 = clear_if (cpu AND CPU_BASED_TPR_SHADOW = 0)
            (SECONDARY_EXEC_APIC_REGISTER_VIRT OR SECONDARY_EXEC_VIRTUALIZE_X2APIC_MODE OR SECONDARY_EXEC_VIRTUAL_INTR_DELIVERY) cpu2;
          ept_vpid = msr MSR_IA32_VMX_EPT_VPID_CAP;
          cap = \<lparr>cap_ept = (if cpu2 AND SECONDARY_EXEC_ENABLE_EPT = 0 then 0 else msr_low ept_vpid),
                 cap_vpid = (if cpu2 AND SECONDARY_EXEC_ENABLE_VPID = 0 then 0 else msr_high ept_vpid)\<rparr>;
          cpu2 = clear_if (\<not> cpu_has_sgx cpuid_eax) SECONDARY_EXEC_ENCLS_EXITING cpu2;
          cpu3 = (if cpu AND CPU_BASED_ACTIVATE_TERTIARY_CONTROLS \<noteq> 0
            then adjust_vmx_controls64 msr KVM_OPTIONAL_VMX_TERTIARY_VM_EXEC_CONTROL MSR_IA32_VMX_PROCBASED_CTLS3 else 0) in
     (case adjust_vmx_controls msr KVM_REQUIRED_VMX_VM_EXIT_CONTROLS KVM_OPTIONAL_VMX_VM_EXIT_CONTROLS MSR_IA32_VMX_EXIT_CTLS of
        Inl _ \<Rightarrow> (STATUS_UNSUCCESSFUL, zero_vmcs_config, cap)
      | Inr ex \<Rightarrow>
     (case adjust_vmx_controls msr KVM_REQUIRED_VMX_PIN_BASED_VM_EXEC_CONTROL KVM_OPTIONAL_VMX_PIN_BASED_VM_EXEC_CONTROL
        MSR_IA32_VMX_PINBASED_CTLS of
        Inl _ \<Rightarrow> (STATUS_UNSUCCESSFUL, zero_vmcs_config, cap)
      | Inr pin \<Rightarrow> (let
          pin = clear_if (cpu_has_broken_vmx_preemption_timer cpuid_eax) PIN_BASED_VMX_PREEMPTION_TIMER pin;
          pin = clear_if (cpu2 AND SECONDARY_EXEC_VIRTUAL_INTR_DELIVERY = 0) PIN_BASED_POSTED_INTR pin in
     (case adjust_vmx_controls msr KVM_REQUIRED_VMX_VM_ENTRY_CONTROLS KVM_OPTIONAL_VMX_VM_ENTRY_CONTROLS MSR_IA32_VMX_ENTRY_CTLS of
        Inl _ \<Rightarrow> (STATUS_UNSUCCESSFUL, zero_vmcs_config, cap)
      | Inr entry \<Rightarrow> (let
          (entry, ex) = pair_controls vmcs_entry_exit_pairs entry ex;
          basic_low = msr_low (msr MSR_IA32_VMX_BASIC);
          basic_high = msr_high (msr MSR_IA32_VMX_BASIC) in
        if 4096 < basic_high AND 0x1fff then (STATUS_UNSUCCESSFUL, zero_vmcs_config, cap)
        else if basic_high AND push_bit 16 1 \<noteq> 0 then (STATUS_UNSUCCESSFUL, zero_vmcs_config, cap)
        else if drop_bit 18 basic_high AND 15 \<noteq> 6 then (STATUS_UNSUCCESSFUL, zero_vmcs_config, cap)
        else (STATUS_SUCCESS,
          \<lparr>vmcs_size = basic_high AND 0x1fff, basic_cap = basic_high AND NOT 0x1fff, revision_id = basic_low,
           pin_based_exec_ctrl = pin, cpu_based_exec_ctrl = cpu, cpu_based_2nd_exec_ctrl = cpu2, cpu_based_3rd_exec_ctrl = cpu3,
           vmexit_ctrl = ex, vmentry_ctrl = entry, vmx_misc = msr MSR_IA32_VMX_MISC\<rparr>, cap)))))))))"

text \<open>\<^verbatim>\<open>memcmp\<close> over the global configuration, whose nested part is zero on both sides; \<open>vmx_supported\<close> is \<^verbatim>\<open>kvm_is_vmx_supported\<close>.\<close>

definition vmx_check_processor_compat :: "bool \<Rightarrow> (u32 \<Rightarrow> u64) \<Rightarrow> (u32 \<Rightarrow> u32) \<Rightarrow> vmx_capability \<Rightarrow> vmcs_config \<Rightarrow> int" where
  "vmx_check_processor_compat vmx_supported msr cpuid_eax cap0 conf =
     (if \<not> vmx_supported then STATUS_UNSUCCESSFUL
      else let (r, conf', cap) = setup_vmcs_config msr cpuid_eax cap0 in
        if r < 0 then STATUS_UNSUCCESSFUL
        else if conf \<noteq> conf' then STATUS_UNSUCCESSFUL
        else STATUS_SUCCESS)"

end
