(* ===== verification/Vmx_Words.thy ===== *)
theory Vmx_Words
  imports Vmx_Controls
begin

text \<open>
  The control words that \<^verbatim>\<open>init_vmcs\<close> of \<^verbatim>\<open>src/svmx/vmx.c\<close> programs, derived from the configuration,
  and the shadow copies of \<^verbatim>\<open>BUILD_CONTROLS_SHADOW\<close> in \<^verbatim>\<open>vmx.h\<close>, through which they are written: a word
  is written to the VMCS only when it differs from the last one written.
\<close>

section \<open>Words\<close>

text \<open>
  What the words depend on besides the configuration: \<open>wont_exit\<close> is the KVM_DEBUGREG_WONT_EXIT bit of
  \<^verbatim>\<open>switch_db_regs\<close>, \<open>pt_system\<close> is \<^verbatim>\<open>vmx_pt_mode_is_system()\<close>, \<open>nested_high\<close> and \<open>nested_low\<close> are the
  \<^verbatim>\<open>secondary_ctls\<close> halves in the vCPU's nested MSRs, \<open>conf_nested_high\<close> the one in the configuration.
\<close>

record vmx_vcpu =
  wont_exit :: bool
  mwait_in_guest :: bool
  hlt_in_guest :: bool
  bus_lock_detection_enabled :: bool
  notify_vmexit_flags :: u64
  vmx_vpid :: u32
  pt_system :: bool
  enable_ept :: bool
  enable_unrestricted_guest :: bool
  nested_on :: bool
  conf_nested_high :: u32
  nested_high :: u32
  nested_low :: u32
  xsaves_enabled :: bool

definition vmx_pin_based_exec_ctrl :: "vmcs_config \<Rightarrow> u32" where
  "vmx_pin_based_exec_ctrl conf = (let
       w = pin_based_exec_ctrl conf;
       w = w AND NOT PIN_BASED_POSTED_INTR;
       w = w AND NOT PIN_BASED_VIRTUAL_NMIS;
       w = w AND NOT PIN_BASED_VMX_PREEMPTION_TIMER in
     w AND NOT (PIN_BASED_NMI_EXITING OR PIN_BASED_EXT_INTR_MASK))"

definition cpu_has_vmx_tpr_shadow :: "vmcs_config \<Rightarrow> bool" where
  "cpu_has_vmx_tpr_shadow conf \<longleftrightarrow> cpu_based_exec_ctrl conf AND CPU_BASED_TPR_SHADOW \<noteq> 0"

definition lapic_in_kernel :: "vmx_vcpu \<Rightarrow> bool" where "lapic_in_kernel v = True"

definition cpu_need_tpr_shadow :: "vmcs_config \<Rightarrow> vmx_vcpu \<Rightarrow> bool" where
  "cpu_need_tpr_shadow conf v \<longleftrightarrow> cpu_has_vmx_tpr_shadow conf \<and> lapic_in_kernel v"

definition vmx_exec_control :: "vmcs_config \<Rightarrow> vmx_vcpu \<Rightarrow> u32" where
  "vmx_exec_control conf v = (let
       w = cpu_based_exec_ctrl conf;
       w = w AND NOT (CPU_BASED_RDTSC_EXITING OR CPU_BASED_USE_IO_BITMAPS OR CPU_BASED_MONITOR_TRAP_FLAG OR CPU_BASED_PAUSE_EXITING);
       w = w AND NOT (CPU_BASED_INTR_WINDOW_EXITING OR CPU_BASED_NMI_WINDOW_EXITING);
       w = clear_if (wont_exit v) CPU_BASED_MOV_DR_EXITING w;
       w = clear_if (\<not> cpu_need_tpr_shadow conf v) CPU_BASED_TPR_SHADOW w;
       w = (if w AND CPU_BASED_TPR_SHADOW \<noteq> 0 then w AND NOT (CPU_BASED_CR8_LOAD_EXITING OR CPU_BASED_CR8_STORE_EXITING)
            else w OR (CPU_BASED_CR8_STORE_EXITING OR CPU_BASED_CR8_LOAD_EXITING));
       w = clear_if (enable_ept v) (CPU_BASED_CR3_LOAD_EXITING OR CPU_BASED_CR3_STORE_EXITING OR CPU_BASED_INVLPG_EXITING) w;
       w = clear_if (mwait_in_guest v) (CPU_BASED_MWAIT_EXITING OR CPU_BASED_MONITOR_EXITING) w;
       w = clear_if (hlt_in_guest v) CPU_BASED_HLT_EXITING w;
       w = w AND NOT (CPU_BASED_MONITOR_EXITING OR CPU_BASED_UNCOND_IO_EXITING OR CPU_BASED_TPR_SHADOW OR CPU_BASED_MWAIT_EXITING OR
         CPU_BASED_RDPMC_EXITING OR CPU_BASED_HLT_EXITING OR CPU_BASED_USE_TSC_OFFSETTING) in
     w OR (CPU_BASED_CR3_LOAD_EXITING OR CPU_BASED_MOV_DR_EXITING OR CPU_BASED_USE_IO_BITMAPS))"

text \<open>\<^verbatim>\<open>enabled\<close> and \<^verbatim>\<open>exiting\<close> as in the source; the vCPU's nested MSRs follow.\<close>

definition vmx_adjust_secondary_exec_control :: "u32 \<Rightarrow> bool \<Rightarrow> bool \<Rightarrow> u32 \<times> vmx_vcpu \<Rightarrow> u32 \<times> vmx_vcpu" where
  "vmx_adjust_secondary_exec_control control enabled exiting = (\<lambda>(w, v). (let
       w = clear_if (enabled = exiting) control w in
     if nested_on v then
       let enabled = (if conf_nested_high v AND control = 0 then False else enabled) in
       (w, if enabled then v\<lparr>nested_high := nested_high v OR control\<rparr> else v\<lparr>nested_low := nested_low v AND NOT control\<rparr>)
     else (w, v)))"

text \<open>\<^verbatim>\<open>vmx_adjust_sec_exec_control\<close>: the feature is enabled whenever the processor has the control.\<close>

definition vmx_adjust_sec_exec_control :: "vmcs_config \<Rightarrow> u32 \<Rightarrow> bool \<Rightarrow> u32 \<times> vmx_vcpu \<Rightarrow> u32 \<times> vmx_vcpu" where
  "vmx_adjust_sec_exec_control conf control exiting s =
     (if cpu_based_2nd_exec_ctrl conf AND control \<noteq> 0 then vmx_adjust_secondary_exec_control control True exiting s else s)"

definition clear_bits :: "bool \<Rightarrow> u32 \<Rightarrow> u32 \<times> vmx_vcpu \<Rightarrow> u32 \<times> vmx_vcpu" where
  "clear_bits c bits = (\<lambda>(w, v). (clear_if c bits w, v))"

definition vmx_secondary_exec_control :: "vmcs_config \<Rightarrow> vmx_vcpu \<Rightarrow> u32 \<times> vmx_vcpu" where
  "vmx_secondary_exec_control conf v = (let
       s = (cpu_based_2nd_exec_ctrl conf, v);
       s = clear_bits (pt_system v) (SECONDARY_EXEC_PT_USE_GPA OR SECONDARY_EXEC_PT_CONCEAL_VMX) s;
       s = clear_bits (vmx_vpid v = 0) SECONDARY_EXEC_ENABLE_VPID s;
       s = clear_bits (\<not> enable_ept v) SECONDARY_EXEC_ENABLE_EPT s;
       s = (fst s, if enable_ept v then snd s else (snd s)\<lparr>enable_unrestricted_guest := False\<rparr>);
       s = clear_bits (\<not> enable_unrestricted_guest (snd s)) SECONDARY_EXEC_UNRESTRICTED_GUEST s;
       s = clear_bits True SECONDARY_EXEC_VIRTUALIZE_X2APIC_MODE s;
       s = clear_bits True SECONDARY_EXEC_ENABLE_VMFUNC s;
       s = clear_bits True SECONDARY_EXEC_DESC s;
       s = clear_bits True SECONDARY_EXEC_SHADOW_VMCS s;
       s = (if cpu_based_2nd_exec_ctrl conf AND SECONDARY_EXEC_XSAVES \<noteq> 0
            then vmx_adjust_secondary_exec_control SECONDARY_EXEC_XSAVES True False (fst s, (snd s)\<lparr>xsaves_enabled := True\<rparr>) else s);
       s = vmx_adjust_sec_exec_control conf SECONDARY_EXEC_ENABLE_RDTSCP False s;
       s = vmx_adjust_sec_exec_control conf SECONDARY_EXEC_ENABLE_INVPCID False s;
       s = vmx_adjust_sec_exec_control conf SECONDARY_EXEC_RDRAND_EXITING True s;
       s = vmx_adjust_sec_exec_control conf SECONDARY_EXEC_RDSEED_EXITING True s;
       s = vmx_adjust_sec_exec_control conf SECONDARY_EXEC_ENABLE_USR_WAIT_PAUSE False s;
       s = clear_bits (\<not> bus_lock_detection_enabled v) SECONDARY_EXEC_BUS_LOCK_DETECTION s;
       s = clear_bits (notify_vmexit_flags v AND 1 = 0) SECONDARY_EXEC_NOTIFY_VM_EXITING s;
       s = clear_bits True (SECONDARY_EXEC_WBINVD_EXITING OR SECONDARY_EXEC_PAUSE_LOOP_EXITING) s in
     (fst s OR SECONDARY_EXEC_DESC, snd s))"

definition vmx_vmexit_ctrl :: "vmcs_config \<Rightarrow> vmx_vcpu \<Rightarrow> u32" where
  "vmx_vmexit_ctrl conf v = (let
       w = vmexit_ctrl conf;
       w = w AND NOT (VM_EXIT_SAVE_IA32_PAT OR VM_EXIT_SAVE_IA32_EFER OR VM_EXIT_SAVE_VMX_PREEMPTION_TIMER);
       w = clear_if (pt_system v) (VM_EXIT_PT_CONCEAL_PIP OR VM_EXIT_CLEAR_IA32_RTIT_CTL) w;
       w = w AND NOT (VM_EXIT_LOAD_IA32_PERF_GLOBAL_CTRL OR VM_EXIT_LOAD_IA32_EFER) in
     w AND NOT (VM_EXIT_LOAD_IA32_PAT OR VM_EXIT_ACK_INTR_ON_EXIT OR VM_EXIT_SAVE_DEBUG_CONTROLS))"

definition vmx_vmentry_ctrl :: "vmcs_config \<Rightarrow> vmx_vcpu \<Rightarrow> u32" where
  "vmx_vmentry_ctrl conf v = (let
       w = vmentry_ctrl conf;
       w = clear_if (pt_system v) (VM_ENTRY_PT_CONCEAL_PIP OR VM_ENTRY_LOAD_IA32_RTIT_CTL) w;
       w = w AND NOT (VM_ENTRY_LOAD_IA32_PERF_GLOBAL_CTRL OR VM_ENTRY_LOAD_IA32_EFER OR VM_ENTRY_IA32E_MODE);
       w = w AND NOT (VM_ENTRY_LOAD_IA32_PAT OR VM_ENTRY_LOAD_IA32_EFER) in
     w OR VM_ENTRY_IA32E_MODE)"

section \<open>Shadowed controls\<close>

text \<open>The fields of the VMCS and the last value written to each of the five 32-bit controls.\<close>

record loaded_vmcs =
  vmcs_field :: "u32 \<Rightarrow> u64"
  sh_vm_entry :: u32
  sh_vm_exit :: u32
  sh_pin :: u32
  sh_exec :: u32
  sh_secondary_exec :: u32

definition PIN_BASED_VM_EXEC_CONTROL :: u32 where "PIN_BASED_VM_EXEC_CONTROL = 0x4000"
definition CPU_BASED_VM_EXEC_CONTROL :: u32 where "CPU_BASED_VM_EXEC_CONTROL = 0x4002"
definition VM_EXIT_CONTROLS :: u32 where "VM_EXIT_CONTROLS = 0x400c"
definition VM_ENTRY_CONTROLS :: u32 where "VM_ENTRY_CONTROLS = 0x4012"
definition SECONDARY_VM_EXEC_CONTROL :: u32 where "SECONDARY_VM_EXEC_CONTROL = 0x401e"

lemmas control_fields = PIN_BASED_VM_EXEC_CONTROL_def CPU_BASED_VM_EXEC_CONTROL_def VM_EXIT_CONTROLS_def VM_ENTRY_CONTROLS_def
  SECONDARY_VM_EXEC_CONTROL_def

definition vmcs_write32 :: "u32 \<Rightarrow> u32 \<Rightarrow> loaded_vmcs \<Rightarrow> loaded_vmcs" where
  "vmcs_write32 f w l = l\<lparr>vmcs_field := (vmcs_field l)(f := ucast w)\<rparr>"

text \<open>The operations that the macro makes, for a shadow \<open>sh\<close> with update \<open>upd\<close> and a field \<open>f\<close>.\<close>

definition controls_set :: "(loaded_vmcs \<Rightarrow> u32) \<Rightarrow> ((u32 \<Rightarrow> u32) \<Rightarrow> loaded_vmcs \<Rightarrow> loaded_vmcs) \<Rightarrow> u32 \<Rightarrow> u32 \<Rightarrow> loaded_vmcs \<Rightarrow> loaded_vmcs" where
  "controls_set sh upd f w l = (if sh l \<noteq> w then upd (\<lambda>_. w) (vmcs_write32 f w l) else l)"

definition controls_setbit :: "(loaded_vmcs \<Rightarrow> u32) \<Rightarrow> ((u32 \<Rightarrow> u32) \<Rightarrow> loaded_vmcs \<Rightarrow> loaded_vmcs) \<Rightarrow> u32 \<Rightarrow> u32 \<Rightarrow> loaded_vmcs \<Rightarrow> loaded_vmcs" where
  "controls_setbit sh upd f w l = controls_set sh upd f (sh l OR w) l"

definition controls_clearbit :: "(loaded_vmcs \<Rightarrow> u32) \<Rightarrow> ((u32 \<Rightarrow> u32) \<Rightarrow> loaded_vmcs \<Rightarrow> loaded_vmcs) \<Rightarrow> u32 \<Rightarrow> u32 \<Rightarrow> loaded_vmcs \<Rightarrow> loaded_vmcs" where
  "controls_clearbit sh upd f w l = controls_set sh upd f (sh l AND NOT w) l"

abbreviation "pin_controls_set \<equiv> controls_set sh_pin sh_pin_update PIN_BASED_VM_EXEC_CONTROL"
abbreviation "exec_controls_set \<equiv> controls_set sh_exec sh_exec_update CPU_BASED_VM_EXEC_CONTROL"
abbreviation "secondary_exec_controls_set \<equiv> controls_set sh_secondary_exec sh_secondary_exec_update SECONDARY_VM_EXEC_CONTROL"
abbreviation "vm_exit_controls_set \<equiv> controls_set sh_vm_exit sh_vm_exit_update VM_EXIT_CONTROLS"
abbreviation "vm_entry_controls_set \<equiv> controls_set sh_vm_entry sh_vm_entry_update VM_ENTRY_CONTROLS"

text \<open>
  A shadowed control: its shadow and its field are independent of the other controls. What a client
  relies on is that the field always holds the shadow.
\<close>

locale shadowed_control =
  fixes sh :: "loaded_vmcs \<Rightarrow> u32" and upd :: "(u32 \<Rightarrow> u32) \<Rightarrow> loaded_vmcs \<Rightarrow> loaded_vmcs" and f :: u32
  assumes sh_upd: "sh (upd g l) = g (sh l)" and field_upd: "vmcs_field (upd g l) = vmcs_field l"
    and sh_write: "sh (vmcs_write32 f' w l) = sh l"
begin

definition coherent :: "loaded_vmcs \<Rightarrow> bool" where
  "coherent l \<longleftrightarrow> vmcs_field l f = ucast (sh l)"

lemma set_writes:
  assumes "coherent l"
  shows "coherent (controls_set sh upd f w l)" and "sh (controls_set sh upd f w l) = w" and "vmcs_field (controls_set sh upd f w l) f = ucast w"
  using assms by (auto simp: coherent_def controls_set_def sh_upd field_upd sh_write vmcs_write32_def)

lemma set_frame: "f' \<noteq> f \<Longrightarrow> vmcs_field (controls_set sh upd f w l) f' = vmcs_field l f'"
  by (simp add: controls_set_def field_upd vmcs_write32_def)

lemma setbit_then_get: "coherent l \<Longrightarrow> sh (controls_setbit sh upd f w l) AND w = w"
  by (simp add: controls_setbit_def set_writes)

lemma clearbit_then_get: "coherent l \<Longrightarrow> sh (controls_clearbit sh upd f w l) AND w = 0"
  by (simp add: controls_clearbit_def set_writes and.assoc)

end

interpretation pin_control: shadowed_control sh_pin sh_pin_update PIN_BASED_VM_EXEC_CONTROL
  by unfold_locales (simp_all add: vmcs_write32_def)

interpretation exec_control: shadowed_control sh_exec sh_exec_update CPU_BASED_VM_EXEC_CONTROL
  by unfold_locales (simp_all add: vmcs_write32_def)

interpretation secondary_control: shadowed_control sh_secondary_exec sh_secondary_exec_update SECONDARY_VM_EXEC_CONTROL
  by unfold_locales (simp_all add: vmcs_write32_def)

interpretation exit_control: shadowed_control sh_vm_exit sh_vm_exit_update VM_EXIT_CONTROLS
  by unfold_locales (simp_all add: vmcs_write32_def)

interpretation entry_control: shadowed_control sh_vm_entry sh_vm_entry_update VM_ENTRY_CONTROLS
  by unfold_locales (simp_all add: vmcs_write32_def)

text \<open>The order in which \<^verbatim>\<open>init_vmcs\<close> programs the controls; the whole of it is in \<^verbatim>\<open>Vcpu_Reset\<close>.\<close>

definition init_vmcs_controls :: "vmcs_config \<Rightarrow> vmx_vcpu \<Rightarrow> loaded_vmcs \<Rightarrow> vmx_vcpu \<times> loaded_vmcs" where
  "init_vmcs_controls conf v l = (let
       l = pin_controls_set (vmx_pin_based_exec_ctrl conf) l;
       l = exec_controls_set (vmx_exec_control conf v) l;
       (v, l) = (if cpu_based_exec_ctrl conf AND CPU_BASED_ACTIVATE_SECONDARY_CONTROLS \<noteq> 0
         then let (w, v) = vmx_secondary_exec_control conf v in (v, secondary_exec_controls_set w l)
         else (v, l));
       l = vm_exit_controls_set (vmx_vmexit_ctrl conf v) l;
       l = vm_entry_controls_set (vmx_vmentry_ctrl conf v) l in
     (v, l))"

end
