(* ===== verification/Vmx_Props.thy ===== *)
theory Vmx_Props
  imports Vmx_Words
begin

text \<open>
  The configuration lies within what the processor allows and is consistent, and so are the words
  programmed into a VMCS, up to two controls that are switched on without asking the processor.
\<close>

section \<open>Words within words\<close>

definition within :: "'a::len word \<Rightarrow> 'a word \<Rightarrow> bool" where
  "within w h \<longleftrightarrow> (\<forall>n. bit w n \<longrightarrow> bit h n)"

lemma within_iff: "within w h \<longleftrightarrow> w AND NOT h = 0"
proof
  assume "within w h"
  then show "w AND NOT h = 0" by (intro bit_eqI) (auto simp: within_def bit_and_iff)
next
  assume a: "w AND NOT h = 0"
  have "bit h n" if "bit w n" for n
    using arg_cong [OF a, of "\<lambda>x. bit x n"] that by (auto simp: bit_and_iff dest: bit_imp_le_length)
  then show "within w h" by (simp add: within_def)
qed

named_theorems within_intro \<open>how operations on control words stay within a word\<close>

lemma within_zero [within_intro, simp]: "within 0 h"
  by (simp add: within_def)

lemma within_and [within_intro]: "within w h \<Longrightarrow> within (w AND m) h"
  by (simp add: within_def bit_and_iff)

lemma within_or [within_intro]: "within w h \<Longrightarrow> within m h \<Longrightarrow> within (w OR m) h"
  by (auto simp: within_def bit_or_iff)

lemma within_clear_if [within_intro]: "within w h \<Longrightarrow> within (clear_if c m w) h"
  by (simp add: clear_if_def within_and)

lemma within_trans: "within a b \<Longrightarrow> within b c \<Longrightarrow> within a c"
  by (auto simp: within_def)

text \<open>A required set survives the clearing of bits it does not have.\<close>

lemma within_keep:
  assumes "within r w" and "r AND m = 0"
  shows "within r (w AND NOT m)"
proof -
  have "\<not> bit m n" if "bit r n" for n
    using arg_cong [OF assms(2), of "\<lambda>x. bit x n"] that by (simp add: bit_and_iff)
  then show ?thesis using assms(1) by (auto simp: within_def bit_and_iff dest: bit_imp_le_length)
qed

lemma within_keep_if: "within r w \<Longrightarrow> r AND m = 0 \<Longrightarrow> within r (clear_if c m w)"
  by (simp add: clear_if_def within_keep)

lemma and_clear_disjoint: "(a :: 'a::len word) AND m = 0 \<Longrightarrow> (w AND NOT m) AND a = w AND a"
  by (rule bit_eqI) (metis (no_types, lifting) bit_and_iff bit_not_iff bit_imp_possible_bit bit_0_eq bot_apply bot_bool_def)

lemma and_clear_self: "(w AND NOT m) AND m = (0 :: 'a::len word)"
  by (rule bit_eqI) (auto simp: bit_and_iff)

section \<open>Adjusting to the processor\<close>

lemma adjust_sound:
  assumes "adjust_vmx_controls msr ctl_min ctl_opt idx = Inr c" and "within (msr_low (msr idx)) (msr_high (msr idx))"
  shows "within c (msr_high (msr idx))" and "within ctl_min c" and "within (msr_low (msr idx)) c"
proof -
  have c: "c = (ctl_min OR ctl_opt) AND msr_high (msr idx) OR msr_low (msr idx)" and m: "within ctl_min c"
    using assms(1) by (auto simp: adjust_vmx_controls_def Let_def within_iff split: if_splits)
  show "within c (msr_high (msr idx))" using assms(2) by (auto simp: c within_def bit_or_iff bit_and_iff)
  show "within ctl_min c" by (fact m)
  show "within (msr_low (msr idx)) c" by (auto simp: c within_def bit_or_iff)
qed

section \<open>Entry and exit pairs\<close>

definition paired :: "u32 \<times> u32 \<Rightarrow> u32 \<times> u32 \<Rightarrow> bool" where
  "paired w p \<longleftrightarrow> (fst w AND fst p = 0) = (snd w AND snd p = 0)"

lemma pair_controls_frame:
  assumes "\<forall>p\<in>set ps. n AND fst p = 0 \<and> x AND snd p = 0"
  shows "fst (pair_controls ps e d) AND n = e AND n \<and> snd (pair_controls ps e d) AND x = d AND x"
  using assms by (induction ps e d rule: pair_controls.induct) (simp_all add: and_clear_disjoint)

lemma pair_controls_paired:
  assumes "sorted_wrt (\<lambda>p q. fst p AND fst q = 0 \<and> snd p AND snd q = 0) ps" and "p \<in> set ps"
  shows "paired (pair_controls ps e d) p"
  using assms
proof (induction ps e d rule: pair_controls.induct)
  case (2 n x ps e d)
  have frame: "fst (pair_controls ps e' d') AND n = e' AND n" "snd (pair_controls ps e' d') AND x = d' AND x" for e' d'
    using pair_controls_frame [of ps n x e' d'] 2(3) by auto
  show ?case
  proof (cases "p = (n, x)")
    case True
    then show ?thesis by (simp add: paired_def frame and_clear_self)
  next
    case False
    then show ?thesis using 2 by simp
  qed
qed simp

lemma pair_controls_within: "within e h \<Longrightarrow> within d g \<Longrightarrow>
    within (fst (pair_controls ps e d)) h \<and> within (snd (pair_controls ps e d)) g"
  by (induction ps e d rule: pair_controls.induct) (simp_all add: within_and)

lemma pair_controls_keep:
  assumes "\<forall>p\<in>set ps. n AND fst p = 0 \<and> x AND snd p = 0" and "within n e" "within x d"
  shows "within n (fst (pair_controls ps e d)) \<and> within x (snd (pair_controls ps e d))"
  using assms by (induction ps e d rule: pair_controls.induct) (simp_all add: within_keep)

lemma bit_pair_controls:
  "(bit e b \<longrightarrow> bit (fst (pair_controls ps e d)) b \<or> bit (foldr (OR) (map fst ps) 0) b) \<and>
   (bit d b \<longrightarrow> bit (snd (pair_controls ps e d)) b \<or> bit (foldr (OR) (map snd ps) 0) b)"
proof (induction ps e d rule: pair_controls.induct)
  case (2 n x ps e d)
  then show ?case
    by (cases "(e AND n = 0) = (d AND x = 0)")
      (auto simp: bit_or_iff bit_and_iff bit_not_iff dest: bit_imp_le_length)
qed simp

lemma pair_controls_forced:
  assumes "within r e" and "within q d"
  shows "within r (fst (pair_controls ps e d) OR foldr (OR) (map fst ps) 0)"
    and "within q (snd (pair_controls ps e d) OR foldr (OR) (map snd ps) 0)"
  using assms bit_pair_controls by (auto simp: within_def bit_or_iff)

lemma within_or_clear_if:
  "within r w \<Longrightarrow> within r (clear_if c m w OR m)"
  "within r (w OR d) \<Longrightarrow> within r (clear_if c m w OR (m OR d))"
  by (auto simp: clear_if_def within_def bit_or_iff bit_and_iff bit_not_iff dest: bit_imp_le_length)

lemma vmcs_pairs_apart:
  "sorted_wrt (\<lambda>p q. fst p AND fst q = 0 \<and> snd p AND snd q = 0) vmcs_entry_exit_pairs"
  "\<forall>p\<in>set vmcs_entry_exit_pairs. KVM_REQUIRED_VMX_VM_ENTRY_CONTROLS AND fst p = 0 \<and> KVM_REQUIRED_VMX_VM_EXIT_CONTROLS AND snd p = 0"
  by (simp_all add: vmcs_entry_exit_pairs_def vmx_bits)

section \<open>The configuration\<close>

text \<open>What the processor promises of a capability MSR: a bit that must be one may be one.\<close>

definition caps_ok :: "(u32 \<Rightarrow> u64) \<Rightarrow> bool" where
  "caps_ok msr \<longleftrightarrow> (\<forall>idx \<in> {MSR_IA32_VMX_PINBASED_CTLS, MSR_IA32_VMX_PROCBASED_CTLS, MSR_IA32_VMX_PROCBASED_CTLS2,
     MSR_IA32_VMX_EXIT_CTLS, MSR_IA32_VMX_ENTRY_CTLS}. within (msr_low (msr idx)) (msr_high (msr idx)))"

definition conf_allowed :: "(u32 \<Rightarrow> u64) \<Rightarrow> vmcs_config \<Rightarrow> bool" where
  "conf_allowed msr conf \<longleftrightarrow>
     within (pin_based_exec_ctrl conf) (msr_high (msr MSR_IA32_VMX_PINBASED_CTLS)) \<and>
     within (cpu_based_exec_ctrl conf) (msr_high (msr MSR_IA32_VMX_PROCBASED_CTLS)) \<and>
     within (cpu_based_2nd_exec_ctrl conf) (msr_high (msr MSR_IA32_VMX_PROCBASED_CTLS2)) \<and>
     within (cpu_based_3rd_exec_ctrl conf) (msr MSR_IA32_VMX_PROCBASED_CTLS3) \<and>
     within (vmexit_ctrl conf) (msr_high (msr MSR_IA32_VMX_EXIT_CTLS)) \<and>
     within (vmentry_ctrl conf) (msr_high (msr MSR_IA32_VMX_ENTRY_CTLS))"

definition conf_required :: "vmcs_config \<Rightarrow> bool" where
  "conf_required conf \<longleftrightarrow>
     within KVM_REQUIRED_VMX_PIN_BASED_VM_EXEC_CONTROL (pin_based_exec_ctrl conf) \<and>
     within KVM_REQUIRED_VMX_CPU_BASED_VM_EXEC_CONTROL (cpu_based_exec_ctrl conf) \<and>
     within KVM_REQUIRED_VMX_VM_EXIT_CONTROLS (vmexit_ctrl conf) \<and>
     within KVM_REQUIRED_VMX_VM_ENTRY_CONTROLS (vmentry_ctrl conf)"

text \<open>
  The bits a capability MSR forces to one are in the words, but for those the set-up clears afterwards:
  none of the processor word; the entry and exit controls of the pairs; the preemption timer and posted
  interrupts of the pin word; four virtualisation controls of the secondary word.
\<close>

definition conf_forced :: "(u32 \<Rightarrow> u64) \<Rightarrow> vmcs_config \<Rightarrow> bool" where
  "conf_forced msr conf \<longleftrightarrow>
     within (msr_low (msr MSR_IA32_VMX_PROCBASED_CTLS)) (cpu_based_exec_ctrl conf) \<and>
     within (msr_low (msr MSR_IA32_VMX_PINBASED_CTLS))
       (pin_based_exec_ctrl conf OR (PIN_BASED_POSTED_INTR OR PIN_BASED_VMX_PREEMPTION_TIMER)) \<and>
     (cpu_based_exec_ctrl conf AND CPU_BASED_ACTIVATE_SECONDARY_CONTROLS \<noteq> 0 \<longrightarrow>
       within (msr_low (msr MSR_IA32_VMX_PROCBASED_CTLS2)) (cpu_based_2nd_exec_ctrl conf OR (SECONDARY_EXEC_ENCLS_EXITING OR
         (SECONDARY_EXEC_APIC_REGISTER_VIRT OR SECONDARY_EXEC_VIRTUALIZE_X2APIC_MODE OR SECONDARY_EXEC_VIRTUAL_INTR_DELIVERY)))) \<and>
     within (msr_low (msr MSR_IA32_VMX_ENTRY_CTLS)) (vmentry_ctrl conf OR foldr (OR) (map fst vmcs_entry_exit_pairs) 0) \<and>
     within (msr_low (msr MSR_IA32_VMX_EXIT_CTLS)) (vmexit_ctrl conf OR foldr (OR) (map snd vmcs_entry_exit_pairs) 0)"

definition conf_consistent :: "vmcs_config \<Rightarrow> bool" where
  "conf_consistent conf \<longleftrightarrow>
     (\<forall>p\<in>set vmcs_entry_exit_pairs. paired (vmentry_ctrl conf, vmexit_ctrl conf) p) \<and>
     (cpu_based_2nd_exec_ctrl conf AND SECONDARY_EXEC_VIRTUAL_INTR_DELIVERY \<noteq> 0 \<longrightarrow> cpu_based_exec_ctrl conf AND CPU_BASED_TPR_SHADOW \<noteq> 0) \<and>
     (pin_based_exec_ctrl conf AND PIN_BASED_POSTED_INTR \<noteq> 0 \<longrightarrow> cpu_based_2nd_exec_ctrl conf AND SECONDARY_EXEC_VIRTUAL_INTR_DELIVERY \<noteq> 0) \<and>
     vmcs_size conf \<le> 4096"

text \<open>The steps of a successful set-up, with the words each step produced.\<close>

lemma setup_success:
  assumes "setup_vmcs_config msr cpuid_eax cap0 = (STATUS_SUCCESS, conf, cap)"
  obtains cpu cpu2 ex pin entry c1 c2 where
    "adjust_vmx_controls msr KVM_REQUIRED_VMX_CPU_BASED_VM_EXEC_CONTROL KVM_OPTIONAL_VMX_CPU_BASED_VM_EXEC_CONTROL MSR_IA32_VMX_PROCBASED_CTLS = Inr cpu"
    "if cpu AND CPU_BASED_ACTIVATE_SECONDARY_CONTROLS \<noteq> 0
     then adjust_vmx_controls msr KVM_REQUIRED_VMX_SECONDARY_VM_EXEC_CONTROL KVM_OPTIONAL_VMX_SECONDARY_VM_EXEC_CONTROL MSR_IA32_VMX_PROCBASED_CTLS2 = Inr cpu2
     else cpu2 = 0"
    "adjust_vmx_controls msr KVM_REQUIRED_VMX_VM_EXIT_CONTROLS KVM_OPTIONAL_VMX_VM_EXIT_CONTROLS MSR_IA32_VMX_EXIT_CTLS = Inr ex"
    "adjust_vmx_controls msr KVM_REQUIRED_VMX_PIN_BASED_VM_EXEC_CONTROL KVM_OPTIONAL_VMX_PIN_BASED_VM_EXEC_CONTROL MSR_IA32_VMX_PINBASED_CTLS = Inr pin"
    "adjust_vmx_controls msr KVM_REQUIRED_VMX_VM_ENTRY_CONTROLS KVM_OPTIONAL_VMX_VM_ENTRY_CONTROLS MSR_IA32_VMX_ENTRY_CTLS = Inr entry"
    "cpu_based_exec_ctrl conf = cpu"
    "cpu_based_2nd_exec_ctrl conf = clear_if c2 SECONDARY_EXEC_ENCLS_EXITING (clear_if (cpu AND CPU_BASED_TPR_SHADOW = 0)
       (SECONDARY_EXEC_APIC_REGISTER_VIRT OR SECONDARY_EXEC_VIRTUALIZE_X2APIC_MODE OR SECONDARY_EXEC_VIRTUAL_INTR_DELIVERY) cpu2)"
    "pin_based_exec_ctrl conf = clear_if (cpu_based_2nd_exec_ctrl conf AND SECONDARY_EXEC_VIRTUAL_INTR_DELIVERY = 0) PIN_BASED_POSTED_INTR
       (clear_if c1 PIN_BASED_VMX_PREEMPTION_TIMER pin)"
    "(vmentry_ctrl conf, vmexit_ctrl conf) = pair_controls vmcs_entry_exit_pairs entry ex"
    "within (cpu_based_3rd_exec_ctrl conf) (msr MSR_IA32_VMX_PROCBASED_CTLS3)"
    "vmcs_size conf \<le> 4096"
proof -
  have ne: "STATUS_UNSUCCESSFUL \<noteq> STATUS_SUCCESS" by (simp add: status_defs)
  have w3: "within (adjust_vmx_controls64 msr m i) (msr i)" for m i
    by (simp add: adjust_vmx_controls64_def within_def bit_and_iff)
  show ?thesis
    using assms ne unfolding setup_vmcs_config_def Let_def
    by (auto split: sum.splits if_splits prod.splits intro!: that simp: w3 not_less)
qed

lemma config_sound:
  assumes "caps_ok msr" and "setup_vmcs_config msr cpuid_eax cap0 = (STATUS_SUCCESS, conf, cap)"
  shows "conf_allowed msr conf" and "conf_required conf" and "conf_consistent conf" and "conf_forced msr conf"
proof -
  obtain cpu cpu2 ex pin entry c1 c2 where
    adj: "adjust_vmx_controls msr KVM_REQUIRED_VMX_CPU_BASED_VM_EXEC_CONTROL KVM_OPTIONAL_VMX_CPU_BASED_VM_EXEC_CONTROL MSR_IA32_VMX_PROCBASED_CTLS = Inr cpu"
      "if cpu AND CPU_BASED_ACTIVATE_SECONDARY_CONTROLS \<noteq> 0
       then adjust_vmx_controls msr KVM_REQUIRED_VMX_SECONDARY_VM_EXEC_CONTROL KVM_OPTIONAL_VMX_SECONDARY_VM_EXEC_CONTROL MSR_IA32_VMX_PROCBASED_CTLS2 = Inr cpu2
       else cpu2 = 0"
      "adjust_vmx_controls msr KVM_REQUIRED_VMX_VM_EXIT_CONTROLS KVM_OPTIONAL_VMX_VM_EXIT_CONTROLS MSR_IA32_VMX_EXIT_CTLS = Inr ex"
      "adjust_vmx_controls msr KVM_REQUIRED_VMX_PIN_BASED_VM_EXEC_CONTROL KVM_OPTIONAL_VMX_PIN_BASED_VM_EXEC_CONTROL MSR_IA32_VMX_PINBASED_CTLS = Inr pin"
      "adjust_vmx_controls msr KVM_REQUIRED_VMX_VM_ENTRY_CONTROLS KVM_OPTIONAL_VMX_VM_ENTRY_CONTROLS MSR_IA32_VMX_ENTRY_CTLS = Inr entry"
    and cpu: "cpu_based_exec_ctrl conf = cpu"
    and cpu2: "cpu_based_2nd_exec_ctrl conf = clear_if c2 SECONDARY_EXEC_ENCLS_EXITING (clear_if (cpu AND CPU_BASED_TPR_SHADOW = 0)
       (SECONDARY_EXEC_APIC_REGISTER_VIRT OR SECONDARY_EXEC_VIRTUALIZE_X2APIC_MODE OR SECONDARY_EXEC_VIRTUAL_INTR_DELIVERY) cpu2)"
    and pin: "pin_based_exec_ctrl conf = clear_if (cpu_based_2nd_exec_ctrl conf AND SECONDARY_EXEC_VIRTUAL_INTR_DELIVERY = 0) PIN_BASED_POSTED_INTR
       (clear_if c1 PIN_BASED_VMX_PREEMPTION_TIMER pin)"
    and pairs: "(vmentry_ctrl conf, vmexit_ctrl conf) = pair_controls vmcs_entry_exit_pairs entry ex"
    and rest: "within (cpu_based_3rd_exec_ctrl conf) (msr MSR_IA32_VMX_PROCBASED_CTLS3)" "vmcs_size conf \<le> 4096"
    by (rule setup_success [OF assms(2)])
  have low: "within (msr_low (msr idx)) (msr_high (msr idx))" if "idx \<in> {MSR_IA32_VMX_PINBASED_CTLS, MSR_IA32_VMX_PROCBASED_CTLS,
      MSR_IA32_VMX_PROCBASED_CTLS2, MSR_IA32_VMX_EXIT_CTLS, MSR_IA32_VMX_ENTRY_CTLS}" for idx
    using assms(1) that unfolding caps_ok_def by blast
  note sound = adjust_sound [of msr, OF _ low]
  have c2: "within cpu2 (msr_high (msr MSR_IA32_VMX_PROCBASED_CTLS2))" using adj(2) sound(1) by (auto split: if_splits)
  have ee: "vmentry_ctrl conf = fst (pair_controls vmcs_entry_exit_pairs entry ex)" "vmexit_ctrl conf = snd (pair_controls vmcs_entry_exit_pairs entry ex)"
    by (simp_all flip: pairs)
  have "within (vmentry_ctrl conf) (msr_high (msr MSR_IA32_VMX_ENTRY_CTLS)) \<and> within (vmexit_ctrl conf) (msr_high (msr MSR_IA32_VMX_EXIT_CTLS))"
    unfolding ee by (intro pair_controls_within sound(1) [OF adj(5)] sound(1) [OF adj(3)]) simp_all
  then show "conf_allowed msr conf"
    unfolding conf_allowed_def cpu cpu2 pin using sound(1) [OF adj(1)] sound(1) [OF adj(4)] c2 rest(1) by (simp add: within_intro)
  have "within KVM_REQUIRED_VMX_VM_ENTRY_CONTROLS (vmentry_ctrl conf) \<and> within KVM_REQUIRED_VMX_VM_EXIT_CONTROLS (vmexit_ctrl conf)"
    unfolding ee by (intro pair_controls_keep vmcs_pairs_apart(2) sound(2) [OF adj(5)] sound(2) [OF adj(3)]) simp_all
  moreover have "within KVM_REQUIRED_VMX_PIN_BASED_VM_EXEC_CONTROL (pin_based_exec_ctrl conf)"
    unfolding pin by (intro within_keep_if sound(2) [OF adj(4)]) (simp_all add: vmx_bits)
  ultimately show "conf_required conf"
    unfolding conf_required_def cpu using sound(2) [OF adj(1)] by simp
  have "within (msr_low (msr MSR_IA32_VMX_PROCBASED_CTLS2)) (cpu_based_2nd_exec_ctrl conf OR (SECONDARY_EXEC_ENCLS_EXITING OR
         (SECONDARY_EXEC_APIC_REGISTER_VIRT OR SECONDARY_EXEC_VIRTUALIZE_X2APIC_MODE OR SECONDARY_EXEC_VIRTUAL_INTR_DELIVERY)))"
    if "cpu AND CPU_BASED_ACTIVATE_SECONDARY_CONTROLS \<noteq> 0"
    unfolding cpu2 using that adj(2) by (intro within_or_clear_if sound(3)) simp_all
  moreover have "within (msr_low (msr MSR_IA32_VMX_PINBASED_CTLS))
       (pin_based_exec_ctrl conf OR (PIN_BASED_POSTED_INTR OR PIN_BASED_VMX_PREEMPTION_TIMER))"
    unfolding pin by (intro within_or_clear_if sound(3) [OF adj(4)]) simp
  moreover note pair_controls_forced [OF sound(3) [OF adj(5)] sound(3) [OF adj(3)], of vmcs_entry_exit_pairs, folded ee]
  ultimately show "conf_forced msr conf"
    unfolding conf_forced_def cpu using sound(3) [OF adj(1)] by simp
  have "\<forall>p\<in>set vmcs_entry_exit_pairs. paired (vmentry_ctrl conf, vmexit_ctrl conf) p"
    unfolding pairs using pair_controls_paired [OF vmcs_pairs_apart(1)] by blast
  moreover have "cpu_based_2nd_exec_ctrl conf AND SECONDARY_EXEC_VIRTUAL_INTR_DELIVERY = 0" if "cpu AND CPU_BASED_TPR_SHADOW = 0"
  proof -
    have "(w AND NOT (a OR b OR d)) AND d = 0" for w a b d :: u32 by (rule bit_eqI) (auto simp: bit_and_iff bit_or_iff)
    moreover have "SECONDARY_EXEC_VIRTUAL_INTR_DELIVERY AND SECONDARY_EXEC_ENCLS_EXITING = 0" by (simp add: vmx_bits)
    ultimately show ?thesis unfolding cpu2 using that by (simp add: clear_if_def and_clear_disjoint)
  qed
  moreover have "pin_based_exec_ctrl conf AND PIN_BASED_POSTED_INTR = 0" if "cpu_based_2nd_exec_ctrl conf AND SECONDARY_EXEC_VIRTUAL_INTR_DELIVERY = 0"
    unfolding pin using that by (simp add: clear_if_def and_clear_self)
  ultimately show "conf_consistent conf"
    unfolding conf_consistent_def cpu using rest(2) by blast
qed

text \<open>
  C29: on a processor whose capability MSRs are well formed, a set-up that succeeds yields control words
  that set only bits the processor allows. The pin, processor, exit and entry words have the bits the hypervisor
  requires (the \<^verbatim>\<open>KVM_REQUIRED\<close> words). The bits that the processor forces to one are in the processor word, and
  in the others but for the controls that the set-up clears later: nothing stops it from clearing one of
  those although it is forced. Each entry control and its exit control are both on or both off, interrupt
  delivery has its TPR shadow, posted interrupts have their interrupt delivery, and the VMCS fits in a page.
\<close>

theorem setup_vmcs_config_sound:
  assumes "caps_ok msr" and "setup_vmcs_config msr cpuid_eax cap0 = (STATUS_SUCCESS, conf, cap)"
  shows "conf_allowed msr conf \<and> conf_required conf \<and> conf_forced msr conf \<and> conf_consistent conf"
  using config_sound [OF assms] by simp

text \<open>A processor that allows every control and forces none; its VMCS has 1024 bytes of write-back memory.\<close>

definition demo_msr :: "u32 \<Rightarrow> u64" where
  "demo_msr idx = (if idx = MSR_IA32_VMX_BASIC then push_bit 32 (push_bit 18 6 OR 1024) OR 0x12 else push_bit 32 0xffffffff)"

lemma demo_caps: "caps_ok demo_msr"
  by (simp add: caps_ok_def demo_msr_def within_iff msr_low_def msr_high_def MSR_IA32_VMX_BASIC_def MSR_IA32_VMX_PINBASED_CTLS_def
      MSR_IA32_VMX_PROCBASED_CTLS_def MSR_IA32_VMX_PROCBASED_CTLS2_def MSR_IA32_VMX_EXIT_CTLS_def MSR_IA32_VMX_ENTRY_CTLS_def)

lemma demo_setup: "\<exists>conf cap. setup_vmcs_config demo_msr (\<lambda>_. 0) \<lparr>cap_ept = 0, cap_vpid = 0\<rparr> = (STATUS_SUCCESS, conf, cap) \<and>
    vmcs_size conf = 1024"
proof -
  have hi: "msr_high (demo_msr i) = - 1" "msr_low (demo_msr i) = 0" if "i \<noteq> MSR_IA32_VMX_BASIC" for i
    using that by (simp_all add: demo_msr_def msr_high_def msr_low_def)
  have b: "msr_high (demo_msr MSR_IA32_VMX_BASIC) = 0x180400" by (simp add: demo_msr_def msr_high_def)
  have ok: "adjust_vmx_controls demo_msr r p i = Inr (r OR p)" if "i \<noteq> MSR_IA32_VMX_BASIC" for r p i
    using hi [OF that] by (simp add: adjust_vmx_controls_def Let_def, intro bit_eqI) (auto simp: bit_and_iff bit_or_iff)
  have ne: "MSR_IA32_VMX_PINBASED_CTLS \<noteq> MSR_IA32_VMX_BASIC" "MSR_IA32_VMX_PROCBASED_CTLS \<noteq> MSR_IA32_VMX_BASIC"
    "MSR_IA32_VMX_PROCBASED_CTLS2 \<noteq> MSR_IA32_VMX_BASIC" "MSR_IA32_VMX_EXIT_CTLS \<noteq> MSR_IA32_VMX_BASIC" "MSR_IA32_VMX_ENTRY_CTLS \<noteq> MSR_IA32_VMX_BASIC"
    by (simp_all add: MSR_IA32_VMX_BASIC_def MSR_IA32_VMX_PINBASED_CTLS_def
      MSR_IA32_VMX_PROCBASED_CTLS_def MSR_IA32_VMX_PROCBASED_CTLS2_def MSR_IA32_VMX_EXIT_CTLS_def MSR_IA32_VMX_ENTRY_CTLS_def)
  show ?thesis
    unfolding setup_vmcs_config_def Let_def b by (simp add: ok ne split: prod.split)
qed

theorem setup_vmcs_config_sound_witness:
  "\<exists>conf cap. setup_vmcs_config demo_msr (\<lambda>_. 0) \<lparr>cap_ept = 0, cap_vpid = 0\<rparr> = (STATUS_SUCCESS, conf, cap) \<and>
     conf_allowed demo_msr conf \<and> conf_required conf \<and> conf_forced demo_msr conf \<and> conf_consistent conf"
  using demo_setup setup_vmcs_config_sound [OF demo_caps] by blast

section \<open>The programmed words\<close>

definition shadows_ok :: "loaded_vmcs \<Rightarrow> bool" where
  "shadows_ok l \<longleftrightarrow> vmcs_field l PIN_BASED_VM_EXEC_CONTROL = ucast (sh_pin l) \<and> vmcs_field l CPU_BASED_VM_EXEC_CONTROL = ucast (sh_exec l) \<and>
     vmcs_field l SECONDARY_VM_EXEC_CONTROL = ucast (sh_secondary_exec l) \<and> vmcs_field l VM_EXIT_CONTROLS = ucast (sh_vm_exit l) \<and>
     vmcs_field l VM_ENTRY_CONTROLS = ucast (sh_vm_entry l)"

lemma set_other_shadows [simp]:
  "sh_exec (pin_controls_set w l) = sh_exec l" "sh_secondary_exec (pin_controls_set w l) = sh_secondary_exec l"
  "sh_vm_exit (pin_controls_set w l) = sh_vm_exit l" "sh_vm_entry (pin_controls_set w l) = sh_vm_entry l"
  "sh_pin (exec_controls_set w l) = sh_pin l" "sh_secondary_exec (exec_controls_set w l) = sh_secondary_exec l"
  "sh_vm_exit (exec_controls_set w l) = sh_vm_exit l" "sh_vm_entry (exec_controls_set w l) = sh_vm_entry l"
  "sh_pin (secondary_exec_controls_set w l) = sh_pin l" "sh_exec (secondary_exec_controls_set w l) = sh_exec l"
  "sh_vm_exit (secondary_exec_controls_set w l) = sh_vm_exit l" "sh_vm_entry (secondary_exec_controls_set w l) = sh_vm_entry l"
  "sh_pin (vm_exit_controls_set w l) = sh_pin l" "sh_exec (vm_exit_controls_set w l) = sh_exec l"
  "sh_secondary_exec (vm_exit_controls_set w l) = sh_secondary_exec l" "sh_vm_entry (vm_exit_controls_set w l) = sh_vm_entry l"
  "sh_pin (vm_entry_controls_set w l) = sh_pin l" "sh_exec (vm_entry_controls_set w l) = sh_exec l"
  "sh_secondary_exec (vm_entry_controls_set w l) = sh_secondary_exec l" "sh_vm_exit (vm_entry_controls_set w l) = sh_vm_exit l"
  by (simp_all add: controls_set_def vmcs_write32_def)

lemmas shadow_coherent = pin_control.coherent_def exec_control.coherent_def secondary_control.coherent_def exit_control.coherent_def
  entry_control.coherent_def

lemmas shadow_writes = pin_control.set_writes(3) exec_control.set_writes(3) secondary_control.set_writes(3) exit_control.set_writes(3)
  entry_control.set_writes(3)

lemmas shadow_values = pin_control.set_writes(2) exec_control.set_writes(2) secondary_control.set_writes(2) exit_control.set_writes(2)
  entry_control.set_writes(2)

lemmas shadow_frame = pin_control.set_frame exec_control.set_frame secondary_control.set_frame exit_control.set_frame
  entry_control.set_frame

lemma fields_apart:
  "PIN_BASED_VM_EXEC_CONTROL \<noteq> CPU_BASED_VM_EXEC_CONTROL" "PIN_BASED_VM_EXEC_CONTROL \<noteq> SECONDARY_VM_EXEC_CONTROL" "PIN_BASED_VM_EXEC_CONTROL \<noteq> VM_EXIT_CONTROLS"
  "PIN_BASED_VM_EXEC_CONTROL \<noteq> VM_ENTRY_CONTROLS" "CPU_BASED_VM_EXEC_CONTROL \<noteq> PIN_BASED_VM_EXEC_CONTROL" "CPU_BASED_VM_EXEC_CONTROL \<noteq> SECONDARY_VM_EXEC_CONTROL"
  "CPU_BASED_VM_EXEC_CONTROL \<noteq> VM_EXIT_CONTROLS" "CPU_BASED_VM_EXEC_CONTROL \<noteq> VM_ENTRY_CONTROLS" "SECONDARY_VM_EXEC_CONTROL \<noteq> PIN_BASED_VM_EXEC_CONTROL"
  "SECONDARY_VM_EXEC_CONTROL \<noteq> CPU_BASED_VM_EXEC_CONTROL" "SECONDARY_VM_EXEC_CONTROL \<noteq> VM_EXIT_CONTROLS" "SECONDARY_VM_EXEC_CONTROL \<noteq> VM_ENTRY_CONTROLS"
  "VM_EXIT_CONTROLS \<noteq> PIN_BASED_VM_EXEC_CONTROL" "VM_EXIT_CONTROLS \<noteq> CPU_BASED_VM_EXEC_CONTROL" "VM_EXIT_CONTROLS \<noteq> SECONDARY_VM_EXEC_CONTROL"
  "VM_EXIT_CONTROLS \<noteq> VM_ENTRY_CONTROLS" "VM_ENTRY_CONTROLS \<noteq> PIN_BASED_VM_EXEC_CONTROL" "VM_ENTRY_CONTROLS \<noteq> CPU_BASED_VM_EXEC_CONTROL"
  "VM_ENTRY_CONTROLS \<noteq> SECONDARY_VM_EXEC_CONTROL" "VM_ENTRY_CONTROLS \<noteq> VM_EXIT_CONTROLS"
  by (simp_all add: control_fields)

text \<open>The five fields and their shadows after the controls have been programmed.\<close>

lemma init_controls_fields:
  assumes "shadows_ok l" and "init_vmcs_controls conf v l = (v', l')"
  shows "shadows_ok l'"
    and "vmcs_field l' PIN_BASED_VM_EXEC_CONTROL = ucast (vmx_pin_based_exec_ctrl conf)"
    and "vmcs_field l' CPU_BASED_VM_EXEC_CONTROL = ucast (vmx_exec_control conf v)"
    and "vmcs_field l' SECONDARY_VM_EXEC_CONTROL =
      (if cpu_based_exec_ctrl conf AND CPU_BASED_ACTIVATE_SECONDARY_CONTROLS \<noteq> 0
       then ucast (fst (vmx_secondary_exec_control conf v)) else vmcs_field l SECONDARY_VM_EXEC_CONTROL)"
    and "vmcs_field l' VM_EXIT_CONTROLS = ucast (vmx_vmexit_ctrl conf v')"
    and "vmcs_field l' VM_ENTRY_CONTROLS = ucast (vmx_vmentry_ctrl conf v')"
  using assms unfolding init_vmcs_controls_def Let_def shadows_ok_def
  by (auto simp: shadow_writes shadow_frame shadow_coherent fields_apart shadow_values split: if_splits prod.splits)

lemma clear_bits_within [within_intro]: "within (fst s) h \<Longrightarrow> within (fst (clear_bits c b s)) h"
  by (cases s) (simp add: clear_bits_def within_clear_if)

lemma adjust_within [within_intro]:
  "within (fst s) h \<Longrightarrow> within (fst (vmx_adjust_secondary_exec_control control en ex s)) h"
  "within (fst s) h \<Longrightarrow> within (fst (vmx_adjust_sec_exec_control conf control ex s)) h"
  by (cases s; simp add: vmx_adjust_sec_exec_control_def vmx_adjust_secondary_exec_control_def Let_def within_clear_if)+

text \<open>The secondary word stays within a word that contains the configured one and the one bit set unasked.\<close>

lemma secondary_within:
  assumes "within (cpu_based_2nd_exec_ctrl conf) h" and "within SECONDARY_EXEC_DESC h"
  shows "within (fst (vmx_secondary_exec_control conf v)) h"
  unfolding vmx_secondary_exec_control_def Let_def fst_conv
  by (intro within_or assms(2) clear_bits_within adjust_within) (use assms(1) in \<open>auto intro!: clear_bits_within adjust_within\<close>)

lemma secondary_has_desc: "within SECONDARY_EXEC_DESC (fst (vmx_secondary_exec_control conf v))"
  unfolding vmx_secondary_exec_control_def Let_def by (auto simp: within_def bit_or_iff)

lemma exec_within:
  assumes "within (cpu_based_exec_ctrl conf) h" and "within KVM_REQUIRED_VMX_CPU_BASED_VM_EXEC_CONTROL (cpu_based_exec_ctrl conf)"
    and "within CPU_BASED_USE_IO_BITMAPS h"
  shows "within (vmx_exec_control conf v) h"
proof -
  have req: "within b h" if "within b KVM_REQUIRED_VMX_CPU_BASED_VM_EXEC_CONTROL" for b
    using that assms within_trans by blast
  have "within CPU_BASED_CR8_STORE_EXITING h" "within CPU_BASED_CR8_LOAD_EXITING h" "within CPU_BASED_CR3_LOAD_EXITING h" "within CPU_BASED_MOV_DR_EXITING h"
    by (rule req, simp add: within_iff vmx_bits)+
  then show ?thesis
    unfolding vmx_exec_control_def Let_def using assms(1,3) by (simp add: within_intro)
qed

lemma exec_has_io_bitmaps: "within CPU_BASED_USE_IO_BITMAPS (vmx_exec_control conf v)"
  unfolding vmx_exec_control_def Let_def by (auto simp: within_def bit_or_iff)

text \<open>A word within the allowed bits and one stray mask is within the allowed bits exactly when the mask is.\<close>

lemma stray_iff: "within w (h OR m) \<Longrightarrow> within m w \<Longrightarrow> within w h \<longleftrightarrow> within m h"
  by (auto simp: within_def bit_or_iff)

lemma within_or_left: "within w h \<Longrightarrow> within w (h OR m)" "within m (h OR m)"
  by (auto simp: within_def bit_or_iff)

text \<open>
  The controls that the computed words leave off whatever the processor offers, some of them only without
  the feature that they serve.
\<close>

definition controls_off :: "vmcs_config \<Rightarrow> vmx_vcpu \<Rightarrow> vmx_vcpu \<Rightarrow> bool" where
  "controls_off conf v v' \<longleftrightarrow>
     vmx_pin_based_exec_ctrl conf AND (PIN_BASED_POSTED_INTR OR PIN_BASED_VIRTUAL_NMIS OR PIN_BASED_VMX_PREEMPTION_TIMER OR
       PIN_BASED_NMI_EXITING OR PIN_BASED_EXT_INTR_MASK) = 0 \<and>
     vmx_exec_control conf v AND (CPU_BASED_RDTSC_EXITING OR CPU_BASED_MONITOR_TRAP_FLAG OR CPU_BASED_PAUSE_EXITING OR
       CPU_BASED_INTR_WINDOW_EXITING OR CPU_BASED_NMI_WINDOW_EXITING OR CPU_BASED_MONITOR_EXITING OR CPU_BASED_UNCOND_IO_EXITING OR
       CPU_BASED_TPR_SHADOW OR CPU_BASED_MWAIT_EXITING OR CPU_BASED_RDPMC_EXITING OR CPU_BASED_HLT_EXITING OR CPU_BASED_USE_TSC_OFFSETTING) = 0 \<and>
     (enable_ept v \<longrightarrow> vmx_exec_control conf v AND (CPU_BASED_CR3_STORE_EXITING OR CPU_BASED_INVLPG_EXITING) = 0) \<and>
     vmx_vmexit_ctrl conf v' AND (VM_EXIT_SAVE_IA32_PAT OR VM_EXIT_SAVE_IA32_EFER OR VM_EXIT_SAVE_VMX_PREEMPTION_TIMER OR
       VM_EXIT_LOAD_IA32_PERF_GLOBAL_CTRL OR VM_EXIT_LOAD_IA32_EFER OR VM_EXIT_LOAD_IA32_PAT OR VM_EXIT_ACK_INTR_ON_EXIT OR
       VM_EXIT_SAVE_DEBUG_CONTROLS) = 0 \<and>
     (pt_system v' \<longrightarrow> vmx_vmexit_ctrl conf v' AND (VM_EXIT_PT_CONCEAL_PIP OR VM_EXIT_CLEAR_IA32_RTIT_CTL) = 0) \<and>
     vmx_vmentry_ctrl conf v' AND (VM_ENTRY_LOAD_IA32_PERF_GLOBAL_CTRL OR VM_ENTRY_LOAD_IA32_EFER OR VM_ENTRY_LOAD_IA32_PAT) = 0 \<and>
     (pt_system v' \<longrightarrow> vmx_vmentry_ctrl conf v' AND (VM_ENTRY_PT_CONCEAL_PIP OR VM_ENTRY_LOAD_IA32_RTIT_CTL) = 0)"

definition secondary_off :: "vmcs_config \<Rightarrow> vmx_vcpu \<Rightarrow> bool" where
  "secondary_off conf v \<longleftrightarrow> (let w = fst (vmx_secondary_exec_control conf v) in
     w AND (SECONDARY_EXEC_VIRTUALIZE_X2APIC_MODE OR SECONDARY_EXEC_ENABLE_VMFUNC OR SECONDARY_EXEC_SHADOW_VMCS OR
       SECONDARY_EXEC_WBINVD_EXITING OR SECONDARY_EXEC_PAUSE_LOOP_EXITING) = 0 \<and>
     w AND SECONDARY_EXEC_RDRAND_EXITING = 0 \<and> w AND SECONDARY_EXEC_RDSEED_EXITING = 0 \<and>
     (pt_system v \<longrightarrow> w AND (SECONDARY_EXEC_PT_USE_GPA OR SECONDARY_EXEC_PT_CONCEAL_VMX) = 0) \<and>
     (vmx_vpid v = 0 \<longrightarrow> w AND SECONDARY_EXEC_ENABLE_VPID = 0) \<and>
     (\<not> enable_ept v \<longrightarrow> w AND (SECONDARY_EXEC_ENABLE_EPT OR SECONDARY_EXEC_UNRESTRICTED_GUEST) = 0) \<and>
     (\<not> enable_unrestricted_guest v \<longrightarrow> w AND SECONDARY_EXEC_UNRESTRICTED_GUEST = 0) \<and>
     (\<not> bus_lock_detection_enabled v \<longrightarrow> w AND SECONDARY_EXEC_BUS_LOCK_DETECTION = 0) \<and>
     (notify_vmexit_flags v AND 1 = 0 \<longrightarrow> w AND SECONDARY_EXEC_NOTIFY_VM_EXITING = 0))"

lemma clear_if_and: "clear_if c b w AND m = w AND (if c then NOT b AND m else m)"
  by (simp add: clear_if_def and.assoc)

lemma or_and_distrib: "(w OR b) AND m = (w AND m) OR (b AND m :: u32)"
  by (rule bit.conj_disj_distrib2)

lemma fst_clear_bits: "fst (clear_bits c b s) = clear_if c b (fst s)" "snd (clear_bits c b s) = snd s"
  by (simp_all add: clear_bits_def split: prod.split)

lemma fst_adjust:
  "fst (vmx_adjust_secondary_exec_control control en ex s) = clear_if (en = ex) control (fst s)"
  "fst (vmx_adjust_sec_exec_control conf control ex s) = clear_if (ex \<and> cpu_based_2nd_exec_ctrl conf AND control \<noteq> 0) control (fst s)"
  by (auto simp: vmx_adjust_sec_exec_control_def vmx_adjust_secondary_exec_control_def clear_if_def Let_def split: prod.split)

lemma controls_are_off: "controls_off conf v v'"
  unfolding controls_off_def vmx_pin_based_exec_ctrl_def vmx_exec_control_def vmx_vmexit_ctrl_def vmx_vmentry_ctrl_def Let_def
  by (simp add: clear_if_and or_and_distrib and.assoc vmx_bits)

lemma secondary_is_off: "secondary_off conf v"
  unfolding secondary_off_def vmx_secondary_exec_control_def Let_def fst_conv
  by (simp add: clear_if_and or_and_distrib fst_clear_bits fst_adjust and.assoc vmx_bits)

text \<open>
  C30: when every shadow agrees with its VMCS field, programming the controls keeps that so, and the
  five fields hold the words computed from the configuration and the vCPU (the secondary field is left alone
  when the secondary controls are off). The pin, exit and entry words are within what the processor
  allows. The processor word has no bit beyond what is allowed but for the I/O bitmaps, the secondary
  word none but for descriptor-table exiting; these two are always on, so the words are within what
  is allowed exactly when the processor has them. The controls that the hypervisor does without (\<open>controls_off\<close>,
  \<open>secondary_off\<close>) are off in all five words.
\<close>

theorem programmed_controls_allowed:
  assumes "caps_ok msr" and "setup_vmcs_config msr cpuid_eax cap0 = (STATUS_SUCCESS, conf, cap)"
    and "shadows_ok l" and "init_vmcs_controls conf v l = (v', l')"
  shows "shadows_ok l' \<and>
    vmcs_field l' PIN_BASED_VM_EXEC_CONTROL = ucast (vmx_pin_based_exec_ctrl conf) \<and>
    within (vmx_pin_based_exec_ctrl conf) (msr_high (msr MSR_IA32_VMX_PINBASED_CTLS)) \<and>
    vmcs_field l' VM_EXIT_CONTROLS = ucast (vmx_vmexit_ctrl conf v') \<and>
    within (vmx_vmexit_ctrl conf v') (msr_high (msr MSR_IA32_VMX_EXIT_CTLS)) \<and>
    vmcs_field l' VM_ENTRY_CONTROLS = ucast (vmx_vmentry_ctrl conf v') \<and>
    within (vmx_vmentry_ctrl conf v') (msr_high (msr MSR_IA32_VMX_ENTRY_CTLS)) \<and>
    vmcs_field l' CPU_BASED_VM_EXEC_CONTROL = ucast (vmx_exec_control conf v) \<and>
    within (vmx_exec_control conf v) (msr_high (msr MSR_IA32_VMX_PROCBASED_CTLS) OR CPU_BASED_USE_IO_BITMAPS) \<and>
    (within (vmx_exec_control conf v) (msr_high (msr MSR_IA32_VMX_PROCBASED_CTLS)) \<longleftrightarrow>
       within CPU_BASED_USE_IO_BITMAPS (msr_high (msr MSR_IA32_VMX_PROCBASED_CTLS))) \<and>
    (if cpu_based_exec_ctrl conf AND CPU_BASED_ACTIVATE_SECONDARY_CONTROLS = 0
     then vmcs_field l' SECONDARY_VM_EXEC_CONTROL = vmcs_field l SECONDARY_VM_EXEC_CONTROL
     else vmcs_field l' SECONDARY_VM_EXEC_CONTROL = ucast (fst (vmx_secondary_exec_control conf v)) \<and>
       within (fst (vmx_secondary_exec_control conf v)) (msr_high (msr MSR_IA32_VMX_PROCBASED_CTLS2) OR SECONDARY_EXEC_DESC) \<and>
       (within (fst (vmx_secondary_exec_control conf v)) (msr_high (msr MSR_IA32_VMX_PROCBASED_CTLS2)) \<longleftrightarrow>
          within SECONDARY_EXEC_DESC (msr_high (msr MSR_IA32_VMX_PROCBASED_CTLS2)))) \<and>
    controls_off conf v v' \<and> secondary_off conf v"
proof -
  note a = config_sound(1) [OF assms(1,2), unfolded conf_allowed_def]
  note r = config_sound(2) [OF assms(1,2), unfolded conf_required_def]
  have "within (vmx_pin_based_exec_ctrl conf) (msr_high (msr MSR_IA32_VMX_PINBASED_CTLS))"
    using a by (simp add: vmx_pin_based_exec_ctrl_def within_intro)
  moreover have "within (vmx_vmexit_ctrl conf v') (msr_high (msr MSR_IA32_VMX_EXIT_CTLS))"
    using a by (simp add: vmx_vmexit_ctrl_def within_intro Let_def)
  moreover have "within VM_ENTRY_IA32E_MODE KVM_REQUIRED_VMX_VM_ENTRY_CONTROLS" by (simp add: within_iff vmx_bits)
  then have "within VM_ENTRY_IA32E_MODE (msr_high (msr MSR_IA32_VMX_ENTRY_CTLS))" using a r within_trans by blast
  then have "within (vmx_vmentry_ctrl conf v') (msr_high (msr MSR_IA32_VMX_ENTRY_CTLS))"
    using a by (simp add: vmx_vmentry_ctrl_def within_intro Let_def)
  moreover have e: "within (vmx_exec_control conf v) (msr_high (msr MSR_IA32_VMX_PROCBASED_CTLS) OR CPU_BASED_USE_IO_BITMAPS)"
    using a r by (intro exec_within within_or_left) auto
  moreover have s: "within (fst (vmx_secondary_exec_control conf v)) (msr_high (msr MSR_IA32_VMX_PROCBASED_CTLS2) OR SECONDARY_EXEC_DESC)"
    using a by (intro secondary_within within_or_left) auto
  ultimately show ?thesis
    using stray_iff [OF e exec_has_io_bitmaps] stray_iff [OF s secondary_has_desc] init_controls_fields [OF assms(3,4)]
      controls_are_off secondary_is_off by simp
qed

definition demo_vmx_vcpu :: vmx_vcpu where
  "demo_vmx_vcpu = \<lparr>wont_exit = False, mwait_in_guest = False, hlt_in_guest = False, bus_lock_detection_enabled = False,
     notify_vmexit_flags = 0, vmx_vpid = 1, pt_system = True, enable_ept = True, enable_unrestricted_guest = True, nested_on = True,
     conf_nested_high = 0, nested_high = 0, nested_low = 0, xsaves_enabled = False\<rparr>"

definition blank_vmcs :: loaded_vmcs where
  "blank_vmcs = \<lparr>vmcs_field = (\<lambda>_. 0), sh_vm_entry = 0, sh_vm_exit = 0, sh_pin = 0, sh_exec = 0, sh_secondary_exec = 0\<rparr>"

theorem programmed_controls_allowed_witness:
  "\<exists>conf cap v' l'. setup_vmcs_config demo_msr (\<lambda>_. 0) \<lparr>cap_ept = 0, cap_vpid = 0\<rparr> = (STATUS_SUCCESS, conf, cap) \<and>
     init_vmcs_controls conf demo_vmx_vcpu blank_vmcs = (v', l') \<and> shadows_ok l' \<and>
     vmcs_field l' CPU_BASED_VM_EXEC_CONTROL = ucast (vmx_exec_control conf demo_vmx_vcpu)"
proof -
  obtain conf cap where c: "setup_vmcs_config demo_msr (\<lambda>_. 0) \<lparr>cap_ept = 0, cap_vpid = 0\<rparr> = (STATUS_SUCCESS, conf, cap)"
    using demo_setup by blast
  have sh: "shadows_ok blank_vmcs" by (simp add: shadows_ok_def blank_vmcs_def)
  obtain v' l' where i: "init_vmcs_controls conf demo_vmx_vcpu blank_vmcs = (v', l')" by fastforce
  show ?thesis using c i programmed_controls_allowed [OF demo_caps c sh i] by blast
qed

end
