(* ===== verification/Vmx_Segment.thy ===== *)
theory Vmx_Segment
  imports Svmx_Prelude
begin

text \<open>
  Segment registers of the guest: \<^verbatim>\<open>vmx_get_segment\<close> and \<^verbatim>\<open>__vmx_set_segment\<close> of \<^verbatim>\<open>src/svmx/vmx.c\<close> with
  the packing of access rights and the cache of VMCS reads, and the decoding of descriptors from a
  descriptor table.

  The VMCS is a map from field encodings to values, of which a 16- or 32-bit access sees the low part.
\<close>

section \<open>Data\<close>

record kvm_segment =
  sg_base :: u64
  sg_limit :: u32
  sg_selector :: u16
  sg_type :: u8
  sg_present :: u8
  sg_dpl :: u8
  sg_db :: u8
  sg_s :: u8
  sg_l :: u8
  sg_g :: u8
  sg_avl :: u8
  sg_unusable :: u8

record kvm_vmx_segment_field =
  sf_selector :: u32
  sf_base :: u32
  sf_limit :: u32
  sf_ar_bytes :: u32

record kvm_save_segment =
  c_selector :: u16
  c_base :: u64
  c_limit :: u32
  c_ar :: u32

definition VCPU_SREG_CS :: nat where "VCPU_SREG_CS = 1"
definition VCPU_SREG_TR :: nat where "VCPU_SREG_TR = 6"
definition VCPU_SREG_LDTR :: nat where "VCPU_SREG_LDTR = 7"

text \<open>In the order of the enumeration: ES, CS, SS, DS, FS, GS, TR, LDTR.\<close>

definition kvm_vmx_segment_fields :: "kvm_vmx_segment_field list" where
  "kvm_vmx_segment_fields =
     [\<lparr>sf_selector = 0x800, sf_base = 0x6806, sf_limit = 0x4800, sf_ar_bytes = 0x4814\<rparr>,
      \<lparr>sf_selector = 0x802, sf_base = 0x6808, sf_limit = 0x4802, sf_ar_bytes = 0x4816\<rparr>,
      \<lparr>sf_selector = 0x804, sf_base = 0x680a, sf_limit = 0x4804, sf_ar_bytes = 0x4818\<rparr>,
      \<lparr>sf_selector = 0x806, sf_base = 0x680c, sf_limit = 0x4806, sf_ar_bytes = 0x481a\<rparr>,
      \<lparr>sf_selector = 0x808, sf_base = 0x680e, sf_limit = 0x4808, sf_ar_bytes = 0x481c\<rparr>,
      \<lparr>sf_selector = 0x80a, sf_base = 0x6810, sf_limit = 0x480a, sf_ar_bytes = 0x481e\<rparr>,
      \<lparr>sf_selector = 0x80e, sf_base = 0x6814, sf_limit = 0x480e, sf_ar_bytes = 0x4822\<rparr>,
      \<lparr>sf_selector = 0x80c, sf_base = 0x6812, sf_limit = 0x480c, sf_ar_bytes = 0x4820\<rparr>]"

text \<open>\<open>segs_avail\<close> is the VCPU_EXREG_SEGMENTS bit of \<^verbatim>\<open>regs_avail\<close>, which a VM exit clears.\<close>

record vcpu_segs =
  seg_vmcs :: "u32 \<Rightarrow> u64"
  segs_avail :: bool
  seg_bitmask :: u32
  seg_cache :: "nat \<Rightarrow> kvm_save_segment"
  vm86_active :: bool
  rmode_segs :: "nat \<Rightarrow> kvm_segment"

section \<open>Access rights\<close>

definition vmx_segment_access_rights :: "kvm_segment \<Rightarrow> u32" where
  "vmx_segment_access_rights var = (let
       ar = ucast (sg_type var) AND 15;
       ar = ar OR push_bit 4 (ucast (sg_s var) AND 1);
       ar = ar OR push_bit 5 (ucast (sg_dpl var) AND 3);
       ar = ar OR push_bit 7 (ucast (sg_present var) AND 1);
       ar = ar OR push_bit 12 (ucast (sg_avl var) AND 1);
       ar = ar OR push_bit 13 (ucast (sg_l var) AND 1);
       ar = ar OR push_bit 14 (ucast (sg_db var) AND 1);
       ar = ar OR push_bit 15 (ucast (sg_g var) AND 1) in
     ar OR push_bit 16 (of_bool (sg_unusable var \<noteq> 0 \<or> sg_present var = 0)))"

section \<open>The cache\<close>

definition SEG_FIELD_SEL :: nat where "SEG_FIELD_SEL = 0"
definition SEG_FIELD_BASE :: nat where "SEG_FIELD_BASE = 1"
definition SEG_FIELD_LIMIT :: nat where "SEG_FIELD_LIMIT = 2"
definition SEG_FIELD_AR :: nat where "SEG_FIELD_AR = 3"

lemmas seg_field_defs = SEG_FIELD_SEL_def SEG_FIELD_BASE_def SEG_FIELD_LIMIT_def SEG_FIELD_AR_def

definition vmx_segment_cache_test_set :: "nat \<Rightarrow> nat \<Rightarrow> vcpu_segs \<Rightarrow> bool \<times> vcpu_segs" where
  "vmx_segment_cache_test_set seg field s = (let
       mask = push_bit (seg * 4 + field) 1;
       s = (if segs_avail s then s else s\<lparr>segs_avail := True, seg_bitmask := 0\<rparr>);
       ret = (seg_bitmask s AND mask \<noteq> 0) in
     (ret, s\<lparr>seg_bitmask := seg_bitmask s OR mask\<rparr>))"

definition vmx_segment_cache_clear :: "vcpu_segs \<Rightarrow> vcpu_segs" where
  "vmx_segment_cache_clear s = s\<lparr>seg_bitmask := 0\<rparr>"

definition vmx_read_guest_seg_selector :: "nat \<Rightarrow> vcpu_segs \<Rightarrow> u16 \<times> vcpu_segs" where
  "vmx_read_guest_seg_selector seg s = (let
       (hit, s) = vmx_segment_cache_test_set seg SEG_FIELD_SEL s;
       s = (if hit then s else s\<lparr>seg_cache := (seg_cache s)(seg := (seg_cache s seg)\<lparr>c_selector :=
             ucast (seg_vmcs s (sf_selector (kvm_vmx_segment_fields ! seg)))\<rparr>)\<rparr>) in
     (c_selector (seg_cache s seg), s))"

definition vmx_read_guest_seg_base :: "nat \<Rightarrow> vcpu_segs \<Rightarrow> u64 \<times> vcpu_segs" where
  "vmx_read_guest_seg_base seg s = (let
       (hit, s) = vmx_segment_cache_test_set seg SEG_FIELD_BASE s;
       s = (if hit then s else s\<lparr>seg_cache := (seg_cache s)(seg := (seg_cache s seg)\<lparr>c_base :=
             seg_vmcs s (sf_base (kvm_vmx_segment_fields ! seg))\<rparr>)\<rparr>) in
     (c_base (seg_cache s seg), s))"

definition vmx_read_guest_seg_limit :: "nat \<Rightarrow> vcpu_segs \<Rightarrow> u32 \<times> vcpu_segs" where
  "vmx_read_guest_seg_limit seg s = (let
       (hit, s) = vmx_segment_cache_test_set seg SEG_FIELD_LIMIT s;
       s = (if hit then s else s\<lparr>seg_cache := (seg_cache s)(seg := (seg_cache s seg)\<lparr>c_limit :=
             ucast (seg_vmcs s (sf_limit (kvm_vmx_segment_fields ! seg)))\<rparr>)\<rparr>) in
     (c_limit (seg_cache s seg), s))"

definition vmx_read_guest_seg_ar :: "nat \<Rightarrow> vcpu_segs \<Rightarrow> u32 \<times> vcpu_segs" where
  "vmx_read_guest_seg_ar seg s = (let
       (hit, s) = vmx_segment_cache_test_set seg SEG_FIELD_AR s;
       s = (if hit then s else s\<lparr>seg_cache := (seg_cache s)(seg := (seg_cache s seg)\<lparr>c_ar :=
             ucast (seg_vmcs s (sf_ar_bytes (kvm_vmx_segment_fields ! seg)))\<rparr>)\<rparr>) in
     (c_ar (seg_cache s seg), s))"

section \<open>Reading and writing segments\<close>

definition vmx_get_segment :: "nat \<Rightarrow> vcpu_segs \<Rightarrow> kvm_segment \<times> vcpu_segs" where
  "vmx_get_segment seg s =
     (if vm86_active s \<and> seg \<noteq> VCPU_SREG_LDTR then (let
        var = rmode_segs s seg in
      if seg = VCPU_SREG_TR then (var, s)
      else let (sel, s) = vmx_read_guest_seg_selector seg s in
        if sg_selector var = sel then (var, s)
        else let (base, s) = vmx_read_guest_seg_base seg s; (sel, s) = vmx_read_guest_seg_selector seg s in
          (var\<lparr>sg_base := base, sg_selector := sel\<rparr>, s))
      else let
        (base, s) = vmx_read_guest_seg_base seg s;
        (limit, s) = vmx_read_guest_seg_limit seg s;
        (sel, s) = vmx_read_guest_seg_selector seg s;
        (ar, s) = vmx_read_guest_seg_ar seg s;
        unusable = (ucast (drop_bit 16 ar AND 1) :: u8) in
      (\<lparr>sg_base = base, sg_limit = limit, sg_selector = sel, sg_type = ucast (ar AND 15), sg_present = of_bool (unusable = 0),
        sg_dpl = ucast (drop_bit 5 ar AND 3), sg_db = ucast (drop_bit 14 ar AND 1), sg_s = ucast (drop_bit 4 ar AND 1),
        sg_l = ucast (drop_bit 13 ar AND 1), sg_g = ucast (drop_bit 15 ar AND 1), sg_avl = ucast (drop_bit 12 ar AND 1),
        sg_unusable = unusable\<rparr>, s))"

definition seg_write :: "u32 \<Rightarrow> u64 \<Rightarrow> vcpu_segs \<Rightarrow> vcpu_segs" where
  "seg_write f v s = s\<lparr>seg_vmcs := (seg_vmcs s)(f := v)\<rparr>"

definition emulate_invalid_guest_state :: bool where "emulate_invalid_guest_state = True"

definition fix_rmode_seg :: "nat \<Rightarrow> kvm_segment \<Rightarrow> vcpu_segs \<Rightarrow> vcpu_segs" where
  "fix_rmode_seg seg save s = (let
       sf = kvm_vmx_segment_fields ! seg;
       var = save\<lparr>sg_dpl := 3\<rparr>;
       var = (if seg = VCPU_SREG_CS then var\<lparr>sg_type := 3\<rparr> else var);
       var = (if emulate_invalid_guest_state then var
              else var\<lparr>sg_selector := ucast (drop_bit 4 (sg_base var)), sg_base := sg_base var AND 0xffff0, sg_limit := 0xffff, sg_g := 0,
                sg_db := 0, sg_present := 1, sg_s := 1, sg_l := 0, sg_unusable := 0, sg_type := 3, sg_avl := 0\<rparr>);
       s = seg_write (sf_selector sf) (ucast (sg_selector var)) s;
       s = seg_write (sf_base sf) (sg_base var) s;
       s = seg_write (sf_limit sf) (ucast (sg_limit var)) s in
     seg_write (sf_ar_bytes sf) (ucast (vmx_segment_access_rights var)) s)"

definition is_unrestricted_guest :: "bool \<Rightarrow> bool \<Rightarrow> u32 \<Rightarrow> bool" where
  "is_unrestricted_guest enable_unrestricted guest_mode secondary_controls \<longleftrightarrow>
     enable_unrestricted \<and> (\<not> guest_mode \<or> secondary_controls AND 0x80 \<noteq> 0)"

text \<open>\<open>ug\<close> is \<^verbatim>\<open>is_unrestricted_guest(vcpu)\<close>; the caller's structure gets the accessed bit too.\<close>

definition raw_vmx_set_segment :: "bool \<Rightarrow> kvm_segment \<Rightarrow> nat \<Rightarrow> vcpu_segs \<Rightarrow> kvm_segment \<times> vcpu_segs" where
  "raw_vmx_set_segment ug var seg s = (let
       sf = kvm_vmx_segment_fields ! seg;
       s = vmx_segment_cache_clear s;
       s = (if vm86_active s \<and> seg \<noteq> VCPU_SREG_LDTR then
              let s = s\<lparr>rmode_segs := (rmode_segs s)(seg := var)\<rparr> in
              if seg = VCPU_SREG_TR then seg_write (sf_selector sf) (ucast (sg_selector var)) s
              else if sg_s var \<noteq> 0 then fix_rmode_seg seg (rmode_segs s seg) s else s
            else s);
       s = seg_write (sf_base sf) (sg_base var) s;
       s = seg_write (sf_limit sf) (ucast (sg_limit var)) s;
       s = seg_write (sf_selector sf) (ucast (sg_selector var)) s;
       var = (if ug \<and> seg \<noteq> VCPU_SREG_LDTR then var\<lparr>sg_type := sg_type var OR 1\<rparr> else var) in
     (var, seg_write (sf_ar_bytes sf) (ucast (vmx_segment_access_rights var)) s))"

definition seg_setup :: "nat \<Rightarrow> vcpu_segs \<Rightarrow> vcpu_segs" where
  "seg_setup seg s = (let
       sf = kvm_vmx_segment_fields ! seg;
       s = seg_write (sf_selector sf) 0 s;
       s = seg_write (sf_base sf) 0 s;
       s = seg_write (sf_limit sf) 0xffff s;
       ar = 0x93;
       ar = (if seg = VCPU_SREG_CS then ar OR 0x08 else ar) in
     seg_write (sf_ar_bytes sf) ar s)"

definition vmx_get_cpl :: "vcpu_segs \<Rightarrow> u16" where
  "vmx_get_cpl s = ucast (seg_vmcs s 0x802) AND 3"

definition vmx_get_cs_db_l_bits :: "vcpu_segs \<Rightarrow> u32 \<times> u32" where
  "vmx_get_cs_db_l_bits s = (let ar = ucast (seg_vmcs s 0x4816) in (drop_bit 14 ar AND 1, drop_bit 13 ar AND 1))"

section \<open>Descriptors\<close>

text \<open>
  Descriptors are the 8-byte words of a descriptor table; a system descriptor has its upper base in
  the next word. \<open>mem\<close> is the memory that holds the tables, \<open>sldt\<close> the selector in LDTR.
\<close>

definition desc_type :: "u64 \<Rightarrow> u8" where "desc_type d = ucast (drop_bit 40 d AND 15)"
definition desc_s :: "u64 \<Rightarrow> u8" where "desc_s d = ucast (drop_bit 44 d AND 1)"

definition x86_segment_base :: "(u64 \<rightharpoonup> u64) \<Rightarrow> u64 \<Rightarrow> u64 option" where
  "x86_segment_base mem p = do {
     d \<leftarrow> mem p;
     let base = push_bit 24 (drop_bit 56 d) OR push_bit 16 (drop_bit 32 d AND 0xff) OR (drop_bit 16 d AND 0xffff);
     if desc_s d = 0 \<and> desc_type d \<in> {9, 0xb, 2} then do {
       d' \<leftarrow> mem (p + 8);
       Some (base OR push_bit 32 (d' AND 0xffffffff))
     }
     else Some base
   }"

definition desc_addr :: "(u64 \<rightharpoonup> u64) \<Rightarrow> u64 \<Rightarrow> u16 \<Rightarrow> u16 \<Rightarrow> u64 option" where
  "desc_addr mem gdt_base sldt selector =
     (if selector AND 4 \<noteq> 0 then do {
        ldt_base \<leftarrow> x86_segment_base mem (gdt_base + 8 * ucast (drop_bit 3 sldt));
        Some (ldt_base + 8 * ucast (drop_bit 3 selector))
      }
      else Some (gdt_base + 8 * ucast (drop_bit 3 selector)))"

definition get_segment_base :: "(u64 \<rightharpoonup> u64) \<Rightarrow> u64 \<Rightarrow> u16 \<Rightarrow> u16 \<Rightarrow> u64 option" where
  "get_segment_base mem gdt_base sldt selector = desc_addr mem gdt_base sldt selector \<bind> x86_segment_base mem"

definition get_segment_desc :: "(u64 \<rightharpoonup> u64) \<Rightarrow> u64 \<Rightarrow> u16 \<Rightarrow> u16 \<Rightarrow> u64 option" where
  "get_segment_desc mem gdt_base sldt selector = desc_addr mem gdt_base sldt selector \<bind> mem"

definition set_segment_by_desc :: "u64 \<Rightarrow> kvm_segment \<Rightarrow> kvm_segment" where
  "set_segment_by_desc d var = var\<lparr>sg_type := desc_type d, sg_s := desc_s d, sg_dpl := ucast (drop_bit 45 d AND 3),
     sg_present := ucast (drop_bit 47 d AND 1), sg_l := ucast (drop_bit 53 d AND 1), sg_db := ucast (drop_bit 54 d AND 1),
     sg_g := ucast (drop_bit 55 d AND 1), sg_avl := ucast (drop_bit 52 d AND 1)\<rparr>"

end
