(* ===== verification/Vmx_Segment_Props.thy ===== *)
theory Vmx_Segment_Props
  imports Vmx_Segment
begin

text \<open>
  A segment that is written reads back the same, through the packed access rights, the VMCS and the
  cache; an unusable or absent segment reads back as unusable and absent.
\<close>

section \<open>Access rights\<close>

lemma masks_small: "(15 :: 'a::len word) = mask 4" "(3 :: 'a::len word) = mask 2" "(1 :: 'a::len word) = mask 1"
  by (simp_all add: mask_eq_exp_minus_1)

lemmas bit_fields = bit_and_iff bit_or_iff bit_push_bit_iff bit_drop_bit_eq bit_unsigned_iff bit_mask_iff bit_of_bool_iff

definition ar_bit :: "kvm_segment \<Rightarrow> nat \<Rightarrow> bool" where
  "ar_bit var n \<longleftrightarrow> n < 4 \<and> bit (sg_type var) n \<or> n = 4 \<and> bit (sg_s var) 0 \<or> n = 5 \<and> bit (sg_dpl var) 0 \<or> n = 6 \<and> bit (sg_dpl var) 1 \<or>
     n = 7 \<and> bit (sg_present var) 0 \<or> n = 12 \<and> bit (sg_avl var) 0 \<or> n = 13 \<and> bit (sg_l var) 0 \<or> n = 14 \<and> bit (sg_db var) 0 \<or>
     n = 15 \<and> bit (sg_g var) 0 \<or> n = 16 \<and> (sg_unusable var \<noteq> 0 \<or> sg_present var = 0)"

lemma bit_access_rights: "bit (vmx_segment_access_rights var) n \<longleftrightarrow> ar_bit var n"
proof -
  have one: "bit (push_bit k (ucast (w :: u8) AND 1) :: u32) n \<longleftrightarrow> n = k \<and> bit w 0" if "k < 32" for k w
    using that by (auto simp: bit_push_bit_iff bit_and_iff bit_unsigned_iff bit_exp_iff)
  have two: "bit (push_bit 5 (ucast (w :: u8) AND 3) :: u32) n \<longleftrightarrow> n = 5 \<and> bit w 0 \<or> n = 6 \<and> bit w 1" for w
    unfolding masks_small(2) bit_push_bit_iff bit_and_iff bit_mask_iff bit_unsigned_iff
    by (cases "n < 5"; cases "n = 5"; cases "n = 6"; cases "6 < n") auto
  have four: "bit (ucast (w :: u8) AND 15 :: u32) n \<longleftrightarrow> n < 4 \<and> bit w n" for w
    unfolding masks_small(1) by (auto simp: bit_and_iff bit_unsigned_iff bit_mask_iff dest: bit_imp_le_length)
  have top: "bit (push_bit 16 (of_bool b) :: u32) n \<longleftrightarrow> n = 16 \<and> b" for b
    by (auto simp: bit_push_bit_iff bit_of_bool_iff)
  have lt: "(4 :: nat) < 32" "(7 :: nat) < 32" "(12 :: nat) < 32" "(13 :: nat) < 32" "(14 :: nat) < 32" "(15 :: nat) < 32" by simp_all
  show ?thesis
    unfolding vmx_segment_access_rights_def Let_def ar_bit_def bit_or_iff one [OF lt(1)] one [OF lt(2)] one [OF lt(3)] one [OF lt(4)]
      one [OF lt(5)] one [OF lt(6)] two four top by blast
qed

text \<open>The fields that \<^verbatim>\<open>vmx_get_segment\<close> takes out of the packed word.\<close>

lemma unpack_bit: "k < 32 \<Longrightarrow> (ucast (drop_bit k ar AND 1 :: u32) :: u8) = of_bool (bit ar k)"
  by (rule bit_eqI) (auto simp: bit_and_iff bit_unsigned_iff bit_drop_bit_eq bit_1_iff bit_of_bool_iff)

lemma of_bool_bit_0: "of_bool (bit w 0) = (w AND 1 :: u8)"
  by (rule bit_eqI) (auto simp: bit_and_iff bit_1_iff bit_of_bool_iff)

lemma unpack_type: "(ucast (vmx_segment_access_rights var AND 15) :: u8) = sg_type var AND 15"
  unfolding masks_small(1)
  by (rule bit_eqI) (auto simp: bit_and_iff bit_unsigned_iff bit_mask_iff bit_access_rights ar_bit_def)

lemma unpack_dpl: "(ucast (drop_bit 5 (vmx_segment_access_rights var) AND 3) :: u8) = sg_dpl var AND 3"
  unfolding masks_small(2)
  by (rule bit_eqI) (auto simp: bit_and_iff bit_unsigned_iff bit_mask_iff bit_drop_bit_eq bit_access_rights ar_bit_def less_2_cases_iff)

section \<open>Reads through the cache\<close>

lemma narrow_read: "ucast (ucast (v :: u32) :: u64) = v" "ucast (ucast (w :: u16) :: u64) = w"
  by (rule bit_word_eqI; simp add: bit_unsigned_iff)+

lemma mask_hit: "k < 32 \<Longrightarrow> (w AND push_bit k 1 \<noteq> (0 :: u32)) \<longleftrightarrow> bit w k"
proof -
  assume "k < 32"
  have "w AND push_bit k 1 = (if bit w k then push_bit k 1 else 0)"
    by (rule bit_eqI) (auto simp: bit_and_iff bit_exp_iff)
  moreover have "push_bit k 1 \<noteq> (0 :: u32)"
    using \<open>k < 32\<close> by (auto dest!: arg_cong [of _ _ "\<lambda>w. bit w k"] simp: bit_exp_iff)
  ultimately show ?thesis by simp
qed

text \<open>The cached bits after the caches of a vCPU whose segments are not available have been dropped.\<close>

definition cached :: "vcpu_segs \<Rightarrow> nat \<Rightarrow> nat \<Rightarrow> bool" where
  "cached s seg field \<longleftrightarrow> segs_avail s \<and> bit (seg_bitmask s) (seg * 4 + field)"

lemma test_set_miss:
  assumes "seg < 8" "field < 4" "\<not> cached s seg field" "vmx_segment_cache_test_set seg field s = (hit, t)"
  shows "\<not> hit" and "seg_vmcs t = seg_vmcs s" and "f < 4 \<Longrightarrow> f \<noteq> field \<Longrightarrow> cached t seg f \<longleftrightarrow> cached s seg f"
    and "vm86_active t = vm86_active s" and "rmode_segs t = rmode_segs s"
proof -
  have k: "seg * 4 + field < 32" using assms(1,2) by simp
  let ?s = "if segs_avail s then s else s\<lparr>segs_avail := True, seg_bitmask := 0\<rparr>"
  have eq: "hit \<longleftrightarrow> bit (seg_bitmask ?s) (seg * 4 + field)" "t = ?s\<lparr>seg_bitmask := seg_bitmask ?s OR push_bit (seg * 4 + field) 1\<rparr>"
    using assms(4) mask_hit [OF k, of "seg_bitmask ?s"] unfolding vmx_segment_cache_test_set_def Let_def by auto
  show "\<not> hit" using assms(3) eq(1) by (auto simp: cached_def)
  show "seg_vmcs t = seg_vmcs s" "vm86_active t = vm86_active s" "rmode_segs t = rmode_segs s" unfolding eq(2) by simp_all
  show "cached t seg f \<longleftrightarrow> cached s seg f" if "f < 4" "f \<noteq> field"
    unfolding eq(2) using that by (auto simp: cached_def bit_or_iff bit_exp_iff)
qed

lemma seg_field_less: "SEG_FIELD_SEL < 4" "SEG_FIELD_BASE < 4" "SEG_FIELD_LIMIT < 4" "SEG_FIELD_AR < 4"
  by (simp_all add: seg_field_defs)

lemma read_selector:
  assumes "seg < 8" "\<not> cached s seg SEG_FIELD_SEL"
  shows "\<exists>t. vmx_read_guest_seg_selector seg s = (ucast (seg_vmcs s (sf_selector (kvm_vmx_segment_fields ! seg))), t) \<and>
    seg_vmcs t = seg_vmcs s \<and> (\<forall>f. f < 4 \<and> f \<noteq> SEG_FIELD_SEL \<longrightarrow> cached t seg f = cached s seg f)"
proof -
  obtain hit t where t: "vmx_segment_cache_test_set seg SEG_FIELD_SEL s = (hit, t)" by fastforce
  show ?thesis
    using test_set_miss [OF assms(1) seg_field_less(1) assms(2) t] by (auto simp: vmx_read_guest_seg_selector_def t cached_def)
qed

lemma read_base:
  assumes "seg < 8" "\<not> cached s seg SEG_FIELD_BASE"
  shows "\<exists>t. vmx_read_guest_seg_base seg s = (seg_vmcs s (sf_base (kvm_vmx_segment_fields ! seg)), t) \<and>
    seg_vmcs t = seg_vmcs s \<and> (\<forall>f. f < 4 \<and> f \<noteq> SEG_FIELD_BASE \<longrightarrow> cached t seg f = cached s seg f)"
proof -
  obtain hit t where t: "vmx_segment_cache_test_set seg SEG_FIELD_BASE s = (hit, t)" by fastforce
  show ?thesis
    using test_set_miss [OF assms(1) seg_field_less(2) assms(2) t] by (auto simp: vmx_read_guest_seg_base_def t cached_def)
qed

lemma read_limit:
  assumes "seg < 8" "\<not> cached s seg SEG_FIELD_LIMIT"
  shows "\<exists>t. vmx_read_guest_seg_limit seg s = (ucast (seg_vmcs s (sf_limit (kvm_vmx_segment_fields ! seg))), t) \<and>
    seg_vmcs t = seg_vmcs s \<and> (\<forall>f. f < 4 \<and> f \<noteq> SEG_FIELD_LIMIT \<longrightarrow> cached t seg f = cached s seg f)"
proof -
  obtain hit t where t: "vmx_segment_cache_test_set seg SEG_FIELD_LIMIT s = (hit, t)" by fastforce
  show ?thesis
    using test_set_miss [OF assms(1) seg_field_less(3) assms(2) t] by (auto simp: vmx_read_guest_seg_limit_def t cached_def)
qed

lemma read_ar:
  assumes "seg < 8" "\<not> cached s seg SEG_FIELD_AR"
  shows "\<exists>t. vmx_read_guest_seg_ar seg s = (ucast (seg_vmcs s (sf_ar_bytes (kvm_vmx_segment_fields ! seg))), t)"
proof -
  obtain hit t where t: "vmx_segment_cache_test_set seg SEG_FIELD_AR s = (hit, t)" by fastforce
  show ?thesis
    using test_set_miss [OF assms(1) seg_field_less(4) assms(2) t] by (auto simp: vmx_read_guest_seg_ar_def t)
qed

text \<open>What a read finds when nothing of the segment is cached.\<close>

lemma get_segment_uncached:
  assumes "seg < 8" "\<And>f. f < 4 \<Longrightarrow> \<not> cached s seg f" "\<not> (vm86_active s \<and> seg \<noteq> VCPU_SREG_LDTR)"
    and "sf = kvm_vmx_segment_fields ! seg" and "seg_vmcs s (sf_selector sf) = ucast (sg_selector var)" "seg_vmcs s (sf_base sf) = sg_base var"
      "seg_vmcs s (sf_limit sf) = ucast (sg_limit var)" "seg_vmcs s (sf_ar_bytes sf) = ucast (vmx_segment_access_rights var)"
  shows "fst (vmx_get_segment seg s) = \<lparr>sg_base = sg_base var, sg_limit = sg_limit var, sg_selector = sg_selector var,
    sg_type = sg_type var AND 15, sg_present = of_bool (\<not> (sg_unusable var \<noteq> 0 \<or> sg_present var = 0)), sg_dpl = sg_dpl var AND 3,
    sg_db = sg_db var AND 1, sg_s = sg_s var AND 1, sg_l = sg_l var AND 1, sg_g = sg_g var AND 1, sg_avl = sg_avl var AND 1,
    sg_unusable = of_bool (sg_unusable var \<noteq> 0 \<or> sg_present var = 0)\<rparr>"
proof -
  obtain s1 where 1: "vmx_read_guest_seg_base seg s = (sg_base var, s1)" "seg_vmcs s1 = seg_vmcs s"
    "\<forall>f. f < 4 \<and> f \<noteq> SEG_FIELD_BASE \<longrightarrow> cached s1 seg f = cached s seg f"
    using read_base [OF assms(1), of s] assms(2,4,6) by (auto simp: seg_field_defs)
  obtain s2 where 2: "vmx_read_guest_seg_limit seg s1 = (sg_limit var, s2)" "seg_vmcs s2 = seg_vmcs s"
    "\<forall>f. f < 4 \<and> f \<noteq> SEG_FIELD_LIMIT \<longrightarrow> cached s2 seg f = cached s1 seg f"
    using read_limit [OF assms(1), of s1] assms(2,4,7) 1 by (auto simp: narrow_read seg_field_defs)
  obtain s3 where 3: "vmx_read_guest_seg_selector seg s2 = (sg_selector var, s3)" "seg_vmcs s3 = seg_vmcs s"
    "\<forall>f. f < 4 \<and> f \<noteq> SEG_FIELD_SEL \<longrightarrow> cached s3 seg f = cached s2 seg f"
    using read_selector [OF assms(1), of s2] assms(2,4,5) 1 2 by (auto simp: narrow_read seg_field_defs)
  obtain s4 where 4: "vmx_read_guest_seg_ar seg s3 = (vmx_segment_access_rights var, s4)"
    using read_ar [OF assms(1), of s3] assms(2,4,8) 1 2 3 by (auto simp: narrow_read seg_field_defs)
  have b: "bit (vmx_segment_access_rights var) 16 \<longleftrightarrow> sg_unusable var \<noteq> 0 \<or> sg_present var = 0"
    "bit (vmx_segment_access_rights var) 4 \<longleftrightarrow> bit (sg_s var) 0" "bit (vmx_segment_access_rights var) 12 \<longleftrightarrow> bit (sg_avl var) 0"
    "bit (vmx_segment_access_rights var) 13 \<longleftrightarrow> bit (sg_l var) 0" "bit (vmx_segment_access_rights var) 14 \<longleftrightarrow> bit (sg_db var) 0"
    "bit (vmx_segment_access_rights var) 15 \<longleftrightarrow> bit (sg_g var) 0"
    by (simp_all add: bit_access_rights ar_bit_def)
  show ?thesis
    using assms(3) unfolding vmx_get_segment_def Let_def
    by (simp only: if_False 1(1) 2(1) 3(1) 4 split_conv fst_conv) (simp add: unpack_bit b unpack_type unpack_dpl of_bool_bit_0)
qed

section \<open>Round trip\<close>

lemma seg_fields_apart:
  assumes "seg < 8" "sf = kvm_vmx_segment_fields ! seg"
  shows "distinct [sf_selector sf, sf_base sf, sf_limit sf, sf_ar_bytes sf]"
proof -
  have "seg = 0 \<or> seg = 1 \<or> seg = 2 \<or> seg = 3 \<or> seg = 4 \<or> seg = 5 \<or> seg = 6 \<or> seg = 7" using assms(1) by auto
  then show ?thesis unfolding assms(2) by (elim disjE) (simp_all add: kvm_vmx_segment_fields_def)
qed

text \<open>The segment that reads back for one that was written, when it is kept in the VMCS.\<close>

definition normal_segment :: "bool \<Rightarrow> nat \<Rightarrow> kvm_segment \<Rightarrow> kvm_segment" where
  "normal_segment ug seg var = (let unusable = (sg_unusable var \<noteq> 0 \<or> sg_present var = 0) in
     var\<lparr>sg_type := (if ug \<and> seg \<noteq> VCPU_SREG_LDTR then sg_type var OR 1 else sg_type var), sg_present := of_bool (\<not> unusable),
       sg_unusable := of_bool unusable\<rparr>)"

definition segment_in_range :: "kvm_segment \<Rightarrow> bool" where
  "segment_in_range var \<longleftrightarrow> sg_type var AND 15 = sg_type var \<and> sg_dpl var AND 3 = sg_dpl var \<and>
     (\<forall>f \<in> {sg_db, sg_s, sg_l, sg_g, sg_avl}. f var AND 1 = f var)"

lemma type_accessed: "t AND 15 = t \<Longrightarrow> (t OR 1) AND 15 = (t OR 1 :: u8)"
  by (simp add: bit.conj_disj_distrib2)

text \<open>
  C31: writing any of the eight segment registers and reading it again gives the segment written:
  in real mode exactly, otherwise with the accessed bit that unrestricted guests need and with
  unusable and absent made to agree, whatever the cache of VMCS reads held before.
\<close>

theorem segment_round_trip:
  assumes "seg < 8" and "segment_in_range var" and "raw_vmx_set_segment ug var seg s = (var', s')"
  shows "fst (vmx_get_segment seg s') =
    (if vm86_active s \<and> seg \<noteq> VCPU_SREG_LDTR then var else normal_segment ug seg var)"
proof -
  define sf where "sf = kvm_vmx_segment_fields ! seg"
  note d = seg_fields_apart [OF assms(1) sf_def]
  have v': "var' = (if ug \<and> seg \<noteq> VCPU_SREG_LDTR then var\<lparr>sg_type := sg_type var OR 1\<rparr> else var)"
    using assms(3) by (auto simp: raw_vmx_set_segment_def Let_def)
  have f: "seg_vmcs s' (sf_selector sf) = ucast (sg_selector var)" "seg_vmcs s' (sf_base sf) = sg_base var"
    "seg_vmcs s' (sf_limit sf) = ucast (sg_limit var)" "seg_vmcs s' (sf_ar_bytes sf) = ucast (vmx_segment_access_rights var')"
    using assms(3) d v' by (auto simp: raw_vmx_set_segment_def Let_def seg_write_def sf_def [symmetric])
  have m: "seg_bitmask s' = 0" "vm86_active s' = vm86_active s" "vm86_active s \<and> seg \<noteq> VCPU_SREG_LDTR \<Longrightarrow> rmode_segs s' seg = var"
    using assms(3) by (auto simp: raw_vmx_set_segment_def Let_def seg_write_def vmx_segment_cache_clear_def fix_rmode_seg_def split: if_splits)
  have unc: "\<not> cached s' seg g" for g by (simp add: cached_def m)
  show ?thesis
  proof (cases "vm86_active s \<and> seg \<noteq> VCPU_SREG_LDTR")
    case True
    obtain t where "vmx_read_guest_seg_selector seg s' = (sg_selector var, t)"
      using read_selector [OF assms(1) unc] f(1) by (auto simp: narrow_read sf_def)
    then show ?thesis using True m(2,3) by (simp add: vmx_get_segment_def)
  next
    case False
    note r = get_segment_uncached [OF assms(1) unc False [folded m(2)] sf_def, of var']
    have "fst (vmx_get_segment seg s') = normal_segment ug seg var"
    proof (cases "ug \<and> seg \<noteq> VCPU_SREG_LDTR")
      case True
      then have "var' = var\<lparr>sg_type := sg_type var OR 1\<rparr>" unfolding v' by simp
      then show ?thesis
        using r f assms(2) type_accessed [of "sg_type var"] True by (simp add: normal_segment_def segment_in_range_def Let_def)
    next
      case F: False
      then have "var' = var" unfolding v' by auto
      then show ?thesis using r f assms(2) F by (auto simp: normal_segment_def segment_in_range_def Let_def)
    qed
    then show ?thesis using False by (simp only: if_False)
  qed
qed

definition flat_code :: kvm_segment where
  "flat_code = \<lparr>sg_base = 0, sg_limit = 0xffffffff, sg_selector = 0x10, sg_type = 10, sg_present = 1, sg_dpl = 0, sg_db = 0, sg_s = 1,
     sg_l = 1, sg_g = 1, sg_avl = 0, sg_unusable = 0\<rparr>"

definition no_segs :: vcpu_segs where
  "no_segs = \<lparr>seg_vmcs = (\<lambda>_. 0), segs_avail = True, seg_bitmask = 0xffff, seg_cache = (\<lambda>_. \<lparr>c_selector = 0, c_base = 0, c_limit = 0, c_ar = 0\<rparr>),
     vm86_active = False, rmode_segs = (\<lambda>_. flat_code)\<rparr>"

theorem segment_round_trip_witness:
  "segment_in_range flat_code \<and>
   fst (vmx_get_segment VCPU_SREG_CS (snd (raw_vmx_set_segment True flat_code VCPU_SREG_CS no_segs))) = flat_code\<lparr>sg_type := 11\<rparr>"
proof
  show r: "segment_in_range flat_code" by (simp add: segment_in_range_def flat_code_def)
  show "fst (vmx_get_segment VCPU_SREG_CS (snd (raw_vmx_set_segment True flat_code VCPU_SREG_CS no_segs))) = flat_code\<lparr>sg_type := 11\<rparr>"
    using segment_round_trip [OF _ r prod.collapse [symmetric], of VCPU_SREG_CS True no_segs]
    by (simp add: VCPU_SREG_CS_def VCPU_SREG_LDTR_def no_segs_def normal_segment_def flat_code_def)
qed

end
