(* ===== verification/X86_Regs.thy ===== *)
theory X86_Regs
  imports Svmx_Prelude
begin

text \<open>
  Bits of the control registers, of RFLAGS and of EFER: \<^verbatim>\<open>src/svmx/processor-flags.h\<close> and
  \<^verbatim>\<open>msr-index.h\<close>. \<^verbatim>\<open>_BITUL\<close> gives an \<^verbatim>\<open>unsigned long\<close>, which has 32 bits in this ABI: a complement of such a
  mask, used on a 64-bit register, clears the upper half.
\<close>

named_theorems x86_bits \<open>definitions of register bits, unfolded to evaluate them\<close>

definition X86_CR0_PE :: u64 where [x86_bits]: "X86_CR0_PE = 0x1"
definition X86_CR0_MP :: u64 where [x86_bits]: "X86_CR0_MP = 0x2"
definition X86_CR0_EM :: u64 where [x86_bits]: "X86_CR0_EM = 0x4"
definition X86_CR0_TS :: u64 where [x86_bits]: "X86_CR0_TS = 0x8"
definition X86_CR0_ET :: u64 where [x86_bits]: "X86_CR0_ET = 0x10"
definition X86_CR0_NE :: u64 where [x86_bits]: "X86_CR0_NE = 0x20"
definition X86_CR0_WP :: u64 where [x86_bits]: "X86_CR0_WP = 0x10000"
definition X86_CR0_AM :: u64 where [x86_bits]: "X86_CR0_AM = 0x40000"
definition X86_CR0_NW :: u64 where [x86_bits]: "X86_CR0_NW = 0x20000000"
definition X86_CR0_CD :: u64 where [x86_bits]: "X86_CR0_CD = 0x40000000"
definition X86_CR0_PG :: u64 where [x86_bits]: "X86_CR0_PG = 0x80000000"

definition X86_CR4_VME :: u64 where [x86_bits]: "X86_CR4_VME = 0x1"
definition X86_CR4_PVI :: u64 where [x86_bits]: "X86_CR4_PVI = 0x2"
definition X86_CR4_TSD :: u64 where [x86_bits]: "X86_CR4_TSD = 0x4"
definition X86_CR4_DE :: u64 where [x86_bits]: "X86_CR4_DE = 0x8"
definition X86_CR4_PSE :: u64 where [x86_bits]: "X86_CR4_PSE = 0x10"
definition X86_CR4_PAE :: u64 where [x86_bits]: "X86_CR4_PAE = 0x20"
definition X86_CR4_MCE :: u64 where [x86_bits]: "X86_CR4_MCE = 0x40"
definition X86_CR4_PGE :: u64 where [x86_bits]: "X86_CR4_PGE = 0x80"
definition X86_CR4_PCE :: u64 where [x86_bits]: "X86_CR4_PCE = 0x100"
definition X86_CR4_OSFXSR :: u64 where [x86_bits]: "X86_CR4_OSFXSR = 0x200"
definition X86_CR4_OSXMMEXCPT :: u64 where [x86_bits]: "X86_CR4_OSXMMEXCPT = 0x400"
definition X86_CR4_UMIP :: u64 where [x86_bits]: "X86_CR4_UMIP = 0x800"
definition X86_CR4_LA57 :: u64 where [x86_bits]: "X86_CR4_LA57 = 0x1000"
definition X86_CR4_VMXE :: u64 where [x86_bits]: "X86_CR4_VMXE = 0x2000"
definition X86_CR4_FSGSBASE :: u64 where [x86_bits]: "X86_CR4_FSGSBASE = 0x10000"
definition X86_CR4_PCIDE :: u64 where [x86_bits]: "X86_CR4_PCIDE = 0x20000"
definition X86_CR4_OSXSAVE :: u64 where [x86_bits]: "X86_CR4_OSXSAVE = 0x40000"
definition X86_CR4_SMEP :: u64 where [x86_bits]: "X86_CR4_SMEP = 0x100000"
definition X86_CR4_SMAP :: u64 where [x86_bits]: "X86_CR4_SMAP = 0x200000"
definition X86_CR4_PKE :: u64 where [x86_bits]: "X86_CR4_PKE = 0x400000"

definition X86_CR3_PCID_MASK :: u64 where [x86_bits]: "X86_CR3_PCID_MASK = 0xfff"
definition X86_EFLAGS_IOPL :: u64 where [x86_bits]: "X86_EFLAGS_IOPL = 0x3000"
definition X86_EFLAGS_VM :: u64 where [x86_bits]: "X86_EFLAGS_VM = 0x20000"
definition EFER_LMA :: u64 where [x86_bits]: "EFER_LMA = 0x400"

definition not_ul :: "u64 \<Rightarrow> u64" where
  "not_ul m = ucast (NOT (ucast m) :: u32)"

lemma bit_not_ul: "bit (not_ul m) n \<longleftrightarrow> n < 32 \<and> \<not> bit m n"
  by (auto simp: not_ul_def bit_unsigned_iff bit_not_iff)

end
