(* ===== verification/Kvm_Hardware.thy ===== *)
theory Kvm_Hardware
  imports X86_Regs
begin

text \<open>
  Switching hardware virtualization on and off: the usage count of \<^verbatim>\<open>src/svmx/kvm_main.c\<close>, the per-CPU
  enabling of \<^verbatim>\<open>src/svmx/vmx.c\<close> and \<^verbatim>\<open>src/svmx/virtext.h\<close>, the lists of loaded VMCSs and the VPIDs.

  Every call may fault, as the privileged instructions do, or hang: \<open>Inl\<close> says how.
  \<^verbatim>\<open>KeIpiGenericCall\<close> runs its argument on each CPU; the functions it is given touch only what belongs to
  their CPU, so the order does not matter and the model takes the CPUs in turn.
\<close>

section \<open>CPUs\<close>

datatype hw_fault = UD | GP | Hang | Use_After_Free

text \<open>\<open>vmxon_region\<close> is set while the CPU is in VMX operation.\<close>

record cpu =
  cr0 :: u64
  cr4 :: u64
  vmxon_region :: "u64 option"

record fixed_msrs =
  cr0_fixed0 :: u64
  cr0_fixed1 :: u64
  cr4_fixed0 :: u64
  cr4_fixed1 :: u64

definition fixed_ok :: "u64 \<Rightarrow> u64 \<Rightarrow> u64 \<Rightarrow> bool" where
  "fixed_ok f0 f1 v \<longleftrightarrow> f0 AND NOT v = 0 \<and> v AND NOT f1 = 0"

text \<open>The instructions VMXON and VMXOFF; a VMXON inside VMX operation fails and changes nothing.\<close>

definition vmx_on :: "fixed_msrs \<Rightarrow> u64 \<Rightarrow> cpu \<Rightarrow> hw_fault + cpu" where
  "vmx_on m ptr c =
     (if cr4 c AND X86_CR4_VMXE = 0 then Inl UD
      else if vmxon_region c \<noteq> None then Inr c
      else if fixed_ok (cr0_fixed0 m) (cr0_fixed1 m) (cr0 c) \<and> fixed_ok (cr4_fixed0 m) (cr4_fixed1 m) (cr4 c)
        then Inr (c\<lparr>vmxon_region := Some ptr\<rparr>)
      else Inl GP)"

definition vmx_off :: "cpu \<Rightarrow> hw_fault + cpu" where
  "vmx_off c = (if vmxon_region c = None then Inl UD else Inr (c\<lparr>vmxon_region := None\<rparr>))"

fun bindR :: "hw_fault + 'a \<Rightarrow> ('a \<Rightarrow> hw_fault + 'b) \<Rightarrow> hw_fault + 'b" where
  "bindR (Inl e) f = Inl e"
| "bindR (Inr x) f = f x"

section \<open>VMX on one CPU\<close>

definition kvm_cpu_vmxon :: "fixed_msrs \<Rightarrow> u64 \<Rightarrow> cpu \<Rightarrow> hw_fault + (int \<times> cpu)" where
  "kvm_cpu_vmxon m ptr c = bindR (vmx_on m ptr (c\<lparr>cr4 := cr4 c OR X86_CR4_VMXE\<rparr>)) (\<lambda>c. Inr (0, c))"

definition vmx_hardware_enable :: "fixed_msrs \<Rightarrow> u64 \<Rightarrow> cpu \<Rightarrow> hw_fault + (int \<times> cpu)" where
  "vmx_hardware_enable m area c =
     (if cr4 c AND X86_CR4_VMXE \<noteq> 0 then Inr (-1, c)
      else kvm_cpu_vmxon m area
        (c\<lparr>cr0 := (cr0 c AND cr0_fixed1 m) OR cr0_fixed0 m, cr4 := (cr4 c AND cr4_fixed1 m) OR cr4_fixed0 m\<rparr>))"

definition ExecuteVmxOff :: "cpu \<Rightarrow> hw_fault + cpu" where
  "ExecuteVmxOff c = bindR (vmx_off c) (\<lambda>c. Inr (c\<lparr>cr4 := cr4 c AND not_ul X86_CR4_VMXE\<rparr>))"

section \<open>Loaded VMCSs\<close>

text \<open>
  The structures are named by numbers. \<open>on_cpu\<close> gives the list \<^verbatim>\<open>loaded_vmcss_on_cpu\<close> of a CPU,
  \<open>current_vmcs\<close> the driver's record of its current VMCS (0 for none) and \<open>hw_vmcs\<close> the CPU's own;
  \<open>vmcs_data\<close> holds the fields of every VMCS and \<open>pool\<close> the blocks in use.
\<close>

record loaded =
  lv_vmcs :: u64
  lv_shadow_vmcs :: u64
  lv_cpu :: int
  lv_launched :: bool
  lv_vcpu_id :: nat
  lv_hv_timer_soft_disabled :: bool
  lv_msr_bitmap :: u64
  lv_io_bitmap_a :: u64
  lv_io_bitmap_b :: u64

record vmcs_state =
  lv :: "nat \<Rightarrow> loaded"
  on_cpu :: "nat \<Rightarrow> nat list"
  current_vmcs :: "nat \<Rightarrow> u64"
  hw_vmcs :: "nat \<Rightarrow> u64"
  vmcs_data :: "u64 \<Rightarrow> u32 \<Rightarrow> u64"
  pool :: "u64 list"

definition upd_lv :: "nat \<Rightarrow> (loaded \<Rightarrow> loaded) \<Rightarrow> vmcs_state \<Rightarrow> vmcs_state" where
  "upd_lv i f s = s\<lparr>lv := (lv s)(i := f (lv s i))\<rparr>"

definition vmcs_clear :: "nat \<Rightarrow> u64 \<Rightarrow> vmcs_state \<Rightarrow> vmcs_state" where
  "vmcs_clear cpu v s = (if hw_vmcs s cpu = v then s\<lparr>hw_vmcs := (hw_vmcs s)(cpu := 0)\<rparr> else s)"

definition raw_loaded_vmcs_clear :: "nat \<Rightarrow> nat \<Rightarrow> vmcs_state \<Rightarrow> vmcs_state" where
  "raw_loaded_vmcs_clear cpu i s = (let
       s = (if current_vmcs s cpu = lv_vmcs (lv s i) then s\<lparr>current_vmcs := (current_vmcs s)(cpu := 0)\<rparr> else s);
       s = vmcs_clear cpu (lv_vmcs (lv s i)) s;
       s = (if lv_shadow_vmcs (lv s i) \<noteq> 0 \<and> lv_launched (lv s i) then vmcs_clear cpu (lv_shadow_vmcs (lv s i)) s else s);
       s = s\<lparr>on_cpu := (\<lambda>c. removeAll i (on_cpu s c))\<rparr> in
     upd_lv i (\<lambda>l. l\<lparr>lv_cpu := -1, lv_launched := False\<rparr>) s)"

text \<open>
  The allocation of a VMCS with its bitmaps; \<open>v\<close>, \<open>mb\<close>, \<open>ioa\<close> and \<open>iob\<close> are what the allocator returns, 0 when it has
  nothing left. Host state and control shadows are zeroed too (see \<open>init_vmcs_controls\<close> for the latter).
\<close>

definition ExFreePool :: "u64 \<Rightarrow> vmcs_state \<Rightarrow> vmcs_state" where
  "ExFreePool p s = s\<lparr>pool := remove1 p (pool s)\<rparr>"

definition take_block :: "u64 \<Rightarrow> vmcs_state \<Rightarrow> vmcs_state" where
  "take_block p s = (if p = 0 then s else s\<lparr>pool := p # pool s\<rparr>)"

definition VmcsClearOnSpecificCore :: "nat \<Rightarrow> nat \<Rightarrow> vmcs_state \<Rightarrow> vmcs_state" where
  "VmcsClearOnSpecificCore cpu i s = (if cpu = lv_vcpu_id (lv s i) then vmcs_clear cpu (lv_vmcs (lv s i)) s else s)"

definition alloc_loaded_vmcs :: "nat \<Rightarrow> bool \<Rightarrow> bool \<Rightarrow> u64 \<times> u64 \<times> u64 \<times> u64 \<Rightarrow> nat \<Rightarrow> vmcs_state \<Rightarrow> int \<times> vmcs_state" where
  "alloc_loaded_vmcs ncpus has_msr_bitmap has_io_bitmap blocks i s = (let
       (v, mb, ioa, iob) = blocks;
       s = take_block v (upd_lv i (\<lambda>l. l\<lparr>lv_vmcs := v\<rparr>) s) in
     if v = 0 then (STATUS_NO_MEMORY, s)
     else let
       s = fold (\<lambda>c. VmcsClearOnSpecificCore c i) [0..<ncpus] s;
       s = upd_lv i (\<lambda>l. l\<lparr>lv_shadow_vmcs := 0, lv_hv_timer_soft_disabled := False, lv_cpu := -1, lv_launched := False\<rparr>) s in
     if has_msr_bitmap \<and> mb = 0 then (STATUS_NO_MEMORY, s)
     else let
       s = (if has_msr_bitmap then upd_lv i (\<lambda>l. l\<lparr>lv_msr_bitmap := mb\<rparr>) (take_block mb s) else s);
       undo = (if has_msr_bitmap then ExFreePool mb else id) in
     if has_io_bitmap \<and> ioa = 0 then (STATUS_NO_MEMORY, undo s)
     else let s = (if has_io_bitmap then upd_lv i (\<lambda>l. l\<lparr>lv_io_bitmap_a := ioa\<rparr>) (take_block ioa s) else s) in
     if has_io_bitmap \<and> iob = 0 then (STATUS_NO_MEMORY, ExFreePool ioa (undo s))
     else (STATUS_SUCCESS,
       if has_io_bitmap then upd_lv i (\<lambda>l. l\<lparr>lv_io_bitmap_b := iob\<rparr>) (take_block iob s) else s))"

text \<open>The loop never moves on from the first entry; \<open>None\<close> as the entry stands for the list head.\<close>

partial_function (option) vmclear_loop :: "nat \<Rightarrow> nat option \<Rightarrow> vmcs_state \<Rightarrow> vmcs_state option" where
  "vmclear_loop cpu nextEntry s =
     (case nextEntry of None \<Rightarrow> Some s | Some i \<Rightarrow> vmclear_loop cpu nextEntry (raw_loaded_vmcs_clear cpu i s))"

definition vmclear_local_loaded_vmcss :: "nat \<Rightarrow> vmcs_state \<Rightarrow> hw_fault + vmcs_state" where
  "vmclear_local_loaded_vmcss cpu s =
     (case vmclear_loop cpu (case on_cpu s cpu of [] \<Rightarrow> None | i # _ \<Rightarrow> Some i) s of None \<Rightarrow> Inl Hang | Some s' \<Rightarrow> Inr s')"

text \<open>Only the CPU whose number is the vCPU's id acts.\<close>

definition RunOnTargetCore :: "nat \<Rightarrow> nat \<Rightarrow> vmcs_state \<Rightarrow> vmcs_state" where
  "RunOnTargetCore cpu i s =
     (if cpu \<noteq> lv_vcpu_id (lv s i) then s
      else if lv_cpu (lv s i) \<noteq> -1 then raw_loaded_vmcs_clear cpu i s else s)"

definition loaded_vmcs_clear :: "nat \<Rightarrow> nat \<Rightarrow> vmcs_state \<Rightarrow> vmcs_state" where
  "loaded_vmcs_clear ncpus i s =
     (if lv_cpu (lv s i) \<noteq> -1 then fold (\<lambda>cpu. RunOnTargetCore cpu i) [0..<ncpus] s else s)"

definition VmcsLoadOnSpecificCore :: "nat \<Rightarrow> nat \<Rightarrow> vmcs_state \<Rightarrow> vmcs_state" where
  "VmcsLoadOnSpecificCore cpu i s =
     (if cpu = lv_vcpu_id (lv s i) then s\<lparr>hw_vmcs := (hw_vmcs s)(cpu := lv_vmcs (lv s i))\<rparr> else s)"

text \<open>\<open>here\<close> is the CPU that executes; \<open>tr_base\<close> and \<open>gdt\<close> are the bases of its TSS and GDT.\<close>

definition vmcs_writel :: "nat \<Rightarrow> u32 \<Rightarrow> u64 \<Rightarrow> vmcs_state \<Rightarrow> vmcs_state" where
  "vmcs_writel here f x s =
     s\<lparr>vmcs_data := (vmcs_data s)(hw_vmcs s here := (vmcs_data s (hw_vmcs s here))(f := x))\<rparr>"

definition vmx_vcpu_load_vmcs :: "nat \<Rightarrow> nat \<Rightarrow> u64 \<Rightarrow> u64 \<Rightarrow> nat \<Rightarrow> nat \<Rightarrow> vmcs_state \<Rightarrow> vmcs_state" where
  "vmx_vcpu_load_vmcs ncpus here tr_base gdt i cpu s = (let
       already_loaded = (lv_cpu (lv s i) = int cpu);
       s = (if already_loaded then s
            else let s = loaded_vmcs_clear ncpus i s in s\<lparr>on_cpu := (on_cpu s)(cpu := i # on_cpu s cpu)\<rparr>);
       s = (if current_vmcs s cpu \<noteq> lv_vmcs (lv s i)
            then fold (\<lambda>c. VmcsLoadOnSpecificCore c i) [0..<ncpus]
              (s\<lparr>current_vmcs := (current_vmcs s)(cpu := lv_vmcs (lv s i))\<rparr>)
            else s) in
     if already_loaded then s
     else upd_lv i (\<lambda>l. l\<lparr>lv_cpu := int cpu\<rparr>) (vmcs_writel here 0x6c0c gdt (vmcs_writel here 0x6c0a tr_base s)))"

definition free_loaded_vmcs :: "nat \<Rightarrow> nat \<Rightarrow> vmcs_state \<Rightarrow> vmcs_state" where
  "free_loaded_vmcs ncpus i s =
     (if lv_vmcs (lv s i) = 0 then s
      else let
        s = loaded_vmcs_clear ncpus i s;
        s = upd_lv i (\<lambda>l. l\<lparr>lv_vmcs := 0\<rparr>) (ExFreePool (lv_vmcs (lv s i)) s);
        s = (if lv_msr_bitmap (lv s i) \<noteq> 0 then ExFreePool (lv_msr_bitmap (lv s i)) s else s);
        s = (if lv_io_bitmap_a (lv s i) \<noteq> 0 then ExFreePool (lv_io_bitmap_a (lv s i)) s else s) in
      if lv_io_bitmap_b (lv s i) \<noteq> 0 then ExFreePool (lv_io_bitmap_b (lv s i)) s else s)"

section \<open>VPIDs\<close>

text \<open>
  \<open>find_clear\<close> stands for \<^verbatim>\<open>RtlFindClearBits\<close> asked for one bit; it gives no index when every bit is set. The bitmap
  outlives its buffer: \<^verbatim>\<open>vmx_hardware_disable\<close> frees it and nothing allocates it again.
\<close>

definition VMX_NR_VPIDS :: nat where "VMX_NR_VPIDS = 65536"

definition allocate_vpid :: "(bool list \<Rightarrow> nat option) \<Rightarrow> bool \<Rightarrow> bool list option \<Rightarrow> hw_fault + (nat \<times> bool list option)" where
  "allocate_vpid find_clear enable_vpid buf =
     (if \<not> enable_vpid then Inr (0, buf)
      else case buf of
        None \<Rightarrow> Inl Use_After_Free
      | Some bits \<Rightarrow> (case find_clear bits of
          Some vpid \<Rightarrow> if vpid < VMX_NR_VPIDS then Inr (vpid, Some (bits[vpid := True])) else Inr (0, buf)
        | None \<Rightarrow> Inr (0, buf)))"

section \<open>The whole machine\<close>

record hw_state =
  kvm_usage_count :: u32
  kvm_rebooting :: bool
  hardware_enabled :: "bool list"
  cpus :: "cpu list"
  vmcss :: vmcs_state
  vmx_vpid_bitmap_buf :: "bool list option"

type_synonym hw_config = "fixed_msrs \<times> (nat \<Rightarrow> u64)"

text \<open>On an IPI.\<close>

fun ipi :: "(nat \<Rightarrow> hw_state \<Rightarrow> hw_fault + hw_state) \<Rightarrow> nat list \<Rightarrow> hw_state \<Rightarrow> hw_fault + hw_state" where
  "ipi f [] s = Inr s"
| "ipi f (i # is) s = bindR (f i s) (ipi f is)"

definition cpu_vmxoff :: "hw_state \<Rightarrow> hw_fault + hw_state" where
  "cpu_vmxoff s = ipi (\<lambda>i s. bindR (ExecuteVmxOff (cpus s ! i)) (\<lambda>c. Inr (s\<lparr>cpus := (cpus s)[i := c]\<rparr>))) [0..<length (cpus s)] s"

definition vmx_hardware_disable :: "nat \<Rightarrow> hw_state \<Rightarrow> hw_fault + hw_state" where
  "vmx_hardware_disable cpu s =
     bindR (vmclear_local_loaded_vmcss cpu (vmcss s)) (\<lambda>v.
     bindR (cpu_vmxoff (s\<lparr>vmcss := v\<rparr>)) (\<lambda>s.
     Inr (if vmx_vpid_bitmap_buf s \<noteq> None then s\<lparr>vmx_vpid_bitmap_buf := None\<rparr> else s)))"

definition raw_hardware_enable_nolock :: "hw_config \<Rightarrow> nat \<Rightarrow> hw_state \<Rightarrow> hw_fault + (int \<times> hw_state)" where
  "raw_hardware_enable_nolock cfg cpu s =
     (if hardware_enabled s ! cpu then Inr (0, s)
      else bindR (vmx_hardware_enable (fst cfg) (snd cfg cpu) (cpus s ! cpu)) (\<lambda>(r, c).
        let s = s\<lparr>cpus := (cpus s)[cpu := c]\<rparr> in
        if r \<noteq> 0 then Inr (-1, s)
        else Inr (0, s\<lparr>hardware_enabled := (hardware_enabled s)[cpu := True]\<rparr>)))"

definition hardware_enable_nolock :: "hw_config \<Rightarrow> nat \<Rightarrow> hw_state \<Rightarrow> hw_fault + hw_state" where
  "hardware_enable_nolock cfg cpu s = bindR (raw_hardware_enable_nolock cfg cpu s) (\<lambda>(_, s). Inr s)"

definition hardware_enable_all :: "hw_config \<Rightarrow> hw_state \<Rightarrow> hw_fault + hw_state" where
  "hardware_enable_all cfg s = (let s = s\<lparr>kvm_usage_count := kvm_usage_count s + 1\<rparr> in
     if kvm_usage_count s = 1 then ipi (hardware_enable_nolock cfg) [0..<length (cpus s)] s else Inr s)"

definition hardware_disable_nolock :: "nat \<Rightarrow> hw_state \<Rightarrow> hw_fault + hw_state" where
  "hardware_disable_nolock cpu s =
     (if \<not> hardware_enabled s ! cpu then Inr s
      else bindR (vmx_hardware_disable cpu s) (\<lambda>s. Inr (s\<lparr>hardware_enabled := (hardware_enabled s)[cpu := False]\<rparr>)))"

definition hardware_disable_all :: "nat \<Rightarrow> hw_state \<Rightarrow> hw_fault + hw_state" where
  "hardware_disable_all cpu s = (let s = s\<lparr>kvm_usage_count := kvm_usage_count s - 1\<rparr> in
     if kvm_usage_count s = 0 then hardware_disable_nolock cpu s else Inr s)"

definition kvm_offline_cpu :: "hw_config \<Rightarrow> nat \<Rightarrow> hw_state \<Rightarrow> hw_fault + hw_state" where
  "kvm_offline_cpu cfg cpu s = (if kvm_usage_count s \<noteq> 0 then hardware_enable_nolock cfg cpu s else Inr s)"

definition kvm_suspend :: "hw_config \<Rightarrow> nat \<Rightarrow> hw_state \<Rightarrow> hw_fault + hw_state" where
  "kvm_suspend cfg cpu s = (if kvm_usage_count s \<noteq> 0 then hardware_enable_nolock cfg cpu s else Inr s)"

definition kvm_shutdown :: "nat \<Rightarrow> hw_state \<Rightarrow> hw_fault + hw_state" where
  "kvm_shutdown cpu s = hardware_disable_nolock cpu (s\<lparr>kvm_rebooting := True\<rparr>)"

definition kvm_resume :: "hw_config \<Rightarrow> nat \<Rightarrow> hw_state \<Rightarrow> hw_fault + hw_state" where
  "kvm_resume cfg cpu s = (if kvm_usage_count s \<noteq> 0 then hardware_enable_nolock cfg cpu s else Inr s)"

end
