(* ===== verification/Kvm_Hardware_Props.thy ===== *)
theory Kvm_Hardware_Props
  imports Kvm_Hardware
begin

text \<open>
  The life cycle of hardware virtualization over the creation and destruction of VMs, and what
  holds of the lists of loaded VMCSs and of VPIDs.
\<close>

section \<open>One CPU\<close>

definition fixed_sane :: "fixed_msrs \<Rightarrow> bool" where
  "fixed_sane m \<longleftrightarrow> cr0_fixed0 m AND NOT (cr0_fixed1 m) = 0 \<and> cr4_fixed0 m AND NOT (cr4_fixed1 m) = 0 \<and>
     X86_CR4_VMXE AND NOT (cr4_fixed1 m) = 0"

definition vmx_free :: "cpu \<Rightarrow> bool" where
  "vmx_free c \<longleftrightarrow> cr4 c AND X86_CR4_VMXE = 0 \<and> vmxon_region c = None"

definition enabled_cpu :: "fixed_msrs \<Rightarrow> u64 \<Rightarrow> cpu \<Rightarrow> cpu" where
  "enabled_cpu m area c = c\<lparr>cr0 := (cr0 c AND cr0_fixed1 m) OR cr0_fixed0 m,
     cr4 := ((cr4 c AND cr4_fixed1 m) OR cr4_fixed0 m) OR X86_CR4_VMXE, vmxon_region := Some area\<rparr>"

lemma fixed_ok_adjusted: "f0 AND NOT f1 = 0 \<Longrightarrow> x AND NOT f1 = 0 \<Longrightarrow> fixed_ok f0 f1 (((v AND f1) OR f0) OR x)"
  unfolding fixed_ok_def by (auto simp: bit_eq_iff bit_and_iff bit_or_iff bit_not_iff)

lemma or_and_self: "(v OR m) AND m = (m :: 'a::len word)"
  by (rule bit_eqI) (auto simp: bit_and_iff bit_or_iff)

lemma enable_one:
  assumes "fixed_sane m" "vmx_free c"
  shows "vmx_hardware_enable m area c = Inr (0, enabled_cpu m area c)"
proof -
  have "fixed_ok (cr0_fixed0 m) (cr0_fixed1 m) ((cr0 c AND cr0_fixed1 m) OR cr0_fixed0 m)"
    using fixed_ok_adjusted [of "cr0_fixed0 m" "cr0_fixed1 m" 0] assms(1) by (simp add: fixed_sane_def)
  moreover have "fixed_ok (cr4_fixed0 m) (cr4_fixed1 m) (((cr4 c AND cr4_fixed1 m) OR cr4_fixed0 m) OR X86_CR4_VMXE)"
    using assms(1) by (intro fixed_ok_adjusted) (simp_all add: fixed_sane_def)
  moreover have "X86_CR4_VMXE \<noteq> 0" by (simp add: X86_CR4_VMXE_def)
  ultimately show ?thesis
    using assms(2) by (simp add: vmx_hardware_enable_def kvm_cpu_vmxon_def vmx_on_def enabled_cpu_def vmx_free_def or_and_self)
qed

definition disabled_cpu :: "cpu \<Rightarrow> cpu" where
  "disabled_cpu c = c\<lparr>vmxon_region := None, cr4 := cr4 c AND not_ul X86_CR4_VMXE\<rparr>"

lemma disable_one: "ExecuteVmxOff c = (if vmxon_region c = None then Inl UD else Inr (disabled_cpu c))"
  by (simp add: ExecuteVmxOff_def vmx_off_def disabled_cpu_def)

lemma vmx_free_disabled: "vmx_free (disabled_cpu c)"
  by (auto simp: vmx_free_def disabled_cpu_def bit_eq_iff bit_and_iff bit_not_ul)

section \<open>All CPUs\<close>

definition same_rest :: "hw_state \<Rightarrow> hw_state \<Rightarrow> bool" where
  "same_rest s t \<longleftrightarrow> kvm_usage_count t = kvm_usage_count s \<and> vmcss t = vmcss s \<and> vmx_vpid_bitmap_buf t = vmx_vpid_bitmap_buf s \<and>
     length (cpus t) = length (cpus s) \<and> length (hardware_enabled t) = length (hardware_enabled s)"

lemma ipi_enable:
  assumes "fixed_sane (fst cfg)" "length (hardware_enabled s) = length (cpus s)" "distinct is"
    and "\<And>i. i \<in> set is \<Longrightarrow> i < length (cpus s) \<and> (hardware_enabled s ! i \<or> vmx_free (cpus s ! i))"
  shows "\<exists>t. ipi (hardware_enable_nolock cfg) is s = Inr t \<and> same_rest s t \<and>
    (\<forall>i < length (cpus s). hardware_enabled t ! i = (i \<in> set is \<or> hardware_enabled s ! i) \<and>
       cpus t ! i = (if i \<in> set is \<and> \<not> hardware_enabled s ! i then enabled_cpu (fst cfg) (snd cfg i) (cpus s ! i) else cpus s ! i))"
  using assms(2-4)
proof (induction "is" arbitrary: s)
  case Nil
  then show ?case by (simp add: same_rest_def)
next
  case (Cons a "is")
  define s1 where "s1 = (if hardware_enabled s ! a then s
    else s\<lparr>cpus := (cpus s)[a := enabled_cpu (fst cfg) (snd cfg a) (cpus s ! a)], hardware_enabled := (hardware_enabled s)[a := True]\<rparr>)"
  have step: "hardware_enable_nolock cfg a s = Inr s1"
    using Cons.prems(3) [of a] enable_one [OF assms(1)]
    by (auto simp: hardware_enable_nolock_def raw_hardware_enable_nolock_def s1_def)
  have a: "a < length (cpus s)" "a \<notin> set is" using Cons.prems by auto
  have len: "length (cpus s1) = length (cpus s)" "length (hardware_enabled s1) = length (hardware_enabled s)" by (simp_all add: s1_def)
  have nth: "i \<noteq> a \<Longrightarrow> cpus s1 ! i = cpus s ! i \<and> hardware_enabled s1 ! i = hardware_enabled s ! i" for i by (simp add: s1_def)
  have "\<exists>t. ipi (hardware_enable_nolock cfg) is s1 = Inr t \<and> same_rest s1 t \<and>
    (\<forall>i < length (cpus s1). hardware_enabled t ! i = (i \<in> set is \<or> hardware_enabled s1 ! i) \<and>
       cpus t ! i = (if i \<in> set is \<and> \<not> hardware_enabled s1 ! i then enabled_cpu (fst cfg) (snd cfg i) (cpus s1 ! i) else cpus s1 ! i))"
  proof (rule Cons.IH)
    show "i < length (cpus s1) \<and> (hardware_enabled s1 ! i \<or> vmx_free (cpus s1 ! i))" if "i \<in> set is" for i
      using that Cons.prems(3) [of i] nth [of i] a len by (cases "i = a") auto
  qed (use Cons.prems len in simp_all)
  then obtain t where t: "ipi (hardware_enable_nolock cfg) is s1 = Inr t" "same_rest s1 t"
    "\<And>i. i < length (cpus s1) \<Longrightarrow> hardware_enabled t ! i = (i \<in> set is \<or> hardware_enabled s1 ! i) \<and>
       cpus t ! i = (if i \<in> set is \<and> \<not> hardware_enabled s1 ! i then enabled_cpu (fst cfg) (snd cfg i) (cpus s1 ! i) else cpus s1 ! i)"
    by blast
  have "same_rest s t" using t(2) len by (auto simp: same_rest_def s1_def split: if_splits)
  moreover have "hardware_enabled t ! i = (i \<in> set (a # is) \<or> hardware_enabled s ! i) \<and>
       cpus t ! i = (if i \<in> set (a # is) \<and> \<not> hardware_enabled s ! i then enabled_cpu (fst cfg) (snd cfg i) (cpus s ! i) else cpus s ! i)"
    if "i < length (cpus s)" for i
    using t(3) [of i] that nth [of i] a len Cons.prems(1) by (cases "i = a") (auto simp: s1_def)
  ultimately show ?case using t(1) step by auto
qed

definition vmxoff_step :: "nat \<Rightarrow> hw_state \<Rightarrow> hw_fault + hw_state" where
  "vmxoff_step i s = bindR (ExecuteVmxOff (cpus s ! i)) (\<lambda>c. Inr (s\<lparr>cpus := (cpus s)[i := c]\<rparr>))"

lemma cpu_vmxoff_steps: "cpu_vmxoff s = ipi vmxoff_step [0..<length (cpus s)] s"
  by (simp add: cpu_vmxoff_def vmxoff_step_def [abs_def])

lemma ipi_off:
  assumes "distinct is" "\<And>i. i \<in> set is \<Longrightarrow> i < length (cpus s)"
  shows "ipi vmxoff_step is s =
    (if \<exists>i \<in> set is. vmxon_region (cpus s ! i) = None then Inl UD
     else Inr (s\<lparr>cpus := map (\<lambda>i. if i \<in> set is then disabled_cpu (cpus s ! i) else cpus s ! i) [0..<length (cpus s)]\<rparr>))"
  using assms
proof (induction "is" arbitrary: s)
  case Nil
  then show ?case by (simp add: map_nth)
next
  case (Cons a "is")
  let ?s = "s\<lparr>cpus := (cpus s)[a := disabled_cpu (cpus s ! a)]\<rparr>"
  have a: "a < length (cpus s)" "a \<notin> set is" using Cons.prems by auto
  have nth: "i \<in> set is \<Longrightarrow> cpus ?s ! i = cpus s ! i" for i using a by (cases "i = a") auto
  have ih: "ipi vmxoff_step is ?s =
    (if \<exists>i \<in> set is. vmxon_region (cpus ?s ! i) = None then Inl UD
     else Inr (?s\<lparr>cpus := map (\<lambda>i. if i \<in> set is then disabled_cpu (cpus ?s ! i) else cpus ?s ! i) [0..<length (cpus ?s)]\<rparr>))"
    using Cons.prems by (intro Cons.IH) auto
  have m: "map (\<lambda>i. if i \<in> set is then disabled_cpu (cpus ?s ! i) else cpus ?s ! i) [0..<length (cpus ?s)] =
    map (\<lambda>i. if i \<in> set (a # is) then disabled_cpu (cpus s ! i) else cpus s ! i) [0..<length (cpus s)]"
    using a by (auto simp: nth_list_update)
  have step: "vmxoff_step a s = (if vmxon_region (cpus s ! a) = None then Inl UD else Inr ?s)"
    by (simp add: vmxoff_step_def disable_one)
  show ?case
  proof (cases "\<exists>i \<in> set (a # is). vmxon_region (cpus s ! i) = None")
    case True
    then show ?thesis using ih nth by (auto simp: step)
  next
    case False
    then have "ipi vmxoff_step (a # is) s = Inr (?s\<lparr>cpus := map (\<lambda>i. if i \<in> set (a # is) then disabled_cpu (cpus s ! i) else cpus s ! i) [0..<length (cpus s)]\<rparr>)"
      using ih nth unfolding m by (auto simp: step)
    then show ?thesis using False by simp
  qed
qed

section \<open>Loaded VMCSs and VPIDs\<close>

lemma vmclear_loop_some: "vmclear_loop cpu e s = Some t \<Longrightarrow> e = None \<and> t = s"
  by (erule vmclear_loop.raw_induct [rotated]) (auto split: option.splits)

lemma vmclear_local: "vmclear_local_loaded_vmcss cpu v = (if on_cpu v cpu = [] then Inr v else Inl Hang)"
proof (cases "on_cpu v cpu")
  case Nil
  then show ?thesis by (simp add: vmclear_local_loaded_vmcss_def vmclear_loop.simps)
next
  case (Cons i r)
  then show ?thesis using vmclear_loop_some [of cpu "Some i" v] by (cases "vmclear_loop cpu (Some i) v") (auto simp: vmclear_local_loaded_vmcss_def)
qed

text \<open>A VPID that is handed out was free, is not the host's, and is marked as used.\<close>

lemma allocate_vpid_fresh:
  assumes "\<And>bits i. find_clear bits = Some i \<Longrightarrow> i < length bits \<and> \<not> bits ! i" "bits \<noteq> []" "bits ! 0"
    and "allocate_vpid find_clear True (Some bits) = Inr (vpid, buf)" "vpid \<noteq> 0"
  shows "vpid < length bits \<and> \<not> bits ! vpid \<and> buf = Some (bits[vpid := True])"
  using assms by (auto simp: allocate_vpid_def split: option.splits if_splits)

lemma allocate_vpid_after_disable: "allocate_vpid find_clear True None = Inl Use_After_Free"
  by (simp add: allocate_vpid_def)

text \<open>When a bitmap cannot be allocated, the VMCS stays allocated and the structure keeps pointing to the bitmaps freed.\<close>

lemma alloc_failure_leaks_vmcs:
  assumes "v \<noteq> 0" "mb \<noteq> 0" "v \<noteq> mb"
  shows "\<exists>t. alloc_loaded_vmcs n True True (v, mb, 0, iob) i s = (STATUS_NO_MEMORY, t) \<and> v \<in> set (pool t) \<and> lv_msr_bitmap (lv t i) = mb"
proof -
  have p: "pool (fold (\<lambda>c. VmcsClearOnSpecificCore c i) cs u) = pool u" for cs u
    by (induction cs arbitrary: u) (simp_all add: VmcsClearOnSpecificCore_def vmcs_clear_def)
  show ?thesis
    using assms by (simp add: alloc_loaded_vmcs_def Let_def p upd_lv_def take_block_def ExFreePool_def)
qed

section \<open>The life cycle\<close>

lemma disable_last:
  assumes "kvm_usage_count s = 1" "hardware_enabled s ! cpu" "on_cpu (vmcss s) cpu = []"
  shows "hardware_disable_all cpu s =
    (if \<exists>i < length (cpus s). vmxon_region (cpus s ! i) = None then Inl UD
     else Inr (s\<lparr>kvm_usage_count := 0, cpus := map disabled_cpu (cpus s), vmx_vpid_bitmap_buf := None,
       hardware_enabled := (hardware_enabled s)[cpu := False]\<rparr>))"
proof -
  let ?s = "s\<lparr>kvm_usage_count := 0\<rparr>"
  have "map (\<lambda>i. if i \<in> set [0..<length (cpus s)] then disabled_cpu (cpus s ! i) else cpus s ! i) [0..<length (cpus s)] = map disabled_cpu (cpus s)"
    by (rule nth_equalityI) simp_all
  then have "cpu_vmxoff ?s = (if \<exists>i < length (cpus s). vmxon_region (cpus s ! i) = None then Inl UD else Inr (?s\<lparr>cpus := map disabled_cpu (cpus s)\<rparr>))"
    using ipi_off [of "[0..<length (cpus s)]" ?s] by (auto simp: cpu_vmxoff_steps cong: if_cong)
  moreover have "?s\<lparr>vmcss := vmcss s\<rparr> = ?s" by simp
  ultimately show ?thesis
    using assms by (simp add: hardware_disable_all_def hardware_disable_nolock_def vmx_hardware_disable_def vmclear_local)
qed

definition machine_off :: "hw_state \<Rightarrow> bool" where
  "machine_off s \<longleftrightarrow> kvm_usage_count s = 0 \<and> hardware_enabled s = replicate (length (cpus s)) False \<and> (\<forall>c \<in> set (cpus s). vmx_free c)"

text \<open>
  C32: creating the first VM puts every CPU into VMX operation, with the control registers VMX
  requires, and destroying it takes every CPU out again; but only the CPU that destroyed the VM
  forgets that it was enabled. The next VM is therefore created with VMX on that CPU alone, and
  destroying that VM executes VMXOFF where VMX is off, an invalid-opcode fault.
\<close>

theorem hardware_life_cycle:
  assumes "fixed_sane (fst cfg)" and "machine_off s" and "cpu < length (cpus s)" and "on_cpu (vmcss s) cpu = []"
  shows "\<exists>s1 s2 s3. hardware_enable_all cfg s = Inr s1 \<and> hardware_disable_all cpu s1 = Inr s2 \<and> hardware_enable_all cfg s2 = Inr s3 \<and>
    (\<forall>i < length (cpus s). vmxon_region (cpus s1 ! i) = Some (snd cfg i) \<and>
       fixed_ok (cr4_fixed0 (fst cfg)) (cr4_fixed1 (fst cfg)) (cr4 (cpus s1 ! i)) \<and>
       vmx_free (cpus s2 ! i) \<and> (hardware_enabled s2 ! i \<longleftrightarrow> i \<noteq> cpu) \<and>
       hardware_enabled s3 ! i \<and> (vmxon_region (cpus s3 ! i) \<noteq> None \<longleftrightarrow> i = cpu)) \<and>
    (1 < length (cpus s) \<longrightarrow> hardware_disable_all cpu s3 = Inl UD)"
proof -
  let ?n = "length (cpus s)" and ?m = "fst cfg"
  have s: "kvm_usage_count s = 0" "length (hardware_enabled s) = ?n" "\<And>i. i < ?n \<Longrightarrow> \<not> hardware_enabled s ! i \<and> vmx_free (cpus s ! i)"
    using assms(2) by (auto simp: machine_off_def)
  obtain s1 where s1: "hardware_enable_all cfg s = Inr s1" "kvm_usage_count s1 = 1" "vmcss s1 = vmcss s"
    "length (cpus s1) = ?n" "length (hardware_enabled s1) = ?n"
    "\<And>i. i < ?n \<Longrightarrow> hardware_enabled s1 ! i \<and> cpus s1 ! i = enabled_cpu ?m (snd cfg i) (cpus s ! i)"
    using ipi_enable [OF assms(1), of "s\<lparr>kvm_usage_count := 1\<rparr>" "[0..<?n]"] s
    by (auto simp: hardware_enable_all_def same_rest_def)
  have v: "vmxon_region (cpus s1 ! i) = Some (snd cfg i)" if "i < ?n" for i using s1(6) [OF that] by (simp add: enabled_cpu_def)
  define s2 where "s2 = s1\<lparr>kvm_usage_count := 0, cpus := map disabled_cpu (cpus s1), vmx_vpid_bitmap_buf := None,
       hardware_enabled := (hardware_enabled s1)[cpu := False]\<rparr>"
  have d2: "hardware_disable_all cpu s1 = Inr s2"
    using disable_last [of s1 cpu] s1 v assms(3,4) by (auto simp: s2_def)
  have h2: "hardware_enabled s2 ! i \<longleftrightarrow> i \<noteq> cpu" "vmx_free (cpus s2 ! i)" if "i < ?n" for i
    using s1 that assms(3) by (auto simp: s2_def nth_list_update vmx_free_disabled)
  have l2: "length (cpus s2) = ?n" "length (hardware_enabled s2) = ?n" "vmcss s2 = vmcss s" "kvm_usage_count s2 = 0"
    using s1 by (simp_all add: s2_def)
  obtain s3 where s3: "hardware_enable_all cfg s2 = Inr s3" "kvm_usage_count s3 = 1" "vmcss s3 = vmcss s" "length (cpus s3) = ?n"
    "\<And>i. i < ?n \<Longrightarrow> hardware_enabled s3 ! i \<and> cpus s3 ! i = (if i = cpu then enabled_cpu ?m (snd cfg i) (cpus s2 ! i) else cpus s2 ! i)"
    using ipi_enable [OF assms(1), of "s2\<lparr>kvm_usage_count := 1\<rparr>" "[0..<?n]"] h2 l2
    by (auto simp: hardware_enable_all_def same_rest_def)
  have v3: "vmxon_region (cpus s3 ! i) \<noteq> None \<longleftrightarrow> i = cpu" if "i < ?n" for i
    using s3(5) [OF that] h2(2) [OF that] by (auto simp: enabled_cpu_def vmx_free_def)
  have "hardware_disable_all cpu s3 = Inl UD" if "1 < ?n"
  proof -
    have "(if cpu = 0 then 1 else 0) < ?n \<and> (if cpu = 0 then 1 else 0) \<noteq> cpu" using that by auto
    then have "\<exists>i < length (cpus s3). vmxon_region (cpus s3 ! i) = None" using v3 s3(4) by metis
    then show ?thesis using disable_last [of s3 cpu] s3 assms(3,4) by auto
  qed
  moreover have "fixed_ok (cr4_fixed0 ?m) (cr4_fixed1 ?m) (cr4 (cpus s1 ! i))" if "i < ?n" for i
    using s1(6) [OF that] assms(1) by (auto simp: enabled_cpu_def fixed_sane_def intro!: fixed_ok_adjusted)
  ultimately show ?thesis using s1(1) d2 s3 v h2 v3 by blast
qed

definition two_cpus :: hw_state where
  "two_cpus = \<lparr>kvm_usage_count = 0, kvm_rebooting = False, hardware_enabled = [False, False],
     cpus = replicate 2 \<lparr>cr0 = 0x80050033, cr4 = 0x506f8, vmxon_region = None\<rparr>,
     vmcss = \<lparr>lv = (\<lambda>_. \<lparr>lv_vmcs = 0, lv_shadow_vmcs = 0, lv_cpu = -1, lv_launched = False, lv_vcpu_id = 0, lv_hv_timer_soft_disabled = False,
       lv_msr_bitmap = 0, lv_io_bitmap_a = 0, lv_io_bitmap_b = 0\<rparr>), on_cpu = (\<lambda>_. []), current_vmcs = (\<lambda>_. 0), hw_vmcs = (\<lambda>_. 0),
       vmcs_data = (\<lambda>_ _. 0), pool = []\<rparr>,
     vmx_vpid_bitmap_buf = Some [True, False]\<rparr>"

definition intel_fixed :: fixed_msrs where
  "intel_fixed = \<lparr>cr0_fixed0 = 0x80000021, cr0_fixed1 = 0xffffffff, cr4_fixed0 = 0x2000, cr4_fixed1 = 0x3767ff\<rparr>"

theorem hardware_life_cycle_witness:
  "fixed_sane intel_fixed \<and> machine_off two_cpus \<and>
   (\<exists>s1 s2 s3. hardware_enable_all (intel_fixed, \<lambda>i. 0x1000 * of_nat i) two_cpus = Inr s1 \<and> hardware_disable_all 0 s1 = Inr s2 \<and>
      hardware_enable_all (intel_fixed, \<lambda>i. 0x1000 * of_nat i) s2 = Inr s3 \<and> vmxon_region (cpus s1 ! 1) = Some 0x1000 \<and>
      vmxon_region (cpus s3 ! 1) = None \<and> hardware_disable_all 0 s3 = Inl UD)"
proof -
  have f: "fixed_sane intel_fixed" by (simp add: fixed_sane_def intel_fixed_def X86_CR4_VMXE_def)
  have o: "machine_off two_cpus" by (simp add: machine_off_def two_cpus_def vmx_free_def X86_CR4_VMXE_def numeral_2_eq_2)
  have l: "length (cpus two_cpus) = 2" "on_cpu (vmcss two_cpus) 0 = []" by (simp_all add: two_cpus_def)
  obtain s1 s2 s3 where r: "hardware_enable_all (intel_fixed, \<lambda>i. 0x1000 * of_nat i) two_cpus = Inr s1" "hardware_disable_all 0 s1 = Inr s2"
    "hardware_enable_all (intel_fixed, \<lambda>i. 0x1000 * of_nat i) s2 = Inr s3" "hardware_disable_all 0 s3 = Inl UD"
    "\<And>i. i < 2 \<Longrightarrow> vmxon_region (cpus s1 ! i) = Some (0x1000 * of_nat i)" "\<And>i. i < 2 \<Longrightarrow> vmxon_region (cpus s3 ! i) \<noteq> None \<longleftrightarrow> i = 0"
    using hardware_life_cycle [of "(intel_fixed, \<lambda>i. 0x1000 * of_nat i)" two_cpus 0] f o l by auto
  show ?thesis using f o r(1-4) r(5) [of 1] r(6) [of 1] by auto
qed

end
