(* ===== verification/Vcpu_Cr.thy ===== *)
theory Vcpu_Cr
  imports X86_Regs Vmx_Segment
begin

text \<open>
  Control registers of the guest: the register cache of \<^verbatim>\<open>src/svmx/kvm_cache_regs.h\<close>, the checks of
  \<^verbatim>\<open>kvm_set_cr0\<close> and \<^verbatim>\<open>kvm_set_cr4\<close> in \<^verbatim>\<open>x86.c\<close>, and their effect on the VMCS, RFLAGS, the exception bitmap
  and the EPT pointer in \<^verbatim>\<open>vmx.c\<close>.

  Of CR0 and CR4 some bits belong to the guest: it changes them in the VMCS without an exit, so the copy
  in the vCPU is only good while the register is marked as available; a VM exit takes the mark away.
\<close>

section \<open>State\<close>

record vcpu_regs =
  vr_vmcs :: "u32 \<Rightarrow> u64"
  vr_cr0 :: u64
  vr_cr3 :: u64
  vr_cr4 :: u64
  vr_efer :: u64
  vr_regs :: "nat \<Rightarrow> u64"
  vr_pdptrs :: "nat \<Rightarrow> u64"
  vr_rflags :: u64
  vr_save_rflags :: u64
  regs_avail :: u32
  regs_dirty :: u32
  cr0_guest_owned_bits :: u64
  cr4_guest_owned_bits :: u64
  cr4_guest_rsvd_bits :: u64
  vr_hflags :: u32
  vr_vm86 :: bool
  exit_qualification :: u64

text \<open>
  What does not change while the guest runs: the module's settings, the shadowed control words, the
  nested state and the structures reached from it.
\<close>

record vmx_params =
  vp_ept :: bool
  vp_unrestricted :: bool
  vp_exec_ctrl :: u32
  vp_secondary_ctrl :: u32
  vp_ad_bits :: bool
  vp_vmware_backdoor :: bool
  vp_smaller_maxphyaddr :: bool
  vp_guest_debug :: u32
  vp_xfd_no_write_intercept :: bool
  vp_identity_map :: u64
  vp_nested_vmxon :: bool
  vp_cr0_fixed :: "u64 \<times> u64"
  vp_cr4_fixed :: "u64 \<times> u64"
  v12_exception_bitmap :: u32
  v12_cr4_guest_host_mask :: u64
  v12_ept_pointer :: u64

definition VCPU_REGS_RSP :: nat where "VCPU_REGS_RSP = 4"
definition VCPU_REGS_RIP :: nat where "VCPU_REGS_RIP = 16"
definition VCPU_EXREG_PDPTR :: nat where "VCPU_EXREG_PDPTR = 17"
definition VCPU_EXREG_CR0 :: nat where "VCPU_EXREG_CR0 = 18"
definition VCPU_EXREG_CR3 :: nat where "VCPU_EXREG_CR3 = 19"
definition VCPU_EXREG_CR4 :: nat where "VCPU_EXREG_CR4 = 20"
definition VCPU_EXREG_RFLAGS :: nat where "VCPU_EXREG_RFLAGS = 21"
definition VCPU_EXREG_SEGMENTS :: nat where "VCPU_EXREG_SEGMENTS = 22"
definition VCPU_EXREG_EXIT_INFO_1 :: nat where "VCPU_EXREG_EXIT_INFO_1 = 23"
definition VCPU_EXREG_EXIT_INFO_2 :: nat where "VCPU_EXREG_EXIT_INFO_2 = 24"

lemmas reg_numbers = VCPU_REGS_RSP_def VCPU_REGS_RIP_def VCPU_EXREG_PDPTR_def VCPU_EXREG_CR0_def VCPU_EXREG_CR3_def VCPU_EXREG_CR4_def
  VCPU_EXREG_RFLAGS_def VCPU_EXREG_SEGMENTS_def VCPU_EXREG_EXIT_INFO_1_def VCPU_EXREG_EXIT_INFO_2_def

definition CR0_GUEST_HOST_MASK :: u32 where "CR0_GUEST_HOST_MASK = 0x6000"
definition CR4_GUEST_HOST_MASK :: u32 where "CR4_GUEST_HOST_MASK = 0x6002"
definition CR0_READ_SHADOW :: u32 where "CR0_READ_SHADOW = 0x6004"
definition CR4_READ_SHADOW :: u32 where "CR4_READ_SHADOW = 0x6006"
definition EXIT_QUALIFICATION :: u32 where "EXIT_QUALIFICATION = 0x6400"
definition GUEST_CR0 :: u32 where "GUEST_CR0 = 0x6800"
definition GUEST_CR3 :: u32 where "GUEST_CR3 = 0x6802"
definition GUEST_CR4 :: u32 where "GUEST_CR4 = 0x6804"
definition GUEST_RSP :: u32 where "GUEST_RSP = 0x681c"
definition GUEST_RIP :: u32 where "GUEST_RIP = 0x681e"
definition GUEST_RFLAGS :: u32 where "GUEST_RFLAGS = 0x6820"
definition GUEST_CS_AR_BYTES :: u32 where "GUEST_CS_AR_BYTES = 0x4816"
definition GUEST_PDPTR0 :: u32 where "GUEST_PDPTR0 = 0x280a"
definition EXCEPTION_BITMAP :: u32 where "EXCEPTION_BITMAP = 0x4004"
definition PAGE_FAULT_ERROR_CODE_MASK :: u32 where "PAGE_FAULT_ERROR_CODE_MASK = 0x4006"
definition PAGE_FAULT_ERROR_CODE_MATCH :: u32 where "PAGE_FAULT_ERROR_CODE_MATCH = 0x4008"
definition EPT_POINTER :: u32 where "EPT_POINTER = 0x201a"

lemmas cr_fields = CR0_GUEST_HOST_MASK_def CR4_GUEST_HOST_MASK_def CR0_READ_SHADOW_def CR4_READ_SHADOW_def GUEST_CR0_def GUEST_CR4_def

definition vr_write :: "u32 \<Rightarrow> u64 \<Rightarrow> vcpu_regs \<Rightarrow> vcpu_regs" where
  "vr_write f x s = s\<lparr>vr_vmcs := (vr_vmcs s)(f := x)\<rparr>"

section \<open>Available and dirty registers\<close>

definition kvm_register_is_available :: "nat \<Rightarrow> vcpu_regs \<Rightarrow> bool" where
  "kvm_register_is_available reg s \<longleftrightarrow> bit (regs_avail s) reg"

definition kvm_register_is_dirty :: "nat \<Rightarrow> vcpu_regs \<Rightarrow> bool" where
  "kvm_register_is_dirty reg s \<longleftrightarrow> bit (regs_dirty s) reg"

definition kvm_register_mark_available :: "nat \<Rightarrow> vcpu_regs \<Rightarrow> vcpu_regs" where
  "kvm_register_mark_available reg s = s\<lparr>regs_avail := set_bit reg (regs_avail s)\<rparr>"

definition kvm_register_mark_dirty :: "nat \<Rightarrow> vcpu_regs \<Rightarrow> vcpu_regs" where
  "kvm_register_mark_dirty reg s = s\<lparr>regs_avail := set_bit reg (regs_avail s), regs_dirty := set_bit reg (regs_dirty s)\<rparr>"

definition kvm_register_test_and_mark_available :: "nat \<Rightarrow> vcpu_regs \<Rightarrow> bool \<times> vcpu_regs" where
  "kvm_register_test_and_mark_available reg s = (bit (regs_avail s) reg, kvm_register_mark_available reg s)"

definition vr_is_guest_mode :: "vcpu_regs \<Rightarrow> bool" where
  "vr_is_guest_mode s \<longleftrightarrow> vr_hflags s AND 1 \<noteq> 0"

definition vr_unrestricted :: "vmx_params \<Rightarrow> vcpu_regs \<Rightarrow> bool" where
  "vr_unrestricted p s = is_unrestricted_guest (vp_unrestricted p) (vr_is_guest_mode s) (vp_secondary_ctrl p)"

text \<open>PG, PAE and PCIDE never belong to the guest, so these reads need not look into the VMCS.\<close>

definition is_long_mode :: "vcpu_regs \<Rightarrow> bool" where "is_long_mode s \<longleftrightarrow> vr_efer s AND EFER_LMA \<noteq> 0"
definition is_paging :: "vcpu_regs \<Rightarrow> bool" where "is_paging s \<longleftrightarrow> vr_cr0 s AND X86_CR0_PG \<noteq> 0"
definition is_pae :: "vcpu_regs \<Rightarrow> bool" where "is_pae s \<longleftrightarrow> vr_cr4 s AND X86_CR4_PAE \<noteq> 0"
definition is_pae_paging :: "vcpu_regs \<Rightarrow> bool" where "is_pae_paging s \<longleftrightarrow> \<not> is_long_mode s \<and> is_pae s \<and> is_paging s"

definition is_64_bit_mode :: "vcpu_regs \<Rightarrow> bool" where
  "is_64_bit_mode s \<longleftrightarrow> is_long_mode s \<and> drop_bit 13 (vr_vmcs s GUEST_CS_AR_BYTES) AND 1 \<noteq> 0"

definition ept_save_pdptrs :: "vcpu_regs \<Rightarrow> vcpu_regs" where
  "ept_save_pdptrs s =
     (if is_pae_paging s
      then kvm_register_mark_available VCPU_EXREG_PDPTR
        (s\<lparr>vr_pdptrs := (\<lambda>i. if i < 4 then vr_vmcs s (GUEST_PDPTR0 + 2 * of_nat i) else vr_pdptrs s i)\<rparr>)
      else s)"

definition vmx_cache_reg :: "vmx_params \<Rightarrow> nat \<Rightarrow> vcpu_regs \<Rightarrow> vcpu_regs" where
  "vmx_cache_reg p reg s = (let s = kvm_register_mark_available reg s in
     if reg = VCPU_REGS_RSP then s\<lparr>vr_regs := (vr_regs s)(VCPU_REGS_RSP := vr_vmcs s GUEST_RSP)\<rparr>
     else if reg = VCPU_REGS_RIP then s\<lparr>vr_regs := (vr_regs s)(VCPU_REGS_RIP := vr_vmcs s GUEST_RIP)\<rparr>
     else if reg = VCPU_EXREG_PDPTR then (if vp_ept p then ept_save_pdptrs s else s)
     else if reg = VCPU_EXREG_CR0 then
       let owned = cr0_guest_owned_bits s in
       s\<lparr>vr_cr0 := (vr_cr0 s AND NOT owned) OR (vr_vmcs s GUEST_CR0 AND owned)\<rparr>
     else if reg = VCPU_EXREG_CR3 then
       (if vp_exec_ctrl p AND 0x8000 = 0 then s\<lparr>vr_cr3 := vr_vmcs s GUEST_CR3\<rparr> else s)
     else if reg = VCPU_EXREG_CR4 then
       let owned = cr4_guest_owned_bits s in
       s\<lparr>vr_cr4 := (vr_cr4 s AND NOT owned) OR (vr_vmcs s GUEST_CR4 AND owned)\<rparr>
     else s)"

definition KVM_POSSIBLE_CR0_GUEST_BITS :: u64 where
  "KVM_POSSIBLE_CR0_GUEST_BITS = X86_CR0_TS OR X86_CR0_WP"

definition KVM_POSSIBLE_CR4_GUEST_BITS :: u64 where
  "KVM_POSSIBLE_CR4_GUEST_BITS = X86_CR4_PVI OR X86_CR4_DE OR X86_CR4_PCE OR X86_CR4_OSFXSR OR X86_CR4_OSXMMEXCPT OR X86_CR4_PGE OR
     X86_CR4_TSD OR X86_CR4_FSGSBASE"

definition kvm_read_cr0_bits :: "vmx_params \<Rightarrow> u64 \<Rightarrow> vcpu_regs \<Rightarrow> u64 \<times> vcpu_regs" where
  "kvm_read_cr0_bits p m s = (let
       tmask = m AND KVM_POSSIBLE_CR0_GUEST_BITS;
       s = (if tmask AND cr0_guest_owned_bits s \<noteq> 0 \<and> \<not> kvm_register_is_available VCPU_EXREG_CR0 s
            then vmx_cache_reg p VCPU_EXREG_CR0 s else s) in
     (vr_cr0 s AND m, s))"

definition kvm_read_cr0 :: "vmx_params \<Rightarrow> vcpu_regs \<Rightarrow> u64 \<times> vcpu_regs" where
  "kvm_read_cr0 p s = kvm_read_cr0_bits p (NOT 0) s"

definition kvm_read_cr4_bits :: "vmx_params \<Rightarrow> u64 \<Rightarrow> vcpu_regs \<Rightarrow> u64 \<times> vcpu_regs" where
  "kvm_read_cr4_bits p m s = (let
       tmask = m AND KVM_POSSIBLE_CR4_GUEST_BITS;
       s = (if tmask AND cr4_guest_owned_bits s \<noteq> 0 \<and> \<not> kvm_register_is_available VCPU_EXREG_CR4 s
            then vmx_cache_reg p VCPU_EXREG_CR4 s else s) in
     (vr_cr4 s AND m, s))"

text \<open>The mask \<^verbatim>\<open>~0UL\<close> has 32 bits.\<close>

definition kvm_read_cr4 :: "vmx_params \<Rightarrow> vcpu_regs \<Rightarrow> u64 \<times> vcpu_regs" where
  "kvm_read_cr4 p s = kvm_read_cr4_bits p (not_ul 0) s"

definition kvm_read_cr3 :: "vmx_params \<Rightarrow> vcpu_regs \<Rightarrow> u64 \<times> vcpu_regs" where
  "kvm_read_cr3 p s = (let s = (if kvm_register_is_available VCPU_EXREG_CR3 s then s else vmx_cache_reg p VCPU_EXREG_CR3 s) in (vr_cr3 s, s))"

section \<open>CR0\<close>

definition KVM_VM_CR0_ALWAYS_OFF :: u64 where "KVM_VM_CR0_ALWAYS_OFF = X86_CR0_NW OR X86_CR0_CD"

definition KVM_VM_CR0_ALWAYS_ON_UNRESTRICTED_GUEST :: u64 where
  "KVM_VM_CR0_ALWAYS_ON_UNRESTRICTED_GUEST = X86_CR0_WP OR X86_CR0_NE OR X86_CR0_TS OR X86_CR0_MP"

definition KVM_VM_CR0_ALWAYS_ON :: u64 where
  "KVM_VM_CR0_ALWAYS_ON = KVM_VM_CR0_ALWAYS_ON_UNRESTRICTED_GUEST OR X86_CR0_PG OR X86_CR0_PE"

definition CR0_RESERVED_BITS :: u64 where
  "CR0_RESERVED_BITS = not_ul (X86_CR0_PE OR X86_CR0_MP OR X86_CR0_EM OR X86_CR0_TS OR X86_CR0_ET OR X86_CR0_NE OR X86_CR0_WP OR
     X86_CR0_AM OR X86_CR0_NW OR X86_CR0_CD OR X86_CR0_PG)"

text \<open>The functions that switch between processor modes are empty in the source.\<close>

definition vmx_set_cr0 :: "vmx_params \<Rightarrow> u64 \<Rightarrow> vcpu_regs \<Rightarrow> vcpu_regs" where
  "vmx_set_cr0 p v s = (let
       (old_cr0_pg, s) = kvm_read_cr0_bits p X86_CR0_PG s;
       hw_cr0 = v AND not_ul KVM_VM_CR0_ALWAYS_OFF;
       hw_cr0 = (if vr_unrestricted p s then hw_cr0 OR KVM_VM_CR0_ALWAYS_ON_UNRESTRICTED_GUEST
                 else let hw_cr0 = hw_cr0 OR KVM_VM_CR0_ALWAYS_ON in if vp_ept p then hw_cr0 else hw_cr0 OR X86_CR0_WP);
       s = vr_write CR0_READ_SHADOW v s;
       s = vr_write GUEST_CR0 hw_cr0 s;
       s = s\<lparr>vr_cr0 := v\<rparr> in
     kvm_register_mark_available VCPU_EXREG_CR0 s)"

definition kvm_set_cr0 :: "vmx_params \<Rightarrow> u64 \<Rightarrow> vcpu_regs \<Rightarrow> int \<times> vcpu_regs" where
  "kvm_set_cr0 p v s = (let v = v OR X86_CR0_ET in
     if v AND 0xffffffff00000000 \<noteq> 0 then (1, s)
     else let v = v AND not_ul CR0_RESERVED_BITS in
       if v AND X86_CR0_NW \<noteq> 0 \<and> v AND X86_CR0_CD = 0 then (1, s)
       else if v AND X86_CR0_PG \<noteq> 0 \<and> v AND X86_CR0_PE = 0 then (1, s)
       else if v AND X86_CR0_PG = 0 \<and> (is_64_bit_mode s \<or> fst (kvm_read_cr4_bits p X86_CR4_PCIDE s) \<noteq> 0) then (1, s)
       else (0, vmx_set_cr0 p v s))"

definition kvm_lmsw :: "vmx_params \<Rightarrow> u64 \<Rightarrow> vcpu_regs \<Rightarrow> vcpu_regs" where
  "kvm_lmsw p msw s = (let (old, s) = kvm_read_cr0_bits p (not_ul 0xe) s in snd (kvm_set_cr0 p (old OR (msw AND 0xf)) s))"

section \<open>CR4\<close>

definition KVM_PMODE_VM_CR4_ALWAYS_ON :: u64 where "KVM_PMODE_VM_CR4_ALWAYS_ON = X86_CR4_PAE OR X86_CR4_VMXE"
definition KVM_RMODE_VM_CR4_ALWAYS_ON :: u64 where "KVM_RMODE_VM_CR4_ALWAYS_ON = X86_CR4_VME OR X86_CR4_PAE OR X86_CR4_VMXE"
definition X86_CR4_TLBFLUSH_BITS :: u64 where "X86_CR4_TLBFLUSH_BITS = X86_CR4_PGE OR X86_CR4_PCIDE OR X86_CR4_PAE OR X86_CR4_SMEP"
definition X86_CR4_PDPTR_BITS :: u64 where "X86_CR4_PDPTR_BITS = X86_CR4_PGE OR X86_CR4_PSE OR X86_CR4_PAE OR X86_CR4_SMEP"

definition CR4_RESERVED_BITS :: u64 where
  "CR4_RESERVED_BITS = NOT (X86_CR4_VME OR X86_CR4_PVI OR X86_CR4_TSD OR X86_CR4_DE OR X86_CR4_PSE OR X86_CR4_PAE OR X86_CR4_MCE OR
     X86_CR4_PGE OR X86_CR4_PCE OR X86_CR4_OSFXSR OR X86_CR4_PCIDE OR X86_CR4_OSXSAVE OR X86_CR4_SMEP OR X86_CR4_FSGSBASE OR
     X86_CR4_OSXMMEXCPT OR X86_CR4_LA57 OR X86_CR4_VMXE OR X86_CR4_SMAP OR X86_CR4_PKE OR X86_CR4_UMIP)"

definition vmx_set_cr4 :: "vmx_params \<Rightarrow> u64 \<Rightarrow> vcpu_regs \<Rightarrow> vcpu_regs" where
  "vmx_set_cr4 p v s = (let
       hw_cr4 = (v AND X86_CR4_MCE) OR (v AND not_ul X86_CR4_MCE);
       hw_cr4 = (if vr_unrestricted p s then hw_cr4 OR X86_CR4_VMXE
                 else if vr_vm86 s then hw_cr4 OR KVM_RMODE_VM_CR4_ALWAYS_ON
                 else hw_cr4 OR KVM_PMODE_VM_CR4_ALWAYS_ON);
       s = s\<lparr>vr_cr4 := v\<rparr>;
       hw_cr4 = (if vr_unrestricted p s then hw_cr4
                 else let
                   hw_cr4 = (if vp_ept p then
                               (if \<not> is_paging s then (hw_cr4 AND not_ul X86_CR4_PAE) OR X86_CR4_PSE
                                else if v AND X86_CR4_PAE = 0 then hw_cr4 AND not_ul X86_CR4_PAE else hw_cr4)
                             else hw_cr4) in
                 if is_paging s then hw_cr4 else hw_cr4 AND not_ul (X86_CR4_SMEP OR X86_CR4_SMAP OR X86_CR4_PKE));
       s = vr_write CR4_READ_SHADOW v s in
     vr_write GUEST_CR4 hw_cr4 s)"

definition fixed_bits_valid :: "u64 \<Rightarrow> u64 \<times> u64 \<Rightarrow> bool" where
  "fixed_bits_valid v fx \<longleftrightarrow> (v AND snd fx) OR fst fx = v"

definition raw_kvm_is_valid_cr4 :: "u64 \<Rightarrow> vcpu_regs \<Rightarrow> bool" where
  "raw_kvm_is_valid_cr4 v s \<longleftrightarrow> v AND CR4_RESERVED_BITS = 0 \<and> v AND cr4_guest_rsvd_bits s = 0"

definition nested_cr4_valid :: "vmx_params \<Rightarrow> u64 \<Rightarrow> vcpu_regs \<Rightarrow> bool" where
  "nested_cr4_valid p v s \<longleftrightarrow> fixed_bits_valid v (vp_cr4_fixed p) \<and> raw_kvm_is_valid_cr4 v s"

text \<open>\<^verbatim>\<open>is_smm\<close> is constantly false.\<close>

definition vmx_is_valid_cr4 :: "vmx_params \<Rightarrow> u64 \<Rightarrow> vcpu_regs \<Rightarrow> bool" where
  "vmx_is_valid_cr4 p v s \<longleftrightarrow> \<not> (vp_nested_vmxon p \<and> \<not> nested_cr4_valid p v s)"

definition kvm_is_valid_cr4 :: "vmx_params \<Rightarrow> u64 \<Rightarrow> vcpu_regs \<Rightarrow> bool" where
  "kvm_is_valid_cr4 p v s \<longleftrightarrow> raw_kvm_is_valid_cr4 v s \<and> vmx_is_valid_cr4 p v s"

definition load_pdptrs :: "u64 \<Rightarrow> vcpu_regs \<Rightarrow> bool" where "load_pdptrs x s = True"

definition kvm_set_cr4 :: "vmx_params \<Rightarrow> u64 \<Rightarrow> vcpu_regs \<Rightarrow> int \<times> vcpu_regs" where
  "kvm_set_cr4 p v s = (let (old_cr4, s) = kvm_read_cr4 p s in
     if \<not> kvm_is_valid_cr4 p v s then (1, s)
     else if is_long_mode s \<and> (v AND X86_CR4_PAE = 0 \<or> (v XOR old_cr4) AND X86_CR4_LA57 \<noteq> 0) then (1, s)
     else let
       reload = (\<not> is_long_mode s \<and> is_paging s \<and> v AND X86_CR4_PAE \<noteq> 0 \<and> (v XOR old_cr4) AND X86_CR4_PDPTR_BITS \<noteq> 0);
       (x, s) = (if reload then kvm_read_cr3 p s else (0, s)) in
     if reload \<and> \<not> load_pdptrs x s then (1, s)
     else let
       pcid = (v AND X86_CR4_PCIDE \<noteq> 0 \<and> old_cr4 AND X86_CR4_PCIDE = 0);
       (x, s) = (if pcid then kvm_read_cr3 p s else (0, s)) in
     if pcid \<and> (x AND X86_CR3_PCID_MASK \<noteq> 0 \<or> \<not> is_long_mode s) then (1, s)
     else (0, vmx_set_cr4 p v s))"

section \<open>Masks\<close>

definition vmx_l1_guest_owned_cr0_bits :: "vmx_params \<Rightarrow> u64" where
  "vmx_l1_guest_owned_cr0_bits p = (let bits = KVM_POSSIBLE_CR0_GUEST_BITS in if vp_ept p then bits else bits AND not_ul X86_CR0_WP)"

definition set_cr4_guest_host_mask :: "vmx_params \<Rightarrow> vcpu_regs \<Rightarrow> vcpu_regs" where
  "set_cr4_guest_host_mask p s = (let
       s = s\<lparr>cr4_guest_rsvd_bits := CR4_RESERVED_BITS\<rparr>;
       owned = KVM_POSSIBLE_CR4_GUEST_BITS AND NOT (cr4_guest_rsvd_bits s);
       owned = (if vp_ept p then owned else (owned AND not_ul X86_CR4_TLBFLUSH_BITS) AND not_ul X86_CR4_PDPTR_BITS);
       owned = (if vr_is_guest_mode s then owned AND NOT (v12_cr4_guest_host_mask p) else owned);
       s = s\<lparr>cr4_guest_owned_bits := owned\<rparr> in
     vr_write CR4_GUEST_HOST_MASK (NOT owned) s)"

text \<open>The lines of \<^verbatim>\<open>init_vmcs\<close> that divide CR0 and CR4 between guest and host.\<close>

definition init_vmcs_cr_masks :: "vmx_params \<Rightarrow> vcpu_regs \<Rightarrow> vcpu_regs" where
  "init_vmcs_cr_masks p s = (let
       s = s\<lparr>cr0_guest_owned_bits := vmx_l1_guest_owned_cr0_bits p\<rparr>;
       s = vr_write CR0_GUEST_HOST_MASK (NOT (cr0_guest_owned_bits s)) s in
     set_cr4_guest_host_mask p s)"

section \<open>RFLAGS, exceptions and the EPT pointer\<close>

definition vmx_get_rflags :: "vcpu_regs \<Rightarrow> u64" where
  "vmx_get_rflags s = (if vr_vm86 s then vr_vmcs s GUEST_RFLAGS AND NOT (X86_EFLAGS_IOPL OR X86_EFLAGS_VM) else vr_vmcs s GUEST_RFLAGS)"

definition vmx_set_rflags :: "vmx_params \<Rightarrow> u64 \<Rightarrow> vcpu_regs \<Rightarrow> vcpu_regs" where
  "vmx_set_rflags p rflags s =
     (if vr_unrestricted p s
      then vr_write GUEST_RFLAGS rflags ((kvm_register_mark_available VCPU_EXREG_RFLAGS s)\<lparr>vr_rflags := rflags\<rparr>)
      else let s = s\<lparr>vr_rflags := rflags\<rparr> in
        if vr_vm86 s
        then vr_write GUEST_RFLAGS (rflags OR (X86_EFLAGS_IOPL OR X86_EFLAGS_VM)) (s\<lparr>vr_save_rflags := rflags\<rparr>)
        else vr_write GUEST_RFLAGS rflags s)"

definition vmx_need_pf_intercept :: "vmx_params \<Rightarrow> bool" where
  "vmx_need_pf_intercept p \<longleftrightarrow> (if vp_ept p then vp_smaller_maxphyaddr p else True)"

definition vmx_update_exception_bitmap :: "vmx_params \<Rightarrow> vcpu_regs \<Rightarrow> vcpu_regs" where
  "vmx_update_exception_bitmap p s = (let
       eb = push_bit 14 1 OR push_bit 6 1 OR push_bit 18 1 OR push_bit 1 1 OR push_bit 17 (1 :: u32);
       eb = (if vp_vmware_backdoor p then eb OR push_bit 13 1 else eb);
       eb = (if vp_guest_debug p AND (0x1 OR 0x10000) = (0x1 OR 0x10000) then eb OR push_bit 3 1 else eb);
       eb = (if vr_vm86 s then NOT 0 else eb);
       eb = (if vmx_need_pf_intercept p then eb else eb AND NOT (push_bit 14 1)) in
     if vr_is_guest_mode s then
       let eb = eb OR v12_exception_bitmap p; eb = (if vp_xfd_no_write_intercept p then eb OR push_bit 7 1 else eb) in
       vr_write EXCEPTION_BITMAP (ucast eb) s
     else let
       care = (vp_ept p \<and> eb AND push_bit 14 1 \<noteq> 0);
       s = vr_write PAGE_FAULT_ERROR_CODE_MASK (if care then 0x9 else 0) s;
       s = vr_write PAGE_FAULT_ERROR_CODE_MATCH (if care then 0x1 else 0) s;
       eb = (if vp_xfd_no_write_intercept p then eb OR push_bit 7 1 else eb) in
       vr_write EXCEPTION_BITMAP (ucast eb) s)"

definition nested_ept_ad_enabled :: "vmx_params \<Rightarrow> bool" where
  "nested_ept_ad_enabled p \<longleftrightarrow> v12_ept_pointer p AND 0x40 \<noteq> 0"

definition construct_eptp :: "vmx_params \<Rightarrow> vcpu_regs \<Rightarrow> u64 \<Rightarrow> nat \<Rightarrow> u64" where
  "construct_eptp p s root_hpa root_level = (let
       eptp = 0x6;
       eptp = eptp OR (if root_level = 5 then 0x20 else 0x18);
       eptp = (if vp_ad_bits p \<and> (\<not> vr_is_guest_mode s \<or> nested_ept_ad_enabled p) then eptp OR 0x40 else eptp) in
     eptp OR root_hpa)"

definition vmx_ept_load_pdptrs :: "vcpu_regs \<Rightarrow> vcpu_regs" where
  "vmx_ept_load_pdptrs s =
     (if \<not> kvm_register_is_dirty VCPU_EXREG_PDPTR s then s
      else if is_pae_paging s
        then fold (\<lambda>i. vr_write (GUEST_PDPTR0 + 2 * of_nat i) (vr_pdptrs s i)) [0..<4] s
      else s)"

definition kvm_get_active_pcid :: "vmx_params \<Rightarrow> vcpu_regs \<Rightarrow> u64 \<times> vcpu_regs" where
  "kvm_get_active_pcid p s = (let (x, s) = kvm_read_cr3 p s in
     (if vr_cr4 s AND X86_CR4_PCIDE \<noteq> 0 then x AND X86_CR3_PCID_MASK else 0, s))"

text \<open>The casts to \<^verbatim>\<open>unsigned long\<close> keep 32 bits.\<close>

definition vmx_load_mmu_pgd :: "vmx_params \<Rightarrow> u64 \<Rightarrow> nat \<Rightarrow> vcpu_regs \<Rightarrow> vcpu_regs" where
  "vmx_load_mmu_pgd p root_hpa root_level s =
     (if vp_ept p then let
        s = vr_write EPT_POINTER (construct_eptp p s root_hpa root_level) s;
        guest_cr3 = (if \<not> vp_unrestricted p \<and> \<not> is_paging s then Some (vp_identity_map p AND 0xffffffff)
                     else if kvm_register_is_dirty VCPU_EXREG_CR3 s then Some (vr_cr3 s) else None);
        s = vmx_ept_load_pdptrs s in
      (case guest_cr3 of Some x \<Rightarrow> vr_write GUEST_CR3 x s | None \<Rightarrow> s)
      else let (pcid, s) = kvm_get_active_pcid p s in
        vr_write GUEST_CR3 ((root_hpa OR pcid) AND 0xffffffff) s)"

section \<open>VM exits\<close>

definition VMX_REGS_LAZY_LOAD_SET :: u32 where
  "VMX_REGS_LAZY_LOAD_SET = push_bit VCPU_REGS_RIP 1 OR push_bit VCPU_REGS_RSP 1 OR push_bit VCPU_EXREG_RFLAGS 1 OR
     push_bit VCPU_EXREG_PDPTR 1 OR push_bit VCPU_EXREG_SEGMENTS 1 OR push_bit VCPU_EXREG_CR0 1 OR push_bit VCPU_EXREG_CR3 1 OR
     push_bit VCPU_EXREG_CR4 1 OR push_bit VCPU_EXREG_EXIT_INFO_1 1 OR push_bit VCPU_EXREG_EXIT_INFO_2 1"

text \<open>What \<^verbatim>\<open>vmx_vcpu_run\<close> does to the register marks around a run of the guest, which leaves the VMCS as \<open>vmcs\<close>.\<close>

definition guest_ran :: "(u32 \<Rightarrow> u64) \<Rightarrow> vcpu_regs \<Rightarrow> vcpu_regs" where
  "guest_ran vmcs s = s\<lparr>vr_vmcs := vmcs, regs_dirty := 0, regs_avail := regs_avail s AND NOT VMX_REGS_LAZY_LOAD_SET\<rparr>"

section \<open>MOV to a control register\<close>

definition vmx_get_exit_qual :: "vcpu_regs \<Rightarrow> u64 \<times> vcpu_regs" where
  "vmx_get_exit_qual s = (let
       (hit, s) = kvm_register_test_and_mark_available VCPU_EXREG_EXIT_INFO_1 s;
       s = (if hit then s else s\<lparr>exit_qualification := vr_vmcs s EXIT_QUALIFICATION\<rparr>) in
     (exit_qualification s, s))"

text \<open>\<^verbatim>\<open>kvm_register_read\<close> is a stub that reads zero from every register.\<close>

definition kvm_register_read :: "nat \<Rightarrow> vcpu_regs \<Rightarrow> u64" where "kvm_register_read reg s = 0"

definition nested_host_cr0_valid :: "vmx_params \<Rightarrow> u64 \<Rightarrow> bool" where
  "nested_host_cr0_valid p v \<longleftrightarrow> fixed_bits_valid v (vp_cr0_fixed p)"

definition handle_set_cr0 :: "vmx_params \<Rightarrow> u64 \<Rightarrow> vcpu_regs \<Rightarrow> int \<times> vcpu_regs" where
  "handle_set_cr0 p v s =
     (if vr_is_guest_mode s then (0, s)
      else if vp_nested_vmxon p \<and> \<not> nested_host_cr0_valid p v then (0, s)
      else kvm_set_cr0 p v s)"

definition handle_cr :: "vmx_params \<Rightarrow> vcpu_regs \<Rightarrow> int \<times> vcpu_regs" where
  "handle_cr p s = (let
       (q, s) = vmx_get_exit_qual s;
       crn = q AND 15;
       reg = unat (drop_bit 8 q AND 15) in
     if drop_bit 4 q AND 3 = 0 \<and> crn = 0 then (0, snd (handle_set_cr0 p (kvm_register_read reg s) s))
     else (0, s))"

end
