(* ===== verification/Vcpu_Cr_Props.thy ===== *)
theory Vcpu_Cr_Props
  imports Vcpu_Cr
begin

text \<open>
  What the guest sees of the control registers it wrote, and that the hypervisor sees the same. The
  guest reads CR0 and CR4 through the masks in the VMCS: a bit that belongs to the host comes from the
  read shadow, one that belongs to the guest from the register itself.
\<close>

definition guest_reads_cr0 :: "vcpu_regs \<Rightarrow> u64" where
  "guest_reads_cr0 s = (vr_vmcs s CR0_READ_SHADOW AND vr_vmcs s CR0_GUEST_HOST_MASK) OR
     (vr_vmcs s GUEST_CR0 AND NOT (vr_vmcs s CR0_GUEST_HOST_MASK))"

definition guest_reads_cr4 :: "vcpu_regs \<Rightarrow> u64" where
  "guest_reads_cr4 s = (vr_vmcs s CR4_READ_SHADOW AND vr_vmcs s CR4_GUEST_HOST_MASK) OR
     (vr_vmcs s GUEST_CR4 AND NOT (vr_vmcs s CR4_GUEST_HOST_MASK))"

section \<open>Words\<close>

definition low32 :: "u64 \<Rightarrow> bool" where
  "low32 w \<longleftrightarrow> w AND not_ul 0 = w"

lemma bit_u64_less: "bit (w :: u64) n \<Longrightarrow> n < 64"
  using bit_imp_le_length by force

lemma low32_iff: "low32 w \<longleftrightarrow> (\<forall>n. bit w n \<longrightarrow> n < 32)"
  unfolding low32_def using bit_u64_less by (fastforce simp: bit_eq_iff bit_and_iff bit_not_ul)

lemma low32_bit: "low32 w \<Longrightarrow> bit w n \<Longrightarrow> n < 32"
  by (simp add: low32_iff)

lemma covered_bit: "m AND w = w \<Longrightarrow> bit w n \<Longrightarrow> bit m n" for m w :: u64
  using bit_u64_less [of w n] by (auto simp: bit_eq_iff bit_and_iff)

lemma merge_bits: "(a AND NOT m) OR (b AND m) = (c :: u64)" if "a AND NOT m = c AND NOT m" "b AND m = c AND m"
  unfolding that by (rule bit_eqI) (auto simp: bit_and_iff bit_or_iff)

lemma or_disjoint: "c AND m = 0 \<Longrightarrow> (w OR c) AND m = (w AND m :: u64)"
  by (simp add: bit.conj_disj_distrib2)

lemma and_disjoint: "c AND m = 0 \<Longrightarrow> low32 m \<Longrightarrow> (w AND not_ul c) AND m = (w AND m :: u64)"
  by (rule bit_eqI) (metis bit_0_eq bit_and_iff bit_not_ul bot_apply bot_bool_def low32_bit)

lemma or_covers: "c AND m = m \<Longrightarrow> (w OR c) AND m = (m :: u64)"
  by (rule bit_eqI) (metis bit_and_iff bit_or_iff)

lemma subset_and: "a AND b = b \<Longrightarrow> x AND a = y AND a \<Longrightarrow> x AND b = (y AND b :: u64)"
  by (metis and.assoc and.commute)

lemma or_covered: "w AND m = m \<Longrightarrow> (w OR c) AND m = (m :: u64)"
  by (rule bit_eqI) (metis bit_and_iff bit_or_iff)

section \<open>CR4\<close>

definition cr4_ok :: "vcpu_regs \<Rightarrow> bool" where
  "cr4_ok s \<longleftrightarrow> vr_vmcs s CR4_GUEST_HOST_MASK = NOT (cr4_guest_owned_bits s) \<and>
     KVM_POSSIBLE_CR4_GUEST_BITS AND cr4_guest_owned_bits s = cr4_guest_owned_bits s \<and> low32 (vr_cr4 s) \<and>
     vr_vmcs s CR4_READ_SHADOW AND NOT (cr4_guest_owned_bits s) = vr_cr4 s AND NOT (cr4_guest_owned_bits s) \<and>
     (kvm_register_is_available VCPU_EXREG_CR4 s \<longrightarrow>
        vr_cr4 s AND cr4_guest_owned_bits s = vr_vmcs s GUEST_CR4 AND cr4_guest_owned_bits s) \<and>
     vr_vmcs s GUEST_CR4 AND X86_CR4_VMXE = X86_CR4_VMXE"

lemma possible_cr4: "KVM_POSSIBLE_CR4_GUEST_BITS = 0x1078e"
  by (simp add: KVM_POSSIBLE_CR4_GUEST_BITS_def x86_bits)

lemma not_ul_0: "not_ul 0 = 0xffffffff"
proof -
  have "not_ul 0 = mask 32" by (rule bit_eqI) (auto simp: bit_not_ul bit_mask_iff)
  then show ?thesis by (simp add: mask_eq_exp_minus_1)
qed

lemma low32_masks: "low32 KVM_POSSIBLE_CR4_GUEST_BITS" "low32 X86_CR4_VMXE"
  by (simp_all add: low32_def possible_cr4 not_ul_0 x86_bits)

lemma owned_low32: "KVM_POSSIBLE_CR4_GUEST_BITS AND owned = owned \<Longrightarrow> low32 owned"
  using low32_masks(1) covered_bit by (auto simp: low32_iff)

lemma low32_merge: "low32 a \<Longrightarrow> low32 m \<Longrightarrow> low32 ((a AND NOT m) OR (b AND m))"
  by (auto simp: low32_iff bit_and_iff bit_or_iff)

lemma cr4_view:
  assumes "cr4_ok s"
  shows "fst (kvm_read_cr4 p s) = guest_reads_cr4 s" and "cr4_ok (snd (kvm_read_cr4 p s))"
proof -
  let ?o = "cr4_guest_owned_bits s" and ?g = "vr_vmcs s GUEST_CR4"
  define c where "c = (vr_cr4 s AND NOT ?o) OR (?g AND ?o)"
  have view: "guest_reads_cr4 s = c" using assms by (simp add: guest_reads_cr4_def cr4_ok_def c_def)
  have lo: "low32 ?o" "low32 (vr_cr4 s)" using assms owned_low32 by (simp_all add: cr4_ok_def)
  have lc: "c AND not_ul 0 = c" using low32_merge [OF lo(2,1), of ?g] by (simp add: low32_def c_def)
  have t: "(not_ul 0 AND KVM_POSSIBLE_CR4_GUEST_BITS) AND ?o = ?o"
    using covered_bit [of KVM_POSSIBLE_CR4_GUEST_BITS ?o] low32_bit [OF lo(1)] assms
    by (intro bit_eqI) (auto simp: cr4_ok_def bit_and_iff bit_not_ul)
  have "fst (kvm_read_cr4 p s) = c \<and> cr4_ok (snd (kvm_read_cr4 p s))"
  proof (cases "?o \<noteq> 0 \<and> \<not> kvm_register_is_available VCPU_EXREG_CR4 s")
    case True
    have r: "kvm_read_cr4 p s = (c, (kvm_register_mark_available VCPU_EXREG_CR4 s)\<lparr>vr_cr4 := c\<rparr>)"
      using True lc unfolding kvm_read_cr4_def kvm_read_cr4_bits_def Let_def t
      by (simp add: vmx_cache_reg_def Let_def reg_numbers kvm_register_mark_available_def c_def)
    have "c AND NOT ?o = vr_cr4 s AND NOT ?o" "c AND ?o = ?g AND ?o"
      unfolding c_def by (rule bit_eqI; auto simp: bit_and_iff bit_or_iff)+
    then show ?thesis
      using assms lc unfolding r by (simp add: cr4_ok_def kvm_register_mark_available_def low32_def)
  next
    case False
    have "c = vr_cr4 s"
      unfolding c_def using False assms by (intro merge_bits) (auto simp: cr4_ok_def)
    then show ?thesis
      using False assms lc unfolding kvm_read_cr4_def kvm_read_cr4_bits_def Let_def t by auto
  qed
  then show "fst (kvm_read_cr4 p s) = guest_reads_cr4 s" "cr4_ok (snd (kvm_read_cr4 p s))" unfolding view by simp_all
qed

text \<open>A register other than CR4 may be read or written without harm.\<close>

definition same_cr4 :: "vcpu_regs \<Rightarrow> vcpu_regs \<Rightarrow> bool" where
  "same_cr4 s t \<longleftrightarrow> (\<forall>f \<in> {CR4_GUEST_HOST_MASK, CR4_READ_SHADOW, GUEST_CR4}. vr_vmcs t f = vr_vmcs s f) \<and> vr_cr4 t = vr_cr4 s \<and>
     cr4_guest_owned_bits t = cr4_guest_owned_bits s \<and>
     kvm_register_is_available VCPU_EXREG_CR4 t = kvm_register_is_available VCPU_EXREG_CR4 s"

lemma cr4_ok_same: "same_cr4 s t \<Longrightarrow> cr4_ok s \<Longrightarrow> cr4_ok t"
  by (simp add: same_cr4_def cr4_ok_def)

lemma same_cr4_read_cr0: "same_cr4 s (snd (kvm_read_cr0_bits p m s))"
  by (simp add: kvm_read_cr0_bits_def same_cr4_def vmx_cache_reg_def reg_numbers kvm_register_mark_available_def
      kvm_register_is_available_def bit_set_bit_iff Let_def)

lemma same_cr4_read_cr3: "same_cr4 s (snd (kvm_read_cr3 p s))"
  by (simp add: kvm_read_cr3_def same_cr4_def vmx_cache_reg_def reg_numbers kvm_register_mark_available_def
      kvm_register_is_available_def bit_set_bit_iff Let_def)

lemma same_cr4_trans: "same_cr4 s t \<Longrightarrow> same_cr4 t u \<Longrightarrow> same_cr4 s u"
  by (simp add: same_cr4_def)

lemma same_cr4_set_cr0: "same_cr4 s (vmx_set_cr0 p v s)"
proof (rule same_cr4_trans [OF same_cr4_read_cr0])
  let ?t = "snd (kvm_read_cr0_bits p X86_CR0_PG s)"
  show "same_cr4 ?t (vmx_set_cr0 p v s)"
    unfolding vmx_set_cr0_def Let_def split_beta
    by (simp add: same_cr4_def vr_write_def cr_fields kvm_register_mark_available_def kvm_register_is_available_def bit_set_bit_iff reg_numbers)
qed

definition hw_cr4 :: "vmx_params \<Rightarrow> u64 \<Rightarrow> vcpu_regs \<Rightarrow> u64" where
  "hw_cr4 p v s = vr_vmcs (vmx_set_cr4 p v s) GUEST_CR4"

lemma hw_cr4_bits:
  assumes m: "m = KVM_POSSIBLE_CR4_GUEST_BITS \<or> m = X86_CR4_VMXE"
  shows "hw_cr4 p v s AND m = (if m = X86_CR4_VMXE then m else v AND m)"
proof -
  have lo: "low32 m" using m low32_masks by auto
  have d: "X86_CR4_PAE AND m = 0" "X86_CR4_PSE AND m = 0" "(X86_CR4_SMEP OR X86_CR4_SMAP OR X86_CR4_PKE) AND m = 0" "X86_CR4_MCE AND m = 0"
    using m by (auto simp: possible_cr4 x86_bits)
  note rules = or_disjoint [OF d(2)] and_disjoint [OF d(1) lo] and_disjoint [OF d(3) lo]
  have v: "((v AND X86_CR4_MCE) OR (v AND not_ul X86_CR4_MCE)) AND m = v AND m"
    using and_disjoint [OF d(4) lo, of v] d(4) by (simp add: bit.conj_disj_distrib2 and.assoc)
  define b where "b \<longleftrightarrow> m = X86_CR4_VMXE"
  have on: "(w OR X86_CR4_VMXE) AND m = (if b then m else w AND m)"
    "(w OR KVM_RMODE_VM_CR4_ALWAYS_ON) AND m = (if b then m else w AND m)"
    "(w OR KVM_PMODE_VM_CR4_ALWAYS_ON) AND m = (if b then m else w AND m)" for w
    using m unfolding b_def
    by (auto simp: possible_cr4 KVM_RMODE_VM_CR4_ALWAYS_ON_def KVM_PMODE_VM_CR4_ALWAYS_ON_def x86_bits intro!: or_disjoint or_covers)
  have "hw_cr4 p v s AND m = (if b then m else v AND m)"
    unfolding hw_cr4_def vmx_set_cr4_def Let_def by (simp add: vr_write_def rules on v)
  then show ?thesis unfolding b_def .
qed

lemma set_cr4_ok:
  assumes "vr_vmcs s CR4_GUEST_HOST_MASK = NOT (cr4_guest_owned_bits s)" "low32 v"
    and owned: "KVM_POSSIBLE_CR4_GUEST_BITS AND cr4_guest_owned_bits s = cr4_guest_owned_bits s"
  shows "cr4_ok (vmx_set_cr4 p v s)"
proof -
  have hw: "hw_cr4 p v s AND cr4_guest_owned_bits s = v AND cr4_guest_owned_bits s" "hw_cr4 p v s AND X86_CR4_VMXE = X86_CR4_VMXE"
    using subset_and [OF owned, of "hw_cr4 p v s" v] hw_cr4_bits [of KVM_POSSIBLE_CR4_GUEST_BITS p v s] hw_cr4_bits [of X86_CR4_VMXE p v s]
    by (simp_all add: possible_cr4 x86_bits)
  have "vmx_set_cr4 p v s = s\<lparr>vr_cr4 := v, vr_vmcs := (vr_vmcs s)(CR4_READ_SHADOW := v, GUEST_CR4 := hw_cr4 p v s)\<rparr>"
    by (simp add: hw_cr4_def vmx_set_cr4_def Let_def vr_write_def)
  then show ?thesis using assms hw by (simp add: cr4_ok_def cr_fields)
qed

lemma valid_cr4_low32: "raw_kvm_is_valid_cr4 v s \<Longrightarrow> low32 v"
proof -
  assume "raw_kvm_is_valid_cr4 v s"
  then have z: "v AND CR4_RESERVED_BITS = 0" by (simp add: raw_kvm_is_valid_cr4_def)
  have "low32 (NOT CR4_RESERVED_BITS)" by (simp add: low32_def CR4_RESERVED_BITS_def not_ul_0 x86_bits)
  then show "low32 v" using z bit_u64_less by (fastforce simp: low32_iff bit_eq_iff [of _ "0 :: u64"] bit_and_iff)
qed

lemma cr4_ok_kvm_set_cr4:
  assumes "cr4_ok s"
  shows "cr4_ok (snd (kvm_set_cr4 p v s))"
proof -
  define old s1 where "old = fst (kvm_read_cr4 p s)" and "s1 = snd (kvm_read_cr4 p s)"
  have 1: "cr4_ok s1" using cr4_view(2) [OF assms] by (simp add: s1_def)
  define r where "r \<longleftrightarrow> \<not> is_long_mode s1 \<and> is_paging s1 \<and> v AND X86_CR4_PAE \<noteq> 0 \<and> (v XOR old) AND X86_CR4_PDPTR_BITS \<noteq> 0"
  define s2 where "s2 = (if r then snd (kvm_read_cr3 p s1) else s1)"
  have 2: "cr4_ok s2" using 1 cr4_ok_same [OF same_cr4_read_cr3 1] by (simp add: s2_def)
  define q where "q \<longleftrightarrow> v AND X86_CR4_PCIDE \<noteq> 0 \<and> old AND X86_CR4_PCIDE = 0"
  define s3 where "s3 = (if q then snd (kvm_read_cr3 p s2) else s2)"
  have 3: "cr4_ok s3" using 2 cr4_ok_same [OF same_cr4_read_cr3 2] by (simp add: s3_def)
  have 4: "cr4_ok (vmx_set_cr4 p v s3)" if "kvm_is_valid_cr4 p v s1"
    using 3 that valid_cr4_low32 [of v s1] by (intro set_cr4_ok) (simp_all add: cr4_ok_def kvm_is_valid_cr4_def)
  have "snd (kvm_set_cr4 p v s) \<in> {s1, s3, vmx_set_cr4 p v s3} \<and> (kvm_is_valid_cr4 p v s1 \<or> snd (kvm_set_cr4 p v s) = s1)"
    unfolding kvm_set_cr4_def Let_def split_beta load_pdptrs_def old_def [symmetric] s1_def [symmetric] r_def [symmetric] q_def [symmetric]
    by (auto simp: s2_def s3_def)
  then show ?thesis using 1 3 4 by auto
qed

section \<open>Runs\<close>

text \<open>While it runs, the guest can change the bits of CR0 and CR4 that belong to it, and anything but the masks and shadows.\<close>

definition guest_keeps :: "vcpu_regs \<Rightarrow> (u32 \<Rightarrow> u64) \<Rightarrow> bool" where
  "guest_keeps s vmcs \<longleftrightarrow>
     (\<forall>f \<in> {CR0_GUEST_HOST_MASK, CR4_GUEST_HOST_MASK, CR0_READ_SHADOW, CR4_READ_SHADOW}. vmcs f = vr_vmcs s f) \<and>
     vmcs GUEST_CR0 AND vr_vmcs s CR0_GUEST_HOST_MASK = vr_vmcs s GUEST_CR0 AND vr_vmcs s CR0_GUEST_HOST_MASK \<and>
     vmcs GUEST_CR4 AND vr_vmcs s CR4_GUEST_HOST_MASK = vr_vmcs s GUEST_CR4 AND vr_vmcs s CR4_GUEST_HOST_MASK"

lemma lazy_bits:
  "reg \<in> {VCPU_EXREG_CR0, VCPU_EXREG_CR4} \<Longrightarrow> \<not> kvm_register_is_available reg (guest_ran vmcs s)"
  by (auto simp: guest_ran_def kvm_register_is_available_def VMX_REGS_LAZY_LOAD_SET_def reg_numbers bit_and_iff bit_or_iff bit_exp_iff
      push_bit_of_1 simp del: power_numeral)

lemma guest_ran_cr4_ok:
  assumes "cr4_ok s" "guest_keeps s vmcs"
  shows "cr4_ok (guest_ran vmcs s)"
proof -
  let ?o = "cr4_guest_owned_bits s"
  have "NOT ?o AND X86_CR4_VMXE = X86_CR4_VMXE"
  proof -
    have "\<not> bit ?o n" if "bit X86_CR4_VMXE n" for n
    proof
      assume "bit ?o n"
      then have "bit (KVM_POSSIBLE_CR4_GUEST_BITS AND X86_CR4_VMXE) n"
        using assms(1) covered_bit [of KVM_POSSIBLE_CR4_GUEST_BITS ?o n] that by (simp add: cr4_ok_def bit_and_iff)
      then show False by (simp add: possible_cr4 x86_bits)
    qed
    then show ?thesis by (intro bit_eqI) (auto simp: bit_and_iff)
  qed
  moreover have "vmcs GUEST_CR4 AND NOT ?o = vr_vmcs s GUEST_CR4 AND NOT ?o" using assms by (simp add: cr4_ok_def guest_keeps_def)
  ultimately have "vmcs GUEST_CR4 AND X86_CR4_VMXE = vr_vmcs s GUEST_CR4 AND X86_CR4_VMXE" by (rule subset_and)
  then show ?thesis
    using assms lazy_bits [of VCPU_EXREG_CR4 vmcs s] by (simp add: cr4_ok_def guest_keeps_def) (simp add: guest_ran_def)
qed

inductive cr_step :: "vmx_params \<Rightarrow> vcpu_regs \<Rightarrow> vcpu_regs \<Rightarrow> bool" for p where
  set_cr0: "kvm_set_cr0 p v s = (r, t) \<Longrightarrow> cr_step p s t"
| set_cr4: "kvm_set_cr4 p v s = (r, t) \<Longrightarrow> cr_step p s t"
| read_cr0: "kvm_read_cr0 p s = (v, t) \<Longrightarrow> cr_step p s t"
| read_cr3: "kvm_read_cr3 p s = (v, t) \<Longrightarrow> cr_step p s t"
| read_cr4: "kvm_read_cr4 p s = (v, t) \<Longrightarrow> cr_step p s t"
| guest_run: "guest_keeps s vmcs \<Longrightarrow> cr_step p s (guest_ran vmcs s)"

lemma same_cr4_kvm_set_cr0: "same_cr4 s (snd (kvm_set_cr0 p v s))"
  unfolding kvm_set_cr0_def Let_def using same_cr4_set_cr0 by (auto simp: same_cr4_def)

lemma cr_step_cr4_ok: "cr_step p s t \<Longrightarrow> cr4_ok s \<Longrightarrow> cr4_ok t"
proof (induction rule: cr_step.induct)
  case (set_cr0 v s r t)
  then show ?case using cr4_ok_same [OF same_cr4_kvm_set_cr0 [of s p v]] by simp
next
  case (set_cr4 v s r t)
  then show ?case using cr4_ok_kvm_set_cr4 [of s p v] by simp
next
  case (read_cr0 s v t)
  then show ?case using cr4_ok_same [OF same_cr4_read_cr0 [of s p "NOT 0"]] by (simp add: kvm_read_cr0_def)
next
  case (read_cr3 s v t)
  then show ?case using cr4_ok_same [OF same_cr4_read_cr3 [of s p]] by simp
next
  case (read_cr4 s v t)
  then show ?case using cr4_view(2) [of s p] by simp
qed (rule guest_ran_cr4_ok)

lemma masks_set_up:
  "vr_vmcs (init_vmcs_cr_masks p s) CR4_GUEST_HOST_MASK = NOT (cr4_guest_owned_bits (init_vmcs_cr_masks p s))"
  "KVM_POSSIBLE_CR4_GUEST_BITS AND cr4_guest_owned_bits (init_vmcs_cr_masks p s) = cr4_guest_owned_bits (init_vmcs_cr_masks p s)"
  by (auto simp: init_vmcs_cr_masks_def set_cr4_guest_host_mask_def Let_def vr_write_def cr_fields bit_eq_iff bit_and_iff)

text \<open>
  C33: from the moment the masks are set up and CR4 is first written, over every sequence of writes
  and reads by the hypervisor and of runs in which the guest changes its own bits, what the hypervisor
  reads from CR4 is what the guest reads, and VMX stays enabled in the register the processor uses.
\<close>

theorem cr4_view_agrees:
  assumes "(cr_step p)\<^sup>*\<^sup>* (vmx_set_cr4 p v (init_vmcs_cr_masks p s0)) s" and "v < 2 ^ 32"
  shows "fst (kvm_read_cr4 p s) = guest_reads_cr4 s \<and> vr_vmcs s GUEST_CR4 AND X86_CR4_VMXE \<noteq> 0"
proof -
  have "low32 v" using bit_above_less [OF assms(2)] by (auto simp: low32_iff not_le [symmetric])
  then have "cr4_ok (vmx_set_cr4 p v (init_vmcs_cr_masks p s0))" using masks_set_up set_cr4_ok by blast
  with assms(1) have "cr4_ok s" by (induction rule: rtranclp_induct) (auto intro: cr_step_cr4_ok)
  then show ?thesis
    using cr4_view(1) by (auto simp: cr4_ok_def X86_CR4_VMXE_def)
qed

definition blank_regs :: vcpu_regs where
  "blank_regs = \<lparr>vr_vmcs = (\<lambda>_. 0), vr_cr0 = 0x80000011, vr_cr3 = 0, vr_cr4 = 0, vr_efer = 0, vr_regs = (\<lambda>_. 0), vr_pdptrs = (\<lambda>_. 0),
     vr_rflags = 0, vr_save_rflags = 0, regs_avail = NOT 0, regs_dirty = 0, cr0_guest_owned_bits = 0, cr4_guest_owned_bits = 0,
     cr4_guest_rsvd_bits = 0, vr_hflags = 0, vr_vm86 = False, exit_qualification = 0\<rparr>"

definition ept_params :: vmx_params where
  "ept_params = \<lparr>vp_ept = True, vp_unrestricted = True, vp_exec_ctrl = 0, vp_secondary_ctrl = 0, vp_ad_bits = True, vp_vmware_backdoor = False,
     vp_smaller_maxphyaddr = False, vp_guest_debug = 0, vp_xfd_no_write_intercept = False, vp_identity_map = 0, vp_nested_vmxon = False,
     vp_cr0_fixed = (0, 0), vp_cr4_fixed = (0, 0), v12_exception_bitmap = 0, v12_cr4_guest_host_mask = 0, v12_ept_pointer = 0\<rparr>"

text \<open>The guest switches global pages on by itself; the hypervisor reads that too.\<close>

theorem cr4_view_agrees_witness:
  "let s = vmx_set_cr4 ept_params 0x20 (init_vmcs_cr_masks ept_params blank_regs); vmcs = (vr_vmcs s)(GUEST_CR4 := 0x20a0) in
   guest_keeps s vmcs \<and> fst (kvm_read_cr4 ept_params (guest_ran vmcs s)) = 0xa0"
proof -
  define s where "s = vmx_set_cr4 ept_params 0x20 (init_vmcs_cr_masks ept_params blank_regs)"
  define vmcs where "vmcs = (vr_vmcs s)(GUEST_CR4 := 0x20a0)"
  have f: "vr_vmcs s CR4_GUEST_HOST_MASK = NOT 0x1078e" "vr_vmcs s GUEST_CR4 = 0x2020" "vr_vmcs s CR4_READ_SHADOW = 0x20"
    by (simp_all add: s_def init_vmcs_cr_masks_def set_cr4_guest_host_mask_def vmx_set_cr4_def Let_def vr_write_def cr_fields possible_cr4
        CR4_RESERVED_BITS_def x86_bits not_ul_def blank_regs_def ept_params_def vr_unrestricted_def is_unrestricted_guest_def vr_is_guest_mode_def)
  have k: "guest_keeps s vmcs" using f by (simp add: guest_keeps_def vmcs_def cr_fields)
  have "fst (kvm_read_cr4 ept_params (guest_ran vmcs s)) = guest_reads_cr4 (guest_ran vmcs s)"
    using cr4_view_agrees [of ept_params "0x20" blank_regs "guest_ran vmcs s"] cr_step.guest_run [OF k] by (auto simp: s_def)
  also have "\<dots> = 0xa0" using f by (simp add: guest_reads_cr4_def guest_ran_def vmcs_def cr_fields)
  finally show ?thesis using k unfolding Let_def s_def [symmetric] vmcs_def [symmetric] by simp
qed

section \<open>CR0\<close>

lemma owned_cr0: "vmx_l1_guest_owned_cr0_bits p = (if vp_ept p then 0x10008 else 0x8)"
  by (simp add: vmx_l1_guest_owned_cr0_bits_def KVM_POSSIBLE_CR0_GUEST_BITS_def x86_bits not_ul_def)

definition cr0_accepted :: "u64 \<Rightarrow> u64" where
  "cr0_accepted v = (v OR X86_CR0_ET) AND not_ul CR0_RESERVED_BITS"

lemma read_pg: "kvm_read_cr0_bits p X86_CR0_PG s = (vr_cr0 s AND X86_CR0_PG, s)"
  by (simp add: kvm_read_cr0_bits_def KVM_POSSIBLE_CR0_GUEST_BITS_def x86_bits)

definition hw_cr0 :: "vmx_params \<Rightarrow> u64 \<Rightarrow> vcpu_regs \<Rightarrow> u64" where
  "hw_cr0 p v s = (let h = v AND not_ul KVM_VM_CR0_ALWAYS_OFF in
     if vr_unrestricted p s then h OR KVM_VM_CR0_ALWAYS_ON_UNRESTRICTED_GUEST
     else let h = h OR KVM_VM_CR0_ALWAYS_ON in if vp_ept p then h else h OR X86_CR0_WP)"

lemma vmx_set_cr0_eq:
  "vmx_set_cr0 p v s = s\<lparr>vr_vmcs := (vr_vmcs s)(CR0_READ_SHADOW := v, GUEST_CR0 := hw_cr0 p v s), vr_cr0 := v,
     regs_avail := set_bit VCPU_EXREG_CR0 (regs_avail s)\<rparr>"
  by (simp add: vmx_set_cr0_def read_pg hw_cr0_def Let_def vr_write_def kvm_register_mark_available_def)

lemma hw_cr0_on: "m AND KVM_VM_CR0_ALWAYS_ON_UNRESTRICTED_GUEST = m \<Longrightarrow> hw_cr0 p v s AND m = m"
  unfolding hw_cr0_def Let_def KVM_VM_CR0_ALWAYS_ON_def
  by (auto simp: bit_eq_iff bit_and_iff bit_or_iff)

lemma hw_cr0_on_restricted: "m AND KVM_VM_CR0_ALWAYS_ON = m \<Longrightarrow> \<not> vr_unrestricted p s \<Longrightarrow> hw_cr0 p v s AND m = m"
  unfolding hw_cr0_def Let_def by (auto simp: bit_eq_iff bit_and_iff bit_or_iff)

lemma hw_cr0_off: "hw_cr0 p v s AND KVM_VM_CR0_ALWAYS_OFF = 0"
proof -
  have c: "(w AND not_ul m) AND m = 0" for w m by (rule bit_eqI) (auto simp: bit_and_iff bit_not_ul)
  have d: "KVM_VM_CR0_ALWAYS_ON_UNRESTRICTED_GUEST AND KVM_VM_CR0_ALWAYS_OFF = 0" "KVM_VM_CR0_ALWAYS_ON AND KVM_VM_CR0_ALWAYS_OFF = 0"
    "X86_CR0_WP AND KVM_VM_CR0_ALWAYS_OFF = 0"
    by (simp_all add: KVM_VM_CR0_ALWAYS_ON_def KVM_VM_CR0_ALWAYS_ON_UNRESTRICTED_GUEST_def KVM_VM_CR0_ALWAYS_OFF_def x86_bits)
  show ?thesis unfolding hw_cr0_def Let_def by (simp add: c or_disjoint [OF d(1)] or_disjoint [OF d(2)] or_disjoint [OF d(3)])
qed

text \<open>
  C34: a value that \<^verbatim>\<open>kvm_set_cr0\<close> accepts is what the hypervisor reads at once, and the register the
  processor uses keeps to the rules of VMX operation; but the bits TS and (with EPT) WP, which belong
  to the guest, are forced on, so the guest reads them as set whatever was written, and after the next
  exit so does the hypervisor.
\<close>

theorem cr0_write_effect:
  assumes "cr0_guest_owned_bits s = vmx_l1_guest_owned_cr0_bits p" and "vr_vmcs s CR0_GUEST_HOST_MASK = NOT (cr0_guest_owned_bits s)"
    and "kvm_set_cr0 p v s = (0, t)"
  shows "fst (kvm_read_cr0 p t) = cr0_accepted v \<and>
    guest_reads_cr0 t = cr0_accepted v OR vmx_l1_guest_owned_cr0_bits p \<and>
    fst (kvm_read_cr0 p (guest_ran (vr_vmcs t) t)) = guest_reads_cr0 t \<and>
    vr_vmcs t GUEST_CR0 AND X86_CR0_NE \<noteq> 0 \<and> vr_vmcs t GUEST_CR0 AND (X86_CR0_NW OR X86_CR0_CD) = 0 \<and>
    (vr_unrestricted p s \<or> vr_vmcs t GUEST_CR0 AND X86_CR0_PE \<noteq> 0 \<and> vr_vmcs t GUEST_CR0 AND X86_CR0_PG \<noteq> 0)"
proof -
  define w where "w = cr0_accepted v"
  let ?o = "cr0_guest_owned_bits s"
  have t: "t = vmx_set_cr0 p w s"
    using assms(3) by (auto simp: kvm_set_cr0_def Let_def w_def cr0_accepted_def split: if_splits)
  have o: "?o AND KVM_VM_CR0_ALWAYS_ON_UNRESTRICTED_GUEST = ?o" "(NOT 0 AND KVM_POSSIBLE_CR0_GUEST_BITS) AND ?o = ?o" "?o \<noteq> 0"
    by (simp_all add: assms(1) owned_cr0 KVM_VM_CR0_ALWAYS_ON_UNRESTRICTED_GUEST_def KVM_POSSIBLE_CR0_GUEST_BITS_def x86_bits)
  have h: "hw_cr0 p w s AND ?o = ?o" by (rule hw_cr0_on [OF o(1)])
  have now: "fst (kvm_read_cr0 p t) = w"
    by (simp add: t vmx_set_cr0_eq kvm_read_cr0_def kvm_read_cr0_bits_def Let_def kvm_register_is_available_def bit_set_bit_iff reg_numbers)
  have view: "guest_reads_cr0 t = (w AND NOT ?o) OR (hw_cr0 p w s AND ?o)"
    using assms(2) by (simp add: guest_reads_cr0_def t vmx_set_cr0_eq cr_fields)
  have later: "fst (kvm_read_cr0 p (guest_ran (vr_vmcs t) t)) = (w AND NOT ?o) OR (hw_cr0 p w s AND ?o)"
    using lazy_bits [of VCPU_EXREG_CR0 "vr_vmcs t" t] o(2,3)
    by (simp add: kvm_read_cr0_def kvm_read_cr0_bits_def Let_def vmx_cache_reg_def kvm_register_mark_available_def reg_numbers)
      (simp add: guest_ran_def t vmx_set_cr0_eq cr_fields)
  have "guest_reads_cr0 t = w OR ?o" unfolding view h by (rule bit_eqI) (auto simp: bit_and_iff bit_or_iff dest: bit_u64_less)
  moreover have "vr_vmcs t GUEST_CR0 = hw_cr0 p w s" by (simp add: t vmx_set_cr0_eq)
  moreover have "hw_cr0 p w s AND X86_CR0_NE = X86_CR0_NE"
    by (rule hw_cr0_on) (simp add: KVM_VM_CR0_ALWAYS_ON_UNRESTRICTED_GUEST_def x86_bits)
  moreover have "hw_cr0 p w s AND X86_CR0_PE = X86_CR0_PE" "hw_cr0 p w s AND X86_CR0_PG = X86_CR0_PG" if "\<not> vr_unrestricted p s"
    by (rule hw_cr0_on_restricted [OF _ that]; simp add: KVM_VM_CR0_ALWAYS_ON_def KVM_VM_CR0_ALWAYS_ON_UNRESTRICTED_GUEST_def x86_bits)+
  ultimately show ?thesis
    using now view later hw_cr0_off [of p w s] assms(1)
    by (auto simp: w_def KVM_VM_CR0_ALWAYS_OFF_def X86_CR0_NE_def X86_CR0_PE_def X86_CR0_PG_def)
qed

text \<open>The guest clears TS and still sees it set.\<close>

theorem cr0_write_effect_witness:
  "let s = init_vmcs_cr_masks ept_params blank_regs in
   fst (kvm_set_cr0 ept_params 0x80000031 s) = 0 \<and> guest_reads_cr0 (snd (kvm_set_cr0 ept_params 0x80000031 s)) = 0x80010039"
proof -
  define s where "s = init_vmcs_cr_masks ept_params blank_regs"
  have m: "cr0_guest_owned_bits s = vmx_l1_guest_owned_cr0_bits ept_params" "vr_vmcs s CR0_GUEST_HOST_MASK = NOT (cr0_guest_owned_bits s)"
    by (simp_all add: s_def init_vmcs_cr_masks_def set_cr4_guest_host_mask_def Let_def vr_write_def cr_fields)
  have a: "cr0_accepted 0x80000031 = 0x80000031"
    by (simp add: cr0_accepted_def CR0_RESERVED_BITS_def x86_bits not_ul_def)
  have r: "fst (kvm_set_cr0 ept_params 0x80000031 s) = 0"
    using a by (simp add: kvm_set_cr0_def Let_def cr0_accepted_def x86_bits)
  then have "guest_reads_cr0 (snd (kvm_set_cr0 ept_params 0x80000031 s)) = 0x80000031 OR 0x10008"
    using cr0_write_effect [OF m, of "0x80000031" "snd (kvm_set_cr0 ept_params 0x80000031 s)"] a
    by (simp add: prod_eq_iff owned_cr0 ept_params_def)
  then show ?thesis using r unfolding Let_def s_def [symmetric] by simp
qed

end
