(* ===== verification/Mmu_Load.thy ===== *)
theory Mmu_Load
  imports Tdp_Mmu Vcpu_Cr Vmx_Controls
begin

text \<open>
  The MMU of a vCPU from its creation to the load of its root: the module's settings, \<^verbatim>\<open>kvm_mmu_create\<close>,
  \<^verbatim>\<open>kvm_init_mmu\<close>, \<^verbatim>\<open>kvm_mmu_load\<close> and \<^verbatim>\<open>kvm_mmu_free_roots\<close> of \<^verbatim>\<open>src/svmx/mmu.c\<close>, down to the EPT pointer and the
  invalidation of translations in \<^verbatim>\<open>vmx.c\<close>.

  The processor's cache of translations is not modelled; the invalidations requested are a list, the
  newest first. A page that is freed is unmapped, and freeing NULL has no result.
\<close>

section \<open>Settings\<close>

record mmu_globals =
  g_tdp_enabled :: bool
  g_tdp_root_level :: int
  g_max_tdp_level :: int
  g_max_huge_page_level :: int
  g_tdp_mmu_allowed :: bool
  g_tdp_mmu_enabled :: bool

definition kvm_mmu_x86_module_init :: "mmu_globals \<Rightarrow> mmu_globals" where
  "kvm_mmu_x86_module_init g = g\<lparr>g_tdp_mmu_allowed := g_tdp_mmu_enabled g\<rparr>"

definition kvm_configure_mmu :: "bool \<Rightarrow> int \<Rightarrow> int \<Rightarrow> int \<Rightarrow> mmu_globals \<Rightarrow> mmu_globals" where
  "kvm_configure_mmu enable_tdp tdp_forced_root_level tdp_max_root_level tdp_huge_page_level g = (let
       g = g\<lparr>g_tdp_enabled := enable_tdp, g_tdp_root_level := tdp_forced_root_level, g_max_tdp_level := tdp_max_root_level\<rparr>;
       g = g\<lparr>g_tdp_mmu_enabled := (g_tdp_mmu_allowed g \<and> g_tdp_enabled g)\<rparr> in
     g\<lparr>g_max_huge_page_level := (if g_tdp_enabled g then tdp_huge_page_level else 2)\<rparr>)"

definition kvm_mmu_get_tdp_level :: "mmu_globals \<Rightarrow> int \<Rightarrow> int" where
  "kvm_mmu_get_tdp_level g maxphyaddr =
     (if g_tdp_root_level g \<noteq> 0 then g_tdp_root_level g
      else if g_max_tdp_level g = 5 \<and> maxphyaddr \<le> 48 then 4
      else g_max_tdp_level g)"

section \<open>Roles\<close>

text \<open>The functions that \<^verbatim>\<open>gva_to_gpa\<close> can point to.\<close>

datatype gva_to_gpa = nonpaging_gva_to_gpa | paging64_gva_to_gpa | paging32_gva_to_gpa

text \<open>
  A MMU with its previous roots (address and page directory) and the pointers that are set with its
  role; the extended half of \<^verbatim>\<open>cpu_role\<close> is never written and stays zero.
\<close>

record vcpu_mmu =
  mmu_of :: kvm_mmu
  prev_roots :: "(hpa_t \<times> u64) list"
  tdp_page_fault_set :: bool
  gva_to_gpa_fn :: "gva_to_gpa option"

definition KVM_MMU_CR0_ROLE_BITS :: u64 where
  "KVM_MMU_CR0_ROLE_BITS = X86_CR0_PG OR X86_CR0_WP"

definition KVM_MMU_CR4_ROLE_BITS :: u64 where
  "KVM_MMU_CR4_ROLE_BITS = X86_CR4_PSE OR X86_CR4_PAE OR X86_CR4_LA57 OR X86_CR4_SMEP OR X86_CR4_SMAP OR X86_CR4_PKE"

definition vcpu_to_role_regs :: "vmx_params \<Rightarrow> vcpu_regs \<Rightarrow> (u64 \<times> u64 \<times> u64) \<times> vcpu_regs" where
  "vcpu_to_role_regs p r = (let
       (cr0, r) = kvm_read_cr0_bits p KVM_MMU_CR0_ROLE_BITS r;
       (cr4, r) = kvm_read_cr4_bits p KVM_MMU_CR4_ROLE_BITS r in
     ((cr0, cr4, vr_efer r), r))"

definition kvm_calc_cpu_role :: "u64 \<times> u64 \<times> u64 \<Rightarrow> kvm_mmu_page_role" where
  "kvm_calc_cpu_role regs = zero_role\<lparr>role_access := unat ACC_ALL, role_smm := 0\<rparr>"

definition kvm_calc_tdp_mmu_root_page_role :: "shadow_masks \<Rightarrow> mmu_globals \<Rightarrow> int \<Rightarrow> kvm_mmu_page_role \<Rightarrow> kvm_mmu_page_role" where
  "kvm_calc_tdp_mmu_root_page_role m g maxphyaddr cpu_role =
     zero_role\<lparr>role_access := unat ACC_ALL, cr0_wp := True, efer_nx := True, role_smm := role_smm cpu_role,
       guest_mode := guest_mode cpu_role, ad_disabled := \<not> kvm_ad_enabled m,
       role_level := nat (kvm_mmu_get_tdp_level g maxphyaddr mod 16), role_direct := True, has_4_byte_gpte := False\<rparr>"

definition is_cr0_pg :: "kvm_mmu \<Rightarrow> bool" where "is_cr0_pg mmu \<longleftrightarrow> role_level (cpu_role_base mmu) > 0"
definition is_cr4_pae :: "kvm_mmu \<Rightarrow> bool" where "is_cr4_pae mmu \<longleftrightarrow> \<not> has_4_byte_gpte (cpu_role_base mmu)"

definition init_kvm_tdp_mmu :: "shadow_masks \<Rightarrow> mmu_globals \<Rightarrow> int \<Rightarrow> kvm_mmu_page_role \<Rightarrow> vcpu_mmu \<Rightarrow> vcpu_mmu" where
  "init_kvm_tdp_mmu m g maxphyaddr cpu_role ctx = (let
       role = kvm_calc_tdp_mmu_root_page_role m g maxphyaddr cpu_role;
       mmu = mmu_of ctx in
     if role_word cpu_role = role_word (cpu_role_base mmu) \<and> role_word role = role_word (root_role mmu) then ctx
     else let mmu = mmu\<lparr>cpu_role_base := cpu_role, root_role := role\<rparr> in
       ctx\<lparr>mmu_of := mmu, tdp_page_fault_set := True,
         gva_to_gpa_fn := Some (if \<not> is_cr0_pg mmu then nonpaging_gva_to_gpa
                                else if is_cr4_pae mmu then paging64_gva_to_gpa else paging32_gva_to_gpa)\<rparr>)"

text \<open>The initialisation of a nested MMU and of a shadowing MMU is empty in the source.\<close>

definition kvm_init_mmu :: "shadow_masks \<Rightarrow> mmu_globals \<Rightarrow> vmx_params \<Rightarrow> int \<Rightarrow> bool \<Rightarrow> vcpu_mmu \<Rightarrow> vcpu_regs \<Rightarrow> vcpu_mmu \<times> vcpu_regs" where
  "kvm_init_mmu m g p maxphyaddr nested ctx r = (let
       (regs, r) = vcpu_to_role_regs p r;
       cpu_role = kvm_calc_cpu_role regs in
     if nested then (ctx, r)
     else if g_tdp_enabled g then (init_kvm_tdp_mmu m g maxphyaddr cpu_role ctx, r)
     else (ctx, r))"

section \<open>Creation\<close>

definition alloc_page :: "mmu_env \<Rightarrow> mmu_state \<Rightarrow> u64 \<times> mmu_state" where
  "alloc_page e s = mmu_memory_cache_alloc_obj e s"

definition free_page :: "u64 \<Rightarrow> mmu_state \<Rightarrow> mmu_state option" where
  "free_page q s = (if q = 0 then None else Some (s\<lparr>pt_heap := (\<lambda>a. if a - q < PAGE_SIZE then None else pt_heap s a)\<rparr>))"

definition raw_kvm_mmu_create :: "mmu_env \<Rightarrow> mmu_globals \<Rightarrow> int \<Rightarrow> bool \<Rightarrow> vcpu_mmu \<Rightarrow> mmu_state \<Rightarrow> int \<times> vcpu_mmu \<times> mmu_state" where
  "raw_kvm_mmu_create e g maxphyaddr is_guest_mmu ctx s = (let
       ctx = ctx\<lparr>mmu_of := (mmu_of ctx)\<lparr>root_hpa := INVALID_PAGE, root_pgd := 0\<rparr>,
         prev_roots := replicate 3 (INVALID_PAGE, INVALID_PAGE)\<rparr> in
     if \<not> g_tdp_enabled g \<and> is_guest_mmu then (0, ctx, s)
     else if g_tdp_enabled g \<and> 3 < kvm_mmu_get_tdp_level g maxphyaddr then (0, ctx, s)
     else let (page, s) = alloc_page e s in
       if page = 0 then (STATUS_NO_MEMORY, ctx, s)
       else (STATUS_SUCCESS, ctx\<lparr>mmu_of := (mmu_of ctx)\<lparr>pae_root := page\<rparr>\<rparr>,
         s\<lparr>pt_heap := (pt_heap s)(page \<mapsto> 0, page + 8 \<mapsto> 0, page + 16 \<mapsto> 0, page + 24 \<mapsto> 0)\<rparr>))"

definition free_mmu_pages :: "vcpu_mmu \<Rightarrow> mmu_state \<Rightarrow> mmu_state option" where
  "free_mmu_pages ctx s = do {
     s \<leftarrow> free_page (pae_root (mmu_of ctx)) s;
     s \<leftarrow> free_page (pml4_root (mmu_of ctx)) s;
     free_page (pml5_root (mmu_of ctx)) s
   }"

text \<open>The table of buckets is not cleared by the allocation.\<close>

definition kvm_mmu_create ::
  "mmu_env \<Rightarrow> mmu_globals \<Rightarrow> int \<Rightarrow> vcpu_mmu \<Rightarrow> vcpu_mmu \<Rightarrow> mmu_state \<Rightarrow> (int \<times> vcpu_mmu \<times> vcpu_mmu \<times> mmu_state) option" where
  "kvm_mmu_create e g maxphyaddr guest_mmu root_mmu s = (let
       pBuckets = mmu_pool e (pool_reqs s);
       s = s\<lparr>pool_reqs := Suc (pool_reqs s)\<rparr> in
     if pBuckets = 0 then Some (STATUS_INSUFFICIENT_RESOURCES, guest_mmu, root_mmu, s)
     else do {
       let mem = (\<lambda>a. if a - pBuckets < PAGE_SIZE \<and> (a - pBuckets) AND 7 = 0 then Some (junk_word e) else pt_heap s a);
       (mem, table) \<leftarrow> mmu_create_table mem (g_Table_addr e) (g_Table s) pBuckets;
       let s = s\<lparr>pt_heap := mem, g_Table := table\<rparr>;
       let (ret, guest_mmu, s) = raw_kvm_mmu_create e g maxphyaddr True guest_mmu s;
       if ret \<noteq> 0 then Some (ret, guest_mmu, root_mmu, s)
       else do {
         let (ret, root_mmu, s) = raw_kvm_mmu_create e g maxphyaddr False root_mmu s;
         if ret = 0 then Some (ret, guest_mmu, root_mmu, s)
         else do {
           s \<leftarrow> free_mmu_pages guest_mmu s;
           Some (ret, guest_mmu, root_mmu, s)
         }
       }
     })"

text \<open>\<^verbatim>\<open>kvm_mmu_unload\<close> is empty.\<close>

definition kvm_mmu_destroy :: "mmu_state \<Rightarrow> mmu_state option" where
  "kvm_mmu_destroy s = (let q = HashTableCleanup (g_Table s) in if q \<noteq> 0 then free_page q s else Some s)"

section \<open>Loading the root\<close>

definition mmu_alloc_special_roots :: "mmu_env \<Rightarrow> mmu_globals \<Rightarrow> kvm_mmu \<Rightarrow> mmu_state \<Rightarrow> (int \<times> kvm_mmu \<times> mmu_state) option" where
  "mmu_alloc_special_roots e g mmu s = (let need_pml5 = (4 < role_level (root_role mmu)) in
     if role_direct (root_role mmu) \<or> 4 \<le> role_level (cpu_role_base mmu) \<or> role_level (root_role mmu) < 4 then Some (0, mmu, s)
     else if pae_root mmu \<noteq> 0 \<and> pml4_root mmu \<noteq> 0 \<and> (\<not> need_pml5 \<or> pml5_root mmu \<noteq> 0) then Some (0, mmu, s)
     else if \<not> g_tdp_enabled g \<or> pae_root mmu \<noteq> 0 \<or> pml4_root mmu \<noteq> 0 \<or> need_pml5 \<and> pml5_root mmu \<noteq> 0
       then Some (STATUS_IO_DEVICE_ERROR, mmu, s)
     else let (pae, s) = alloc_page e s in
       if pae = 0 then Some (STATUS_NO_MEMORY, mmu, s)
       else let (pml4, s) = alloc_page e s in
         if pml4 = 0 then do { s \<leftarrow> free_page pae s; Some (STATUS_NO_MEMORY, mmu, s) }
         else let (pml5, s) = (if need_pml5 then alloc_page e s else (0, s)) in
           if need_pml5 \<and> pml5 = 0 then do { s \<leftarrow> free_page pml4 s; s \<leftarrow> free_page pae s; Some (STATUS_NO_MEMORY, mmu, s) }
           else Some (STATUS_SUCCESS, mmu\<lparr>pae_root := pae, pml4_root := pml4, pml5_root := pml5\<rparr>, s))"

definition kvm_mmu_available_pages :: "mmu_pages \<Rightarrow> u64" where
  "kvm_mmu_available_pages mp = (if n_used_mmu_pages mp < n_max_mmu_pages mp then n_max_mmu_pages mp - n_used_mmu_pages mp else 0)"

definition make_mmu_pages_available :: "kvm_env \<Rightarrow> kvm \<Rightarrow> (int \<times> kvm) option" where
  "make_mmu_pages_available ke k = (let avail = kvm_mmu_available_pages (mmu_pages_of k) in
     if 5 \<le> avail then Some (0, k)
     else do {
       mp \<leftarrow> zap_oldest_mmu_pages ke (mmu_pages_of k) (25 - avail);
       let k = k\<lparr>mmu_pages_of := mp\<rparr>;
       Some (if kvm_mmu_available_pages mp = 0 then STATUS_NO_MEMORY else 0, k)
     })"

record load_state =
  ld_kvm :: kvm
  ld_mmu :: kvm_mmu
  ld_pages :: mmu_state
  ld_regs :: vcpu_regs
  ld_invept :: "u64 option list"

text \<open>Without the TDP MMU the branches on the level are empty in the source.\<close>

definition mmu_alloc_direct_roots :: "mmu_env \<Rightarrow> mmu_globals \<Rightarrow> kvm_env \<Rightarrow> load_state \<Rightarrow> (int \<times> load_state) option" where
  "mmu_alloc_direct_roots e g ke s = do {
     (r, k) \<leftarrow> make_mmu_pages_available ke (ld_kvm s);
     let s = s\<lparr>ld_kvm := k\<rparr>;
     if r < 0 then Some (r, s)
     else do {
       s \<leftarrow> (if g_tdp_mmu_enabled g then do {
               (root, pages) \<leftarrow> kvm_tdp_mmu_get_vcpu_root_hpa e (ld_pages s) (ld_mmu s);
               Some (s\<lparr>ld_pages := pages, ld_mmu := (ld_mmu s)\<lparr>root_hpa := root\<rparr>\<rparr>)
             }
             else Some s);
       Some (r, s\<lparr>ld_mmu := (ld_mmu s)\<lparr>root_pgd := 0\<rparr>\<rparr>)
     }
   }"

definition mmu_alloc_shadow_roots :: "load_state \<Rightarrow> int \<times> load_state" where
  "mmu_alloc_shadow_roots s = (0, s)"

definition kvm_mmu_load_pgd :: "vmx_params \<Rightarrow> load_state \<Rightarrow> load_state" where
  "kvm_mmu_load_pgd p s =
     (if root_hpa (ld_mmu s) = INVALID_PAGE then s
      else s\<lparr>ld_regs := vmx_load_mmu_pgd p (root_hpa (ld_mmu s)) (role_level (root_role (ld_mmu s))) (ld_regs s)\<rparr>)"

definition cpu_has_vmx_invept_context :: "vmx_capability \<Rightarrow> bool" where
  "cpu_has_vmx_invept_context cap \<longleftrightarrow> cap_ept cap AND push_bit 25 1 \<noteq> 0"

text \<open>An invalidation of one context carries its EPT pointer; a global one does not.\<close>

definition ept_sync_global :: "load_state \<Rightarrow> load_state" where
  "ept_sync_global s = s\<lparr>ld_invept := None # ld_invept s\<rparr>"

definition ept_sync_context :: "vmx_capability \<Rightarrow> u64 \<Rightarrow> load_state \<Rightarrow> load_state" where
  "ept_sync_context cap eptp s =
     (if cpu_has_vmx_invept_context cap then s\<lparr>ld_invept := Some eptp # ld_invept s\<rparr> else ept_sync_global s)"

definition vmx_flush_tlb_current :: "vmx_capability \<Rightarrow> vmx_params \<Rightarrow> load_state \<Rightarrow> load_state" where
  "vmx_flush_tlb_current cap p s =
     (if root_hpa (ld_mmu s) = INVALID_PAGE then s
      else if vp_ept p
        then ept_sync_context cap (construct_eptp p (ld_regs s) (root_hpa (ld_mmu s)) (role_level (root_role (ld_mmu s)))) s
      else s)"

definition kvm_mmu_load :: "mmu_env \<Rightarrow> mmu_globals \<Rightarrow> kvm_env \<Rightarrow> vmx_capability \<Rightarrow> vmx_params \<Rightarrow> load_state \<Rightarrow> (int \<times> load_state) option" where
  "kvm_mmu_load e g ke cap p s = do {
     (r, pages) \<leftarrow> mmu_topup_memory_caches e (ld_pages s) (\<not> role_direct (root_role (ld_mmu s)));
     let s = s\<lparr>ld_pages := pages\<rparr>;
     if r \<noteq> 0 then Some (r, s)
     else do {
       (r, mmu, pages) \<leftarrow> mmu_alloc_special_roots e g (ld_mmu s) (ld_pages s);
       let s = s\<lparr>ld_mmu := mmu, ld_pages := pages\<rparr>;
       if r \<noteq> 0 then Some (r, s)
       else do {
         (r, s) \<leftarrow> (if role_direct (root_role (ld_mmu s)) then mmu_alloc_direct_roots e g ke s else Some (mmu_alloc_shadow_roots s));
         if r \<noteq> 0 then Some (r, s)
         else Some (r, vmx_flush_tlb_current cap p (kvm_mmu_load_pgd p s))
       }
     }
   }"

definition kvm_mmu_reload :: "mmu_env \<Rightarrow> mmu_globals \<Rightarrow> kvm_env \<Rightarrow> vmx_capability \<Rightarrow> vmx_params \<Rightarrow> load_state \<Rightarrow> (int \<times> load_state) option" where
  "kvm_mmu_reload e g ke cap p s = kvm_mmu_load e g ke cap p s"

section \<open>Freeing roots\<close>

definition mmu_free_root_page :: "mmu_env \<Rightarrow> hpa_t \<Rightarrow> hpa_t" where
  "mmu_free_root_page e hpa =
     (if hpa = INVALID_PAGE then hpa else if spte_to_child_sp e hpa = 0 then hpa else INVALID_PAGE)"

definition kvm_mmu_free_roots :: "mmu_env \<Rightarrow> u32 \<Rightarrow> vcpu_mmu \<Rightarrow> vcpu_mmu" where
  "kvm_mmu_free_roots e roots_to_free ctx = (let
       free_active_root = (roots_to_free AND 1 \<noteq> 0 \<and> root_hpa (mmu_of ctx) \<noteq> INVALID_PAGE);
       any_prev = (\<exists>i<3. bit roots_to_free (Suc i) \<and> fst (prev_roots ctx ! i) \<noteq> INVALID_PAGE) in
     if \<not> free_active_root \<and> \<not> any_prev then ctx
     else ctx\<lparr>prev_roots := map (\<lambda>i. let (hpa, pgd) = prev_roots ctx ! i in
            if bit roots_to_free (Suc i) then (mmu_free_root_page e hpa, pgd) else (hpa, pgd)) [0..<3]\<rparr>)"

end
