(* ===== verification/Mmu_Load_Props.thy ===== *)
theory Mmu_Load_Props
  imports Mmu_Load Tdp_Roots Vcpu_Cr_Props Memslots_Props
begin

text \<open>
  What loading the MMU does: it always returns, the EPT pointer designates the root it took, and each
  load takes one more reference, although a vCPU loads before every entry and never gives one back.
\<close>

section \<open>The caches\<close>

lemma topup_frame:
  assumes "cache_wf mc" "mn \<le> 40" "kvm_mmu_topup_memory_cache e s mc mn = Some (r, t, mc')"
  shows "cache_wf mc'" "same_but_pool s t"
  using topup_ok [OF assms(1), of mn e s] assms(2,3) by (auto simp: KVM_ARCH_NR_OBJS_PER_MEMORY_CACHE_def)

lemma same_but_pool_roots: "same_but_pool s t \<Longrightarrow> tdp_mmu_roots t = tdp_mmu_roots s"
  unfolding same_but_pool_def by (drule arg_cong [of _ _ tdp_mmu_roots]) simp

lemma topup_caches_frame:
  assumes "caches_wf s" "mmu_topup_memory_caches e s False = Some (r, t)"
  shows "sp_heap t = sp_heap s" and "tdp_mmu_roots t = tdp_mmu_roots s"
proof -
  have f: "sp_heap t' = sp_heap s' \<and> tdp_mmu_roots t' = tdp_mmu_roots s' \<and> mmu_shadow_page_cache t' = mmu_shadow_page_cache s' \<and>
      mmu_page_header_cache t' = mmu_page_header_cache s'"
    if "cache_wf mc" "mn \<le> 40" "kvm_mmu_topup_memory_cache e s' mc mn = Some (r', t', mc')" for mc mn s' r' t' mc'
    using same_but_poolD [OF topup_frame(2) [OF that]] same_but_pool_roots [OF topup_frame(2) [OF that]] by simp
  have k: "1 + PT64_ROOT_MAX_LEVEL + PTE_PREFETCH_NUM \<le> 40" "PT64_ROOT_MAX_LEVEL \<le> 40"
    by (simp_all add: PT64_ROOT_MAX_LEVEL_def PTE_PREFETCH_NUM_def)
  obtain r1 t1 m1 where 1: "kvm_mmu_topup_memory_cache e s (mmu_pte_list_desc_cache s) (1 + PT64_ROOT_MAX_LEVEL + PTE_PREFETCH_NUM) = Some (r1, t1, m1)"
    using assms(2) by (auto simp: mmu_topup_memory_caches_def bind_eq_Some_conv)
  have w: "cache_wf (mmu_pte_list_desc_cache s)" "cache_wf (mmu_shadow_page_cache s)" "cache_wf (mmu_page_header_cache s)"
    using assms(1) by (simp_all add: caches_wf_def)
  note f1 = f [OF w(1) k(1) 1]
  have "sp_heap t = sp_heap s \<and> tdp_mmu_roots t = tdp_mmu_roots s"
  proof (cases "r1 = 0")
    case False
    then show ?thesis using assms(2) 1 f1 by (auto simp: mmu_topup_memory_caches_def)
  next
    case True
    let ?s = "t1\<lparr>mmu_pte_list_desc_cache := m1\<rparr>"
    obtain r2 t2 m2 where 2: "kvm_mmu_topup_memory_cache e ?s (mmu_shadow_page_cache t1) PT64_ROOT_MAX_LEVEL = Some (r2, t2, m2)"
      using assms(2) 1 True by (auto simp: mmu_topup_memory_caches_def bind_eq_Some_conv)
    have f2: "sp_heap t2 = sp_heap s \<and> tdp_mmu_roots t2 = tdp_mmu_roots s \<and> mmu_page_header_cache t2 = mmu_page_header_cache s"
      using f [OF _ k(2) 2] f1 w(2) by simp
    show ?thesis
    proof (cases "r2 = 0")
      case False
      then show ?thesis using assms(2) 1 2 True f2 by (auto simp: mmu_topup_memory_caches_def)
    next
      case r2: True
      obtain t3 m3 where 3: "kvm_mmu_topup_memory_cache e (t2\<lparr>mmu_shadow_page_cache := m2\<rparr>) (mmu_page_header_cache t2) PT64_ROOT_MAX_LEVEL = Some (r, t3, m3)"
          "t = t3\<lparr>mmu_page_header_cache := m3\<rparr>"
        using assms(2) 1 2 True r2 by (auto simp: mmu_topup_memory_caches_def bind_eq_Some_conv)
      then show ?thesis using f [OF _ k(2) 3(1)] f2 w(3) by simp
    qed
  qed
  then show "sp_heap t = sp_heap s" "tdp_mmu_roots t = tdp_mmu_roots s" by simp_all
qed

lemma topup_enough: "caches_full s False \<Longrightarrow> mmu_topup_memory_caches e s False = Some (0, s)"
  by (simp add: caches_full_def mmu_topup_memory_caches_def kvm_mmu_topup_memory_cache_def raw_kvm_mmu_topup_memory_cache_def
      PT64_ROOT_MAX_LEVEL_def PTE_PREFETCH_NUM_def STATUS_SUCCESS_def)

section \<open>Taking a root\<close>

definition roots_live :: "mmu_state \<Rightarrow> bool" where
  "roots_live s \<longleftrightarrow> (\<forall>r\<in>set (tdp_mmu_roots s). r \<noteq> 0 \<and> sp_heap s r \<noteq> None \<and> count_at s r \<noteq> 0)"

lemma alloc_sp_works:
  assumes "caches_wf s" "caches_full s i"
  shows "\<exists>sp t. tdp_mmu_alloc_sp e s = Some (sp, t) \<and> caches_wf t"
proof -
  have h: "cache_wf (mmu_page_header_cache s)" "0 < mc_nobjs (mmu_page_header_cache s)" "cache_wf (mmu_shadow_page_cache s)"
    "0 < mc_nobjs (mmu_shadow_page_cache s)"
    using assms by (auto simp: caches_wf_def caches_full_def)
  obtain p mc where a: "kvm_mmu_memory_cache_alloc e s (mmu_page_header_cache s) = Some (p, s, mc)" "p \<noteq> 0" "cache_wf mc"
    using cache_alloc_ok [OF h(1,2), of e s] by blast
  let ?s = "s\<lparr>mmu_page_header_cache := mc, sp_heap := (sp_heap s)(p \<mapsto> zero_sp)\<rparr>"
  obtain q mc' where b: "kvm_mmu_memory_cache_alloc e ?s (mmu_shadow_page_cache s) = Some (q, ?s, mc')" "cache_wf mc'"
    using cache_alloc_ok [OF h(3,4), of e ?s] by blast
  show ?thesis
    using a b assms(1) by (auto simp: tdp_mmu_alloc_sp_def alloc_header_def alloc_spt_def sp_update_def sp_load_def caches_wf_def)
qed

definition took_root :: "mmu_state \<Rightarrow> kvm_mmu_page_role \<Rightarrow> u64 \<Rightarrow> mmu_state \<Rightarrow> bool" where
  "took_root s role root t \<longleftrightarrow> root \<noteq> 0 \<and> sp_heap t root \<noteq> None \<and> root \<in> set (tdp_mmu_roots t) \<and> key_at t root = root_key role \<and>
     (if \<exists>r\<in>set (tdp_mmu_roots s). key_at s r = root_key role
      then root \<in> set (tdp_mmu_roots s) \<and> tdp_mmu_roots t = tdp_mmu_roots s \<and>
        sp_root_count (the (sp_heap t root)) = sp_root_count (the (sp_heap s root)) + 1 \<and> (\<forall>r. r \<noteq> root \<longrightarrow> sp_heap t r = sp_heap s r)
      else tdp_mmu_roots t = root # tdp_mmu_roots s \<and> sp_root_count (the (sp_heap t root)) = 2 \<and> (\<forall>r. r \<noteq> root \<longrightarrow> sp_heap t r = sp_heap s r))"

lemma took_root_cong: "sp_heap s = sp_heap s' \<Longrightarrow> tdp_mmu_roots s = tdp_mmu_roots s' \<Longrightarrow> took_root s = took_root s'"
  unfolding took_root_def key_at_def fun_eq_iff by (simp only: simp_thms)

lemma get_root_works:
  assumes "caches_wf s" "caches_full s i" "roots_live s"
  shows "\<exists>root t. kvm_tdp_mmu_get_vcpu_root_hpa e s mmu = Some (v2p e root, t) \<and> took_root s (root_role mmu) root t \<and> caches_wf t"
proof -
  let ?role = "root_role mmu"
  have f: "find_root s ?role (tdp_mmu_roots s) = (case List.find (\<lambda>r. key_at s r = root_key ?role) (tdp_mmu_roots s) of
      None \<Rightarrow> Some (0, s) | Some r \<Rightarrow> Some (r, bump s r))"
    using assms(3) by (intro find_root_spec) (simp add: roots_live_def)
  show ?thesis
  proof (cases "List.find (\<lambda>r. key_at s r = root_key ?role) (tdp_mmu_roots s)")
    case (Some r)
    then have r: "r \<in> set (tdp_mmu_roots s)" "key_at s r = root_key ?role" by (auto simp: find_Some_iff)
    then obtain x where x: "r \<noteq> 0" "sp_heap s r = Some x" using assms(3) by (auto simp: roots_live_def)
    have "kvm_tdp_mmu_get_vcpu_root_hpa e s mmu = Some (v2p e r, bump s r)"
      using f Some x by (simp add: kvm_tdp_mmu_get_vcpu_root_hpa_def)
    moreover have "key_at (bump s r) r = key_at s r" using x(2) by (simp add: bump_def key_at_def)
    then have "took_root s ?role r (bump s r)"
      unfolding took_root_def if_P [OF bexI [of "\<lambda>r. key_at s r = root_key ?role", OF r(2,1)]] using r x by (simp add: bump_def)
    moreover have "caches_wf (bump s r)" using assms(1) by (simp add: caches_wf_def bump_def)
    ultimately show ?thesis by blast
  next
    case None
    then have no: "\<not> (\<exists>r\<in>set (tdp_mmu_roots s). key_at s r = root_key ?role)" by (auto simp: find_None_iff)
    obtain sp t0 where a: "tdp_mmu_alloc_sp e s = Some (sp, t0)" "caches_wf t0" using alloc_sp_works [OF assms(1,2)] by blast
    obtain x where x: "sp_heap t0 = (sp_heap s)(sp \<mapsto> x)" "sp \<noteq> 0" using alloc_sp_frame [OF a(1)] by blast
    obtain hpa t where run: "kvm_tdp_mmu_get_vcpu_root_hpa e s mmu = Some (hpa, t)" and w: "caches_wf t"
      using f None a x by (auto simp: kvm_tdp_mmu_get_vcpu_root_hpa_def tdp_mmu_init_sp_def sp_update_def sp_load_def caches_wf_def)
    obtain r y where r: "hpa = v2p e r" "r \<noteq> 0" "tdp_mmu_roots t = r # tdp_mmu_roots s" "sp_heap t = (sp_heap s)(r \<mapsto> y)"
        "sp_role y = ?role" "sp_root_count y = 2"
      using new_root_spec [OF run] f None by auto
    then have "took_root s ?role r t" unfolding took_root_def if_not_P [OF no] by (simp add: key_at_def)
    then show ?thesis using run r(1) w by blast
  qed
qed

section \<open>Loading\<close>

lemma load_mmu_pgd_ept: "vp_ept p \<Longrightarrow> vr_vmcs (vmx_load_mmu_pgd p hpa level r) EPT_POINTER = construct_eptp p r hpa level"
  and load_mmu_pgd_hflags: "vp_ept p \<Longrightarrow> vr_hflags (vmx_load_mmu_pgd p hpa level r) = vr_hflags r"
  by (auto simp: vmx_load_mmu_pgd_def vr_write_def vmx_ept_load_pdptrs_def Let_def EPT_POINTER_def GUEST_CR3_def GUEST_PDPTR0_def upt_rec
      split: option.split)

lemma construct_eptp_hflags: "vr_hflags r = vr_hflags r' \<Longrightarrow> construct_eptp p r = construct_eptp p r'"
  by (simp add: construct_eptp_def vr_is_guest_mode_def fun_eq_iff Let_def)

definition load_ready :: "mmu_env \<Rightarrow> mmu_globals \<Rightarrow> vmx_params \<Rightarrow> load_state \<Rightarrow> bool" where
  "load_ready e g p s \<longleftrightarrow> caches_wf (ld_pages s) \<and> roots_live (ld_pages s) \<and> role_direct (root_role (ld_mmu s)) \<and> g_tdp_mmu_enabled g \<and>
     vp_ept p \<and> 5 \<le> kvm_mmu_available_pages (mmu_pages_of (ld_kvm s)) \<and> (\<forall>r. v2p e r \<noteq> INVALID_PAGE)"

lemma kvm_mmu_load_spec:
  assumes "load_ready e g p s"
  obtains (failed) t where "kvm_mmu_load e g ke cap p s = Some (STATUS_NO_MEMORY, t)" "t = s\<lparr>ld_pages := ld_pages t\<rparr>" "\<not> caches_full (ld_pages s) False"
  | (loaded) root t where "kvm_mmu_load e g ke cap p s = Some (0, t)" "took_root (ld_pages s) (root_role (ld_mmu s)) root (ld_pages t)"
      "caches_wf (ld_pages t)" "ld_kvm t = ld_kvm s" "root_role (ld_mmu t) = root_role (ld_mmu s)" "root_hpa (ld_mmu t) = v2p e root"
      "vr_vmcs (ld_regs t) EPT_POINTER = construct_eptp p (ld_regs s) (v2p e root) (role_level (root_role (ld_mmu s)))"
      "vr_hflags (ld_regs t) = vr_hflags (ld_regs s)"
      "ld_invept t = (if cpu_has_vmx_invept_context cap then Some (vr_vmcs (ld_regs t) EPT_POINTER) else None) # ld_invept s"
proof -
  let ?m = "ld_mmu s"
  have ready: "caches_wf (ld_pages s)" "roots_live (ld_pages s)" "role_direct (root_role ?m)" "g_tdp_mmu_enabled g" "vp_ept p"
    "5 \<le> kvm_mmu_available_pages (mmu_pages_of (ld_kvm s))" "\<And>r. v2p e r \<noteq> INVALID_PAGE"
    using assms by (simp_all add: load_ready_def)
  obtain r pages where t: "mmu_topup_memory_caches e (ld_pages s) False = Some (r, pages)" "caches_wf pages"
    "r = 0 \<and> caches_full pages False \<or> r = STATUS_NO_MEMORY"
    using topup_caches_ok [OF ready(1)] by blast
  note frame = topup_caches_frame [OF ready(1) t(1)]
  show thesis
  proof (cases "r = 0")
    case False
    then have "kvm_mmu_load e g ke cap p s = Some (STATUS_NO_MEMORY, s\<lparr>ld_pages := pages\<rparr>)"
      using t ready(3) by (simp add: kvm_mmu_load_def)
    moreover have "\<not> caches_full (ld_pages s) False" using False t(1) topup_enough [of "ld_pages s" e] by auto
    ultimately show thesis using failed [of "s\<lparr>ld_pages := pages\<rparr>"] by (cases s) simp
  next
    case True
    then have full: "caches_full pages False" using t(3) by (auto simp: status_defs)
    have live: "roots_live pages" using ready(2) frame by (simp add: roots_live_def count_at_def)
    obtain root q where g: "kvm_tdp_mmu_get_vcpu_root_hpa e pages ?m = Some (v2p e root, q)" "took_root pages (root_role ?m) root q" "caches_wf q"
      using get_root_works [OF t(2) full live] by blast
    define m where "m = ?m\<lparr>root_hpa := v2p e root, root_pgd := 0\<rparr>"
    define u where "u = kvm_mmu_load_pgd p (s\<lparr>ld_pages := q, ld_mmu := m\<rparr>)"
    have run: "kvm_mmu_load e g ke cap p s = Some (0, vmx_flush_tlb_current cap p u)"
      using True t(1) ready(3,4,6) g(1)
      by (simp add: kvm_mmu_load_def mmu_alloc_special_roots_def mmu_alloc_direct_roots_def make_mmu_pages_available_def Let_def u_def m_def)
    have u: "u = s\<lparr>ld_pages := q, ld_mmu := m, ld_regs := vmx_load_mmu_pgd p (v2p e root) (role_level (root_role ?m)) (ld_regs s)\<rparr>"
      using ready(7) by (simp add: u_def m_def kvm_mmu_load_pgd_def)
    have eptp: "vr_vmcs (ld_regs u) EPT_POINTER = construct_eptp p (ld_regs s) (v2p e root) (role_level (root_role ?m))"
      "vr_hflags (ld_regs u) = vr_hflags (ld_regs s)"
      using load_mmu_pgd_ept [OF ready(5)] load_mmu_pgd_hflags [OF ready(5)] by (simp_all add: u)
    define w where "w = (if cpu_has_vmx_invept_context cap then Some (vr_vmcs (ld_regs u) EPT_POINTER) else None)"
    have v: "vmx_flush_tlb_current cap p u = u\<lparr>ld_invept := w # ld_invept s\<rparr>"
      using ready(5,7) eptp(1) construct_eptp_hflags [OF eptp(2), of p]
      by (simp add: vmx_flush_tlb_current_def u m_def ept_sync_context_def ept_sync_global_def w_def)
    have "took_root (ld_pages s) (root_role ?m) root q" using g(2) took_root_cong [OF frame] by simp
    then show thesis
      using run g(3) eptp unfolding v by (intro loaded [of "u\<lparr>ld_invept := w # ld_invept s\<rparr>" root]) (simp_all add: u m_def w_def)
  qed
qed

text \<open>
  C35: when the TDP MMU and EPT are on, the role is direct, at least five more MMU pages may be used, the
  caches are well formed, no root is dead and no root's address reads as the invalid one (\<open>load_ready\<close>), loading
  the MMU returns with success or STATUS_NO_MEMORY; the latter changes nothing but the page state, and only when
  the caches were not full. After success the vCPU holds one more reference to a root of its role, which
  is shared with an earlier root of that role when there is one; the EPT pointer in the VMCS is made of
  the root's address and level, and exactly one invalidation has been added: that of the translations of
  this pointer, or of all translations when the processor cannot invalidate a single context. The address
  is that of the description of the root, not that of its table.
\<close>

theorem kvm_mmu_load_effect:
  assumes "load_ready e g p s"
  shows "\<exists>r t. kvm_mmu_load e g ke cap p s = Some (r, t) \<and>
    (r = STATUS_NO_MEMORY \<and> t = s\<lparr>ld_pages := ld_pages t\<rparr> \<and> \<not> caches_full (ld_pages s) False \<or>
     r = 0 \<and>
     (\<exists>root. took_root (ld_pages s) (root_role (ld_mmu s)) root (ld_pages t) \<and> root_hpa (ld_mmu t) = v2p e root \<and>
      vr_vmcs (ld_regs t) EPT_POINTER = construct_eptp p (ld_regs s) (v2p e root) (role_level (root_role (ld_mmu s))) \<and>
      ld_invept t = (if cpu_has_vmx_invept_context cap then Some (vr_vmcs (ld_regs t) EPT_POINTER) else None) # ld_invept s))"
  by (rule kvm_mmu_load_spec [OF assms, of ke cap]) (blast, blast)

lemma load_succeeds:
  assumes "load_ready e g p s" "caches_full (ld_pages s) False"
  shows "\<exists>t. kvm_mmu_load e g ke cap p s = Some (0, t)"
  by (rule kvm_mmu_load_spec [OF assms(1), of ke cap]) (use assms(2) in auto)

definition tdp_globals :: mmu_globals where
  "tdp_globals = kvm_configure_mmu True 0 4 2
     (kvm_mmu_x86_module_init \<lparr>g_tdp_enabled = False, g_tdp_root_level = 0, g_max_tdp_level = 0, g_max_huge_page_level = 0,
        g_tdp_mmu_allowed = False, g_tdp_mmu_enabled = True\<rparr>)"

definition load_env :: mmu_env where
  "load_env = demo_menv\<lparr>v2p := (\<lambda>a. a AND 0xffffffffffff)\<rparr>"

definition load0 :: load_state where
  "load0 = \<lparr>ld_kvm = demo_vm\<lparr>mmu_pages_of := \<lparr>n_requested_mmu_pages = 0, n_used_mmu_pages = 0, n_max_mmu_pages = 64\<rparr>\<rparr>,
     ld_mmu = demo_mmu, ld_pages = full_state, ld_regs = blank_regs, ld_invept = []\<rparr>"

lemma load0_ready: "load_ready load_env tdp_globals ept_params load0" "caches_full (ld_pages load0) False"
proof -
  have "v2p load_env r \<noteq> INVALID_PAGE" for r
  proof
    assume "v2p load_env r = INVALID_PAGE"
    then have "bit (r AND 0xffffffffffff) 60 = bit (- 1 :: u64) 60" by (simp add: load_env_def INVALID_PAGE_def)
    then show False by (simp add: bit_and_iff)
  qed
  moreover have "\<forall>i\<in>set [0..<40]. (0x200000 + PAGE_SIZE * of_nat i :: u64) \<noteq> 0" by code_simp
  ultimately show "load_ready load_env tdp_globals ept_params load0"
    by (simp add: load_ready_def load0_def caches_wf_def full_state_def fresh_state_def full_cache_def empty_cache_def cache_wf_def
        KVM_ARCH_NR_OBJS_PER_MEMORY_CACHE_def roots_live_def demo_mmu_def tdp_globals_def kvm_configure_mmu_def kvm_mmu_x86_module_init_def
        kvm_mmu_available_pages_def ept_params_def)
  show "caches_full (ld_pages load0) False"
    by (simp add: load0_def caches_full_def full_state_def fresh_state_def full_cache_def)
qed

theorem kvm_mmu_load_effect_witness:
  "\<exists>t root. kvm_mmu_load load_env tdp_globals demo_env \<lparr>cap_ept = 0, cap_vpid = 0\<rparr> ept_params load0 = Some (0, t) \<and>
     tdp_mmu_roots (ld_pages t) = [root] \<and> sp_root_count (the (sp_heap (ld_pages t) root)) = 2 \<and>
     vr_vmcs (ld_regs t) EPT_POINTER = v2p load_env root OR 0x5e \<and> ld_invept t = [None]"
proof -
  let ?load = "kvm_mmu_load load_env tdp_globals demo_env \<lparr>cap_ept = 0, cap_vpid = 0\<rparr> ept_params load0"
  obtain t where t: "?load = Some (0, t)" using load_succeeds [OF load0_ready] by blast
  have "STATUS_NO_MEMORY \<noteq> 0" by (simp add: status_defs)
  then obtain root where "took_root (ld_pages load0) (root_role (ld_mmu load0)) root (ld_pages t)"
      "vr_vmcs (ld_regs t) EPT_POINTER = construct_eptp ept_params (ld_regs load0) (v2p load_env root) (role_level (root_role (ld_mmu load0)))"
      "ld_invept t = None # ld_invept load0"
    using kvm_mmu_load_effect [OF load0_ready(1), of demo_env "\<lparr>cap_ept = 0, cap_vpid = 0\<rparr>"] t by (auto simp: cpu_has_vmx_invept_context_def)
  then show ?thesis
    using t by (auto simp: took_root_def load0_def full_state_def fresh_state_def construct_eptp_def demo_mmu_def ept_params_def
        blank_regs_def vr_is_guest_mode_def or.commute)
qed

section \<open>Repeated loads\<close>

text \<open>A vCPU reloads its MMU before each entry into the guest.\<close>

inductive loads :: "mmu_env \<Rightarrow> mmu_globals \<Rightarrow> kvm_env \<Rightarrow> vmx_capability \<Rightarrow> vmx_params \<Rightarrow> nat \<Rightarrow> load_state \<Rightarrow> load_state \<Rightarrow> bool"
  for e g ke cap p where
  none: "loads e g ke cap p 0 s s"
| again: "loads e g ke cap p n s t \<Longrightarrow> kvm_mmu_reload e g ke cap p t = Some (0, u) \<Longrightarrow> loads e g ke cap p (Suc n) s u"

inductive_cases loads_SucE: "loads e g ke cap p (Suc n) s t"
inductive_cases loads_0E: "loads e g ke cap p 0 s t"

lemma successful_load:
  assumes "load_ready e g p s" "kvm_mmu_reload e g ke cap p s = Some (0, t)"
  obtains root where "took_root (ld_pages s) (root_role (ld_mmu s)) root (ld_pages t)" "caches_wf (ld_pages t)" "ld_kvm t = ld_kvm s"
    "root_role (ld_mmu t) = root_role (ld_mmu s)"
  using kvm_mmu_load_spec [OF assms(1), of ke cap] assms(2) by (auto simp: kvm_mmu_reload_def status_defs)

definition sole_root :: "mmu_state \<Rightarrow> kvm_mmu_page_role \<Rightarrow> u64 \<Rightarrow> u32 \<Rightarrow> bool" where
  "sole_root s role root c \<longleftrightarrow> root \<noteq> 0 \<and> tdp_mmu_roots s = [root] \<and> key_at s root = root_key role \<and>
     (\<exists>x. sp_heap s root = Some x \<and> sp_root_count x = c)"

lemma loads_count:
  assumes "loads e g ke cap p m s0 s" "m = Suc n" "load_ready e g p s0" "tdp_mmu_roots (ld_pages s0) = []" "n < 2 ^ 32 - 2"
  shows "load_ready e g p s \<and> root_role (ld_mmu s) = root_role (ld_mmu s0) \<and>
    (\<exists>root. sole_root (ld_pages s) (root_role (ld_mmu s0)) root (of_nat (n + 2)))"
  using assms
proof (induction arbitrary: n rule: loads.induct)
  case (again m s t u)
  have nz: "unat (of_nat (n + 2) :: u32) = n + 2" using again.prems(4) by (simp only: unat_of_nat) (simp add: take_bit_nat_eq_self)
  have before: "load_ready e g p t \<and> root_role (ld_mmu t) = root_role (ld_mmu s)"
  proof (cases m)
    case 0
    then show ?thesis using again.hyps(1) again.prems(2) by (auto elim: loads_0E)
  next
    case (Suc k)
    then show ?thesis using again.IH [of k] again.prems by simp
  qed
  then obtain root where r: "took_root (ld_pages t) (root_role (ld_mmu t)) root (ld_pages u)" "caches_wf (ld_pages u)" "ld_kvm u = ld_kvm t"
    "root_role (ld_mmu u) = root_role (ld_mmu t)"
    using successful_load again.hyps(2) by blast
  have "sole_root (ld_pages u) (root_role (ld_mmu s)) root (of_nat (n + 2))"
  proof (cases m)
    case 0
    then have "t = s" "n = 0" using again.hyps(1) again.prems(1) by (auto elim: loads_0E)
    then show ?thesis using r(1) again.prems(3) by (auto simp: took_root_def sole_root_def)
  next
    case (Suc k)
    then obtain q where q: "sole_root (ld_pages t) (root_role (ld_mmu s)) q (of_nat (k + 2))" using again.IH [of k] again.prems by auto
    moreover have "n = Suc k" using again.prems(1) Suc by simp
    ultimately show ?thesis using r(1) before by (auto simp: took_root_def sole_root_def algebra_simps)
  qed
  moreover from this have "roots_live (ld_pages u)"
    using nz by (auto simp: roots_live_def sole_root_def count_at_def)
  ultimately show ?case using before r by (auto simp: load_ready_def)
qed simp

text \<open>
  C36: a vCPU that enters the guest n + 1 times, in a VM without other vCPUs, holds its root once, but
  the root's count is n + 2 and grows with every entry; nothing gives a reference back, so the root is
  never freed, and after as many entries as the 32-bit count can hold it reads as dead.
\<close>

theorem reload_leaks_references:
  assumes "loads e g ke cap p (Suc n) s0 s" "load_ready e g p s0" "tdp_mmu_roots (ld_pages s0) = []" "n < 2 ^ 32 - 2"
  shows "\<exists>root x. tdp_mmu_roots (ld_pages s) = [root] \<and> sp_load (ld_pages s) root = Some x \<and> unat (sp_root_count x) = n + 2"
proof -
  have "unat (of_nat (n + 2) :: u32) = n + 2" using assms(4) by (simp only: unat_of_nat) (simp add: take_bit_nat_eq_self)
  then show ?thesis
    using loads_count [OF assms(1) refl assms(2-4)] by (force simp: sole_root_def sp_load_def)
qed

theorem reload_leaks_references_witness:
  "\<exists>s root x. loads load_env tdp_globals demo_env \<lparr>cap_ept = 0, cap_vpid = 0\<rparr> ept_params (Suc 0) load0 s \<and>
     tdp_mmu_roots (ld_pages s) = [root] \<and> sp_load (ld_pages s) root = Some x \<and> unat (sp_root_count x) = 2"
proof -
  let ?loads = "loads load_env tdp_globals demo_env \<lparr>cap_ept = 0, cap_vpid = 0\<rparr> ept_params"
  obtain s where "kvm_mmu_load load_env tdp_globals demo_env \<lparr>cap_ept = 0, cap_vpid = 0\<rparr> ept_params load0 = Some (0, s)"
    using load_succeeds [OF load0_ready] by blast
  then have run: "?loads (Suc 0) load0 s" by (intro loads.again [OF loads.none]) (simp add: kvm_mmu_reload_def)
  have "tdp_mmu_roots (ld_pages load0) = []" by (simp add: load0_def full_state_def fresh_state_def)
  from reload_leaks_references [OF run load0_ready(1) this] run show ?thesis by auto
qed

end
