(* ===== verification/Vcpu_Run.thy ===== *)
theory Vcpu_Run
  imports Mmu_Load Vmx_Words
begin

text \<open>
  Running a vCPU: VM entry and exit and the dispatch of exits of \<^verbatim>\<open>src/svmx/vmx.c\<close>, and the loop around
  them in \<^verbatim>\<open>x86.c\<close>.

  The guest is a parameter: what the \<open>n\<close>-th entry with given flags, CR2 and VMCS leads to, namely a failure
  of the instruction (VM-fail) or a VM exit, the CR2 and the VMCS it leaves behind. General registers,
  which the assembly routine saves and restores, are part of the guest. The VMCS is the one of this
  vCPU; how it is made current on a CPU is in \<^verbatim>\<open>Kvm_Hardware\<close>. Writes to the host's debug registers and
  MSRs have no effect here. A call through a NULL pointer and a loop that never ends have no result.
\<close>

section \<open>State\<close>

record run_env =
  re_menv :: mmu_env
  re_pf :: env_pf
  re_kenv :: kvm_env
  re_globals :: mmu_globals
  re_cap :: vmx_capability
  re_params :: vmx_params
  re_inhibit :: u64
  re_iter0 :: tdp_iter
  re_cpu :: int
  re_cr3 :: u64
  re_cr4 :: u64
  re_fs :: u16
  re_gs :: u16
  re_fs_base :: u64
  re_gs_base :: u64
  re_kernel_gs_base :: u64
  re_guest_stack :: u64
  re_guest :: "nat \<Rightarrow> u32 \<Rightarrow> u64 \<Rightarrow> (u32 \<Rightarrow> u64) \<Rightarrow> bool \<times> u64 \<times> (u32 \<Rightarrow> u64)"

record vmcs_host_state =
  hs_cr3 :: u64
  hs_cr4 :: u64
  hs_fs_sel :: u16
  hs_gs_sel :: u16
  hs_ldt_sel :: u16
  hs_fs_base :: u64
  hs_gs_base :: u64

record kvm_run =
  run_exit_reason :: u32
  run_flags :: u16
  hardware_entry_failure_reason :: u64
  fail_cpu :: u32

text \<open>\<open>entries\<close> counts the entries tried so far; the program has no such field.\<close>

record run_state =
  rs_load :: load_state
  rs_vf :: vcpu_fault
  rs_ctrl :: loaded_vmcs
  rs_host :: vmcs_host_state
  rs_run :: kvm_run
  exit_reason :: u32
  vmx_fail :: bool
  exit_intr_info :: u32
  idt_vectoring_info :: u32
  emulation_required :: bool
  nested_run_pending :: bool
  launched :: bool
  guest_state_loaded :: bool
  guest_uret_msrs_loaded :: bool
  msr_guest_kernel_gs_base :: u64
  arch_cr2 :: u64
  arch_exit_qualification :: u64
  arch_dr7 :: u64
  guest_debug_dr7 :: u64
  guest_debug :: u32
  switch_db_regs :: u32
  last_vmentry_cpu :: int
  in_guest_mode :: bool
  mp_state :: u32
  apf_halted :: bool
  pv_unhalted :: bool
  at_instruction_boundary :: bool
  l1tf_flush_l1d :: bool
  stat_exits :: u64
  stat_irq_exits :: u64
  stat_nmi_window_exits :: u64
  stat_nested_run :: u64
  stat_host_state_reload :: u64
  entries :: nat

definition on_regs :: "(vcpu_regs \<Rightarrow> vcpu_regs) \<Rightarrow> run_state \<Rightarrow> run_state" where
  "on_regs f s = s\<lparr>rs_load := (rs_load s)\<lparr>ld_regs := f (ld_regs (rs_load s))\<rparr>\<rparr>"

abbreviation regs_of :: "run_state \<Rightarrow> vcpu_regs" where "regs_of s \<equiv> ld_regs (rs_load s)"

definition rs_vmcs :: "run_state \<Rightarrow> u32 \<Rightarrow> u64" where "rs_vmcs s = vr_vmcs (regs_of s)"
definition rs_write :: "u32 \<Rightarrow> u64 \<Rightarrow> run_state \<Rightarrow> run_state" where "rs_write f x = on_regs (vr_write f x)"
definition vmcs_read32 :: "run_state \<Rightarrow> u32 \<Rightarrow> u32" where "vmcs_read32 s f = ucast (rs_vmcs s f)"

definition on_run :: "(kvm_run \<Rightarrow> kvm_run) \<Rightarrow> run_state \<Rightarrow> run_state" where
  "on_run f s = s\<lparr>rs_run := f (rs_run s)\<rparr>"

definition VM_INSTRUCTION_ERROR :: u32 where "VM_INSTRUCTION_ERROR = 0x4400"
definition VM_EXIT_REASON :: u32 where "VM_EXIT_REASON = 0x4402"
definition VM_EXIT_INTR_INFO :: u32 where "VM_EXIT_INTR_INFO = 0x4404"
definition IDT_VECTORING_INFO_FIELD :: u32 where "IDT_VECTORING_INFO_FIELD = 0x4408"
definition GUEST_PHYSICAL_ADDRESS :: u32 where "GUEST_PHYSICAL_ADDRESS = 0x2400"
definition GUEST_DR7 :: u32 where "GUEST_DR7 = 0x681a"
definition TSC_OFFSET :: u32 where "TSC_OFFSET = 0x2010"
definition HOST_FS_SELECTOR :: u32 where "HOST_FS_SELECTOR = 0xc08"
definition HOST_GS_SELECTOR :: u32 where "HOST_GS_SELECTOR = 0xc0a"
definition HOST_CR3 :: u32 where "HOST_CR3 = 0x6c02"
definition HOST_CR4 :: u32 where "HOST_CR4 = 0x6c04"
definition HOST_FS_BASE :: u32 where "HOST_FS_BASE = 0x6c06"
definition HOST_GS_BASE :: u32 where "HOST_GS_BASE = 0x6c08"

definition KVM_EXIT_SHUTDOWN :: u32 where "KVM_EXIT_SHUTDOWN = 8"
definition KVM_EXIT_FAIL_ENTRY :: u32 where "KVM_EXIT_FAIL_ENTRY = 9"
definition KVM_EXIT_INTERNAL_ERROR :: u32 where "KVM_EXIT_INTERNAL_ERROR = 17"
definition KVM_EXIT_X86_BUS_LOCK :: u32 where "KVM_EXIT_X86_BUS_LOCK = 33"
definition KVM_RUN_X86_BUS_LOCK :: u16 where "KVM_RUN_X86_BUS_LOCK = 2"

definition KVM_MP_STATE_RUNNABLE :: u32 where "KVM_MP_STATE_RUNNABLE = 0"
definition KVM_MP_STATE_HALTED :: u32 where "KVM_MP_STATE_HALTED = 3"
definition KVM_MP_STATE_AP_RESET_HOLD :: u32 where "KVM_MP_STATE_AP_RESET_HOLD = 9"

section \<open>Exit reasons\<close>

text \<open>The bit fields of \<^verbatim>\<open>union vmx_exit_reason\<close>.\<close>

definition er_basic :: "u32 \<Rightarrow> u32" where "er_basic w = w AND 0xffff"
definition er_bus_lock_detected :: "u32 \<Rightarrow> bool" where "er_bus_lock_detected w = bit w 26"
definition er_enclave_mode :: "u32 \<Rightarrow> bool" where "er_enclave_mode w = bit w 27"
definition er_failed_vmentry :: "u32 \<Rightarrow> bool" where "er_failed_vmentry w = bit w 31"

datatype fastpath_t = EXIT_FASTPATH_NONE | EXIT_FASTPATH_REENTER_GUEST | EXIT_FASTPATH_EXIT_HANDLED

definition vmx_get_intr_info :: "run_state \<Rightarrow> u32 \<times> run_state" where
  "vmx_get_intr_info s = (let
       (hit, r) = kvm_register_test_and_mark_available VCPU_EXREG_EXIT_INFO_2 (regs_of s);
       s = on_regs (\<lambda>_. r) s;
       s = (if hit then s else s\<lparr>exit_intr_info := vmcs_read32 s VM_EXIT_INTR_INFO\<rparr>) in
     (exit_intr_info s, s))"

definition is_intr_type :: "u32 \<Rightarrow> u32 \<Rightarrow> bool" where
  "is_intr_type intr_info type \<longleftrightarrow> intr_info AND (0x80000000 OR 0x700) = 0x80000000 OR type"

definition is_nmi :: "u32 \<Rightarrow> bool" where "is_nmi intr_info = is_intr_type intr_info (push_bit 8 2)"

section \<open>Entry\<close>

definition vmx_set_host_fs_gs :: "u16 \<Rightarrow> u16 \<Rightarrow> u64 \<Rightarrow> u64 \<Rightarrow> run_state \<Rightarrow> run_state" where
  "vmx_set_host_fs_gs fs_sel gs_sel fs_base gs_base s = (let
       s = (if fs_sel \<noteq> hs_fs_sel (rs_host s)
            then (rs_write HOST_FS_SELECTOR (if fs_sel AND 7 = 0 then ucast fs_sel else 0) s)
                 \<lparr>rs_host := (rs_host s)\<lparr>hs_fs_sel := fs_sel\<rparr>\<rparr>
            else s);
       s = (if gs_sel \<noteq> hs_gs_sel (rs_host s)
            then rs_write HOST_GS_SELECTOR (if gs_sel AND 7 = 0 then ucast gs_sel else 0) s else s);
       s = (if fs_base \<noteq> hs_fs_base (rs_host s)
            then (rs_write HOST_FS_BASE fs_base s)\<lparr>rs_host := (rs_host s)\<lparr>hs_fs_base := fs_base\<rparr>\<rparr> else s) in
     if gs_base \<noteq> hs_gs_base (rs_host s)
     then (rs_write HOST_GS_BASE gs_base s)\<lparr>rs_host := (rs_host s)\<lparr>hs_gs_base := gs_base\<rparr>\<rparr> else s)"

definition vmx_prepare_switch_to_guest :: "run_env \<Rightarrow> run_state \<Rightarrow> run_state" where
  "vmx_prepare_switch_to_guest env s = (let
       s = (if guest_state_loaded s then s else s\<lparr>guest_uret_msrs_loaded := True\<rparr>);
       s = vmx_set_host_fs_gs (re_fs env AND 0xf8) (re_gs env AND 0xf8) (re_fs_base env) (re_gs_base env) s in
     s\<lparr>guest_state_loaded := True\<rparr>)"

definition vmx_prepare_switch_to_host :: "run_env \<Rightarrow> run_state \<Rightarrow> run_state" where
  "vmx_prepare_switch_to_host env s =
     (if \<not> guest_state_loaded s then s
      else s\<lparr>stat_host_state_reload := stat_host_state_reload s + 1, msr_guest_kernel_gs_base := re_kernel_gs_base env,
        guest_state_loaded := False, guest_uret_msrs_loaded := False\<rparr>)"

definition msr_write_intercepted :: "loaded_vmcs \<Rightarrow> bool" where
  "msr_write_intercepted l \<longleftrightarrow> sh_exec l AND CPU_BASED_USE_MSR_BITMAPS = 0"

definition raw_vmx_vcpu_run_flags :: "run_state \<Rightarrow> u32" where
  "raw_vmx_vcpu_run_flags s = (if launched s then 1 else 0) OR (if msr_write_intercepted (rs_ctrl s) then 0 else 2)"

definition vmx_vcpu_enter_exit :: "run_env \<Rightarrow> u32 \<Rightarrow> run_state \<Rightarrow> run_state" where
  "vmx_vcpu_enter_exit env flags s = (let
       s = rs_write GUEST_RSP (re_guest_stack env) s;
       (fail, cr2, vmcs) = re_guest env (entries s) flags (arch_cr2 s) (rs_vmcs s);
       s = on_regs (\<lambda>r. r\<lparr>vr_vmcs := vmcs\<rparr>) s\<lparr>entries := Suc (entries s), vmx_fail := fail, arch_cr2 := cr2\<rparr>;
       s = s\<lparr>exit_reason := (if fail then 0xdead else vmcs_read32 s VM_EXIT_REASON)\<rparr> in
     if er_basic (exit_reason s) = 0 then snd (vmx_get_intr_info s) else s)"

definition handle_fastpath_set_msr_irqoff :: "run_state \<Rightarrow> fastpath_t" where "handle_fastpath_set_msr_irqoff s = EXIT_FASTPATH_NONE"
definition handle_fastpath_preemption_timer :: "run_state \<Rightarrow> fastpath_t" where "handle_fastpath_preemption_timer s = EXIT_FASTPATH_NONE"

definition vmx_exit_handlers_fastpath :: "run_state \<Rightarrow> fastpath_t" where
  "vmx_exit_handlers_fastpath s =
     (if er_basic (exit_reason s) = 32 then handle_fastpath_set_msr_irqoff s
      else if er_basic (exit_reason s) = 52 then handle_fastpath_preemption_timer s
      else EXIT_FASTPATH_NONE)"

definition vmx_vcpu_run :: "run_env \<Rightarrow> run_state \<Rightarrow> fastpath_t \<times> run_state" where
  "vmx_vcpu_run env s =
     (if emulation_required s then
        (EXIT_FASTPATH_NONE,
         on_regs (\<lambda>r. (kvm_register_mark_available VCPU_EXREG_EXIT_INFO_2 (kvm_register_mark_available VCPU_EXREG_EXIT_INFO_1 r))
             \<lparr>exit_qualification := 0\<rparr>)
           s\<lparr>vmx_fail := False, exit_reason := 33 OR push_bit 31 1, exit_intr_info := 0\<rparr>)
      else let
        s = on_regs (\<lambda>r. r\<lparr>regs_dirty := 0\<rparr>) s;
        s = (if re_cr3 env \<noteq> hs_cr3 (rs_host s)
             then (rs_write HOST_CR3 (re_cr3 env) s)\<lparr>rs_host := (rs_host s)\<lparr>hs_cr3 := re_cr3 env\<rparr>\<rparr> else s);
        s = (if re_cr4 env \<noteq> hs_cr4 (rs_host s)
             then (rs_write HOST_CR4 (re_cr4 env) s)\<lparr>rs_host := (rs_host s)\<lparr>hs_cr4 := re_cr4 env\<rparr>\<rparr> else s);
        s = vmx_vcpu_enter_exit env (raw_vmx_vcpu_run_flags s) s;
        s = on_regs (\<lambda>r. r\<lparr>regs_avail := regs_avail r AND NOT VMX_REGS_LAZY_LOAD_SET\<rparr>) s;
        s = (if vr_is_guest_mode (regs_of s)
             then s\<lparr>stat_nested_run := (if nested_run_pending s \<and> \<not> er_failed_vmentry (exit_reason s)
                                        then stat_nested_run s + 1 else stat_nested_run s),
                    nested_run_pending := False\<rparr>
             else s);
        s = s\<lparr>idt_vectoring_info := 0\<rparr> in
      if vmx_fail s then (EXIT_FASTPATH_NONE, s)
      else if er_failed_vmentry (exit_reason s) then (EXIT_FASTPATH_NONE, s)
      else let s = s\<lparr>idt_vectoring_info := vmcs_read32 s IDT_VECTORING_INFO_FIELD, launched := True\<rparr> in
        if vr_is_guest_mode (regs_of s) then (EXIT_FASTPATH_NONE, s)
        else (vmx_exit_handlers_fastpath s, s))"

section \<open>Exit handlers\<close>

type_synonym handler = "run_env \<Rightarrow> run_state \<Rightarrow> (int \<times> run_state) option"

definition handle_exception_nmi :: handler where "handle_exception_nmi env s = Some (0, s)"

definition handle_external_interrupt :: handler where
  "handle_external_interrupt env s = Some (1, s\<lparr>stat_irq_exits := stat_irq_exits s + 1\<rparr>)"

definition handle_triple_fault :: handler where
  "handle_triple_fault env s = Some (0, on_run (\<lambda>r. r\<lparr>run_exit_reason := KVM_EXIT_SHUTDOWN\<rparr>) s)"

text \<open>The shadow of the control word is in \<open>rs_ctrl\<close>, the field itself in the VMCS.\<close>

definition handle_nmi_window :: handler where
  "handle_nmi_window env s = (let
       l = controls_clearbit sh_exec sh_exec_update CPU_BASED_VM_EXEC_CONTROL CPU_BASED_NMI_WINDOW_EXITING ((rs_ctrl s)\<lparr>vmcs_field := rs_vmcs s\<rparr>);
       s = on_regs (\<lambda>r. r\<lparr>vr_vmcs := vmcs_field l\<rparr>) s\<lparr>rs_ctrl := l\<rparr> in
     Some (1, s\<lparr>stat_nmi_window_exits := stat_nmi_window_exits s + 1\<rparr>))"

definition handle_io :: handler where "handle_io env s = Some (0, s)"
definition handle_dr :: handler where "handle_dr env s = Some (0, s)"
definition handle_interrupt_window :: handler where "handle_interrupt_window env s = Some (1, s)"
definition handle_invlpg :: handler where "handle_invlpg env s = Some (0, s)"
definition handle_vmx_instruction :: handler where "handle_vmx_instruction env s = Some (1, s)"
definition handle_tpr_below_threshold :: handler where "handle_tpr_below_threshold env s = Some (1, s)"
definition handle_apic_access :: handler where "handle_apic_access env s = Some (0, s)"
definition handle_apic_write :: handler where "handle_apic_write env s = Some (0, s)"
definition handle_apic_eoi_induced :: handler where "handle_apic_eoi_induced env s = Some (0, s)"
definition handle_task_switch :: handler where "handle_task_switch env s = Some (0, s)"
definition handle_machine_check :: handler where "handle_machine_check env s = Some (1, s)"
definition handle_desc :: handler where "handle_desc env s = Some (0, s)"
definition handle_preemption_timer :: handler where "handle_preemption_timer env s = Some (0, s)"
definition handle_pause :: handler where "handle_pause env s = Some (0, s)"
definition handle_monitor_trap :: handler where "handle_monitor_trap env s = Some (1, s)"
definition handle_pml_full :: handler where "handle_pml_full env s = Some (1, s)"
definition handle_invpcid :: handler where "handle_invpcid env s = Some (1, s)"
definition handle_encls :: handler where "handle_encls env s = Some (1, s)"
definition handle_notify :: handler where "handle_notify env s = Some (1, s)"

definition handle_bus_lock_vmexit :: handler where
  "handle_bus_lock_vmexit env s = Some (1, s\<lparr>exit_reason := set_bit 26 (exit_reason s)\<rparr>)"

definition kvm_emulate_cpuid :: handler where "kvm_emulate_cpuid env s = Some (0, s)"
definition kvm_emulate_rdmsr :: handler where "kvm_emulate_rdmsr env s = Some (0, s)"
definition kvm_emulate_wrmsr :: handler where "kvm_emulate_wrmsr env s = Some (0, s)"
definition kvm_emulate_halt :: handler where "kvm_emulate_halt env s = Some (0, s)"
definition kvm_emulate_invd :: handler where "kvm_emulate_invd env s = Some (0, s)"
definition kvm_emulate_rdpmc :: handler where "kvm_emulate_rdpmc env s = Some (0, s)"
definition kvm_emulate_hypercall :: handler where "kvm_emulate_hypercall env s = Some (0, s)"
definition kvm_emulate_wbinvd :: handler where "kvm_emulate_wbinvd env s = Some (0, s)"
definition kvm_emulate_xsetbv :: handler where "kvm_emulate_xsetbv env s = Some (0, s)"
definition kvm_emulate_mwait :: handler where "kvm_emulate_mwait env s = Some (0, s)"
definition kvm_emulate_monitor :: handler where "kvm_emulate_monitor env s = Some (0, s)"
definition kvm_handle_invalid_op :: handler where "kvm_handle_invalid_op env s = Some (0, s)"

text \<open>A MOV to a control register, on the registers of the vCPU.\<close>

definition handle_cr_exit :: handler where
  "handle_cr_exit env s = (let (r, regs) = handle_cr (re_params env) (regs_of s) in Some (r, on_regs (\<lambda>_. regs) s))"

definition call_page_fault :: "run_env \<Rightarrow> gpa_t \<Rightarrow> u64 \<Rightarrow> run_state \<Rightarrow> (int \<times> run_state) option" where
  "call_page_fault env gpa error_code s = do {
     (r, v, pages) \<leftarrow> kvm_mmu_page_fault (re_menv env) (re_pf env) (re_kenv env) (ld_kvm (rs_load s)) (re_inhibit env) (rs_vf s)
        (ld_pages (rs_load s)) (ld_mmu (rs_load s)) (re_iter0 env) gpa error_code;
     Some (r, s\<lparr>rs_vf := v, rs_load := (rs_load s)\<lparr>ld_pages := pages\<rparr>\<rparr>)
   }"

text \<open>The error code that describes an EPT violation to the MMU.\<close>

definition ept_error_code :: "u64 \<Rightarrow> u64" where
  "ept_error_code q =
     (if bit q 0 then 4 else 0) OR (if bit q 1 then 2 else 0) OR (if bit q 2 then 16 else 0) OR
     (if q AND push_bit 3 7 \<noteq> 0 then 1 else 0) OR (if bit q 8 then push_bit 32 1 else push_bit 33 1)"

definition handle_ept_violation :: handler where
  "handle_ept_violation env s = (let
       (q, regs) = vmx_get_exit_qual (regs_of s);
       s = on_regs (\<lambda>_. regs) s;
       gpa = rs_vmcs s GUEST_PHYSICAL_ADDRESS;
       s = s\<lparr>arch_exit_qualification := q\<rparr> in
     call_page_fault env gpa (ept_error_code q) s)"

definition vmx_can_emulate_instruction :: "run_state \<Rightarrow> bool" where
  "vmx_can_emulate_instruction s \<longleftrightarrow> \<not> er_enclave_mode (exit_reason s)"

definition skip_emulated_instruction :: "run_state \<Rightarrow> int" where "skip_emulated_instruction s = 1"

definition kvm_skip_emulated_instruction :: "run_state \<Rightarrow> int" where
  "kvm_skip_emulated_instruction s = (let r = skip_emulated_instruction s in if r = 0 then 0 else r)"

definition handle_ept_misconfig :: handler where
  "handle_ept_misconfig env s =
     (if \<not> vmx_can_emulate_instruction s then Some (1, s)
      else if \<not> vr_is_guest_mode (regs_of s) then Some (kvm_skip_emulated_instruction s, s)
      else call_page_fault env (rs_vmcs s GUEST_PHYSICAL_ADDRESS) 8 s)"

text \<open>The table, by the numbers of the basic exit reasons; it ends with reason 75.\<close>

definition exit_handler_table :: "(u32 \<times> handler) list" where
  "exit_handler_table = [
     (0, handle_exception_nmi), (1, handle_external_interrupt), (2, handle_triple_fault), (8, handle_nmi_window),
     (30, handle_io), (28, handle_cr_exit), (29, handle_dr), (10, kvm_emulate_cpuid), (31, kvm_emulate_rdmsr), (32, kvm_emulate_wrmsr),
     (7, handle_interrupt_window), (12, kvm_emulate_halt), (13, kvm_emulate_invd), (14, handle_invlpg), (15, kvm_emulate_rdpmc),
     (18, kvm_emulate_hypercall), (19, handle_vmx_instruction), (20, handle_vmx_instruction), (21, handle_vmx_instruction),
     (22, handle_vmx_instruction), (23, handle_vmx_instruction), (24, handle_vmx_instruction), (25, handle_vmx_instruction),
     (26, handle_vmx_instruction), (27, handle_vmx_instruction), (43, handle_tpr_below_threshold), (44, handle_apic_access),
     (56, handle_apic_write), (45, handle_apic_eoi_induced), (54, kvm_emulate_wbinvd), (55, kvm_emulate_xsetbv), (9, handle_task_switch),
     (41, handle_machine_check), (46, handle_desc), (47, handle_desc), (48, handle_ept_violation), (49, handle_ept_misconfig),
     (40, handle_pause), (36, kvm_emulate_mwait), (37, handle_monitor_trap), (39, kvm_emulate_monitor), (50, handle_vmx_instruction),
     (53, handle_vmx_instruction), (57, kvm_handle_invalid_op), (61, kvm_handle_invalid_op), (62, handle_pml_full), (58, handle_invpcid),
     (59, handle_vmx_instruction), (52, handle_preemption_timer), (60, handle_encls), (74, handle_bus_lock_vmexit), (75, handle_notify)]"

definition kvm_vmx_exit_handlers :: "u32 \<Rightarrow> handler option" where "kvm_vmx_exit_handlers = map_of exit_handler_table"

definition kvm_vmx_max_exit_handlers :: u32 where "kvm_vmx_max_exit_handlers = 76"

section \<open>Dispatch\<close>

definition fail_entry :: "u64 \<Rightarrow> run_state \<Rightarrow> run_state" where
  "fail_entry reason s = on_run (\<lambda>r. r\<lparr>run_exit_reason := KVM_EXIT_FAIL_ENTRY, hardware_entry_failure_reason := reason,
     fail_cpu := of_int (last_vmentry_cpu s)\<rparr>) s"

definition unexpected_vmexit :: "run_state \<Rightarrow> run_state" where
  "unexpected_vmexit s = on_run (\<lambda>r. r\<lparr>run_exit_reason := KVM_EXIT_INTERNAL_ERROR\<rparr>) s"

text \<open>The flush of the PML buffer is empty.\<close>

definition raw_vmx_handle_exit :: "run_env \<Rightarrow> fastpath_t \<Rightarrow> run_state \<Rightarrow> (int \<times> run_state) option" where
  "raw_vmx_handle_exit env exit_fastpath s =
     (if vr_is_guest_mode (regs_of s) \<and> er_basic (exit_reason s) = 62 then Some (0, unexpected_vmexit s)
      else if er_failed_vmentry (exit_reason s) then Some (0, fail_entry (ucast (exit_reason s)) s)
      else if vmx_fail s then Some (0, fail_entry (ucast (vmcs_read32 s VM_INSTRUCTION_ERROR)) s)
      else if exit_fastpath \<noteq> EXIT_FASTPATH_NONE then Some (1, s)
      else if kvm_vmx_max_exit_handlers \<le> er_basic (exit_reason s) then Some (0, unexpected_vmexit s)
      else (case kvm_vmx_exit_handlers (er_basic (exit_reason s)) of
          None \<Rightarrow> None
        | Some h \<Rightarrow> h env s))"

definition vmx_handle_exit :: "run_env \<Rightarrow> fastpath_t \<Rightarrow> run_state \<Rightarrow> (int \<times> run_state) option" where
  "vmx_handle_exit env exit_fastpath s = do {
     (ret, s) \<leftarrow> raw_vmx_handle_exit env exit_fastpath s;
     if er_bus_lock_detected (exit_reason s) then
       Some (0, on_run (\<lambda>r. r\<lparr>run_exit_reason := (if ret > 0 then KVM_EXIT_X86_BUS_LOCK else run_exit_reason r),
         run_flags := run_flags r OR KVM_RUN_X86_BUS_LOCK\<rparr>) s)
     else Some (ret, s)
   }"

section \<open>The run loop\<close>

definition kvm_vcpu_running :: "run_state \<Rightarrow> bool" where
  "kvm_vcpu_running s \<longleftrightarrow> mp_state s = KVM_MP_STATE_RUNNABLE \<and> \<not> apf_halted s"

definition kvm_vcpu_has_events :: "run_state \<Rightarrow> bool" where "kvm_vcpu_has_events s = False"
definition kvm_vcpu_exit_request :: "run_state \<Rightarrow> bool" where "kvm_vcpu_exit_request s = False"

definition kvm_arch_vcpu_runnable :: "run_state \<Rightarrow> bool" where
  "kvm_arch_vcpu_runnable s \<longleftrightarrow> kvm_vcpu_running s \<or> kvm_vcpu_has_events s"

text \<open>\<^verbatim>\<open>dr7\<close> is an \<^verbatim>\<open>unsigned long\<close>, of 32 bits.\<close>

definition kvm_update_dr7 :: "run_state \<Rightarrow> run_state" where
  "kvm_update_dr7 s = (let
       dr7 = (if guest_debug s AND 0x20000 \<noteq> 0 then guest_debug_dr7 s else arch_dr7 s) AND 0xffffffff;
       s = rs_write GUEST_DR7 dr7 s;
       s = s\<lparr>switch_db_regs := switch_db_regs s AND NOT 1\<rparr> in
     if dr7 AND 0xff \<noteq> 0 then s\<lparr>switch_db_regs := switch_db_regs s OR 1\<rparr> else s)"

partial_function (option) enter_loop :: "run_env \<Rightarrow> run_state \<Rightarrow> (fastpath_t \<times> run_state) option" where
  "enter_loop env s = (let (fp, s) = vmx_vcpu_run env s in
     if fp \<noteq> EXIT_FASTPATH_REENTER_GUEST then Some (fp, s)
     else if kvm_vcpu_exit_request s then Some (EXIT_FASTPATH_EXIT_HANDLED, s)
     else enter_loop env (s\<lparr>stat_exits := stat_exits s + 1\<rparr>))"

text \<open>A stub of the source.\<close>

definition vmx_handle_exit_irqoff :: "run_state \<Rightarrow> run_state" where
  [simp]: "vmx_handle_exit_irqoff s = s"

definition vcpu_enter_guest :: "run_env \<Rightarrow> run_state \<Rightarrow> (int \<times> run_state) option" where
  "vcpu_enter_guest env s = do {
     (r, ld) \<leftarrow> kvm_mmu_reload (re_menv env) (re_globals env) (re_kenv env) (re_cap env) (re_params env) (rs_load s);
     let s = s\<lparr>rs_load := ld\<rparr>;
     if r \<noteq> 0 then Some (r, s)
     else do {
       let s = vmx_prepare_switch_to_guest env s;
       (exit_fastpath, s) \<leftarrow> enter_loop env (s\<lparr>in_guest_mode := True\<rparr>);
       let s = (if switch_db_regs s AND 2 \<noteq> 0 then kvm_update_dr7 s else s);
       vmx_handle_exit env exit_fastpath
         ((vmx_handle_exit_irqoff (s\<lparr>last_vmentry_cpu := re_cpu env, in_guest_mode := False\<rparr>))\<lparr>stat_exits := stat_exits s + 1\<rparr>)
     }
   }"

text \<open>\<^verbatim>\<open>kvm_vcpu_halt\<close> and \<^verbatim>\<open>kvm_vcpu_block\<close> return at once.\<close>

definition vcpu_block :: "run_state \<Rightarrow> int \<times> run_state" where
  "vcpu_block s =
     (if \<not> kvm_arch_vcpu_runnable s then (1, s)
      else let s = (if mp_state s = KVM_MP_STATE_HALTED \<or> mp_state s = KVM_MP_STATE_AP_RESET_HOLD
                    then s\<lparr>pv_unhalted := False, mp_state := KVM_MP_STATE_RUNNABLE, apf_halted := False\<rparr>
                    else if mp_state s = KVM_MP_STATE_RUNNABLE then s\<lparr>apf_halted := False\<rparr> else s) in
        (1, s))"

definition vcpu_round :: "run_env \<Rightarrow> run_state \<Rightarrow> (int \<times> run_state) option" where
  "vcpu_round env s = (let s = s\<lparr>at_instruction_boundary := False\<rparr> in
     if kvm_vcpu_running s then vcpu_enter_guest env s else Some (vcpu_block s))"

partial_function (option) vcpu_loop :: "run_env \<Rightarrow> run_state \<Rightarrow> (int \<times> run_state) option" where
  "vcpu_loop env s = do {
     (r, s) \<leftarrow> vcpu_round env s;
     if r \<le> 0 then Some (r, s) else vcpu_loop env s
   }"

definition vcpu_run :: "run_env \<Rightarrow> run_state \<Rightarrow> (int \<times> run_state) option" where
  "vcpu_run env s = vcpu_loop env (s\<lparr>l1tf_flush_l1d := True\<rparr>)"

definition kvm_arch_vcpu_load :: "run_state \<Rightarrow> run_state" where
  "kvm_arch_vcpu_load s = rs_write TSC_OFFSET 0 s"

definition kvm_arch_vcpu_put :: "run_env \<Rightarrow> run_state \<Rightarrow> run_state" where
  "kvm_arch_vcpu_put env s = vmx_prepare_switch_to_host env s"

definition vmx_vcpu_pre_run :: "run_state \<Rightarrow> int" where "vmx_vcpu_pre_run s = 1"

definition kvm_arch_vcpu_ioctl_run :: "run_env \<Rightarrow> run_state \<Rightarrow> (int \<times> run_state) option" where
  "kvm_arch_vcpu_ioctl_run env s = (let
       s = kvm_arch_vcpu_load s;
       s = on_run (\<lambda>r. r\<lparr>run_flags := 0\<rparr>) s;
       r = vmx_vcpu_pre_run s in
     if r \<le> 0 then Some (r, kvm_arch_vcpu_put env s)
     else do {
       (r, s) \<leftarrow> vcpu_run env s;
       Some (r, kvm_arch_vcpu_put env s)
     })"

end
