(* ===== verification/Vcpu_Run_Props.thy ===== *)
theory Vcpu_Run_Props
  imports Vcpu_Run Mmu_Load_Props
begin

text \<open>
  How exits are dispatched, and that running a vCPU returns to user space. A handler answers 1 to resume
  the guest and 0 to leave the loop.
\<close>

section \<open>The handlers\<close>

text \<open>What neither an entry nor a handler that resumes the guest changes.\<close>

definition run_frame :: "run_state \<Rightarrow> run_state \<Rightarrow> bool" where
  "run_frame s t \<longleftrightarrow> ld_kvm (rs_load t) = ld_kvm (rs_load s) \<and> ld_mmu (rs_load t) = ld_mmu (rs_load s) \<and>
     ld_pages (rs_load t) = ld_pages (rs_load s) \<and> vr_hflags (regs_of t) = vr_hflags (regs_of s) \<and> mp_state t = mp_state s \<and>
     apf_halted t = apf_halted s \<and> emulation_required t = emulation_required s \<and> rs_run t = rs_run s"

lemma run_frame_refl: "run_frame s s"
  by (simp add: run_frame_def)

lemma run_frame_trans: "run_frame s t \<Longrightarrow> run_frame t u \<Longrightarrow> run_frame s u"
  by (simp add: run_frame_def)

definition resume_reasons :: "u32 list" where
  "resume_reasons = [1, 7, 8, 19, 20, 21, 22, 23, 24, 25, 26, 27, 37, 41, 43, 50, 53, 58, 59, 60, 62, 75]"

definition silent_reasons :: "u32 list" where
  "silent_reasons = [0, 9, 10, 12, 13, 14, 15, 18, 29, 30, 31, 32, 36, 39, 40, 44, 45, 46, 47, 52, 54, 55, 56, 57, 61]"

definition resumes :: "handler \<Rightarrow> bool" where
  "resumes h \<longleftrightarrow> (\<forall>env s. \<exists>t. h env s = Some (1, t) \<and> run_frame s t \<and> exit_reason t = exit_reason s \<and> entries t = entries s)"

definition stops_silently :: "handler \<Rightarrow> bool" where
  "stops_silently h \<longleftrightarrow> (\<forall>env s. h env s = Some (0, s))"

lemma resuming_handlers [simp]:
  "resumes handle_external_interrupt" "resumes handle_nmi_window" "resumes handle_interrupt_window" "resumes handle_vmx_instruction"
  "resumes handle_tpr_below_threshold" "resumes handle_machine_check" "resumes handle_monitor_trap" "resumes handle_pml_full"
  "resumes handle_invpcid" "resumes handle_encls" "resumes handle_notify"
  by (simp_all add: resumes_def run_frame_def on_regs_def Let_def handle_external_interrupt_def handle_nmi_window_def
      handle_interrupt_window_def handle_vmx_instruction_def handle_tpr_below_threshold_def handle_machine_check_def handle_monitor_trap_def
      handle_pml_full_def handle_invpcid_def handle_encls_def handle_notify_def)

lemma silent_handlers [simp]:
  "stops_silently handle_exception_nmi" "stops_silently handle_task_switch" "stops_silently kvm_emulate_cpuid" "stops_silently kvm_emulate_halt"
  "stops_silently kvm_emulate_invd" "stops_silently handle_invlpg" "stops_silently kvm_emulate_rdpmc" "stops_silently kvm_emulate_hypercall"
  "stops_silently handle_dr" "stops_silently handle_io" "stops_silently kvm_emulate_rdmsr" "stops_silently kvm_emulate_wrmsr"
  "stops_silently kvm_emulate_mwait" "stops_silently kvm_emulate_monitor" "stops_silently handle_pause" "stops_silently handle_apic_access"
  "stops_silently handle_apic_eoi_induced" "stops_silently handle_desc" "stops_silently handle_preemption_timer"
  "stops_silently kvm_emulate_wbinvd" "stops_silently kvm_emulate_xsetbv" "stops_silently handle_apic_write" "stops_silently kvm_handle_invalid_op"
  by (simp_all add: stops_silently_def handle_exception_nmi_def handle_task_switch_def kvm_emulate_cpuid_def kvm_emulate_halt_def
      kvm_emulate_invd_def handle_invlpg_def kvm_emulate_rdpmc_def kvm_emulate_hypercall_def handle_dr_def handle_io_def
      kvm_emulate_rdmsr_def kvm_emulate_wrmsr_def kvm_emulate_mwait_def kvm_emulate_monitor_def handle_pause_def handle_apic_access_def
      handle_apic_eoi_induced_def handle_desc_def handle_preemption_timer_def kvm_emulate_wbinvd_def kvm_emulate_xsetbv_def
      handle_apic_write_def kvm_handle_invalid_op_def)

lemma table_kinds:
  "\<forall>(w, h) \<in> set exit_handler_table. (w \<in> set resume_reasons \<longrightarrow> resumes h) \<and> (w \<in> set silent_reasons \<longrightarrow> stops_silently h)"
  by (simp add: exit_handler_table_def resume_reasons_def silent_reasons_def)

lemma table_keys: "fst ` set exit_handler_table = set resume_reasons \<union> set silent_reasons \<union> {2, 28, 48, 49, 74}"
  by (simp add: exit_handler_table_def resume_reasons_def silent_reasons_def insert_commute)

lemma table_rest:
  "kvm_vmx_exit_handlers 2 = Some handle_triple_fault" "kvm_vmx_exit_handlers 28 = Some handle_cr_exit"
  "kvm_vmx_exit_handlers 74 = Some handle_bus_lock_vmexit"
  by (simp_all add: kvm_vmx_exit_handlers_def exit_handler_table_def)

lemma handler_of:
  assumes "w \<in> set resume_reasons \<union> set silent_reasons"
  obtains h where "kvm_vmx_exit_handlers w = Some h" "w \<in> set resume_reasons \<Longrightarrow> resumes h" "w \<in> set silent_reasons \<Longrightarrow> stops_silently h"
proof -
  have "w \<in> fst ` set exit_handler_table" using assms table_keys by auto
  then obtain h where h: "kvm_vmx_exit_handlers w = Some h"
    unfolding kvm_vmx_exit_handlers_def by (metis map_of_eq_None_iff option.exhaust)
  then have "(w, h) \<in> set exit_handler_table" unfolding kvm_vmx_exit_handlers_def by (rule map_of_SomeD)
  with table_kinds h show thesis by (intro that) auto
qed

lemma no_handler: "w \<notin> set resume_reasons \<union> set silent_reasons \<union> {2, 28, 48, 49, 74} \<Longrightarrow> kvm_vmx_exit_handlers w = None"
  unfolding kvm_vmx_exit_handlers_def map_of_eq_None_iff table_keys by simp

section \<open>Dispatch\<close>

text \<open>What becomes of an exit, by whether the entry failed and the exit reason.\<close>

datatype exit_class = Entry_Failed | Unexpected | Resumed | Silent | Shutdown | Bus_Lock | Control_Register | Fault | Null_Call

definition classify :: "bool \<Rightarrow> u32 \<Rightarrow> exit_class" where
  "classify fail w = (let b = er_basic w in
     if er_failed_vmentry w \<or> fail then Entry_Failed
     else if 76 \<le> b then Unexpected
     else if b \<in> set resume_reasons then Resumed
     else if b \<in> set silent_reasons then Silent
     else if b = 2 then Shutdown
     else if b = 74 then Bus_Lock
     else if b = 28 then Control_Register
     else if b = 48 \<or> b = 49 then Fault
     else Null_Call)"

definition entry_failure :: "run_state \<Rightarrow> u64" where
  "entry_failure s = (if er_failed_vmentry (exit_reason s) then ucast (exit_reason s) else ucast (vmcs_read32 s VM_INSTRUCTION_ERROR))"

definition bus_lock_exit :: "run_state \<Rightarrow> run_state" where
  "bus_lock_exit s = on_run (\<lambda>r. r\<lparr>run_exit_reason := KVM_EXIT_X86_BUS_LOCK, run_flags := run_flags r OR KVM_RUN_X86_BUS_LOCK\<rparr>)
     (s\<lparr>exit_reason := set_bit 26 (exit_reason s)\<rparr>)"

lemma raw_exit_classified:
  assumes "\<not> vr_is_guest_mode (regs_of s)"
  shows "raw_vmx_handle_exit env EXIT_FASTPATH_NONE s =
    (case classify (vmx_fail s) (exit_reason s) of
       Entry_Failed \<Rightarrow> Some (0, fail_entry (entry_failure s) s)
     | Unexpected \<Rightarrow> Some (0, unexpected_vmexit s)
     | _ \<Rightarrow> (case kvm_vmx_exit_handlers (er_basic (exit_reason s)) of None \<Rightarrow> None | Some h \<Rightarrow> h env s))"
  using assms by (simp add: raw_vmx_handle_exit_def classify_def entry_failure_def kvm_vmx_max_exit_handlers_def Let_def not_le [symmetric])

lemma bit_set_26: "bit (set_bit 26 (w :: u32)) 26"
  by (simp add: bit_set_bit_iff)

lemma handle_cr_zero: "fst (handle_cr p r) = 0"
  by (simp add: handle_cr_def Let_def split_beta)

lemma fault_keeps_reason:
  "handle_ept_violation env s = Some (r, t) \<Longrightarrow> exit_reason t = exit_reason s"
  "handle_ept_misconfig env s = Some (r, t) \<Longrightarrow> exit_reason t = exit_reason s"
  by (auto simp: handle_ept_violation_def handle_ept_misconfig_def call_page_fault_def on_regs_def Let_def split_beta bind_eq_Some_conv
      split: if_splits)

lemma no_bus_lock_exit:
  assumes "\<And>r t. x = Some (r, t) \<Longrightarrow> \<not> er_bus_lock_detected (exit_reason t)"
    and "raw_vmx_handle_exit env fp s = x"
  shows "vmx_handle_exit env fp s = x"
  using assms by (cases x) (auto simp: vmx_handle_exit_def)

lemma keeps_reason [simp]:
  "exit_reason (fail_entry w s) = exit_reason s" "exit_reason (unexpected_vmexit s) = exit_reason s"
  "exit_reason (on_run f s) = exit_reason s" "exit_reason (on_regs g s) = exit_reason s"
  by (simp_all add: fail_entry_def unexpected_vmexit_def on_run_def on_regs_def)

lemma dispatched:
  assumes "\<not> vr_is_guest_mode (regs_of s)" and "\<not> er_bus_lock_detected (exit_reason s)"
  shows "case classify (vmx_fail s) (exit_reason s) of
      Entry_Failed \<Rightarrow> vmx_handle_exit env EXIT_FASTPATH_NONE s = Some (0, fail_entry (entry_failure s) s)
    | Unexpected \<Rightarrow> vmx_handle_exit env EXIT_FASTPATH_NONE s = Some (0, unexpected_vmexit s)
    | Resumed \<Rightarrow> \<exists>t. vmx_handle_exit env EXIT_FASTPATH_NONE s = Some (1, t) \<and> run_frame s t \<and> entries t = entries s
    | Silent \<Rightarrow> vmx_handle_exit env EXIT_FASTPATH_NONE s = Some (0, s)
    | Shutdown \<Rightarrow> vmx_handle_exit env EXIT_FASTPATH_NONE s = Some (0, on_run (\<lambda>r. r\<lparr>run_exit_reason := KVM_EXIT_SHUTDOWN\<rparr>) s)
    | Bus_Lock \<Rightarrow> vmx_handle_exit env EXIT_FASTPATH_NONE s = Some (0, bus_lock_exit s)
    | Control_Register \<Rightarrow> vmx_handle_exit env EXIT_FASTPATH_NONE s = Some (0, on_regs (\<lambda>r. snd (handle_cr (re_params env) r)) s)
    | Fault \<Rightarrow> vmx_handle_exit env EXIT_FASTPATH_NONE s =
        (if er_basic (exit_reason s) = 48 then handle_ept_violation env s else handle_ept_misconfig env s)
    | Null_Call \<Rightarrow> vmx_handle_exit env EXIT_FASTPATH_NONE s = None"
proof -
  let ?w = "exit_reason s"
  note raw = raw_exit_classified [OF assms(1), of env]
  have none: "vmx_handle_exit env EXIT_FASTPATH_NONE s = x" if "raw_vmx_handle_exit env EXIT_FASTPATH_NONE s = x"
      "\<And>r t. x = Some (r, t) \<Longrightarrow> exit_reason t = ?w" for x
    by (rule no_bus_lock_exit [OF _ that(1)]) (simp add: that(2) assms(2))
  show ?thesis
  proof (cases "classify (vmx_fail s) ?w")
    case Resumed
    then have r: "er_basic ?w \<in> set resume_reasons" by (auto simp: classify_def Let_def split: if_splits)
    obtain h where h: "kvm_vmx_exit_handlers (er_basic ?w) = Some h" "resumes h" using handler_of [of "er_basic ?w"] r by auto
    then obtain t where "h env s = Some (1, t)" "run_frame s t" "exit_reason t = ?w" "entries t = entries s" unfolding resumes_def by metis
    then show ?thesis using none [of "Some (1, t)"] raw Resumed h(1) by simp
  next
    case Silent
    then have r: "er_basic ?w \<in> set silent_reasons" by (auto simp: classify_def Let_def split: if_splits)
    obtain h where "kvm_vmx_exit_handlers (er_basic ?w) = Some h" "stops_silently h" using handler_of [of "er_basic ?w"] r by auto
    moreover from this(2) have "h env s = Some (0, s)" by (simp add: stops_silently_def)
    ultimately have "raw_vmx_handle_exit env EXIT_FASTPATH_NONE s = Some (0, s)" using raw Silent by simp
    then show ?thesis using none Silent by simp
  next
    case Shutdown
    then have "er_basic ?w = 2" by (auto simp: classify_def Let_def split: if_splits)
    then show ?thesis using none [of "handle_triple_fault env s"] raw Shutdown table_rest by (simp add: handle_triple_fault_def)
  next
    case Bus_Lock
    then have "er_basic ?w = 74" by (auto simp: classify_def Let_def split: if_splits)
    then have "raw_vmx_handle_exit env EXIT_FASTPATH_NONE s = Some (1, s\<lparr>exit_reason := set_bit 26 ?w\<rparr>)"
      using raw Bus_Lock table_rest(3) by (simp add: handle_bus_lock_vmexit_def)
    moreover have "er_bus_lock_detected (set_bit 26 ?w)" unfolding er_bus_lock_detected_def by (rule bit_set_26)
    ultimately have "vmx_handle_exit env EXIT_FASTPATH_NONE s = Some (0, bus_lock_exit s)"
      by (simp add: vmx_handle_exit_def bus_lock_exit_def on_run_def)
    then show ?thesis using Bus_Lock by simp
  next
    case Control_Register
    then have "er_basic ?w = 28" by (auto simp: classify_def Let_def split: if_splits)
    moreover have "handle_cr_exit env s = Some (0, on_regs (\<lambda>r. snd (handle_cr (re_params env) r)) s)"
      using handle_cr_zero [of "re_params env" "regs_of s"] by (simp add: handle_cr_exit_def split_beta on_regs_def)
    ultimately show ?thesis using none [of "handle_cr_exit env s"] raw Control_Register table_rest by simp
  next
    case Fault
    then have b: "er_basic ?w = 48 \<or> er_basic ?w = 49" by (auto simp: classify_def Let_def split: if_splits)
    define x where "x = (if er_basic ?w = 48 then handle_ept_violation env s else handle_ept_misconfig env s)"
    have "raw_vmx_handle_exit env EXIT_FASTPATH_NONE s = x"
      using raw Fault b by (auto simp: x_def kvm_vmx_exit_handlers_def exit_handler_table_def)
    then have "vmx_handle_exit env EXIT_FASTPATH_NONE s = x"
      by (rule none) (auto simp: x_def fault_keeps_reason split: if_splits)
    then show ?thesis using Fault by (simp add: x_def)
  next
    case Null_Call
    then have "kvm_vmx_exit_handlers (er_basic ?w) = None" by (intro no_handler) (auto simp: classify_def Let_def split: if_splits)
    then show ?thesis using none [of None] raw Null_Call by simp
  qed (use raw none in simp_all)
qed

text \<open>
  C37: for a guest that is not nested, what \<^verbatim>\<open>vmx_handle_exit\<close> does is determined by the outcome of
  the entry and the exit reason: a failed entry and a reason beyond the table are reported to user space;
  22 reasons resume the guest and leave the memory and what user space sees alone; 25 reasons return to
  user space without any word on why; a triple fault and a bus lock are reported; and for the 24 reasons
  below 76 that have no entry in the table the driver calls through a NULL pointer.
\<close>

theorem exit_dispatch:
  assumes "\<not> vr_is_guest_mode (regs_of s)" and "\<not> er_bus_lock_detected (exit_reason s)"
  shows "case classify (vmx_fail s) (exit_reason s) of
      Entry_Failed \<Rightarrow> vmx_handle_exit env EXIT_FASTPATH_NONE s = Some (0, fail_entry (entry_failure s) s)
    | Unexpected \<Rightarrow> vmx_handle_exit env EXIT_FASTPATH_NONE s = Some (0, unexpected_vmexit s)
    | Resumed \<Rightarrow> \<exists>t. vmx_handle_exit env EXIT_FASTPATH_NONE s = Some (1, t) \<and> run_frame s t \<and> entries t = entries s
    | Silent \<Rightarrow> vmx_handle_exit env EXIT_FASTPATH_NONE s = Some (0, s)
    | Shutdown \<Rightarrow> vmx_handle_exit env EXIT_FASTPATH_NONE s = Some (0, on_run (\<lambda>r. r\<lparr>run_exit_reason := KVM_EXIT_SHUTDOWN\<rparr>) s)
    | Bus_Lock \<Rightarrow> vmx_handle_exit env EXIT_FASTPATH_NONE s = Some (0, bus_lock_exit s)
    | Control_Register \<Rightarrow> vmx_handle_exit env EXIT_FASTPATH_NONE s = Some (0, on_regs (\<lambda>r. snd (handle_cr (re_params env) r)) s)
    | Fault \<Rightarrow> vmx_handle_exit env EXIT_FASTPATH_NONE s =
        (if er_basic (exit_reason s) = 48 then handle_ept_violation env s else handle_ept_misconfig env s)
    | Null_Call \<Rightarrow> vmx_handle_exit env EXIT_FASTPATH_NONE s = None"
  by (rule dispatched [OF assms])

section \<open>One entry\<close>

text \<open>What user space and the dispatch see of an entry: whether it failed, and the exit reason.\<close>

definition outcome :: "bool \<times> u64 \<times> (u32 \<Rightarrow> u64) \<Rightarrow> bool \<times> u32" where
  "outcome g = (fst g, if fst g then 0xdead else ucast (snd (snd g) VM_EXIT_REASON))"

definition can_end_in :: "run_env \<Rightarrow> nat \<Rightarrow> bool \<Rightarrow> u32 \<Rightarrow> bool" where
  "can_end_in env i fail w \<longleftrightarrow> (\<exists>flags cr2 vmcs. outcome (re_guest env i flags cr2 vmcs) = (fail, w))"

lemma frame_simps [simp]:
  "run_frame s (on_regs f s') \<longleftrightarrow> run_frame s s'" if "\<And>r. vr_hflags (f r) = vr_hflags r"
  using that by (simp add: run_frame_def on_regs_def)

lemma enter_exit_spec:
  assumes "t = vmx_vcpu_enter_exit env flags s"
  shows "run_frame s t" "entries t = Suc (entries s)" "can_end_in env (entries s) (vmx_fail t) (exit_reason t)"
proof -
  let ?s = "rs_write GUEST_RSP (re_guest_stack env) s"
  obtain fail cr2 vmcs where g: "re_guest env (entries s) flags (arch_cr2 s) (rs_vmcs ?s) = (fail, cr2, vmcs)" by (metis prod_cases3)
  have e: "entries ?s = entries s" "arch_cr2 ?s = arch_cr2 s" by (simp_all add: rs_write_def on_regs_def)
  define u where "u = on_regs (\<lambda>r. r\<lparr>vr_vmcs := vmcs\<rparr>) ?s\<lparr>entries := Suc (entries s), vmx_fail := fail, arch_cr2 := cr2\<rparr>"
  define v where "v = u\<lparr>exit_reason := (if fail then 0xdead else vmcs_read32 u VM_EXIT_REASON)\<rparr>"
  have t: "t = (if er_basic (exit_reason v) = 0 then snd (vmx_get_intr_info v) else v)"
    unfolding assms vmx_vcpu_enter_exit_def Let_def using g e by (simp add: v_def u_def)
  have i: "run_frame v (snd (vmx_get_intr_info v))" "entries (snd (vmx_get_intr_info v)) = entries v"
      "vmx_fail (snd (vmx_get_intr_info v)) = vmx_fail v" "exit_reason (snd (vmx_get_intr_info v)) = exit_reason v"
    by (simp_all add: vmx_get_intr_info_def Let_def kvm_register_test_and_mark_available_def kvm_register_mark_available_def on_regs_def run_frame_def)
  have v: "run_frame s v" "entries v = Suc (entries s)" "vmx_fail v = fail" "exit_reason v = snd (outcome (fail, cr2, vmcs))"
    by (simp_all add: v_def u_def on_regs_def rs_write_def vr_write_def run_frame_def outcome_def vmcs_read32_def rs_vmcs_def)
  then show "run_frame s t" "entries t = Suc (entries s)" using i unfolding t by (auto intro: run_frame_trans)
  have "outcome (re_guest env (entries s) flags (arch_cr2 s) (rs_vmcs ?s)) = (vmx_fail t, exit_reason t)"
    using v i unfolding t g by (simp add: outcome_def)
  then show "can_end_in env (entries s) (vmx_fail t) (exit_reason t)" unfolding can_end_in_def by blast
qed

lemma vmx_vcpu_run_spec:
  assumes "\<not> emulation_required s" "vmx_vcpu_run env s = (fp, t)"
  shows "fp = EXIT_FASTPATH_NONE" "run_frame s t" "entries t = Suc (entries s)" "can_end_in env (entries s) (vmx_fail t) (exit_reason t)"
proof -
  define s1 where "s1 = on_regs (\<lambda>r. r\<lparr>regs_dirty := 0\<rparr>) s"
  define s2 where "s2 = (if re_cr3 env \<noteq> hs_cr3 (rs_host s1)
    then (rs_write HOST_CR3 (re_cr3 env) s1)\<lparr>rs_host := (rs_host s1)\<lparr>hs_cr3 := re_cr3 env\<rparr>\<rparr> else s1)"
  define s3 where "s3 = (if re_cr4 env \<noteq> hs_cr4 (rs_host s2)
    then (rs_write HOST_CR4 (re_cr4 env) s2)\<lparr>rs_host := (rs_host s2)\<lparr>hs_cr4 := re_cr4 env\<rparr>\<rparr> else s2)"
  define s4 where "s4 = vmx_vcpu_enter_exit env (raw_vmx_vcpu_run_flags s3) s3"
  have s3: "run_frame s s3" "entries s3 = entries s"
    by (simp_all add: s3_def s2_def s1_def run_frame_def on_regs_def rs_write_def vr_write_def)
  note s4 = enter_exit_spec [OF s4_def]
  have "fp = EXIT_FASTPATH_NONE \<and> run_frame s4 t \<and> entries t = entries s4 \<and> vmx_fail t = vmx_fail s4 \<and> exit_reason t = exit_reason s4"
    using assms unfolding vmx_vcpu_run_def Let_def s1_def [symmetric] s2_def [symmetric] s3_def [symmetric] s4_def [symmetric]
    by (auto simp: run_frame_def on_regs_def vmx_exit_handlers_fastpath_def handle_fastpath_set_msr_irqoff_def
        handle_fastpath_preemption_timer_def split: if_splits)
  then show "fp = EXIT_FASTPATH_NONE" "run_frame s t" "entries t = Suc (entries s)" "can_end_in env (entries s) (vmx_fail t) (exit_reason t)"
    using s3 s4 by (auto intro: run_frame_trans)
qed

section \<open>One round\<close>

text \<open>The reference counts of the roots are so far from wrapping around that \<open>m\<close> more references can be taken.\<close>

definition root_slack :: "mmu_state \<Rightarrow> nat \<Rightarrow> bool" where
  "root_slack s m \<longleftrightarrow> m + 2 < 2 ^ 32 \<and> (\<forall>r\<in>set (tdp_mmu_roots s). count_at s r + m < 2 ^ 32)"

lemma took_root_slack:
  assumes "took_root s role root t" "roots_live s" "root_slack s (Suc m)"
  shows "roots_live t \<and> root_slack t m"
proof -
  have u: "unat (c + 1) = unat c + 1" if "unat c + Suc m < 2 ^ 32" for c :: u32
    using that unat_add_lem [of c 1] by simp
  have old: "count_at t r = count_at s r" "sp_heap t r = sp_heap s r" if "r \<noteq> root" for r
    using assms(1) that by (auto simp: took_root_def count_at_def split: if_splits)
  have new: "count_at t root = 2 \<or> root \<in> set (tdp_mmu_roots s) \<and> count_at t root = count_at s root + 1"
  proof (cases "\<exists>r\<in>set (tdp_mmu_roots s). key_at s r = root_key role")
    case True
    then have "root \<in> set (tdp_mmu_roots s)" "sp_root_count (the (sp_heap t root)) = sp_root_count (the (sp_heap s root)) + 1"
      using assms(1) by (simp_all add: took_root_def)
    then show ?thesis using u [of "sp_root_count (the (sp_heap s root))"] assms(3) by (auto simp: count_at_def root_slack_def)
  next
    case False
    then show ?thesis using assms(1) by (simp add: took_root_def count_at_def)
  qed
  have c: "r \<noteq> 0 \<and> sp_heap t r \<noteq> None \<and> count_at t r \<noteq> 0 \<and> count_at t r + m < 2 ^ 32" if r: "r \<in> set (tdp_mmu_roots t)" for r
  proof (cases "r = root")
    case True
    have "root \<noteq> 0" "sp_heap t root \<noteq> None" using assms(1) by (simp_all add: took_root_def)
    moreover have "count_at t root \<noteq> 0 \<and> count_at t root + m < 2 ^ 32" using new assms(3) by (auto simp: root_slack_def)
    ultimately show ?thesis using True by simp
  next
    case False
    then have "r \<in> set (tdp_mmu_roots s)" using assms(1) r by (auto simp: took_root_def split: if_splits)
    then have "r \<noteq> 0 \<and> sp_heap s r \<noteq> None \<and> count_at s r \<noteq> 0 \<and> count_at s r + Suc m < 2 ^ 32"
      using assms(2,3) unfolding roots_live_def root_slack_def by blast
    then show ?thesis using old [OF False] by simp
  qed
  then show ?thesis using assms(3) by (simp add: roots_live_def root_slack_def)
qed

definition run_ready :: "run_env \<Rightarrow> run_state \<Rightarrow> nat \<Rightarrow> bool" where
  "run_ready env s m \<longleftrightarrow> kvm_vcpu_running s \<and> \<not> emulation_required s \<and> \<not> vr_is_guest_mode (regs_of s) \<and>
     load_ready (re_menv env) (re_globals env) (re_params env) (rs_load s) \<and> root_slack (ld_pages (rs_load s)) m"

lemma run_ready_frame: "run_frame s t \<Longrightarrow> run_ready env s m \<Longrightarrow> run_ready env t m"
  by (simp add: run_ready_def run_frame_def kvm_vcpu_running_def vr_is_guest_mode_def load_ready_def)

lemma prepare_frame: "run_frame s (vmx_prepare_switch_to_guest env s)" "entries (vmx_prepare_switch_to_guest env s) = entries s"
  by (simp_all add: vmx_prepare_switch_to_guest_def vmx_set_host_fs_gs_def Let_def run_frame_def rs_write_def on_regs_def vr_write_def)

lemma dr7_frame: "run_frame s (kvm_update_dr7 s)" "entries (kvm_update_dr7 s) = entries s" "exit_reason (kvm_update_dr7 s) = exit_reason s"
    "vmx_fail (kvm_update_dr7 s) = vmx_fail s"
  by (simp_all add: kvm_update_dr7_def Let_def run_frame_def rs_write_def on_regs_def vr_write_def)

definition exits_as :: "run_env \<Rightarrow> nat \<Rightarrow> exit_class set \<Rightarrow> bool" where
  "exits_as env i C \<longleftrightarrow> (\<forall>fail w. can_end_in env i fail w \<longrightarrow> \<not> er_bus_lock_detected w \<and> classify fail w \<in> C)"

definition leaving :: "exit_class set" where
  "leaving = {Entry_Failed, Unexpected, Silent, Shutdown, Bus_Lock, Control_Register}"

lemma enter_loop_once:
  assumes "\<not> emulation_required s" "vmx_vcpu_run env s = (fp, t)"
  shows "enter_loop env s = Some (fp, t)"
  using assms(2) vmx_vcpu_run_spec(1) [OF assms] by (subst enter_loop.simps) simp

lemma left_guest:
  assumes "run_ready env s (Suc m)"
  obtains (failed) t where "vcpu_round env s = Some (STATUS_NO_MEMORY, t)" "entries t = entries s"
  | (exited) u where "vcpu_round env s = vmx_handle_exit env EXIT_FASTPATH_NONE u" "run_ready env u m" "entries u = Suc (entries s)"
      "can_end_in env (entries s) (vmx_fail u) (exit_reason u)"
proof -
  define s0 where "s0 = s\<lparr>at_instruction_boundary := False\<rparr>"
  have run0: "run_ready env s0 (Suc m)" and e0: "entries s0 = entries s"
    using assms by (simp_all add: s0_def run_ready_def kvm_vcpu_running_def)
  then have ready: "load_ready (re_menv env) (re_globals env) (re_params env) (rs_load s0)" and k: "kvm_vcpu_running s0"
    by (simp_all add: run_ready_def)
  have round: "vcpu_round env s = vcpu_enter_guest env s0" using k by (simp add: vcpu_round_def s0_def)
  show thesis
  proof (rule kvm_mmu_load_spec [OF ready, of "re_kenv env" "re_cap env"])
    fix t assume "kvm_mmu_load (re_menv env) (re_globals env) (re_kenv env) (re_cap env) (re_params env) (rs_load s0) = Some (STATUS_NO_MEMORY, t)"
    then have "vcpu_round env s = Some (STATUS_NO_MEMORY, s0\<lparr>rs_load := t\<rparr>)"
      unfolding round by (simp add: vcpu_enter_guest_def kvm_mmu_reload_def status_defs)
    then show thesis by (rule failed) (simp add: e0)
  next
    fix root ld
    assume load: "kvm_mmu_load (re_menv env) (re_globals env) (re_kenv env) (re_cap env) (re_params env) (rs_load s0) = Some (0, ld)"
      and took: "took_root (ld_pages (rs_load s0)) (root_role (ld_mmu (rs_load s0))) root (ld_pages ld)" "caches_wf (ld_pages ld)"
        "ld_kvm ld = ld_kvm (rs_load s0)" "root_role (ld_mmu ld) = root_role (ld_mmu (rs_load s0))" "vr_hflags (ld_regs ld) = vr_hflags (regs_of s0)"
    define s1 where "s1 = (vmx_prepare_switch_to_guest env (s0\<lparr>rs_load := ld\<rparr>))\<lparr>in_guest_mode := True\<rparr>"
    have "roots_live (ld_pages ld) \<and> root_slack (ld_pages ld) m"
      using took(1) run0 by (intro took_root_slack) (auto simp: run_ready_def load_ready_def)
    then have "run_ready env (s0\<lparr>rs_load := ld\<rparr>) m"
      using run0 took by (simp add: run_ready_def load_ready_def kvm_vcpu_running_def vr_is_guest_mode_def)
    then have "run_ready env (vmx_prepare_switch_to_guest env (s0\<lparr>rs_load := ld\<rparr>)) m" by (rule run_ready_frame [OF prepare_frame(1)])
    then have s1: "run_ready env s1 m" "entries s1 = entries s"
      using prepare_frame(2) e0 by (simp_all add: s1_def run_ready_def kvm_vcpu_running_def)
    obtain fp t where run: "vmx_vcpu_run env s1 = (fp, t)" by force
    have em: "\<not> emulation_required s1" using s1(1) by (simp add: run_ready_def)
    note t = vmx_vcpu_run_spec [OF em run]
    define u1 where "u1 = (if switch_db_regs t AND 2 \<noteq> 0 then kvm_update_dr7 t else t)"
    have u1: "run_frame t u1" "entries u1 = entries t" "exit_reason u1 = exit_reason t" "vmx_fail u1 = vmx_fail t"
      using dr7_frame run_frame_refl by (simp_all add: u1_def)
    define u where "u = u1\<lparr>last_vmentry_cpu := re_cpu env, in_guest_mode := False, stat_exits := stat_exits u1 + 1\<rparr>"
    have "vcpu_round env s = vmx_handle_exit env EXIT_FASTPATH_NONE u"
      unfolding round using load enter_loop_once [OF em run] t(1)
      by (simp add: vcpu_enter_guest_def kvm_mmu_reload_def Let_def s1_def [symmetric] u1_def [symmetric] u_def)
    moreover have "run_frame s1 u" using run_frame_trans [OF t(2) u1(1)] by (simp add: u_def run_frame_def)
    then have "run_ready env u m" using s1(1) by (rule run_ready_frame)
    ultimately show thesis using t(3,4) s1(2) u1 by (intro exited [of u]) (simp_all add: u_def)
  qed
qed

lemma round_resumes:
  assumes "run_ready env s (Suc m)" "exits_as env (entries s) {Resumed}"
  shows "(\<exists>t. vcpu_round env s = Some (STATUS_NO_MEMORY, t) \<and> entries t = entries s) \<or>
    (\<exists>t. vcpu_round env s = Some (1, t) \<and> run_ready env t m \<and> entries t = Suc (entries s))"
proof (rule left_guest [OF assms(1)])
  fix u assume u: "vcpu_round env s = vmx_handle_exit env EXIT_FASTPATH_NONE u" "run_ready env u m" "entries u = Suc (entries s)"
    "can_end_in env (entries s) (vmx_fail u) (exit_reason u)"
  have c: "classify (vmx_fail u) (exit_reason u) = Resumed" "\<not> er_bus_lock_detected (exit_reason u)"
    using u(4) assms(2) by (auto simp: exits_as_def)
  have "\<not> vr_is_guest_mode (regs_of u)" using u(2) by (simp add: run_ready_def)
  from dispatched [OF this c(2), of env] c(1) obtain t where "vmx_handle_exit env EXIT_FASTPATH_NONE u = Some (1, t)" "run_frame u t" "entries t = entries u"
    by auto
  then show ?thesis using u run_ready_frame [of u t env m] by auto
qed simp

lemma round_leaves:
  assumes "run_ready env s (Suc m)" "exits_as env (entries s) leaving"
  shows "(\<exists>t. vcpu_round env s = Some (STATUS_NO_MEMORY, t) \<and> entries t = entries s) \<or>
    (\<exists>t. vcpu_round env s = Some (0, t) \<and> entries t = Suc (entries s))"
proof (rule left_guest [OF assms(1)])
  fix u assume u: "vcpu_round env s = vmx_handle_exit env EXIT_FASTPATH_NONE u" "run_ready env u m" "entries u = Suc (entries s)"
    "can_end_in env (entries s) (vmx_fail u) (exit_reason u)"
  have c: "classify (vmx_fail u) (exit_reason u) \<in> leaving" "\<not> er_bus_lock_detected (exit_reason u)"
    using u(4) assms(2) by (auto simp: exits_as_def)
  have "\<not> vr_is_guest_mode (regs_of u)" using u(2) by (simp add: run_ready_def)
  from dispatched [OF this c(2), of env] c(1) have "\<exists>t. vmx_handle_exit env EXIT_FASTPATH_NONE u = Some (0, t) \<and> entries t = entries u"
    by (auto simp: leaving_def fail_entry_def unexpected_vmexit_def bus_lock_exit_def on_run_def on_regs_def)
  then show ?thesis using u by auto
qed simp

section \<open>The loop\<close>

lemma loop_returns:
  assumes "run_ready env s (Suc n)" "\<forall>i<n. exits_as env (entries s + i) {Resumed}" "exits_as env (entries s + n) leaving"
  shows "\<exists>r t. vcpu_loop env s = Some (r, t) \<and> (r = STATUS_NO_MEMORY \<or> r = 0 \<and> entries t = entries s + n + 1)"
  using assms
proof (induction n arbitrary: s)
  case 0
  then show ?case using round_leaves [of env s 0] by (subst vcpu_loop.simps) (auto simp: status_defs)
next
  case (Suc n)
  have "exits_as env (entries s) {Resumed}" using Suc.prems(2) by (metis add.right_neutral zero_less_Suc)
  from round_resumes [OF Suc.prems(1) this] show ?case
  proof (elim disjE exE conjE)
    fix t assume "vcpu_round env s = Some (STATUS_NO_MEMORY, t)"
    then show ?thesis by (subst vcpu_loop.simps) (simp add: status_defs)
  next
    fix t assume t: "vcpu_round env s = Some (1, t)" "run_ready env t (Suc n)" "entries t = Suc (entries s)"
    have "\<forall>i<n. exits_as env (entries t + i) {Resumed}" "exits_as env (entries t + n) leaving"
      using Suc.prems(2,3) unfolding t(3) by auto
    from Suc.IH [OF t(2) this] show ?thesis using t(1,3) by (subst vcpu_loop.simps) simp
  qed
qed

text \<open>
  C38: a runnable vCPU whose MMU is ready, and whose guest resumes after its first n exits (interrupts,
  windows and the like) and then leaves with anything but a page fault or a reason the driver has no
  handler for, is run by \<^verbatim>\<open>vcpu_run\<close> until it leaves: the call returns 0 after exactly n + 1 entries,
  or earlier with STATUS_NO_MEMORY when the caches of the MMU cannot be filled.
\<close>

theorem vcpu_run_returns:
  assumes "run_ready env s (Suc n)" "\<forall>i<n. exits_as env (entries s + i) {Resumed}" "exits_as env (entries s + n) leaving"
  shows "\<exists>r t. vcpu_run env s = Some (r, t) \<and> (r = STATUS_NO_MEMORY \<or> r = 0 \<and> entries t = entries s + n + 1)"
proof -
  have "run_ready env (s\<lparr>l1tf_flush_l1d := True\<rparr>) (Suc n)" using assms(1) by (simp add: run_ready_def kvm_vcpu_running_def)
  from loop_returns [OF this] assms(2,3) show ?thesis by (simp add: vcpu_run_def)
qed

text \<open>A vCPU that is not runnable is not blocked: the loop spins for ever.\<close>

lemma idle_round: "\<not> kvm_vcpu_running s \<Longrightarrow> vcpu_round env s = Some (1, s\<lparr>at_instruction_boundary := False\<rparr>)"
  by (auto simp: vcpu_round_def vcpu_block_def kvm_arch_vcpu_runnable_def kvm_vcpu_has_events_def kvm_vcpu_running_def)

lemma idle_vcpu_spins:
  assumes "\<not> kvm_vcpu_running s"
  shows "vcpu_run env s = None"
proof -
  have "kvm_vcpu_running s" if run: "vcpu_loop env s = Some r" for s r
  proof (rule vcpu_loop.raw_induct [where P = "\<lambda>_ s _. kvm_vcpu_running s", OF _ run], rule ccontr)
    fix loop env s r
    assume h: "\<And>env s y. loop env s = Some y \<Longrightarrow> kvm_vcpu_running s"
      and run: "vcpu_round env s \<bind> (\<lambda>(r, s). if r \<le> 0 then Some (r, s) else loop env s) = Some r" and "\<not> kvm_vcpu_running s"
    then have "kvm_vcpu_running (s\<lparr>at_instruction_boundary := False\<rparr>)" using idle_round [of s env] by auto
    then show False using \<open>\<not> kvm_vcpu_running s\<close> by (simp add: kvm_vcpu_running_def)
  qed
  moreover have "\<not> kvm_vcpu_running (s\<lparr>l1tf_flush_l1d := True\<rparr>)" using assms by (simp add: kvm_vcpu_running_def)
  ultimately show ?thesis unfolding vcpu_run_def by (meson not_Some_eq)
qed

section \<open>A small machine\<close>

text \<open>The guest is interrupted once and then halts.\<close>

definition demo_guest :: "nat \<Rightarrow> u32 \<Rightarrow> u64 \<Rightarrow> (u32 \<Rightarrow> u64) \<Rightarrow> bool \<times> u64 \<times> (u32 \<Rightarrow> u64)" where
  "demo_guest i flags cr2 vmcs = (False, cr2, vmcs(VM_EXIT_REASON := (if i = 0 then 1 else 12)))"

definition demo_run_env :: run_env where
  "demo_run_env = \<lparr>re_menv = load_env, re_pf = demo_pf, re_kenv = demo_env, re_globals = tdp_globals, re_cap = \<lparr>cap_ept = 0, cap_vpid = 0\<rparr>,
     re_params = ept_params, re_inhibit = 0, re_iter0 = undefined, re_cpu = 0, re_cr3 = 0, re_cr4 = 0, re_fs = 0, re_gs = 0,
     re_fs_base = 0, re_gs_base = 0, re_kernel_gs_base = 0, re_guest_stack = 0x8000, re_guest = demo_guest\<rparr>"

definition demo_run :: run_state where
  "demo_run = \<lparr>rs_load = load0, rs_vf = undefined, rs_ctrl = \<lparr>vmcs_field = (\<lambda>_. 0), sh_vm_entry = 0, sh_vm_exit = 0, sh_pin = 0, sh_exec = 0,
       sh_secondary_exec = 0\<rparr>,
     rs_host = \<lparr>hs_cr3 = 0, hs_cr4 = 0, hs_fs_sel = 0, hs_gs_sel = 0, hs_ldt_sel = 0, hs_fs_base = 0, hs_gs_base = 0\<rparr>,
     rs_run = \<lparr>run_exit_reason = 0, run_flags = 0, hardware_entry_failure_reason = 0, fail_cpu = 0\<rparr>,
     exit_reason = 0, vmx_fail = False, exit_intr_info = 0, idt_vectoring_info = 0, emulation_required = False, nested_run_pending = False,
     launched = False, guest_state_loaded = False, guest_uret_msrs_loaded = False, msr_guest_kernel_gs_base = 0, arch_cr2 = 0,
     arch_exit_qualification = 0, arch_dr7 = 0, guest_debug_dr7 = 0, guest_debug = 0, switch_db_regs = 0, last_vmentry_cpu = -1,
     in_guest_mode = False, mp_state = 0, apf_halted = False, pv_unhalted = False, at_instruction_boundary = False, l1tf_flush_l1d = False,
     stat_exits = 0, stat_irq_exits = 0, stat_nmi_window_exits = 0, stat_nested_run = 0, stat_host_state_reload = 0, entries = 0\<rparr>"

lemma demo_run_ready: "run_ready demo_run_env demo_run 2"
  using load0_ready(1)
  by (simp add: run_ready_def demo_run_env_def demo_run_def kvm_vcpu_running_def KVM_MP_STATE_RUNNABLE_def root_slack_def)
    (simp add: load0_def blank_regs_def vr_is_guest_mode_def full_state_def fresh_state_def)

theorem exit_dispatch_witness:
  "vmx_handle_exit demo_run_env EXIT_FASTPATH_NONE (demo_run\<lparr>exit_reason := 3\<rparr>) = None \<and>
   vmx_handle_exit demo_run_env EXIT_FASTPATH_NONE (demo_run\<lparr>exit_reason := 12\<rparr>) = Some (0, demo_run\<lparr>exit_reason := 12\<rparr>)"
proof -
  have m: "\<not> vr_is_guest_mode (regs_of (demo_run\<lparr>exit_reason := w\<rparr>))" for w
    by (simp add: demo_run_def load0_def blank_regs_def vr_is_guest_mode_def)
  have b: "\<not> er_bus_lock_detected (exit_reason (demo_run\<lparr>exit_reason := w\<rparr>))" if "w = 3 \<or> w = 12" for w
    using that by (auto simp: er_bus_lock_detected_def)
  have "classify (vmx_fail (demo_run\<lparr>exit_reason := 3\<rparr>)) (exit_reason (demo_run\<lparr>exit_reason := 3\<rparr>)) = Null_Call"
    "classify (vmx_fail (demo_run\<lparr>exit_reason := 12\<rparr>)) (exit_reason (demo_run\<lparr>exit_reason := 12\<rparr>)) = Silent"
    by (simp_all add: classify_def er_basic_def er_failed_vmentry_def resume_reasons_def silent_reasons_def demo_run_def)
  then show ?thesis
    using exit_dispatch [OF m [of 3] b [of 3], of demo_run_env] exit_dispatch [OF m [of 12] b [of 12], of demo_run_env] by simp
qed

theorem vcpu_run_returns_witness:
  "\<exists>r t. vcpu_run demo_run_env demo_run = Some (r, t) \<and> (r = STATUS_NO_MEMORY \<or> r = 0 \<and> entries t = 2)"
proof -
  have e: "can_end_in demo_run_env i fail w \<longleftrightarrow> \<not> fail \<and> w = (if i = 0 then 1 else 12)" for i fail w
    by (auto simp: can_end_in_def outcome_def demo_run_env_def demo_guest_def)
  have "exits_as demo_run_env 0 {Resumed}" "exits_as demo_run_env (Suc 0) leaving"
    by (simp_all add: exits_as_def e classify_def er_basic_def er_failed_vmentry_def er_bus_lock_detected_def resume_reasons_def
        silent_reasons_def leaving_def word_le_nat_alt)
  then show ?thesis
    using vcpu_run_returns [of demo_run_env demo_run 1] demo_run_ready by (simp add: demo_run_def numeral_2_eq_2)
qed

end
