(* ===== verification/Vcpu_Reset.thy ===== *)
theory Vcpu_Reset
  imports Vcpu_Run
begin

text \<open>
  Reset of a vCPU: \<^verbatim>\<open>kvm_vcpu_reset\<close> of \<^verbatim>\<open>src/svmx/x86.c\<close>, \<^verbatim>\<open>vmx_vcpu_reset\<close> and \<^verbatim>\<open>init_vmcs\<close> of \<^verbatim>\<open>vmx.c\<close>. The driver puts
  the running system itself into the guest, so a reset copies the registers, descriptor tables and MSRs
  of the CPU it runs on into the VMCS.

  That CPU is a parameter. A read of an MSR that the CPU does not have, and of memory that is not mapped, is
  a fault: the reset has no result.
\<close>

section \<open>State\<close>

text \<open>
  Selectors are numbered as the segment registers of the guest; \<open>h_lsl\<close> is the limit that LSL gives for a
  selector (\<^verbatim>\<open>GetSegmentLimit\<close>), \<open>h_phys\<close> is \<^verbatim>\<open>MmGetPhysicalAddress\<close>; the last two are the addresses of
  assembly routines.
\<close>

record host_cpu =
  h_mem :: "u64 \<rightharpoonup> u64"
  h_gdt_size :: u16
  h_gdt :: u64
  h_idt_size :: u16
  h_idt :: u64
  h_sel :: "nat \<Rightarrow> u16"
  h_lsl :: "u16 \<Rightarrow> u32"
  h_rflags :: u64
  h_cr0 :: u64
  h_cr2 :: u64
  h_cr3 :: u64
  h_cr4 :: u64
  h_msr :: "u32 \<rightharpoonup> u64"
  h_phys :: "u64 \<Rightarrow> u64"
  h_vmx_vmexit :: u64
  h_vm_restore_state :: u64

text \<open>Variables of the module.\<close>

record vmx_module =
  mod_conf :: vmcs_config
  mod_params :: vmx_params
  host_idt_base :: u64
  enable_apicv :: bool
  enable_pml :: bool

record reset_state =
  rz_run :: run_state
  rz_segs :: vcpu_segs
  rz_vmx :: vmx_vcpu
  rz_msr_bitmap :: u64
  rz_io_bitmap_a :: u64
  rz_io_bitmap_b :: u64
  pml_pg :: u64
  arch_pat :: u64
  arch_dr6 :: u64
  singlestep_rip :: u64
  guest_state_protected :: bool
  apf_msr_en_val :: u64
  apf_msr_int_val :: u64
  st_msr_val :: u64
  microcode_version :: u64
  spec_ctrl :: u64
  feature_control_valid_bits :: u64
  posted_intr_nv :: u16
  vmxon_ptr :: u64
  current_vmptr :: u64
  hv_evmcs_vmptr :: u64
  pi_nv :: u8
  pi_sn :: bool
  pt_guest_output_mask :: u64

text \<open>
  The VMCS is the one in the registers; the control shadows, the segment cache and the settings see it
  through these views.
\<close>

abbreviation rz_regs :: "reset_state \<Rightarrow> vcpu_regs" where "rz_regs s \<equiv> regs_of (rz_run s)"

definition rz_on_regs :: "(vcpu_regs \<Rightarrow> vcpu_regs) \<Rightarrow> reset_state \<Rightarrow> reset_state" where
  "rz_on_regs f s = s\<lparr>rz_run := on_regs f (rz_run s)\<rparr>"

definition rz_vmcs :: "reset_state \<Rightarrow> u32 \<Rightarrow> u64" where "rz_vmcs s = vr_vmcs (rz_regs s)"

definition rz_write :: "u32 \<Rightarrow> u64 \<Rightarrow> reset_state \<Rightarrow> reset_state" where "rz_write f x = rz_on_regs (vr_write f x)"

definition rz_write_if :: "bool \<Rightarrow> u32 \<Rightarrow> u64 \<Rightarrow> reset_state \<Rightarrow> reset_state" where
  "rz_write_if c f x s = (if c then rz_write f x s else s)"

definition rz_on_host :: "(vmcs_host_state \<Rightarrow> vmcs_host_state) \<Rightarrow> reset_state \<Rightarrow> reset_state" where
  "rz_on_host f s = s\<lparr>rz_run := (rz_run s)\<lparr>rs_host := f (rs_host (rz_run s))\<rparr>\<rparr>"

definition on_ctrl :: "(loaded_vmcs \<Rightarrow> loaded_vmcs) \<Rightarrow> reset_state \<Rightarrow> reset_state" where
  "on_ctrl f s = (let l = f ((rs_ctrl (rz_run s))\<lparr>vmcs_field := rz_vmcs s\<rparr>) in
     rz_on_regs (\<lambda>r. r\<lparr>vr_vmcs := vmcs_field l\<rparr>) (s\<lparr>rz_run := (rz_run s)\<lparr>rs_ctrl := l\<rparr>\<rparr>))"

definition params_of :: "vmx_module \<Rightarrow> reset_state \<Rightarrow> vmx_params" where
  "params_of mo s = (mod_params mo)\<lparr>vp_ept := enable_ept (rz_vmx s), vp_unrestricted := enable_unrestricted_guest (rz_vmx s),
     vp_exec_ctrl := sh_exec (rs_ctrl (rz_run s)), vp_secondary_ctrl := sh_secondary_exec (rs_ctrl (rz_run s))\<rparr>"

definition vmx_set_segment :: "vmx_module \<Rightarrow> kvm_segment \<Rightarrow> nat \<Rightarrow> reset_state \<Rightarrow> kvm_segment \<times> reset_state" where
  "vmx_set_segment mo var seg s = (let
       g = (rz_segs s)\<lparr>seg_vmcs := rz_vmcs s, segs_avail := kvm_register_is_available VCPU_EXREG_SEGMENTS (rz_regs s),
         vm86_active := vr_vm86 (rz_regs s)\<rparr>;
       (var, g) = raw_vmx_set_segment (vr_unrestricted (params_of mo s) (rz_regs s)) var seg g in
     (var, rz_on_regs (\<lambda>r. r\<lparr>vr_vmcs := seg_vmcs g\<rparr>) (s\<lparr>rz_segs := g\<rparr>)))"

section \<open>Fields and numbers\<close>

named_theorems vmcs_fields \<open>encodings of VMCS fields and numbers of MSRs, unfolded to tell them apart\<close>

declare cr_fields [vmcs_fields] control_fields [vmcs_fields]
declare GUEST_CR3_def [vmcs_fields] GUEST_RFLAGS_def [vmcs_fields] GUEST_RIP_def [vmcs_fields] GUEST_DR7_def [vmcs_fields]
  EXIT_QUALIFICATION_def [vmcs_fields] PAGE_FAULT_ERROR_CODE_MASK_def [vmcs_fields] PAGE_FAULT_ERROR_CODE_MATCH_def [vmcs_fields]
  HOST_FS_SELECTOR_def [vmcs_fields] HOST_GS_SELECTOR_def [vmcs_fields] HOST_CR3_def [vmcs_fields] HOST_CR4_def [vmcs_fields]
  HOST_FS_BASE_def [vmcs_fields] HOST_GS_BASE_def [vmcs_fields]

definition VIRTUAL_PROCESSOR_ID :: u32 where [vmcs_fields]: "VIRTUAL_PROCESSOR_ID = 0x0"
definition POSTED_INTR_NV :: u32 where [vmcs_fields]: "POSTED_INTR_NV = 0x2"
definition GUEST_CS_SELECTOR :: u32 where [vmcs_fields]: "GUEST_CS_SELECTOR = 0x802"
definition GUEST_INTR_STATUS :: u32 where [vmcs_fields]: "GUEST_INTR_STATUS = 0x810"
definition HOST_ES_SELECTOR :: u32 where [vmcs_fields]: "HOST_ES_SELECTOR = 0xc00"
definition HOST_CS_SELECTOR :: u32 where [vmcs_fields]: "HOST_CS_SELECTOR = 0xc02"
definition HOST_SS_SELECTOR :: u32 where [vmcs_fields]: "HOST_SS_SELECTOR = 0xc04"
definition HOST_DS_SELECTOR :: u32 where [vmcs_fields]: "HOST_DS_SELECTOR = 0xc06"
definition HOST_TR_SELECTOR :: u32 where [vmcs_fields]: "HOST_TR_SELECTOR = 0xc0c"
definition IO_BITMAP_A :: u32 where [vmcs_fields]: "IO_BITMAP_A = 0x2000"
definition IO_BITMAP_B :: u32 where [vmcs_fields]: "IO_BITMAP_B = 0x2002"
definition MSR_BITMAP :: u32 where [vmcs_fields]: "MSR_BITMAP = 0x2004"
definition PML_ADDRESS :: u32 where [vmcs_fields]: "PML_ADDRESS = 0x200e"
definition VIRTUAL_APIC_PAGE_ADDR :: u32 where [vmcs_fields]: "VIRTUAL_APIC_PAGE_ADDR = 0x2012"
definition VM_FUNCTION_CONTROL :: u32 where [vmcs_fields]: "VM_FUNCTION_CONTROL = 0x2018"
definition EOI_EXIT_BITMAP0 :: u32 where [vmcs_fields]: "EOI_EXIT_BITMAP0 = 0x201c"
definition EOI_EXIT_BITMAP1 :: u32 where [vmcs_fields]: "EOI_EXIT_BITMAP1 = 0x201e"
definition EOI_EXIT_BITMAP2 :: u32 where [vmcs_fields]: "EOI_EXIT_BITMAP2 = 0x2020"
definition EOI_EXIT_BITMAP3 :: u32 where [vmcs_fields]: "EOI_EXIT_BITMAP3 = 0x2022"
definition XSS_EXIT_BITMAP :: u32 where [vmcs_fields]: "XSS_EXIT_BITMAP = 0x202c"
definition ENCLS_EXITING_BITMAP :: u32 where [vmcs_fields]: "ENCLS_EXITING_BITMAP = 0x202e"
definition VMCS_LINK_POINTER :: u32 where [vmcs_fields]: "VMCS_LINK_POINTER = 0x2800"
definition GUEST_IA32_DEBUGCTL :: u32 where [vmcs_fields]: "GUEST_IA32_DEBUGCTL = 0x2802"
definition GUEST_IA32_PAT :: u32 where [vmcs_fields]: "GUEST_IA32_PAT = 0x2804"
definition GUEST_IA32_RTIT_CTL :: u32 where [vmcs_fields]: "GUEST_IA32_RTIT_CTL = 0x2814"
definition CR3_TARGET_COUNT :: u32 where [vmcs_fields]: "CR3_TARGET_COUNT = 0x400a"
definition VM_EXIT_MSR_STORE_COUNT :: u32 where [vmcs_fields]: "VM_EXIT_MSR_STORE_COUNT = 0x400e"
definition VM_EXIT_MSR_LOAD_COUNT :: u32 where [vmcs_fields]: "VM_EXIT_MSR_LOAD_COUNT = 0x4010"
definition VM_ENTRY_MSR_LOAD_COUNT :: u32 where [vmcs_fields]: "VM_ENTRY_MSR_LOAD_COUNT = 0x4014"
definition VM_ENTRY_INTR_INFO_FIELD :: u32 where [vmcs_fields]: "VM_ENTRY_INTR_INFO_FIELD = 0x4016"
definition TPR_THRESHOLD :: u32 where [vmcs_fields]: "TPR_THRESHOLD = 0x401c"
definition GUEST_GDTR_LIMIT :: u32 where [vmcs_fields]: "GUEST_GDTR_LIMIT = 0x4810"
definition GUEST_IDTR_LIMIT :: u32 where [vmcs_fields]: "GUEST_IDTR_LIMIT = 0x4812"
definition GUEST_INTERRUPTIBILITY_INFO :: u32 where [vmcs_fields]: "GUEST_INTERRUPTIBILITY_INFO = 0x4824"
definition GUEST_ACTIVITY_STATE :: u32 where [vmcs_fields]: "GUEST_ACTIVITY_STATE = 0x4826"
definition GUEST_SYSENTER_CS :: u32 where [vmcs_fields]: "GUEST_SYSENTER_CS = 0x482a"
definition HOST_IA32_SYSENTER_CS :: u32 where [vmcs_fields]: "HOST_IA32_SYSENTER_CS = 0x4c00"
definition GUEST_ES_BASE :: u32 where [vmcs_fields]: "GUEST_ES_BASE = 0x6806"
definition GUEST_CS_BASE :: u32 where [vmcs_fields]: "GUEST_CS_BASE = 0x6808"
definition GUEST_SS_BASE :: u32 where [vmcs_fields]: "GUEST_SS_BASE = 0x680a"
definition GUEST_DS_BASE :: u32 where [vmcs_fields]: "GUEST_DS_BASE = 0x680c"
definition GUEST_FS_BASE :: u32 where [vmcs_fields]: "GUEST_FS_BASE = 0x680e"
definition GUEST_GS_BASE :: u32 where [vmcs_fields]: "GUEST_GS_BASE = 0x6810"
definition GUEST_GDTR_BASE :: u32 where [vmcs_fields]: "GUEST_GDTR_BASE = 0x6816"
definition GUEST_IDTR_BASE :: u32 where [vmcs_fields]: "GUEST_IDTR_BASE = 0x6818"
definition GUEST_SYSENTER_ESP :: u32 where [vmcs_fields]: "GUEST_SYSENTER_ESP = 0x6824"
definition GUEST_SYSENTER_EIP :: u32 where [vmcs_fields]: "GUEST_SYSENTER_EIP = 0x6826"
definition HOST_CR0 :: u32 where [vmcs_fields]: "HOST_CR0 = 0x6c00"
definition HOST_IDTR_BASE :: u32 where [vmcs_fields]: "HOST_IDTR_BASE = 0x6c0e"
definition HOST_IA32_SYSENTER_ESP :: u32 where [vmcs_fields]: "HOST_IA32_SYSENTER_ESP = 0x6c10"
definition HOST_IA32_SYSENTER_EIP :: u32 where [vmcs_fields]: "HOST_IA32_SYSENTER_EIP = 0x6c12"
definition HOST_RIP :: u32 where [vmcs_fields]: "HOST_RIP = 0x6c16"

definition MSR_IA32_SYSENTER_CS :: u32 where [vmcs_fields]: "MSR_IA32_SYSENTER_CS = 0x174"
definition MSR_IA32_SYSENTER_ESP :: u32 where [vmcs_fields]: "MSR_IA32_SYSENTER_ESP = 0x175"
definition MSR_IA32_SYSENTER_EIP :: u32 where [vmcs_fields]: "MSR_IA32_SYSENTER_EIP = 0x176"
definition MSR_IA32_DEBUGCTLMSR :: u32 where [vmcs_fields]: "MSR_IA32_DEBUGCTLMSR = 0x1d9"
definition MSR_FS_BASE :: u32 where [vmcs_fields]: "MSR_FS_BASE = 0xc0000100"
definition MSR_GS_BASE :: u32 where [vmcs_fields]: "MSR_GS_BASE = 0xc0000101"

definition POSTED_INTR_VECTOR :: u8 where "POSTED_INTR_VECTOR = 0xf2"
definition DR6_ACTIVE_LOW :: u64 where "DR6_ACTIVE_LOW = 0xffff0ff0"
definition DR7_FIXED_1 :: u64 where "DR7_FIXED_1 = 0x400"
definition MSR_IA32_CR_PAT_DEFAULT :: u64 where "MSR_IA32_CR_PAT_DEFAULT = 0x0007040600070406"
definition X86_EFLAGS_TF :: u64 where [x86_bits]: "X86_EFLAGS_TF = 0x100"
definition INVALID_GPA :: u64 where "INVALID_GPA = NOT 0"

definition VCPU_SREG_ES :: nat where "VCPU_SREG_ES = 0"
definition VCPU_SREG_SS :: nat where "VCPU_SREG_SS = 2"
definition VCPU_SREG_DS :: nat where "VCPU_SREG_DS = 3"
definition VCPU_SREG_FS :: nat where "VCPU_SREG_FS = 4"
definition VCPU_SREG_GS :: nat where "VCPU_SREG_GS = 5"

lemmas sreg_numbers = VCPU_SREG_ES_def VCPU_SREG_CS_def VCPU_SREG_SS_def VCPU_SREG_DS_def VCPU_SREG_FS_def VCPU_SREG_GS_def
  VCPU_SREG_TR_def VCPU_SREG_LDTR_def

section \<open>The host's part of the VMCS\<close>

text \<open>\<^verbatim>\<open>& 0xf8\<close> clears the bits that must be zero, and the upper byte with them.\<close>

definition host_sel :: "host_cpu \<Rightarrow> nat \<Rightarrow> u64" where
  "host_sel h seg = ucast (h_sel h seg AND 0xf8)"

definition vmx_set_constant_host_state :: "host_cpu \<Rightarrow> vmx_module \<Rightarrow> reset_state \<Rightarrow> reset_state option" where
  "vmx_set_constant_host_state h mo s = do {
     let s = rz_write HOST_CR0 (h_cr0 h) s;
     let s = rz_write HOST_CR3 (h_cr3 h) s;
     let s = rz_on_host (\<lambda>hs. hs\<lparr>hs_cr3 := h_cr3 h\<rparr>) s;
     let s = rz_write HOST_CR4 (h_cr4 h) s;
     let s = rz_on_host (\<lambda>hs. hs\<lparr>hs_cr4 := h_cr4 h\<rparr>) s;
     let s = rz_write HOST_CS_SELECTOR (host_sel h VCPU_SREG_CS) s;
     let s = rz_write HOST_DS_SELECTOR (host_sel h VCPU_SREG_DS) s;
     let s = rz_write HOST_ES_SELECTOR (host_sel h VCPU_SREG_ES) s;
     let s = rz_write HOST_SS_SELECTOR (host_sel h VCPU_SREG_SS) s;
     let s = rz_write HOST_TR_SELECTOR (host_sel h VCPU_SREG_TR) s;
     let s = rz_write HOST_IDTR_BASE (host_idt_base mo) s;
     let s = rz_write HOST_RIP (h_vmx_vmexit h) s;
     x \<leftarrow> h_msr h HOST_IA32_SYSENTER_CS;
     let s = rz_write HOST_IA32_SYSENTER_CS (x AND 0xffffffff) s;
     x \<leftarrow> h_msr h MSR_IA32_SYSENTER_ESP;
     let s = rz_write HOST_IA32_SYSENTER_ESP x s;
     x \<leftarrow> h_msr h MSR_IA32_SYSENTER_EIP;
     Some (rz_write HOST_IA32_SYSENTER_EIP x s)
   }"

section \<open>The VMCS\<close>

definition cpu_has_vmx_msr_bitmap :: "vmcs_config \<Rightarrow> bool" where
  "cpu_has_vmx_msr_bitmap conf \<longleftrightarrow> cpu_based_exec_ctrl conf AND CPU_BASED_USE_MSR_BITMAPS \<noteq> 0"

definition cpu_has_vmx_io_bitmap :: "vmcs_config \<Rightarrow> bool" where
  "cpu_has_vmx_io_bitmap conf \<longleftrightarrow> cpu_based_exec_ctrl conf AND CPU_BASED_USE_IO_BITMAPS \<noteq> 0"

definition cpu_has_secondary_exec_ctrls :: "vmcs_config \<Rightarrow> bool" where
  "cpu_has_secondary_exec_ctrls conf \<longleftrightarrow> cpu_based_exec_ctrl conf AND CPU_BASED_ACTIVATE_SECONDARY_CONTROLS \<noteq> 0"

definition cpu_has_vmx_vmfunc :: "vmcs_config \<Rightarrow> bool" where
  "cpu_has_vmx_vmfunc conf \<longleftrightarrow> cpu_based_2nd_exec_ctrl conf AND SECONDARY_EXEC_ENABLE_VMFUNC \<noteq> 0"

definition cpu_has_vmx_xsaves :: "vmcs_config \<Rightarrow> bool" where
  "cpu_has_vmx_xsaves conf \<longleftrightarrow> cpu_based_2nd_exec_ctrl conf AND SECONDARY_EXEC_XSAVES \<noteq> 0"

definition cpu_has_vmx_encls_vmexit :: "vmcs_config \<Rightarrow> bool" where
  "cpu_has_vmx_encls_vmexit conf \<longleftrightarrow> cpu_based_2nd_exec_ctrl conf AND SECONDARY_EXEC_ENCLS_EXITING \<noteq> 0"

definition vmx_write_encls_bitmap :: "vmcs_config \<Rightarrow> reset_state \<Rightarrow> reset_state" where
  "vmx_write_encls_bitmap conf = rz_write_if (cpu_has_vmx_encls_vmexit conf) ENCLS_EXITING_BITMAP (-1)"

text \<open>Processor tracing has two modes; of its descriptor only the mask of the guest is kept here.\<close>

definition vmx_pt_mode_is_host_guest :: "reset_state \<Rightarrow> bool" where
  "vmx_pt_mode_is_host_guest s \<longleftrightarrow> \<not> pt_system (rz_vmx s)"

text \<open>The switch to secondary controls, which may change the settings and the nested words.\<close>

definition set_secondary :: "vmcs_config \<Rightarrow> reset_state \<Rightarrow> reset_state" where
  "set_secondary conf s =
     (if cpu_has_secondary_exec_ctrls conf
      then let (w, v) = vmx_secondary_exec_control conf (rz_vmx s) in on_ctrl (secondary_exec_controls_set w) (s\<lparr>rz_vmx := v\<rparr>)
      else s)"

text \<open>\<^verbatim>\<open>init_vmcs\<close> in four parts, with the control words, the host's state and the masks of CR0 and CR4 between them.\<close>

definition init_vmcs_bitmaps :: "host_cpu \<Rightarrow> vmcs_config \<Rightarrow> reset_state \<Rightarrow> reset_state" where
  "init_vmcs_bitmaps h conf s = (let
       s = rz_write_if (cpu_has_vmx_msr_bitmap conf) MSR_BITMAP (h_phys h (rz_msr_bitmap s)) s;
       s = rz_write_if (cpu_has_vmx_io_bitmap conf) IO_BITMAP_A (h_phys h (rz_io_bitmap_a s)) s;
       s = rz_write_if (cpu_has_vmx_io_bitmap conf) IO_BITMAP_B (h_phys h (rz_io_bitmap_b s)) s in
     rz_write VMCS_LINK_POINTER INVALID_GPA s)"

definition init_vmcs_apicv :: "host_cpu \<Rightarrow> vmx_module \<Rightarrow> reset_state \<Rightarrow> reset_state" where
  "init_vmcs_apicv h mo s = (let
       apicv = (enable_apicv mo \<and> lapic_in_kernel (rz_vmx s));
       s = rz_write_if apicv EOI_EXIT_BITMAP0 0 s;
       s = rz_write_if apicv EOI_EXIT_BITMAP1 0 s;
       s = rz_write_if apicv EOI_EXIT_BITMAP2 0 s;
       s = rz_write_if apicv EOI_EXIT_BITMAP3 0 s;
       s = rz_write_if apicv GUEST_INTR_STATUS 0 s;
       s = rz_write_if apicv POSTED_INTR_NV (ucast POSTED_INTR_VECTOR) s;
       s = rz_write PAGE_FAULT_ERROR_CODE_MASK 0 s;
       s = rz_write PAGE_FAULT_ERROR_CODE_MATCH 0 s;
       s = rz_write CR3_TARGET_COUNT 0 s;
       s = rz_write HOST_FS_SELECTOR (host_sel h VCPU_SREG_FS) s in
     rz_write HOST_GS_SELECTOR (host_sel h VCPU_SREG_GS) s)"

definition init_vmcs_features :: "host_cpu \<Rightarrow> vmx_module \<Rightarrow> reset_state \<Rightarrow> reset_state option" where
  "init_vmcs_features h mo s = do {
     let conf = mod_conf mo;
     x \<leftarrow> h_msr h MSR_FS_BASE;
     let s = rz_write HOST_FS_BASE x s;
     x \<leftarrow> h_msr h MSR_GS_BASE;
     let s = rz_write HOST_GS_BASE x s;
     let s = rz_write VM_EXIT_MSR_STORE_COUNT 0 s;
     let s = rz_write VM_EXIT_MSR_LOAD_COUNT 0 s;
     let s = rz_write VM_ENTRY_MSR_LOAD_COUNT 0 s;
     let s = rz_write_if (vmx_vpid (rz_vmx s) \<noteq> 0) VIRTUAL_PROCESSOR_ID (ucast (vmx_vpid (rz_vmx s))) s;
     let s = rz_write_if (cpu_has_vmx_xsaves conf) XSS_EXIT_BITMAP 0 s;
     let s = rz_write_if (enable_pml mo) PML_ADDRESS (h_phys h (pml_pg s)) s;
     let s = vmx_write_encls_bitmap conf s;
     let s = rz_write_if (cpu_has_vmx_vmfunc conf) VM_FUNCTION_CONTROL 0 s;
     Some (rz_write_if (vmentry_ctrl conf AND VM_ENTRY_LOAD_IA32_PAT \<noteq> 0) GUEST_IA32_PAT (arch_pat s) s)
   }"

definition init_vmcs_guest :: "host_cpu \<Rightarrow> vmx_module \<Rightarrow> reset_state \<Rightarrow> reset_state option" where
  "init_vmcs_guest h mo s = do {
     let conf = mod_conf mo;
     let pt = vmx_pt_mode_is_host_guest s;
     let s = (if pt then s\<lparr>pt_guest_output_mask := 0x7f\<rparr> else s);
     let s = rz_write_if pt GUEST_IA32_RTIT_CTL 0 s;
     let s = rz_write_if (cpu_has_vmx_tpr_shadow conf) VIRTUAL_APIC_PAGE_ADDR 0 s;
     let s = rz_write_if (cpu_has_vmx_tpr_shadow conf) TPR_THRESHOLD 0 s;
     x \<leftarrow> h_msr h MSR_IA32_SYSENTER_CS;
     let s = rz_write GUEST_SYSENTER_CS (x AND 0xffffffff) s;
     x \<leftarrow> h_msr h MSR_IA32_SYSENTER_ESP;
     let s = rz_write GUEST_SYSENTER_ESP x s;
     x \<leftarrow> h_msr h MSR_IA32_SYSENTER_EIP;
     let s = rz_write GUEST_SYSENTER_EIP x s;
     x \<leftarrow> h_msr h MSR_IA32_DEBUGCTLMSR;
     let s = rz_write GUEST_IA32_DEBUGCTL x s;
     let s = rz_write GUEST_ES_BASE 0 s;
     let s = rz_write GUEST_SS_BASE 0 s;
     let s = rz_write GUEST_DS_BASE 0 s;
     Some (rz_write GUEST_RIP (h_vm_restore_state h) s)
   }"

definition init_vmcs :: "host_cpu \<Rightarrow> vmx_module \<Rightarrow> reset_state \<Rightarrow> reset_state option" where
  "init_vmcs h mo s = do {
     let conf = mod_conf mo;
     let s = init_vmcs_bitmaps h conf s;
     let s = on_ctrl (pin_controls_set (vmx_pin_based_exec_ctrl conf)) s;
     let s = on_ctrl (exec_controls_set (vmx_exec_control conf (rz_vmx s))) s;
     let s = set_secondary conf s;
     let s = init_vmcs_apicv h mo s;
     s \<leftarrow> vmx_set_constant_host_state h mo s;
     s \<leftarrow> init_vmcs_features h mo s;
     let s = on_ctrl (vm_exit_controls_set (vmx_vmexit_ctrl conf (rz_vmx s))) s;
     let s = on_ctrl (vm_entry_controls_set (vmx_vmentry_ctrl conf (rz_vmx s))) s;
     let s = rz_on_regs (init_vmcs_cr_masks (params_of mo s)) s;
     init_vmcs_guest h mo s
   }"

section \<open>Reset\<close>

definition vmx_set_idt :: "u16 \<Rightarrow> u64 \<Rightarrow> reset_state \<Rightarrow> reset_state" where
  "vmx_set_idt sz address s = rz_write GUEST_IDTR_BASE address (rz_write GUEST_IDTR_LIMIT (ucast sz) s)"

definition vmx_set_gdt :: "u16 \<Rightarrow> u64 \<Rightarrow> reset_state \<Rightarrow> reset_state" where
  "vmx_set_gdt sz address s = rz_write GUEST_GDTR_BASE address (rz_write GUEST_GDTR_LIMIT (ucast sz) s)"

text \<open>The six lines that the source repeats for every segment register, with the structure \<open>var\<close> used again.\<close>

definition copy_segment :: "host_cpu \<Rightarrow> vmx_module \<Rightarrow> nat \<Rightarrow> kvm_segment \<times> reset_state \<Rightarrow> (kvm_segment \<times> reset_state) option" where
  "copy_segment h mo seg = (\<lambda>(var, s). do {
     let var = var\<lparr>sg_selector := h_sel h seg\<rparr>;
     b \<leftarrow> get_segment_base (h_mem h) (h_gdt h) (h_sel h VCPU_SREG_LDTR) (sg_selector var);
     let var = var\<lparr>sg_base := b\<rparr>;
     let var = var\<lparr>sg_limit := h_lsl h (sg_selector var)\<rparr>;
     d \<leftarrow> get_segment_desc (h_mem h) (h_gdt h) (h_sel h VCPU_SREG_LDTR) (sg_selector var);
     let var = set_segment_by_desc d var;
     Some (vmx_set_segment mo var seg s)
   })"

definition zero_segment :: kvm_segment where
  "zero_segment = \<lparr>sg_base = 0, sg_limit = 0, sg_selector = 0, sg_type = 0, sg_present = 0, sg_dpl = 0, sg_db = 0, sg_s = 0, sg_l = 0,
     sg_g = 0, sg_avl = 0, sg_unusable = 0\<rparr>"

definition raw_vmx_vcpu_reset :: "host_cpu \<Rightarrow> vmx_module \<Rightarrow> reset_state \<Rightarrow> reset_state option" where
  "raw_vmx_vcpu_reset h mo s = do {
     let s = vmx_set_idt (h_idt_size h) (h_idt h) s;
     let s = vmx_set_gdt (h_gdt_size h) (h_gdt h) s;
     let s = rz_on_regs (vmx_set_rflags (params_of mo s) (h_rflags h)) s;
     c \<leftarrow> copy_segment h mo VCPU_SREG_TR (zero_segment, s);
     c \<leftarrow> copy_segment h mo VCPU_SREG_ES c;
     c \<leftarrow> copy_segment h mo VCPU_SREG_CS c;
     c \<leftarrow> copy_segment h mo VCPU_SREG_SS c;
     c \<leftarrow> copy_segment h mo VCPU_SREG_DS c;
     c \<leftarrow> copy_segment h mo VCPU_SREG_FS c;
     c \<leftarrow> copy_segment h mo VCPU_SREG_GS c;
     c \<leftarrow> copy_segment h mo VCPU_SREG_LDTR c;
     s \<leftarrow> init_vmcs h mo (snd c);
     Some (s\<lparr>posted_intr_nv := -1, vmxon_ptr := INVALID_GPA, current_vmptr := INVALID_GPA, hv_evmcs_vmptr := -1,
       microcode_version := 0x100000000, feature_control_valid_bits := 1, pi_nv := POSTED_INTR_VECTOR, pi_sn := True\<rparr>)
   }"

definition vmx_vcpu_reset :: "host_cpu \<Rightarrow> vmx_module \<Rightarrow> bool \<Rightarrow> reset_state \<Rightarrow> reset_state option" where
  "vmx_vcpu_reset h mo init_event s = do {
     s \<leftarrow> (if \<not> init_event then raw_vmx_vcpu_reset h mo s else Some s);
     let s = rz_on_regs (\<lambda>r. r\<lparr>vr_vm86 := False\<rparr>) s;
     let s = s\<lparr>spec_ctrl := 0\<rparr>;
     let s = rz_write GUEST_CS_SELECTOR (ucast (h_sel h VCPU_SREG_CS)) s;
     let s = rz_write GUEST_CS_BASE 0 s;
     c \<leftarrow> copy_segment h mo VCPU_SREG_TR (zero_segment, s);
     (var, s) \<leftarrow> copy_segment h mo VCPU_SREG_LDTR c;
     x \<leftarrow> h_msr h MSR_FS_BASE;
     let s = rz_write GUEST_FS_BASE x s;
     x \<leftarrow> h_msr h MSR_GS_BASE;
     let s = rz_write GUEST_GS_BASE x s;
     let s = rz_write GUEST_ACTIVITY_STATE 0 s;
     let s = rz_write GUEST_INTERRUPTIBILITY_INFO 0 s;
     Some (rz_write VM_ENTRY_INTR_INFO_FIELD 0 s)
   }"

text \<open>\<^verbatim>\<open>vmx_get_segment_base\<close> is a stub that answers 0; \<^verbatim>\<open>vmx_set_efer\<close> does nothing.\<close>

definition kvm_get_linear_rip :: "vmx_params \<Rightarrow> bool \<Rightarrow> vcpu_regs \<Rightarrow> u64 \<times> vcpu_regs" where
  "kvm_get_linear_rip p protected r =
     (if protected then (0, r)
      else let
        long = is_64_bit_mode r;
        r = (if kvm_register_is_available VCPU_REGS_RIP r then r else vmx_cache_reg p VCPU_REGS_RIP r);
        rip = vr_regs r VCPU_REGS_RIP in
      (if long then rip else rip AND 0xffffffff, r))"

definition kvm_set_rflags :: "vmx_module \<Rightarrow> u64 \<Rightarrow> reset_state \<Rightarrow> reset_state" where
  "kvm_set_rflags mo rflags s = (let
       step = (guest_debug (rz_run s) AND 2 \<noteq> 0);
       (rip, r) = (if step then kvm_get_linear_rip (params_of mo s) (guest_state_protected s) (rz_regs s) else (0, rz_regs s));
       s = rz_on_regs (\<lambda>_. r) s;
       rflags = (if step \<and> rip = singlestep_rip s then rflags OR X86_EFLAGS_TF else rflags) in
     rz_on_regs (vmx_set_rflags (params_of mo s) rflags) s)"

definition vmx_set_efer :: "u64 \<Rightarrow> reset_state \<Rightarrow> reset_state" where "vmx_set_efer efer s = s"

definition kvm_vcpu_reset :: "host_cpu \<Rightarrow> vmx_module \<Rightarrow> bool \<Rightarrow> reset_state \<Rightarrow> reset_state option" where
  "kvm_vcpu_reset h mo init_event s = do {
     let (old_cr0, r) = kvm_read_cr0 (params_of mo s) (rz_regs s);
     let s = rz_on_regs (\<lambda>_. r\<lparr>vr_hflags := 0\<rparr>) s;
     let s = s\<lparr>arch_dr6 := DR6_ACTIVE_LOW, rz_run := kvm_update_dr7 ((rz_run s)\<lparr>arch_dr7 := DR7_FIXED_1\<rparr>)\<rparr>;
     let s = s\<lparr>rz_run := (rz_run s)\<lparr>arch_cr2 := h_cr2 h, apf_halted := False\<rparr>, apf_msr_en_val := 0, apf_msr_int_val := 0, st_msr_val := 0\<rparr>;
     let s = rz_on_regs (\<lambda>r. r\<lparr>vr_regs := (\<lambda>i. if i < 17 then 0 else vr_regs r i)\<rparr>) s;
     let s = rz_on_regs (kvm_register_mark_dirty VCPU_REGS_RSP) s;
     s \<leftarrow> vmx_vcpu_reset h mo init_event s;
     let s = kvm_set_rflags mo (h_rflags h) s;
     let s = rz_on_regs (\<lambda>r. kvm_register_mark_dirty VCPU_EXREG_CR3 (r\<lparr>vr_cr3 := h_cr3 h\<rparr>)) s;
     let new_cr0 = h_cr0 h OR X86_CR0_ET;
     let new_cr0 = (if init_event then new_cr0 OR (old_cr0 AND (X86_CR0_NW OR X86_CR0_CD)) else new_cr0 OR X86_CR0_NW OR X86_CR0_CD);
     let s = rz_on_regs (vmx_set_cr0 (params_of mo s) new_cr0) s;
     let s = rz_on_regs (vmx_set_cr4 (params_of mo s) (h_cr4 h)) s;
     Some (vmx_set_efer 0 s)
   }"

end
