(* ===== verification/Vcpu_Create.thy ===== *)
theory Vcpu_Create
  imports Vcpu_Reset Kvm_Hardware
begin

text \<open>
  Creation of a vCPU: \<^verbatim>\<open>kvm_vm_ioctl_create_vcpu\<close> of \<^verbatim>\<open>src/svmx/kvm_main.c\<close>, \<^verbatim>\<open>kvm_arch_vcpu_create\<close> of \<^verbatim>\<open>x86.c\<close> and
  \<^verbatim>\<open>vmx_vcpu_create\<close> of \<^verbatim>\<open>vmx.c\<close>. It puts together the MMU, the VPID, the VMCS and the reset.

  Instructions that write the VMCS act on the VMCS that is current on the CPU that executes them; VMCS 0
  stands for none. What the allocator returns is an argument, 0 when it has nothing left. A NULL pointer
  that is followed, and a fault, have no result.
\<close>

section \<open>State\<close>

text \<open>\<open>ce_here\<close> is the CPU that executes and \<open>ce_host\<close> its state.\<close>

record create_env =
  ce_run :: run_env
  ce_masks :: shadow_masks
  ce_maxphyaddr :: int
  ce_host :: host_cpu
  ce_module :: vmx_module
  ce_ncpus :: nat
  ce_here :: nat
  ce_tr_base :: u64
  ce_find_clear :: "bool list \<Rightarrow> nat option"
  ce_enable_vpid :: bool

text \<open>\<open>vmcs01\<close> names the structure \<^verbatim>\<open>vmx->vmcs01\<close> and \<open>loaded_vmcs_of\<close> is the pointer \<^verbatim>\<open>vmx->loaded_vmcs\<close>.\<close>

record vcpu =
  vcpu_id :: nat
  vcpu_cpu :: int
  vcpu_pid :: nat
  preempted :: bool
  vcpu_ready :: bool
  vcpu_run_page :: u64
  mcg_cap :: u64
  vcpu_arch :: reset_state
  guest_mmu :: vcpu_mmu
  root_mmu :: vcpu_mmu
  vmcs01 :: nat
  loaded_vmcs_of :: "nat option"

record vm_state =
  created_vcpus :: int
  max_vcpus :: int
  vcpu_array :: "nat \<rightharpoonup> vcpu"
  vm_vmcss :: vmcs_state
  vm_vpids :: "bool list option"
  vm_pages :: mmu_state
  vm_blocks :: "u64 list"

definition on_current :: "nat \<Rightarrow> (reset_state \<Rightarrow> reset_state option) \<Rightarrow> reset_state \<times> vmcs_state \<Rightarrow> (reset_state \<times> vmcs_state) option" where
  "on_current here f = (\<lambda>(s, v). do {
     s \<leftarrow> f (rz_on_regs (\<lambda>r. r\<lparr>vr_vmcs := vmcs_data v (hw_vmcs v here)\<rparr>) s);
     Some (s, v\<lparr>vmcs_data := (vmcs_data v)(hw_vmcs v here := rz_vmcs s)\<rparr>)
   })"

section \<open>VMX\<close>

definition vmx_vcpu_create :: "create_env \<Rightarrow> u64 \<times> u64 \<times> u64 \<times> u64 \<Rightarrow> vcpu \<Rightarrow> vm_state \<Rightarrow> (int \<times> vcpu \<times> vm_state) option" where
  "vmx_vcpu_create env blocks vc vm = (let
       conf = mod_conf (ce_module env);
       i = vmcs01 vc;
       v = upd_lv i (\<lambda>l. l\<lparr>lv_vcpu_id := vcpu_id vc\<rparr>) (vm_vmcss vm) in
     case allocate_vpid (ce_find_clear env) (ce_enable_vpid env) (vm_vpids vm) of
       Inl _ \<Rightarrow> None
     | Inr (vpid, buf) \<Rightarrow> (let
         arch = (vcpu_arch vc)\<lparr>rz_vmx := (rz_vmx (vcpu_arch vc))\<lparr>vmx_vpid := of_nat vpid\<rparr>\<rparr>;
         (status, v) = alloc_loaded_vmcs (ce_ncpus env) (cpu_has_vmx_msr_bitmap conf) (cpu_has_vmx_io_bitmap conf) blocks i v;
         arch = arch\<lparr>rz_msr_bitmap := lv_msr_bitmap (lv v i), rz_io_bitmap_a := lv_io_bitmap_a (lv v i), rz_io_bitmap_b := lv_io_bitmap_b (lv v i)\<rparr>;
         vm = vm\<lparr>vm_vmcss := v, vm_vpids := buf\<rparr> in
       if status < 0 then Some (status, vc\<lparr>vcpu_arch := arch\<rparr>, vm)
       else Some (STATUS_SUCCESS, vc\<lparr>vcpu_arch := arch, loaded_vmcs_of := Some i\<rparr>, vm)))"

section \<open>The architecture\<close>

definition vcpu_load :: "create_env \<Rightarrow> vcpu \<Rightarrow> vm_state \<Rightarrow> (vcpu \<times> vm_state) option" where
  "vcpu_load env vc vm = (case loaded_vmcs_of vc of
       None \<Rightarrow> None
     | Some i \<Rightarrow> do {
         let v = vmx_vcpu_load_vmcs (ce_ncpus env) (ce_here env) (ce_tr_base env) (h_gdt (ce_host env)) i (vcpu_id vc) (vm_vmcss vm);
         (arch, v) \<leftarrow> on_current (ce_here env) (\<lambda>s. Some (s\<lparr>rz_run := kvm_arch_vcpu_load (rz_run s)\<rparr>)) (vcpu_arch vc, v);
         Some (vc\<lparr>vcpu_arch := arch\<rparr>, vm\<lparr>vm_vmcss := v\<rparr>)
       })"

definition vcpu_put :: "create_env \<Rightarrow> vcpu \<Rightarrow> vcpu" where
  "vcpu_put env vc = vc\<lparr>vcpu_arch := (vcpu_arch vc)\<lparr>rz_run := kvm_arch_vcpu_put (ce_run env) (rz_run (vcpu_arch vc))\<rparr>\<rparr>"

definition KVM_MAX_MCE_BANKS :: u64 where "KVM_MAX_MCE_BANKS = 32"

definition init_arch :: "reset_state \<Rightarrow> reset_state" where
  "init_arch s = rz_on_regs (\<lambda>r. r\<lparr>regs_avail := NOT 0, regs_dirty := NOT 0\<rparr>)
     (s\<lparr>rz_run := (rz_run s)\<lparr>last_vmentry_cpu := -1, mp_state := KVM_MP_STATE_RUNNABLE\<rparr>\<rparr>)"

text \<open>
  The result of \<^verbatim>\<open>vmx_vcpu_create\<close> is looked at only by the caller. \<^verbatim>\<open>kvm_vcpu_mtrr_init\<close>, which only initialises the
  head of a list that nothing modelled here uses, is left out.
\<close>

definition kvm_arch_vcpu_create :: "create_env \<Rightarrow> u64 \<times> u64 \<times> u64 \<times> u64 \<Rightarrow> vcpu \<Rightarrow> vm_state \<Rightarrow> (int \<times> vcpu \<times> vm_state) option" where
  "kvm_arch_vcpu_create env blocks vc vm = do {
     let vc = vc\<lparr>vcpu_arch := init_arch (vcpu_arch vc)\<rparr>;
     (r, gm, rm, pages) \<leftarrow> kvm_mmu_create (re_menv (ce_run env)) (re_globals (ce_run env)) (ce_maxphyaddr env) (guest_mmu vc) (root_mmu vc) (vm_pages vm);
     let vc = vc\<lparr>guest_mmu := gm, root_mmu := rm\<rparr>;
     let vm = vm\<lparr>vm_pages := pages\<rparr>;
     if r < 0 then Some (r, vc, vm)
     else do {
       let vc = vc\<lparr>mcg_cap := KVM_MAX_MCE_BANKS, vcpu_arch := (vcpu_arch vc)\<lparr>arch_pat := MSR_IA32_CR_PAT_DEFAULT\<rparr>\<rparr>;
       (r, vc, vm) \<leftarrow> vmx_vcpu_create env blocks vc vm;
       (vc, vm) \<leftarrow> vcpu_load env vc vm;
       (arch, v) \<leftarrow> on_current (ce_here env) (kvm_vcpu_reset (ce_host env) (ce_module env) False) (vcpu_arch vc, vm_vmcss vm);
       let (rm, regs) = kvm_init_mmu (ce_masks env) (re_globals (ce_run env)) (params_of (ce_module env) arch) (ce_maxphyaddr env) False (root_mmu vc) (rz_regs arch);
       let vc = vc\<lparr>vcpu_arch := rz_on_regs (\<lambda>_. regs) arch, root_mmu := rm\<rparr>;
       Some (r, vcpu_put env vc, vm\<lparr>vm_vmcss := v\<rparr>)
     }
   }"

section \<open>The VM\<close>

definition kvm_vcpu_init :: "nat \<Rightarrow> vcpu \<Rightarrow> vcpu" where
  "kvm_vcpu_init i vc = vc\<lparr>vcpu_cpu := -1, vcpu_id := i, vcpu_pid := 0, preempted := False, vcpu_ready := False\<rparr>"

definition kvm_arch_vcpu_precreate :: "nat \<Rightarrow> int" where "kvm_arch_vcpu_precreate i = 0"

text \<open>A stub of the source.\<close>

definition kvm_arch_vcpu_postcreate :: "vcpu \<Rightarrow> vcpu" where
  [simp]: "kvm_arch_vcpu_postcreate vc = vc"

definition free_block :: "u64 \<Rightarrow> vm_state \<Rightarrow> vm_state" where
  "free_block b vm = (if b \<noteq> 0 then vm\<lparr>vm_blocks := remove1 b (vm_blocks vm)\<rparr> else vm)"

text \<open>
  The caller's mutex is not modelled. \<open>zero\<close> is the zeroed structure in the block \<open>vb\<close>, with the module's settings; \<open>pb\<close> is the page for \<^verbatim>\<open>kvm_run\<close>. The array of
  vCPUs has \<^verbatim>\<open>max_vcpus\<close> entries, which the caller, who creates one for each CPU, does not exceed.
\<close>

definition kvm_vm_ioctl_create_vcpu ::
  "create_env \<Rightarrow> u64 \<Rightarrow> u64 \<Rightarrow> u64 \<times> u64 \<times> u64 \<times> u64 \<Rightarrow> vcpu \<Rightarrow> nat \<Rightarrow> vm_state \<Rightarrow> (int \<times> vm_state) option" where
  "kvm_vm_ioctl_create_vcpu env vb pb blocks zero i vm =
     (if created_vcpus vm \<ge> max_vcpus vm then Some (STATUS_INVALID_PARAMETER, vm)
      else if kvm_arch_vcpu_precreate i \<noteq> 0 then Some (kvm_arch_vcpu_precreate i, vm)
      else let vm = vm\<lparr>created_vcpus := created_vcpus vm + 1\<rparr> in
      if vb = 0 then Some (STATUS_NO_MEMORY, vm)
      else let vm = vm\<lparr>vm_blocks := vb # vm_blocks vm\<rparr> in
      if pb = 0 then Some (STATUS_NO_MEMORY, free_block vb vm)
      else do {
        let vm = vm\<lparr>vm_blocks := pb # vm_blocks vm\<rparr>;
        let vc = kvm_vcpu_init i (zero\<lparr>vcpu_run_page := pb\<rparr>);
        (r, vc, vm) \<leftarrow> kvm_arch_vcpu_create env blocks vc vm;
        if r \<noteq> 0 then Some (r, if r < 0 then free_block pb (free_block vb vm) else vm)
        else Some (r, vm\<lparr>vcpu_array := (vcpu_array vm)(i \<mapsto> kvm_arch_vcpu_postcreate vc)\<rparr>)
      })"

end
