(* ===== verification/Vcpu_Reset_Steps.thy ===== *)
theory Vcpu_Reset_Steps
  imports Vcpu_Reset Vmx_Segment_Props Vmx_Props
begin

text \<open>
  The steps of a reset: which fields of the VMCS each may write and what it leaves in them. \<open>writes\<close>
  says so for one step and composes; the facts for \<^verbatim>\<open>copy_segment\<close> and \<^verbatim>\<open>init_vmcs\<close> are stated with it.
\<close>

section \<open>Views of the state\<close>

named_theorems rz_simps \<open>projections of the state after a write to the VMCS\<close>

lemma rz_vmcs_write [rz_simps]: "rz_vmcs (rz_write f x s) = (rz_vmcs s)(f := x)"
  by (simp add: rz_vmcs_def rz_write_def rz_on_regs_def on_regs_def vr_write_def)

lemma rz_vmcs_write_if [rz_simps]: "rz_vmcs (rz_write_if c f x s) = (if c then (rz_vmcs s)(f := x) else rz_vmcs s)"
  by (simp add: rz_write_if_def rz_simps)

lemma rz_write_frame [rz_simps]:
  "rz_vmx (rz_write f x s) = rz_vmx s" "rs_ctrl (rz_run (rz_write f x s)) = rs_ctrl (rz_run s)"
  "vr_hflags (rz_regs (rz_write f x s)) = vr_hflags (rz_regs s)" "vr_vm86 (rz_regs (rz_write f x s)) = vr_vm86 (rz_regs s)"
  "guest_debug (rz_run (rz_write f x s)) = guest_debug (rz_run s)"
  by (simp_all add: rz_write_def rz_on_regs_def on_regs_def vr_write_def)

lemma rz_write_if_frame [rz_simps]:
  "rz_vmx (rz_write_if c f x s) = rz_vmx s" "rs_ctrl (rz_run (rz_write_if c f x s)) = rs_ctrl (rz_run s)"
  "vr_hflags (rz_regs (rz_write_if c f x s)) = vr_hflags (rz_regs s)" "vr_vm86 (rz_regs (rz_write_if c f x s)) = vr_vm86 (rz_regs s)"
  "guest_debug (rz_run (rz_write_if c f x s)) = guest_debug (rz_run s)"
  by (simp_all add: rz_write_if_def rz_simps)

text \<open>What the later steps of a reset depend on, apart from the VMCS.\<close>

definition same_setting :: "reset_state \<Rightarrow> reset_state \<Rightarrow> bool" where
  "same_setting s t \<longleftrightarrow> enable_ept (rz_vmx t) = enable_ept (rz_vmx s) \<and>
     enable_unrestricted_guest (rz_vmx t) = enable_unrestricted_guest (rz_vmx s) \<and> vr_hflags (rz_regs t) = vr_hflags (rz_regs s) \<and>
     guest_debug (rz_run t) = guest_debug (rz_run s)"

lemma unrestricted_view:
  "vr_hflags (rz_regs s) = 0 \<Longrightarrow> vr_unrestricted (params_of mo s) (rz_regs s) = enable_unrestricted_guest (rz_vmx s)"
  by (simp add: vr_unrestricted_def vr_is_guest_mode_def is_unrestricted_guest_def params_of_def)

section \<open>Segments\<close>

text \<open>
  The access rights in the format of the VMCS are bits 8 to 23 of the second word of the descriptor
  without the limit, and the unusable bit for a segment that is not present.
\<close>

definition desc_rights :: "bool \<Rightarrow> u64 \<Rightarrow> u64" where
  "desc_rights accessed d =
     (drop_bit 40 d AND 0xf0ff) OR (if accessed then 1 else 0) OR (if bit d 47 then 0 else 0x10000)"

lemma bit_f0ff: "bit (0xf0ff :: u64) n \<longleftrightarrow> n < 8 \<or> 12 \<le> n \<and> n < 16"
proof -
  have eq: "(0xf0ff :: u64) = mask 8 OR push_bit 12 (mask 4)" by (simp add: mask_eq_exp_minus_1)
  show ?thesis unfolding eq bit_or_iff bit_mask_iff bit_push_bit_iff by auto
qed

lemma bit_10000: "bit (0x10000 :: u64) n \<longleftrightarrow> n = 16"
proof -
  have eq: "(0x10000 :: u64) = 2 ^ 16" by simp
  show ?thesis unfolding eq bit_exp_iff by auto
qed

lemma bit_desc_rights:
  "bit (desc_rights a d) n \<longleftrightarrow> (n < 8 \<or> 12 \<le> n \<and> n < 16) \<and> bit d (40 + n) \<or> a \<and> n = 0 \<or> \<not> bit d 47 \<and> n = 16"
proof -
  have if_bits: "bit (if a then 1 else 0 :: u64) n \<longleftrightarrow> a \<and> n = 0" "bit (if bit d 47 then 0 else 0x10000 :: u64) n \<longleftrightarrow> \<not> bit d 47 \<and> n = 16"
    by (simp_all only: bit_10000 bit_0_eq bit_1_iff split: if_split) simp_all
  show ?thesis unfolding desc_rights_def bit_or_iff bit_and_iff bit_f0ff bit_drop_bit_eq comp_def if_bits by blast
qed

lemma desc_bit: "(ucast (drop_bit k d AND 1 :: u64) :: u8) = of_bool (bit d k)"
  by (rule bit_eqI) (auto simp: bit_and_iff bit_unsigned_iff bit_drop_bit_eq bit_1_iff bit_of_bool_iff)

lemma bit_desc_type: "bit (desc_type d) n \<longleftrightarrow> n < 4 \<and> bit d (40 + n)"
  unfolding desc_type_def masks_small(1) by (auto simp: bit_and_iff bit_unsigned_iff bit_mask_iff bit_drop_bit_eq)

lemma bit_desc_dpl: "bit (ucast (drop_bit 45 d AND 3 :: u64) :: u8) n \<longleftrightarrow> n < 2 \<and> bit d (45 + n)"
  unfolding masks_small(2) by (auto simp: bit_and_iff bit_unsigned_iff bit_mask_iff bit_drop_bit_eq)

lemma bits_below_17: "n < (17 :: nat) \<Longrightarrow> n \<in> {0, 1, 2, 3, 4, 5, 6, 7, 8, 9, 10, 11, 12, 13, 14, 15, 16}"
  by (simp add: less_Suc_eq eval_nat_numeral)

lemma access_rights_of_desc:
  assumes "sg_unusable var = 0"
  shows "ucast (vmx_segment_access_rights ((set_segment_by_desc d var)\<lparr>sg_type := desc_type d OR of_bool a\<rparr>)) = desc_rights a d"
proof (rule bit_eqI)
  fix n
  let ?v = "(set_segment_by_desc d var)\<lparr>sg_type := desc_type d OR of_bool a\<rparr>"
  have low: "ar_bit ?v n = bit (desc_rights a d) n" if "n < 17"
    using bits_below_17 [OF that] assms
    by (elim insertE emptyE)
      (simp_all add: ar_bit_def bit_desc_rights set_segment_by_desc_def desc_s_def desc_bit bit_desc_dpl bit_desc_type bit_or_iff bit_of_bool_iff)
  have "ar_bit ?v n = bit (desc_rights a d) n"
  proof (cases "n < 17")
    case False then show ?thesis by (auto simp: ar_bit_def bit_desc_rights)
  qed (rule low)
  then show "bit (ucast (vmx_segment_access_rights ?v) :: u64) n = bit (desc_rights a d) n"
    by (auto simp: bit_unsigned_iff bit_access_rights bit_desc_rights)
qed

lemma set_type_again: "(set_segment_by_desc d var)\<lparr>sg_type := desc_type d\<rparr> = set_segment_by_desc d var"
  by (cases var) (simp add: set_segment_by_desc_def)

text \<open>The base and the descriptor that a selector of the CPU leads to, where the tables are mapped.\<close>

definition sel_base :: "host_cpu \<Rightarrow> nat \<Rightarrow> u64 option" where
  "sel_base h seg = get_segment_base (h_mem h) (h_gdt h) (h_sel h VCPU_SREG_LDTR) (h_sel h seg)"

definition sel_desc :: "host_cpu \<Rightarrow> nat \<Rightarrow> u64 option" where
  "sel_desc h seg = get_segment_desc (h_mem h) (h_gdt h) (h_sel h VCPU_SREG_LDTR) (h_sel h seg)"

definition accessed :: "bool \<Rightarrow> nat \<Rightarrow> bool" where "accessed ug seg \<longleftrightarrow> ug \<and> seg \<noteq> VCPU_SREG_LDTR"

text \<open>The four fields of a segment after it has been copied.\<close>

definition with_segment :: "host_cpu \<Rightarrow> bool \<Rightarrow> nat \<Rightarrow> (u32 \<Rightarrow> u64) \<Rightarrow> u32 \<Rightarrow> u64" where
  "with_segment h ug seg m = (let sf = kvm_vmx_segment_fields ! seg in
     m(sf_base sf := the (sel_base h seg), sf_limit sf := ucast (h_lsl h (h_sel h seg)), sf_selector sf := ucast (h_sel h seg),
       sf_ar_bytes sf := desc_rights (accessed ug seg) (the (sel_desc h seg))))"

lemma set_segment_vmcs:
  assumes "seg < 8"
  shows "seg_vmcs (snd (raw_vmx_set_segment ug var seg g)) = (let sf = kvm_vmx_segment_fields ! seg in (seg_vmcs g)
    (sf_base sf := sg_base var, sf_limit sf := ucast (sg_limit var), sf_selector sf := ucast (sg_selector var),
     sf_ar_bytes sf := ucast (vmx_segment_access_rights (if ug \<and> seg \<noteq> VCPU_SREG_LDTR then var\<lparr>sg_type := sg_type var OR 1\<rparr> else var))))"
  using seg_fields_apart
  by (auto simp: raw_vmx_set_segment_def seg_write_def vmx_segment_cache_clear_def fix_rmode_seg_def fun_eq_iff Let_def)

lemma vmx_set_segment_vmcs:
  assumes "seg < 8" "vr_hflags (rz_regs s) = 0"
  shows "rz_vmcs (snd (vmx_set_segment mo var seg s)) = (let sf = kvm_vmx_segment_fields ! seg in (rz_vmcs s)
    (sf_base sf := sg_base var, sf_limit sf := ucast (sg_limit var), sf_selector sf := ucast (sg_selector var),
     sf_ar_bytes sf := ucast (vmx_segment_access_rights
       (if enable_unrestricted_guest (rz_vmx s) \<and> seg \<noteq> VCPU_SREG_LDTR then var\<lparr>sg_type := sg_type var OR 1\<rparr> else var))))"
proof -
  let ?g = "(rz_segs s)\<lparr>seg_vmcs := rz_vmcs s, segs_avail := kvm_register_is_available VCPU_EXREG_SEGMENTS (rz_regs s),
    vm86_active := vr_vm86 (rz_regs s)\<rparr>"
  have "rz_vmcs (snd (vmx_set_segment mo var seg s)) =
    seg_vmcs (snd (raw_vmx_set_segment (enable_unrestricted_guest (rz_vmx s)) var seg ?g))"
    unfolding vmx_set_segment_def Let_def unrestricted_view [OF assms(2)]
    by (simp add: rz_vmcs_def rz_on_regs_def on_regs_def split: prod.split)
  also have "\<dots> = (let sf = kvm_vmx_segment_fields ! seg in (seg_vmcs ?g)
    (sf_base sf := sg_base var, sf_limit sf := ucast (sg_limit var), sf_selector sf := ucast (sg_selector var),
     sf_ar_bytes sf := ucast (vmx_segment_access_rights
       (if enable_unrestricted_guest (rz_vmx s) \<and> seg \<noteq> VCPU_SREG_LDTR then var\<lparr>sg_type := sg_type var OR 1\<rparr> else var))))"
    by (rule set_segment_vmcs [OF assms(1)])
  finally show ?thesis by simp
qed

definition seg_mapped :: "host_cpu \<Rightarrow> nat \<Rightarrow> bool" where
  "seg_mapped h seg \<longleftrightarrow> sel_base h seg \<noteq> None \<and> sel_desc h seg \<noteq> None"

lemma copy_segment_effect:
  assumes "seg_mapped h seg" "seg < 8" "sg_unusable var = 0" "vr_hflags (rz_regs s) = 0"
  obtains var' t where "copy_segment h mo seg (var, s) = Some (var', t)" "sg_unusable var' = 0"
    "rz_vmcs t = with_segment h (enable_unrestricted_guest (rz_vmx s)) seg (rz_vmcs s)" "rz_vmx t = rz_vmx s"
    "rs_ctrl (rz_run t) = rs_ctrl (rz_run s)" "same_setting s t" "vr_vm86 (rz_regs t) = vr_vm86 (rz_regs s)"
proof -
  obtain b d where bd: "sel_base h seg = Some b" "sel_desc h seg = Some d" using assms(1) by (auto simp: seg_mapped_def)
  let ?ug = "enable_unrestricted_guest (rz_vmx s)"
  let ?v = "set_segment_by_desc d (var\<lparr>sg_selector := h_sel h seg, sg_base := b, sg_limit := h_lsl h (h_sel h seg)\<rparr>)"
  obtain var' t where vt: "vmx_set_segment mo ?v seg s = (var', t)" by fastforce
  have ty: "sg_type ?v = desc_type d" "sg_unusable ?v = 0" using assms(3) by (simp_all add: set_segment_by_desc_def)
  have ar: "ucast (vmx_segment_access_rights (if ?ug \<and> seg \<noteq> VCPU_SREG_LDTR then ?v\<lparr>sg_type := sg_type ?v OR 1\<rparr> else ?v)) =
    desc_rights (accessed ?ug seg) d"
    using access_rights_of_desc [of "var\<lparr>sg_selector := h_sel h seg, sg_base := b, sg_limit := h_lsl h (h_sel h seg)\<rparr>" d "accessed ?ug seg"]
      assms(3) ty(1) by (cases "accessed ?ug seg") (auto simp: accessed_def set_type_again)
  have "copy_segment h mo seg (var, s) = Some (var', t)"
    using bd vt by (simp add: copy_segment_def sel_base_def sel_desc_def Let_def)
  moreover have "sg_unusable var' = 0"
    using vt ty(2) unfolding vmx_set_segment_def raw_vmx_set_segment_def Let_def by (auto split: prod.splits if_splits)
  moreover have "rz_vmcs t = with_segment h ?ug seg (rz_vmcs s)"
    using vmx_set_segment_vmcs [OF assms(2,4), of mo ?v, unfolded ar] vt
    by (simp add: with_segment_def bd Let_def) (simp add: set_segment_by_desc_def)
  moreover have "rz_vmx t = rz_vmx s" "rs_ctrl (rz_run t) = rs_ctrl (rz_run s)" "same_setting s t" "vr_vm86 (rz_regs t) = vr_vm86 (rz_regs s)"
    using vt unfolding vmx_set_segment_def Let_def by (auto simp: rz_on_regs_def on_regs_def same_setting_def split: prod.splits)
  ultimately show ?thesis using that by blast
qed

section \<open>The VMCS\<close>

context shadowed_control
begin

lemma set_as_update: "coherent l \<Longrightarrow> vmcs_field (controls_set sh upd f w l) = (vmcs_field l)(f := ucast w)"
  by (auto simp: coherent_def controls_set_def field_upd vmcs_write32_def)

end

lemma rz_vmcs_ctrl [rz_simps]: "rz_vmcs (on_ctrl g s) = vmcs_field (g ((rs_ctrl (rz_run s))\<lparr>vmcs_field := rz_vmcs s\<rparr>))"
  by (simp add: on_ctrl_def rz_vmcs_def rz_on_regs_def on_regs_def Let_def)

lemma rz_ctrl_frame [rz_simps]:
  "rs_ctrl (rz_run (on_ctrl g s)) = g ((rs_ctrl (rz_run s))\<lparr>vmcs_field := rz_vmcs s\<rparr>)" "rz_vmx (on_ctrl g s) = rz_vmx s"
  "vr_hflags (rz_regs (on_ctrl g s)) = vr_hflags (rz_regs s)" "vr_vm86 (rz_regs (on_ctrl g s)) = vr_vm86 (rz_regs s)"
  "guest_debug (rz_run (on_ctrl g s)) = guest_debug (rz_run s)"
  by (simp_all add: on_ctrl_def rz_on_regs_def on_regs_def Let_def)

lemma rz_host_frame [rz_simps]:
  "rz_vmcs (rz_on_host g s) = rz_vmcs s" "rs_ctrl (rz_run (rz_on_host g s)) = rs_ctrl (rz_run s)" "rz_vmx (rz_on_host g s) = rz_vmx s"
  "vr_hflags (rz_regs (rz_on_host g s)) = vr_hflags (rz_regs s)" "vr_vm86 (rz_regs (rz_on_host g s)) = vr_vm86 (rz_regs s)"
  "guest_debug (rz_run (rz_on_host g s)) = guest_debug (rz_run s)"
  by (simp_all add: rz_on_host_def rz_vmcs_def)

text \<open>The shadows of the five control words agree with the fields.\<close>

definition ctrl_coherent :: "(u32 \<Rightarrow> u64) \<Rightarrow> loaded_vmcs \<Rightarrow> bool" where
  "ctrl_coherent m l \<longleftrightarrow> m PIN_BASED_VM_EXEC_CONTROL = ucast (sh_pin l) \<and> m CPU_BASED_VM_EXEC_CONTROL = ucast (sh_exec l) \<and>
     m SECONDARY_VM_EXEC_CONTROL = ucast (sh_secondary_exec l) \<and> m VM_EXIT_CONTROLS = ucast (sh_vm_exit l) \<and>
     m VM_ENTRY_CONTROLS = ucast (sh_vm_entry l)"

lemma controls_set_field:
  "m PIN_BASED_VM_EXEC_CONTROL = ucast (sh_pin l) \<Longrightarrow>
    vmcs_field (pin_controls_set w (l\<lparr>vmcs_field := m\<rparr>)) = m(PIN_BASED_VM_EXEC_CONTROL := ucast w)"
  "m CPU_BASED_VM_EXEC_CONTROL = ucast (sh_exec l) \<Longrightarrow>
    vmcs_field (exec_controls_set w (l\<lparr>vmcs_field := m\<rparr>)) = m(CPU_BASED_VM_EXEC_CONTROL := ucast w)"
  "m SECONDARY_VM_EXEC_CONTROL = ucast (sh_secondary_exec l) \<Longrightarrow>
    vmcs_field (secondary_exec_controls_set w (l\<lparr>vmcs_field := m\<rparr>)) = m(SECONDARY_VM_EXEC_CONTROL := ucast w)"
  "m VM_EXIT_CONTROLS = ucast (sh_vm_exit l) \<Longrightarrow>
    vmcs_field (vm_exit_controls_set w (l\<lparr>vmcs_field := m\<rparr>)) = m(VM_EXIT_CONTROLS := ucast w)"
  "m VM_ENTRY_CONTROLS = ucast (sh_vm_entry l) \<Longrightarrow>
    vmcs_field (vm_entry_controls_set w (l\<lparr>vmcs_field := m\<rparr>)) = m(VM_ENTRY_CONTROLS := ucast w)"
  by (simp_all add: pin_control.set_as_update exec_control.set_as_update secondary_control.set_as_update exit_control.set_as_update
    entry_control.set_as_update shadow_coherent)

text \<open>The MSRs of the processor manuals that a reset reads, and all the numbers it passes to \<^verbatim>\<open>rdmsr\<close>.\<close>

definition documented_msrs :: "host_cpu \<Rightarrow> bool" where
  "documented_msrs h \<longleftrightarrow> (\<forall>m \<in> {MSR_IA32_SYSENTER_CS, MSR_IA32_SYSENTER_ESP, MSR_IA32_SYSENTER_EIP, MSR_IA32_DEBUGCTLMSR,
     MSR_FS_BASE, MSR_GS_BASE}. h_msr h m \<noteq> None)"

definition msrs_ok :: "host_cpu \<Rightarrow> bool" where
  "msrs_ok h \<longleftrightarrow> (\<forall>m \<in> {HOST_IA32_SYSENTER_CS, MSR_IA32_SYSENTER_CS, MSR_IA32_SYSENTER_ESP, MSR_IA32_SYSENTER_EIP, MSR_IA32_DEBUGCTLMSR,
     MSR_FS_BASE, MSR_GS_BASE}. h_msr h m \<noteq> None)"

abbreviation rdmsr :: "host_cpu \<Rightarrow> u32 \<Rightarrow> u64" where "rdmsr h m \<equiv> the (h_msr h m)"

definition setting :: "vmx_vcpu \<Rightarrow> bool \<times> bool \<times> u32 \<times> bool" where
  "setting v = (enable_ept v, enable_unrestricted_guest v, vmx_vpid v, pt_system v)"

lemma setting_kept [simp]:
  "setting (snd (clear_bits c b x)) = setting (snd x)" "setting (snd (vmx_adjust_secondary_exec_control ct e y x)) = setting (snd x)"
  "setting (snd (vmx_adjust_sec_exec_control conf ct y x)) = setting (snd x)"
  by (auto simp: setting_def clear_bits_def vmx_adjust_secondary_exec_control_def vmx_adjust_sec_exec_control_def Let_def split: prod.splits)

lemma setting_update [simp]: "setting (v\<lparr>xsaves_enabled := b\<rparr>) = setting v"
  by (simp add: setting_def)

lemma secondary_keeps_setting:
  assumes "enable_unrestricted_guest v \<longrightarrow> enable_ept v"
  shows "setting (snd (vmx_secondary_exec_control conf v)) = setting v"
proof -
  have ug: "setting (w\<lparr>enable_unrestricted_guest := False\<rparr>) = setting v" if "\<not> enable_ept v" "setting w = setting v" for w
    using assms that by (auto simp: setting_def)
  show ?thesis
    unfolding vmx_secondary_exec_control_def Let_def by (simp add: ug if_distrib [of setting] if_distrib [of snd])
qed

definition holds :: "(u32 \<Rightarrow> u64) \<Rightarrow> (u32 \<times> u64) list \<Rightarrow> bool" where
  "holds m table \<longleftrightarrow> (\<forall>(f, x) \<in> set table. m f = x)"

lemma cr_masks_vmcs:
  "\<exists>x. rz_vmcs (rz_on_regs (init_vmcs_cr_masks p) s) = (rz_vmcs s)(CR0_GUEST_HOST_MASK := NOT (vmx_l1_guest_owned_cr0_bits p), CR4_GUEST_HOST_MASK := x)"
  by (auto simp: rz_vmcs_def rz_on_regs_def on_regs_def init_vmcs_cr_masks_def set_cr4_guest_host_mask_def vr_write_def Let_def)

lemma cr_masks_frame:
  fixes p s defines "t \<equiv> rz_on_regs (init_vmcs_cr_masks p) s"
  shows "rz_vmx t = rz_vmx s" "vr_hflags (rz_regs t) = vr_hflags (rz_regs s)" "vr_vm86 (rz_regs t) = vr_vm86 (rz_regs s)"
    "guest_debug (rz_run t) = guest_debug (rz_run s)" "rs_ctrl (rz_run t) = rs_ctrl (rz_run s)"
  by (simp_all add: t_def rz_on_regs_def on_regs_def init_vmcs_cr_masks_def set_cr4_guest_host_mask_def vr_write_def Let_def)

text \<open>
  A step of the reset: it leaves the settings and the control shadows alone, and of the VMCS only \<open>fs\<close> may change,
  where it leaves the entries of \<open>table\<close>.
\<close>

definition writes :: "u32 list \<Rightarrow> (u32 \<times> u64) list \<Rightarrow> reset_state \<Rightarrow> reset_state \<Rightarrow> bool" where
  "writes fs table s t \<longleftrightarrow> holds (rz_vmcs t) table \<and> (\<forall>f. f \<notin> set fs \<longrightarrow> rz_vmcs t f = rz_vmcs s f) \<and>
     setting (rz_vmx t) = setting (rz_vmx s) \<and> vr_hflags (rz_regs t) = vr_hflags (rz_regs s) \<and> vr_vm86 (rz_regs t) = vr_vm86 (rz_regs s) \<and>
     guest_debug (rz_run t) = guest_debug (rz_run s)"

lemma writes_trans:
  assumes "writes fs a s t" "writes gs b t u" "set (map fst a) \<inter> set gs = {}"
  shows "writes (fs @ gs) (a @ b) s u"
proof -
  have keep: "rz_vmcs u f = rz_vmcs t f" if "(f, x) \<in> set a" for f x
  proof -
    have "f \<in> set (map fst a)" using that by force
    then show ?thesis using assms(2,3) by (auto simp: writes_def disjoint_iff)
  qed
  have "holds (rz_vmcs u) a" using assms(1) keep unfolding writes_def holds_def by fastforce
  then show ?thesis using assms(1,2) unfolding writes_def holds_def by auto
qed

lemma holdsD: "holds m table \<Longrightarrow> (f, x) \<in> set table \<Longrightarrow> m f = x"
  by (auto simp: holds_def)

lemma holds_subset: "holds m a \<Longrightarrow> set b \<subseteq> set a \<Longrightarrow> holds m b"
  by (auto simp: holds_def dest: subsetD)

lemma writes_weaken: "writes fs a s t \<Longrightarrow> set fs \<subseteq> set gs \<Longrightarrow> set b \<subseteq> set a \<Longrightarrow> writes gs b s t"
  using holds_subset unfolding writes_def by blast

lemma writes_refl: "writes [] [] s s"
  by (simp add: writes_def holds_def)

lemma writes_write: "writes fs a s t \<Longrightarrow> f \<notin> set (map fst a) \<Longrightarrow> writes (f # fs) ((f, x) # a) s (rz_write f x t)"
  by (force simp: writes_def holds_def rz_simps)

lemma writes_write_if: "writes fs a s t \<Longrightarrow> f \<notin> set (map fst a) \<Longrightarrow> writes (f # fs) a s (rz_write_if c f x t)"
  by (force simp: writes_def holds_def rz_simps)

lemma writes_host: "writes fs a s t \<Longrightarrow> writes fs a s (rz_on_host g t)"
  by (simp add: writes_def rz_simps)

lemma writes_mask: "writes fs a s t \<Longrightarrow> writes fs a s (if c then t\<lparr>pt_guest_output_mask := x\<rparr> else t)"
  by (simp add: writes_def rz_vmcs_def)

lemmas writes_steps = writes_write writes_write_if writes_host writes_mask writes_refl

lemma bitmaps_effect: "writes [MSR_BITMAP, IO_BITMAP_A, IO_BITMAP_B, VMCS_LINK_POINTER] [(VMCS_LINK_POINTER, INVALID_GPA)] s (init_vmcs_bitmaps h conf s) \<and>
    rs_ctrl (rz_run (init_vmcs_bitmaps h conf s)) = rs_ctrl (rz_run s)"
  by (simp add: writes_def holds_def init_vmcs_bitmaps_def rz_simps Let_def)

lemma apicv_effect: "writes [EOI_EXIT_BITMAP0, EOI_EXIT_BITMAP1, EOI_EXIT_BITMAP2, EOI_EXIT_BITMAP3, GUEST_INTR_STATUS, POSTED_INTR_NV,
      PAGE_FAULT_ERROR_CODE_MASK, PAGE_FAULT_ERROR_CODE_MATCH, CR3_TARGET_COUNT, HOST_FS_SELECTOR, HOST_GS_SELECTOR]
    [(HOST_FS_SELECTOR, host_sel h VCPU_SREG_FS), (HOST_GS_SELECTOR, host_sel h VCPU_SREG_GS)] s (init_vmcs_apicv h mo s) \<and>
    rs_ctrl (rz_run (init_vmcs_apicv h mo s)) = rs_ctrl (rz_run s)"
  by (simp add: writes_def holds_def init_vmcs_apicv_def rz_simps Let_def) (simp add: vmcs_fields)

text \<open>The entries of the host's part that \<^verbatim>\<open>vmx_set_constant_host_state\<close> writes.\<close>

definition constant_host_area :: "host_cpu \<Rightarrow> vmx_module \<Rightarrow> (u32 \<times> u64) list" where
  "constant_host_area h mo = [(HOST_CR0, h_cr0 h), (HOST_CR3, h_cr3 h), (HOST_CR4, h_cr4 h), (HOST_RIP, h_vmx_vmexit h),
     (HOST_IDTR_BASE, host_idt_base mo), (HOST_ES_SELECTOR, host_sel h VCPU_SREG_ES), (HOST_CS_SELECTOR, host_sel h VCPU_SREG_CS),
     (HOST_SS_SELECTOR, host_sel h VCPU_SREG_SS), (HOST_DS_SELECTOR, host_sel h VCPU_SREG_DS), (HOST_TR_SELECTOR, host_sel h VCPU_SREG_TR),
     (HOST_IA32_SYSENTER_CS, rdmsr h HOST_IA32_SYSENTER_CS AND 0xffffffff), (HOST_IA32_SYSENTER_ESP, rdmsr h MSR_IA32_SYSENTER_ESP),
     (HOST_IA32_SYSENTER_EIP, rdmsr h MSR_IA32_SYSENTER_EIP)]"

lemma host_state_effect:
  assumes "msrs_ok h"
  obtains t where "vmx_set_constant_host_state h mo s = Some t" "writes (map fst (constant_host_area h mo)) (constant_host_area h mo) s t"
    "rs_ctrl (rz_run t) = rs_ctrl (rz_run s)"
proof -
  obtain c e i where m: "h_msr h HOST_IA32_SYSENTER_CS = Some c" "h_msr h MSR_IA32_SYSENTER_ESP = Some e" "h_msr h MSR_IA32_SYSENTER_EIP = Some i"
    using assms by (auto simp: msrs_ok_def)
  let ?t = "the (vmx_set_constant_host_state h mo s)"
  have t: "vmx_set_constant_host_state h mo s = Some ?t" by (simp add: vmx_set_constant_host_state_def m Let_def)
  have "writes (map fst (constant_host_area h mo)) (constant_host_area h mo) s ?t \<and> rs_ctrl (rz_run ?t) = rs_ctrl (rz_run s)"
    unfolding vmx_set_constant_host_state_def Let_def m bind.bind_lunit option.sel
    by (rule conjI, rule writes_weaken, (rule writes_steps)+) (simp_all add: constant_host_area_def m [unfolded vmcs_fields] vmcs_fields rz_simps)
  then show ?thesis using that t by blast
qed

definition feature_fields :: "u32 list" where
  "feature_fields = [HOST_FS_BASE, HOST_GS_BASE, VM_EXIT_MSR_STORE_COUNT, VM_EXIT_MSR_LOAD_COUNT, VM_ENTRY_MSR_LOAD_COUNT, VIRTUAL_PROCESSOR_ID,
     XSS_EXIT_BITMAP, PML_ADDRESS, ENCLS_EXITING_BITMAP, VM_FUNCTION_CONTROL, GUEST_IA32_PAT]"

lemma features_effect:
  assumes "msrs_ok h"
  obtains t where "init_vmcs_features h mo s = Some t"
    "writes feature_fields [(HOST_FS_BASE, rdmsr h MSR_FS_BASE), (HOST_GS_BASE, rdmsr h MSR_GS_BASE)] s t"
    "rs_ctrl (rz_run t) = rs_ctrl (rz_run s)"
proof -
  obtain a b where m: "h_msr h MSR_FS_BASE = Some a" "h_msr h MSR_GS_BASE = Some b" using assms by (auto simp: msrs_ok_def)
  let ?t = "the (init_vmcs_features h mo s)"
  have t: "init_vmcs_features h mo s = Some ?t" by (simp add: init_vmcs_features_def m Let_def)
  have "writes feature_fields [(HOST_FS_BASE, rdmsr h MSR_FS_BASE), (HOST_GS_BASE, rdmsr h MSR_GS_BASE)] s ?t \<and>
    rs_ctrl (rz_run ?t) = rs_ctrl (rz_run s)"
    unfolding init_vmcs_features_def vmx_write_encls_bitmap_def Let_def m bind.bind_lunit option.sel
    by (rule conjI, rule writes_weaken, (rule writes_steps)+) (simp_all add: feature_fields_def vmcs_fields rz_simps)
  then show ?thesis using that t by blast
qed

text \<open>What the reset puts into the guest's part besides segments and control registers.\<close>

definition guest_constants :: "host_cpu \<Rightarrow> (u32 \<times> u64) list" where
  "guest_constants h = [(GUEST_RIP, h_vm_restore_state h), (GUEST_SYSENTER_CS, rdmsr h MSR_IA32_SYSENTER_CS AND 0xffffffff),
     (GUEST_SYSENTER_ESP, rdmsr h MSR_IA32_SYSENTER_ESP), (GUEST_SYSENTER_EIP, rdmsr h MSR_IA32_SYSENTER_EIP),
     (GUEST_IA32_DEBUGCTL, rdmsr h MSR_IA32_DEBUGCTLMSR), (GUEST_ES_BASE, 0), (GUEST_SS_BASE, 0), (GUEST_DS_BASE, 0)]"

lemma guest_effect:
  assumes "msrs_ok h"
  obtains t where "init_vmcs_guest h mo s = Some t"
    "writes (GUEST_IA32_RTIT_CTL # VIRTUAL_APIC_PAGE_ADDR # TPR_THRESHOLD # map fst (guest_constants h)) (guest_constants h) s t"
proof -
  obtain a b c d where m: "h_msr h MSR_IA32_SYSENTER_CS = Some a" "h_msr h MSR_IA32_SYSENTER_ESP = Some b"
      "h_msr h MSR_IA32_SYSENTER_EIP = Some c" "h_msr h MSR_IA32_DEBUGCTLMSR = Some d"
    using assms by (auto simp: msrs_ok_def)
  let ?t = "the (init_vmcs_guest h mo s)"
  have t: "init_vmcs_guest h mo s = Some ?t" by (simp add: init_vmcs_guest_def m Let_def)
  have "writes (GUEST_IA32_RTIT_CTL # VIRTUAL_APIC_PAGE_ADDR # TPR_THRESHOLD # map fst (guest_constants h)) (guest_constants h) s ?t"
    unfolding init_vmcs_guest_def Let_def m bind.bind_lunit option.sel
    by (rule writes_weaken, (rule writes_steps)+) (simp_all add: guest_constants_def m [unfolded vmcs_fields] vmcs_fields)
  then show ?thesis using that t by blast
qed

lemma ctrl_effect:
  assumes "ctrl_coherent (rz_vmcs s) (rs_ctrl (rz_run s))"
  shows "writes [PIN_BASED_VM_EXEC_CONTROL] [(PIN_BASED_VM_EXEC_CONTROL, ucast w)] s (on_ctrl (pin_controls_set w) s)"
    "writes [CPU_BASED_VM_EXEC_CONTROL] [(CPU_BASED_VM_EXEC_CONTROL, ucast w)] s (on_ctrl (exec_controls_set w) s)"
    "writes [VM_EXIT_CONTROLS] [(VM_EXIT_CONTROLS, ucast w)] s (on_ctrl (vm_exit_controls_set w) s)"
    "writes [VM_ENTRY_CONTROLS] [(VM_ENTRY_CONTROLS, ucast w)] s (on_ctrl (vm_entry_controls_set w) s)"
    "writes [SECONDARY_VM_EXEC_CONTROL] [(SECONDARY_VM_EXEC_CONTROL, ucast w)] s (on_ctrl (secondary_exec_controls_set w) s)"
  using assms by (simp_all add: writes_def holds_def rz_simps controls_set_field ctrl_coherent_def)

lemma ctrl_coherent_kept:
  assumes "ctrl_coherent (rz_vmcs s) (rs_ctrl (rz_run s))"
  shows "t = on_ctrl (pin_controls_set w) s \<or> t = on_ctrl (exec_controls_set w) s \<or> t = on_ctrl (vm_exit_controls_set w) s \<or>
      t = on_ctrl (vm_entry_controls_set w) s \<or> t = on_ctrl (secondary_exec_controls_set w) s \<Longrightarrow>
    ctrl_coherent (rz_vmcs t) (rs_ctrl (rz_run t))"
  using assms by (elim disjE) (simp_all add: ctrl_coherent_def rz_simps controls_set_field control_fields, simp_all add: controls_set_def vmcs_write32_def)

lemma ctrl_coherent_frame:
  assumes "ctrl_coherent (rz_vmcs s) (rs_ctrl (rz_run s))" "writes fs table s t" "rs_ctrl (rz_run t) = rs_ctrl (rz_run s)"
    "set fs \<inter> {PIN_BASED_VM_EXEC_CONTROL, CPU_BASED_VM_EXEC_CONTROL, SECONDARY_VM_EXEC_CONTROL, VM_EXIT_CONTROLS, VM_ENTRY_CONTROLS} = {}"
  shows "ctrl_coherent (rz_vmcs t) (rs_ctrl (rz_run t))"
proof -
  have "rz_vmcs t f = rz_vmcs s f" if "f \<in> {PIN_BASED_VM_EXEC_CONTROL, CPU_BASED_VM_EXEC_CONTROL, SECONDARY_VM_EXEC_CONTROL, VM_EXIT_CONTROLS, VM_ENTRY_CONTROLS}" for f
    using assms(2,4) that unfolding writes_def by blast
  then show ?thesis using assms(1,3) by (simp add: ctrl_coherent_def)
qed

lemma secondary_effect:
  assumes "ctrl_coherent (rz_vmcs s) (rs_ctrl (rz_run s))" "enable_unrestricted_guest (rz_vmx s) \<longrightarrow> enable_ept (rz_vmx s)"
    "t = set_secondary conf s"
  shows "writes [SECONDARY_VM_EXEC_CONTROL] (if cpu_has_secondary_exec_ctrls conf
      then [(SECONDARY_VM_EXEC_CONTROL, ucast (fst (vmx_secondary_exec_control conf (rz_vmx s))))] else []) s t"
    "ctrl_coherent (rz_vmcs t) (rs_ctrl (rz_run t))"
proof -
  obtain w v where wv: "vmx_secondary_exec_control conf (rz_vmx s) = (w, v)" by fastforce
  have v: "setting v = setting (rz_vmx s)" using secondary_keeps_setting [OF assms(2), of conf] wv by simp
  let ?s = "s\<lparr>rz_vmx := v\<rparr>"
  have vm: "rz_vmcs ?s = rz_vmcs s" by (simp add: rz_vmcs_def)
  have coh: "ctrl_coherent (rz_vmcs ?s) (rs_ctrl (rz_run ?s))" using assms(1) vm by simp
  have t: "t = (if cpu_has_secondary_exec_ctrls conf then on_ctrl (secondary_exec_controls_set w) ?s else s)"
    by (simp add: assms(3) set_secondary_def wv)
  have "writes [SECONDARY_VM_EXEC_CONTROL] [(SECONDARY_VM_EXEC_CONTROL, ucast w)] s (on_ctrl (secondary_exec_controls_set w) ?s)"
    using ctrl_effect(5) [OF coh, of w] v vm by (simp add: writes_def)
  moreover have "writes [SECONDARY_VM_EXEC_CONTROL] [] s s" by (simp add: writes_def holds_def)
  ultimately show "writes [SECONDARY_VM_EXEC_CONTROL] (if cpu_has_secondary_exec_ctrls conf
      then [(SECONDARY_VM_EXEC_CONTROL, ucast (fst (vmx_secondary_exec_control conf (rz_vmx s))))] else []) s t"
    by (simp add: t wv)
  show "ctrl_coherent (rz_vmcs t) (rs_ctrl (rz_run t))"
    using ctrl_coherent_kept [OF coh, of _ w] assms(1) by (auto simp: t)
qed

lemma cr_masks_effect: "writes [CR0_GUEST_HOST_MASK, CR4_GUEST_HOST_MASK] [] s (rz_on_regs (init_vmcs_cr_masks p) s)"
  using cr_masks_vmcs [of p s] by (auto simp: writes_def holds_def cr_masks_frame)

lemma exit_words_setting:
  "setting v = setting v' \<Longrightarrow> vmx_vmexit_ctrl conf v = vmx_vmexit_ctrl conf v'"
  "setting v = setting v' \<Longrightarrow> vmx_vmentry_ctrl conf v = vmx_vmentry_ctrl conf v'"
  by (simp_all add: setting_def vmx_vmexit_ctrl_def vmx_vmentry_ctrl_def)

text \<open>The part of \<^verbatim>\<open>init_vmcs\<close> up to the host's state.\<close>

definition init_head :: "host_cpu \<Rightarrow> vmx_module \<Rightarrow> reset_state \<Rightarrow> reset_state" where
  "init_head h mo s = (let
       conf = mod_conf mo;
       s = init_vmcs_bitmaps h conf s;
       s = on_ctrl (pin_controls_set (vmx_pin_based_exec_ctrl conf)) s;
       s = on_ctrl (exec_controls_set (vmx_exec_control conf (rz_vmx s))) s in
     init_vmcs_apicv h mo (set_secondary conf s))"

definition head_table :: "host_cpu \<Rightarrow> vmcs_config \<Rightarrow> vmx_vcpu \<Rightarrow> (u32 \<times> u64) list" where
  "head_table h conf v = [(VMCS_LINK_POINTER, INVALID_GPA), (PIN_BASED_VM_EXEC_CONTROL, ucast (vmx_pin_based_exec_ctrl conf)),
     (CPU_BASED_VM_EXEC_CONTROL, ucast (vmx_exec_control conf v))] @
     (if cpu_has_secondary_exec_ctrls conf then [(SECONDARY_VM_EXEC_CONTROL, ucast (fst (vmx_secondary_exec_control conf v)))] else []) @
     [(HOST_FS_SELECTOR, host_sel h VCPU_SREG_FS), (HOST_GS_SELECTOR, host_sel h VCPU_SREG_GS)]"

definition head_fields :: "u32 list" where
  "head_fields = [MSR_BITMAP, IO_BITMAP_A, IO_BITMAP_B, VMCS_LINK_POINTER, PIN_BASED_VM_EXEC_CONTROL, CPU_BASED_VM_EXEC_CONTROL,
     SECONDARY_VM_EXEC_CONTROL, EOI_EXIT_BITMAP0, EOI_EXIT_BITMAP1, EOI_EXIT_BITMAP2, EOI_EXIT_BITMAP3, GUEST_INTR_STATUS, POSTED_INTR_NV,
     PAGE_FAULT_ERROR_CODE_MASK, PAGE_FAULT_ERROR_CODE_MATCH, CR3_TARGET_COUNT, HOST_FS_SELECTOR, HOST_GS_SELECTOR]"

lemma init_head_effect:
  assumes "ctrl_coherent (rz_vmcs s) (rs_ctrl (rz_run s))" "enable_unrestricted_guest (rz_vmx s) \<longrightarrow> enable_ept (rz_vmx s)"
  shows "writes head_fields (head_table h (mod_conf mo) (rz_vmx s)) s (init_head h mo s)"
    "ctrl_coherent (rz_vmcs (init_head h mo s)) (rs_ctrl (rz_run (init_head h mo s)))"
proof -
  let ?conf = "mod_conf mo"
  let ?b = "init_vmcs_bitmaps h ?conf s"
  let ?p = "on_ctrl (pin_controls_set (vmx_pin_based_exec_ctrl ?conf)) ?b"
  let ?e = "on_ctrl (exec_controls_set (vmx_exec_control ?conf (rz_vmx s))) ?p"
  let ?c = "set_secondary ?conf ?e"
  have v: "rz_vmx ?b = rz_vmx s" "rz_vmx ?p = rz_vmx s" "rz_vmx ?e = rz_vmx s" by (simp_all add: rz_simps init_vmcs_bitmaps_def Let_def)
  have head: "init_head h mo s = init_vmcs_apicv h mo ?c" by (simp add: init_head_def v Let_def)
  note b = bitmaps_effect [of s h ?conf]
  have coh_b: "ctrl_coherent (rz_vmcs ?b) (rs_ctrl (rz_run ?b))"
    by (rule ctrl_coherent_frame [OF assms(1) conjunct1 [OF b] conjunct2 [OF b]]) (simp add: vmcs_fields)
  have coh_p: "ctrl_coherent (rz_vmcs ?p) (rs_ctrl (rz_run ?p))" using ctrl_coherent_kept [OF coh_b] by blast
  have coh_e: "ctrl_coherent (rz_vmcs ?e) (rs_ctrl (rz_run ?e))" using ctrl_coherent_kept [OF coh_p] by blast
  have "enable_unrestricted_guest (rz_vmx ?e) \<longrightarrow> enable_ept (rz_vmx ?e)" using assms(2) v by simp
  note sec = secondary_effect [OF coh_e this refl, of ?conf, unfolded v]
  note a = apicv_effect [of h ?c mo]
  show "ctrl_coherent (rz_vmcs (init_head h mo s)) (rs_ctrl (rz_run (init_head h mo s)))"
    unfolding head by (rule ctrl_coherent_frame [OF sec(2) conjunct1 [OF a] conjunct2 [OF a]]) (simp add: vmcs_fields)
  note b = conjunct1 [OF b] and p = ctrl_effect(1) [OF coh_b, of "vmx_pin_based_exec_ctrl ?conf"]
    and e = ctrl_effect(2) [OF coh_p, of "vmx_exec_control ?conf (rz_vmx s)"]
  show "writes head_fields (head_table h ?conf (rz_vmx s)) s (init_head h mo s)"
    unfolding head
    by (rule writes_weaken [OF writes_trans [OF writes_trans [OF writes_trans [OF writes_trans [OF b p] e] sec(1)] conjunct1 [OF a]]])
      (auto simp: head_fields_def head_table_def vmcs_fields)
qed

definition tail_table :: "host_cpu \<Rightarrow> vmx_module \<Rightarrow> vmx_vcpu \<Rightarrow> (u32 \<times> u64) list" where
  "tail_table h mo v = constant_host_area h mo @ [(HOST_FS_BASE, rdmsr h MSR_FS_BASE), (HOST_GS_BASE, rdmsr h MSR_GS_BASE),
     (VM_EXIT_CONTROLS, ucast (vmx_vmexit_ctrl (mod_conf mo) v)), (VM_ENTRY_CONTROLS, ucast (vmx_vmentry_ctrl (mod_conf mo) v))] @ guest_constants h"

definition tail_fields :: "host_cpu \<Rightarrow> vmx_module \<Rightarrow> u32 list" where
  "tail_fields h mo = map fst (constant_host_area h mo) @ feature_fields @ [VM_EXIT_CONTROLS, VM_ENTRY_CONTROLS, CR0_GUEST_HOST_MASK,
     CR4_GUEST_HOST_MASK, GUEST_IA32_RTIT_CTL, VIRTUAL_APIC_PAGE_ADDR, TPR_THRESHOLD] @ map fst (guest_constants h)"

lemma init_vmcs_effect:
  assumes "msrs_ok h" "ctrl_coherent (rz_vmcs s) (rs_ctrl (rz_run s))" "enable_unrestricted_guest (rz_vmx s) \<longrightarrow> enable_ept (rz_vmx s)"
  obtains t where "init_vmcs h mo s = Some t"
    "writes (head_fields @ tail_fields h mo) (head_table h (mod_conf mo) (rz_vmx s) @ tail_table h mo (rz_vmx s)) s t"
proof -
  let ?conf = "mod_conf mo"
  let ?a = "init_head h mo s"
  note a = init_head_effect [OF assms(2,3), of h mo]
  obtain H where H: "vmx_set_constant_host_state h mo ?a = Some H" "writes (map fst (constant_host_area h mo)) (constant_host_area h mo) ?a H"
      "rs_ctrl (rz_run H) = rs_ctrl (rz_run ?a)"
    using host_state_effect [OF assms(1)] by blast
  obtain F where F: "init_vmcs_features h mo H = Some F"
      "writes feature_fields [(HOST_FS_BASE, rdmsr h MSR_FS_BASE), (HOST_GS_BASE, rdmsr h MSR_GS_BASE)] H F" "rs_ctrl (rz_run F) = rs_ctrl (rz_run H)"
    using features_effect [OF assms(1)] by blast
  let ?x = "on_ctrl (vm_exit_controls_set (vmx_vmexit_ctrl ?conf (rz_vmx F))) F"
  let ?y = "on_ctrl (vm_entry_controls_set (vmx_vmentry_ctrl ?conf (rz_vmx ?x))) ?x"
  let ?m = "rz_on_regs (init_vmcs_cr_masks (params_of mo ?y)) ?y"
  obtain t where t: "init_vmcs_guest h mo ?m = Some t"
      "writes (GUEST_IA32_RTIT_CTL # VIRTUAL_APIC_PAGE_ADDR # TPR_THRESHOLD # map fst (guest_constants h)) (guest_constants h) ?m t"
    using guest_effect [OF assms(1)] by blast
  have res: "init_vmcs h mo s = Some t" using H(1) F(1) t(1) by (simp add: init_vmcs_def init_head_def Let_def)
  have coh_H: "ctrl_coherent (rz_vmcs H) (rs_ctrl (rz_run H))"
    by (rule ctrl_coherent_frame [OF a(2) H(2,3)]) (simp add: constant_host_area_def vmcs_fields)
  have coh_F: "ctrl_coherent (rz_vmcs F) (rs_ctrl (rz_run F))"
    by (rule ctrl_coherent_frame [OF coh_H F(2,3)]) (simp add: feature_fields_def vmcs_fields)
  have coh_x: "ctrl_coherent (rz_vmcs ?x) (rs_ctrl (rz_run ?x))" using ctrl_coherent_kept [OF coh_F] by blast
  have "setting (rz_vmx F) = setting (rz_vmx s)" using a(1) H(2) F(2) by (simp add: writes_def)
  note w = exit_words_setting [OF this, of ?conf] rz_ctrl_frame(2)
  note x = ctrl_effect(3) [OF coh_F, of "vmx_vmexit_ctrl ?conf (rz_vmx F)"]
    and y = ctrl_effect(4) [OF coh_x, of "vmx_vmentry_ctrl ?conf (rz_vmx ?x)"]
  have dis: "set (map fst (head_table h ?conf (rz_vmx s))) \<inter> set (tail_fields h mo) = {}"
    by (cases "cpu_has_secondary_exec_ctrls ?conf")
      (simp_all add: head_table_def tail_fields_def constant_host_area_def feature_fields_def guest_constants_def vmcs_fields)
  have "writes (tail_fields h mo) (tail_table h mo (rz_vmx s)) ?a t"
    by (rule writes_weaken [OF writes_trans [OF writes_trans [OF writes_trans [OF writes_trans [OF writes_trans [OF H(2) F(2)] x] y]
        cr_masks_effect] t(2)]])
      (auto simp: tail_fields_def tail_table_def w constant_host_area_def feature_fields_def guest_constants_def vmcs_fields)
  then show ?thesis using that [OF res] writes_trans [OF a(1) _ dis] by blast
qed

end
