(* ===== verification/Vcpu_Reset_Props.thy ===== *)
theory Vcpu_Reset_Props
  imports Vcpu_Reset_Steps Vcpu_Run_Props
begin

text \<open>
  What a reset leaves in the VMCS: tables of the guest's and the host's part as the CPU that runs the
  reset gives them, and that the reset writes them.
\<close>

section \<open>Segments of a reset\<close>

definition seg_fields :: "nat \<Rightarrow> u32 list" where
  "seg_fields seg = (let sf = kvm_vmx_segment_fields ! seg in [sf_base sf, sf_limit sf, sf_selector sf, sf_ar_bytes sf])"

definition seg_table :: "host_cpu \<Rightarrow> bool \<Rightarrow> nat \<Rightarrow> (u32 \<times> u64) list" where
  "seg_table h ug seg = (let sf = kvm_vmx_segment_fields ! seg in
     [(sf_base sf, the (sel_base h seg)), (sf_limit sf, ucast (h_lsl h (h_sel h seg))), (sf_selector sf, ucast (h_sel h seg)),
      (sf_ar_bytes sf, desc_rights (accessed ug seg) (the (sel_desc h seg)))])"

lemma fst_seg_table: "map fst (seg_table h ug seg) = seg_fields seg"
  by (simp add: seg_table_def seg_fields_def Let_def)

lemma seg_fields_disjoint: "i < 8 \<Longrightarrow> j < 8 \<Longrightarrow> i \<noteq> j \<Longrightarrow> set (seg_fields i) \<inter> set (seg_fields j) = {}"
proof -
  have lt: "n \<in> {0, 1, 2, 3, 4, 5, 6, 7}" if "n < 8" for n :: nat using that by (simp add: less_Suc_eq eval_nat_numeral)
  have "\<forall>i \<in> {0, 1, 2, 3, 4, 5, 6, 7}. \<forall>j \<in> {0, 1, 2, 3, 4, 5, 6, 7}. i \<noteq> j \<longrightarrow> set (seg_fields i) \<inter> set (seg_fields j) = {}"
    by (simp add: seg_fields_def kvm_vmx_segment_fields_def Let_def)
  then show "i < 8 \<Longrightarrow> j < 8 \<Longrightarrow> i \<noteq> j \<Longrightarrow> set (seg_fields i) \<inter> set (seg_fields j) = {}" using lt by blast
qed

fun copy_segments :: "host_cpu \<Rightarrow> vmx_module \<Rightarrow> nat list \<Rightarrow> kvm_segment \<times> reset_state \<Rightarrow> (kvm_segment \<times> reset_state) option" where
  "copy_segments h mo [] c = Some c"
| "copy_segments h mo (seg # segs) c = copy_segment h mo seg c \<bind> copy_segments h mo segs"

lemma copy_segment_writes:
  assumes "seg_mapped h seg" "seg < 8" "sg_unusable var = 0" "vr_hflags (rz_regs s) = 0"
  obtains var' t where "copy_segment h mo seg (var, s) = Some (var', t)" "sg_unusable var' = 0" "rs_ctrl (rz_run t) = rs_ctrl (rz_run s) \<and> rz_vmx t = rz_vmx s"
    "writes (seg_fields seg) (seg_table h (enable_unrestricted_guest (rz_vmx s)) seg) s t"
proof -
  obtain var' t where *: "copy_segment h mo seg (var, s) = Some (var', t)" "sg_unusable var' = 0"
      "rz_vmcs t = with_segment h (enable_unrestricted_guest (rz_vmx s)) seg (rz_vmcs s)" "rz_vmx t = rz_vmx s"
      "rs_ctrl (rz_run t) = rs_ctrl (rz_run s)" "same_setting s t" "vr_vm86 (rz_regs t) = vr_vm86 (rz_regs s)"
    using copy_segment_effect [OF assms] by blast
  have "writes (seg_fields seg) (seg_table h (enable_unrestricted_guest (rz_vmx s)) seg) s t"
    using * seg_fields_apart [OF assms(2) refl]
    by (auto simp: writes_def holds_def same_setting_def with_segment_def seg_table_def seg_fields_def Let_def)
  then show ?thesis using that * by blast
qed

lemma copy_segments_writes:
  assumes "\<forall>seg \<in> set segs. seg_mapped h seg \<and> seg < 8" "distinct segs" "sg_unusable var = 0" "vr_hflags (rz_regs s) = 0"
  shows "\<exists>var' t. copy_segments h mo segs (var, s) = Some (var', t) \<and> rs_ctrl (rz_run t) = rs_ctrl (rz_run s) \<and> rz_vmx t = rz_vmx s \<and>
    writes (concat (map seg_fields segs)) (concat (map (seg_table h (enable_unrestricted_guest (rz_vmx s))) segs)) s t"
  using assms
proof (induction segs arbitrary: var s)
  case Nil then show ?case by (simp add: writes_refl)
next
  case (Cons seg segs)
  obtain var' t where 1: "copy_segment h mo seg (var, s) = Some (var', t)" "sg_unusable var' = 0" "rs_ctrl (rz_run t) = rs_ctrl (rz_run s) \<and> rz_vmx t = rz_vmx s"
    "writes (seg_fields seg) (seg_table h (enable_unrestricted_guest (rz_vmx s)) seg) s t"
    using copy_segment_writes Cons.prems by (metis list.set_intros(1))
  have ug: "enable_unrestricted_guest (rz_vmx t) = enable_unrestricted_guest (rz_vmx s)" "vr_hflags (rz_regs t) = 0"
    using 1(4) Cons.prems(4) by (auto simp: writes_def setting_def)
  obtain var'' u where 2: "copy_segments h mo segs (var', t) = Some (var'', u)" "rs_ctrl (rz_run u) = rs_ctrl (rz_run t) \<and> rz_vmx u = rz_vmx t"
    "writes (concat (map seg_fields segs)) (concat (map (seg_table h (enable_unrestricted_guest (rz_vmx s))) segs)) t u"
    using Cons.IH [of var' t] Cons.prems 1(2) ug by auto
  have "set (map fst (seg_table h (enable_unrestricted_guest (rz_vmx s)) seg)) \<inter> set (concat (map seg_fields segs)) = {}"
    using seg_fields_disjoint Cons.prems(1,2) unfolding fst_seg_table by fastforce
  then show ?case using 1 2 writes_trans [OF 1(4) 2(3)] by simp
qed

section \<open>Reset\<close>

text \<open>A selector, limit and access rights, without the base.\<close>

abbreviation seg_rest :: "host_cpu \<Rightarrow> bool \<Rightarrow> nat \<Rightarrow> (u32 \<times> u64) list" where "seg_rest h ug seg \<equiv> tl (seg_table h ug seg)"

abbreviation init_fields :: "host_cpu \<Rightarrow> vmx_module \<Rightarrow> u32 list" where "init_fields h mo \<equiv> head_fields @ tail_fields h mo"

abbreviation init_table :: "host_cpu \<Rightarrow> vmx_module \<Rightarrow> vmx_vcpu \<Rightarrow> (u32 \<times> u64) list" where
  "init_table h mo v \<equiv> head_table h (mod_conf mo) v @ tail_table h mo v"

definition tables_area :: "host_cpu \<Rightarrow> (u32 \<times> u64) list" where
  "tables_area h = [(GUEST_IDTR_LIMIT, ucast (h_idt_size h)), (GUEST_IDTR_BASE, h_idt h), (GUEST_GDTR_LIMIT, ucast (h_gdt_size h)),
     (GUEST_GDTR_BASE, h_gdt h)]"

lemma seg_fields_eqs:
  "seg_fields 0 = [0x6806, 0x4800, 0x800, 0x4814]" "seg_fields (Suc 0) = [0x6808, 0x4802, 0x802, 0x4816]" "seg_fields 2 = [0x680a, 0x4804, 0x804, 0x4818]"
  "seg_fields 3 = [0x680c, 0x4806, 0x806, 0x481a]" "seg_fields 4 = [0x680e, 0x4808, 0x808, 0x481c]" "seg_fields 5 = [0x6810, 0x480a, 0x80a, 0x481e]"
  "seg_fields 6 = [0x6814, 0x480e, 0x80e, 0x4822]" "seg_fields 7 = [0x6812, 0x480c, 0x80c, 0x4820]"
  by (simp_all add: seg_fields_def kvm_vmx_segment_fields_def Let_def)

lemma seg_rest_fields: "fst ` set (seg_rest h ug seg) = set (tl (seg_fields seg))"
  by (simp add: seg_table_def seg_fields_def Let_def)

lemma seg_rest_subset: "set (seg_rest h ug seg) \<subseteq> set (seg_table h ug seg)"
  by (auto simp: seg_table_def Let_def)

lemma set_rflags_effect:
  "writes [GUEST_RFLAGS] [] s (rz_on_regs (vmx_set_rflags p x) s)"
  "\<not> vr_vm86 (rz_regs s) \<Longrightarrow> writes [GUEST_RFLAGS] [(GUEST_RFLAGS, x)] s (rz_on_regs (vmx_set_rflags p x) s)"
  "rs_ctrl (rz_run (rz_on_regs (vmx_set_rflags p x) s)) = rs_ctrl (rz_run s)" "rz_vmx (rz_on_regs (vmx_set_rflags p x) s) = rz_vmx s"
  by (auto simp: writes_def holds_def vmx_set_rflags_def rz_on_regs_def on_regs_def vr_write_def rz_vmcs_def kvm_register_mark_available_def Let_def)

definition tables_set :: "host_cpu \<Rightarrow> reset_state \<Rightarrow> reset_state" where
  "tables_set h s = vmx_set_gdt (h_gdt_size h) (h_gdt h) (vmx_set_idt (h_idt_size h) (h_idt h) s)"

lemma tables_set_effect:
  "writes (map fst (tables_area h)) (tables_area h) s (tables_set h s)" "rs_ctrl (rz_run (tables_set h s)) = rs_ctrl (rz_run s)"
  "rz_vmx (tables_set h s) = rz_vmx s"
  unfolding tables_set_def vmx_set_gdt_def vmx_set_idt_def
  by (rule writes_weaken, (rule writes_steps)+) (simp_all add: tables_area_def vmcs_fields rz_simps)

lemma reset_words: "writes fs a s t \<Longrightarrow> writes fs a s (t\<lparr>posted_intr_nv := x1, vmxon_ptr := x2, current_vmptr := x3, hv_evmcs_vmptr := x4,
    microcode_version := x5, feature_control_valid_bits := x6, pi_nv := x7, pi_sn := x8\<rparr>)"
  by (simp add: writes_def rz_vmcs_def)

text \<open>The state in which a reset makes sense: the shadows agree with the VMCS, and unrestricted guests come with EPT.\<close>

definition resettable :: "reset_state \<Rightarrow> bool" where
  "resettable s \<longleftrightarrow> ctrl_coherent (rz_vmcs s) (rs_ctrl (rz_run s)) \<and> (enable_unrestricted_guest (rz_vmx s) \<longrightarrow> enable_ept (rz_vmx s))"

text \<open>
  A CPU as the manuals describe it, in 64-bit mode: the documented MSRs exist and the descriptors that its
  selectors name are mapped. \<open>host_ok\<close> adds that the number HOST_IA32_SYSENTER_CS is answered as an MSR, which
  no processor does, though an outer hypervisor that ignores unknown MSRs may.
\<close>

definition cpu_ok :: "host_cpu \<Rightarrow> bool" where
  "cpu_ok h \<longleftrightarrow> documented_msrs h \<and> (\<forall>seg \<in> set [0..<8]. seg_mapped h seg) \<and> h_cr0 h AND X86_CR0_PG \<noteq> 0 \<and> h_cr4 h AND X86_CR4_PAE \<noteq> 0"

definition host_ok :: "host_cpu \<Rightarrow> bool" where
  "host_ok h \<longleftrightarrow> cpu_ok h \<and> h_msr h HOST_IA32_SYSENTER_CS \<noteq> None"

lemma cpu_okD:
  assumes "cpu_ok h"
  shows "seg < 8 \<Longrightarrow> seg_mapped h seg" "h_cr0 h AND X86_CR0_PG \<noteq> 0" "h_cr4 h AND X86_CR4_PAE \<noteq> 0" "h_msr h MSR_FS_BASE \<noteq> None" "h_msr h MSR_GS_BASE \<noteq> None"
  using assms by (auto simp: cpu_ok_def documented_msrs_def)

lemma host_okD:
  assumes "host_ok h"
  shows "cpu_ok h" "msrs_ok h" "seg < 8 \<Longrightarrow> seg_mapped h seg"
  using assms by (auto simp: host_ok_def cpu_ok_def documented_msrs_def msrs_ok_def)

lemma raw_reset_eq: "raw_vmx_vcpu_reset h mo s = do {
     let s = tables_set h s;
     let s = rz_on_regs (vmx_set_rflags (params_of mo s) (h_rflags h)) s;
     c \<leftarrow> copy_segments h mo [6, 0, 1, 2, 3, 4, 5, 7] (zero_segment, s);
     s \<leftarrow> init_vmcs h mo (snd c);
     Some (s\<lparr>posted_intr_nv := -1, vmxon_ptr := INVALID_GPA, current_vmptr := INVALID_GPA, hv_evmcs_vmptr := -1,
       microcode_version := 0x100000000, feature_control_valid_bits := 1, pi_nv := POSTED_INTR_VECTOR, pi_sn := True\<rparr>)
   }"
  unfolding raw_vmx_vcpu_reset_def tables_set_def Let_def sreg_numbers by (simp add: Option.bind_assoc)

lemma before_init:
  "set (map fst (tables_area h @ concat (map (seg_rest h ug) [0, 1, 2, 3, 4, 5]))) \<inter> set (init_fields h mo) = {}"
  by (simp add: tables_area_def seg_table_def kvm_vmx_segment_fields_def Let_def head_fields_def tail_fields_def constant_host_area_def
    feature_fields_def guest_constants_def vmcs_fields)

lemma raw_reset_effect:
  assumes "host_ok h" "resettable s" "vr_hflags (rz_regs s) = 0"
  obtains t where "raw_vmx_vcpu_reset h mo s = Some t"
    "writes (map fst (tables_area h) @ GUEST_RFLAGS # concat (map seg_fields [6, 0, 1, 2, 3, 4, 5, 7]) @ init_fields h mo)
      (tables_area h @ concat (map (seg_rest h (enable_unrestricted_guest (rz_vmx s))) [0, 1, 2, 3, 4, 5]) @ init_table h mo (rz_vmx s)) s t"
proof -
  let ?ug = "enable_unrestricted_guest (rz_vmx s)"
  let ?a = "tables_set h s"
  let ?r = "rz_on_regs (vmx_set_rflags (params_of mo ?a) (h_rflags h)) ?a"
  note r = writes_trans [OF tables_set_effect(1) set_rflags_effect(1) [of ?a "params_of mo ?a" "h_rflags h"]]
  have keep: "rz_vmx ?r = rz_vmx s" "rs_ctrl (rz_run ?r) = rs_ctrl (rz_run s)" by (simp_all add: tables_set_effect set_rflags_effect)
  have dis: "set (map fst (tables_area h)) \<inter> set [GUEST_RFLAGS] = {}" by (simp add: tables_area_def vmcs_fields)
  have "vr_hflags (rz_regs ?r) = 0" using r [OF dis] assms(3) by (simp add: writes_def)
  moreover have "\<forall>seg \<in> set [6, 0, 1, 2, 3, 4, 5, 7]. seg_mapped h seg \<and> seg < 8" using host_okD(3) [OF assms(1)] by simp
  ultimately obtain var c where c: "copy_segments h mo [6, 0, 1, 2, 3, 4, 5, 7] (zero_segment, ?r) = Some (var, c)"
      "rs_ctrl (rz_run c) = rs_ctrl (rz_run ?r)" "rz_vmx c = rz_vmx ?r"
      "writes (concat (map seg_fields [6, 0, 1, 2, 3, 4, 5, 7])) (concat (map (seg_table h ?ug) [6, 0, 1, 2, 3, 4, 5, 7])) ?r c"
    using copy_segments_writes [of "[6, 0, 1, 2, 3, 4, 5, 7]" h zero_segment ?r mo] by (auto simp: zero_segment_def keep)
  have w: "writes ((map fst (tables_area h) @ [GUEST_RFLAGS]) @ concat (map seg_fields [6, 0, 1, 2, 3, 4, 5, 7]))
      ((tables_area h @ []) @ concat (map (seg_table h ?ug) [6, 0, 1, 2, 3, 4, 5, 7])) s c"
    by (rule writes_trans [OF r [OF dis] c(4)]) (simp add: tables_area_def seg_fields_eqs vmcs_fields)
  have coh: "ctrl_coherent (rz_vmcs c) (rs_ctrl (rz_run c))"
    by (rule ctrl_coherent_frame [OF _ w]) (use assms(2) c(2) keep in \<open>simp_all add: resettable_def tables_area_def seg_fields_eqs vmcs_fields\<close>)
  obtain t where t: "init_vmcs h mo c = Some t" "writes (init_fields h mo) (init_table h mo (rz_vmx s)) c t"
    using init_vmcs_effect [OF host_okD(2) [OF assms(1)] coh, of mo] assms(2) c(3) keep by (auto simp: resettable_def)
  have sub: "set (concat (map (seg_rest h ?ug) [0, 1, 2, 3, 4, 5])) \<subseteq> set (concat (map (seg_table h ?ug) [6, 0, 1, 2, 3, 4, 5, 7]))"
    using seg_rest_subset [of h ?ug] by auto
  have "writes (((map fst (tables_area h) @ [GUEST_RFLAGS]) @ concat (map seg_fields [6, 0, 1, 2, 3, 4, 5, 7])) @ init_fields h mo)
      ((tables_area h @ concat (map (seg_rest h ?ug) [0, 1, 2, 3, 4, 5])) @ init_table h mo (rz_vmx s)) s t"
    by (rule writes_trans [OF writes_weaken [OF w order_refl] t(2) before_init]) (use sub in auto)
  note t' = reset_words [OF this]
  have "raw_vmx_vcpu_reset h mo s = Some (t\<lparr>posted_intr_nv := -1, vmxon_ptr := INVALID_GPA, current_vmptr := INVALID_GPA, hv_evmcs_vmptr := -1,
       microcode_version := 0x100000000, feature_control_valid_bits := 1, pi_nv := POSTED_INTR_VECTOR, pi_sn := True\<rparr>)"
    using c(1) t(1) unfolding raw_reset_eq Let_def by simp
  then show ?thesis by (rule that) (use t' in simp)
qed

text \<open>What the second part of \<^verbatim>\<open>vmx_vcpu_reset\<close> writes, after every kind of reset.\<close>

definition late_table :: "host_cpu \<Rightarrow> bool \<Rightarrow> (u32 \<times> u64) list" where
  "late_table h ug = [(GUEST_CS_SELECTOR, ucast (h_sel h VCPU_SREG_CS)), (GUEST_CS_BASE, 0)] @ seg_table h ug 6 @ seg_table h ug 7 @
     [(GUEST_FS_BASE, rdmsr h MSR_FS_BASE), (GUEST_GS_BASE, rdmsr h MSR_GS_BASE), (GUEST_ACTIVITY_STATE, 0), (GUEST_INTERRUPTIBILITY_INFO, 0),
      (VM_ENTRY_INTR_INFO_FIELD, 0)]"

definition vmx_reset_late :: "host_cpu \<Rightarrow> vmx_module \<Rightarrow> reset_state \<Rightarrow> reset_state option" where
  "vmx_reset_late h mo s = do {
     c \<leftarrow> copy_segments h mo [6, 7] (zero_segment, rz_write GUEST_CS_BASE 0 (rz_write GUEST_CS_SELECTOR (ucast (h_sel h VCPU_SREG_CS)) s));
     let s = snd c;
     x \<leftarrow> h_msr h MSR_FS_BASE;
     let s = rz_write GUEST_FS_BASE x s;
     x \<leftarrow> h_msr h MSR_GS_BASE;
     let s = rz_write GUEST_GS_BASE x s;
     let s = rz_write GUEST_ACTIVITY_STATE 0 s;
     let s = rz_write GUEST_INTERRUPTIBILITY_INFO 0 s;
     Some (rz_write VM_ENTRY_INTR_INFO_FIELD 0 s)
   }"

definition leave_rmode :: "reset_state \<Rightarrow> reset_state" where
  "leave_rmode s = rz_on_regs (\<lambda>r. r\<lparr>vr_vm86 := False\<rparr>) s\<lparr>spec_ctrl := 0\<rparr>"

lemma leave_rmode_frame:
  "rz_vmcs (leave_rmode s) = rz_vmcs s" "rz_vmx (leave_rmode s) = rz_vmx s" "rs_ctrl (rz_run (leave_rmode s)) = rs_ctrl (rz_run s)"
  "vr_hflags (rz_regs (leave_rmode s)) = vr_hflags (rz_regs s)" "\<not> vr_vm86 (rz_regs (leave_rmode s))"
  "guest_debug (rz_run (leave_rmode s)) = guest_debug (rz_run s)"
  by (simp_all add: leave_rmode_def rz_on_regs_def on_regs_def rz_vmcs_def)

lemma vmx_reset_eq: "vmx_vcpu_reset h mo init_event s =
    (if init_event then Some s else raw_vmx_vcpu_reset h mo s) \<bind> (\<lambda>s. vmx_reset_late h mo (leave_rmode s))"
  unfolding vmx_vcpu_reset_def vmx_reset_late_def leave_rmode_def Let_def sreg_numbers
  by (auto simp: Option.bind_assoc intro!: bind_option_cong split: prod.splits)

lemma late_effect:
  assumes "cpu_ok h" "vr_hflags (rz_regs s) = 0"
  obtains t where "vmx_reset_late h mo s = Some t"
    "writes (map fst (late_table h (enable_unrestricted_guest (rz_vmx s)))) (late_table h (enable_unrestricted_guest (rz_vmx s))) s t"
proof -
  let ?ug = "enable_unrestricted_guest (rz_vmx s)"
  let ?s = "rz_write GUEST_CS_BASE 0 (rz_write GUEST_CS_SELECTOR (ucast (h_sel h VCPU_SREG_CS)) s)"
  obtain a b where m: "h_msr h MSR_FS_BASE = Some a" "h_msr h MSR_GS_BASE = Some b" using cpu_okD(4,5) [OF assms(1)] by auto
  have "\<forall>seg \<in> set [6, 7]. seg_mapped h seg \<and> seg < 8" using cpu_okD(1) [OF assms(1)] by simp
  then obtain var c where c: "copy_segments h mo [6, 7] (zero_segment, ?s) = Some (var, c)"
      "writes (concat (map seg_fields [6, 7])) (concat (map (seg_table h ?ug) [6, 7])) ?s c"
    using copy_segments_writes [of "[6, 7]" h zero_segment ?s mo] assms(2) by (auto simp: zero_segment_def rz_simps)
  have w: "writes [GUEST_CS_BASE, GUEST_CS_SELECTOR] [(GUEST_CS_BASE, 0), (GUEST_CS_SELECTOR, ucast (h_sel h VCPU_SREG_CS))] s ?s"
    by ((rule writes_steps)+) (simp_all add: vmcs_fields)
  have w2: "writes ([GUEST_CS_BASE, GUEST_CS_SELECTOR] @ concat (map seg_fields [6, 7]))
      ([(GUEST_CS_BASE, 0), (GUEST_CS_SELECTOR, ucast (h_sel h VCPU_SREG_CS))] @ concat (map (seg_table h ?ug) [6, 7])) s c"
    by (rule writes_trans [OF w c(2)]) (simp add: seg_fields_eqs vmcs_fields)
  show ?thesis
  proof (rule that)
    show "vmx_reset_late h mo s = Some (the (vmx_reset_late h mo s))" using c(1) m by (simp add: vmx_reset_late_def Let_def)
    show "writes (map fst (late_table h ?ug)) (late_table h ?ug) s (the (vmx_reset_late h mo s))"
      unfolding vmx_reset_late_def c(1) m bind.bind_lunit snd_conv Let_def option.sel
      by (rule writes_weaken, (rule writes_write)+, rule w2)
        (simp_all add: late_table_def m [unfolded vmcs_fields] fst_seg_table seg_table_def kvm_vmx_segment_fields_def seg_fields_eqs Let_def vmcs_fields)
  qed
qed

text \<open>Of what the first part wrote, the second leaves all but the selector of CS, which it writes again.\<close>

definition early_table :: "host_cpu \<Rightarrow> bool \<Rightarrow> (u32 \<times> u64) list" where
  "early_table h ug = tables_area h @ concat (map (seg_rest h ug) [0, 2, 3, 4, 5]) @ [seg_table h ug 1 ! 1, seg_table h ug 1 ! 3]"

lemma early_late_apart: "set (map fst (early_table h ug @ init_table h mo v)) \<inter> set (map fst (late_table h ug)) = {}"
  by (cases "cpu_has_secondary_exec_ctrls (mod_conf mo)")
    (simp_all add: early_table_def late_table_def tables_area_def seg_table_def kvm_vmx_segment_fields_def Let_def head_table_def tail_table_def
      constant_host_area_def guest_constants_def vmcs_fields)

lemma vmx_reset_effect:
  assumes "host_ok h" "resettable s" "vr_hflags (rz_regs s) = 0"
  defines "ug \<equiv> enable_unrestricted_guest (rz_vmx s)"
  obtains t where "vmx_vcpu_reset h mo False s = Some t" "holds (rz_vmcs t) (early_table h ug @ init_table h mo (rz_vmx s) @ late_table h ug)"
    "setting (rz_vmx t) = setting (rz_vmx s)" "vr_hflags (rz_regs t) = 0" "\<not> vr_vm86 (rz_regs t)" "guest_debug (rz_run t) = guest_debug (rz_run s)"
proof -
  obtain r where r: "raw_vmx_vcpu_reset h mo s = Some r"
    "writes (map fst (tables_area h) @ GUEST_RFLAGS # concat (map seg_fields [6, 0, 1, 2, 3, 4, 5, 7]) @ init_fields h mo)
      (tables_area h @ concat (map (seg_rest h ug) [0, 1, 2, 3, 4, 5]) @ init_table h mo (rz_vmx s)) s r"
    using raw_reset_effect [OF assms(1-3)] unfolding ug_def by blast
  have keep: "enable_unrestricted_guest (rz_vmx r) = ug" "vr_hflags (rz_regs r) = 0" using r(2) assms(3) by (auto simp: writes_def setting_def ug_def)
  obtain t where t: "vmx_reset_late h mo (leave_rmode r) = Some t" "writes (map fst (late_table h ug)) (late_table h ug) (leave_rmode r) t"
    using late_effect [OF host_okD(1) [OF assms(1)], of "leave_rmode r" mo] keep by (auto simp: leave_rmode_frame)
  have sub: "set (early_table h ug) \<subseteq> set (tables_area h @ concat (map (seg_rest h ug) [0, 1, 2, 3, 4, 5]))"
    by (simp add: early_table_def tables_area_def seg_table_def Let_def)
  have "holds (rz_vmcs r) (early_table h ug @ init_table h mo (rz_vmx s))"
    by (rule holds_subset [of _ "(tables_area h @ concat (map (seg_rest h ug) [0, 1, 2, 3, 4, 5])) @ init_table h mo (rz_vmx s)"])
      (use r(2) sub in \<open>auto simp: writes_def\<close>)
  then have "writes [] (early_table h ug @ init_table h mo (rz_vmx s)) (leave_rmode r) (leave_rmode r)"
    by (simp add: writes_def leave_rmode_frame)
  note w = writes_trans [OF this t(2) early_late_apart]
  show ?thesis
  proof (rule that)
    show "vmx_vcpu_reset h mo False s = Some t" using r(1) t(1) by (simp add: vmx_reset_eq)
  qed (use w r(2) assms(3) in \<open>auto simp: writes_def leave_rmode_frame\<close>)
qed

text \<open>The registers that \<^verbatim>\<open>kvm_vcpu_reset\<close> sets before and after.\<close>

definition reset_begin :: "host_cpu \<Rightarrow> vmx_module \<Rightarrow> reset_state \<Rightarrow> reset_state" where
  "reset_begin h mo s = (let
       r = snd (kvm_read_cr0 (params_of mo s) (rz_regs s));
       s = rz_on_regs (\<lambda>_. r\<lparr>vr_hflags := 0\<rparr>) s;
       s = s\<lparr>arch_dr6 := DR6_ACTIVE_LOW, rz_run := kvm_update_dr7 ((rz_run s)\<lparr>arch_dr7 := DR7_FIXED_1\<rparr>)\<rparr>;
       s = s\<lparr>rz_run := (rz_run s)\<lparr>arch_cr2 := h_cr2 h, apf_halted := False\<rparr>, apf_msr_en_val := 0, apf_msr_int_val := 0, st_msr_val := 0\<rparr>;
       s = rz_on_regs (\<lambda>r. r\<lparr>vr_regs := (\<lambda>i. if i < 17 then 0 else vr_regs r i)\<rparr>) s in
     rz_on_regs (kvm_register_mark_dirty VCPU_REGS_RSP) s)"

lemma read_cr0_vmcs: "vr_vmcs (snd (kvm_read_cr0 p r)) = vr_vmcs r"
  by (simp add: kvm_read_cr0_def kvm_read_cr0_bits_def vmx_cache_reg_def kvm_register_mark_available_def reg_numbers Let_def)

lemma update_dr7_frame:
  "\<exists>x. vr_vmcs (regs_of (kvm_update_dr7 u)) = (vr_vmcs (regs_of u))(GUEST_DR7 := x)" "vr_hflags (regs_of (kvm_update_dr7 u)) = vr_hflags (regs_of u)"
  "rs_ctrl (kvm_update_dr7 u) = rs_ctrl u" "guest_debug (kvm_update_dr7 u) = guest_debug u"
  by (auto simp: kvm_update_dr7_def rs_write_def on_regs_def vr_write_def Let_def)

lemma reset_begin_frame:
  "\<exists>x. rz_vmcs (reset_begin h mo s) = (rz_vmcs s)(GUEST_DR7 := x)" "rz_vmx (reset_begin h mo s) = rz_vmx s"
  "rs_ctrl (rz_run (reset_begin h mo s)) = rs_ctrl (rz_run s)" "vr_hflags (rz_regs (reset_begin h mo s)) = 0"
  "guest_debug (rz_run (reset_begin h mo s)) = guest_debug (rz_run s)"
proof -
  let ?u = "(rz_run (rz_on_regs (\<lambda>_. (snd (kvm_read_cr0 (params_of mo s) (rz_regs s)))\<lparr>vr_hflags := 0\<rparr>) s))\<lparr>arch_dr7 := DR7_FIXED_1\<rparr>"
  note d = update_dr7_frame [of ?u]
  show "\<exists>x. rz_vmcs (reset_begin h mo s) = (rz_vmcs s)(GUEST_DR7 := x)"
    using d(1) by (simp add: reset_begin_def rz_vmcs_def rz_on_regs_def on_regs_def kvm_register_mark_dirty_def read_cr0_vmcs Let_def)
  show "rz_vmx (reset_begin h mo s) = rz_vmx s" "rs_ctrl (rz_run (reset_begin h mo s)) = rs_ctrl (rz_run s)"
    "vr_hflags (rz_regs (reset_begin h mo s)) = 0" "guest_debug (rz_run (reset_begin h mo s)) = guest_debug (rz_run s)"
    using d(2-4) by (simp_all add: reset_begin_def rz_on_regs_def on_regs_def kvm_register_mark_dirty_def Let_def)
qed

definition reset_cr0 :: "host_cpu \<Rightarrow> u64" where
  "reset_cr0 h = h_cr0 h OR X86_CR0_ET OR X86_CR0_NW OR X86_CR0_CD"

text \<open>A power-on reset turns CD and NW on, INIT keeps them as the guest had them.\<close>

definition init_cr0 :: "host_cpu \<Rightarrow> vmx_module \<Rightarrow> reset_state \<Rightarrow> u64" where
  "init_cr0 h mo s = h_cr0 h OR X86_CR0_ET OR (fst (kvm_read_cr0 (params_of mo s) (rz_regs s)) AND (X86_CR0_NW OR X86_CR0_CD))"

definition reset_end :: "host_cpu \<Rightarrow> vmx_module \<Rightarrow> u64 \<Rightarrow> reset_state \<Rightarrow> reset_state" where
  "reset_end h mo cr0 s = (let
       s = kvm_set_rflags mo (h_rflags h) s;
       s = rz_on_regs (\<lambda>r. kvm_register_mark_dirty VCPU_EXREG_CR3 (r\<lparr>vr_cr3 := h_cr3 h\<rparr>)) s;
       s = rz_on_regs (vmx_set_cr0 (params_of mo s) cr0) s in
     rz_on_regs (vmx_set_cr4 (params_of mo s) (h_cr4 h)) s)"

lemma reset_eq:
  "kvm_vcpu_reset h mo False s = vmx_vcpu_reset h mo False (reset_begin h mo s) \<bind> (\<lambda>t. Some (reset_end h mo (reset_cr0 h) t))"
  "kvm_vcpu_reset h mo True s = vmx_vcpu_reset h mo True (reset_begin h mo s) \<bind> (\<lambda>t. Some (reset_end h mo (init_cr0 h mo s) t))"
  by (simp_all add: kvm_vcpu_reset_def reset_begin_def reset_end_def reset_cr0_def init_cr0_def vmx_set_efer_def Let_def or.assoc split: prod.split)

text \<open>On a CPU that has no MSR with the number of the VMCS field HOST_IA32_SYSENTER_CS no power-on reset returns.\<close>

lemma reset_faults:
  assumes "h_msr h HOST_IA32_SYSENTER_CS = None" shows "kvm_vcpu_reset h mo False s = None"
proof -
  have "vmx_set_constant_host_state h mo u = None" for u unfolding vmx_set_constant_host_state_def Let_def assms by simp
  then have "init_vmcs h mo u = None" for u unfolding init_vmcs_def Let_def by simp
  then have "raw_vmx_vcpu_reset h mo u = None" for u unfolding raw_reset_eq Let_def by (simp add: Option.bind_eq_None_conv)
  then show ?thesis unfolding reset_eq vmx_reset_eq by simp
qed

text \<open>CR0 in hardware: without CD and NW, and with the bits that VMX operation needs.\<close>

definition hw_cr0 :: "bool \<Rightarrow> bool \<Rightarrow> u64 \<Rightarrow> u64" where
  "hw_cr0 ug ept v = (v AND not_ul KVM_VM_CR0_ALWAYS_OFF) OR
     (if ug then KVM_VM_CR0_ALWAYS_ON_UNRESTRICTED_GUEST else if ept then KVM_VM_CR0_ALWAYS_ON else KVM_VM_CR0_ALWAYS_ON OR X86_CR0_WP)"

lemma params_on_regs: "params_of mo (rz_on_regs f s) = params_of mo s"
  by (simp add: params_of_def rz_on_regs_def on_regs_def)

lemma set_cr0_effect:
  assumes "vr_hflags (rz_regs s) = 0"
  shows "writes [CR0_READ_SHADOW, GUEST_CR0]
    [(CR0_READ_SHADOW, v), (GUEST_CR0, hw_cr0 (enable_unrestricted_guest (rz_vmx s)) (enable_ept (rz_vmx s)) v)] s
    (rz_on_regs (vmx_set_cr0 (params_of mo s) v) s)"
  using unrestricted_view [OF assms, of mo]
  by (auto simp: writes_def holds_def rz_vmcs_def rz_on_regs_def on_regs_def vmx_set_cr0_def kvm_read_cr0_bits_def vr_write_def hw_cr0_def
    kvm_register_mark_available_def KVM_POSSIBLE_CR0_GUEST_BITS_def x86_bits vmcs_fields params_of_def or.assoc Let_def)

text \<open>CR4 in hardware, for a guest with paging and PAE on.\<close>

definition host_hw_cr4 :: "bool \<Rightarrow> u64 \<Rightarrow> u64" where
  "host_hw_cr4 ug v = ((v AND X86_CR4_MCE) OR (v AND not_ul X86_CR4_MCE)) OR (if ug then X86_CR4_VMXE else KVM_PMODE_VM_CR4_ALWAYS_ON)"

lemma set_cr4_effect:
  assumes "vr_hflags (rz_regs s) = 0" "\<not> vr_vm86 (rz_regs s)" "is_paging (rz_regs s)" "v AND X86_CR4_PAE \<noteq> 0"
  shows "writes [CR4_READ_SHADOW, GUEST_CR4] [(CR4_READ_SHADOW, v), (GUEST_CR4, host_hw_cr4 (enable_unrestricted_guest (rz_vmx s)) v)] s
    (rz_on_regs (vmx_set_cr4 (params_of mo s) v) s)"
  using unrestricted_view [OF assms(1), of mo] assms(2-4)
  by (simp add: writes_def holds_def rz_vmcs_def rz_on_regs_def on_regs_def vmx_set_cr4_def vr_write_def vmcs_fields Let_def host_hw_cr4_def is_paging_def)

lemma set_cr0_paging: "is_paging (rz_regs (rz_on_regs (vmx_set_cr0 p v) s)) \<longleftrightarrow> v AND X86_CR0_PG \<noteq> 0"
  by (simp add: is_paging_def rz_on_regs_def on_regs_def vmx_set_cr0_def kvm_register_mark_available_def vr_write_def Let_def split: prod.split)

lemma cr0_keeps_paging:
  assumes "h_cr0 h AND X86_CR0_PG \<noteq> 0"
  shows "reset_cr0 h AND X86_CR0_PG \<noteq> 0" "init_cr0 h mo s AND X86_CR0_PG \<noteq> 0"
  using assms by (simp_all add: reset_cr0_def init_cr0_def bit.conj_disj_distrib2 or_eq_0_iff)

lemma set_cr_keeps_cr3:
  "vr_cr3 (vmx_set_cr0 p v r) = vr_cr3 r" "regs_dirty (vmx_set_cr0 p v r) = regs_dirty r"
  "vr_cr3 (vmx_set_cr4 p v r) = vr_cr3 r" "regs_dirty (vmx_set_cr4 p v r) = regs_dirty r"
  by (simp_all add: vmx_set_cr0_def vmx_set_cr4_def kvm_read_cr0_bits_def vmx_cache_reg_def vr_write_def kvm_register_mark_available_def reg_numbers Let_def)

lemma set_rflags_plain: "guest_debug (rz_run s) AND 2 = 0 \<Longrightarrow> kvm_set_rflags mo x s = rz_on_regs (vmx_set_rflags (params_of mo s) x) s"
  by (simp add: kvm_set_rflags_def rz_on_regs_def on_regs_def)

text \<open>The guest's part, the control words and the host's part of the VMCS, as the host determines them.\<close>

definition guest_area :: "host_cpu \<Rightarrow> bool \<Rightarrow> bool \<Rightarrow> (u32 \<times> u64) list" where
  "guest_area h ug ept = tables_area h @ concat (map (seg_rest h ug) [0, 1, 2, 3, 4, 5]) @ seg_table h ug 6 @ seg_table h ug 7 @
     [(GUEST_ES_BASE, 0), (GUEST_CS_BASE, 0), (GUEST_SS_BASE, 0), (GUEST_DS_BASE, 0), (GUEST_FS_BASE, rdmsr h MSR_FS_BASE),
      (GUEST_GS_BASE, rdmsr h MSR_GS_BASE), (GUEST_RIP, h_vm_restore_state h), (GUEST_RFLAGS, h_rflags h),
      (GUEST_SYSENTER_CS, rdmsr h MSR_IA32_SYSENTER_CS AND 0xffffffff), (GUEST_SYSENTER_ESP, rdmsr h MSR_IA32_SYSENTER_ESP),
      (GUEST_SYSENTER_EIP, rdmsr h MSR_IA32_SYSENTER_EIP), (GUEST_IA32_DEBUGCTL, rdmsr h MSR_IA32_DEBUGCTLMSR),
      (GUEST_ACTIVITY_STATE, 0), (GUEST_INTERRUPTIBILITY_INFO, 0), (VM_ENTRY_INTR_INFO_FIELD, 0), (VMCS_LINK_POINTER, INVALID_GPA),
      (CR0_READ_SHADOW, reset_cr0 h), (GUEST_CR0, hw_cr0 ug ept (reset_cr0 h)), (CR4_READ_SHADOW, h_cr4 h),
      (GUEST_CR4, host_hw_cr4 ug (h_cr4 h))]"

definition control_words :: "vmcs_config \<Rightarrow> vmx_vcpu \<Rightarrow> (u32 \<times> u64) list" where
  "control_words conf v = [(PIN_BASED_VM_EXEC_CONTROL, ucast (vmx_pin_based_exec_ctrl conf)), (CPU_BASED_VM_EXEC_CONTROL, ucast (vmx_exec_control conf v)),
     (VM_EXIT_CONTROLS, ucast (vmx_vmexit_ctrl conf v)), (VM_ENTRY_CONTROLS, ucast (vmx_vmentry_ctrl conf v))] @
     (if cpu_has_secondary_exec_ctrls conf then [(SECONDARY_VM_EXEC_CONTROL, ucast (fst (vmx_secondary_exec_control conf v)))] else [])"

definition host_area :: "host_cpu \<Rightarrow> vmx_module \<Rightarrow> (u32 \<times> u64) list" where
  "host_area h mo = constant_host_area h mo @ [(HOST_FS_SELECTOR, host_sel h VCPU_SREG_FS), (HOST_GS_SELECTOR, host_sel h VCPU_SREG_GS),
     (HOST_FS_BASE, rdmsr h MSR_FS_BASE), (HOST_GS_BASE, rdmsr h MSR_GS_BASE)]"

definition end_table :: "host_cpu \<Rightarrow> bool \<Rightarrow> bool \<Rightarrow> u64 \<Rightarrow> (u32 \<times> u64) list" where
  "end_table h ug ept cr0 = [(GUEST_RFLAGS, h_rflags h), (CR0_READ_SHADOW, cr0), (GUEST_CR0, hw_cr0 ug ept cr0), (CR4_READ_SHADOW, h_cr4 h),
     (GUEST_CR4, host_hw_cr4 ug (h_cr4 h))]"

lemma reset_end_effect:
  assumes "vr_hflags (rz_regs s) = 0" "\<not> vr_vm86 (rz_regs s)" "guest_debug (rz_run s) AND 2 = 0" "cr0 AND X86_CR0_PG \<noteq> 0" "h_cr4 h AND X86_CR4_PAE \<noteq> 0"
  shows "writes [GUEST_RFLAGS, CR0_READ_SHADOW, GUEST_CR0, CR4_READ_SHADOW, GUEST_CR4]
      (end_table h (enable_unrestricted_guest (rz_vmx s)) (enable_ept (rz_vmx s)) cr0) s (reset_end h mo cr0 s)"
    "vr_cr3 (rz_regs (reset_end h mo cr0 s)) = h_cr3 h" "kvm_register_is_dirty VCPU_EXREG_CR3 (rz_regs (reset_end h mo cr0 s))"
proof -
  let ?r = "rz_on_regs (vmx_set_rflags (params_of mo s) (h_rflags h)) s"
  let ?c = "rz_on_regs (\<lambda>r. kvm_register_mark_dirty VCPU_EXREG_CR3 (r\<lparr>vr_cr3 := h_cr3 h\<rparr>)) ?r"
  let ?z = "rz_on_regs (vmx_set_cr0 (params_of mo ?c) cr0) ?c"
  have e: "reset_end h mo cr0 s = rz_on_regs (vmx_set_cr4 (params_of mo ?z) (h_cr4 h)) ?z"
    by (simp add: reset_end_def set_rflags_plain [OF assms(3)] Let_def)
  have c: "writes [] [] ?r ?c" by (simp add: writes_def holds_def rz_vmcs_def rz_on_regs_def on_regs_def kvm_register_mark_dirty_def)
  note w = writes_trans [OF set_rflags_effect(2) [OF assms(2), of "h_rflags h" "params_of mo s"] c, simplified]
  have f: "setting (rz_vmx ?c) = setting (rz_vmx s)" "vr_hflags (rz_regs ?c) = 0" "\<not> vr_vm86 (rz_regs ?c)" using w assms(1,2) by (auto simp: writes_def)
  have z: "writes [CR0_READ_SHADOW, GUEST_CR0] [(CR0_READ_SHADOW, cr0),
      (GUEST_CR0, hw_cr0 (enable_unrestricted_guest (rz_vmx s)) (enable_ept (rz_vmx s)) cr0)] ?c ?z"
    using set_cr0_effect [OF f(2), of cr0 mo] f(1) by (simp add: setting_def)
  have g: "setting (rz_vmx ?z) = setting (rz_vmx s)" "vr_hflags (rz_regs ?z) = 0" "\<not> vr_vm86 (rz_regs ?z)" using z f by (auto simp: writes_def)
  have y: "writes [CR4_READ_SHADOW, GUEST_CR4] [(CR4_READ_SHADOW, h_cr4 h),
      (GUEST_CR4, host_hw_cr4 (enable_unrestricted_guest (rz_vmx s)) (h_cr4 h))] ?z (reset_end h mo cr0 s)"
    unfolding e using set_cr4_effect [OF g(2,3) _ assms(5), of mo] set_cr0_paging assms(4) g(1) by (simp add: setting_def)
  show "writes [GUEST_RFLAGS, CR0_READ_SHADOW, GUEST_CR0, CR4_READ_SHADOW, GUEST_CR4]
      (end_table h (enable_unrestricted_guest (rz_vmx s)) (enable_ept (rz_vmx s)) cr0) s (reset_end h mo cr0 s)"
    by (rule writes_weaken [OF writes_trans [OF writes_trans [OF w z] y]]) (simp_all add: end_table_def vmcs_fields)
  show "vr_cr3 (rz_regs (reset_end h mo cr0 s)) = h_cr3 h" "kvm_register_is_dirty VCPU_EXREG_CR3 (rz_regs (reset_end h mo cr0 s))"
    unfolding e by (simp_all add: rz_on_regs_def on_regs_def set_cr_keeps_cr3 kvm_register_is_dirty_def kvm_register_mark_dirty_def
      bit_set_bit_iff reg_numbers)
qed

lemma end_apart:
  "set (map fst (early_table h ug @ init_table h mo v @ late_table h ug)) \<inter> set [GUEST_RFLAGS, CR0_READ_SHADOW, GUEST_CR0, CR4_READ_SHADOW, GUEST_CR4] = {}"
  by (cases "cpu_has_secondary_exec_ctrls (mod_conf mo)")
    (simp_all add: early_table_def late_table_def tables_area_def seg_table_def kvm_vmx_segment_fields_def Let_def head_table_def tail_table_def
      constant_host_area_def guest_constants_def vmcs_fields)

lemma cs_rest: "seg_rest h ug (Suc 0) = [seg_table h ug (Suc 0) ! Suc 0, (GUEST_CS_SELECTOR, ucast (h_sel h VCPU_SREG_CS)), seg_table h ug (Suc 0) ! 3]"
  by (simp add: seg_table_def kvm_vmx_segment_fields_def Let_def sreg_numbers vmcs_fields)

lemma areas_covered:
  "set (guest_area h ug ept @ control_words (mod_conf mo) v @ host_area h mo) \<subseteq>
   set ((early_table h ug @ init_table h mo v @ late_table h ug) @ end_table h ug ept (reset_cr0 h))"
  by (cases "cpu_has_secondary_exec_ctrls (mod_conf mo)")
    (auto simp: guest_area_def control_words_def host_area_def end_table_def early_table_def late_table_def cs_rest head_table_def tail_table_def
      guest_constants_def)

lemma vcpu_reset_fields:
  assumes "host_ok h" "resettable s" "guest_debug (rz_run s) AND 2 = 0"
  shows "\<exists>t. kvm_vcpu_reset h mo False s = Some t \<and>
    holds (rz_vmcs t) (guest_area h (enable_unrestricted_guest (rz_vmx s)) (enable_ept (rz_vmx s)) @ control_words (mod_conf mo) (rz_vmx s) @
      host_area h mo) \<and>
    vr_cr3 (rz_regs t) = h_cr3 h \<and> kvm_register_is_dirty VCPU_EXREG_CR3 (rz_regs t)"
proof -
  let ?b = "reset_begin h mo s"
  let ?ug = "enable_unrestricted_guest (rz_vmx s)"
  obtain x where x: "rz_vmcs ?b = (rz_vmcs s)(GUEST_DR7 := x)" using reset_begin_frame(1) by blast
  note b = reset_begin_frame(2-5) [of h mo s]
  have "resettable ?b" using assms(2) by (simp add: resettable_def b x ctrl_coherent_def vmcs_fields)
  then obtain r where r: "vmx_vcpu_reset h mo False ?b = Some r"
      "holds (rz_vmcs r) (early_table h ?ug @ init_table h mo (rz_vmx s) @ late_table h ?ug)" "setting (rz_vmx r) = setting (rz_vmx s)"
      "vr_hflags (rz_regs r) = 0" "\<not> vr_vm86 (rz_regs r)" "guest_debug (rz_run r) = guest_debug (rz_run s)"
    using vmx_reset_effect [OF assms(1) _ b(3), of mo] by (metis b(1) b(4))
  have "writes [] (early_table h ?ug @ init_table h mo (rz_vmx s) @ late_table h ?ug) r r" using r(2) by (simp add: writes_def)
  note w = writes_trans [OF this reset_end_effect(1) [OF r(4,5)] end_apart]
  note cpu = cpu_okD [OF host_okD(1) [OF assms(1)]]
  have d: "guest_debug (rz_run r) AND 2 = 0" using assms(3) r(6) by simp
  note e = reset_end_effect(2,3) [OF r(4,5) d cr0_keeps_paging(1) cpu(3), OF cpu(2)]
    and w = w [OF d cr0_keeps_paging(1) [OF cpu(2)] cpu(3), of mo]
  have "kvm_vcpu_reset h mo False s = Some (reset_end h mo (reset_cr0 h) r)" by (simp add: reset_eq r(1))
  moreover have "holds (rz_vmcs (reset_end h mo (reset_cr0 h) r)) (guest_area h ?ug (enable_ept (rz_vmx s)) @ control_words (mod_conf mo) (rz_vmx s) @ host_area h mo)"
    by (rule holds_subset [OF _ areas_covered]) (use w r(3) in \<open>simp add: writes_def setting_def\<close>)
  ultimately show ?thesis using e by blast
qed

text \<open>What INIT writes, and nothing else: the second part of \<^verbatim>\<open>vmx_vcpu_reset\<close> and the end of \<^verbatim>\<open>kvm_vcpu_reset\<close>.\<close>

definition init_written :: "host_cpu \<Rightarrow> bool \<Rightarrow> u32 list" where
  "init_written h ug = GUEST_DR7 # map fst (late_table h ug) @ [GUEST_RFLAGS, CR0_READ_SHADOW, GUEST_CR0, CR4_READ_SHADOW, GUEST_CR4]"

lemma late_end_apart: "set (map fst (late_table h ug)) \<inter> set [GUEST_RFLAGS, CR0_READ_SHADOW, GUEST_CR0, CR4_READ_SHADOW, GUEST_CR4] = {}"
  by (simp add: late_table_def seg_table_def kvm_vmx_segment_fields_def Let_def vmcs_fields)

lemma vcpu_init_fields:
  assumes "cpu_ok h" "guest_debug (rz_run s) AND 2 = 0"
  defines "ug \<equiv> enable_unrestricted_guest (rz_vmx s)"
  shows "\<exists>t. kvm_vcpu_reset h mo True s = Some t \<and>
    holds (rz_vmcs t) (late_table h ug @ end_table h ug (enable_ept (rz_vmx s)) (init_cr0 h mo s)) \<and>
    (\<forall>f. f \<notin> set (init_written h ug) \<longrightarrow> rz_vmcs t f = rz_vmcs s f) \<and>
    vr_cr3 (rz_regs t) = h_cr3 h \<and> kvm_register_is_dirty VCPU_EXREG_CR3 (rz_regs t)"
proof -
  let ?b = "leave_rmode (reset_begin h mo s)"
  obtain x where x: "rz_vmcs ?b = (rz_vmcs s)(GUEST_DR7 := x)" using reset_begin_frame(1) leave_rmode_frame(1) by metis
  have b: "rz_vmx ?b = rz_vmx s" "vr_hflags (rz_regs ?b) = 0" "\<not> vr_vm86 (rz_regs ?b)" "guest_debug (rz_run ?b) = guest_debug (rz_run s)"
    by (simp_all add: leave_rmode_frame reset_begin_frame)
  obtain r where r: "vmx_reset_late h mo ?b = Some r" "writes (map fst (late_table h ug)) (late_table h ug) ?b r"
    using late_effect [OF assms(1) b(2), of mo] unfolding b(1) ug_def by blast
  have k: "setting (rz_vmx r) = setting (rz_vmx s)" "vr_hflags (rz_regs r) = 0" "\<not> vr_vm86 (rz_regs r)" "guest_debug (rz_run r) AND 2 = 0"
    using r(2) b assms(2) by (auto simp: writes_def)
  note e = reset_end_effect [OF k(2-4) cr0_keeps_paging(2) [OF cpu_okD(2) [OF assms(1)], of mo s] cpu_okD(3) [OF assms(1)], of mo]
  have "kvm_vcpu_reset h mo True s = Some (reset_end h mo (init_cr0 h mo s) r)" by (simp add: reset_eq(2) vmx_reset_eq r(1))
  moreover have s: "enable_unrestricted_guest (rz_vmx r) = ug" "enable_ept (rz_vmx r) = enable_ept (rz_vmx s)" using k(1) by (simp_all add: setting_def ug_def)
  note w = writes_trans [OF r(2) e(1) [unfolded s] late_end_apart]
  ultimately show ?thesis using e(2,3) w x by (auto simp: writes_def init_written_def)
qed

text \<open>
  C39: resetting a vCPU on a 64-bit CPU with the documented MSRs and mapped descriptors (\<open>cpu_ok\<close>), without single-stepping.
  A power-on reset never returns when the number HOST_IA32_SYSENTER_CS, the encoding of a VMCS field, is no MSR,
  as on every documented processor: reading it faults. Where the read is answered and the control shadows agree with the VMCS,
  the reset returns with the state of the executing CPU in the VMCS: the guest's part holds its descriptor
  tables, selectors, limits, access rights, flags, MSRs and CR4 and starts at \<^verbatim>\<open>vm_restore_state\<close>, with CD and NW added to the
  CR0 that the guest reads and taken out of the hardware's; the control words are those of the configuration, and
  the host's part returns to \<^verbatim>\<open>vmx_vmexit\<close> with the same state. INIT returns in every case; it writes TR, LDTR, the
  selector and base of CS, the bases of FS and GS, the event fields, DR7, the flags and control registers and
  nothing else, and keeps CD and NW as the guest had them. CR3 goes into the register cache.
\<close>

theorem vcpu_reset_clones_host:
  assumes "cpu_ok h" "guest_debug (rz_run s) AND 2 = 0"
  defines "ug \<equiv> enable_unrestricted_guest (rz_vmx s)" and "ept \<equiv> enable_ept (rz_vmx s)"
  shows "(h_msr h HOST_IA32_SYSENTER_CS = None \<longrightarrow> kvm_vcpu_reset h mo False s = None) \<and>
    (h_msr h HOST_IA32_SYSENTER_CS \<noteq> None \<and> resettable s \<longrightarrow> (\<exists>t. kvm_vcpu_reset h mo False s = Some t \<and>
      holds (rz_vmcs t) (guest_area h ug ept @ control_words (mod_conf mo) (rz_vmx s) @ host_area h mo) \<and>
      vr_cr3 (rz_regs t) = h_cr3 h \<and> kvm_register_is_dirty VCPU_EXREG_CR3 (rz_regs t))) \<and>
    (\<exists>t. kvm_vcpu_reset h mo True s = Some t \<and> holds (rz_vmcs t) (late_table h ug @ end_table h ug ept (init_cr0 h mo s)) \<and>
      (\<forall>f. f \<notin> set (init_written h ug) \<longrightarrow> rz_vmcs t f = rz_vmcs s f) \<and>
      vr_cr3 (rz_regs t) = h_cr3 h \<and> kvm_register_is_dirty VCPU_EXREG_CR3 (rz_regs t))"
  using reset_faults vcpu_reset_fields [OF _ _ assms(2), of h mo] vcpu_init_fields [OF assms(1,2), of mo] assms(1)
  unfolding host_ok_def ug_def ept_def by blast

text \<open>A CPU whose every descriptor is a flat 64-bit code segment.\<close>

definition demo_host :: host_cpu where
  "demo_host = \<lparr>h_mem = (\<lambda>_. Some 0x00209b0000000000), h_gdt_size = 0x57, h_gdt = 0x8000, h_idt_size = 0xfff, h_idt = 0x9000, h_sel = (\<lambda>_. 0x10),
     h_lsl = (\<lambda>_. 0xffffffff), h_rflags = 0x202, h_cr0 = 0x80050033, h_cr2 = 0, h_cr3 = 0x1ad000, h_cr4 = 0x370678, h_msr = (\<lambda>m. Some (ucast m)),
     h_phys = id, h_vmx_vmexit = 0x40000, h_vm_restore_state = 0x50000\<rparr>"

definition demo_conf :: vmcs_config where
  "demo_conf = fst (snd (setup_vmcs_config demo_msr (\<lambda>_. 0) \<lparr>cap_ept = 0, cap_vpid = 0\<rparr>))"

definition demo_module :: vmx_module where
  "demo_module = \<lparr>mod_conf = demo_conf, mod_params = ept_params, host_idt_base = 0x9000, enable_apicv = True, enable_pml = False\<rparr>"

definition demo_reset :: reset_state where
  "demo_reset = \<lparr>rz_run = demo_run, rz_segs = \<lparr>seg_vmcs = (\<lambda>_. 0), segs_avail = True, seg_bitmask = 0,
       seg_cache = (\<lambda>_. \<lparr>c_selector = 0, c_base = 0, c_limit = 0, c_ar = 0\<rparr>), vm86_active = False, rmode_segs = (\<lambda>_. zero_segment)\<rparr>,
     rz_vmx = demo_vmx_vcpu, rz_msr_bitmap = 0, rz_io_bitmap_a = 0, rz_io_bitmap_b = 0, pml_pg = 0, arch_pat = 0, arch_dr6 = 0, singlestep_rip = 0,
     guest_state_protected = False, apf_msr_en_val = 0, apf_msr_int_val = 0, st_msr_val = 0, microcode_version = 0, spec_ctrl = 0,
     feature_control_valid_bits = 0, posted_intr_nv = 0, vmxon_ptr = 0, current_vmptr = 0, hv_evmcs_vmptr = 0, pi_nv = 0, pi_sn = False,
     pt_guest_output_mask = 0\<rparr>"

text \<open>\<open>demo_host\<close> answers every MSR number; \<open>plain_host\<close> is the same CPU with the documented numbers only.\<close>

definition plain_host :: host_cpu where
  "plain_host = demo_host\<lparr>h_msr := (\<lambda>m. if m = HOST_IA32_SYSENTER_CS then None else Some (ucast m))\<rparr>"

lemma demo_cpu_ok: "cpu_ok demo_host" "cpu_ok plain_host"
  by (simp_all add: cpu_ok_def documented_msrs_def plain_host_def demo_host_def seg_mapped_def sel_base_def sel_desc_def get_segment_base_def
    get_segment_desc_def desc_addr_def x86_segment_base_def desc_s_def x86_bits vmcs_fields)

lemma demo_host_ok: "host_ok demo_host" "h_msr plain_host HOST_IA32_SYSENTER_CS = None" "h_msr demo_host HOST_IA32_SYSENTER_CS \<noteq> None"
  by (simp_all add: host_ok_def demo_cpu_ok) (simp_all add: plain_host_def demo_host_def)

lemma demo_reset_ok: "resettable demo_reset" "guest_debug (rz_run demo_reset) AND 2 = 0"
  by (simp_all add: resettable_def demo_reset_def demo_run_def load0_def blank_regs_def ctrl_coherent_def rz_vmcs_def demo_vmx_vcpu_def)

theorem vcpu_reset_clones_host_witness:
  "(\<exists>t. kvm_vcpu_reset demo_host demo_module False demo_reset = Some t \<and> rz_vmcs t GUEST_RIP = 0x50000 \<and> rz_vmcs t HOST_RIP = 0x40000 \<and>
     rz_vmcs t GUEST_CS_SELECTOR = 0x10 \<and> rz_vmcs t HOST_CS_SELECTOR = 0x10 \<and> rz_vmcs t GUEST_CS_AR_BYTES = 0x209b \<and> rz_vmcs t GUEST_RFLAGS = 0x202) \<and>
   kvm_vcpu_reset plain_host demo_module False demo_reset = None \<and>
   (\<exists>t. kvm_vcpu_reset plain_host demo_module True demo_reset = Some t \<and> vr_cr3 (rz_regs t) = 0x1ad000)"
proof -
  obtain t where t: "kvm_vcpu_reset demo_host demo_module False demo_reset = Some t"
    "holds (rz_vmcs t) (guest_area demo_host (enable_unrestricted_guest (rz_vmx demo_reset)) (enable_ept (rz_vmx demo_reset)) @
      control_words (mod_conf demo_module) (rz_vmx demo_reset) @ host_area demo_host demo_module)"
    using vcpu_reset_clones_host [OF demo_cpu_ok(1) demo_reset_ok(2), of demo_module] demo_host_ok(3) demo_reset_ok(1) by blast
  have e: "(f, x) \<in> set (guest_area demo_host True True @ host_area demo_host demo_module) \<Longrightarrow> rz_vmcs t f = x" for f x
    by (rule holdsD [OF t(2)]) (auto simp: demo_reset_def demo_vmx_vcpu_def)
  have "rz_vmcs t GUEST_RIP = 0x50000" "rz_vmcs t HOST_RIP = 0x40000" "rz_vmcs t GUEST_CS_SELECTOR = 0x10" "rz_vmcs t HOST_CS_SELECTOR = 0x10"
    "rz_vmcs t GUEST_CS_AR_BYTES = 0x209b" "rz_vmcs t GUEST_RFLAGS = 0x202"
    by (rule e, simp add: guest_area_def host_area_def constant_host_area_def seg_table_def kvm_vmx_segment_fields_def tables_area_def Let_def
      demo_host_def host_sel_def vmcs_fields GUEST_CS_AR_BYTES_def sel_desc_def get_segment_desc_def desc_addr_def desc_rights_def)+
  moreover have "h_cr3 plain_host = 0x1ad000" by (simp add: plain_host_def demo_host_def)
  ultimately show ?thesis
    using t(1) vcpu_reset_clones_host [OF demo_cpu_ok(2) demo_reset_ok(2), of demo_module] demo_host_ok(2) by metis
qed

end
