(* ===== verification/Vcpu_Create_Props.thy ===== *)
theory Vcpu_Create_Props
  imports Vcpu_Create Vcpu_Reset_Props Hash_Table_Props
begin

text \<open>
  What the creation of a vCPU leaves behind, on every outcome: in particular, whose VMCS it programs.
\<close>

section \<open>When the reset returns\<close>

lemma copy_segment_total: "seg_mapped h seg \<Longrightarrow> \<exists>c'. copy_segment h mo seg c = Some c'"
  by (auto simp: copy_segment_def seg_mapped_def sel_base_def sel_desc_def split: prod.split)

lemma copy_segments_total: "\<forall>seg \<in> set segs. seg_mapped h seg \<Longrightarrow> \<exists>c'. copy_segments h mo segs c = Some c'"
proof (induction segs arbitrary: c)
  case (Cons seg segs)
  then obtain d where "copy_segment h mo seg c = Some d" using copy_segment_total by (metis list.set_intros(1))
  then show ?case using Cons by simp
qed simp

lemma init_vmcs_total: "msrs_ok h \<Longrightarrow> \<exists>t. init_vmcs h mo s = Some t"
proof -
  assume m: "msrs_ok h"
  let ?a = "init_head h mo s"
  obtain H where H: "vmx_set_constant_host_state h mo ?a = Some H" by (rule host_state_effect [OF m])
  obtain F where F: "init_vmcs_features h mo H = Some F" by (rule features_effect [OF m])
  have "\<exists>t. init_vmcs_guest h mo u = Some t" for u by (rule guest_effect [OF m]) blast
  then show ?thesis using H F by (simp add: init_vmcs_def init_head_def Let_def)
qed

lemma reset_total:
  assumes "host_ok h" shows "\<exists>t. kvm_vcpu_reset h mo False s = Some t"
proof -
  have seg: "\<forall>seg \<in> set [6, 0, 1, 2, 3, 4, 5, 7]. seg_mapped h seg" "\<forall>seg \<in> set [6, 7]. seg_mapped h seg" using host_okD(3) [OF assms] by simp_all
  note m = host_okD(2) [OF assms]
  have "\<exists>t. raw_vmx_vcpu_reset h mo u = Some t" for u
    using copy_segments_total [OF seg(1)] init_vmcs_total [OF m] unfolding raw_reset_eq Let_def by (metis bind.bind_lunit)
  moreover have "\<exists>t. vmx_reset_late h mo u = Some t" for u
  proof -
    obtain a b where "h_msr h MSR_FS_BASE = Some a" "h_msr h MSR_GS_BASE = Some b" using m by (auto simp: msrs_ok_def)
    then show ?thesis using copy_segments_total [OF seg(2)] unfolding vmx_reset_late_def Let_def by (metis bind.bind_lunit)
  qed
  ultimately have "\<exists>t. vmx_vcpu_reset h mo False u = Some t" for u unfolding vmx_reset_eq by (metis bind.bind_lunit)
  then show ?thesis unfolding reset_eq by (metis bind.bind_lunit)
qed

section \<open>The VMCS of a new vCPU\<close>

lemma clear_fold:
  assumes "\<forall>c. hw_vmcs v c \<noteq> lv_vmcs (lv v i)"
  shows "fold (\<lambda>c. VmcsClearOnSpecificCore c i) cs v = v"
  using assms by (induction cs) (simp_all add: VmcsClearOnSpecificCore_def vmcs_clear_def)

text \<open>The pool served the VMCS and those of the bitmaps that the processor has.\<close>

definition blocks_served :: "bool \<Rightarrow> bool \<Rightarrow> u64 \<times> u64 \<times> u64 \<times> u64 \<Rightarrow> bool" where
  "blocks_served hm hi = (\<lambda>(b, mb, ia, ib). b \<noteq> 0 \<and> (hm \<longrightarrow> mb \<noteq> 0) \<and> (hi \<longrightarrow> ia \<noteq> 0 \<and> ib \<noteq> 0))"

lemma alloc_status:
  "fst (alloc_loaded_vmcs n hm hi blocks i v) = (if blocks_served hm hi blocks then STATUS_SUCCESS else STATUS_NO_MEMORY)"
  by (auto simp: alloc_loaded_vmcs_def blocks_served_def Let_def split: prod.split)

lemma alloc_ok:
  assumes "blocks_served hm hi (b, mb, ia, ib)" "\<forall>c. hw_vmcs v c \<noteq> b"
  obtains v' where "alloc_loaded_vmcs n hm hi (b, mb, ia, ib) i v = (STATUS_SUCCESS, v')" "lv_vmcs (lv v' i) = b" "lv_cpu (lv v' i) = -1"
    "lv_vcpu_id (lv v' i) = lv_vcpu_id (lv v i)" "hw_vmcs v' = hw_vmcs v" "vmcs_data v' = vmcs_data v" "current_vmcs v' = current_vmcs v"
proof -
  let ?v = "take_block b (upd_lv i (\<lambda>l. l\<lparr>lv_vmcs := b\<rparr>) v)"
  have nz: "b \<noteq> 0" using assms(1) by (simp add: blocks_served_def)
  have f: "fold (\<lambda>c. VmcsClearOnSpecificCore c i) [0..<n] ?v = ?v"
    by (rule clear_fold) (use assms(2) nz in \<open>simp add: take_block_def upd_lv_def\<close>)
  show ?thesis
    by (rule that [of "snd (alloc_loaded_vmcs n hm hi (b, mb, ia, ib) i v)"])
      (use assms f in \<open>auto simp: blocks_served_def alloc_loaded_vmcs_def Let_def take_block_def upd_lv_def\<close>)
qed

lemma load_fold:
  "hw_vmcs (fold (\<lambda>c. VmcsLoadOnSpecificCore c i) cs v) =
     (if lv_vcpu_id (lv v i) \<in> set cs then (hw_vmcs v)(lv_vcpu_id (lv v i) := lv_vmcs (lv v i)) else hw_vmcs v)"
  "lv (fold (\<lambda>c. VmcsLoadOnSpecificCore c i) cs v) = lv v" "vmcs_data (fold (\<lambda>c. VmcsLoadOnSpecificCore c i) cs v) = vmcs_data v"
  by (induction cs arbitrary: v) (simp_all add: VmcsLoadOnSpecificCore_def)

lemma load_ok:
  assumes "lv_cpu (lv v i) = -1" "lv_vmcs (lv v i) = b" "lv_vcpu_id (lv v i) = k" "k < n" "current_vmcs v k \<noteq> b"
    "v' = vmx_vcpu_load_vmcs n here tr gdt i k v" "hw = (hw_vmcs v)(k := b)"
  shows "hw_vmcs v' = hw" "vmcs_data v' = (vmcs_data v)(hw here := (vmcs_data v (hw here))(0x6c0a := tr, 0x6c0c := gdt))"
  using assms
  by (simp_all add: vmx_vcpu_load_vmcs_def Let_def loaded_vmcs_clear_def load_fold vmcs_writel_def upd_lv_def)

definition env_blocks_served :: "create_env \<Rightarrow> u64 \<times> u64 \<times> u64 \<times> u64 \<Rightarrow> bool" where
  "env_blocks_served env = blocks_served (cpu_has_vmx_msr_bitmap (mod_conf (ce_module env))) (cpu_has_vmx_io_bitmap (mod_conf (ce_module env)))"

text \<open>The pointer to the VMCS is set exactly when its blocks were served.\<close>

lemma vmx_create_status:
  assumes "allocate_vpid (ce_find_clear env) (ce_enable_vpid env) (vm_vpids vm) = Inr (vpid, buf)"
  obtains vc' vm' where
    "vmx_vcpu_create env blocks vc vm = Some (if env_blocks_served env blocks then 0 else STATUS_NO_MEMORY, vc', vm')"
    "loaded_vmcs_of vc' = (if env_blocks_served env blocks then Some (vmcs01 vc) else loaded_vmcs_of vc)" "vcpu_id vc' = vcpu_id vc"
    "created_vcpus vm' = created_vcpus vm" "vcpu_array vm' = vcpu_array vm"
proof -
  let ?i = "vmcs01 vc"
  let ?v = "upd_lv ?i (\<lambda>l. l\<lparr>lv_vcpu_id := vcpu_id vc\<rparr>) (vm_vmcss vm)"
  obtain st v where a: "alloc_loaded_vmcs (ce_ncpus env) (cpu_has_vmx_msr_bitmap (mod_conf (ce_module env)))
      (cpu_has_vmx_io_bitmap (mod_conf (ce_module env))) blocks ?i ?v = (st, v)" by fastforce
  then have st: "st = (if env_blocks_served env blocks then 0 else STATUS_NO_MEMORY)"
    using alloc_status [of "ce_ncpus env" "cpu_has_vmx_msr_bitmap (mod_conf (ce_module env))" "cpu_has_vmx_io_bitmap (mod_conf (ce_module env))" blocks ?i ?v]
    by (simp add: env_blocks_served_def STATUS_SUCCESS_def split: if_splits)
  show ?thesis
    by (rule that [of "fst (snd (the (vmx_vcpu_create env blocks vc vm)))" "snd (snd (the (vmx_vcpu_create env blocks vc vm)))"])
      (use assms a st in \<open>simp_all add: vmx_vcpu_create_def Let_def status_defs\<close>)
qed

lemma vmx_create_ok:
  assumes "allocate_vpid (ce_find_clear env) (ce_enable_vpid env) (vm_vpids vm) = Inr (vpid, buf)"
    "env_blocks_served env (b, mb, ia, ib)" "\<forall>c. hw_vmcs (vm_vmcss vm) c \<noteq> b"
  obtains vc' vm' where "vmx_vcpu_create env (b, mb, ia, ib) vc vm = Some (0, vc', vm')" "loaded_vmcs_of vc' = Some (vmcs01 vc)"
    "vcpu_id vc' = vcpu_id vc" "lv_vmcs (lv (vm_vmcss vm') (vmcs01 vc)) = b" "lv_cpu (lv (vm_vmcss vm') (vmcs01 vc)) = -1"
    "lv_vcpu_id (lv (vm_vmcss vm') (vmcs01 vc)) = vcpu_id vc" "hw_vmcs (vm_vmcss vm') = hw_vmcs (vm_vmcss vm)"
    "vmcs_data (vm_vmcss vm') = vmcs_data (vm_vmcss vm)" "current_vmcs (vm_vmcss vm') = current_vmcs (vm_vmcss vm)"
    "created_vcpus vm' = created_vcpus vm \<and> vcpu_array vm' = vcpu_array vm"
    "rz_run (vcpu_arch vc') = rz_run (vcpu_arch vc)" "rz_vmx (vcpu_arch vc') = (rz_vmx (vcpu_arch vc))\<lparr>vmx_vpid := of_nat vpid\<rparr>"
proof -
  let ?i = "vmcs01 vc"
  let ?v = "upd_lv ?i (\<lambda>l. l\<lparr>lv_vcpu_id := vcpu_id vc\<rparr>) (vm_vmcss vm)"
  let ?conf = "mod_conf (ce_module env)"
  have hw: "\<forall>c. hw_vmcs ?v c \<noteq> b" using assms(3) by (simp add: upd_lv_def)
  have base: "lv_vcpu_id (lv ?v ?i) = vcpu_id vc" "hw_vmcs ?v = hw_vmcs (vm_vmcss vm)" "vmcs_data ?v = vmcs_data (vm_vmcss vm)"
    "current_vmcs ?v = current_vmcs (vm_vmcss vm)" by (simp_all add: upd_lv_def)
  obtain v' where "alloc_loaded_vmcs (ce_ncpus env) (cpu_has_vmx_msr_bitmap ?conf) (cpu_has_vmx_io_bitmap ?conf) (b, mb, ia, ib) ?i ?v = (STATUS_SUCCESS, v')"
      "lv_vmcs (lv v' ?i) = b" "lv_cpu (lv v' ?i) = -1" "lv_vcpu_id (lv v' ?i) = lv_vcpu_id (lv ?v ?i)" "hw_vmcs v' = hw_vmcs ?v"
      "vmcs_data v' = vmcs_data ?v" "current_vmcs v' = current_vmcs ?v"
    by (rule alloc_ok [OF assms(2) [unfolded env_blocks_served_def] hw])
  note v' = this(1-3) this(4-7) [unfolded base]
  show ?thesis
    by (rule that [of "fst (snd (the (vmx_vcpu_create env (b, mb, ia, ib) vc vm)))" "snd (snd (the (vmx_vcpu_create env (b, mb, ia, ib) vc vm)))"])
      (use assms(1) v' in \<open>simp_all add: vmx_vcpu_create_def Let_def status_defs\<close>)
qed

section \<open>Creation\<close>

text \<open>The VMCS \<open>b\<close> is a new one, current nowhere, whose control fields read zero like their shadows in the zeroed vCPU.\<close>

definition zeroed :: "reset_state \<Rightarrow> bool" where
  "zeroed s \<longleftrightarrow> guest_debug (rz_run s) = 0 \<and> sh_pin (rs_ctrl (rz_run s)) = 0 \<and> sh_exec (rs_ctrl (rz_run s)) = 0 \<and>
     sh_secondary_exec (rs_ctrl (rz_run s)) = 0 \<and> sh_vm_exit (rs_ctrl (rz_run s)) = 0 \<and> sh_vm_entry (rs_ctrl (rz_run s)) = 0 \<and>
     (enable_unrestricted_guest (rz_vmx s) \<longrightarrow> enable_ept (rz_vmx s))"

definition new_vmcs :: "u64 \<Rightarrow> vmcs_state \<Rightarrow> bool" where
  "new_vmcs b v \<longleftrightarrow> (\<forall>c. hw_vmcs v c \<noteq> b \<and> current_vmcs v c \<noteq> b) \<and>
     (\<forall>f \<in> {PIN_BASED_VM_EXEC_CONTROL, CPU_BASED_VM_EXEC_CONTROL, SECONDARY_VM_EXEC_CONTROL, VM_EXIT_CONTROLS, VM_ENTRY_CONTROLS}. vmcs_data v b f = 0)"

definition vcpu_room :: "create_env \<Rightarrow> u64 \<Rightarrow> vcpu \<Rightarrow> nat \<Rightarrow> vm_state \<Rightarrow> bool" where
  "vcpu_room env b zero k vm \<longleftrightarrow> k < ce_ncpus env \<and> zeroed (vcpu_arch zero) \<and> new_vmcs b (vm_vmcss vm)"

abbreviation mmu_creation :: "create_env \<Rightarrow> vcpu \<Rightarrow> vm_state \<Rightarrow> (int \<times> vcpu_mmu \<times> vcpu_mmu \<times> mmu_state) option" where
  "mmu_creation env vc vm \<equiv> kvm_mmu_create (re_menv (ce_run env)) (re_globals (ce_run env)) (ce_maxphyaddr env) (guest_mmu vc) (root_mmu vc) (vm_pages vm)"

abbreviation vpid_allocation :: "create_env \<Rightarrow> vm_state \<Rightarrow> hw_fault + (nat \<times> bool list option)" where
  "vpid_allocation env vm \<equiv> allocate_vpid (ce_find_clear env) (ce_enable_vpid env) (vm_vpids vm)"

text \<open>What creation leaves in the VMCS \<open>b\<close> of the new vCPU when it runs on the CPU \<open>here\<close>.\<close>

definition programmed :: "create_env \<Rightarrow> reset_state \<Rightarrow> (u32 \<Rightarrow> u64) \<Rightarrow> bool" where
  "programmed env s m \<longleftrightarrow> holds m (guest_area (ce_host env) (enable_unrestricted_guest (rz_vmx s)) (enable_ept (rz_vmx s)) @
     host_area (ce_host env) (ce_module env))"

lemma tsc_write: "rz_vmcs (s\<lparr>rz_run := kvm_arch_vcpu_load (rz_run s)\<rparr>) = (rz_vmcs s)(TSC_OFFSET := 0)"
  "rs_ctrl (kvm_arch_vcpu_load r) = rs_ctrl r" "guest_debug (kvm_arch_vcpu_load r) = guest_debug r"
  by (simp_all add: kvm_arch_vcpu_load_def rs_write_def on_regs_def vr_write_def rz_vmcs_def)

lemma view_vmcs: "rz_vmcs (rz_on_regs (\<lambda>r. r\<lparr>vr_vmcs := m\<rparr>) s) = m" "rz_vmx (rz_on_regs f s) = rz_vmx s"
  "rs_ctrl (rz_run (rz_on_regs f s)) = rs_ctrl (rz_run s)" "guest_debug (rz_run (rz_on_regs f s)) = guest_debug (rz_run s)"
  by (simp_all add: rz_on_regs_def on_regs_def rz_vmcs_def)

lemma vcpu_load_ok:
  assumes "loaded_vmcs_of vc = Some i" "lv_cpu (lv (vm_vmcss vm) i) = -1" "lv_vmcs (lv (vm_vmcss vm) i) = b" "lv_vcpu_id (lv (vm_vmcss vm) i) = vcpu_id vc"
    "vcpu_id vc < ce_ncpus env" "current_vmcs (vm_vmcss vm) (vcpu_id vc) \<noteq> b"
  obtains arch v where "vcpu_load env vc vm = Some (vc\<lparr>vcpu_arch := arch\<rparr>, vm\<lparr>vm_vmcss := v\<rparr>)" "hw_vmcs v = (hw_vmcs (vm_vmcss vm))(vcpu_id vc := b)"
    "\<forall>w. w \<noteq> hw_vmcs v (ce_here env) \<longrightarrow> vmcs_data v w = vmcs_data (vm_vmcss vm) w"
    "\<forall>w f. f \<notin> {0x6c0a, 0x6c0c, TSC_OFFSET} \<longrightarrow> vmcs_data v w f = vmcs_data (vm_vmcss vm) w f"
    "rs_ctrl (rz_run arch) = rs_ctrl (rz_run (vcpu_arch vc))" "guest_debug (rz_run arch) = guest_debug (rz_run (vcpu_arch vc))"
    "rz_vmx arch = rz_vmx (vcpu_arch vc)"
proof -
  let ?v = "vmx_vcpu_load_vmcs (ce_ncpus env) (ce_here env) (ce_tr_base env) (h_gdt (ce_host env)) i (vcpu_id vc) (vm_vmcss vm)"
  note l = load_ok [OF assms(2-6) refl refl, of "ce_here env" "ce_tr_base env" "h_gdt (ce_host env)"]
  let ?s = "rz_on_regs (\<lambda>r. r\<lparr>vr_vmcs := vmcs_data ?v (hw_vmcs ?v (ce_here env))\<rparr>) (vcpu_arch vc)"
  let ?arch = "?s\<lparr>rz_run := kvm_arch_vcpu_load (rz_run ?s)\<rparr>"
  let ?w = "?v\<lparr>vmcs_data := (vmcs_data ?v)(hw_vmcs ?v (ce_here env) := rz_vmcs ?arch)\<rparr>"
  show ?thesis
  proof (rule that [of ?arch ?w])
    show "vcpu_load env vc vm = Some (vc\<lparr>vcpu_arch := ?arch\<rparr>, vm\<lparr>vm_vmcss := ?w\<rparr>)"
      by (simp add: vcpu_load_def assms(1) on_current_def Let_def)
  qed (simp_all add: l tsc_write view_vmcs)
qed

lemma reset_current:
  assumes "host_ok h" "zeroed s"
  obtains t where "on_current here (kvm_vcpu_reset h mo False) (s, v) = Some (t, v\<lparr>vmcs_data := (vmcs_data v)(hw_vmcs v here := rz_vmcs t)\<rparr>)"
    "\<forall>f \<in> {PIN_BASED_VM_EXEC_CONTROL, CPU_BASED_VM_EXEC_CONTROL, SECONDARY_VM_EXEC_CONTROL, VM_EXIT_CONTROLS, VM_ENTRY_CONTROLS}.
        vmcs_data v (hw_vmcs v here) f = 0 \<Longrightarrow>
      holds (rz_vmcs t) (guest_area h (enable_unrestricted_guest (rz_vmx s)) (enable_ept (rz_vmx s)) @ host_area h mo)"
proof -
  let ?s = "rz_on_regs (\<lambda>r. r\<lparr>vr_vmcs := vmcs_data v (hw_vmcs v here)\<rparr>) s"
  obtain t where t: "kvm_vcpu_reset h mo False ?s = Some t" using reset_total [OF assms(1)] by blast
  show ?thesis
  proof (rule that [of t])
    show "on_current here (kvm_vcpu_reset h mo False) (s, v) = Some (t, v\<lparr>vmcs_data := (vmcs_data v)(hw_vmcs v here := rz_vmcs t)\<rparr>)"
      by (simp add: on_current_def t)
    assume "\<forall>f \<in> {PIN_BASED_VM_EXEC_CONTROL, CPU_BASED_VM_EXEC_CONTROL, SECONDARY_VM_EXEC_CONTROL, VM_EXIT_CONTROLS, VM_ENTRY_CONTROLS}.
        vmcs_data v (hw_vmcs v here) f = 0"
    then have "resettable ?s" "guest_debug (rz_run ?s) AND 2 = 0"
      using assms(2) by (simp_all add: resettable_def ctrl_coherent_def zeroed_def view_vmcs)
    from vcpu_reset_fields [OF assms(1) this, of mo] t
    have h: "holds (rz_vmcs t) (guest_area h (enable_unrestricted_guest (rz_vmx s)) (enable_ept (rz_vmx s)) @ control_words (mod_conf mo) (rz_vmx s) @ host_area h mo)"
      by (simp add: view_vmcs)
    show "holds (rz_vmcs t) (guest_area h (enable_unrestricted_guest (rz_vmx s)) (enable_ept (rz_vmx s)) @ host_area h mo)"
      by (rule holds_subset [OF h]) auto
  qed
qed

lemma arch_create_ok:
  assumes "vcpu_room env b vc k vm" "vcpu_id vc = k" "env_blocks_served env (b, mb, ia, ib)" "host_ok (ce_host env)"
    and mmu: "mmu_creation env vc vm = Some (0, gm, rm, pages)" and vp: "vpid_allocation env vm = Inr (vpid, buf)"
  obtains vc' vm' where "kvm_arch_vcpu_create env (b, mb, ia, ib) vc vm = Some (0, vc', vm')" "vcpu_id vc' = k"
    "loaded_vmcs_of vc' = Some (vmcs01 vc)" "hw_vmcs (vm_vmcss vm') k = b" "created_vcpus vm' = created_vcpus vm" "vcpu_array vm' = vcpu_array vm"
    "if k = ce_here env then programmed env (vcpu_arch vc) (vmcs_data (vm_vmcss vm') b)
     else vmcs_data (vm_vmcss vm') b = vmcs_data (vm_vmcss vm) b"
proof -
  let ?vc = "vc\<lparr>guest_mmu := gm, root_mmu := rm, mcg_cap := KVM_MAX_MCE_BANKS,
    vcpu_arch := (init_arch (vcpu_arch vc))\<lparr>arch_pat := MSR_IA32_CR_PAT_DEFAULT\<rparr>\<rparr>"
  let ?vm = "vm\<lparr>vm_pages := pages\<rparr>"
  have new: "\<forall>c. hw_vmcs (vm_vmcss ?vm) c \<noteq> b" "current_vmcs (vm_vmcss vm) k \<noteq> b" using assms(1) by (simp_all add: vcpu_room_def new_vmcs_def)
  obtain vc1 vm1 where c: "vmx_vcpu_create env (b, mb, ia, ib) ?vc ?vm = Some (0, vc1, vm1)" "loaded_vmcs_of vc1 = Some (vmcs01 vc)"
      "vcpu_id vc1 = k" "lv_vmcs (lv (vm_vmcss vm1) (vmcs01 vc)) = b" "lv_cpu (lv (vm_vmcss vm1) (vmcs01 vc)) = -1"
      "lv_vcpu_id (lv (vm_vmcss vm1) (vmcs01 vc)) = k" "hw_vmcs (vm_vmcss vm1) = hw_vmcs (vm_vmcss vm)"
      "vmcs_data (vm_vmcss vm1) = vmcs_data (vm_vmcss vm)" "current_vmcs (vm_vmcss vm1) = current_vmcs (vm_vmcss vm)"
      "created_vcpus vm1 = created_vcpus vm \<and> vcpu_array vm1 = vcpu_array vm" "rz_run (vcpu_arch vc1) = rz_run (vcpu_arch ?vc)"
      "rz_vmx (vcpu_arch vc1) = (rz_vmx (vcpu_arch vc))\<lparr>vmx_vpid := of_nat vpid\<rparr>"
    using vmx_create_ok [of env ?vm vpid buf b mb ia ib ?vc] vp assms(2,3) new(1) by (auto simp: init_arch_def view_vmcs)
  obtain arch v where l: "vcpu_load env vc1 vm1 = Some (vc1\<lparr>vcpu_arch := arch\<rparr>, vm1\<lparr>vm_vmcss := v\<rparr>)" "hw_vmcs v = (hw_vmcs (vm_vmcss vm))(k := b)"
      "\<forall>w. w \<noteq> hw_vmcs v (ce_here env) \<longrightarrow> vmcs_data v w = vmcs_data (vm_vmcss vm) w"
      "\<forall>w f. f \<notin> {0x6c0a, 0x6c0c, TSC_OFFSET} \<longrightarrow> vmcs_data v w f = vmcs_data (vm_vmcss vm) w f"
      "rs_ctrl (rz_run arch) = rs_ctrl (rz_run (vcpu_arch vc1))" "guest_debug (rz_run arch) = guest_debug (rz_run (vcpu_arch vc1))"
      "rz_vmx arch = rz_vmx (vcpu_arch vc1)"
    using vcpu_load_ok [OF c(2,5,4)] c assms(1,2) new(2) by (auto simp: vcpu_room_def)
  have z: "zeroed arch" "enable_unrestricted_guest (rz_vmx arch) = enable_unrestricted_guest (rz_vmx (vcpu_arch vc))"
      "enable_ept (rz_vmx arch) = enable_ept (rz_vmx (vcpu_arch vc))"
    using assms(1) l c by (simp_all add: vcpu_room_def zeroed_def init_arch_def view_vmcs)
  obtain t where t: "on_current (ce_here env) (kvm_vcpu_reset (ce_host env) (ce_module env) False) (arch, v) =
      Some (t, v\<lparr>vmcs_data := (vmcs_data v)(hw_vmcs v (ce_here env) := rz_vmcs t)\<rparr>)"
    "\<forall>f \<in> {PIN_BASED_VM_EXEC_CONTROL, CPU_BASED_VM_EXEC_CONTROL, SECONDARY_VM_EXEC_CONTROL, VM_EXIT_CONTROLS, VM_ENTRY_CONTROLS}.
        vmcs_data v (hw_vmcs v (ce_here env)) f = 0 \<Longrightarrow> programmed env (vcpu_arch vc) (rz_vmcs t)"
    using reset_current [OF assms(4) z(1), of "ce_here env" "ce_module env" v] unfolding programmed_def z(2,3) by blast
  let ?v = "v\<lparr>vmcs_data := (vmcs_data v)(hw_vmcs v (ce_here env) := rz_vmcs t)\<rparr>"
  obtain rm' regs where m: "kvm_init_mmu (ce_masks env) (re_globals (ce_run env)) (params_of (ce_module env) t) (ce_maxphyaddr env) False (root_mmu vc1) (rz_regs t) = (rm', regs)"
    by fastforce
  let ?res = "vcpu_put env (vc1\<lparr>vcpu_arch := rz_on_regs (\<lambda>_. regs) t, root_mmu := rm'\<rparr>)"
  have res: "kvm_arch_vcpu_create env (b, mb, ia, ib) vc vm = Some (0, ?res, vm1\<lparr>vm_vmcss := ?v\<rparr>)"
    using mmu c(1) l(1) t(1) m by (simp add: kvm_arch_vcpu_create_def Let_def)
  have zero: "\<forall>f \<in> {PIN_BASED_VM_EXEC_CONTROL, CPU_BASED_VM_EXEC_CONTROL, SECONDARY_VM_EXEC_CONTROL, VM_EXIT_CONTROLS, VM_ENTRY_CONTROLS}. vmcs_data v b f = 0"
    using assms(1) l(4) by (simp add: vcpu_room_def new_vmcs_def control_fields TSC_OFFSET_def)
  have "vmcs_data ?v b = vmcs_data (vm_vmcss vm) b" if "k \<noteq> ce_here env"
    using that l(2,3) new(1) by auto
  moreover have "programmed env (vcpu_arch vc) (vmcs_data ?v b)" if "k = ce_here env"
    using that l(2) t(2) zero by simp
  ultimately show ?thesis
    by (intro that [OF res]) (use c(2,3,10) l(2) in \<open>simp_all add: vcpu_put_def\<close>)
qed

text \<open>The MMU is created, or a negative status says why not.\<close>

lemma mmu_create_status:
  "kvm_mmu_create e g phys gm rm s = Some (r, gm', rm', s') \<Longrightarrow> r = 0 \<or> r < 0"
  by (auto simp: kvm_mmu_create_def raw_kvm_mmu_create_def Let_def status_defs bind_eq_Some_conv split: if_splits prod.splits)

text \<open>
  With the MMU created, what remains returns exactly when there is a VPID, the pool serves the VMCS and its bitmaps
  and the reset gets past its strange MSR.
\<close>

lemma arch_create_returns:
  assumes "mmu_creation env vc vm = Some (0, gm, rm, pages)" "loaded_vmcs_of vc = None" "cpu_ok (ce_host env)"
  shows "if isl (vpid_allocation env vm) \<or> \<not> env_blocks_served env blocks \<or> h_msr (ce_host env) HOST_IA32_SYSENTER_CS = None
    then kvm_arch_vcpu_create env blocks vc vm = None
    else \<exists>vc' vm'. kvm_arch_vcpu_create env blocks vc vm = Some (0, vc', vm') \<and> vcpu_id vc' = vcpu_id vc \<and>
      created_vcpus vm' = created_vcpus vm \<and> vcpu_array vm' = vcpu_array vm"
proof (cases "vpid_allocation env vm")
  case (Inl f)
  then show ?thesis using assms(1) by (simp add: kvm_arch_vcpu_create_def vmx_vcpu_create_def Let_def)
next
  case (Inr r)
  let ?vc = "vc\<lparr>guest_mmu := gm, root_mmu := rm, mcg_cap := KVM_MAX_MCE_BANKS,
    vcpu_arch := (init_arch (vcpu_arch vc))\<lparr>arch_pat := MSR_IA32_CR_PAT_DEFAULT\<rparr>\<rparr>"
  let ?vm = "vm\<lparr>vm_pages := pages\<rparr>"
  obtain vpid buf where "vpid_allocation env ?vm = Inr (vpid, buf)" using Inr by (cases r) auto
  then obtain vc1 vm1 where c: "vmx_vcpu_create env blocks ?vc ?vm = Some (if env_blocks_served env blocks then 0 else STATUS_NO_MEMORY, vc1, vm1)"
      "loaded_vmcs_of vc1 = (if env_blocks_served env blocks then Some (vmcs01 ?vc) else loaded_vmcs_of ?vc)" "vcpu_id vc1 = vcpu_id ?vc"
      "created_vcpus vm1 = created_vcpus ?vm" "vcpu_array vm1 = vcpu_array ?vm"
    using vmx_create_status [of env ?vm vpid buf blocks ?vc] by blast
  show ?thesis
  proof (cases "env_blocks_served env blocks")
    case False
    then show ?thesis using assms(1,2) c by (simp add: kvm_arch_vcpu_create_def vcpu_load_def Let_def)
  next
    case True
    obtain vc2 vm2 where l: "vcpu_load env vc1 vm1 = Some (vc2, vm2)" "vcpu_id vc2 = vcpu_id vc1" "created_vcpus vm2 = created_vcpus vm1"
        "vcpu_array vm2 = vcpu_array vm1"
      using c(2) True by (simp add: vcpu_load_def on_current_def Let_def)
    show ?thesis
    proof (cases "h_msr (ce_host env) HOST_IA32_SYSENTER_CS")
      case None
      then show ?thesis
        using assms(1) c(1) l(1) by (simp add: kvm_arch_vcpu_create_def on_current_def reset_faults Let_def)
    next
      case (Some x)
      then have h: "host_ok (ce_host env)" using assms(3) by (simp add: host_ok_def)
      obtain t v where "on_current (ce_here env) (kvm_vcpu_reset (ce_host env) (ce_module env) False) (vcpu_arch vc2, vm_vmcss vm2) = Some (t, v)"
        using reset_total [OF h, of "ce_module env"] unfolding on_current_def by (metis (no_types, lifting) bind.bind_lunit case_prod_conv)
      then show ?thesis
        using assms(1) c l True Some Inr by (auto simp: kvm_arch_vcpu_create_def vcpu_put_def Let_def split: prod.split)
    qed
  qed
qed

text \<open>
  C40: every outcome of creating the vCPU \<open>k\<close>, on a 64-bit CPU with the documented MSRs and mapped descriptors. Beyond the
  maximum the request is refused. Without memory for the vCPU or its page it fails with STATUS_NO_MEMORY, and when the MMU
  cannot be created with a negative status of its own; the blocks are given back, but the count of vCPUs stays raised.
  There is no result at all when the creation of the MMU or of the VPID faults, when the pool refuses the VMCS or a
  bitmap (a NULL pointer is followed), or when the number HOST_IA32_SYSENTER_CS is no MSR, as on every documented
  processor: then the reset faults. Otherwise creation succeeds and the vCPU is entered into the array. If in addition \<open>k\<close> is the number
  of a CPU, the vCPU came zeroed and its VMCS is new, this is made current on CPU \<open>k\<close>; but only if the creating thread runs on
  that very CPU does the reset program it: from any other CPU every field of it is left as it was.
\<close>

theorem create_vcpu_outcomes:
  fixes env :: create_env and vb pb b mb ia ib :: u64 and zero :: vcpu and k :: nat and vm :: vm_state
  assumes "loaded_vmcs_of zero = None" and "cpu_ok (ce_host env)"
  defines "create \<equiv> kvm_vm_ioctl_create_vcpu env vb pb (b, mb, ia, ib) zero k vm" and "n \<equiv> created_vcpus vm"
  shows "if max_vcpus vm \<le> n then create = Some (STATUS_INVALID_PARAMETER, vm)
    else if vb = 0 \<or> pb = 0 then create = Some (STATUS_NO_MEMORY, vm\<lparr>created_vcpus := n + 1\<rparr>)
    else case mmu_creation env zero vm of
      None \<Rightarrow> create = None
    | Some (r, gm, rm, pages) \<Rightarrow>
        if r \<noteq> 0 then r < 0 \<and> create = Some (r, vm\<lparr>created_vcpus := n + 1, vm_pages := pages\<rparr>)
        else if isl (vpid_allocation env vm) \<or> \<not> env_blocks_served env (b, mb, ia, ib) \<or> h_msr (ce_host env) HOST_IA32_SYSENTER_CS = None
        then create = None
        else \<exists>vc vm'. create = Some (STATUS_SUCCESS, vm') \<and> created_vcpus vm' = n + 1 \<and> vcpu_array vm' = (vcpu_array vm)(k \<mapsto> vc) \<and> vcpu_id vc = k \<and>
          (vcpu_room env b zero k vm \<longrightarrow> hw_vmcs (vm_vmcss vm') k = b \<and>
            (if k = ce_here env then programmed env (vcpu_arch zero) (vmcs_data (vm_vmcss vm') b)
             else vmcs_data (vm_vmcss vm') b = vmcs_data (vm_vmcss vm) b))"
proof -
  let ?vm = "vm\<lparr>created_vcpus := n + 1, vm_blocks := pb # vb # vm_blocks vm\<rparr>"
  let ?vc = "kvm_vcpu_init k (zero\<lparr>vcpu_run_page := pb\<rparr>)"
  let ?arch = "kvm_arch_vcpu_create env (b, mb, ia, ib) ?vc ?vm"
  have va: "vcpu_id ?vc = k" "vcpu_arch ?vc = vcpu_arch zero" "guest_mmu ?vc = guest_mmu zero" "root_mmu ?vc = root_mmu zero" "vmcs01 ?vc = vmcs01 zero"
    "loaded_vmcs_of ?vc = None" "vm_vmcss ?vm = vm_vmcss vm" "vm_pages ?vm = vm_pages vm" "vm_vpids ?vm = vm_vpids vm"
    "created_vcpus ?vm = n + 1" "vcpu_array ?vm = vcpu_array vm"
    using assms(1) by (simp_all add: kvm_vcpu_init_def)
  have eq: "create = ?arch \<bind> (\<lambda>(r, vc, vm).
      if r \<noteq> 0 then Some (r, if r < 0 then free_block pb (free_block vb vm) else vm) else Some (r, vm\<lparr>vcpu_array := (vcpu_array vm)(k \<mapsto> kvm_arch_vcpu_postcreate vc)\<rparr>))"
    if "n < max_vcpus vm" "vb \<noteq> 0" "pb \<noteq> 0"
    using that by (simp add: create_def n_def kvm_vm_ioctl_create_vcpu_def kvm_arch_vcpu_precreate_def Let_def)
  consider (early) "max_vcpus vm \<le> n \<or> vb = 0 \<or> pb = 0"
    | (fault) "n < max_vcpus vm" "vb \<noteq> 0" "pb \<noteq> 0" "mmu_creation env zero vm = None"
    | (mmu) r gm rm pages where "n < max_vcpus vm" "vb \<noteq> 0" "pb \<noteq> 0" "mmu_creation env zero vm = Some (r, gm, rm, pages)" "r \<noteq> 0"
    | (rest) gm rm pages where "n < max_vcpus vm" "vb \<noteq> 0" "pb \<noteq> 0" "mmu_creation env zero vm = Some (0, gm, rm, pages)"
    by (cases "max_vcpus vm \<le> n \<or> vb = 0 \<or> pb = 0"; cases "mmu_creation env zero vm") (auto simp: not_le, blast)
  then show ?thesis
  proof cases
    case early
    then show ?thesis
      by (auto simp: create_def n_def kvm_vm_ioctl_create_vcpu_def kvm_arch_vcpu_precreate_def free_block_def Let_def)
  next
    case fault
    then show ?thesis using eq va by (simp add: kvm_arch_vcpu_create_def Let_def)
  next
    case mmu
    have neg: "r < 0" using mmu_create_status [OF mmu(4)] mmu(5) by simp
    then have "?arch = Some (r, ?vc\<lparr>vcpu_arch := init_arch (vcpu_arch ?vc), guest_mmu := gm, root_mmu := rm\<rparr>, ?vm\<lparr>vm_pages := pages\<rparr>)"
      using mmu(4) va by (simp add: kvm_arch_vcpu_create_def Let_def)
    moreover have "free_block pb (free_block vb (?vm\<lparr>vm_pages := pages\<rparr>)) = vm\<lparr>created_vcpus := n + 1, vm_pages := pages\<rparr>"
      using mmu(2,3) by (simp add: free_block_def)
    ultimately show ?thesis using mmu neg eq by simp
  next
    case rest
    have m: "mmu_creation env ?vc ?vm = Some (0, gm, rm, pages)" "vpid_allocation env ?vm = vpid_allocation env vm" using rest(4) va by simp_all
    note ret = arch_create_returns [OF m(1) va(6) assms(2), of "(b, mb, ia, ib)", unfolded m(2) va(1,10,11)]
    show ?thesis
    proof (cases "isl (vpid_allocation env vm) \<or> \<not> env_blocks_served env (b, mb, ia, ib) \<or> h_msr (ce_host env) HOST_IA32_SYSENTER_CS = None")
      case True
      then show ?thesis using rest eq ret by simp
    next
      case False
      then obtain vc' vm' where a: "?arch = Some (0, vc', vm')" "vcpu_id vc' = k" "created_vcpus vm' = n + 1" "vcpu_array vm' = vcpu_array vm"
        using ret by auto
      have h: "host_ok (ce_host env)" using assms(2) False by (simp add: host_ok_def)
      obtain vpid buf where vp: "vpid_allocation env ?vm = Inr (vpid, buf)" using False m(2) by (cases "vpid_allocation env vm") auto
      have d: "hw_vmcs (vm_vmcss vm') k = b \<and> (if k = ce_here env then programmed env (vcpu_arch zero) (vmcs_data (vm_vmcss vm') b)
          else vmcs_data (vm_vmcss vm') b = vmcs_data (vm_vmcss vm) b)" if r: "vcpu_room env b zero k vm"
      proof -
        have "vcpu_room env b ?vc k ?vm" using r va by (simp add: vcpu_room_def)
        then show ?thesis
          by (rule arch_create_ok [OF _ va(1) _ h m(1) vp, of b mb ia ib]) (use False a(1) va(2,7) in auto)
      qed
      have "create = Some (STATUS_SUCCESS, vm'\<lparr>vcpu_array := (vcpu_array vm')(k \<mapsto> vc')\<rparr>)"
        using eq rest(1-3) a(1) by (simp add: STATUS_SUCCESS_def)
      then have "\<exists>vc vm'. create = Some (STATUS_SUCCESS, vm') \<and> created_vcpus vm' = n + 1 \<and> vcpu_array vm' = (vcpu_array vm)(k \<mapsto> vc) \<and> vcpu_id vc = k \<and>
          (vcpu_room env b zero k vm \<longrightarrow> hw_vmcs (vm_vmcss vm') k = b \<and>
            (if k = ce_here env then programmed env (vcpu_arch zero) (vmcs_data (vm_vmcss vm') b)
             else vmcs_data (vm_vmcss vm') b = vmcs_data (vm_vmcss vm) b))"
        by (intro exI [of _ vc'] exI [of _ "vm'\<lparr>vcpu_array := (vcpu_array vm')(k \<mapsto> vc')\<rparr>"]) (use a d in simp)
      then show ?thesis unfolding rest(4) using rest(1-3) by (simp only: option.case prod.case if_not_P [OF False] not_le [symmetric]) simp
    qed
  qed
qed

section \<open>Two CPUs\<close>

lemma and_seven_mult_eight: "(8 * x :: u64) AND 7 = 0"
proof -
  have "(8 * x) AND 7 = push_bit 3 x AND mask 3" by (simp add: push_bit_eq_mult mask_eq_exp_minus_1 mult.commute)
  also have "\<dots> = 0" by (rule bit_eqI) (auto simp: bit_and_iff bit_push_bit_iff bit_mask_iff)
  finally show ?thesis .
qed

text \<open>With two-dimensional paging of four levels or more the MMU needs no memory but the buckets of the table.\<close>

lemma mmu_create_ok:
  assumes "mmu_pool e (pool_reqs s) \<noteq> 0" "unat (mmu_pool e (pool_reqs s)) + 4096 < 2 ^ 64" "g_tdp_enabled g" "3 < kvm_mmu_get_tdp_level g phys"
  shows "\<exists>gm' rm' s'. kvm_mmu_create e g phys gm rm s = Some (0, gm', rm', s')"
proof -
  let ?p = "mmu_pool e (pool_reqs s)"
  let ?mem = "\<lambda>a. if a - ?p < PAGE_SIZE \<and> (a - ?p) AND 7 = 0 then Some (junk_word e) else pt_heap (s\<lparr>pool_reqs := Suc (pool_reqs s)\<rparr>) a"
  have "?mem (cell ?p i) \<noteq> None" if "i < 512" for i
  proof -
    have "(8 * of_nat i :: u64) < PAGE_SIZE" using that by (simp add: word_less_nat_alt unat_word_ariths unat_of_nat)
    moreover have "(8 * of_nat i :: u64) AND 7 = 0"
      using and_seven_mult_eight by simp
    ultimately show ?thesis by simp
  qed
  then obtain mem H where "mmu_create_table ?mem (g_Table_addr e) (g_Table s) ?p = Some (mem, H)" using create_repr [OF assms(2), of ?mem] by blast
  then show ?thesis using assms by (simp add: kvm_mmu_create_def raw_kvm_mmu_create_def Let_def)
qed

text \<open>Two CPUs; the thread that creates vCPUs runs on CPU 0.\<close>

definition demo_create_env :: create_env where
  "demo_create_env = \<lparr>ce_run = demo_run_env, ce_masks = demo_masks, ce_maxphyaddr = 39, ce_host = demo_host, ce_module = demo_module, ce_ncpus = 2,
     ce_here = 0, ce_tr_base = 0, ce_find_clear = (\<lambda>_. None), ce_enable_vpid = False\<rparr>"

definition demo_vcpu_mmu :: vcpu_mmu where
  "demo_vcpu_mmu = \<lparr>mmu_of = demo_mmu, prev_roots = [], tdp_page_fault_set = False, gva_to_gpa_fn = None\<rparr>"

definition demo_vcpu :: vcpu where
  "demo_vcpu = \<lparr>vcpu_id = 0, vcpu_cpu = 0, vcpu_pid = 0, preempted = False, vcpu_ready = False, vcpu_run_page = 0, mcg_cap = 0, vcpu_arch = demo_reset,
     guest_mmu = demo_vcpu_mmu, root_mmu = demo_vcpu_mmu, vmcs01 = 0, loaded_vmcs_of = None\<rparr>"

definition demo_vm_state :: vm_state where
  "demo_vm_state = \<lparr>created_vcpus = 0, max_vcpus = 2, vcpu_array = Map.empty,
     vm_vmcss = \<lparr>lv = (\<lambda>_. \<lparr>lv_vmcs = 0, lv_shadow_vmcs = 0, lv_cpu = -1, lv_launched = False, lv_vcpu_id = 0, lv_hv_timer_soft_disabled = False,
       lv_msr_bitmap = 0, lv_io_bitmap_a = 0, lv_io_bitmap_b = 0\<rparr>), on_cpu = (\<lambda>_. []), current_vmcs = (\<lambda>_. 0), hw_vmcs = (\<lambda>_. 0),
       vmcs_data = (\<lambda>_ _. 0), pool = []\<rparr>,
     vm_vpids = None, vm_pages = fresh_state, vm_blocks = []\<rparr>"

lemma demo_room: "k < 2 \<Longrightarrow> vcpu_room demo_create_env 0x7000 demo_vcpu k demo_vm_state"
  by (auto simp: vcpu_room_def demo_create_env_def demo_vm_state_def demo_vcpu_def new_vmcs_def zeroed_def demo_reset_def demo_run_def demo_vmx_vcpu_def)

lemma demo_mmu: "\<exists>gm rm s. mmu_creation demo_create_env demo_vcpu demo_vm_state = Some (0, gm, rm, s)"
  unfolding demo_create_env_def demo_vcpu_def demo_vm_state_def demo_run_env_def create_env.simps run_env.simps vcpu.simps vm_state.simps
  by (rule mmu_create_ok) (simp_all add: load_env_def demo_menv_def fresh_state_def tdp_globals_def kvm_configure_mmu_def
    kvm_mmu_x86_module_init_def kvm_mmu_get_tdp_level_def)

text \<open>The vCPU of the other CPU is created, and its instruction pointer is still zero; on \<open>plain_host\<close> none is.\<close>

theorem create_vcpu_outcomes_witness:
  "\<exists>vm1 vm2. kvm_vm_ioctl_create_vcpu demo_create_env 1 2 (0x7000, 3, 4, 5) demo_vcpu 0 demo_vm_state = Some (0, vm1) \<and>
     vmcs_data (vm_vmcss vm1) 0x7000 GUEST_RIP = 0x50000 \<and>
     kvm_vm_ioctl_create_vcpu demo_create_env 1 2 (0x7000, 3, 4, 5) demo_vcpu 1 demo_vm_state = Some (0, vm2) \<and>
     vmcs_data (vm_vmcss vm2) 0x7000 GUEST_RIP = 0 \<and>
     kvm_vm_ioctl_create_vcpu demo_create_env 1 2 (0, 3, 4, 5) demo_vcpu 1 demo_vm_state = None \<and>
     kvm_vm_ioctl_create_vcpu (demo_create_env\<lparr>ce_host := plain_host\<rparr>) 1 2 (0x7000, 3, 4, 5) demo_vcpu 0 demo_vm_state = None"
proof -
  obtain gm rm s where m: "mmu_creation demo_create_env demo_vcpu demo_vm_state = Some (0, gm, rm, s)" using demo_mmu by blast
  have z: "loaded_vmcs_of demo_vcpu = None" "created_vcpus demo_vm_state < max_vcpus demo_vm_state" "ce_here demo_create_env = 0"
    "vmcs_data (vm_vmcss demo_vm_state) b f = 0" "ce_host demo_create_env = demo_host" "\<not> isl (vpid_allocation demo_create_env demo_vm_state)" for b f
    by (simp_all add: demo_vcpu_def demo_vm_state_def demo_create_env_def allocate_vpid_def)
  have bl: "env_blocks_served demo_create_env (0x7000, 3, 4, 5)" "\<not> env_blocks_served demo_create_env (0, 3, 4, 5)"
    by (simp_all add: env_blocks_served_def blocks_served_def)
  have cpu: "cpu_ok (ce_host demo_create_env)" "cpu_ok (ce_host (demo_create_env\<lparr>ce_host := plain_host\<rparr>))" using demo_cpu_ok z(5) by simp_all
  note c = create_vcpu_outcomes [OF z(1) cpu(1), where vm = demo_vm_state and vb = 1 and pb = 2]
  obtain vm1 where 1: "kvm_vm_ioctl_create_vcpu demo_create_env 1 2 (0x7000, 3, 4, 5) demo_vcpu 0 demo_vm_state = Some (0, vm1)"
      "programmed demo_create_env (vcpu_arch demo_vcpu) (vmcs_data (vm_vmcss vm1) 0x7000)"
    using c [of "0x7000" 3 4 5 0] demo_room [of 0] z m bl demo_host_ok(3) by (auto simp: STATUS_SUCCESS_def)
  have "vmcs_data (vm_vmcss vm1) 0x7000 GUEST_RIP = 0x50000"
    by (rule holdsD [OF 1(2) [unfolded programmed_def]]) (simp add: guest_area_def demo_create_env_def demo_host_def)
  moreover obtain vm2 where "kvm_vm_ioctl_create_vcpu demo_create_env 1 2 (0x7000, 3, 4, 5) demo_vcpu 1 demo_vm_state = Some (0, vm2)"
      "vmcs_data (vm_vmcss vm2) 0x7000 = vmcs_data (vm_vmcss demo_vm_state) 0x7000"
    using c [of "0x7000" 3 4 5 1] demo_room [of 1] z m bl demo_host_ok(3) by (auto simp: STATUS_SUCCESS_def)
  moreover have "kvm_vm_ioctl_create_vcpu demo_create_env 1 2 (0, 3, 4, 5) demo_vcpu 1 demo_vm_state = None"
    using c [of 0 3 4 5 1] z m bl by auto
  moreover have "kvm_vm_ioctl_create_vcpu (demo_create_env\<lparr>ce_host := plain_host\<rparr>) 1 2 (0x7000, 3, 4, 5) demo_vcpu 0 demo_vm_state = None"
    using create_vcpu_outcomes [OF z(1) cpu(2), where vm = demo_vm_state and vb = 1 and pb = 2 and b = "0x7000" and mb = 3 and ia = 4 and ib = 5 and k = 0]
      z m demo_host_ok(2) by auto
  ultimately show ?thesis using 1(1) z(4) by auto
qed

end
