(* ===== verification/Spec2Isabelle.thy ===== *)
theory Spec2Isabelle
  imports Rbtree_Props Memslots_Flaws Tdp_Iter_Props Hash_Table_Props Vcpu_Slot Tdp_Roots Vmx_Props Vmx_Segment_Props
    Kvm_Hardware_Props Vcpu_Cr_Props Mmu_Load_Props Vcpu_Run_Props Vcpu_Create_Props
begin

text \<open>
  A verification development for svmx, a Windows driver that ports the core of the KVM hypervisor.

  \<^bold>\<open>The program.\<close> A user process registers guest memory (\<^verbatim>\<open>src/svmx/kvm_main.c\<close>), which the driver keeps
  as memory slots: one red-black tree (\<^verbatim>\<open>rbtree.c\<close>) ordered by guest frame and one hash table of lists
  (\<^verbatim>\<open>list.h\<close>, \<^verbatim>\<open>hash.h\<close>) by id, in two copies of which one is active. When the guest touches memory, the
  processor reports an EPT violation; \<^verbatim>\<open>kvm_mmu_page_fault\<close> (\<^verbatim>\<open>mmu.c\<close>) looks up the slot, finds the host
  frame and builds the path of page tables to it, either as shadow pages (\<^verbatim>\<open>mmu.c\<close>) or through the TDP MMU
  (\<^verbatim>\<open>tdp_mmu.c\<close>, \<^verbatim>\<open>tdp_iter.c\<close>), out of object caches filled beforehand. The entries are made by
  \<^verbatim>\<open>spte.c\<close>, and a pointer hash table (\<^verbatim>\<open>mphashtable.c\<close>) leads from a page of entries to its description.
  Below that, \<^verbatim>\<open>vmx.c\<close> negotiates the execution controls with the processor, programs them into a VMCS,
  keeps the guest's segment and control registers there, and enters and leaves VMX operation on each CPU.
  The guest is the running system itself: the creation of a vCPU resets it to the state of the current CPU.
  The request to run a vCPU (\<^verbatim>\<open>kvm_arch_vcpu_ioctl_run\<close>, \<^verbatim>\<open>x86.c\<close>) is a loop around these parts: load the root of
  the MMU, enter the guest, dispatch the exit to its handler, one of which is the page fault above.

  \<^bold>\<open>Conventions.\<close> Machine integers are words of their width. Memory is a map from addresses to objects or
  to 64-bit cells, and NULL is 0. A call that faults or does not return has the value \<^const>\<open>None\<close> (in
  \<^verbatim>\<open>Kvm_Hardware\<close>, an \<^const>\<open>Inl\<close> that names the fault), so a theorem that a call returns \<^const>\<open>Some\<close> states
  memory safety and termination too. Loops whose end is not clear are \<^theory_text>\<open>partial_function (option)\<close>; the
  others end by a measure. A name that starts with two underscores in C starts with \<open>raw_\<close> here.

  \<^bold>\<open>Theories.\<close>
  \<^item> \<^verbatim>\<open>Svmx_Prelude\<close>: integer types, masks, status codes, shared lemmas on words and options.
  \<^item> \<^verbatim>\<open>Rbtree\<close> models \<^verbatim>\<open>rbtree.c\<close>, \<^verbatim>\<open>rbtree.h\<close> and \<^verbatim>\<open>rbtree_augmented.h\<close> over a heap of nodes with packed
    parent and colour. \<^verbatim>\<open>Rbtree_Spec\<close> has the coloured trees, \<^verbatim>\<open>Rbtree_Insert\<close>, \<^verbatim>\<open>Rbtree_Erase\<close>,
    \<^verbatim>\<open>Rbtree_Unlink\<close> and \<^verbatim>\<open>Rbtree_Walk\<close> the correctness of the operations, \<^verbatim>\<open>Rbtree_Interface\<close> the
    contract as a locale with its interpretation, \<^verbatim>\<open>Rbtree_Props\<close> the properties C1 to C4.
  \<^item> \<^verbatim>\<open>Hlist\<close> models the bucket lists, hashes and table of \<^verbatim>\<open>list.h\<close>, \<^verbatim>\<open>hash.h\<close>, \<^verbatim>\<open>hashtable.h\<close>.
  \<^item> \<^verbatim>\<open>Memslots\<close> and \<^verbatim>\<open>Memory_Region\<close> model the slots and the registration of regions, down to the
    architecture hooks of \<^verbatim>\<open>x86.c\<close>; \<^verbatim>\<open>Memslots_Lookup\<close>, \<^verbatim>\<open>Memslots_Update\<close>, \<^verbatim>\<open>Memory_Region_Inv\<close> and
    \<^verbatim>\<open>Memory_Region_Set\<close> have the invariant and its preservation. C5 to C10 (\<^verbatim>\<open>Memslots_Props\<close>): lookups agree
    with linear searches, registration does what it says, bad requests are refused. C11 and C12
    (\<^verbatim>\<open>Memslots_Flaws\<close>): where the code departs from its intent. \<^verbatim>\<open>Vcpu_Slot\<close>: the lookup with a cache per
    vCPU, coherent over runs of lookups, registrations and exchanges of flags (C22).
  \<^item> \<^verbatim>\<open>Page_Size\<close>, \<^verbatim>\<open>Spte\<close> and \<^verbatim>\<open>Spte_Props\<close>: masks and entries (C13 to C16).
  \<^item> \<^verbatim>\<open>Tdp_Iter\<close>, \<^verbatim>\<open>Tdp_Iter_Props\<close>: the walk over page tables against a recursive descent (C18).
  \<^item> \<^verbatim>\<open>Hash_Table\<close> models \<^verbatim>\<open>mphashtable.c\<close>; \<^verbatim>\<open>Hash_Table_Inv\<close> relates it to an association list and
    \<^verbatim>\<open>Hash_Table_Interface\<close> has the contract of a store in which the newest entry wins; C19 to C21.
  \<^item> \<^verbatim>\<open>Mmu_Cache\<close>: the object caches and the state of the MMU (C23). \<^verbatim>\<open>Shadow_Mmu\<close> and \<^verbatim>\<open>Page_Fault\<close>: shadow
    pages, reverse maps, the shadow walk, the choice of the page size, the host frame, the direct fault;
    C17, C24 and C25 (\<^verbatim>\<open>Page_Fault_Props\<close>).
  \<^item> \<^verbatim>\<open>Tdp_Mmu\<close>: roots, changed entries, the mapping of a fault and the path from \<^verbatim>\<open>kvm_mmu_page_fault\<close>
    to it; C26 and C27 (\<^verbatim>\<open>Tdp_Mmu_Props\<close>) and, over runs of taking and putting roots, C28 (\<^verbatim>\<open>Tdp_Roots\<close>).
  \<^item> \<^verbatim>\<open>Vmx_Controls\<close> and \<^verbatim>\<open>Vmx_Words\<close>: \<^verbatim>\<open>setup_vmcs_config\<close>, the control words and their shadows, with a
    locale for a shadowed control that all five words interpret; C29 and C30 (\<^verbatim>\<open>Vmx_Props\<close>).
  \<^item> \<^verbatim>\<open>Vmx_Segment\<close>: segment registers, the cache of their VMCS fields, descriptors; C31.
  \<^item> \<^verbatim>\<open>Kvm_Hardware\<close>: the usage count, VMX on each CPU, loaded VMCSs and VPIDs; C32.
  \<^item> \<^verbatim>\<open>X86_Regs\<close> and \<^verbatim>\<open>Vcpu_Cr\<close>: control registers with the bits the guest owns, the cache of registers, RFLAGS,
    the exception bitmap and the EPT pointer; C33 and C34 (\<^verbatim>\<open>Vcpu_Cr_Props\<close>).
  \<^item> \<^verbatim>\<open>Mmu_Load\<close>: the MMU of a vCPU from its creation to the load of its root, joining the caches, the roots of
    the TDP MMU and the EPT pointer; C35 and C36 (\<^verbatim>\<open>Mmu_Load_Props\<close>).
  \<^item> \<^verbatim>\<open>Vcpu_Run\<close>: VM entry and exit, the exit handlers and their dispatch, and the run loop, joining all of
    the above; C37 and C38 (\<^verbatim>\<open>Vcpu_Run_Props\<close>).
  \<^item> \<^verbatim>\<open>Vcpu_Reset\<close>: the reset of a vCPU with the whole of \<^verbatim>\<open>init_vmcs\<close>, which puts the state of the running CPU into
    the guest; \<^verbatim>\<open>Vcpu_Reset_Steps\<close> has what each step may write, C39 (\<^verbatim>\<open>Vcpu_Reset_Props\<close>) the whole, with the
    read of an MSR that no documented processor has, at which a power-on reset faults.
    \<^verbatim>\<open>Vcpu_Create\<close>: the creation of a vCPU out of the MMU, a VPID, a VMCS and the reset, with every
    outcome, and on which CPU its VMCS is written; C40 (\<^verbatim>\<open>Vcpu_Create_Props\<close>).

  \<^bold>\<open>Bounds.\<close> \<open>handle_changed_spte\<close> recurses at most \<open>max_depth\<close> = 5 tables deep, the number of levels of a
  paging structure; running out means a cycle of tables and gives no result. The fast path of a fault
  tries five times, as the counter in the source does. Everything else is total or is
  shown to end where a property says so.

  \<^bold>\<open>Parameters.\<close> The pool allocator, the translation between physical and virtual addresses, the upcasing of
  a character, \<^verbatim>\<open>RtlFindClearBits\<close>, \<^verbatim>\<open>rdmsr\<close>, \<^verbatim>\<open>cpuid\<close>, the registers of the host and the guest (what an
  entry leads to) are arguments. Locks are counters; one CPU runs at a
  time, so a compare-and-swap fails only when the entry differs already.

  \<^bold>\<open>Not modelled.\<close> The assembly around VM entry; the eviction of shadow pages (the list it walks is never initialised; a
  parameter where it is called); the AMD back end \<^verbatim>\<open>svm.c\<close>; the stubs for nested virtualization, APIC, PMU,
  CPUID and MTRR; the driver's entry points, logging and the user-mode client.
\<close>

end
